(* ===== verification/Go_Prelude.thy ===== *)
theory Go_Prelude
  imports Main "HOL-Library.Word" "HOL-Library.List_Lexorder" "HOL-Library.Char_ord"
begin

text \<open>
  The Go types and standard-library functions the components share.

  \<^item> \<open>gtime\<close> is a \<^verbatim>\<open>time.Time\<close>: nanoseconds since Go's zero time, so that
    \<^verbatim>\<open>t.IsZero()\<close> is \<open>t = 0\<close>; \<open>duration\<close> is a \<^verbatim>\<open>time.Duration\<close>
    in nanoseconds. \<open>time_sub\<close> saturates at the limits of int64, as \<^verbatim>\<open>Time.Sub\<close> does.
  \<^item> \<open>u64\<close> is a uint64. \<open>sat_incr\<close> and \<open>sat_add\<close> are the two idioms
    the code guards its counters with.
  \<^item> A Go string is a byte sequence: a \<open>string\<close> (one \<open>char\<close> per byte). Comparison
    of strings is the bytewise lexicographic order of \<open>HOL-Library.List_Lexorder\<close>.
  \<^item> \<open>sort_by\<close> is \<^verbatim>\<open>sort.Slice\<close> with a less function (a stable sort: where the
    less function leaves two elements unordered, Go's unstable sort may swap them).
\<close>

named_theorems go_simps "unfolding rules of the modelled standard library"

section \<open>Time\<close>

type_synonym gtime = int
type_synonym duration = int

abbreviation second :: duration where "second \<equiv> 1000000000"
abbreviation minute :: duration where "minute \<equiv> 60 * second"
abbreviation hour :: duration where "hour \<equiv> 60 * minute"

definition time_is_zero :: "gtime \<Rightarrow> bool" where
  [go_simps]: "time_is_zero t \<longleftrightarrow> t = 0"

definition max_duration :: duration where
  "max_duration = 2 ^ 63 - 1"

definition min_duration :: duration where
  "min_duration = - (2 ^ 63)"

definition time_sub :: "gtime \<Rightarrow> gtime \<Rightarrow> duration" where
  "time_sub a b = max min_duration (min max_duration (a - b))"

lemma time_sub_pos_iff: "time_sub a b > 0 \<longleftrightarrow> b < a"
  by (auto simp: time_sub_def max_duration_def min_duration_def)

lemma time_sub_le: "b \<le> a \<Longrightarrow> time_sub a b \<le> a - b"
  by (simp add: time_sub_def max_duration_def min_duration_def)

lemma time_sub_ge_iff:
  "min_duration < d \<Longrightarrow> d \<le> max_duration \<Longrightarrow> d \<le> time_sub a b \<longleftrightarrow> b + d \<le> a"
  by (auto simp: time_sub_def max_duration_def min_duration_def)

lemma time_sub_gt_iff:
  "min_duration \<le> d \<Longrightarrow> d < max_duration \<Longrightarrow> d < time_sub a b \<longleftrightarrow> b + d < a"
  by (auto simp: time_sub_def max_duration_def min_duration_def)

section \<open>Unsigned 64-bit counters\<close>

type_synonym u64 = "64 word"

text \<open>\<^verbatim>\<open>if c < ^uint64(0) { c++ }\<close>\<close>

definition sat_incr :: "u64 \<Rightarrow> u64" where
  "sat_incr c = (if c < - 1 then c + 1 else c)"

text \<open>\<^verbatim>\<open>if ^uint64(0)-total < count { return ^uint64(0) }; return total + count\<close>\<close>

definition sat_add :: "u64 \<Rightarrow> u64 \<Rightarrow> u64" where
  "sat_add tot cnt = (if (- 1) - tot < cnt then - 1 else tot + cnt)"

lemma unat_u64_max: "unat (- 1 :: u64) = 2 ^ 64 - 1"
  by (simp add: unsigned_minus_1_eq_mask mask_eq_exp_minus_1)

lemma u64_le_max: "unat (c :: u64) \<le> 2 ^ 64 - 1"
  using unsigned_less [of c, where 'a = nat] by simp

lemma unat_u64_max_diff: "unat ((- 1) - (c :: u64)) = 2 ^ 64 - 1 - unat c"
proof -
  have "unat c \<le> unat (- 1 :: u64)"
    using u64_le_max [of c] by (simp only: unat_u64_max)
  then have "c \<le> - 1" by (simp only: word_le_nat_alt)
  then show ?thesis by (simp only: unat_sub unat_u64_max)
qed

lemma unat_sat_incr: "unat (sat_incr c) = min (unat c + 1) (2 ^ 64 - 1)"
proof (cases "c < - 1")
  case True
  then have "unat c < 2 ^ 64 - 1"
    by (simp only: word_less_nat_alt unat_u64_max)
  with True show ?thesis
    by (simp add: sat_incr_def unat_word_ariths)
next
  case False
  then have "unat c = 2 ^ 64 - 1"
    using u64_le_max [of c] by (simp add: word_less_nat_alt unat_u64_max del: word_order.not_eq_extremum)
  with False show ?thesis by (simp add: sat_incr_def)
qed

lemma sat_incr_ge: "c \<le> sat_incr c"
  using u64_le_max [of c] by (simp add: word_le_nat_alt unat_sat_incr)

lemma sat_incr_nonzero: "sat_incr c \<noteq> 0"
proof -
  have "unat (sat_incr c) > 0" by (simp add: unat_sat_incr)
  then show ?thesis by (metis unat_0 less_irrefl)
qed

lemma sat_incr_0 [simp]: "sat_incr 0 = 1"
proof -
  have "(0 :: u64) < - 1" by (simp only: word_less_nat_alt unat_u64_max unat_0) simp
  then show ?thesis by (simp add: sat_incr_def)
qed

lemma unat_sat_add: "unat (sat_add a b) = min (unat a + unat b) (2 ^ 64 - 1)"
proof (cases "(- 1) - a < b")
  case True
  then have "2 ^ 64 - 1 - unat a < unat b"
    by (simp only: word_less_nat_alt unat_u64_max_diff)
  with True show ?thesis
    using u64_le_max [of a] by (simp add: sat_add_def unat_u64_max)
next
  case False
  then have "unat a + unat b \<le> 2 ^ 64 - 1"
    using u64_le_max [of a] by (simp only: word_less_nat_alt unat_u64_max_diff)
  with False show ?thesis
    by (simp add: sat_add_def unat_word_ariths)
qed

lemma sat_add_ge1: "a \<le> sat_add a b"
  using u64_le_max [of a] by (simp add: word_le_nat_alt unat_sat_add)

lemma sat_add_ge2: "b \<le> sat_add a b"
  using u64_le_max [of b] by (simp add: word_le_nat_alt unat_sat_add)

lemma sat_add_commute: "sat_add a b = sat_add b a"
  by (rule word_unat_eq_iff [THEN iffD2]) (simp add: unat_sat_add add.commute)

lemma sat_add_assoc: "sat_add (sat_add a b) c = sat_add a (sat_add b c)"
  by (rule word_unat_eq_iff [THEN iffD2]) (simp add: unat_sat_add min_def)

section \<open>Strings\<close>

text \<open>
  \<open>space_runes\<close> lists the UTF-8 encodings of the code points for which
  \<^verbatim>\<open>unicode.IsSpace\<close> holds; \<open>trim_space\<close> is \<^verbatim>\<open>strings.TrimSpace\<close>. A UTF-8
  encoding starts with a lead byte that no other encoding holds inside, so cutting a matching
  prefix (suffix) is cutting the first (last) rune.
\<close>

abbreviation byte :: "nat \<Rightarrow> char" where "byte n \<equiv> char_of n"

lemma control_bytes: "byte 0 = CHR 0x00" "byte 9 = CHR 0x09" "byte 10 = CHR 0x0A" "byte 13 = CHR 0x0D"
  by (simp_all add: char_of_eq_iff take_bit_eq_mod)

definition space_runes :: "string list" where
  "space_runes =
     [[byte 9], [byte 10], [byte 11], [byte 12], [byte 13], [byte 32],
      [byte 194, byte 133], [byte 194, byte 160], [byte 225, byte 154, byte 128]] @
     map (\<lambda>b. [byte 226, byte 128, byte b]) ([128..<139] @ [168, 169, 175]) @
     [[byte 226, byte 129, byte 159], [byte 227, byte 128, byte 128]]"

definition has_prefix :: "string \<Rightarrow> string \<Rightarrow> bool" where
  "has_prefix s p \<longleftrightarrow> take (length p) s = p"

definition has_suffix :: "string \<Rightarrow> string \<Rightarrow> bool" where
  "has_suffix s p \<longleftrightarrow> has_prefix (rev s) (rev p)"

text \<open>The space rune a string starts with, if any.\<close>

definition lead_rune :: "string list \<Rightarrow> string \<Rightarrow> string option" where
  "lead_rune rs s = find (\<lambda>r. r \<noteq> [] \<and> has_prefix s r) rs"

lemma lead_rune_nonempty: "lead_rune rs s = Some r \<Longrightarrow> r \<noteq> [] \<and> has_prefix s r"
  by (auto simp: lead_rune_def find_Some_iff)

function strip_left :: "string list \<Rightarrow> string \<Rightarrow> string" where
  "strip_left rs s = (case lead_rune rs s of None \<Rightarrow> s | Some r \<Rightarrow> strip_left rs (drop (length r) s))"
  by pat_completeness auto
termination
proof (relation "measure (\<lambda>(rs, s). length s)")
  fix rs s r
  assume "lead_rune rs s = Some r"
  then have "r \<noteq> []" and "has_prefix s r" by (auto dest: lead_rune_nonempty)
  then have "s \<noteq> []" by (auto simp: has_prefix_def)
  with \<open>r \<noteq> []\<close> show "((rs, drop (length r) s), (rs, s)) \<in> measure (\<lambda>(rs, s). length s)"
    by simp
qed simp

declare strip_left.simps [simp del]

definition trim_space :: "string \<Rightarrow> string" where
  "trim_space s = rev (strip_left (map rev space_runes) (rev (strip_left space_runes s)))"

lemma strip_left_Nil [simp]: "strip_left rs [] = []"
proof -
  have "lead_rune rs [] = None"
    by (auto simp: lead_rune_def find_None_iff has_prefix_def)
  then show ?thesis by (simp add: strip_left.simps)
qed

lemma trim_space_Nil [simp]: "trim_space [] = []"
  by (simp add: trim_space_def)

text \<open>A string that starts and ends with a printing ASCII character has nothing to trim.\<close>

definition visible :: "char \<Rightarrow> bool" where
  "visible c \<longleftrightarrow> CHR ''!'' \<le> c \<and> c \<le> CHR ''~''"

lemma space_runes_invisible: "r \<in> set space_runes \<Longrightarrow> r \<noteq> [] \<and> \<not> visible (hd r) \<and> \<not> visible (last r)"
  by (auto simp: space_runes_def visible_def less_eq_char_def upt_rec)

lemma lead_rune_visible:
  assumes "\<forall>r \<in> set rs. r = [] \<or> \<not> visible (hd r)" and "s \<noteq> []" and "visible (hd s)"
  shows "lead_rune rs s = None"
proof -
  have "\<not> has_prefix s r" if "r \<in> set rs" "r \<noteq> []" for r
  proof
    assume "has_prefix s r"
    then have "hd s = hd r" using that(2) assms(2) by (cases r; cases s) (auto simp: has_prefix_def)
    with assms(1,3) that show False by auto
  qed
  then show ?thesis by (auto simp: lead_rune_def find_None_iff)
qed

lemma trim_space_visible:
  assumes "s \<noteq> []" and "visible (hd s)" and "visible (last s)"
  shows "trim_space s = s"
proof -
  have "strip_left space_runes s = s"
    by (subst strip_left.simps) (use space_runes_invisible assms in \<open>auto simp: lead_rune_visible\<close>)
  moreover have "strip_left (map rev space_runes) (rev s) = rev s"
    by (subst strip_left.simps) (use space_runes_invisible assms in \<open>auto simp: lead_rune_visible hd_rev\<close>)
  ultimately show ?thesis by (simp add: trim_space_def)
qed

text \<open>\<^verbatim>\<open>strings.ToLower\<close> and \<^verbatim>\<open>strings.ToUpper\<close> on ASCII bytes; the
  components that use them say what that means for other code points.\<close>

definition lower_char :: "char \<Rightarrow> char" where
  "lower_char c = (if CHR ''A'' \<le> c \<and> c \<le> CHR ''Z'' then char_of (of_char c + 32 :: nat) else c)"

definition upper_char :: "char \<Rightarrow> char" where
  "upper_char c = (if CHR ''a'' \<le> c \<and> c \<le> CHR ''z'' then char_of (of_char c - 32 :: nat) else c)"

definition to_lower :: "string \<Rightarrow> string" where
  "to_lower = map lower_char"

definition to_upper :: "string \<Rightarrow> string" where
  "to_upper = map upper_char"

definition contains_str :: "string \<Rightarrow> string \<Rightarrow> bool" where
  "contains_str s sub \<longleftrightarrow> (\<exists>i \<in> set [0..<Suc (length s)]. has_prefix (drop i s) sub)"

text \<open>\<^verbatim>\<open>hex.DecodeString(s)\<close> succeeds.\<close>

definition hex_char :: "char \<Rightarrow> bool" where
  "hex_char c \<longleftrightarrow> (CHR ''0'' \<le> c \<and> c \<le> CHR ''9'') \<or> (CHR ''a'' \<le> c \<and> c \<le> CHR ''f'') \<or>
     (CHR ''A'' \<le> c \<and> c \<le> CHR ''F'')"

definition hex_decodes :: "string \<Rightarrow> bool" where
  "hex_decodes s \<longleftrightarrow> even (length s) \<and> list_all hex_char s"

section \<open>Loops\<close>

text \<open>The invariant rule of a range loop.\<close>

lemma fold_invariant:
  assumes "P s" and "\<And>x s. x \<in> set xs \<Longrightarrow> P s \<Longrightarrow> P (f x s)"
  shows "P (fold f xs s)"
  using assms by (induction xs arbitrary: s) auto

section \<open>Sorting with a less function\<close>

fun insert_by :: "('a \<Rightarrow> 'a \<Rightarrow> bool) \<Rightarrow> 'a \<Rightarrow> 'a list \<Rightarrow> 'a list" where
  "insert_by lt x [] = [x]"
| "insert_by lt x (y # ys) = (if lt y x then y # insert_by lt x ys else x # y # ys)"

definition sort_by :: "('a \<Rightarrow> 'a \<Rightarrow> bool) \<Rightarrow> 'a list \<Rightarrow> 'a list" where
  "sort_by lt xs = foldr (insert_by lt) xs []"

lemma sort_by_Nil [simp]: "sort_by lt [] = []"
  and sort_by_Cons: "sort_by lt (x # xs) = insert_by lt x (sort_by lt xs)"
  by (simp_all add: sort_by_def)

lemma set_insert_by [simp]: "set (insert_by lt x xs) = insert x (set xs)"
  by (induction xs) auto

lemma set_sort_by [simp]: "set (sort_by lt xs) = set xs"
  by (induction xs) (simp_all add: sort_by_Cons)

lemma length_insert_by [simp]: "length (insert_by lt x xs) = Suc (length xs)"
  by (induction xs) auto

lemma length_sort_by [simp]: "length (sort_by lt xs) = length xs"
  by (induction xs) (simp_all add: sort_by_Cons)

lemma distinct_insert_by [simp]: "distinct (insert_by lt x xs) \<longleftrightarrow> x \<notin> set xs \<and> distinct xs"
  by (induction xs) auto

lemma distinct_sort_by [simp]: "distinct (sort_by lt xs) \<longleftrightarrow> distinct xs"
  by (induction xs) (simp_all add: sort_by_Cons)

text \<open>No later element is less than an earlier one, for a less function that is a strict
  weak order on the elements.\<close>

lemma sorted_insert_by:
  assumes "\<And>a b. lt a b \<Longrightarrow> \<not> lt b a"
    and "\<And>a b c. \<not> lt b a \<Longrightarrow> \<not> lt c b \<Longrightarrow> \<not> lt c a"
    and "sorted_wrt (\<lambda>a b. \<not> lt b a) xs"
  shows "sorted_wrt (\<lambda>a b. \<not> lt b a) (insert_by lt x xs)"
  using assms(3)
proof (induction xs)
  case (Cons y ys)
  show ?case
  proof (cases "lt y x")
    case True
    with Cons show ?thesis by (simp add: assms(1))
  next
    case False
    have "\<forall>z \<in> set ys. \<not> lt z x"
    proof
      fix z
      assume "z \<in> set ys"
      with Cons.prems have "\<not> lt z y" by simp
      with False show "\<not> lt z x" by (rule assms(2))
    qed
    with False Cons.prems show ?thesis by simp
  qed
qed simp

lemma sorted_sort_by:
  assumes "\<And>a b. lt a b \<Longrightarrow> \<not> lt b a"
    and "\<And>a b c. \<not> lt b a \<Longrightarrow> \<not> lt c b \<Longrightarrow> \<not> lt c a"
  shows "sorted_wrt (\<lambda>a b. \<not> lt b a) (sort_by lt xs)"
proof (induction xs)
  case (Cons x xs)
  show ?case
    unfolding sort_by_Cons by (rule sorted_insert_by [OF assms Cons.IH])
qed simp

lemma sort_by_key_sorted:
  fixes key :: "'a \<Rightarrow> 'k::linorder"
  shows "sorted (map key (sort_by (\<lambda>a b. key a < key b) xs))"
proof -
  have "sorted_wrt (\<lambda>a b. \<not> key b < key a) (sort_by (\<lambda>a b. key a < key b) xs)"
    by (rule sorted_sort_by) auto
  then show ?thesis by (simp add: sorted_map not_less)
qed

text \<open>When a report made of parts is empty.\<close>

lemma when_Nil: "(if b then [x] else []) = [] \<longleftrightarrow> \<not> b"
  by simp

lemma concat_map_Nil: "concat (map g xs) = [] \<longleftrightarrow> (\<forall>x \<in> set xs. g x = [])"
  by simp

section \<open>Machines that keep an invariant\<close>

text \<open>
  The components are objects whose methods run one at a time under a mutex: each is a step
  function on its state, and an interleaving of the goroutines that call it is a list of
  steps. The contract a component gives its callers is an invariant every step keeps.
\<close>

fun run_machine :: "('e \<Rightarrow> 's \<Rightarrow> 's) \<Rightarrow> 'e list \<Rightarrow> 's \<Rightarrow> 's" where
  "run_machine step [] s = s"
| "run_machine step (e # es) s = run_machine step es (step e s)"

lemma run_machine_append: "run_machine step (xs @ ys) s = run_machine step ys (run_machine step xs s)"
  by (induction xs arbitrary: s) auto

locale invariant_machine =
  fixes step :: "'e \<Rightarrow> 's \<Rightarrow> 's"
    and inv :: "'s \<Rightarrow> bool"
  assumes inv_step: "inv s \<Longrightarrow> inv (step e s)"
begin

lemma inv_run: "inv s \<Longrightarrow> inv (run_machine step es s)"
  by (induction es arbitrary: s) (auto intro: inv_step)

end

text \<open>A machine that also measures something no step lets shrink (a counter, a generation).\<close>

locale monotone_machine = invariant_machine +
  fixes gauge :: "'s \<Rightarrow> 'm::preorder"
  assumes gauge_step: "inv s \<Longrightarrow> gauge s \<le> gauge (step e s)"
begin

lemma gauge_run: "inv s \<Longrightarrow> gauge s \<le> gauge (run_machine step es s)"
proof (induction es arbitrary: s)
  case (Cons e es)
  have "gauge s \<le> gauge (step e s)" by (rule gauge_step [OF Cons.prems])
  also have "\<dots> \<le> gauge (run_machine step es (step e s))"
    by (rule Cons.IH [OF inv_step [OF Cons.prems]])
  finally show ?case by simp
qed simp

end

end
