(* ===== verification/Go_Map.thy ===== *)
theory Go_Map
  imports Go_Prelude "HOL-Library.AList"
begin

text \<open>
  A Go map as an association list with distinct keys (\<open>gm_ok\<close>). Assignment updates the
  entry in place or adds one at the end, and a range loop visits the entries in list order.
  Go leaves the order of a range loop unspecified: the theorems hold for every list, so for
  every order of the entries.

  \<open>oldest\<close> is the loop with which the bounded stores choose what to evict; the locale
  \<open>bounded_store\<close> is the contract those stores give: no operation takes the number of
  entries over the limit.
\<close>

type_synonym ('k, 'v) gomap = "('k \<times> 'v) list"

abbreviation gm_get :: "('k, 'v) gomap \<Rightarrow> 'k \<Rightarrow> 'v option" where
  "gm_get m k \<equiv> map_of m k"

abbreviation gm_put :: "'k \<Rightarrow> 'v \<Rightarrow> ('k, 'v) gomap \<Rightarrow> ('k, 'v) gomap" where
  "gm_put k v m \<equiv> AList.update k v m"

abbreviation gm_del :: "'k \<Rightarrow> ('k, 'v) gomap \<Rightarrow> ('k, 'v) gomap" where
  "gm_del k m \<equiv> AList.delete k m"

abbreviation gm_values :: "('k, 'v) gomap \<Rightarrow> 'v list" where
  "gm_values m \<equiv> map snd m"

definition gm_has :: "('k, 'v) gomap \<Rightarrow> 'k \<Rightarrow> bool" where
  "gm_has m k \<longleftrightarrow> gm_get m k \<noteq> None"

definition gm_ok :: "('k, 'v) gomap \<Rightarrow> bool" where
  "gm_ok m \<longleftrightarrow> distinct (map fst m)"

text \<open>\<^verbatim>\<open>for k, v := range m { if p(k, v) { delete(m, k) } }\<close>\<close>

definition gm_remove_if :: "('k \<Rightarrow> 'v \<Rightarrow> bool) \<Rightarrow> ('k, 'v) gomap \<Rightarrow> ('k, 'v) gomap" where
  "gm_remove_if p m = filter (\<lambda>(k, v). \<not> p k v) m"

lemma gm_ok_Nil [simp]: "gm_ok []"
  by (simp add: gm_ok_def)

lemma gm_ok_put [simp]: "gm_ok m \<Longrightarrow> gm_ok (gm_put k v m)"
  by (simp add: gm_ok_def distinct_update)

lemma gm_ok_del [simp]: "gm_ok m \<Longrightarrow> gm_ok (gm_del k m)"
  by (simp add: gm_ok_def distinct_delete)

lemma gm_ok_remove_if [simp]: "gm_ok m \<Longrightarrow> gm_ok (gm_remove_if p m)"
  by (auto simp: gm_ok_def gm_remove_if_def distinct_map intro: inj_on_subset)

lemma gm_has_iff: "gm_has m k \<longleftrightarrow> k \<in> fst ` set m"
  by (simp add: gm_has_def map_of_eq_None_iff)

lemma gm_get_put: "gm_get (gm_put k v m) k' = (if k' = k then Some v else gm_get m k')"
  by (simp add: update_conv)

lemma gm_get_del: "gm_get (gm_del k m) k' = (if k' = k then None else gm_get m k')"
  by (simp add: delete_conv)

lemma length_gm_put: "length (gm_put k v m) = (if gm_has m k then length m else Suc (length m))"
  by (induction m) (auto simp: gm_has_def)

lemma length_gm_del_le: "length (gm_del k m) \<le> length m"
  by (rule length_delete_le)

lemma length_gm_del:
  assumes "gm_ok m" and "gm_has m k"
  shows "Suc (length (gm_del k m)) = length m"
  using assms
proof (induction m)
  case (Cons p m)
  show ?case
  proof (cases "fst p = k")
    case True
    with Cons.prems have "k \<notin> fst ` set m" by (auto simp: gm_ok_def)
    with True show ?thesis by (simp add: delete_notin_dom)
  next
    case False
    with Cons.prems have "gm_ok m" and "gm_has m k"
      by (auto simp: gm_ok_def gm_has_def)
    with False Cons.IH show ?thesis by simp
  qed
qed (simp add: gm_has_def)

lemma length_gm_remove_if_le: "length (gm_remove_if p m) \<le> length m"
  by (simp add: gm_remove_if_def)

lemma gm_get_remove_if:
  assumes "gm_ok m"
  shows "gm_get (gm_remove_if p m) k =
    (case gm_get m k of None \<Rightarrow> None | Some v \<Rightarrow> if p k v then None else Some v)"
  using assms
proof (induction m)
  case (Cons x m)
  then have "k = fst x \<Longrightarrow> gm_get m k = None"
    by (auto simp: gm_ok_def map_of_eq_None_iff)
  moreover have "gm_ok m" using Cons.prems by (simp add: gm_ok_def)
  ultimately show ?case
    using Cons.IH by (cases x) (auto simp: gm_remove_if_def split: option.splits)
qed (simp add: gm_remove_if_def)

lemma set_gm_remove_if: "set (gm_remove_if p m) = {(k, v) \<in> set m. \<not> p k v}"
  by (auto simp: gm_remove_if_def)

lemma set_gm_put_subset: "set (gm_put k v m) \<subseteq> insert (k, v) (set m)"
  by (induction m) auto

lemma set_gm_del_subset: "set (gm_del k m) \<subseteq> set m"
  by (induction m) auto

text \<open>A sum over the values, when one is replaced or added.\<close>

lemma sum_list_put:
  fixes f :: "'v \<Rightarrow> 'a::comm_monoid_add"
  assumes "gm_ok m"
  shows "sum_list (map f (gm_values (gm_put k v m))) + (case gm_get m k of Some w \<Rightarrow> f w | None \<Rightarrow> 0) =
    sum_list (map f (gm_values m)) + f v"
  using assms
proof (induction m)
  case (Cons x m)
  have "gm_ok m" using Cons.prems by (simp add: gm_ok_def)
  from Cons.IH [OF this] show ?case by (cases x) (auto simp: ac_simps split: option.splits)
qed simp

text \<open>A property of all values, and how the operations keep it.\<close>

definition gm_all :: "('k \<Rightarrow> 'v \<Rightarrow> bool) \<Rightarrow> ('k, 'v) gomap \<Rightarrow> bool" where
  "gm_all p m \<longleftrightarrow> (\<forall>(k, v) \<in> set m. p k v)"

lemma gm_all_Nil [simp]: "gm_all p []"
  by (simp add: gm_all_def)

lemma gm_all_put [intro]: "gm_all p m \<Longrightarrow> p k v \<Longrightarrow> gm_all p (gm_put k v m)"
  using set_gm_put_subset [of k v m] by (fastforce simp: gm_all_def)

lemma gm_all_del [intro]: "gm_all p m \<Longrightarrow> gm_all p (gm_del k m)"
  using set_gm_del_subset [of k m] by (fastforce simp: gm_all_def)

lemma gm_all_remove_if [intro]: "gm_all p m \<Longrightarrow> gm_all p (gm_remove_if q m)"
  by (auto simp: gm_all_def set_gm_remove_if)

lemma gm_all_get: "gm_all p m \<Longrightarrow> gm_get m k = Some v \<Longrightarrow> p k v"
  by (auto simp: gm_all_def dest: map_of_SomeD)

section \<open>Maps with a limit\<close>

text \<open>
  \<open>bounded_map n p m\<close>: a map within its limit \<open>n\<close> whose entries satisfy
  \<open>p\<close>; \<open>has_room n k m\<close>: an assignment to \<open>k\<close> keeps it within.
\<close>

definition bounded_map :: "int \<Rightarrow> ('k \<Rightarrow> 'v \<Rightarrow> bool) \<Rightarrow> ('k, 'v) gomap \<Rightarrow> bool" where
  "bounded_map n p m \<longleftrightarrow> gm_ok m \<and> int (length m) \<le> n \<and> gm_all p m"

definition has_room :: "int \<Rightarrow> 'k \<Rightarrow> ('k, 'v) gomap \<Rightarrow> bool" where
  "has_room n k m \<longleftrightarrow> gm_has m k \<or> int (length m) < n"

lemma bounded_map_Nil [simp]: "bounded_map n p [] \<longleftrightarrow> 0 \<le> n"
  by (simp add: bounded_map_def)

lemma bounded_map_del [intro]: "bounded_map n p m \<Longrightarrow> bounded_map n p (gm_del k m)"
  using length_gm_del_le [of k m] by (auto simp: bounded_map_def)

lemma bounded_map_remove_if [intro]: "bounded_map n p m \<Longrightarrow> bounded_map n p (gm_remove_if q m)"
  using length_gm_remove_if_le [of q m] by (auto simp: bounded_map_def)

lemma bounded_map_put [intro]:
  "bounded_map n p m \<Longrightarrow> has_room n k m \<Longrightarrow> p k v \<Longrightarrow> bounded_map n p (gm_put k v m)"
  by (auto simp: bounded_map_def has_room_def length_gm_put)

lemma bounded_map_get: "bounded_map n p m \<Longrightarrow> gm_get m k = Some v \<Longrightarrow> p k v"
  by (auto simp: bounded_map_def dest: gm_all_get)

lemma has_room_get: "gm_get m k = Some v \<Longrightarrow> has_room n k m"
  by (simp add: has_room_def gm_has_def)

lemma has_room_del:
  assumes "bounded_map n p m" and "has_room n k m"
  shows "has_room n k (gm_del k' m)"
proof (cases "gm_has m k'")
  case True
  then have "Suc (length (gm_del k' m)) = length m"
    using assms(1) by (intro length_gm_del) (simp_all add: bounded_map_def)
  with assms(1) show ?thesis by (auto simp: has_room_def bounded_map_def)
next
  case False
  then have "gm_del k' m = m" by (simp add: delete_notin_dom gm_has_iff)
  with assms(2) show ?thesis by simp
qed

lemma has_room_del_oldest:
  assumes "bounded_map n p m" and "gm_has m k'"
  shows "int (length (gm_del k' m)) < n"
  using length_gm_del [of m k'] assms by (auto simp: bounded_map_def)

section \<open>Quotas\<close>

text \<open>
  \<open>group_count g x m\<close> is the number of entries of the group \<open>x\<close>, as the loops
  that guard a quota count them; \<open>within_quota n g m\<close> says that no group has more
  than \<open>n\<close>.
\<close>

definition group_count :: "('v \<Rightarrow> 'g) \<Rightarrow> 'g \<Rightarrow> ('k, 'v) gomap \<Rightarrow> nat" where
  "group_count g x m = length (filter (\<lambda>v. g v = x) (gm_values m))"

definition within_quota :: "nat \<Rightarrow> ('v \<Rightarrow> 'g) \<Rightarrow> ('k, 'v) gomap \<Rightarrow> bool" where
  "within_quota n g m \<longleftrightarrow> (\<forall>x. group_count g x m \<le> n)"

lemma within_quota_Nil [simp]: "within_quota n g []"
  by (simp add: within_quota_def group_count_def)

lemma group_count_put_new:
  "gm_get m k = None \<Longrightarrow> group_count g x (gm_put k v m) = group_count g x m + (if g v = x then 1 else 0)"
  by (induction m) (auto simp: group_count_def split: if_splits)

lemma group_count_put_same:
  "gm_get m k = Some w \<Longrightarrow> g v = g w \<Longrightarrow> group_count g x (gm_put k v m) = group_count g x m"
  by (induction m) (auto simp: group_count_def split: if_splits)

lemma group_count_remove_if_le: "group_count g x (gm_remove_if p m) \<le> group_count g x m"
  by (induction m) (auto simp: group_count_def gm_remove_if_def)

lemma group_count_del_le: "group_count g x (gm_del k m) \<le> group_count g x m"
  by (induction m) (auto simp: group_count_def)

lemma group_count_put_le: "group_count g x (gm_put k v m) \<le> group_count g x m + (if g v = x then 1 else 0)"
  by (induction m) (auto simp: group_count_def)

lemma within_quota_put:
  assumes "within_quota n g m" and "group_count g (g v) m < n"
  shows "within_quota n g (gm_put k v m)"
proof -
  have "group_count g x (gm_put k v m) \<le> n" for x
    using assms group_count_put_le [of g x k v m] by (cases "g v = x") (auto simp: within_quota_def intro: order_trans)
  then show ?thesis by (simp add: within_quota_def)
qed

lemma within_quota_put_same:
  "within_quota n g m \<Longrightarrow> gm_get m k = Some w \<Longrightarrow> g v = g w \<Longrightarrow> within_quota n g (gm_put k v m)"
  by (simp add: within_quota_def group_count_put_same)

lemma within_quota_remove_if [intro]: "within_quota n g m \<Longrightarrow> within_quota n g (gm_remove_if p m)"
  by (auto simp: within_quota_def intro: order_trans [OF group_count_remove_if_le])

lemma within_quota_del [intro]: "within_quota n g m \<Longrightarrow> within_quota n g (gm_del k m)"
  by (auto simp: within_quota_def intro: order_trans [OF group_count_del_le])

text \<open>A map with a limit on its entries and on two groupings of them.\<close>

definition quota_map :: "nat \<Rightarrow> nat \<Rightarrow> ('v \<Rightarrow> 'a) \<Rightarrow> nat \<Rightarrow> ('v \<Rightarrow> 'b) \<Rightarrow> ('k, 'v) gomap \<Rightarrow> bool" where
  "quota_map n na a nb b m \<longleftrightarrow> gm_ok m \<and> length m \<le> n \<and> within_quota na a m \<and> within_quota nb b m"

lemma quota_map_Nil [simp]: "quota_map n na a nb b []"
  by (simp add: quota_map_def)

lemma quota_map_put:
  assumes "quota_map n na a nb b m" and "length m < n" and "group_count a (a v) m < na" and "group_count b (b v) m < nb"
  shows "quota_map n na a nb b (gm_put k v m)"
  using assms by (auto simp: quota_map_def length_gm_put intro: within_quota_put)

lemma quota_map_put_same:
  "quota_map n na a nb b m \<Longrightarrow> gm_get m k = Some w \<Longrightarrow> a v = a w \<Longrightarrow> b v = b w \<Longrightarrow>
   quota_map n na a nb b (gm_put k v m)"
  by (auto simp: quota_map_def length_gm_put gm_has_def intro: within_quota_put_same)

lemma quota_map_remove_if [intro]: "quota_map n na a nb b m \<Longrightarrow> quota_map n na a nb b (gm_remove_if p m)"
  using length_gm_remove_if_le [of p m] by (auto simp: quota_map_def)

lemma quota_map_del [intro]: "quota_map n na a nb b m \<Longrightarrow> quota_map n na a nb b (gm_del k m)"
  using length_gm_del_le [of k m] by (auto simp: quota_map_def)

section \<open>Choosing the oldest entry\<close>

text \<open>
  \<^verbatim>\<open>for k, v := range m { if oldestKey == "" || v.before(oldest) || (v.equal(oldest) && k < oldestKey) { oldestKey, oldest = k, v } }\<close>
  The accumulator is the current choice.
\<close>

fun oldest_from :: "('v \<Rightarrow> gtime) \<Rightarrow> ('k::linorder \<times> gtime) option \<Rightarrow> ('k, 'v) gomap \<Rightarrow> ('k \<times> gtime) option" where
  "oldest_from seen acc [] = acc"
| "oldest_from seen acc ((k, v) # m) =
     oldest_from seen
       (case acc of None \<Rightarrow> Some (k, seen v)
        | Some (ok, ot) \<Rightarrow>
            if seen v < ot \<or> (seen v = ot \<and> k < ok) then Some (k, seen v) else acc) m"

definition oldest :: "('v \<Rightarrow> gtime) \<Rightarrow> ('k::linorder, 'v) gomap \<Rightarrow> 'k option" where
  "oldest seen m = map_option fst (oldest_from seen None m)"

lemma oldest_from_Some:
  "oldest_from seen (Some a) m \<noteq> None"
  by (induction m arbitrary: a) (auto split: prod.splits)

lemma oldest_from_in:
  "oldest_from seen acc m = Some (k, t) \<Longrightarrow>
     acc = Some (k, t) \<or> (\<exists>v. (k, v) \<in> set m \<and> t = seen v)"
  by (induction seen acc m rule: oldest_from.induct) (fastforce split: option.splits if_splits prod.splits)+

lemma oldest_None_iff: "oldest seen m = None \<longleftrightarrow> m = []"
proof (cases m)
  case (Cons p m')
  then show ?thesis
    using oldest_from_Some [of seen "(fst p, seen (snd p))" m'] by (cases p) (simp add: oldest_def)
qed (simp add: oldest_def)

lemma oldest_has: "oldest seen m = Some k \<Longrightarrow> gm_has m k"
  by (force simp: oldest_def gm_has_iff dest!: oldest_from_in)

text \<open>The choice is least by age, and by key among entries of the same age.\<close>

lemma oldest_from_least:
  "oldest_from seen acc m = Some (k, t) \<Longrightarrow>
     (\<forall>(k', v') \<in> set m. t < seen v' \<or> (t = seen v' \<and> k \<le> k')) \<and>
     (\<forall>k' t'. acc = Some (k', t') \<longrightarrow> t < t' \<or> (t = t' \<and> k \<le> k'))"
proof (induction seen acc m rule: oldest_from.induct)
  case (2 seen acc k v m)
  then show ?case by (fastforce split: option.splits if_splits prod.splits)
qed auto

lemma oldest_least:
  assumes "oldest seen m = Some k" and "(k', v') \<in> set m"
  obtains v where "(k, v) \<in> set m" and "seen v < seen v' \<or> (seen v = seen v' \<and> k \<le> k')"
proof -
  from assms(1) obtain t where t: "oldest_from seen None m = Some (k, t)"
    by (auto simp: oldest_def)
  from oldest_from_in [OF t] obtain v where v: "(k, v) \<in> set m" "t = seen v" by auto
  from oldest_from_least [OF t] assms(2) have "t < seen v' \<or> (t = seen v' \<and> k \<le> k')" by blast
  with v show ?thesis by (auto intro: that)
qed

section \<open>Bounded stores\<close>

locale bounded_store = invariant_machine step inv
  for step :: "'e \<Rightarrow> 's \<Rightarrow> 's" and inv :: "'s \<Rightarrow> bool" +
  fixes entries :: "'s \<Rightarrow> nat"
    and limit :: nat
  assumes inv_bounded: "inv s \<Longrightarrow> entries s \<le> limit"
begin

lemma run_bounded: "inv s \<Longrightarrow> entries (run_machine step es s) \<le> limit"
  by (rule inv_bounded) (rule inv_run)

end

end
