(* ===== verification/Float64.thy ===== *)
theory Float64
  imports Complex_Main Go_Prelude
begin

text \<open>
  float64 values as the rational numbers they denote. Every arithmetic operation of the code
  is the exact operation followed by \<open>f64\<close>, IEEE 754 rounding to nearest, ties to even,
  with a 53-bit significand. The exponent range is left unbounded: the values of the modelled
  components (token counts, ratios of counters, seconds) lie between \<open>2 ^ (-200)\<close> and
  \<open>2 ^ 200\<close>, far from overflow and from subnormal numbers.

  \<open>f64\<close> is monotone (\<open>f64_mono\<close>), exact on every integer multiple of a power of
  two with at most 53 significant bits (\<open>f64_exact\<close>), and maps into such numbers
  (\<open>f64_f64\<close>).
\<close>

type_synonym float64 = rat

section \<open>Binary exponents\<close>

fun bit_len :: "nat \<Rightarrow> nat" where
  "bit_len n = (if n = 0 then 0 else Suc (bit_len (n div 2)))"

declare bit_len.simps [simp del]

lemma bit_len_bounds: "0 < n \<Longrightarrow> 2 ^ (bit_len n - 1) \<le> n \<and> n < 2 ^ bit_len n"
proof (induction n rule: bit_len.induct)
  case (1 n)
  show ?case
  proof (cases "n div 2 = 0")
    case True
    with 1(2) have "n = 1" by simp
    then show ?thesis by (simp add: bit_len.simps)
  next
    case False
    then have IH: "2 ^ (bit_len (n div 2) - 1) \<le> n div 2" "n div 2 < 2 ^ bit_len (n div 2)"
      using 1 by simp_all
    have pos: "bit_len (n div 2) = Suc (bit_len (n div 2) - 1)"
      using False by (simp add: bit_len.simps [of "n div 2"])
    have "2 ^ bit_len (n div 2) = 2 * (2::nat) ^ (bit_len (n div 2) - 1)"
      by (subst pos) simp
    with IH have "2 ^ bit_len (n div 2) \<le> n" "n < 2 * 2 ^ bit_len (n div 2)" by linarith+
    with 1(2) show ?thesis by (simp add: bit_len.simps [of n])
  qed
qed

text \<open>\<open>ilog2 x\<close> is the exponent of a positive \<open>x\<close>: \<open>2 ^ ilog2 x \<le> x < 2 ^ (ilog2 x + 1)\<close>.\<close>

definition ilog2 :: "rat \<Rightarrow> int" where
  "ilog2 x = (case quotient_of x of (n, d) \<Rightarrow>
     let e = int (bit_len (nat n)) - int (bit_len (nat d))
     in if 2 powi e \<le> x then e else e - 1)"

lemma pow2_powi: "(2::rat) powi int n = 2 ^ n"
  by (simp add: power_int_def)

lemma ilog2_bounds:
  assumes "0 < x"
  shows "2 powi ilog2 x \<le> x" and "x < 2 powi (ilog2 x + 1)"
proof -
  obtain n d where q: "quotient_of x = (n, d)" by (cases "quotient_of x")
  from quotient_of_denom_pos [OF q] have d: "0 < d" .
  from quotient_of_div [OF q] have x: "x = of_int n / of_int d" .
  with assms d have n: "0 < n" by (simp add: zero_less_divide_iff)
  let ?bn = "bit_len (nat n)" and ?bd = "bit_len (nat d)"
  have bn: "0 < ?bn" and bd: "0 < ?bd" using n d by (simp_all add: bit_len.simps)
  have up: "(of_int m :: rat) < 2 ^ bit_len (nat m)" and lo: "(2::rat) ^ (bit_len (nat m) - 1) \<le> of_int m"
    if "0 < m" for m
  proof -
    have "nat m < 2 ^ bit_len (nat m)" "2 ^ (bit_len (nat m) - 1) \<le> nat m"
      using bit_len_bounds [of "nat m"] that by simp_all
    then have "m < 2 ^ bit_len (nat m)" "2 ^ (bit_len (nat m) - 1) \<le> m"
      using that by (simp_all add: nat_less_iff le_nat_iff)
    then have "(of_int m :: rat) < of_int (2 ^ bit_len (nat m))"
      and "(of_int (2 ^ (bit_len (nat m) - 1)) :: rat) \<le> of_int m"
      by (simp_all only: of_int_less_iff of_int_le_iff)
    then show "(of_int m :: rat) < 2 ^ bit_len (nat m)" "(2::rat) ^ (bit_len (nat m) - 1) \<le> of_int m"
      by simp_all
  qed
  let ?e = "int ?bn - int ?bd"
  have "x < 2 ^ ?bn / 2 ^ (?bd - 1)"
    unfolding x using up [OF n] lo [OF d] d by (intro frac_less) (use n in auto)
  also have "\<dots> = 2 powi (?e + 1)"
    using bd by (simp add: power_int_diff power_int_add of_nat_diff pow2_powi power_diff)
  finally have hi: "x < 2 powi (?e + 1)" .
  have "2 powi (?e - 1) = (2::rat) ^ (?bn - 1) / 2 ^ ?bd"
    using bn by (simp add: power_int_diff pow2_powi power_diff)
  also have "\<dots> \<le> x"
    unfolding x using up [OF d] lo [OF n] d n by (intro frac_le) auto
  finally have lo: "2 powi (?e - 1) \<le> x" .
  show "2 powi ilog2 x \<le> x" and "x < 2 powi (ilog2 x + 1)"
    using hi lo by (auto simp: ilog2_def q Let_def)
qed

lemma powi2_mono: "a \<le> b \<Longrightarrow> (2::rat) powi a \<le> 2 powi b"
  by (rule power_int_increasing) auto

lemma powi2_less: "(2::rat) powi a < 2 powi b \<Longrightarrow> a < b"
  using powi2_mono [of b a] by (meson linorder_not_less)

lemma ilog2_mono: "0 < x \<Longrightarrow> x \<le> y \<Longrightarrow> ilog2 x \<le> ilog2 y"
proof -
  assume "0 < x" and "x \<le> y"
  then have "(2::rat) powi ilog2 x < 2 powi (ilog2 y + 1)"
    using ilog2_bounds(1) [of x] ilog2_bounds(2) [of y] by linarith
  then show ?thesis by (auto dest: powi2_less)
qed

section \<open>Rounding\<close>

definition round_even :: "rat \<Rightarrow> int" where
  "round_even y = (let f = \<lfloor>y\<rfloor>; r = y - of_int f in
     if r < 1 / 2 then f else if 1 / 2 < r then f + 1 else if even f then f else f + 1)"

lemma round_even_of_int [simp]: "round_even (of_int n) = n"
  by (simp add: round_even_def)

lemma round_even_mono: "x \<le> y \<Longrightarrow> round_even x \<le> round_even y"
proof -
  assume le: "x \<le> y"
  then have fl: "\<lfloor>x\<rfloor> \<le> \<lfloor>y\<rfloor>" by (rule floor_mono)
  show ?thesis
  proof (cases "\<lfloor>x\<rfloor> = \<lfloor>y\<rfloor>")
    case True
    with le show ?thesis by (auto simp: round_even_def Let_def)
  next
    case False
    with fl have "\<lfloor>x\<rfloor> + 1 \<le> \<lfloor>y\<rfloor>" by simp
    then show ?thesis by (auto simp: round_even_def Let_def)
  qed
qed

definition f64_pos :: "rat \<Rightarrow> rat" where
  "f64_pos x = of_int (round_even (x / 2 powi (ilog2 x - 52))) * 2 powi (ilog2 x - 52)"

definition f64 :: "rat \<Rightarrow> float64" where
  "f64 x = (if x = 0 then 0 else if x < 0 then - f64_pos (- x) else f64_pos x)"

lemma f64_0 [simp]: "f64 0 = 0"
  by (simp add: f64_def)

lemma f64_minus: "f64 (- x) = - f64 x"
  by (auto simp: f64_def)

lemma f64_pos_bounds:
  assumes "0 < x"
  shows "2 powi ilog2 x \<le> f64_pos x" and "f64_pos x \<le> 2 powi (ilog2 x + 1)"
proof -
  let ?u = "(2::rat) powi (ilog2 x - 52)"
  have u: "0 < ?u" by (simp add: zero_less_power_int)
  have e0: "(2::rat) powi ilog2 x = of_int (2 ^ 52) * ?u"
    and e1: "(2::rat) powi (ilog2 x + 1) = of_int (2 ^ 53) * ?u"
    by (simp_all add: power_int_diff power_int_add)
  have "of_int (2 ^ 52) \<le> x / ?u"
    using ilog2_bounds(1) [OF assms] u unfolding e0 by (simp add: pos_le_divide_eq)
  then have "2 ^ 52 \<le> round_even (x / ?u)"
    by (metis round_even_mono round_even_of_int)
  then have "of_int (2 ^ 52) * ?u \<le> of_int (round_even (x / ?u)) * ?u"
    using u by (intro mult_right_mono) (simp_all only: of_int_le_iff less_imp_le)
  then show "2 powi ilog2 x \<le> f64_pos x"
    unfolding e0 by (simp add: f64_pos_def)
  have "x / ?u \<le> of_int (2 ^ 53)"
    using ilog2_bounds(2) [OF assms] u unfolding e1 by (simp add: pos_divide_le_eq)
  then have "round_even (x / ?u) \<le> 2 ^ 53"
    by (metis round_even_mono round_even_of_int)
  then have "of_int (round_even (x / ?u)) * ?u \<le> of_int (2 ^ 53) * ?u"
    using u by (intro mult_right_mono) (simp_all only: of_int_le_iff less_imp_le)
  then show "f64_pos x \<le> 2 powi (ilog2 x + 1)"
    unfolding e1 by (simp add: f64_pos_def)
qed

lemma f64_pos_mono: "0 < x \<Longrightarrow> x \<le> y \<Longrightarrow> f64_pos x \<le> f64_pos y"
proof -
  assume x: "0 < x" and le: "x \<le> y"
  then have y: "0 < y" by simp
  from x le have e: "ilog2 x \<le> ilog2 y" by (rule ilog2_mono)
  show ?thesis
  proof (cases "ilog2 x = ilog2 y")
    case True
    let ?u = "(2::rat) powi (ilog2 y - 52)"
    have u: "0 < ?u" by (simp add: zero_less_power_int)
    with le have "x / ?u \<le> y / ?u" by (simp add: divide_right_mono less_imp_le)
    then have "round_even (x / ?u) \<le> round_even (y / ?u)" by (rule round_even_mono)
    with u show ?thesis by (simp add: f64_pos_def True mult_right_mono less_imp_le)
  next
    case False
    with e have "ilog2 x + 1 \<le> ilog2 y" by simp
    have "f64_pos x \<le> 2 powi (ilog2 x + 1)" using f64_pos_bounds(2) [OF x] .
    also have "\<dots> \<le> 2 powi ilog2 y" using \<open>ilog2 x + 1 \<le> ilog2 y\<close> by (rule powi2_mono)
    also have "\<dots> \<le> f64_pos y" using f64_pos_bounds(1) [OF y] .
    finally show ?thesis .
  qed
qed

lemma f64_pos_positive: "0 < x \<Longrightarrow> 0 < f64_pos x"
  using f64_pos_bounds(1) [of x] by (meson less_le_trans zero_less_numeral zero_less_power_int)

theorem f64_mono: "x \<le> y \<Longrightarrow> f64 x \<le> f64 y"
proof -
  assume le: "x \<le> y"
  consider "0 < x" | "x \<le> 0" "0 \<le> y" | "y < 0" by linarith
  then show ?thesis
  proof cases
    case 1
    with le show ?thesis by (auto simp: f64_def f64_pos_mono)
  next
    case 2
    then show ?thesis
      using f64_pos_positive [of "- x"] f64_pos_positive [of y] by (auto simp: f64_def)
  next
    case 3
    with le have "f64_pos (- y) \<le> f64_pos (- x)" by (intro f64_pos_mono) auto
    with 3 le show ?thesis by (auto simp: f64_def)
  qed
qed

lemma f64_nonneg [simp]: "0 \<le> x \<Longrightarrow> 0 \<le> f64 x"
  using f64_mono [of 0 x] by simp

section \<open>Exactly representable values\<close>

theorem f64_exact:
  assumes "\<bar>m\<bar> \<le> 2 ^ 53" and "x = of_int m * 2 powi j"
  shows "f64 x = x"
proof -
  have pos: "f64_pos y = y" if "0 < k" "k \<le> 2 ^ 53" "y = of_int k * 2 powi j" for k :: int and y :: rat
  proof -
    have y: "0 < y" using that(1,3) by (simp add: zero_less_power_int)
    have "y \<le> 2 powi (53 + j)"
      using that(2) mult_right_mono [of "of_int k :: rat" "of_int (2 ^ 53)" "2 powi j"]
      unfolding that(3) power_int_add [OF disjI1, of "2::rat", simplified]
      by (simp add: less_imp_le zero_less_power_int del: of_int_power)
    with ilog2_bounds(1) [OF y] have "(2::rat) powi ilog2 y \<le> 2 powi (53 + j)" by linarith
    show ?thesis
    proof (cases "ilog2 y \<le> 52 + j")
      case True
      define n where "n = nat (j - (ilog2 y - 52))"
      have "j = (ilog2 y - 52) + int n" using True by (simp add: n_def)
      then have "(2::rat) powi j = of_int (2 ^ n) * 2 powi (ilog2 y - 52)"
        by (simp add: power_int_add pow2_powi)
      then have *: "y / 2 powi (ilog2 y - 52) = of_int (k * 2 ^ n)"
        by (subst that(3)) (simp add: power_int_not_zero)
      show ?thesis unfolding f64_pos_def * round_even_of_int
        unfolding * [symmetric] by simp
    next
      case False
      then have "53 + j \<le> ilog2 y" by simp
      then have "(2::rat) powi (53 + j) \<le> 2 powi ilog2 y" by (rule powi2_mono)
      with ilog2_bounds(1) [OF y] \<open>y \<le> 2 powi (53 + j)\<close> have "y = 2 powi ilog2 y" by linarith
      then have *: "y / 2 powi (ilog2 y - 52) = of_int (2 ^ 52)"
        using y by (simp add: power_int_diff)
      show ?thesis unfolding f64_pos_def * round_even_of_int
        unfolding * [symmetric] by simp
    qed
  qed
  show ?thesis
  proof (cases m "0::int" rule: linorder_cases)
    case less
    then have "f64_pos (- x) = - x"
      using assms by (intro pos [of "- m"]) auto
    moreover have "x < 0"
      using less assms(2) by (simp add: mult_neg_pos zero_less_power_int)
    ultimately show ?thesis by (simp add: f64_def)
  next
    case greater
    then have "f64_pos x = x" using assms by (intro pos [of m]) auto
    moreover have "0 < x" using greater assms(2) by (simp add: zero_less_power_int)
    ultimately show ?thesis by (simp add: f64_def)
  qed (use assms in simp)
qed

corollary f64_of_int: "\<bar>n\<bar> \<le> 2 ^ 53 \<Longrightarrow> f64 (of_int n) = of_int n"
  by (rule f64_exact [where m = n and j = 0]) simp_all

corollary f64_of_nat: "n \<le> 2 ^ 53 \<Longrightarrow> f64 (of_nat n) = of_nat n"
  using f64_of_int [of "int n"] by simp

corollary f64_1 [simp]: "f64 1 = 1"
  using f64_of_nat [of 1] by simp

lemma f64_le_of_nat: "x \<le> of_nat n \<Longrightarrow> n \<le> 2 ^ 53 \<Longrightarrow> f64 x \<le> of_nat n"
  using f64_mono [of x "of_nat n"] by (simp add: f64_of_nat)

lemma f64_ge_of_nat: "of_nat n \<le> x \<Longrightarrow> n \<le> 2 ^ 53 \<Longrightarrow> of_nat n \<le> f64 x"
  using f64_mono [of "of_nat n" x] by (simp add: f64_of_nat)

text \<open>A float: a value rounding leaves alone. Every result of \<open>f64\<close> is one.\<close>

definition is_f64 :: "rat \<Rightarrow> bool" where
  "is_f64 x \<longleftrightarrow> f64 x = x"

lemma f64_form:
  assumes "0 < x"
  obtains m where "0 < m" and "m \<le> 2 ^ 53" and "f64_pos x = of_int m * 2 powi (ilog2 x - 52)"
proof
  let ?u = "(2::rat) powi (ilog2 x - 52)"
  let ?m = "round_even (x / ?u)"
  have u: "0 < ?u" by (simp add: zero_less_power_int)
  show eq: "f64_pos x = of_int ?m * ?u" by (simp add: f64_pos_def)
  have "0 < of_int ?m * ?u" using f64_pos_positive [OF assms] eq by simp
  then have "0 < (of_int ?m :: rat)" using u by (rule zero_less_mult_pos2)
  then show "0 < ?m" by simp
  have "of_int ?m * ?u \<le> of_int (2 ^ 53) * ?u"
    using f64_pos_bounds(2) [OF assms] unfolding eq by (simp add: power_int_diff power_int_add)
  with u show "?m \<le> 2 ^ 53" by (metis mult_le_cancel_right_pos of_int_le_iff)
qed

theorem f64_f64 [simp]: "f64 (f64 x) = f64 x"
proof -
  have pos: "f64 (f64_pos y) = f64_pos y" if "0 < y" for y
    using f64_form [OF that] f64_exact by (metis abs_of_pos)
  show ?thesis
    using pos [of x] pos [of "- x"] by (auto simp: f64_def [of x] f64_minus)
qed

lemma is_f64_f64 [simp]: "is_f64 (f64 x)"
  by (simp add: is_f64_def)

lemma is_f64_of_nat: "n \<le> 2 ^ 53 \<Longrightarrow> is_f64 (of_nat n)"
  by (simp add: is_f64_def f64_of_nat)

text \<open>Taking one token from a float bucket is exact.\<close>

lemma f64_minus_one:
  assumes "is_f64 x" and "1 \<le> x" and "x \<le> 2 ^ 53"
  shows "f64 (x - 1) = x - 1"
proof (cases "x = 2 ^ 53")
  case True
  then show ?thesis using f64_of_int [of "2 ^ 53 - 1"] by simp
next
  case False
  have x: "0 < x" using assms(2) by linarith
  from f64_form [OF x] obtain m where m: "0 < m" "m \<le> 2 ^ 53"
    and eq: "f64_pos x = of_int m * 2 powi (ilog2 x - 52)" .
  have fx: "x = of_int m * 2 powi (ilog2 x - 52)"
    using assms(1) x eq by (simp add: is_f64_def f64_def)
  have "(2::rat) powi ilog2 x < 2 powi 53"
    using ilog2_bounds(1) [OF x] assms(3) False by (simp add: pow2_powi [of 53, simplified])
  then have "ilog2 x < 53" by (rule powi2_less)
  moreover have "(2::rat) powi 0 < 2 powi (ilog2 x + 1)"
    using ilog2_bounds(2) [OF x] assms(2) by simp
  then have "0 < ilog2 x + 1" by (rule powi2_less)
  ultimately have e: "0 \<le> ilog2 x" "ilog2 x \<le> 52" by simp_all
  define n where "n = nat (52 - ilog2 x)"
  have "ilog2 x - 52 = - int n" using e by (simp add: n_def)
  then have one: "(1::rat) = of_int (2 ^ n) * 2 powi (ilog2 x - 52)"
    by (simp add: power_int_minus pow2_powi)
  let ?u = "(2::rat) powi (ilog2 x - 52)"
  have u: "0 < ?u" by (simp add: zero_less_power_int)
  have "x - 1 = of_int m * ?u - of_int (2 ^ n) * ?u"
    using arg_cong2 [OF fx one, of "(-)"] .
  then have diff: "x - 1 = of_int (m - 2 ^ n) * ?u"
    by (simp add: left_diff_distrib)
  have "0 * ?u \<le> of_int (m - 2 ^ n) * ?u"
    using assms(2) unfolding diff [symmetric] by simp
  then have "(0::rat) \<le> of_int (m - 2 ^ n)"
    using u by (simp only: mult_le_cancel_right_pos)
  then have "0 \<le> m - 2 ^ n" by (simp only: of_int_0_le_iff)
  moreover have "m - 2 ^ n \<le> m" by simp
  ultimately have "\<bar>m - 2 ^ n\<bar> \<le> 2 ^ 53" using m(2) by linarith
  then show ?thesis using diff by (rule f64_exact)
qed

section \<open>Relative error\<close>

lemma round_even_le: "of_int (round_even y) \<le> y + 1 / 2"
proof -
  have "of_int \<lfloor>y\<rfloor> \<le> y + 1 / 2" using of_int_floor_le [of y] by linarith
  then show ?thesis by (auto simp: round_even_def Let_def not_less)
qed

lemma f64_pos_le: "0 < x \<Longrightarrow> f64_pos x \<le> x * (1 + 1 / 2 ^ 53)"
proof -
  assume x: "0 < x"
  let ?u = "(2::rat) powi (ilog2 x - 52)"
  have u: "0 < ?u" by (simp add: zero_less_power_int)
  have e: "(2::rat) powi ilog2 x = 2 ^ 52 * ?u" by (simp add: power_int_diff)
  have small: "?u / 2 \<le> x / 2 ^ 53"
    using ilog2_bounds(1) [OF x] unfolding e by (simp add: field_simps)
  have "f64_pos x \<le> (x / ?u + 1 / 2) * ?u"
    unfolding f64_pos_def using u round_even_le by (intro mult_right_mono) auto
  also have "\<dots> = x + ?u / 2" using u by (simp add: field_simps)
  also have "\<dots> \<le> x + x / 2 ^ 53" using small by simp
  finally show ?thesis by (simp add: field_simps)
qed

lemma f64_le: "0 \<le> x \<Longrightarrow> f64 x \<le> x * (1 + 1 / 2 ^ 53)"
  using f64_pos_le [of x] by (auto simp: f64_def)

lemma f64_ge_half: "0 \<le> x \<Longrightarrow> x / 2 \<le> f64 x"
proof (cases "x = 0")
  case False
  assume "0 \<le> x"
  with False have x: "0 < x" by simp
  have "x < 2 * 2 powi ilog2 x"
    using ilog2_bounds(2) [OF x] by (simp add: power_int_add)
  with f64_pos_bounds(1) [OF x] x show ?thesis by (simp add: f64_def)
qed simp

section \<open>Durations in seconds\<close>

text \<open>\<^verbatim>\<open>Duration.Seconds\<close>: whole seconds plus the nanoseconds divided by 1e9, the
  integer division truncating towards zero.\<close>

definition dur_seconds :: "duration \<Rightarrow> float64" where
  "dur_seconds d = f64 (f64 (of_int (sgn d * (\<bar>d\<bar> div second))) +
     f64 (f64 (of_int (sgn d * (\<bar>d\<bar> mod second))) / 1000000000))"

lemma dur_seconds_nonneg [simp]: "0 \<le> d \<Longrightarrow> 0 \<le> dur_seconds d"
  by (auto simp: dur_seconds_def sgn_if intro!: f64_nonneg add_nonneg_nonneg)

lemma dur_seconds_ge:
  assumes "0 \<le> n" and "n \<le> 2 ^ 53" and "n * second \<le> d"
  shows "of_int n \<le> dur_seconds d"
proof (cases "d = 0")
  case True
  with assms show ?thesis by (auto simp: dur_seconds_def)
next
  case False
  have "0 \<le> n * second" using assms(1) by simp
  with assms(3) False have d: "0 < d" by linarith
  have "n \<le> d div second"
    using assms(3) by (simp add: zdiv_mono1 [of "n * second" d second, simplified])
  then have "of_int n \<le> (of_int (d div second) :: rat)" by (simp only: of_int_le_iff)
  then have "f64 (of_int n) \<le> f64 (of_int (d div second))" by (rule f64_mono)
  then have "of_int n \<le> f64 (of_int (d div second))"
    using assms by (simp add: f64_of_int)
  also have "\<dots> \<le> f64 (of_int (d div second)) + f64 (f64 (of_int (d mod second)) / 1000000000)"
    by simp
  finally have "f64 (of_int n) \<le> f64 \<dots>" by (rule f64_mono)
  then show ?thesis using assms d by (simp add: f64_of_int dur_seconds_def)
qed

lemma dur_seconds_of_seconds: "0 \<le> n \<Longrightarrow> n \<le> 2 ^ 53 \<Longrightarrow> dur_seconds (n * second) = of_int n"
  by (cases "n = 0") (auto simp: dur_seconds_def f64_of_int abs_mult sgn_mult)

lemma dur_seconds_le:
  assumes "0 \<le> d" shows "dur_seconds d \<le> of_int d / 1000000000 * (1 + 1 / 2 ^ 53) ^ 3"
proof -
  define \<epsilon> :: rat where "\<epsilon> = 1 + 1 / 2 ^ 53"
  have one: "1 \<le> \<epsilon>" by (simp add: \<epsilon>_def)
  then have \<epsilon>: "0 \<le> \<epsilon>" by simp
  let ?s = "(of_int (d div second) :: rat)" and ?n = "(of_int (d mod second) :: rat)"
  have nn: "0 \<le> ?s" "0 \<le> ?n" using assms by (simp_all add: pos_imp_zdiv_nonneg_iff)
  have sum: "?s + ?n / 1000000000 = of_int d / 1000000000"
  proof -
    have "of_int d = (of_int (d div second * second + d mod second) :: rat)" by simp
    then show ?thesis by (simp only: of_int_add of_int_mult) simp
  qed
  have a: "f64 ?s \<le> ?s * \<epsilon> ^ 2"
    using f64_le [OF nn(1)] one nn(1) unfolding \<epsilon>_def [symmetric]
    by (meson mult_left_mono order_trans power_increasing [of 1 2 \<epsilon>, simplified])
  have "f64 ?n / 1000000000 \<le> ?n * \<epsilon> / 1000000000"
    using f64_le [OF nn(2)] by (simp add: \<epsilon>_def divide_right_mono)
  then have "f64 ?n / 1000000000 * \<epsilon> \<le> ?n * \<epsilon> / 1000000000 * \<epsilon>"
    using \<epsilon> by (rule mult_right_mono)
  moreover have "f64 (f64 ?n / 1000000000) \<le> f64 ?n / 1000000000 * \<epsilon>"
    using f64_le [of "f64 ?n / 1000000000"] nn by (simp add: \<epsilon>_def)
  ultimately have b: "f64 (f64 ?n / 1000000000) \<le> ?n / 1000000000 * \<epsilon> ^ 2"
    by (simp add: power2_eq_square mult.assoc)
  have "dur_seconds d = f64 (f64 ?s + f64 (f64 ?n / 1000000000))"
    using assms by (cases "d = 0") (auto simp: dur_seconds_def)
  also have "\<dots> \<le> (f64 ?s + f64 (f64 ?n / 1000000000)) * \<epsilon>"
    using f64_le [of "f64 ?s + f64 (f64 ?n / 1000000000)"] nn by (simp add: \<epsilon>_def)
  also have "\<dots> \<le> (?s * \<epsilon> ^ 2 + ?n / 1000000000 * \<epsilon> ^ 2) * \<epsilon>"
    using a b \<epsilon> by (intro mult_right_mono add_mono)
  also have "\<dots> = (?s + ?n / 1000000000) * \<epsilon> ^ 3"
    by (simp add: algebra_simps power2_eq_square power3_eq_cube)
  finally show ?thesis by (simp only: sum \<epsilon>_def)
qed

end
