(* ===== verification/Tls_Front.thy ===== *)
theory Tls_Front
  imports Go_Map
begin

text \<open>
  \<^verbatim>\<open>internal/tlsfront/tlsfront.go\<close>: the configuration of the optional nginx/OpenSSL TLS
  frontend. \<open>effective\<close> fills the defaults, \<open>accel_validate\<close> and
  \<open>live_validate\<close> are the gates a configuration passes before nginx text is rendered from
  it, \<open>resolve\<close> decides which accelerations a probed host can give, and
  \<open>public_listen_for_key\<close> maps the private socket key of a listener back to its public address.

  The SHA-256 based socket path (\<^verbatim>\<open>InternalListenerKey\<close>) is an argument
  \<open>listener_key\<close>; rendering, probing and nginx itself are not modelled.
  \<open>split_on\<close> is \<^verbatim>\<open>strings.Split\<close> with a one-byte separator, \<open>atoi\<close> is
  \<^verbatim>\<open>strconv.Atoi\<close> on the strings of digits the code hands it.
\<close>

definition mode_go :: string where "mode_go = ''go''"
definition mode_frontend :: string where "mode_frontend = ''frontend''"
definition accel_off :: string where "accel_off = ''off''"
definition accel_auto :: string where "accel_auto = ''auto''"
definition accel_required :: string where "accel_required = ''required''"

lemmas tls_const_defs =
  mode_go_def mode_frontend_def accel_off_def accel_auto_def accel_required_def

record accel_config =
  ac_mode :: string
  ac_ktls :: string
  ac_qat :: string
  ac_worker_processes :: int
  ac_worker_connections :: int
  ac_http2 :: "bool option"

definition effective :: "accel_config \<Rightarrow> accel_config" where
  "effective c = c\<lparr>
     ac_mode := (if ac_mode c = [] then mode_go else ac_mode c),
     ac_ktls := (if ac_ktls c = [] then accel_off else ac_ktls c),
     ac_qat := (if ac_qat c = [] then accel_off else ac_qat c),
     ac_worker_connections := (if ac_worker_connections c = 0 then 4096 else ac_worker_connections c),
     ac_http2 := (if ac_http2 c = None then Some True else ac_http2 c)\<rparr>"

definition frontend_enabled :: "accel_config \<Rightarrow> bool" where
  "frontend_enabled c \<longleftrightarrow> ac_mode (effective c) = mode_frontend"

datatype tls_error =
    Bad_mode
  | Bad_accel string
  | Bad_worker_processes
  | Bad_worker_connections
  | Site_incomplete
  | Cert_key_mismatch string
  | Bad_hostname string string
  | Bad_cert_path string
  | Bad_key_path string
  | Nginx_missing
  | Openssl_missing
  | Ktls_unavailable
  | Qat_unavailable

definition accel_value_ok :: "string \<Rightarrow> bool" where
  "accel_value_ok v \<longleftrightarrow> v = accel_off \<or> v = accel_auto \<or> v = accel_required"

definition accel_validate :: "accel_config \<Rightarrow> tls_error option" where
  "accel_validate c =
     (let e = effective c in
      if ac_mode e \<noteq> mode_go \<and> ac_mode e \<noteq> mode_frontend then Some Bad_mode
      else if \<not> accel_value_ok (ac_ktls e) then Some (Bad_accel ''ktls'')
      else if \<not> accel_value_ok (ac_qat e) then Some (Bad_accel ''qat'')
      else if ac_worker_processes e < 0 \<or> ac_worker_processes e > 256 then Some Bad_worker_processes
      else if ac_worker_connections e < 0 \<or> ac_worker_connections e > 1048576
        then Some Bad_worker_connections
      else None)"

section \<open>Sites and the tokens written into nginx configuration\<close>

record tls_site =
  ts_name :: string
  ts_listen :: string
  ts_hostnames :: "string list"
  ts_cert :: string
  ts_key :: string

record live_config =
  lc_accel :: accel_config
  lc_sites :: "tls_site list"

text \<open>The bytes \<^verbatim>\<open>validateNginxToken\<close> refuses anywhere in a token.\<close>

definition nginx_forbidden :: "char list" where
  "nginx_forbidden = [byte 13, byte 10, byte 0, CHR '';'', CHR ''$'', CHR '' '', CHR ''{'', CHR ''}'', byte 9]"

definition path_forbidden :: "char list" where
  "path_forbidden = [byte 13, byte 10, byte 0]"

definition contains_any :: "string \<Rightarrow> char list \<Rightarrow> bool" where
  "contains_any s cs \<longleftrightarrow> list_ex (\<lambda>c. c \<in> set cs) s"

definition nginx_token_ok :: "string \<Rightarrow> bool" where
  "nginx_token_ok v \<longleftrightarrow> trim_space v \<noteq> [] \<and> \<not> contains_any v nginx_forbidden"

definition is_abs :: "string \<Rightarrow> bool" where
  "is_abs p \<longleftrightarrow> has_prefix p ''/''"

definition path_token_ok :: "string \<Rightarrow> bool" where
  "path_token_ok v \<longleftrightarrow> is_abs v \<and> \<not> contains_any v path_forbidden"

definition site_validate :: "bool \<Rightarrow> tls_site \<Rightarrow> tls_error option" where
  "site_validate frontend s =
     (if trim_space (ts_name s) = [] \<or> trim_space (ts_listen s) = [] then Some Site_incomplete
      else if (ts_cert s = []) \<noteq> (ts_key s = []) then Some (Cert_key_mismatch (ts_name s))
      else if \<not> frontend then None
      else case find (\<lambda>h. \<not> nginx_token_ok h) (ts_hostnames s) of
          Some h \<Rightarrow> Some (Bad_hostname (ts_name s) h)
        | None \<Rightarrow>
            if ts_cert s \<noteq> [] then
              if \<not> path_token_ok (ts_cert s) then Some (Bad_cert_path (ts_name s))
              else if \<not> path_token_ok (ts_key s) then Some (Bad_key_path (ts_name s))
              else None
            else None)"

fun sites_validate :: "bool \<Rightarrow> tls_site list \<Rightarrow> tls_error option" where
  "sites_validate frontend [] = None"
| "sites_validate frontend (s # ss) =
     (case site_validate frontend s of Some e \<Rightarrow> Some e | None \<Rightarrow> sites_validate frontend ss)"

definition live_validate :: "live_config \<Rightarrow> tls_error option" where
  "live_validate c =
     (case accel_validate (lc_accel c) of
        Some e \<Rightarrow> Some e
      | None \<Rightarrow> sites_validate (frontend_enabled (lc_accel c)) (lc_sites c))"

section \<open>Listener keys\<close>

definition is_internal_key :: "string \<Rightarrow> bool" where
  "is_internal_key key \<longleftrightarrow> has_prefix key ''unix:''"

fun public_tls_listeners_from :: "(string, bool) gomap \<Rightarrow> tls_site list \<Rightarrow> (string, bool) gomap" where
  "public_tls_listeners_from out [] = out"
| "public_tls_listeners_from out (s # ss) =
     (let out = (if gm_has out (ts_listen s) then out else gm_put (ts_listen s) False out);
          out = (if ts_cert s \<noteq> [] \<and> ts_key s \<noteq> [] then gm_put (ts_listen s) True out else out)
      in public_tls_listeners_from out ss)"

definition public_tls_listeners :: "tls_site list \<Rightarrow> (string, bool) gomap" where
  "public_tls_listeners ss = public_tls_listeners_from [] ss"

definition public_listen_for_key ::
    "(string \<Rightarrow> string) \<Rightarrow> accel_config \<Rightarrow> tls_site list \<Rightarrow> string \<Rightarrow> string" where
  "public_listen_for_key listener_key cfg sites key =
     (if \<not> frontend_enabled cfg \<or> \<not> is_internal_key key then key
      else case find (\<lambda>(public, is_tls). is_tls \<and> listener_key public = key) (public_tls_listeners sites) of
          Some (public, _) \<Rightarrow> public
        | None \<Rightarrow> key)"

section \<open>Resolving accelerations against a probed host\<close>

record tls_probe =
  pr_nginx_path :: string
  pr_nginx_version :: string
  pr_openssl_path :: string
  pr_kernel_ktls :: bool
  pr_openssl_ktls :: bool
  pr_qat_provider :: bool

record tls_resolved =
  rs_ktls :: bool
  rs_qat :: bool
  rs_modern_http2 :: bool

fun split_on :: "char \<Rightarrow> string \<Rightarrow> string list" where
  "split_on c [] = [[]]"
| "split_on c (x # xs) =
     (if x = c then [] # split_on c xs
      else case split_on c xs of [] \<Rightarrow> [[x]] | p # ps \<Rightarrow> (x # p) # ps)"

definition digit_value :: "char \<Rightarrow> nat" where
  "digit_value c = of_char c - 48"

definition decimal_value :: "string \<Rightarrow> nat" where
  "decimal_value s = foldl (\<lambda>n c. 10 * n + digit_value c) 0 s"

definition atoi :: "string \<Rightarrow> nat option" where
  "atoi s = (if s = [] \<or> decimal_value s > 2 ^ 63 - 1 then None else Some (decimal_value s))"

text \<open>\<^verbatim>\<open>strings.Index\<close>: the first position where the marker occurs.\<close>

definition index_of :: "string \<Rightarrow> string \<Rightarrow> nat option" where
  "index_of s sub = find (\<lambda>i. has_prefix (drop i s) sub) [0..<Suc (length s)]"

definition version_char :: "char \<Rightarrow> bool" where
  "version_char c \<longleftrightarrow> (CHR ''0'' \<le> c \<and> c \<le> CHR ''9'') \<or> c = CHR ''.''"

definition supports_modern_http2 :: "string \<Rightarrow> bool" where
  "supports_modern_http2 raw =
     (case index_of (to_lower raw) ''nginx/'' of
        None \<Rightarrow> False
      | Some i \<Rightarrow>
          let v = takeWhile version_char (drop (i + 6) raw);
              parts = split_on CHR ''.'' v
          in if length parts < 2 then False
             else let nums = map atoi (take 3 parts) in
               if None \<in> set nums then False
               else let n = map the nums @ [0] in
                 n ! 0 > 1 \<or> (n ! 0 = 1 \<and> (n ! 1 > 25 \<or> (n ! 1 = 25 \<and> n ! 2 \<ge> 1))))"

definition resolve :: "accel_config \<Rightarrow> tls_probe \<Rightarrow> tls_error + tls_resolved" where
  "resolve c p =
     (let e = effective c;
          none = \<lparr>rs_ktls = False, rs_qat = False, rs_modern_http2 = False\<rparr>;
          ktls_available = pr_kernel_ktls p \<and> pr_openssl_ktls p
      in if ac_mode e \<noteq> mode_frontend then Inr none
         else if pr_nginx_path p = [] then Inl Nginx_missing
         else if pr_openssl_path p = [] then Inl Openssl_missing
         else if ac_ktls e = accel_required \<and> \<not> ktls_available then Inl Ktls_unavailable
         else if ac_qat e = accel_required \<and> \<not> pr_qat_provider p then Inl Qat_unavailable
         else Inr \<lparr>rs_ktls = (if ac_ktls e = accel_auto then ktls_available else ac_ktls e = accel_required),
                   rs_qat = (if ac_qat e = accel_auto then pr_qat_provider p else ac_qat e = accel_required),
                   rs_modern_http2 = supports_modern_http2 (pr_nginx_version p)\<rparr>)"

section \<open>Properties\<close>

lemma effective_idem: "effective (effective c) = effective c"
  by (simp add: effective_def tls_const_defs)

lemma frontend_enabled_effective [simp]: "frontend_enabled (effective c) = frontend_enabled c"
  by (simp add: frontend_enabled_def effective_idem)

lemma accel_validate_mode:
  "accel_validate c = None \<Longrightarrow> ac_mode (effective c) = mode_go \<or> ac_mode (effective c) = mode_frontend"
  by (auto simp: accel_validate_def Let_def split: if_splits)

definition nginx_safe :: "string \<Rightarrow> bool" where
  "nginx_safe v \<longleftrightarrow> v \<noteq> [] \<and> set v \<inter> set nginx_forbidden = {}"

definition path_safe :: "string \<Rightarrow> bool" where
  "path_safe v \<longleftrightarrow> hd v = CHR ''/'' \<and> set v \<inter> set path_forbidden = {}"

lemma contains_any_iff: "contains_any s cs \<longleftrightarrow> set s \<inter> set cs \<noteq> {}"
  by (auto simp: contains_any_def list_ex_iff)

lemma nginx_token_safe: "nginx_token_ok v \<Longrightarrow> nginx_safe v"
  by (auto simp: nginx_token_ok_def nginx_safe_def contains_any_iff)

lemma path_token_safe: "path_token_ok v \<Longrightarrow> path_safe v"
  by (cases v) (auto simp: path_token_ok_def path_safe_def contains_any_iff is_abs_def has_prefix_def)

lemma sites_validate_None:
  "sites_validate f ss = None \<longleftrightarrow> (\<forall>s \<in> set ss. site_validate f s = None)"
  by (induction ss) (auto split: option.splits)

lemma site_validate_safe:
  assumes "site_validate True s = None"
  shows "\<forall>h \<in> set (ts_hostnames s). nginx_safe h"
    and "ts_cert s \<noteq> [] \<Longrightarrow> path_safe (ts_cert s) \<and> path_safe (ts_key s)"
    and "ts_cert s = [] \<longleftrightarrow> ts_key s = []"
  using assms
  by (auto simp: site_validate_def find_None_iff split: if_splits option.splits
      intro: nginx_token_safe path_token_safe)

lemma public_tls_listeners_from_has:
  "gm_get (public_tls_listeners_from out ss) l = Some True \<longleftrightarrow>
     gm_get out l = Some True \<or> (\<exists>s \<in> set ss. ts_listen s = l \<and> ts_cert s \<noteq> [] \<and> ts_key s \<noteq> [])"
  by (induction out ss rule: public_tls_listeners_from.induct)
    (auto simp: Let_def gm_get_put gm_has_def)

lemma public_tls_listeners_from_ok:
  "gm_ok out \<Longrightarrow> gm_ok (public_tls_listeners_from out ss)"
  by (induction out ss rule: public_tls_listeners_from.induct) (simp_all add: Let_def)

lemma public_tls_listeners_iff:
  "(l, True) \<in> set (public_tls_listeners ss) \<longleftrightarrow>
     (\<exists>s \<in> set ss. ts_listen s = l \<and> ts_cert s \<noteq> [] \<and> ts_key s \<noteq> [])"
proof -
  have "distinct (map fst (public_tls_listeners ss))"
    using public_tls_listeners_from_ok [of "[]" ss]
    by (simp add: public_tls_listeners_def gm_ok_def)
  then have "(l, True) \<in> set (public_tls_listeners ss) \<longleftrightarrow> gm_get (public_tls_listeners ss) l = Some True"
    by (simp add: map_of_eq_Some_iff)
  also have "\<dots> \<longleftrightarrow> (\<exists>s \<in> set ss. ts_listen s = l \<and> ts_cert s \<noteq> [] \<and> ts_key s \<noteq> [])"
    by (simp add: public_tls_listeners_def public_tls_listeners_from_has)
  finally show ?thesis .
qed


text \<open>A resolution never claims an acceleration the host lacks, and never silently drops one
  the operator required: with a valid configuration in frontend mode, kernel TLS is on only if
  kernel and OpenSSL support it, QAT only if its provider loaded, and a required one is on.\<close>

theorem resolve_honest:
  assumes "resolve c p = Inr r" and "frontend_enabled c"
  shows "(rs_ktls r \<longrightarrow> pr_kernel_ktls p \<and> pr_openssl_ktls p) \<and> (rs_qat r \<longrightarrow> pr_qat_provider p) \<and>
    (ac_ktls (effective c) = accel_required \<longrightarrow> rs_ktls r) \<and>
    (ac_qat (effective c) = accel_required \<longrightarrow> rs_qat r) \<and>
    pr_nginx_path p \<noteq> [] \<and> pr_openssl_path p \<noteq> []"
  using assms by (auto simp: resolve_def frontend_enabled_def Let_def tls_const_defs split: if_splits)

text \<open>The private socket key of a TLS listener leads back to its public address: where no two
  TLS listeners share a key, looking up the key of a site's listener returns that listener.\<close>

theorem listener_key_roundtrip:
  assumes "frontend_enabled cfg" and "s \<in> set sites" and "ts_cert s \<noteq> []" and "ts_key s \<noteq> []"
    and "is_internal_key (listener_key (ts_listen s))"
    and "inj_on listener_key (ts_listen ` set sites)"
  shows "public_listen_for_key listener_key cfg sites (listener_key (ts_listen s)) = ts_listen s"
proof -
  define p where "p = (\<lambda>(public, is_tls). is_tls \<and> listener_key public = listener_key (ts_listen s))"
  have mem: "(ts_listen s, True) \<in> set (public_tls_listeners sites)"
    using assms(2-4) by (auto simp: public_tls_listeners_iff)
  then have "find p (public_tls_listeners sites) \<noteq> None" by (auto simp: find_None_iff p_def)
  then obtain l t where f: "find p (public_tls_listeners sites) = Some (l, t)" by auto
  then have "(l, t) \<in> set (public_tls_listeners sites)" "p (l, t)" by (auto simp: find_Some_iff)
  then have "(l, True) \<in> set (public_tls_listeners sites)" "listener_key l = listener_key (ts_listen s)"
    by (auto simp: p_def)
  then have "l = ts_listen s" using assms(2,6) by (auto simp: public_tls_listeners_iff dest: inj_onD)
  with f assms(1,5) show ?thesis by (simp add: public_listen_for_key_def p_def)
qed

text \<open>Each applies to one TLS site behind the frontend.\<close>

definition demo_tls_site :: tls_site where
  "demo_tls_site = \<lparr>ts_name = ''shop'', ts_listen = '':443'', ts_hostnames = [''shop.example''],
     ts_cert = ''/etc/shop.crt'', ts_key = ''/etc/shop.key''\<rparr>"

definition demo_frontend :: accel_config where
  "demo_frontend = \<lparr>ac_mode = mode_frontend, ac_ktls = accel_required, ac_qat = accel_auto,
     ac_worker_processes = 0, ac_worker_connections = 0, ac_http2 = None\<rparr>"

lemma demo_frontend_enabled: "frontend_enabled demo_frontend"
  by (simp add: frontend_enabled_def effective_def demo_frontend_def tls_const_defs)


theorem resolve_honest_witness:
  "\<exists>r. resolve demo_frontend \<lparr>pr_nginx_path = ''/n'', pr_nginx_version = [], pr_openssl_path = ''/o'',
      pr_kernel_ktls = True, pr_openssl_ktls = True, pr_qat_provider = False\<rparr> = Inr r \<and> rs_ktls r"
proof -
  obtain r where r: "resolve demo_frontend \<lparr>pr_nginx_path = ''/n'', pr_nginx_version = [], pr_openssl_path = ''/o'',
      pr_kernel_ktls = True, pr_openssl_ktls = True, pr_qat_provider = False\<rparr> = Inr r"
    by (simp add: resolve_def effective_def demo_frontend_def tls_const_defs Let_def)
  have "ac_ktls (effective demo_frontend) = accel_required"
    by (simp add: effective_def demo_frontend_def tls_const_defs)
  with resolve_honest [OF r demo_frontend_enabled] r show ?thesis by blast
qed

theorem listener_key_roundtrip_witness:
  "public_listen_for_key ((@) ''unix:/run/'') demo_frontend [demo_tls_site] ''unix:/run/:443'' = '':443''"
  using listener_key_roundtrip [OF demo_frontend_enabled, of demo_tls_site "[demo_tls_site]" "(@) ''unix:/run/''"]
  by (simp add: demo_tls_site_def is_internal_key_def has_prefix_def)

end
