(* ===== verification/L7_Abuse.thy ===== *)
theory L7_Abuse
  imports Go_Map Float64 Tls_Front
begin

text \<open>
  \<^verbatim>\<open>l7_abuse.go\<close>: the per-client token buckets and concurrency caps in front of
  every site, and the TLS handshake buckets in front of every listener. A controller has 64
  request shards and 64 TLS shards; a shard maps at most 1024 client keys to buckets, and
  clients it has no room for share its overflow bucket.

  \<^verbatim>\<open>allowAt\<close> returns a pointer to the bucket it charged, which
  \<^verbatim>\<open>releaseState\<close> gives back; here the pointer is a \<open>handle\<close>: the key of the
  entry, or the overflow bucket. The handle means the pointer because an entry with a request in
  flight is never removed (\<open>l7_slot_keeps_active\<close>), so the key denotes the same bucket until
  its release. The shard mutex makes each call one step.
\<close>

section \<open>Configuration\<close>

record l7_config =
  l7_enabled :: bool
  requests_per_window :: int
  window_seconds :: int
  max_concurrent :: int
  tls_per_window :: int

datatype l7_error =
    Requests_range | Window_range | Concurrent_range | Tls_range | Tls_needs_go_mode

definition validate_l7 :: "l7_config \<Rightarrow> accel_config \<Rightarrow> l7_error option" where
  "validate_l7 cfg accel =
     (if requests_per_window cfg < 0 \<or> requests_per_window cfg > 10000000 then Some Requests_range
      else if window_seconds cfg < 0 \<or> window_seconds cfg > 86400 then Some Window_range
      else if max_concurrent cfg < 0 \<or> max_concurrent cfg > 1000000 then Some Concurrent_range
      else if tls_per_window cfg < 0 \<or> tls_per_window cfg > 10000000 then Some Tls_range
      else if l7_enabled cfg \<and> tls_per_window cfg > 0 \<and> frontend_enabled accel then Some Tls_needs_go_mode
      else None)"

definition l7_shard_count :: nat where "l7_shard_count = 64"
definition l7_max_entries :: nat where "l7_max_entries = 1024"
definition l7_prune_every :: u64 where "l7_prune_every = 256"
definition l7_min_idle_ttl :: duration where "l7_min_idle_ttl = 5 * minute"

definition window_duration :: "l7_config \<Rightarrow> duration" where
  "window_duration cfg =
     (let window = window_seconds cfg * second in if window \<le> 0 then second else window)"

definition idle_ttl :: "l7_config \<Rightarrow> duration" where
  "idle_ttl cfg =
     (let ttl = 2 * window_duration cfg in if ttl < l7_min_idle_ttl then l7_min_idle_ttl else ttl)"

section \<open>Buckets and shards\<close>

type_synonym abuse_key = "string \<times> string"

record abuse_state =
  tokens :: float64
  last_refill :: gtime
  last_seen :: gtime
  active :: int

record l7_shard =
  clients :: "(abuse_key, abuse_state) gomap"
  overflow :: abuse_state
  ops :: u64

definition zero_bucket :: abuse_state where
  "zero_bucket = \<lparr>tokens = 0, last_refill = 0, last_seen = 0, active = 0\<rparr>"

definition empty_shard :: l7_shard where
  "empty_shard = \<lparr>clients = [], overflow = zero_bucket, ops = 0\<rparr>"

datatype handle = Client abuse_key | Overflow

definition state_of :: "l7_shard \<Rightarrow> handle \<Rightarrow> abuse_state" where
  "state_of sh h = (case h of
     Overflow \<Rightarrow> overflow sh
   | Client k \<Rightarrow> (case gm_get (clients sh) k of Some st \<Rightarrow> st | None \<Rightarrow> zero_bucket))"

definition set_state :: "handle \<Rightarrow> abuse_state \<Rightarrow> l7_shard \<Rightarrow> l7_shard" where
  "set_state h st sh = (case h of
     Overflow \<Rightarrow> sh\<lparr>overflow := st\<rparr>
   | Client k \<Rightarrow> sh\<lparr>clients := gm_put k st (clients sh)\<rparr>)"

text \<open>FNV-1a over site, a zero byte and identity.\<close>

definition fnv64_offset :: u64 where "fnv64_offset = 14695981039346656037"
definition fnv64_prime :: u64 where "fnv64_prime = 1099511628211"

definition fnv64_step :: "u64 \<Rightarrow> char \<Rightarrow> u64" where
  "fnv64_step h c = (xor h (of_char c)) * fnv64_prime"

definition l7_shard_index :: "abuse_key \<Rightarrow> nat" where
  "l7_shard_index key = (case key of (site, identity) \<Rightarrow>
     let h = foldl fnv64_step fnv64_offset site;
         h = (xor h 0) * fnv64_prime;
         h = foldl fnv64_step h identity
     in unat (h mod of_nat l7_shard_count))"

section \<open>Pruning and eviction\<close>

definition l7_stale :: "l7_config \<Rightarrow> gtime \<Rightarrow> abuse_state \<Rightarrow> bool" where
  "l7_stale cfg now st \<longleftrightarrow> active st = 0 \<and> last_seen st < now - idle_ttl cfg"

definition prune_shard :: "l7_config \<Rightarrow> gtime \<Rightarrow> l7_shard \<Rightarrow> l7_shard" where
  "prune_shard cfg now sh = sh\<lparr>clients := gm_remove_if (\<lambda>k st. l7_stale cfg now st) (clients sh)\<rparr>"

fun oldest_idle_from ::
    "l7_config \<Rightarrow> gtime \<Rightarrow> (abuse_key \<times> gtime) option \<Rightarrow> (abuse_key, abuse_state) gomap \<Rightarrow> (abuse_key \<times> gtime) option" where
  "oldest_idle_from cfg now found [] = found"
| "oldest_idle_from cfg now found ((k, st) # m) =
     oldest_idle_from cfg now
       (if \<not> l7_stale cfg now st then found
        else case found of
          None \<Rightarrow> Some (k, last_seen st)
        | Some (_, oldest_seen) \<Rightarrow> if last_seen st < oldest_seen then Some (k, last_seen st) else found) m"

definition evict_oldest_idle :: "l7_config \<Rightarrow> gtime \<Rightarrow> l7_shard \<Rightarrow> l7_shard" where
  "evict_oldest_idle cfg now sh =
     (case oldest_idle_from cfg now None (clients sh) of
        None \<Rightarrow> sh
      | Some (k, _) \<Rightarrow> sh\<lparr>clients := gm_del k (clients sh)\<rparr>)"

text \<open>The lookup both admission functions open with: count the operation, prune every 256,
  find the client's bucket or make room for one, or fall back to the overflow bucket.
  \<open>fresh\<close> is the state a new entry starts with.\<close>

definition full :: "l7_shard \<Rightarrow> bool" where
  "full sh \<longleftrightarrow> length (clients sh) \<ge> l7_max_entries"

definition l7_slot :: "l7_config \<Rightarrow> abuse_state \<Rightarrow> abuse_key \<Rightarrow> gtime \<Rightarrow> l7_shard \<Rightarrow> l7_shard \<times> handle" where
  "l7_slot cfg fresh key now sh =
     (let sh = sh\<lparr>ops := ops sh + 1\<rparr>;
          sh = (if ops sh mod l7_prune_every = 0 then prune_shard cfg now sh else sh)
      in if gm_has (clients sh) key then (sh, Client key)
         else
           let sh = (if full sh then prune_shard cfg now sh else sh);
               sh = (if full sh then evict_oldest_idle cfg now sh else sh)
           in if full sh then (sh, Overflow)
              else (sh\<lparr>clients := gm_put key fresh (clients sh)\<rparr>, Client key))"

section \<open>Admission\<close>

definition refill :: "l7_config \<Rightarrow> int \<Rightarrow> gtime \<Rightarrow> abuse_state \<Rightarrow> abuse_state" where
  "refill cfg per_window now st =
     (let capacity = f64 (of_int per_window) in
      if time_is_zero (last_refill st) then st\<lparr>tokens := capacity, last_refill := now\<rparr>
      else if last_refill st < now then
        let per_second = f64 (capacity / dur_seconds (window_duration cfg));
            t = f64 (tokens st + f64 (dur_seconds (time_sub now (last_refill st)) * per_second))
        in st\<lparr>tokens := (if t > capacity then capacity else t), last_refill := now\<rparr>
      else st)"

text \<open>The request path: concurrency cap, refill, one token, one active slot.\<close>

definition charge_request :: "l7_config \<Rightarrow> gtime \<Rightarrow> abuse_state \<Rightarrow> abuse_state \<times> bool" where
  "charge_request cfg now st =
     (let st = st\<lparr>last_seen := now\<rparr> in
      if max_concurrent cfg > 0 \<and> active st \<ge> max_concurrent cfg then (st, False)
      else if requests_per_window cfg > 0 then
        let st = refill cfg (requests_per_window cfg) now st in
        if tokens st < 1 then (st, False)
        else (st\<lparr>tokens := f64 (tokens st - 1), active := active st + 1\<rparr>, True)
      else (st\<lparr>active := active st + 1\<rparr>, True))"

definition request_fresh :: "l7_config \<Rightarrow> gtime \<Rightarrow> abuse_state" where
  "request_fresh cfg now =
     (if requests_per_window cfg > 0
      then zero_bucket\<lparr>last_seen := now, tokens := f64 (of_int (requests_per_window cfg)), last_refill := now\<rparr>
      else zero_bucket\<lparr>last_seen := now\<rparr>)"

definition allow_shard :: "l7_config \<Rightarrow> abuse_key \<Rightarrow> gtime \<Rightarrow> l7_shard \<Rightarrow> l7_shard \<times> handle option" where
  "allow_shard cfg key now sh =
     (let (sh, h) = l7_slot cfg (request_fresh cfg now) key now sh;
          (st, ok) = charge_request cfg now (state_of sh h)
      in (set_state h st sh, if ok then Some h else None))"

text \<open>The TLS handshake path: refill and one token, no concurrency.\<close>

definition charge_tls :: "l7_config \<Rightarrow> gtime \<Rightarrow> abuse_state \<Rightarrow> abuse_state \<times> bool" where
  "charge_tls cfg now st =
     (let st = refill cfg (tls_per_window cfg) now (st\<lparr>last_seen := now\<rparr>) in
      if tokens st < 1 then (st, False) else (st\<lparr>tokens := f64 (tokens st - 1)\<rparr>, True))"

definition tls_fresh :: "l7_config \<Rightarrow> gtime \<Rightarrow> abuse_state" where
  "tls_fresh cfg now =
     zero_bucket\<lparr>tokens := f64 (of_int (tls_per_window cfg)), last_refill := now, last_seen := now\<rparr>"

definition allow_tls_shard :: "l7_config \<Rightarrow> abuse_key \<Rightarrow> gtime \<Rightarrow> l7_shard \<Rightarrow> l7_shard \<times> bool" where
  "allow_tls_shard cfg key now sh =
     (let (sh, h) = l7_slot cfg (tls_fresh cfg now) key now sh;
          (st, ok) = charge_tls cfg now (state_of sh h)
      in (set_state h st sh, ok))"

definition release_state :: "handle \<Rightarrow> l7_shard \<Rightarrow> l7_shard" where
  "release_state h sh =
     (let st = state_of sh h in
      if (case h of Client k \<Rightarrow> gm_has (clients sh) k | Overflow \<Rightarrow> True) \<and> active st > 0
      then set_state h (st\<lparr>active := active st - 1\<rparr>) sh else sh)"

section \<open>The controller\<close>

record l7_controller =
  ctl_cfg :: l7_config
  ctl_shards :: "l7_shard list"
  ctl_tls_shards :: "l7_shard list"

definition new_l7_controller :: "l7_config \<Rightarrow> l7_controller" where
  "new_l7_controller cfg =
     \<lparr>ctl_cfg = cfg, ctl_shards = replicate l7_shard_count empty_shard,
      ctl_tls_shards = replicate l7_shard_count empty_shard\<rparr>"

text \<open>A grant names the shard besides the handle, as the pointer does.\<close>

type_synonym grant = "nat \<times> handle"

definition allow_at :: "string \<Rightarrow> string \<Rightarrow> gtime \<Rightarrow> l7_controller \<Rightarrow> l7_controller \<times> grant option" where
  "allow_at site identity now c =
     (let key = (site, identity); i = l7_shard_index key;
          (sh, h) = allow_shard (ctl_cfg c) key now (ctl_shards c ! i)
      in (c\<lparr>ctl_shards := (ctl_shards c)[i := sh]\<rparr>, map_option (Pair i) h))"

definition allow_tls_handshake_at :: "string \<Rightarrow> string \<Rightarrow> gtime \<Rightarrow> l7_controller \<Rightarrow> l7_controller \<times> bool" where
  "allow_tls_handshake_at scope identity now c =
     (if \<not> l7_enabled (ctl_cfg c) \<or> tls_per_window (ctl_cfg c) \<le> 0 then (c, True)
      else
        let key = (scope, identity); i = l7_shard_index key;
            (sh, ok) = allow_tls_shard (ctl_cfg c) key now (ctl_tls_shards c ! i)
        in (c\<lparr>ctl_tls_shards := (ctl_tls_shards c)[i := sh]\<rparr>, ok))"

definition release_grant :: "grant \<Rightarrow> l7_controller \<Rightarrow> l7_controller" where
  "release_grant g c =
     (case g of (i, h) \<Rightarrow> c\<lparr>ctl_shards := (ctl_shards c)[i := release_state h (ctl_shards c ! i)]\<rparr>)"

text \<open>The two ends of \<^verbatim>\<open>wrap\<close>: what happens before the downstream handler runs,
  and the deferred release. \<open>resolved\<close> is the client address the identity resolver put in
  the request context, if any.\<close>

datatype l7_verdict = Pass "grant option" | Too_many_requests

definition wrap_enter ::
    "string \<Rightarrow> string \<Rightarrow> string option \<Rightarrow> gtime \<Rightarrow> l7_controller \<Rightarrow> l7_controller \<times> l7_verdict" where
  "wrap_enter site remote_addr resolved now c =
     (if \<not> l7_enabled (ctl_cfg c) then (c, Pass None)
      else
        let identity = (case resolved of Some ip \<Rightarrow> if ip \<noteq> [] then ip else remote_addr | None \<Rightarrow> remote_addr);
            (c, g) = allow_at site identity now c
        in (c, case g of None \<Rightarrow> Too_many_requests | Some g \<Rightarrow> Pass (Some g)))"

definition wrap_leave :: "grant option \<Rightarrow> l7_controller \<Rightarrow> l7_controller" where
  "wrap_leave g c = (case g of None \<Rightarrow> c | Some g \<Rightarrow> release_grant g c)"

section \<open>The bucket invariant\<close>

definition bucket_ok :: "int \<Rightarrow> int \<Rightarrow> abuse_state \<Rightarrow> bool" where
  "bucket_ok cap maxc st \<longleftrightarrow>
     0 \<le> tokens st \<and> tokens st \<le> of_int cap \<and> is_f64 (tokens st) \<and>
     0 \<le> active st \<and> (0 < maxc \<longrightarrow> active st \<le> maxc)"

definition shard_ok :: "int \<Rightarrow> int \<Rightarrow> l7_shard \<Rightarrow> bool" where
  "shard_ok cap maxc sh \<longleftrightarrow>
     gm_ok (clients sh) \<and> length (clients sh) \<le> l7_max_entries \<and>
     gm_all (\<lambda>_. bucket_ok cap maxc) (clients sh) \<and> bucket_ok cap maxc (overflow sh)"

text \<open>The ranges \<^verbatim>\<open>validateL7AbuseConfig\<close> accepts.\<close>

definition l7_ranges :: "l7_config \<Rightarrow> bool" where
  "l7_ranges cfg \<longleftrightarrow>
     0 \<le> requests_per_window cfg \<and> requests_per_window cfg \<le> 10000000 \<and>
     0 \<le> window_seconds cfg \<and> window_seconds cfg \<le> 86400 \<and>
     0 \<le> max_concurrent cfg \<and> max_concurrent cfg \<le> 1000000 \<and>
     0 \<le> tls_per_window cfg \<and> tls_per_window cfg \<le> 10000000"

lemma validate_l7_ranges: "validate_l7 cfg accel = None \<Longrightarrow> l7_ranges cfg"
  by (auto simp: validate_l7_def l7_ranges_def split: if_splits)

lemma f64_cap: "0 \<le> c \<Longrightarrow> c \<le> 10000000 \<Longrightarrow> f64 (of_int c) = of_int c"
  by (rule f64_of_int) simp

lemma window_duration_pos: "0 < window_duration cfg"
  by (simp add: window_duration_def Let_def)

lemma refill_fields [simp]:
  "active (refill cfg n now st) = active st"
  "last_seen (refill cfg n now st) = last_seen st"
  by (simp_all add: refill_def Let_def)

lemma refill_ok:
  assumes "0 \<le> cap" and "cap \<le> 10000000" and "bucket_ok cap maxc st"
  shows "bucket_ok cap maxc (refill cfg cap now st)"
proof -
  have c: "f64 (of_int cap) = of_int cap" using assms(1,2) by (rule f64_cap)
  have cf: "is_f64 (of_int cap)" using c by (simp add: is_f64_def)
  have "0 \<le> dur_seconds (time_sub now (last_refill st))" if "last_refill st < now"
    using that by (intro dur_seconds_nonneg) (simp add: time_sub_pos_iff less_imp_le)
  moreover have "0 \<le> of_int cap / dur_seconds (window_duration cfg)"
    using assms(1) window_duration_pos [of cfg] by simp
  ultimately have "0 \<le> f64 (tokens st + f64 (dur_seconds (time_sub now (last_refill st)) *
      f64 (of_int cap / dur_seconds (window_duration cfg))))" if "last_refill st < now"
    using that assms(3) by (intro f64_nonneg add_nonneg_nonneg mult_nonneg_nonneg) (simp_all add: bucket_ok_def)
  then show ?thesis
    using assms c cf by (auto simp: bucket_ok_def refill_def Let_def)
qed

lemma take_token_ok:
  assumes "cap \<le> 10000000" and "bucket_ok cap maxc st" and "\<not> tokens st < 1"
  shows "f64 (tokens st - 1) = tokens st - 1" and "bucket_ok cap maxc (st\<lparr>tokens := f64 (tokens st - 1)\<rparr>)"
proof -
  have "(of_int cap :: rat) \<le> of_int 10000000" using assms(1) by (simp only: of_int_le_iff)
  then have "tokens st \<le> 2 ^ 53" using assms(2) by (simp add: bucket_ok_def)
  with assms show eq: "f64 (tokens st - 1) = tokens st - 1"
    by (intro f64_minus_one) (auto simp: bucket_ok_def)
  have "is_f64 (tokens st - 1)" using eq by (simp add: is_f64_def)
  with assms eq show "bucket_ok cap maxc (st\<lparr>tokens := f64 (tokens st - 1)\<rparr>)"
    by (auto simp: bucket_ok_def)
qed

lemma charge_request_ok:
  assumes "l7_ranges cfg" and "bucket_ok (requests_per_window cfg) (max_concurrent cfg) st"
  shows "bucket_ok (requests_per_window cfg) (max_concurrent cfg) (fst (charge_request cfg now st))"
proof -
  let ?c = "requests_per_window cfg" and ?m = "max_concurrent cfg"
  have rng: "0 \<le> ?c" "?c \<le> 10000000" using assms(1) by (auto simp: l7_ranges_def)
  have 0: "bucket_ok ?c ?m (st\<lparr>last_seen := now\<rparr>)" using assms(2) by (simp add: bucket_ok_def)
  note 1 = refill_ok [OF rng 0, of cfg now]
  note 2 = take_token_ok(2) [OF rng(2) 1]
  show ?thesis
    using 0 1 2 by (auto simp: charge_request_def Let_def bucket_ok_def)
qed

lemma charge_tls_ok:
  assumes "l7_ranges cfg" and "bucket_ok (tls_per_window cfg) 0 st"
  shows "bucket_ok (tls_per_window cfg) 0 (fst (charge_tls cfg now st))"
proof -
  let ?c = "tls_per_window cfg"
  have rng: "0 \<le> ?c" "?c \<le> 10000000" using assms(1) by (auto simp: l7_ranges_def)
  have 0: "bucket_ok ?c 0 (st\<lparr>last_seen := now\<rparr>)" using assms(2) by (simp add: bucket_ok_def)
  note 1 = refill_ok [OF rng 0, of cfg now]
  note 2 = take_token_ok(2) [OF rng(2) 1]
  show ?thesis
    using 1 2 by (auto simp: charge_tls_def Let_def)
qed

lemma zero_bucket_ok: "0 \<le> cap \<Longrightarrow> 0 \<le> maxc \<Longrightarrow> bucket_ok cap maxc zero_bucket"
  by (simp add: bucket_ok_def zero_bucket_def is_f64_def)

lemma request_fresh_ok:
  "l7_ranges cfg \<Longrightarrow> bucket_ok (requests_per_window cfg) (max_concurrent cfg) (request_fresh cfg now)"
  by (auto simp: bucket_ok_def zero_bucket_def request_fresh_def l7_ranges_def f64_cap is_f64_def)

lemma tls_fresh_ok: "l7_ranges cfg \<Longrightarrow> bucket_ok (tls_per_window cfg) 0 (tls_fresh cfg now)"
  by (auto simp: bucket_ok_def zero_bucket_def tls_fresh_def l7_ranges_def f64_cap is_f64_def)

section \<open>The slot lookup\<close>

lemma l7_prune_clients:
  "clients (prune_shard cfg now sh) = gm_remove_if (\<lambda>_. l7_stale cfg now) (clients sh)"
  "overflow (prune_shard cfg now sh) = overflow sh"
  by (simp_all add: prune_shard_def)

lemma l7_prune_ok: "shard_ok cap maxc sh \<Longrightarrow> shard_ok cap maxc (prune_shard cfg now sh)"
  using length_gm_remove_if_le [of _ "clients sh"]
  by (auto simp: shard_ok_def l7_prune_clients intro: order_trans)

lemma oldest_idle_from_in:
  "oldest_idle_from cfg now found m = Some (k, t) \<Longrightarrow>
     found = Some (k, t) \<or> (\<exists>st. (k, st) \<in> set m \<and> l7_stale cfg now st)"
  by (induction cfg now found m rule: oldest_idle_from.induct)
    (fastforce split: option.splits if_splits prod.splits)+

lemma l7_evict_ok: "shard_ok cap maxc sh \<Longrightarrow> shard_ok cap maxc (evict_oldest_idle cfg now sh)"
  using length_gm_del_le order_trans
  by (fastforce simp: shard_ok_def evict_oldest_idle_def split: option.splits)

lemma evict_keeps:
  assumes "gm_ok (clients sh)" and "gm_get (clients sh) k = Some st" and "\<not> l7_stale cfg now st"
  shows "gm_get (clients (evict_oldest_idle cfg now sh)) k = Some st"
proof (cases "oldest_idle_from cfg now None (clients sh)")
  case None
  with assms show ?thesis by (simp add: evict_oldest_idle_def)
next
  case (Some a)
  obtain k' t where a: "a = (k', t)" by (cases a)
  with Some obtain st' where "(k', st') \<in> set (clients sh)" "l7_stale cfg now st'"
    using oldest_idle_from_in by blast
  then have "gm_get (clients sh) k' = Some st'" "l7_stale cfg now st'"
    using assms(1) by (simp_all add: gm_ok_def)
  with assms have "k' \<noteq> k" by auto
  with assms(2) Some a show ?thesis by (simp add: evict_oldest_idle_def gm_get_del)
qed

lemma prune_keeps:
  assumes "gm_ok (clients sh)" and "gm_get (clients sh) k = Some st" and "\<not> l7_stale cfg now st"
  shows "gm_get (clients (prune_shard cfg now sh)) k = Some st"
  using assms by (simp add: l7_prune_clients gm_get_remove_if)

text \<open>The three ways out of the lookup: the client's own entry, a new one, or the shared
  overflow bucket; in every case an entry that is not stale stays as it was.\<close>

lemma l7_slot_cases:
  obtains (found) sh' where "l7_slot cfg fresh key now sh = (sh', Client key)" and "gm_has (clients sh') key"
      and "sh' = sh\<lparr>ops := ops sh + 1\<rparr> \<or> sh' = prune_shard cfg now (sh\<lparr>ops := ops sh + 1\<rparr>)"
  | (new) sh' where "l7_slot cfg fresh key now sh = (sh'\<lparr>clients := gm_put key fresh (clients sh')\<rparr>, Client key)"
      and "\<not> full sh'"
      and "\<exists>sh1. (sh1 = sh\<lparr>ops := ops sh + 1\<rparr> \<or> sh1 = prune_shard cfg now (sh\<lparr>ops := ops sh + 1\<rparr>) \<or>
             sh1 = prune_shard cfg now (prune_shard cfg now (sh\<lparr>ops := ops sh + 1\<rparr>))) \<and>
             \<not> gm_has (clients sh1) key \<and> (sh' = sh1 \<or> sh' = evict_oldest_idle cfg now sh1)"
  | (shared) sh' where "l7_slot cfg fresh key now sh = (sh', Overflow)"
      and "full sh'"
      and "\<exists>sh1. (sh1 = sh\<lparr>ops := ops sh + 1\<rparr> \<or> sh1 = prune_shard cfg now (sh\<lparr>ops := ops sh + 1\<rparr>) \<or>
             sh1 = prune_shard cfg now (prune_shard cfg now (sh\<lparr>ops := ops sh + 1\<rparr>))) \<and>
             (sh' = sh1 \<or> sh' = evict_oldest_idle cfg now sh1)"
proof -
  define sh0 where "sh0 = sh\<lparr>ops := ops sh + 1\<rparr>"
  define sh1 where "sh1 = (if ops sh0 mod l7_prune_every = 0 then prune_shard cfg now sh0 else sh0)"
  define sh2 where "sh2 = (if full sh1 then prune_shard cfg now sh1 else sh1)"
  define sh3 where "sh3 = (if full sh2 then evict_oldest_idle cfg now sh2 else sh2)"
  have slot: "l7_slot cfg fresh key now sh =
    (if gm_has (clients sh1) key then (sh1, Client key)
     else if full sh3 then (sh3, Overflow)
     else (sh3\<lparr>clients := gm_put key fresh (clients sh3)\<rparr>, Client key))"
    by (simp add: l7_slot_def Let_def sh0_def sh1_def sh2_def sh3_def)
  have s1: "sh1 = sh0 \<or> sh1 = prune_shard cfg now sh0" by (simp add: sh1_def)
  have s2: "sh2 = sh0 \<or> sh2 = prune_shard cfg now sh0 \<or> sh2 = prune_shard cfg now (prune_shard cfg now sh0)"
    using s1 by (auto simp: sh2_def)
  have s3: "sh3 = sh2 \<or> sh3 = evict_oldest_idle cfg now sh2" by (simp add: sh3_def)
  have no: "\<not> gm_has (clients sh2) key" if "\<not> gm_has (clients sh1) key"
    using that by (auto simp: sh2_def l7_prune_clients gm_has_iff set_gm_remove_if)
  show ?thesis
  proof (cases "gm_has (clients sh1) key")
    case True
    with slot s1 show ?thesis by (intro found [of sh1]) (simp_all add: sh0_def)
  next
    case False
    show ?thesis
    proof (cases "full sh3")
      case True
      with slot False s2 s3 show ?thesis by (intro shared [of sh3]) (auto simp: sh0_def)
    next
      case notfull: False
      with slot False s2 s3 no show ?thesis by (intro new [of sh3]) (auto simp: sh0_def)
    qed
  qed
qed

lemma shard_ok_ops [simp]: "shard_ok cap maxc (sh\<lparr>ops := n\<rparr>) = shard_ok cap maxc sh"
  by (simp add: shard_ok_def)

lemma l7_slot_ok:
  assumes "shard_ok cap maxc sh" and "bucket_ok cap maxc fresh"
  shows "shard_ok cap maxc (fst (l7_slot cfg fresh key now sh))"
proof (cases rule: l7_slot_cases [where cfg = cfg and fresh = fresh and key = key and now = now and sh = sh])
  case (found sh')
  with assms show ?thesis by (auto intro: l7_prune_ok)
next
  case (new sh')
  from new(3) assms(1) have "shard_ok cap maxc sh'"
    by (elim exE conjE disjE) (simp_all add: l7_prune_ok l7_evict_ok)
  with new(1,2) assms(2) show ?thesis
    by (auto simp: shard_ok_def full_def length_gm_put)
next
  case (shared sh')
  from shared(3) assms(1) have "shard_ok cap maxc sh'"
    by (elim exE conjE disjE) (simp_all add: l7_prune_ok l7_evict_ok)
  with shared(1) show ?thesis by simp
qed

definition present :: "l7_shard \<Rightarrow> handle \<Rightarrow> bool" where
  "present sh h = (case h of Overflow \<Rightarrow> True | Client k \<Rightarrow> gm_has (clients sh) k)"

lemma l7_slot_present: "present (fst (l7_slot cfg fresh key now sh)) (snd (l7_slot cfg fresh key now sh))"
  by (cases rule: l7_slot_cases [where cfg = cfg and fresh = fresh and key = key and now = now and sh = sh]) (auto simp: present_def gm_has_def gm_get_put)

lemma l7_slot_keeps:
  assumes "gm_ok (clients sh)" and "gm_get (clients sh) k = Some st" and "\<not> l7_stale cfg now st"
  shows "gm_get (clients (fst (l7_slot cfg fresh key now sh))) k = Some st"
proof -
  let ?keeps = "\<lambda>sh'. gm_ok (clients sh') \<and> gm_get (clients sh') k = Some st"
  have 0: "?keeps (sh\<lparr>ops := ops sh + 1\<rparr>)" using assms by simp
  have p: "?keeps s \<Longrightarrow> ?keeps (prune_shard cfg now s)" for s
    using prune_keeps [of s k st cfg now] assms(3) by (simp add: l7_prune_clients)
  have e: "?keeps s \<Longrightarrow> ?keeps (evict_oldest_idle cfg now s)" for s
    using evict_keeps [of s k st cfg now] assms(3)
    by (auto simp: evict_oldest_idle_def split: option.splits prod.splits)
  show ?thesis
  proof (cases rule: l7_slot_cases [where cfg = cfg and fresh = fresh and key = key and now = now and sh = sh])
    case (found sh')
    from found(3) have "?keeps sh'" using 0 p [OF 0] by (elim disjE) (simp_all only:)
    with found(1) show ?thesis by simp
  next
    case (new sh')
    then obtain sh1 where a: "sh1 = sh\<lparr>ops := ops sh + 1\<rparr> \<or> sh1 = prune_shard cfg now (sh\<lparr>ops := ops sh + 1\<rparr>) \<or>
        sh1 = prune_shard cfg now (prune_shard cfg now (sh\<lparr>ops := ops sh + 1\<rparr>))"
      and b: "\<not> gm_has (clients sh1) key" and c: "sh' = sh1 \<or> sh' = evict_oldest_idle cfg now sh1"
      by (elim exE conjE)
    from a have k1: "?keeps sh1"
      using 0 p [OF 0] p [OF p [OF 0]] by (elim disjE) (simp_all only:)
    from c have "?keeps sh'" using k1 e [OF k1] by (elim disjE) (simp_all only:)
    moreover have "k \<noteq> key" using k1 b by (auto simp: gm_has_def)
    ultimately show ?thesis using new(1) by (simp add: gm_get_put)
  next
    case (shared sh')
    then obtain sh1 where a: "sh1 = sh\<lparr>ops := ops sh + 1\<rparr> \<or> sh1 = prune_shard cfg now (sh\<lparr>ops := ops sh + 1\<rparr>) \<or>
        sh1 = prune_shard cfg now (prune_shard cfg now (sh\<lparr>ops := ops sh + 1\<rparr>))"
      and c: "sh' = sh1 \<or> sh' = evict_oldest_idle cfg now sh1"
      by (elim exE conjE)
    from a have k1: "?keeps sh1"
      using 0 p [OF 0] p [OF p [OF 0]] by (elim disjE) (simp_all only:)
    from c have "?keeps sh'" using k1 e [OF k1] by (elim disjE) (simp_all only:)
    with shared(1) show ?thesis by simp
  qed
qed

corollary l7_slot_keeps_active:
  assumes "gm_ok (clients sh)" and "gm_get (clients sh) k = Some st" and "active st \<noteq> 0"
  shows "gm_get (clients (fst (l7_slot cfg fresh key now sh))) k = Some st"
  using assms by (intro l7_slot_keeps) (simp_all add: l7_stale_def)

lemma set_state_ok:
  assumes "shard_ok cap maxc sh" and "bucket_ok cap maxc st" and "present sh h"
  shows "shard_ok cap maxc (set_state h st sh)"
  using assms by (auto simp: shard_ok_def set_state_def present_def length_gm_put split: handle.splits)

lemma state_of_ok:
  assumes "shard_ok cap maxc sh" and "present sh h"
  shows "bucket_ok cap maxc (state_of sh h)"
  using assms gm_all_get
  by (fastforce simp: shard_ok_def state_of_def present_def gm_has_def split: handle.splits option.splits)

section \<open>The controller's shards\<close>

lemma l7_shard_index_less: "l7_shard_index key < l7_shard_count"
proof -
  have "unat (h mod (of_nat l7_shard_count :: u64)) < l7_shard_count" for h
    by (simp add: unat_mod l7_shard_count_def)
  then show ?thesis by (simp add: l7_shard_index_def Let_def split: prod.splits)
qed

text \<open>An admission touches the request shard of its own key only.\<close>

lemma allow_at_other_shards:
  "i \<noteq> l7_shard_index (site, identity) \<Longrightarrow> ctl_shards (fst (allow_at site identity now c)) ! i = ctl_shards c ! i"
  by (simp add: allow_at_def Let_def split: prod.splits)

lemma allow_at_cfg:
  "ctl_cfg (fst (allow_at site identity now c)) = ctl_cfg c"
  "length (ctl_shards (fst (allow_at site identity now c))) = length (ctl_shards c)"
  "ctl_tls_shards (fst (allow_at site identity now c)) = ctl_tls_shards c"
  by (simp_all add: allow_at_def Let_def split: prod.splits)

section \<open>The shard as a bounded store\<close>

datatype l7_event = Allow abuse_key gtime | Release handle

fun l7_step :: "l7_config \<Rightarrow> l7_event \<Rightarrow> l7_shard \<Rightarrow> l7_shard" where
  "l7_step cfg (Allow key now) sh = fst (allow_shard cfg key now sh)"
| "l7_step cfg (Release h) sh = release_state h sh"

lemma allow_shard_ok:
  assumes "l7_ranges cfg" and "shard_ok (requests_per_window cfg) (max_concurrent cfg) sh"
  shows "shard_ok (requests_per_window cfg) (max_concurrent cfg) (fst (allow_shard cfg key now sh))"
proof -
  obtain sh' h where slot: "l7_slot cfg (request_fresh cfg now) key now sh = (sh', h)" by fastforce
  have ok: "shard_ok (requests_per_window cfg) (max_concurrent cfg) sh'"
    using l7_slot_ok [OF assms(2) request_fresh_ok [OF assms(1)], of cfg now key now] slot by simp
  have pr: "present sh' h" using l7_slot_present [of cfg "request_fresh cfg now" key now sh] slot by simp
  obtain st b where ch: "charge_request cfg now (state_of sh' h) = (st, b)" by fastforce
  have "bucket_ok (requests_per_window cfg) (max_concurrent cfg) st"
    using charge_request_ok [OF assms(1) state_of_ok [OF ok pr], of now] ch by simp
  with ok pr show ?thesis by (simp add: allow_shard_def slot ch set_state_ok)
qed

lemma release_state_ok:
  assumes "shard_ok cap maxc sh" shows "shard_ok cap maxc (release_state h sh)"
proof -
  have "bucket_ok cap maxc (state_of sh h\<lparr>active := active (state_of sh h) - 1\<rparr>)"
    if "present sh h" "active (state_of sh h) > 0"
    using state_of_ok [OF assms that(1)] that(2) by (auto simp: bucket_ok_def)
  then show ?thesis
    using assms by (auto simp: release_state_def Let_def present_def intro!: set_state_ok split: handle.splits)
qed

lemma l7_step_ok:
  assumes "l7_ranges cfg" and "shard_ok (requests_per_window cfg) (max_concurrent cfg) sh"
  shows "shard_ok (requests_per_window cfg) (max_concurrent cfg) (l7_step cfg e sh)"
  using assms by (cases e) (simp_all add: allow_shard_ok release_state_ok)

lemma empty_shard_ok: "0 \<le> cap \<Longrightarrow> 0 \<le> maxc \<Longrightarrow> shard_ok cap maxc empty_shard"
  by (simp add: shard_ok_def empty_shard_def zero_bucket_ok)

interpretation l7: bounded_store "l7_step cfg"
    "\<lambda>sh. l7_ranges cfg \<and> shard_ok (requests_per_window cfg) (max_concurrent cfg) sh"
    "\<lambda>sh. length (clients sh)" l7_max_entries
  for cfg
  by unfold_locales (auto simp: l7_step_ok, simp add: shard_ok_def)

section \<open>Requests in flight\<close>

text \<open>While a client's entry has a request in flight, no other event removes the entry or
  takes its count to zero: only a release of that entry's own handle does.\<close>

definition in_flight :: "l7_shard \<Rightarrow> abuse_key \<Rightarrow> bool" where
  "in_flight sh k \<longleftrightarrow> (\<exists>st. gm_get (clients sh) k = Some st \<and> 0 < active st)"

lemma charge_request_active: "active st \<le> active (fst (charge_request cfg now st))"
  by (simp add: charge_request_def Let_def)

lemma charge_request_granted:
  "snd (charge_request cfg now st) \<Longrightarrow> active (fst (charge_request cfg now st)) = active st + 1"
  by (auto simp: charge_request_def Let_def split: if_splits)

lemma allow_shard_in_flight:
  assumes "gm_ok (clients sh)" and "in_flight sh k"
  shows "in_flight (fst (allow_shard cfg key now sh)) k"
proof -
  obtain st where st: "gm_get (clients sh) k = Some st" "0 < active st"
    using assms(2) by (auto simp: in_flight_def)
  obtain sh' h where slot: "l7_slot cfg (request_fresh cfg now) key now sh = (sh', h)" by fastforce
  have kept: "gm_get (clients sh') k = Some st"
    using l7_slot_keeps_active [OF assms(1) st(1), of cfg "request_fresh cfg now" key now] st(2) slot
    by simp
  have "0 < active (fst (charge_request cfg now st))"
    using charge_request_active [of st cfg now] st(2) by linarith
  with kept st(2) show ?thesis
    by (auto simp: allow_shard_def slot set_state_def state_of_def in_flight_def gm_get_put
        split: handle.splits prod.splits)
qed

lemma l7_step_in_flight:
  assumes "gm_ok (clients sh)" and "in_flight sh k" and "e \<noteq> Release (Client k)"
  shows "in_flight (l7_step cfg e sh) k"
proof (cases e)
  case (Allow key now)
  with allow_shard_in_flight [OF assms(1,2)] show ?thesis by simp
next
  case (Release h)
  with assms show ?thesis
    by (auto simp: release_state_def set_state_def in_flight_def gm_get_put Let_def split: handle.splits)
qed

lemma run_in_flight:
  assumes "l7_ranges cfg" and "shard_ok (requests_per_window cfg) (max_concurrent cfg) sh"
    and "in_flight sh k" and "Release (Client k) \<notin> set es"
  shows "in_flight (run_machine (l7_step cfg) es sh) k"
  using assms
proof (induction es arbitrary: sh)
  case (Cons e es)
  have "shard_ok (requests_per_window cfg) (max_concurrent cfg) (l7_step cfg e sh)"
    using Cons.prems(1,2) by (rule l7_step_ok)
  moreover have "in_flight (l7_step cfg e sh) k"
    using Cons.prems by (intro l7_step_in_flight) (auto simp: shard_ok_def)
  ultimately show ?case using Cons by simp
qed simp

lemma allow_shard_grants_in_flight:
  assumes "shard_ok (requests_per_window cfg) (max_concurrent cfg) sh"
    and "allow_shard cfg key now sh = (sh', Some (Client k))" and "l7_ranges cfg"
  shows "in_flight sh' k"
proof -
  obtain sh1 h where slot: "l7_slot cfg (request_fresh cfg now) key now sh = (sh1, h)" by fastforce
  have ok: "shard_ok (requests_per_window cfg) (max_concurrent cfg) sh1"
    using l7_slot_ok [OF assms(1) request_fresh_ok [OF assms(3)], of cfg now key now] slot by simp
  have pr: "present sh1 h" using l7_slot_present [of cfg "request_fresh cfg now" key now sh] slot by simp
  have "0 \<le> active (state_of sh1 h)" using state_of_ok [OF ok pr] by (simp add: bucket_ok_def)
  moreover from assms(2) have "snd (charge_request cfg now (state_of sh1 h))" and "h = Client k"
    and "sh' = set_state h (fst (charge_request cfg now (state_of sh1 h))) sh1"
    by (auto simp: allow_shard_def slot split: prod.splits if_splits)
  ultimately show ?thesis
    using charge_request_granted [of cfg now "state_of sh1 h"]
    by (simp add: in_flight_def set_state_def gm_get_put)
qed

section \<open>Saturation\<close>

lemma oldest_idle_from_None:
  "\<forall>(k, st) \<in> set m. \<not> l7_stale cfg now st \<Longrightarrow> oldest_idle_from cfg now found m = found"
  by (induction cfg now found m rule: oldest_idle_from.induct) auto

lemma gm_remove_if_none: "\<forall>(k, v) \<in> set m. \<not> p k v \<Longrightarrow> gm_remove_if p m = m"
  by (auto simp: gm_remove_if_def filter_id_conv)

lemma saturated_slot:
  assumes "full sh" and "\<forall>(k, st) \<in> set (clients sh). \<not> l7_stale cfg now st" and "\<not> gm_has (clients sh) key"
  shows "snd (l7_slot cfg fresh key now sh) = Overflow"
    and "clients (fst (l7_slot cfg fresh key now sh)) = clients sh"
    and "overflow (fst (l7_slot cfg fresh key now sh)) = overflow sh"
proof -
  have p: "clients (prune_shard cfg now s) = clients sh" if "clients s = clients sh" for s
    using that assms(2) gm_remove_if_none [of "clients sh"] by (simp add: l7_prune_clients)
  have e: "evict_oldest_idle cfg now s = s" if "clients s = clients sh" for s
    using that assms(2) oldest_idle_from_None [of "clients sh"] by (simp add: evict_oldest_idle_def)
  have f: "full s" if "clients s = clients sh" for s
    using that assms(1) by (simp add: full_def)
  define sh1 where "sh1 = (if (ops sh + 1) mod l7_prune_every = 0
    then prune_shard cfg now (sh\<lparr>ops := ops sh + 1\<rparr>) else sh\<lparr>ops := ops sh + 1\<rparr>)"
  have c1: "clients sh1 = clients sh" and o1: "overflow sh1 = overflow sh"
    by (simp_all add: sh1_def p l7_prune_clients(2))
  have "l7_slot cfg fresh key now sh = (prune_shard cfg now sh1, Overflow)"
    using assms(3) f [OF c1] f [OF p [OF c1]] e [OF p [OF c1]] c1
    by (simp add: l7_slot_def Let_def flip: sh1_def)
  then show "snd (l7_slot cfg fresh key now sh) = Overflow"
    and "clients (fst (l7_slot cfg fresh key now sh)) = clients sh"
    and "overflow (fst (l7_slot cfg fresh key now sh)) = overflow sh"
    by (simp_all add: p [OF c1] l7_prune_clients(2) o1)
qed

section \<open>A stale bucket is a full bucket\<close>

definition window_secs :: "l7_config \<Rightarrow> int" where
  "window_secs cfg = (if window_seconds cfg \<le> 0 then 1 else window_seconds cfg)"

lemma window_duration_secs: "window_duration cfg = window_secs cfg * second"
  by (simp add: window_duration_def window_secs_def Let_def)

lemma window_secs_range: "l7_ranges cfg \<Longrightarrow> 1 \<le> window_secs cfg \<and> window_secs cfg \<le> 86400"
  by (simp add: window_secs_def l7_ranges_def)

lemma dur_seconds_window: "l7_ranges cfg \<Longrightarrow> dur_seconds (window_duration cfg) = of_int (window_secs cfg)"
  using window_secs_range [of cfg] by (simp add: window_duration_secs dur_seconds_of_seconds)

text \<open>The idle TTL is at least two windows, which is more than enough to refill a bucket, even
  with every operation rounded.\<close>

lemma refill_stale:
  assumes rng: "l7_ranges cfg" and cap: "0 \<le> cap" "cap \<le> 10000000"
    and ok: "bucket_ok cap maxc st" and idle: "last_refill st + idle_ttl cfg \<le> now"
  shows "tokens (refill cfg cap now st) = of_int cap"
proof -
  let ?W = "window_secs cfg" and ?d = "time_sub now (last_refill st)"
  note w = window_secs_range [OF rng]
  have c: "f64 (of_int cap) = of_int cap" using cap by (rule f64_cap)
  have ttl: "2 * ?W * second \<le> idle_ttl cfg"
    by (simp add: idle_ttl_def Let_def window_duration_secs)
  have "2 * ?W * second \<le> ?d"
    using w ttl idle by (subst time_sub_ge_iff) (auto simp: min_duration_def max_duration_def)
  then have secs: "of_int (2 * ?W) \<le> dur_seconds ?d"
    using w by (intro dur_seconds_ge) auto
  have rate: "of_int cap / of_int ?W / 2 \<le> f64 (of_int cap / of_int ?W)"
    using cap w by (intro f64_ge_half) simp
  have "of_int cap = of_int (2 * ?W) * (of_int cap / of_int ?W / 2 :: rat)"
    using w by simp
  also have "\<dots> \<le> dur_seconds ?d * f64 (of_int cap / of_int ?W)"
    using secs rate cap w by (intro mult_mono) auto
  finally have "f64 (of_int cap) \<le> f64 (dur_seconds ?d * f64 (of_int cap / of_int ?W))"
    by (rule f64_mono)
  then have "of_int cap \<le> tokens st + f64 (dur_seconds ?d * f64 (of_int cap / of_int ?W))"
    using c ok by (simp add: bucket_ok_def)
  then have "f64 (of_int cap) \<le> f64 (tokens st + f64 (dur_seconds ?d * f64 (of_int cap / of_int ?W)))"
    by (rule f64_mono)
  moreover have "last_refill st < now"
    using idle by (auto simp: idle_ttl_def Let_def l7_min_idle_ttl_def split: if_splits)
  ultimately show ?thesis
    using c by (auto simp: refill_def Let_def dur_seconds_window [OF rng])
qed

lemma refill_last: "last_refill st < now \<Longrightarrow> last_refill (refill cfg cap now st) = now"
  by (simp add: refill_def Let_def)

section \<open>The admission rate\<close>

definition eps_rate :: rat where "eps_rate = 1 + 1 / 2 ^ 50"

lemma eps_pow: "(1 + 1 / 2 ^ 53 :: rat) ^ 6 \<le> eps_rate"
  by (simp add: eps_rate_def power_divide field_simps)

text \<open>Tokens a bucket may gain per nanosecond, rounding included.\<close>

definition gain_per_ns :: "l7_config \<Rightarrow> rat" where
  "gain_per_ns cfg = eps_rate * of_int (requests_per_window cfg) / of_int (window_secs cfg) / 1000000000"

lemma refill_gain:
  assumes rng: "l7_ranges cfg" and nz: "last_refill st \<noteq> 0"
    and ok: "bucket_ok (requests_per_window cfg) maxc st"
  shows "tokens (refill cfg (requests_per_window cfg) now st) \<le>
    tokens st + gain_per_ns cfg * of_int (max 0 (now - last_refill st)) + 1 / 2 ^ 29"
proof (cases "last_refill st < now")
  case False
  then show ?thesis using nz by (simp add: refill_def time_is_zero_def Let_def)
next
  case True
  let ?C = "of_int (requests_per_window cfg) :: rat" and ?W = "of_int (window_secs cfg) :: rat"
  let ?d = "time_sub now (last_refill st)" and ?\<epsilon> = "1 + 1 / 2 ^ 53 :: rat"
  have W: "1 \<le> ?W" using window_secs_range [OF rng] by simp
  have "(of_int (requests_per_window cfg) :: rat) \<le> of_int 10000000"
    using rng by (simp only: of_int_le_iff l7_ranges_def)
  then have C: "0 \<le> ?C" "?C \<le> 10000000" using rng by (simp_all add: l7_ranges_def)
  have fC: "f64 ?C = ?C" using rng by (intro f64_cap) (auto simp: l7_ranges_def)
  have d: "0 < ?d" "?d \<le> now - last_refill st" using True by (simp_all add: time_sub_pos_iff time_sub_le)
  have CW: "0 \<le> ?C / ?W" using C W by simp
  have sd: "0 \<le> dur_seconds ?d" "dur_seconds ?d \<le> of_int ?d / 1000000000 * ?\<epsilon> ^ 3"
    using d(1) dur_seconds_le [of ?d] by simp_all
  let ?inc = "f64 (dur_seconds ?d * f64 (?C / ?W))"
  have "dur_seconds ?d * f64 (?C / ?W) \<le> (of_int ?d / 1000000000 * ?\<epsilon> ^ 3) * (?C / ?W * ?\<epsilon>)"
    using sd f64_le [OF CW] f64_nonneg [OF CW] d(1) by (intro mult_mono) auto
  then have "?inc \<le> (of_int ?d / 1000000000 * ?\<epsilon> ^ 3) * (?C / ?W * ?\<epsilon>) * ?\<epsilon>"
    using f64_le [of "dur_seconds ?d * f64 (?C / ?W)"] sd f64_nonneg [OF CW]
    by (meson mult_nonneg_nonneg mult_right_mono order_trans add_nonneg_nonneg zero_le_one zero_le_divide_1_iff zero_le_power zero_le_numeral)
  also have "\<dots> = ?C / ?W * (of_int ?d / 1000000000) * ?\<epsilon> ^ 5"
    by (simp only: power3_eq_cube power_numeral_reduce) (simp add: mult.assoc mult.commute mult.left_commute numeral_eq_Suc)
  finally have inc: "?inc \<le> ?C / ?W * (of_int ?d / 1000000000) * ?\<epsilon> ^ 5" .
  have inc0: "0 \<le> ?inc" using sd f64_nonneg [OF CW] by simp
  have t: "0 \<le> tokens st" "tokens st \<le> ?C" using ok by (simp_all add: bucket_ok_def)
  have "f64 (tokens st + ?inc) \<le> (tokens st + ?inc) * ?\<epsilon>"
    using t(1) inc0 by (intro f64_le) simp
  also have "\<dots> = tokens st + tokens st / 2 ^ 53 + ?inc * ?\<epsilon>" by (simp add: algebra_simps)
  also have "\<dots> \<le> tokens st + 1 / 2 ^ 29 + (?C / ?W * (of_int ?d / 1000000000) * ?\<epsilon> ^ 5) * ?\<epsilon>"
    using t C inc by (intro add_mono mult_right_mono) auto
  also have "(?C / ?W * (of_int ?d / 1000000000) * ?\<epsilon> ^ 5) * ?\<epsilon> =
      ?C / ?W * (of_int ?d / 1000000000) * ?\<epsilon> ^ 6"
    by (simp only: mult.assoc flip: power_Suc2) simp
  also have "\<dots> \<le> ?C / ?W * (of_int ?d / 1000000000) * eps_rate"
    using CW d(1) by (intro mult_left_mono eps_pow mult_nonneg_nonneg) simp_all
  also have "\<dots> = gain_per_ns cfg * of_int ?d" by (simp add: gain_per_ns_def)
  also have "\<dots> \<le> gain_per_ns cfg * of_int (max 0 (now - last_refill st))"
    using d C W by (intro mult_left_mono) (simp_all add: gain_per_ns_def eps_rate_def)
  finally have "f64 (tokens st + ?inc) \<le>
      tokens st + 1 / 2 ^ 29 + gain_per_ns cfg * of_int (max 0 (now - last_refill st))" by simp
  then show ?thesis
    using True nz fC by (auto simp: refill_def Let_def time_is_zero_def dur_seconds_window [OF rng])
qed

text \<open>The life of one bucket: requests that charge it and releases of its slots. The result
  is the number of requests it let through.\<close>

datatype bucket_event = Req gtime | Done

definition release_bucket :: "abuse_state \<Rightarrow> abuse_state" where
  "release_bucket st = (if active st > 0 then st\<lparr>active := active st - 1\<rparr> else st)"

fun bucket_grants :: "l7_config \<Rightarrow> bucket_event list \<Rightarrow> abuse_state \<Rightarrow> nat" where
  "bucket_grants cfg [] st = 0"
| "bucket_grants cfg (Done # es) st = bucket_grants cfg es (release_bucket st)"
| "bucket_grants cfg (Req now # es) st =
     (let (st', ok) = charge_request cfg now st in (if ok then 1 else 0) + bucket_grants cfg es st')"

lemma charge_request_gain:
  assumes rng: "l7_ranges cfg" and req: "0 < requests_per_window cfg"
    and lr: "0 < last_refill st" "last_refill st \<le> T" and now: "0 < now" "now \<le> T"
    and ok: "bucket_ok (requests_per_window cfg) (max_concurrent cfg) st"
    and ch: "charge_request cfg now st = (st', b)"
  shows "0 < last_refill st' \<and> last_refill st' \<le> T"
    and "(if b then 1 else 0) + tokens st' + gain_per_ns cfg * of_int (T - last_refill st') \<le>
         tokens st + gain_per_ns cfg * of_int (T - last_refill st) + 1 / 2 ^ 29"
proof -
  let ?st = "st\<lparr>last_seen := now\<rparr>" and ?g = "gain_per_ns cfg"
  let ?r = "refill cfg (requests_per_window cfg) now ?st"
  have ok': "bucket_ok (requests_per_window cfg) (max_concurrent cfg) ?st"
    using ok by (simp add: bucket_ok_def)
  have g: "0 \<le> ?g" using req window_secs_range [OF rng] by (simp add: gain_per_ns_def eps_rate_def)
  have lr': "last_refill ?r = max now (last_refill st)"
    using lr by (auto simp: refill_def Let_def time_is_zero_def)
  have gain: "tokens ?r \<le> tokens st + ?g * of_int (max 0 (now - last_refill st)) + 1 / 2 ^ 29"
    using refill_gain [OF rng _ ok', of now] lr by simp
  have split: "of_int (max 0 (now - last_refill st)) + of_int (T - last_refill ?r) =
      (of_int (T - last_refill st) :: rat)"
    unfolding lr' by (simp add: max_def)
  have "?g * of_int (max 0 (now - last_refill st)) + ?g * of_int (T - last_refill ?r) =
      ?g * of_int (T - last_refill st)"
    by (simp only: split flip: distrib_left)
  then have key: "tokens ?r + ?g * of_int (T - last_refill ?r) \<le>
      tokens st + ?g * of_int (T - last_refill st) + 1 / 2 ^ 29"
    using gain by linarith
  have sub: "f64 (tokens ?r - 1) = tokens ?r - 1" if "\<not> tokens ?r < 1"
  proof (rule take_token_ok(1) [OF _ _ that])
    show "requests_per_window cfg \<le> 10000000" using rng by (simp add: l7_ranges_def)
    show "bucket_ok (requests_per_window cfg) (max_concurrent cfg) ?r"
      using rng by (intro refill_ok ok') (auto simp: l7_ranges_def)
  qed
  have pos: "(0::rat) \<le> 1 / 2 ^ 29" by simp
  consider (blocked) "st' = ?st" "\<not> b" | (dry) "st' = ?r" "\<not> b"
    | (granted) "st' = ?r\<lparr>tokens := tokens ?r - 1, active := active st + 1\<rparr>" b
    using ch req sub by (auto simp: charge_request_def Let_def split: if_splits)
  then show "0 < last_refill st' \<and> last_refill st' \<le> T"
    and "(if b then 1 else 0) + tokens st' + ?g * of_int (T - last_refill st') \<le>
         tokens st + ?g * of_int (T - last_refill st) + 1 / 2 ^ 29"
    using key lr now lr' pos by (cases; simp)+
qed

definition requests_in :: "bucket_event list \<Rightarrow> nat" where
  "requests_in es = length (filter (\<lambda>e. e \<noteq> Done) es)"

lemma bucket_grants_le:
  assumes "l7_ranges cfg" and "0 < requests_per_window cfg"
    and "0 < last_refill st" and "last_refill st \<le> T"
    and "\<forall>t. Req t \<in> set es \<longrightarrow> 0 < t \<and> t \<le> T"
    and "bucket_ok (requests_per_window cfg) (max_concurrent cfg) st"
  shows "of_nat (bucket_grants cfg es st) \<le>
    tokens st + gain_per_ns cfg * of_int (T - last_refill st) + of_nat (requests_in es) / 2 ^ 29"
  using assms
proof (induction cfg es st rule: bucket_grants.induct)
  case (1 cfg st)
  have "0 \<le> gain_per_ns cfg" using 1(1,2) window_secs_range [of cfg]
    by (simp add: gain_per_ns_def eps_rate_def)
  with 1 show ?case by (simp add: bucket_ok_def requests_in_def)
next
  case (2 cfg es st)
  have "bucket_ok (requests_per_window cfg) (max_concurrent cfg) (release_bucket st)"
    using 2(7) by (auto simp: release_bucket_def bucket_ok_def)
  then show ?case
    using 2 by (simp add: release_bucket_def requests_in_def split: if_splits)
next
  case (3 cfg now es st)
  obtain st' b where ch: "charge_request cfg now st = (st', b)" by fastforce
  have now: "0 < now" "now \<le> T" using 3(6) by auto
  note step = charge_request_gain [OF 3(2,3,4,5) now 3(7) ch]
  have "bucket_ok (requests_per_window cfg) (max_concurrent cfg) st'"
    using charge_request_ok [OF 3(2,7), of now] ch by simp
  then have "of_nat (bucket_grants cfg es st') \<le>
      tokens st' + gain_per_ns cfg * of_int (T - last_refill st') + of_nat (requests_in es) / 2 ^ 29"
    using 3 ch step(1) by simp
  moreover have "of_nat (requests_in (Req now # es)) / 2 ^ 29 =
      of_nat (requests_in es) / 2 ^ 29 + (1 / 2 ^ 29 :: rat)"
    by (simp add: requests_in_def add_divide_distrib)
  moreover have "(of_nat (bucket_grants cfg (Req now # es) st) :: rat) =
      (if b then 1 else 0) + of_nat (bucket_grants cfg es st')"
    using ch by simp
  ultimately show ?case using step(2) by linarith
qed

section \<open>Properties\<close>

definition demo_cfg :: l7_config where
  "demo_cfg = \<lparr>l7_enabled = True, requests_per_window = 2, window_seconds = 10, max_concurrent = 1, tls_per_window = 0\<rparr>"

definition demo_accel :: accel_config where
  "demo_accel = \<lparr>ac_mode = [], ac_ktls = [], ac_qat = [], ac_worker_processes = 0, ac_worker_connections = 0, ac_http2 = None\<rparr>"

lemma demo_valid: "validate_l7 demo_cfg demo_accel = None"
  by (simp add: validate_l7_def demo_cfg_def demo_accel_def frontend_enabled_def effective_def tls_const_defs)

text \<open>With a validated configuration, after any sequence of admissions and releases a shard
  holds at most 1024 clients, each with between zero and \<open>requests_per_window\<close> tokens and,
  when a concurrency limit is set, no more requests in flight than the limit; the shared overflow
  bucket obeys the same limits.\<close>

theorem l7_shard_bounds:
  assumes "validate_l7 cfg accel = None"
    and "sh = run_machine (l7_step cfg) es empty_shard"
    and "st \<in> insert (overflow sh) (snd ` set (clients sh))"
  shows "length (clients sh) \<le> l7_max_entries \<and>
    0 \<le> tokens st \<and> tokens st \<le> of_int (requests_per_window cfg) \<and>
    0 \<le> active st \<and> (0 < max_concurrent cfg \<longrightarrow> active st \<le> max_concurrent cfg)"
proof -
  have rng: "l7_ranges cfg" using assms(1) by (rule validate_l7_ranges)
  then have init: "l7_ranges cfg \<and> shard_ok (requests_per_window cfg) (max_concurrent cfg) empty_shard"
    by (simp add: empty_shard_ok l7_ranges_def)
  have size: "length (clients sh) \<le> l7_max_entries"
    unfolding assms(2) by (rule l7.run_bounded [OF init])
  have "shard_ok (requests_per_window cfg) (max_concurrent cfg) sh"
    unfolding assms(2) using l7.inv_run [OF init] by blast
  then have "bucket_ok (requests_per_window cfg) (max_concurrent cfg) st"
    using assms(3) by (auto simp: shard_ok_def gm_all_def)
  with size show ?thesis by (simp add: bucket_ok_def)
qed

theorem l7_shard_bounds_witness:
  "length (clients (run_machine (l7_step demo_cfg) [Allow (''site'', ''10.0.0.1'') 7] empty_shard)) \<le> l7_max_entries"
  using l7_shard_bounds [OF demo_valid refl insertI1] by blast

text \<open>C29: A request that was let through on a client's own entry keeps that entry in the shard,
  with its request counted, through any admissions, prunings, evictions and releases of other
  clients, until its own slot is released.\<close>

theorem l7_grant_pinned:
  assumes "validate_l7 cfg accel = None"
    and "sh = run_machine (l7_step cfg) es empty_shard"
    and "allow_shard cfg key now sh = (sh', Some (Client k))"
    and "Release (Client k) \<notin> set later"
  shows "in_flight (run_machine (l7_step cfg) later sh') k"
proof -
  have rng: "l7_ranges cfg" using assms(1) by (rule validate_l7_ranges)
  have "l7_ranges cfg \<and> shard_ok (requests_per_window cfg) (max_concurrent cfg) sh"
    unfolding assms(2) using rng by (intro l7.inv_run) (simp add: empty_shard_ok l7_ranges_def)
  then have ok: "shard_ok (requests_per_window cfg) (max_concurrent cfg) sh" ..
  have "shard_ok (requests_per_window cfg) (max_concurrent cfg) sh'"
    using allow_shard_ok [OF rng ok, of key now] assms(3) by simp
  moreover have "in_flight sh' k"
    using allow_shard_grants_in_flight [OF ok assms(3) rng] .
  ultimately show ?thesis using rng assms(4) by (intro run_in_flight)
qed

lemma demo_allow:
  "\<exists>sh'. allow_shard demo_cfg (''s'', ''c'') 5 empty_shard = (sh', Some (Client (''s'', ''c'')))"
proof -
  have m: "(1 :: u64) mod l7_prune_every \<noteq> 0" by (simp add: l7_prune_every_def)
  have f2: "f64 2 = 2" using f64_of_nat [of 2] by simp
  show ?thesis
    using m by (simp add: allow_shard_def l7_slot_def empty_shard_def Let_def full_def l7_max_entries_def
        gm_has_def state_of_def set_state_def charge_request_def demo_cfg_def request_fresh_def
        refill_def time_is_zero_def zero_bucket_def f2)
qed

theorem l7_grant_pinned_witness:
  "\<exists>sh'. in_flight (run_machine (l7_step demo_cfg) [Allow (''s'', ''d'') 6, Release Overflow] sh') (''s'', ''c'')"
proof -
  obtain sh' where a: "allow_shard demo_cfg (''s'', ''c'') 5 empty_shard = (sh', Some (Client (''s'', ''c'')))"
    using demo_allow by blast
  have "in_flight (run_machine (l7_step demo_cfg) [Allow (''s'', ''d'') 6, Release Overflow] sh') (''s'', ''c'')"
    by (rule l7_grant_pinned [where es = "[]", OF demo_valid _ a]) simp_all
  then show ?thesis by blast
qed

text \<open>Forgetting a stale client is unobservable: a request that finds the stale bucket
  (idle longer than the idle TTL) is decided as a request that finds the fresh bucket a pruned
  client would get, and leaves the same bucket behind, float rounding included. Pruning and
  eviction can therefore not be used to gain tokens.\<close>

theorem l7_stale_unobservable:
  assumes "validate_l7 cfg accel = None" and "0 < requests_per_window cfg"
    and "bucket_ok (requests_per_window cfg) (max_concurrent cfg) st"
    and "last_refill st \<le> last_seen st" and "l7_stale cfg now st"
  shows "charge_request cfg now st = charge_request cfg now (request_fresh cfg now)"
proof -
  have rng: "l7_ranges cfg" using assms(1) by (rule validate_l7_ranges)
  let ?C = "requests_per_window cfg" and ?st = "st\<lparr>last_seen := now\<rparr>"
  have cap: "0 \<le> ?C" "?C \<le> 10000000" using rng by (simp_all add: l7_ranges_def)
  have c: "f64 (of_int ?C) = of_int ?C" using cap by (rule f64_cap)
  have act: "active st = 0" and seen: "last_seen st < now - idle_ttl cfg"
    using assms(5) by (simp_all add: l7_stale_def)
  have "tokens (refill cfg ?C now ?st) = of_int ?C"
    using assms(3,4) seen by (intro refill_stale [OF rng cap, of "max_concurrent cfg"]) (simp_all add: bucket_ok_def)
  moreover have "0 < idle_ttl cfg"
    by (simp add: idle_ttl_def Let_def l7_min_idle_ttl_def)
  then have "last_refill (refill cfg ?C now ?st) = now"
    using assms(4) seen by (intro refill_last) simp
  ultimately have st: "refill cfg ?C now ?st =
      \<lparr>tokens = of_int ?C, last_refill = now, last_seen = now, active = 0, \<dots> = abuse_state.more st\<rparr>"
    using act by (intro abuse_state.equality) simp_all
  have fresh: "refill cfg ?C now (request_fresh cfg now) = refill cfg ?C now ?st"
    using c assms(2) unfolding st by (simp add: request_fresh_def zero_bucket_def refill_def Let_def time_is_zero_def)
  have "(request_fresh cfg now)\<lparr>last_seen := now\<rparr> = request_fresh cfg now" and "active (request_fresh cfg now) = 0"
    by (simp_all add: request_fresh_def zero_bucket_def)
  with fresh act assms(2) st show ?thesis by (simp add: charge_request_def Let_def)
qed

definition demo_stale :: abuse_state where
  "demo_stale = \<lparr>tokens = 0, last_refill = second, last_seen = second, active = 0\<rparr>"

theorem l7_stale_unobservable_witness:
  "charge_request demo_cfg (hour) demo_stale = charge_request demo_cfg (hour) (request_fresh demo_cfg (hour))"
  by (rule l7_stale_unobservable [OF demo_valid])
    (simp_all add: demo_cfg_def demo_stale_def bucket_ok_def is_f64_def l7_stale_def idle_ttl_def
      window_duration_def l7_min_idle_ttl_def)

text \<open>A saturated shard fails closed: when the shard is full of clients that are not stale, a
  request of an unknown client evicts nobody and gets no bucket of its own; it is charged to the
  shared overflow bucket, and is refused when that bucket is.\<close>

theorem l7_saturated_shared:
  assumes "full sh" and "\<forall>(k, st) \<in> set (clients sh). \<not> l7_stale cfg now st"
    and "\<not> gm_has (clients sh) key"
    and "allow_shard cfg key now sh = (sh', g)"
  shows "clients sh' = clients sh \<and> overflow sh' = fst (charge_request cfg now (overflow sh)) \<and>
    g = (if snd (charge_request cfg now (overflow sh)) then Some Overflow else None)"
  using assms(4) saturated_slot [OF assms(1-3), of "request_fresh cfg now"]
  by (auto simp: allow_shard_def set_state_def state_of_def split: prod.splits)

definition demo_full :: l7_shard where
  "demo_full = empty_shard\<lparr>clients := map (\<lambda>n. ((''site'', replicate n CHR ''x''), demo_stale)) [0..<1024]\<rparr>"

theorem l7_saturated_shared_witness:
  "clients (fst (allow_shard demo_cfg (''other'', []) (2 * second) demo_full)) = clients demo_full"
proof -
  obtain sh' g where a: "allow_shard demo_cfg (''other'', []) (2 * second) demo_full = (sh', g)" by fastforce
  have "full demo_full" and "\<forall>(k, st) \<in> set (clients demo_full). \<not> l7_stale demo_cfg (2 * second) st"
      and "\<not> gm_has (clients demo_full) (''other'', [])"
    by (auto simp: demo_full_def full_def l7_max_entries_def l7_stale_def demo_stale_def
        idle_ttl_def l7_min_idle_ttl_def window_duration_def demo_cfg_def gm_has_iff)
  from l7_saturated_shared [OF this a] a show ?thesis by simp
qed

text \<open>C17: The rate limit: of any requests a bucket sees up to time \<open>T\<close>, at most its tokens plus
  \<open>requests_per_window / window_seconds\<close> per second since its last refill are let through, but
  for the rounding of the float arithmetic (a factor of \<open>1 + 2 ^ (-50)\<close> on the rate and
  \<open>2 ^ (-29)\<close> tokens per request). Releasing slots does not add to it.\<close>

theorem l7_rate_limit:
  assumes "validate_l7 cfg accel = None" and "0 < requests_per_window cfg"
    and "bucket_ok (requests_per_window cfg) (max_concurrent cfg) st"
    and "0 < last_refill st" and "last_refill st \<le> T"
    and "\<forall>t. Req t \<in> set es \<longrightarrow> 0 < t \<and> t \<le> T"
  shows "of_nat (bucket_grants cfg es st) \<le>
    tokens st
    + (1 + 1 / 2 ^ 50) * of_int (requests_per_window cfg) / of_int (window_secs cfg) *
        (of_int (T - last_refill st) / 1000000000)
    + of_nat (requests_in es) / 2 ^ 29"
  using bucket_grants_le [OF validate_l7_ranges [OF assms(1)] assms(2,4,5,6,3)]
  by (simp add: gain_per_ns_def eps_rate_def)

theorem l7_rate_limit_witness:
  "of_nat (bucket_grants demo_cfg [Req (2 * second), Done, Req (3 * second)] demo_stale) \<le>
    (0 :: rat) + (1 + 1 / 2 ^ 50) * 2 / 10 * (of_int (3 * second - second) / 1000000000) + 2 / 2 ^ 29"
  using l7_rate_limit [OF demo_valid, of demo_stale "3 * second" "[Req (2 * second), Done, Req (3 * second)]"]
  by (simp add: demo_cfg_def demo_stale_def bucket_ok_def is_f64_def window_secs_def requests_in_def)

end
