(* ===== verification/Go_Net.thy ===== *)
theory Go_Net
  imports Go_Map Tls_Front
begin

text \<open>
  What the code uses of Go's package \<^verbatim>\<open>net\<close>: textual addresses and networks
  (\<^verbatim>\<open>ParseIP\<close>, \<^verbatim>\<open>ParseCIDR\<close>, \<^verbatim>\<open>IP.String\<close>,
  \<^verbatim>\<open>IPNet.Contains\<close>) and host:port pairs. An IPv4-mapped IPv6 address is the IPv4
  address, as in every comparison the package makes; a network is its masked address and
  prefix length in the family that remains.
\<close>

unbundle bit_operations_syntax

section \<open>Addresses\<close>

datatype ip_addr = V4 "32 word" | V6 "128 word"

definition is_digit :: "char \<Rightarrow> bool" where
  "is_digit c \<longleftrightarrow> CHR ''0'' \<le> c \<and> c \<le> CHR ''9''"

definition octet :: "string \<Rightarrow> nat option" where
  "octet s = (if s \<noteq> [] \<and> list_all is_digit s \<and> (length s = 1 \<or> hd s \<noteq> CHR ''0'') \<and> decimal_value s \<le> 255
     then Some (decimal_value s) else None)"

text \<open>Four octets, or four groups of sixteen bits and so on, as one number.\<close>

definition join_base :: "nat \<Rightarrow> nat list \<Rightarrow> nat" where
  "join_base b ds = foldl (\<lambda>n d. b * n + d) 0 ds"

definition parse_octets :: "string \<Rightarrow> nat list option" where
  "parse_octets s =
     (let os = map octet (split_on CHR ''.'' s) in
      if length os = 4 \<and> None \<notin> set os then Some (map the os) else None)"

definition parse_ipv4 :: "string \<Rightarrow> ip_addr option" where
  "parse_ipv4 s = map_option (\<lambda>os. V4 (of_nat (join_base 256 os))) (parse_octets s)"

definition hex_digit :: "char \<Rightarrow> nat option" where
  "hex_digit c =
     (if is_digit c then Some (of_char c - 48)
      else if CHR ''a'' \<le> c \<and> c \<le> CHR ''f'' then Some (of_char c - 87)
      else if CHR ''A'' \<le> c \<and> c \<le> CHR ''F'' then Some (of_char c - 55)
      else None)"

definition hex_value :: "string \<Rightarrow> nat" where
  "hex_value s = join_base 16 (map (\<lambda>c. case hex_digit c of Some d \<Rightarrow> d | None \<Rightarrow> 0) s)"

text \<open>
  The loop of \<^verbatim>\<open>netip.parseIPv6\<close>: \<open>gs\<close> are the groups read so far,
  \<open>ell\<close> the place of the double colon. At most eight groups are read (\<open>fuel\<close>).
\<close>

fun v6_loop :: "nat \<Rightarrow> string \<Rightarrow> nat list \<Rightarrow> nat option \<Rightarrow> (nat list \<times> nat option) option" where
  "v6_loop 0 s gs ell = (if s = [] then Some (gs, ell) else None)"
| "v6_loop (Suc fuel) s gs ell =
     (let hx = takeWhile (\<lambda>c. hex_digit c \<noteq> None) s;
          rest = drop (length hx) s
      in if hx = [] \<or> length hx > 4 then None
         else if rest \<noteq> [] \<and> hd rest = CHR ''.'' then
           if (ell = None \<and> length gs \<noteq> 6) \<or> length gs > 6 then None
           else (case parse_octets s of
               None \<Rightarrow> None
             | Some os \<Rightarrow> Some (gs @ [os ! 0 * 256 + os ! 1, os ! 2 * 256 + os ! 3], ell))
         else
           let gs' = gs @ [hex_value hx] in
           if rest = [] then Some (gs', ell)
           else if hd rest \<noteq> CHR '':'' \<or> tl rest = [] then None
           else if hd (tl rest) = CHR '':'' then
             if ell \<noteq> None then None
             else if tl (tl rest) = [] then Some (gs', Some (length gs'))
             else v6_loop fuel (tl (tl rest)) gs' (Some (length gs'))
           else v6_loop fuel (tl rest) gs' ell)"

text \<open>An IPv4-mapped address is the IPv4 address (\<^verbatim>\<open>IP.To4\<close>).\<close>

definition unmap :: "128 word \<Rightarrow> ip_addr" where
  "unmap w = (if drop_bit 32 w = 65535 then V4 (ucast w) else V6 w)"

definition parse_v6_groups :: "string \<Rightarrow> nat list option" where
  "parse_v6_groups s =
     (let starts = has_prefix s ''::'';
          s' = (if starts then drop 2 s else s)
      in if starts \<and> s' = [] then Some (replicate 8 0)
         else case v6_loop 8 s' [] (if starts then Some 0 else None) of
             None \<Rightarrow> None
           | Some (gs, ell) \<Rightarrow>
               (case ell of
                  None \<Rightarrow> if length gs = 8 then Some gs else None
                | Some k \<Rightarrow> if length gs < 8
                    then Some (take k gs @ replicate (8 - length gs) 0 @ drop k gs) else None))"

definition parse_ip :: "string \<Rightarrow> ip_addr option" where
  "parse_ip s =
     (case find (\<lambda>c. c \<in> {CHR ''.'', CHR '':'', CHR ''%''}) s of
        Some c \<Rightarrow>
          if c = CHR ''.'' then parse_ipv4 s
          else if c = CHR '':'' then
            map_option (\<lambda>gs. unmap (of_nat (join_base 65536 gs))) (parse_v6_groups s)
          else None
      | None \<Rightarrow> None)"

fun decimal_of :: "nat \<Rightarrow> string" where
  "decimal_of n = (if n < 10 then [char_of (48 + n)] else decimal_of (n div 10) @ [char_of (48 + n mod 10)])"

declare decimal_of.simps [simp del]

fun hex_of :: "nat \<Rightarrow> string" where
  "hex_of n = (let d = (\<lambda>k. if k < 10 then char_of (48 + k) else char_of (87 + k)) in
     if n < 16 then [d n] else hex_of (n div 16) @ [d (n mod 16)])"

declare hex_of.simps [simp del]

definition join_with :: "string \<Rightarrow> string list \<Rightarrow> string" where
  "join_with sep ss = (case ss of [] \<Rightarrow> [] | t # ts \<Rightarrow> t @ concat (map ((@) sep) ts))"

definition v4_octets :: "32 word \<Rightarrow> nat list" where
  "v4_octets w = map (\<lambda>k. unat (drop_bit k w AND 255)) [24, 16, 8, 0]"

definition v6_groups :: "128 word \<Rightarrow> nat list" where
  "v6_groups w = map (\<lambda>k. unat (drop_bit k w AND 65535)) [112, 96, 80, 64, 48, 32, 16, 0]"

definition zero_run :: "nat list \<Rightarrow> nat \<Rightarrow> nat" where
  "zero_run gs i = length (takeWhile (\<lambda>g. g = 0) (drop i gs))"

text \<open>The first longest run of at least two zero groups is written as a double colon.\<close>

definition best_run :: "nat list \<Rightarrow> (nat \<times> nat) option" where
  "best_run gs = foldl (\<lambda>best i. let n = zero_run gs i in
     if n \<ge> 2 \<and> (case best of None \<Rightarrow> True | Some (_, m) \<Rightarrow> m < n) then Some (i, n) else best)
     None [0..<length gs]"

definition ip_string :: "ip_addr \<Rightarrow> string" where
  "ip_string ip = (case ip of
     V4 w \<Rightarrow> join_with ''.'' (map decimal_of (v4_octets w))
   | V6 w \<Rightarrow> (let gs = v6_groups w in case best_run gs of
        None \<Rightarrow> join_with '':'' (map hex_of gs)
      | Some (i, n) \<Rightarrow> join_with '':'' (map hex_of (take i gs)) @ ''::'' @
            join_with '':'' (map hex_of (drop (i + n) gs))))"

section \<open>Networks\<close>

datatype ip_net = Net4 "32 word" nat | Net6 "128 word" nat

definition keep_top :: "nat \<Rightarrow> 'a::len word \<Rightarrow> 'a word" where
  "keep_top n w = push_bit (LENGTH('a) - n) (drop_bit (LENGTH('a) - n) w)"

definition net_contains :: "ip_net \<Rightarrow> ip_addr \<Rightarrow> bool" where
  "net_contains net ip = (case (net, ip) of
     (Net4 a n, V4 w) \<Rightarrow> keep_top n a = keep_top n w
   | (Net6 a n, V6 w) \<Rightarrow> keep_top n a = keep_top n w
   | _ \<Rightarrow> False)"

definition mask_len :: "string \<Rightarrow> nat option" where
  "mask_len s = (if s \<noteq> [] \<and> list_all is_digit s \<and> decimal_value s < 16777215 then Some (decimal_value s) else None)"

text \<open>The address as written keeps its length here: the mask of \<^verbatim>\<open>::ffff:1.2.3.4/120\<close>
  counts 128 bits, and the network is \<^verbatim>\<open>1.2.3.0/24\<close>.\<close>

definition parse_cidr :: "string \<Rightarrow> ip_net option" where
  "parse_cidr s =
     (case split_on CHR ''/'' s of
        addr # m1 # ms \<Rightarrow>
          (case (parse_ip addr, mask_len (join_with ''/'' (m1 # ms))) of
             (Some (V4 w), Some n) \<Rightarrow>
               if CHR '':'' \<notin> set addr then (if n \<le> 32 then Some (Net4 (keep_top n w) n) else None)
               else if n > 128 then None
               else let v = keep_top n (push_bit 32 65535 OR ucast w :: 128 word) in
                 if 96 \<le> n then Some (Net4 (keep_top (n - 96) w) (n - 96)) else Some (Net6 v n)
           | (Some (V6 w), Some n) \<Rightarrow> if n \<le> 128 then Some (Net6 (keep_top n w) n) else None
           | _ \<Rightarrow> None)
      | _ \<Rightarrow> None)"

definition net_string :: "ip_net \<Rightarrow> string" where
  "net_string net = (case net of
     Net4 a n \<Rightarrow> ip_string (V4 a) @ ''/'' @ decimal_of n
   | Net6 a n \<Rightarrow> ip_string (V6 a) @ ''/'' @ decimal_of n)"

section \<open>Host and port\<close>

definition last_index :: "char \<Rightarrow> string \<Rightarrow> nat option" where
  "last_index c s = map_option (\<lambda>i. length s - 1 - i) (find (\<lambda>i. rev s ! i = c) [0..<length s])"

definition first_index :: "char \<Rightarrow> string \<Rightarrow> nat option" where
  "first_index c s = find (\<lambda>i. s ! i = c) [0..<length s]"

definition split_host_port :: "string \<Rightarrow> (string \<times> string) option" where
  "split_host_port hp =
     (case last_index CHR '':'' hp of
        None \<Rightarrow> None
      | Some i \<Rightarrow>
          if hd hp = CHR ''['' then
            (case first_index CHR '']'' hp of
               None \<Rightarrow> None
             | Some e \<Rightarrow>
                 if e + 1 \<noteq> i then None
                 else if CHR ''['' \<in> set (drop 1 hp) \<or> CHR '']'' \<in> set (drop (e + 1) hp) then None
                 else Some (take (e - 1) (drop 1 hp), drop (i + 1) hp))
          else if CHR '':'' \<in> set (take i hp) \<or> CHR ''['' \<in> set hp \<or> CHR '']'' \<in> set hp then None
          else Some (take i hp, drop (i + 1) hp))"

definition join_host_port :: "string \<Rightarrow> string \<Rightarrow> string" where
  "join_host_port host port =
     (if CHR '':'' \<in> set host then ''['' @ host @ '']:'' @ port else host @ '':'' @ port)"

section \<open>Lemmas\<close>

lemma last_index_append:
  assumes "c \<notin> set p" shows "last_index c (h @ c # p) = Some (length h)"
proof -
  have "find (\<lambda>i. (rev p @ c # rev h) ! i = c) [0..<length h + Suc (length p)] = Some (length p)"
    using assms by (subst find_Some_iff) (auto intro!: exI [of _ "length p"] simp: nth_append in_set_conv_nth rev_nth)
  then show ?thesis by (simp add: last_index_def)
qed

lemma first_index_append:
  assumes "c \<notin> set h" shows "first_index c (h @ c # p) = Some (length h)"
  unfolding first_index_def using assms
  by (subst find_Some_iff) (auto intro!: exI [of _ "length h"] simp: nth_append in_set_conv_nth)

theorem split_join_host_port:
  assumes "CHR ''['' \<notin> set host" and "CHR '']'' \<notin> set host"
    and "CHR '':'' \<notin> set port" and "CHR ''['' \<notin> set port" and "CHR '']'' \<notin> set port"
  shows "split_host_port (join_host_port host port) = Some (host, port)"
proof (cases "CHR '':'' \<in> set host")
  case True
  have l: "last_index CHR '':'' ((''['' @ host @ '']'') @ CHR '':'' # port) = Some (length host + 2)"
    using assms(3) by (subst last_index_append) simp_all
  have f: "first_index CHR '']'' ((CHR ''['' # host) @ CHR '']'' # CHR '':'' # port) = Some (length host + 1)"
    using assms(2) by (subst first_index_append) simp_all
  show ?thesis
    using True l f assms by (simp add: split_host_port_def join_host_port_def)
next
  case False
  have l: "last_index CHR '':'' (host @ CHR '':'' # port) = Some (length host)"
    using assms(3) by (rule last_index_append)
  have "hd (host @ CHR '':'' # port) \<noteq> CHR ''[''" using assms(1) by (cases host) auto
  with False l assms show ?thesis by (simp add: split_host_port_def join_host_port_def)
qed

end
