(* ===== verification/Client_Identity.thy ===== *)
theory Client_Identity
  imports Go_Net
begin

text \<open>
  \<^verbatim>\<open>clientip.go\<close>: one authoritative client address per request. The
  X-Forwarded-For chain counts only when the socket peer is a trusted proxy, and is then walked
  from right to left up to the first hop that is not one. \<^verbatim>\<open>wrap\<close> runs first and
  rewrites the request's remote address, so every later consumer sees the same client.
  The request is its remote address and the values of the headers the resolver reads.
\<close>

definition max_forwarded_bytes :: nat where "max_forwarded_bytes = 4096"
definition max_forwarded_hops :: nat where "max_forwarded_hops = 32"
definition max_trusted_cidrs :: nat where "max_trusted_cidrs = 64"

record http_identity =
  hi_remote_addr :: string
  hi_forwarded_for :: "string list"
  hi_forwarded :: "string list"
  hi_real_ip :: "string list"

definition header_get :: "string list \<Rightarrow> string" where
  "header_get vs = (case vs of [] \<Rightarrow> [] | v # _ \<Rightarrow> v)"

text \<open>\<^verbatim>\<open>strings.Trim(s, cutset)\<close>\<close>

definition trim_chars :: "char list \<Rightarrow> string \<Rightarrow> string" where
  "trim_chars cs s = rev (dropWhile (\<lambda>c. c \<in> set cs) (rev (dropWhile (\<lambda>c. c \<in> set cs) s)))"

definition client_ip :: "http_identity \<Rightarrow> string" where
  "client_ip r = (case split_host_port (hi_remote_addr r) of
     None \<Rightarrow> hi_remote_addr r
   | Some (host, _) \<Rightarrow> trim_chars ''[]'' host)"

section \<open>The trusted proxies\<close>

datatype proxy_error = Too_many_cidrs | Empty_cidr | Invalid_cidr string | Duplicate_network string

fun validate_cidrs_from :: "string list \<Rightarrow> string list \<Rightarrow> proxy_error option" where
  "validate_cidrs_from seen [] = None"
| "validate_cidrs_from seen (c # cs) =
     (let raw = trim_space c in
      if raw = [] then Some Empty_cidr
      else case parse_cidr raw of
          None \<Rightarrow> Some (Invalid_cidr raw)
        | Some net \<Rightarrow>
            let key = net_string net in
            if key \<in> set seen then Some (Duplicate_network key)
            else validate_cidrs_from (key # seen) cs)"

definition validate_trusted_cidrs :: "string list \<Rightarrow> proxy_error option" where
  "validate_trusted_cidrs cidrs =
     (if length cidrs > max_trusted_cidrs then Some Too_many_cidrs else validate_cidrs_from [] cidrs)"

type_synonym ip_resolver = "ip_net list"

definition new_resolver :: "string list \<Rightarrow> proxy_error + ip_resolver" where
  "new_resolver cidrs =
     (case validate_trusted_cidrs cidrs of
        Some e \<Rightarrow> Inl e
      | None \<Rightarrow> Inr (map (\<lambda>raw. the (parse_cidr (trim_space raw))) cidrs))"

definition is_trusted :: "ip_resolver \<Rightarrow> ip_addr option \<Rightarrow> bool" where
  "is_trusted r ip = (case ip of None \<Rightarrow> False | Some a \<Rightarrow> list_ex (\<lambda>net. net_contains net a) r)"

text \<open>The two places the trusted list was configured in; the AI section's copy is moved.\<close>

definition migrate_trusted :: "string list \<times> string list \<Rightarrow> string list \<times> string list" where
  "migrate_trusted c = (case c of (tp, ai) \<Rightarrow>
     (if tp = [] \<and> ai \<noteq> [] then ai else tp, []))"

section \<open>Resolution\<close>

text \<open>\<open>walk_chain r c hs\<close>: from the candidate \<open>c\<close> leftwards through the hops (nearest first).\<close>

fun walk_chain :: "ip_resolver \<Rightarrow> ip_addr \<Rightarrow> ip_addr list \<Rightarrow> ip_addr" where
  "walk_chain r cand [] = cand"
| "walk_chain r cand (h # hs) = (if \<not> is_trusted r (Some cand) then cand else walk_chain r h hs)"

text \<open>The hops of the X-Forwarded-For chain as written, or \<open>None\<close> when the chain is
  absent, over a limit, or holds an entry that is not an address.\<close>

definition forwarded_hops :: "string list \<Rightarrow> ip_addr list option" where
  "forwarded_hops values =
     (let forwarded = join_with '','' values in
      if forwarded = [] \<or> length forwarded > max_forwarded_bytes then None
      else
        let parts = split_on CHR '','' forwarded in
        if length parts > max_forwarded_hops then None
        else
          let hops = map (\<lambda>raw. parse_ip (trim_space raw)) parts in
          if None \<in> set hops then None else Some (map the hops))"

definition resolve_ip :: "ip_resolver \<Rightarrow> http_identity \<Rightarrow> string" where
  "resolve_ip r req =
     (let peer_text = client_ip req in
      case parse_ip peer_text of
        None \<Rightarrow> peer_text
      | Some peer \<Rightarrow>
          if \<not> is_trusted r (Some peer) then peer_text
          else (case forwarded_hops (hi_forwarded_for req) of
              None \<Rightarrow> peer_text
            | Some hops \<Rightarrow> ip_string (walk_chain r peer (rev hops))))"

datatype id_source = Remote_addr | X_forwarded_for
datatype id_verdict = Accepted | Rejected
datatype id_reason = No_reason | Untrusted_proxy | Conflicting_headers

record identity_decision =
  id_remote_addr :: string
  id_resolved :: string
  id_source :: id_source
  id_trusted_proxy :: bool
  id_decision :: id_verdict
  id_rejection :: id_reason

definition resolve_decision :: "ip_resolver \<Rightarrow> http_identity \<Rightarrow> identity_decision" where
  "resolve_decision r req =
     (let d = \<lparr>id_remote_addr = client_ip req, id_resolved = client_ip req, id_source = Remote_addr,
               id_trusted_proxy = False, id_decision = Accepted, id_rejection = No_reason\<rparr>;
          xff = header_get (hi_forwarded_for req)
      in if \<not> is_trusted r (parse_ip (id_remote_addr d)) then
           (if xff \<noteq> [] \<or> header_get (hi_forwarded req) \<noteq> [] \<or> header_get (hi_real_ip req) \<noteq> []
            then d\<lparr>id_decision := Rejected, id_rejection := Untrusted_proxy\<rparr> else d)
         else
           let d = d\<lparr>id_trusted_proxy := True\<rparr> in
           if trim_space (header_get (hi_real_ip req)) \<noteq> [] \<and> xff \<noteq> []
           then d\<lparr>id_decision := Rejected, id_rejection := Conflicting_headers\<rparr>
           else d\<lparr>id_resolved := resolve_ip r req, id_source := X_forwarded_for\<rparr>)"

text \<open>\<^verbatim>\<open>wrap\<close>: the decision put in the request context, and the request handed on.\<close>

definition wrap_identity :: "ip_resolver \<Rightarrow> http_identity \<Rightarrow> http_identity \<times> identity_decision" where
  "wrap_identity r req =
     (let d = resolve_decision r req;
          addr = (case split_host_port (hi_remote_addr req) of
              Some (_, port) \<Rightarrow> join_host_port (id_resolved d) port
            | None \<Rightarrow> id_resolved d)
      in (req\<lparr>hi_remote_addr := addr\<rparr>, d))"

section \<open>Lemmas\<close>

lemma walk_chain_split:
  "\<exists>pre post. cand # hs = pre @ walk_chain r cand hs # post \<and>
     (\<forall>a \<in> set pre. is_trusted r (Some a)) \<and>
     (post = [] \<or> \<not> is_trusted r (Some (walk_chain r cand hs)))"
proof (induction r cand hs rule: walk_chain.induct)
  case (1 r cand)
  show ?case by (intro exI [of _ "[]"]) simp
next
  case (2 r cand h hs)
  show ?case
  proof (cases "is_trusted r (Some cand)")
    case False
    then show ?thesis by (intro exI [of _ "[]"] exI [of _ "h # hs"]) simp
  next
    case True
    with 2 obtain pre post where "h # hs = pre @ walk_chain r h hs # post"
      "\<forall>a \<in> set pre. is_trusted r (Some a)"
      "post = [] \<or> \<not> is_trusted r (Some (walk_chain r h hs))" by auto
    moreover have "walk_chain r cand (h # hs) = walk_chain r h hs" using True by simp
    ultimately have "cand # h # hs = (cand # pre) @ walk_chain r cand (h # hs) # post"
      and "\<forall>a \<in> set (cand # pre). is_trusted r (Some a)"
      and "post = [] \<or> \<not> is_trusted r (Some (walk_chain r cand (h # hs)))"
      using True by auto
    then show ?thesis by blast
  qed
qed

lemma walk_chain_append:
  "\<not> is_trusted r (Some (walk_chain r cand hs)) \<Longrightarrow> walk_chain r cand (hs @ ys) = walk_chain r cand hs"
proof (induction r cand hs rule: walk_chain.induct)
  case (1 r cand)
  then show ?case by (cases ys) simp_all
qed (simp split: if_splits)

lemma split_on_nonempty [simp]: "split_on c s \<noteq> []"
  by (induction s) (auto split: list.splits)

lemma split_on_append: "split_on c (a @ c # b) = split_on c a @ split_on c b"
  by (induction a) (auto split: list.splits simp: append_eq_Cons_conv)

lemma char_of_add_digit:
  fixes k :: nat assumes "k < 10" shows "char_of (48 + k) \<in> set ''0123456789''"
proof -
  have "k \<in> {0, 1, 2, 3, 4, 5, 6, 7, 8, 9}" using assms by auto
  then show ?thesis by (elim insertE emptyE) (simp_all add: char_of_eq_iff take_bit_eq_mod)
qed

lemma char_of_add_hex:
  fixes k :: nat assumes "\<not> k < 10" and "k < 16" shows "char_of (87 + k) \<in> set ''abcdef''"
proof -
  have "k \<in> {10, 11, 12, 13, 14, 15}" using assms by auto
  then show ?thesis by (elim insertE emptyE) (simp_all add: char_of_eq_iff take_bit_eq_mod)
qed

definition addr_chars :: "char set" where
  "addr_chars = set ''0123456789abcdef.:''"

lemma digit_addr_char: "(k::nat) < 10 \<Longrightarrow> char_of (48 + k) \<in> addr_chars"
  using char_of_add_digit [of k] by (auto simp: addr_chars_def)

lemma hex_addr_char: "(k::nat) < 16 \<Longrightarrow> (if k < 10 then char_of (48 + k) else char_of (87 + k)) \<in> addr_chars"
  using char_of_add_digit [of k] char_of_add_hex [of k] by (auto simp: addr_chars_def)

lemma decimal_of_chars: "set (decimal_of n) \<subseteq> addr_chars"
proof (induction n rule: decimal_of.induct)
  case (1 n)
  have "char_of (48 + n mod 10) \<in> addr_chars" by (rule digit_addr_char) simp
  moreover have "n < 10 \<Longrightarrow> char_of (48 + n) \<in> addr_chars" by (rule digit_addr_char)
  moreover have "decimal_of n = (if n < 10 then [char_of (48 + n)]
      else decimal_of (n div 10) @ [char_of (48 + n mod 10)])"
    by (rule decimal_of.simps)
  ultimately show ?case using 1 by (cases "n < 10") (simp_all del: of_char_of)
qed

lemma hex_of_chars: "set (hex_of n) \<subseteq> addr_chars"
proof (induction n rule: hex_of.induct)
  case (1 n)
  define d :: "nat \<Rightarrow> char" where "d = (\<lambda>k. if k < 10 then char_of (48 + k) else char_of (87 + k))"
  have "d (n mod 16) \<in> addr_chars" unfolding d_def by (rule hex_addr_char) simp
  moreover have "n < 16 \<Longrightarrow> d n \<in> addr_chars" unfolding d_def by (rule hex_addr_char)
  moreover have "hex_of n = (if n < 16 then [d n] else hex_of (n div 16) @ [d (n mod 16)])"
    unfolding d_def by (subst hex_of.simps) (simp only: Let_def)
  ultimately show ?case using 1 by (cases "n < 16") simp_all
qed

lemma join_with_chars:
  "set sep \<subseteq> A \<Longrightarrow> \<forall>s \<in> set ss. set s \<subseteq> A \<Longrightarrow> set (join_with sep ss) \<subseteq> A"
  by (cases ss) (auto simp: join_with_def)

lemma ip_string_chars: "set (ip_string ip) \<subseteq> addr_chars"
proof -
  have dot: "set ''.'' \<subseteq> addr_chars" "set '':'' \<subseteq> addr_chars" "set ''::'' \<subseteq> addr_chars"
    by (auto simp: addr_chars_def)
  have dec: "set (join_with ''.'' (map decimal_of ns)) \<subseteq> addr_chars" for ns
    using dot decimal_of_chars by (intro join_with_chars) auto
  have hex: "set (join_with '':'' (map hex_of ns)) \<subseteq> addr_chars" for ns
    using dot hex_of_chars by (intro join_with_chars) auto
  show ?thesis
    using dec hex dot by (auto simp: ip_string_def Let_def split: ip_addr.splits option.splits dest: subsetD)
qed

lemma addr_chars_no_bracket: "CHR ''['' \<notin> addr_chars" "CHR '']'' \<notin> addr_chars"
  by (simp_all add: addr_chars_def)

lemma trim_chars_id: "set s \<inter> set cs = {} \<Longrightarrow> trim_chars cs s = s"
proof -
  assume d: "set s \<inter> set cs = {}"
  have "dropWhile (\<lambda>c. c \<in> set cs) t = t" if "set t = set s" for t
    using d that by (cases t) auto
  then have "dropWhile (\<lambda>c. c \<in> set cs) s = s" "dropWhile (\<lambda>c. c \<in> set cs) (rev s) = rev s"
    by simp_all
  then show ?thesis by (simp add: trim_chars_def)
qed

lemma last_index_Some: "last_index c s = Some i \<Longrightarrow> i < length s \<and> c \<notin> set (drop (i + 1) s)"
proof -
  assume "last_index c s = Some i"
  then obtain j where j: "j < length s" "rev s ! j = c" "\<forall>k<j. rev s ! k \<noteq> c" "i = length s - 1 - j"
    by (auto simp: last_index_def find_Some_iff)
  then have "drop (i + 1) s = rev (take j (rev s))"
    by (simp add: rev_take Suc_diff_Suc)
  moreover have "c \<notin> set (take j (rev s))"
    using j by (auto simp: in_set_conv_nth)
  ultimately show ?thesis using j by simp
qed

lemma first_index_Some: "first_index c s = Some i \<Longrightarrow> i < length s \<and> s ! i = c \<and> c \<notin> set (take i s)"
  by (auto simp: first_index_def find_Some_iff in_set_conv_nth)

lemma split_host_port_parts:
  assumes "split_host_port hp = Some (host, port)"
  shows "CHR ''['' \<notin> set host" and "CHR '']'' \<notin> set host"
    and "CHR '':'' \<notin> set port" and "CHR ''['' \<notin> set port" and "CHR '']'' \<notin> set port"
proof -
  obtain i where i: "last_index CHR '':'' hp = Some i"
    using assms by (auto simp: split_host_port_def split: option.splits)
  have colon: "CHR '':'' \<notin> set (drop (i + 1) hp)" using last_index_Some [OF i] by simp
  consider (bracket) e where "first_index CHR '']'' hp = Some e" "e + 1 = i"
      "CHR ''['' \<notin> set (drop 1 hp)" "CHR '']'' \<notin> set (drop (e + 1) hp)"
      "host = take (e - 1) (drop 1 hp)" "port = drop (i + 1) hp"
    | (plain) "CHR ''['' \<notin> set hp" "CHR '']'' \<notin> set hp" "host = take i hp" "port = drop (i + 1) hp"
    using assms i by (auto simp: split_host_port_def split: option.splits if_splits)
  then have "CHR ''['' \<notin> set host \<and> CHR '']'' \<notin> set host \<and> CHR ''['' \<notin> set port \<and> CHR '']'' \<notin> set port \<and> port = drop (i + 1) hp"
  proof cases
    case bracket
    have le: "e + 1 \<le> i + 1" "1 \<le> i + 1" using bracket(2) by linarith+
    have h: "set port \<subseteq> set (drop (e + 1) hp)" "set port \<subseteq> set (drop 1 hp)"
      unfolding bracket(6) by (rule set_drop_subset_set_drop [OF le(1)], rule set_drop_subset_set_drop [OF le(2)])
    have "host = drop 1 (take e hp)" using bracket(5) by (simp add: drop_take)
    then have "set host \<subseteq> set (take e hp)" by (simp add: set_drop_subset)
    then have "CHR '']'' \<notin> set host" using first_index_Some [OF bracket(1)] by auto
    moreover have "CHR ''['' \<notin> set host" using \<open>host = drop 1 (take e hp)\<close> bracket(3)
      by (metis bracket(5) in_set_takeD)
    moreover have "CHR ''['' \<notin> set port" using h(2) bracket(3) by (rule contra_subsetD)
    moreover have "CHR '']'' \<notin> set port" using h(1) bracket(4) by (rule contra_subsetD)
    ultimately show ?thesis using bracket(6) by (intro conjI)
  next
    case plain
    then show ?thesis by (auto dest: in_set_takeD in_set_dropD)
  qed
  with colon show "CHR ''['' \<notin> set host" "CHR '']'' \<notin> set host"
    "CHR '':'' \<notin> set port" "CHR ''['' \<notin> set port" "CHR '']'' \<notin> set port" by auto
qed

lemma resolved_no_bracket:
  assumes "split_host_port (hi_remote_addr req) = Some hp"
  shows "set (id_resolved (resolve_decision r req)) \<inter> set ''[]'' = {}"
proof -
  obtain host port where hp: "hp = (host, port)" by (cases hp)
  have "set host \<inter> set ''[]'' = {}"
    using split_host_port_parts [of "hi_remote_addr req" host port] assms hp by auto
  then have c: "set (client_ip req) \<inter> set ''[]'' = {}"
    using assms hp by (simp add: client_ip_def trim_chars_id)
  have "set (ip_string ip) \<inter> set ''[]'' = {}" for ip
    using ip_string_chars [of ip] addr_chars_no_bracket by auto
  with c have "set (resolve_ip r req) \<inter> set ''[]'' = {}"
    by (simp add: resolve_ip_def Let_def split: option.splits)
  with c show ?thesis by (simp add: resolve_decision_def Let_def)
qed

lemma join_with_append:
  "xs \<noteq> [] \<Longrightarrow> ys \<noteq> [] \<Longrightarrow> join_with sep (xs @ ys) = join_with sep xs @ sep @ join_with sep ys"
  by (cases xs; cases ys) (auto simp: join_with_def)

text \<open>A chain that is read with more entries on its left is read without them.\<close>

lemma forwarded_hops_suffix:
  assumes "forwarded_hops (evil @ vs) = Some hops" and "join_with '','' vs \<noteq> []" and "evil \<noteq> []"
  obtains left right where "hops = left @ right" and "forwarded_hops vs = Some right"
proof -
  define a where "a = join_with '','' evil"
  define b where "b = join_with '','' vs"
  define f where "f = (\<lambda>raw. parse_ip (trim_space raw))"
  have "vs \<noteq> []" using assms(2) by (auto simp: join_with_def)
  then have j: "join_with '','' (evil @ vs) = a @ CHR '','' # b"
    using join_with_append [OF assms(3), of vs "'',''"] by (simp add: a_def b_def)
  have p: "split_on CHR '','' (a @ CHR '','' # b) = split_on CHR '','' a @ split_on CHR '','' b"
    by (rule split_on_append)
  have len: "length (a @ CHR '','' # b) \<le> max_forwarded_bytes"
      "length (split_on CHR '','' a @ split_on CHR '','' b) \<le> max_forwarded_hops"
      "None \<notin> set (map f (split_on CHR '','' a @ split_on CHR '','' b))"
      "hops = map the (map f (split_on CHR '','' a @ split_on CHR '','' b))"
    using assms(1) by (auto simp: forwarded_hops_def Let_def j p f_def split: if_splits)
  have "forwarded_hops vs = Some (map the (map f (split_on CHR '','' b)))"
    using len assms(2) by (simp add: forwarded_hops_def Let_def f_def b_def [symmetric])
  then show ?thesis using len(4) by (intro that [of "map the (map f (split_on CHR '','' a))"]) simp_all
qed

lemma client_ip_forwarded: "client_ip (req\<lparr>hi_forwarded_for := vs\<rparr>) = client_ip req"
  by (simp add: client_ip_def split: option.split)

section \<open>Properties\<close>

text \<open>A request whose socket peer is not a trusted proxy keeps its socket address as the
  client address, whatever identity headers it carries, and the decision is REJECTED exactly
  when it carries one of them.\<close>

theorem untrusted_peer_identity:
  assumes "\<not> is_trusted r (parse_ip (client_ip req))"
  shows "id_resolved (resolve_decision r req) = client_ip req \<and> resolve_ip r req = client_ip req \<and>
    \<not> id_trusted_proxy (resolve_decision r req) \<and>
    (id_decision (resolve_decision r req) = Rejected \<longleftrightarrow>
       header_get (hi_forwarded_for req) \<noteq> [] \<or> header_get (hi_forwarded req) \<noteq> [] \<or>
       header_get (hi_real_ip req) \<noteq> [])"
  using assms by (auto simp: resolve_decision_def resolve_ip_def Let_def split: option.splits)

text \<open>C2: Behind a trusted peer, the resolved address is the rightmost hop of the chain that is
  not a trusted proxy: every hop between it and the server is trusted, and it is itself
  untrusted unless the whole chain is trusted (then it is the leftmost entry).\<close>

theorem resolve_rightmost_untrusted:
  assumes "parse_ip (client_ip req) = Some peer" and "is_trusted r (Some peer)"
    and "forwarded_hops (hi_forwarded_for req) = Some hops"
  shows "\<exists>near c far. hops @ [peer] = far @ c # near \<and> resolve_ip r req = ip_string c \<and>
    (\<forall>a \<in> set near. is_trusted r (Some a)) \<and> (far = [] \<or> \<not> is_trusted r (Some c))"
proof -
  define c where "c = walk_chain r peer (rev hops)"
  obtain pre post where w: "peer # rev hops = pre @ c # post" "\<forall>a \<in> set pre. is_trusted r (Some a)"
      "post = [] \<or> \<not> is_trusted r (Some c)"
    using walk_chain_split [of peer "rev hops" r] by (auto simp: c_def)
  have "hops @ [peer] = rev post @ c # rev pre"
    using arg_cong [OF w(1), of rev] by simp
  moreover have "resolve_ip r req = ip_string c"
    using assms by (simp add: resolve_ip_def c_def)
  ultimately show ?thesis using w(2,3)
    by (intro exI [of _ "rev pre"] exI [of _ c] exI [of _ "rev post"]) simp
qed

text \<open>C1: A client cannot choose its identity: whatever entries it puts on the left of a chain
  that already ends in an untrusted hop, the result is that same hop, or the address of the
  proxy itself when the lengthened chain is refused.\<close>

theorem prepended_hops_ignored:
  assumes "parse_ip (client_ip req) = Some peer"
    and "forwarded_hops (hi_forwarded_for req) = Some hops"
    and "\<not> is_trusted r (Some (walk_chain r peer (rev hops)))"
  shows "resolve_ip r (req\<lparr>hi_forwarded_for := evil @ hi_forwarded_for req\<rparr>) \<in>
    {resolve_ip r req, client_ip req}"
proof (cases "evil = [] \<or> \<not> is_trusted r (Some peer)")
  case True
  then show ?thesis using assms(1) by (auto simp: resolve_ip_def Let_def client_ip_forwarded)
next
  case False
  have ne: "join_with '','' (hi_forwarded_for req) \<noteq> []"
    using assms(2) by (auto simp: forwarded_hops_def Let_def split: if_splits)
  show ?thesis
  proof (cases "forwarded_hops (evil @ hi_forwarded_for req)")
    case None
    then show ?thesis using False assms(1) by (simp add: resolve_ip_def client_ip_forwarded)
  next
    case (Some all_hops)
    then obtain left where "all_hops = left @ hops"
      using False ne assms(2) by (auto elim: forwarded_hops_suffix)
    then show ?thesis
      using False assms Some by (simp add: resolve_ip_def client_ip_forwarded walk_chain_append)
  qed
qed

text \<open>After the wrapper has run, every later reader of the remote address obtains the
  resolved client address, for IPv4 and IPv6 alike.\<close>

theorem wrapped_client_ip:
  assumes "split_host_port (hi_remote_addr req) = Some (host, port)"
  shows "client_ip (fst (wrap_identity r req)) = id_resolved (snd (wrap_identity r req))"
proof -
  define res where "res = id_resolved (resolve_decision r req)"
  have nb: "set res \<inter> set ''[]'' = {}"
    unfolding res_def by (rule resolved_no_bracket [OF assms])
  then have "split_host_port (join_host_port res port) = Some (res, port)"
    using split_host_port_parts [OF assms] by (intro split_join_host_port) auto
  moreover have "hi_remote_addr (fst (wrap_identity r req)) = join_host_port res port"
    using assms by (simp add: wrap_identity_def res_def Let_def)
  ultimately have "client_ip (fst (wrap_identity r req)) = trim_chars ''[]'' res"
    by (simp add: client_ip_def)
  with nb show ?thesis by (simp add: trim_chars_id wrap_identity_def res_def Let_def)
qed

text \<open>Each applies to a request through a trusted load balancer.\<close>

definition sample_request :: http_identity where
  "sample_request = \<lparr>hi_remote_addr = ''10.0.0.1:443'', hi_forwarded_for = [''203.0.113.9,10.0.0.7''],
     hi_forwarded = [], hi_real_ip = []\<rparr>"

definition sample_resolver :: ip_resolver where
  "sample_resolver = [Net4 0x0A000000 8]"

lemma sample_octets:
  "parse_octets ''10.0.0.1'' = Some [10, 0, 0, 1]"
  "parse_octets ''10.0.0.7'' = Some [10, 0, 0, 7]"
  "parse_octets ''203.0.113.9'' = Some [203, 0, 113, 9]"
  by code_simp+

lemma sample_peer: "parse_ip (client_ip sample_request) = Some (V4 0x0A000001)"
proof -
  have "client_ip sample_request = ''10.0.0.1''" by code_simp
  then show ?thesis by (simp add: parse_ip_def parse_ipv4_def sample_octets join_base_def)
qed

lemma sample_hops: "forwarded_hops (hi_forwarded_for sample_request) = Some [V4 0xCB007109, V4 0x0A000007]"
proof -
  have "split_on CHR '','' ''203.0.113.9,10.0.0.7'' = [''203.0.113.9'', ''10.0.0.7'']" by simp
  moreover have "trim_space ''203.0.113.9'' = ''203.0.113.9''" "trim_space ''10.0.0.7'' = ''10.0.0.7''"
    by (rule trim_space_visible; simp add: visible_def less_eq_char_def)+
  moreover have "parse_ip ''203.0.113.9'' = Some (V4 0xCB007109)" "parse_ip ''10.0.0.7'' = Some (V4 0x0A000007)"
    by (simp_all add: parse_ip_def parse_ipv4_def sample_octets join_base_def)
  ultimately show ?thesis
    by (simp add: forwarded_hops_def sample_request_def join_with_def max_forwarded_bytes_def
        max_forwarded_hops_def del: split_on.simps)
qed

lemma sample_trust:
  "is_trusted sample_resolver (Some (V4 0x0A000001))"
  "is_trusted sample_resolver (Some (V4 0x0A000007))"
  "\<not> is_trusted sample_resolver (Some (V4 0xCB007109))"
  by (simp_all add: is_trusted_def sample_resolver_def net_contains_def keep_top_def)

lemma sample_walk: "walk_chain sample_resolver (V4 0x0A000001) (rev [V4 0xCB007109, V4 0x0A000007]) = V4 0xCB007109"
  using sample_trust by simp

theorem untrusted_peer_identity_witness:
  "id_resolved (resolve_decision [] sample_request) = client_ip sample_request"
proof -
  have "\<not> is_trusted [] (parse_ip (client_ip sample_request))"
    by (simp add: is_trusted_def split: option.split)
  from untrusted_peer_identity [OF this] show ?thesis by simp
qed

theorem resolve_rightmost_untrusted_witness:
  "\<exists>near c far. [V4 0xCB007109, V4 0x0A000007] @ [V4 0x0A000001] = far @ c # near \<and>
     resolve_ip sample_resolver sample_request = ip_string c \<and>
     (\<forall>a \<in> set near. is_trusted sample_resolver (Some a)) \<and>
     (far = [] \<or> \<not> is_trusted sample_resolver (Some c))"
  by (rule resolve_rightmost_untrusted [OF sample_peer sample_trust(1) sample_hops])

theorem prepended_hops_ignored_witness:
  "resolve_ip sample_resolver (sample_request\<lparr>hi_forwarded_for :=
      [''192.0.2.1''] @ hi_forwarded_for sample_request\<rparr>)
    \<in> {resolve_ip sample_resolver sample_request, client_ip sample_request}"
proof -
  have "\<not> is_trusted sample_resolver (Some (walk_chain sample_resolver (V4 0x0A000001)
      (rev [V4 0xCB007109, V4 0x0A000007])))"
    unfolding sample_walk by (rule sample_trust(3))
  from prepended_hops_ignored [OF sample_peer sample_hops this] show ?thesis .
qed

theorem wrapped_client_ip_witness:
  "client_ip (fst (wrap_identity sample_resolver sample_request)) =
     id_resolved (snd (wrap_identity sample_resolver sample_request))"
proof -
  have "split_host_port (hi_remote_addr sample_request) = Some (''10.0.0.1'', ''443'')" by code_simp
  then show ?thesis by (rule wrapped_client_ip)
qed

end
