(* ===== verification/Go_Time.thy ===== *)
theory Go_Time
  imports Go_Net
begin

text \<open>
  \<^verbatim>\<open>time.Parse(time.RFC3339, s)\<close>, as the general parser of package
  \<^verbatim>\<open>time\<close> reads that layout: an hour of one digit and a fraction after a comma are
  accepted, zone offsets go up to 24:60. The result is an instant.
\<close>

definition leap_year :: "int \<Rightarrow> bool" where
  "leap_year y \<longleftrightarrow> y mod 4 = 0 \<and> (y mod 100 \<noteq> 0 \<or> y mod 400 = 0)"

definition days_in :: "nat \<Rightarrow> int \<Rightarrow> nat" where
  "days_in m y = (if m = 2 then (if leap_year y then 29 else 28)
     else if m \<in> {4, 6, 9, 11} then 30 else 31)"

text \<open>Days from 1 January of year 1 to the given date.\<close>

definition days_to :: "int \<Rightarrow> nat \<Rightarrow> nat \<Rightarrow> int" where
  "days_to y m d = 365 * (y - 1) + (y - 1) div 4 - (y - 1) div 100 + (y - 1) div 400 +
     int (sum_list (map (\<lambda>k. days_in k y) [1..<m])) + int d - 1"

definition take_digits :: "nat \<Rightarrow> string \<Rightarrow> (nat \<times> string) option" where
  "take_digits n s = (if length s \<ge> n \<and> list_all is_digit (take n s)
     then Some (decimal_value (take n s), drop n s) else None)"

definition take_char :: "char \<Rightarrow> string \<Rightarrow> string option" where
  "take_char c s = (case s of [] \<Rightarrow> None | x # xs \<Rightarrow> if x = c then Some xs else None)"

definition take_hour :: "string \<Rightarrow> (nat \<times> string) option" where
  "take_hour s = (case take_digits 2 s of Some r \<Rightarrow> Some r | None \<Rightarrow> take_digits 1 s)"

definition take_fraction :: "string \<Rightarrow> nat \<times> string" where
  "take_fraction s =
     (let ds = takeWhile is_digit (tl s) in
      if s \<noteq> [] \<and> hd s \<in> {CHR ''.'', CHR '',''} \<and> ds \<noteq> []
      then (let nine = take 9 ds in (decimal_value nine * 10 ^ (9 - length nine), drop (1 + length ds) s))
      else (0, s))"

text \<open>The offset in seconds, and nothing left of the text.\<close>

definition take_zone :: "string \<Rightarrow> int option" where
  "take_zone s =
     (if s = ''Z'' then Some 0
      else if length s = 6 \<and> s ! 3 = CHR '':'' \<and> hd s \<in> {CHR ''+'', CHR ''-''} then
        (case (take_digits 2 (take 2 (drop 1 s)), take_digits 2 (drop 4 s)) of
           (Some (hr, _), Some (mm, _)) \<Rightarrow>
             if hr > 24 \<or> mm > 60 then None
             else Some ((if hd s = CHR ''-'' then -1 else 1) * int ((hr * 60 + mm) * 60))
         | _ \<Rightarrow> None)
      else None)"

definition parse_rfc3339 :: "string \<Rightarrow> gtime option" where
  "parse_rfc3339 s =
     Option.bind (take_digits 4 s) (\<lambda>(y, s). Option.bind (take_char CHR ''-'' s) (\<lambda>s.
     Option.bind (take_digits 2 s) (\<lambda>(m, s). Option.bind (take_char CHR ''-'' s) (\<lambda>s.
     Option.bind (take_digits 2 s) (\<lambda>(d, s). Option.bind (take_char CHR ''T'' s) (\<lambda>s.
     Option.bind (take_hour s) (\<lambda>(hh, s). Option.bind (take_char CHR '':'' s) (\<lambda>s.
     Option.bind (take_digits 2 s) (\<lambda>(mi, s). Option.bind (take_char CHR '':'' s) (\<lambda>s.
     Option.bind (take_digits 2 s) (\<lambda>(ss, s).
       let (ns, s) = take_fraction s in
       Option.bind (take_zone s) (\<lambda>off.
         if 1 \<le> m \<and> m \<le> 12 \<and> hh < 24 \<and> mi < 60 \<and> ss < 60 \<and> 1 \<le> d \<and> d \<le> days_in m (int y)
         then Some ((((days_to (int y) m d * 24 + int hh) * 60 + int mi) * 60 + int ss - off) * second + int ns)
         else None))))))))))))"

end
