(* ===== verification/Cidr_Policy.thy ===== *)
theory Cidr_Policy
  imports Client_Identity Go_Time
begin

text \<open>
  \<^verbatim>\<open>cidr_policy.go\<close>: the ordered allow/deny list over client networks. The
  constructor compiles the configured rules and sorts them stably by falling priority; a
  lookup takes the first rule that has not expired and contains the address. \<open>now\<close> is
  the clock reading of the lookup.
\<close>

record cidr_entry =
  ce_name :: string
  ce_cidr :: string
  ce_action :: string
  ce_priority :: int
  ce_reason :: string
  ce_expires_at :: string

record cidr_policy_config =
  cp_enabled :: bool
  cp_rules :: "cidr_entry list"

record cidr_rule =
  cr_net :: ip_net
  cr_name :: string
  cr_action :: string
  cr_priority :: int
  cr_reason :: string
  cr_expires :: gtime

record cidr_decision =
  cd_allowed :: bool
  cd_matched :: bool
  cd_rule :: string
  cd_reason :: string

record cidr_engine =
  eng_enabled :: bool
  eng_rules :: "cidr_rule list"

datatype cidr_error = Bad_network string | Bad_action string | Bad_expiry string

definition compile_rule :: "cidr_entry \<Rightarrow> cidr_error + cidr_rule" where
  "compile_rule r =
     (case parse_cidr (ce_cidr r) of
        None \<Rightarrow> Inl (Bad_network (ce_name r))
      | Some n \<Rightarrow>
          if ce_action r \<noteq> ''allow'' \<and> ce_action r \<noteq> ''deny'' then Inl (Bad_action (ce_name r))
          else
            let raw = trim_space (ce_expires_at r);
                rule = (\<lambda>t. \<lparr>cr_net = n, cr_name = ce_name r, cr_action = ce_action r,
                  cr_priority = ce_priority r, cr_reason = ce_reason r, cr_expires = t\<rparr>)
            in if raw = [] then Inr (rule 0)
               else (case parse_rfc3339 raw of
                   None \<Rightarrow> Inl (Bad_expiry (ce_name r))
                 | Some t \<Rightarrow> Inr (rule t)))"

fun compile_rules :: "cidr_entry list \<Rightarrow> cidr_error + cidr_rule list" where
  "compile_rules [] = Inr []"
| "compile_rules (r # rs) =
     (case compile_rule r of
        Inl e \<Rightarrow> Inl e
      | Inr c \<Rightarrow> (case compile_rules rs of Inl e \<Rightarrow> Inl e | Inr cs \<Rightarrow> Inr (c # cs)))"

definition by_priority :: "cidr_rule \<Rightarrow> cidr_rule \<Rightarrow> bool" where
  "by_priority a b \<longleftrightarrow> cr_priority b < cr_priority a"

definition new_cidr_engine :: "cidr_policy_config \<Rightarrow> cidr_error + cidr_engine" where
  "new_cidr_engine cfg =
     (case compile_rules (cp_rules cfg) of
        Inl e \<Rightarrow> Inl e
      | Inr rs \<Rightarrow> Inr \<lparr>eng_enabled = cp_enabled cfg, eng_rules = sort_by by_priority rs\<rparr>)"

definition no_decision :: cidr_decision where
  "no_decision = \<lparr>cd_allowed = False, cd_matched = False, cd_rule = [], cd_reason = []\<rparr>"

definition rule_decision :: "cidr_rule \<Rightarrow> cidr_decision" where
  "rule_decision r = \<lparr>cd_allowed = (cr_action r = ''allow''), cd_matched = True,
     cd_rule = cr_name r, cd_reason = cr_reason r\<rparr>"

fun first_rule :: "gtime \<Rightarrow> ip_addr \<Rightarrow> cidr_rule list \<Rightarrow> cidr_decision" where
  "first_rule now ip [] = no_decision"
| "first_rule now ip (r # rs) =
     (if \<not> time_is_zero (cr_expires r) \<and> cr_expires r < now then first_rule now ip rs
      else if net_contains (cr_net r) ip then rule_decision r
      else first_rule now ip rs)"

definition cidr_evaluate :: "cidr_engine option \<Rightarrow> gtime \<Rightarrow> string \<Rightarrow> cidr_decision" where
  "cidr_evaluate engine now ip =
     (case engine of
        None \<Rightarrow> no_decision
      | Some e \<Rightarrow>
          if \<not> eng_enabled e then no_decision
          else (case parse_ip ip of None \<Rightarrow> no_decision | Some a \<Rightarrow> first_rule now a (eng_rules e)))"

text \<open>\<^verbatim>\<open>wrap\<close>: the response is a block naming the rule, or the next handler's.\<close>

datatype cidr_outcome = Next_handler | Blocked string

definition cidr_wrap :: "cidr_engine option \<Rightarrow> gtime \<Rightarrow> string \<Rightarrow> identity_decision option \<Rightarrow> cidr_outcome" where
  "cidr_wrap engine now remote_addr ident =
     (if engine = None then Next_handler
      else
        let ip = (case ident of Some d \<Rightarrow> if id_resolved d \<noteq> [] then id_resolved d else remote_addr
                  | None \<Rightarrow> remote_addr);
            ip = (case split_host_port ip of Some (h, _) \<Rightarrow> h | None \<Rightarrow> ip);
            d = cidr_evaluate engine now ip
        in if cd_matched d \<and> \<not> cd_allowed d then Blocked (''cidr_policy_denied:'' @ cd_rule d)
           else Next_handler)"

section \<open>The first rule of a stable sort\<close>

definition rule_applies :: "gtime \<Rightarrow> ip_addr \<Rightarrow> cidr_rule \<Rightarrow> bool" where
  "rule_applies now ip r \<longleftrightarrow> (cr_expires r = 0 \<or> now \<le> cr_expires r) \<and> net_contains (cr_net r) ip"

lemma first_rule_find:
  "first_rule now ip rs = (case find (rule_applies now ip) rs of None \<Rightarrow> no_decision | Some r \<Rightarrow> rule_decision r)"
  by (induction rs) (auto simp: rule_applies_def time_is_zero_def)

text \<open>The choice made from the unsorted list: a later rule wins only with a higher priority.\<close>

fun pick_rule :: "(cidr_rule \<Rightarrow> bool) \<Rightarrow> cidr_rule list \<Rightarrow> cidr_rule option" where
  "pick_rule p [] = None"
| "pick_rule p (r # rs) =
     (case pick_rule p rs of
        None \<Rightarrow> if p r then Some r else None
      | Some y \<Rightarrow> if p r \<and> cr_priority y \<le> cr_priority r then Some r else Some y)"

lemma find_insert_by_priority:
  assumes "sorted_wrt (\<lambda>a b. \<not> by_priority b a) ys"
  shows "find p (insert_by by_priority r ys) =
     (case find p ys of
        None \<Rightarrow> if p r then Some r else None
      | Some y \<Rightarrow> if p r \<and> cr_priority y \<le> cr_priority r then Some r else Some y)"
  using assms
proof (induction ys)
  case (Cons z zs)
  have le: "cr_priority y \<le> cr_priority z" if "find p zs = Some y" for y
  proof -
    from that have "y \<in> set zs" by (auto simp: find_Some_iff)
    with Cons.prems show ?thesis by (auto simp: by_priority_def not_less)
  qed
  show ?case
  proof (cases "by_priority z r")
    case True
    with Cons show ?thesis by (auto simp: by_priority_def split: option.splits)
  next
    case False
    then show ?thesis using le by (auto simp: by_priority_def not_less split: option.splits dest: order_trans)
  qed
qed simp

lemma find_sort_by_priority: "find p (sort_by by_priority rs) = pick_rule p rs"
proof (induction rs)
  case (Cons r rs)
  have "sorted_wrt (\<lambda>a b. \<not> by_priority b a) (sort_by by_priority rs)"
    by (rule sorted_sort_by) (auto simp: by_priority_def)
  with Cons show ?case by (simp add: sort_by_Cons find_insert_by_priority)
qed simp

lemma pick_rule_None: "pick_rule p rs = None \<longleftrightarrow> (\<forall>r \<in> set rs. \<not> p r)"
  by (induction rs) (auto split: option.splits if_splits)

lemma pick_rule_Some:
  "pick_rule p rs = Some r \<Longrightarrow> \<exists>i < length rs. rs ! i = r \<and> p r \<and>
     (\<forall>j < length rs. p (rs ! j) \<longrightarrow> cr_priority (rs ! j) < cr_priority r \<or>
        (cr_priority (rs ! j) = cr_priority r \<and> i \<le> j))"
proof (induction rs arbitrary: r)
  case (Cons x xs)
  show ?case
  proof (cases "pick_rule p xs")
    case None
    then have "\<forall>j < length xs. \<not> p (xs ! j)" by (simp add: pick_rule_None)
    with None Cons.prems show ?thesis
      by (intro exI [of _ 0]) (auto simp: nth_Cons' split: if_splits)
  next
    case (Some y)
    then obtain i where i: "i < length xs" "xs ! i = y" "p y"
      "\<And>j. j < length xs \<Longrightarrow> p (xs ! j) \<Longrightarrow> cr_priority (xs ! j) < cr_priority y \<or>
        (cr_priority (xs ! j) = cr_priority y \<and> i \<le> j)"
      using Cons.IH by blast
    show ?thesis
    proof (cases "p x \<and> cr_priority y \<le> cr_priority x")
      case True
      have "cr_priority ((x # xs) ! j) < cr_priority x \<or> cr_priority ((x # xs) ! j) = cr_priority x \<and> 0 \<le> j"
        if "j < length (x # xs)" "p ((x # xs) ! j)" for j
        using that i(4) [of "j - 1"] True by (cases j) auto
      with True Some Cons.prems show ?thesis by (intro exI [of _ 0]) auto
    next
      case False
      have "cr_priority ((x # xs) ! j) < cr_priority y \<or> cr_priority ((x # xs) ! j) = cr_priority y \<and> Suc i \<le> j"
        if "j < length (x # xs)" "p ((x # xs) ! j)" for j
        using that i(4) [of "j - 1"] False by (cases j) auto
      then have "\<forall>j < length (x # xs). p ((x # xs) ! j) \<longrightarrow> cr_priority ((x # xs) ! j) < cr_priority y \<or>
        cr_priority ((x # xs) ! j) = cr_priority y \<and> Suc i \<le> j" by blast
      moreover have "r = y" using False Some Cons.prems by (auto split: if_splits)
      ultimately show ?thesis using i(1-3) by (intro exI [of _ "Suc i"]) (simp del: nth_Cons_Suc add: nth_Cons_Suc [of x xs i])
    qed
  qed
qed simp

lemma compile_rules_nth:
  "compile_rules es = Inr rs \<Longrightarrow> length rs = length es \<and> (\<forall>i < length es. compile_rule (es ! i) = Inr (rs ! i))"
proof (induction es arbitrary: rs)
  case (Cons e es)
  then show ?case by (auto split: sum.splits simp: nth_Cons')
qed simp

section \<open>Properties\<close>

text \<open>The policy decision for an address is that of the configured rule with the highest
  priority among the rules that contain the address and have not expired, the one written first
  where priorities are equal; it is the empty decision exactly when no such rule exists.\<close>

theorem cidr_highest_priority:
  assumes "new_cidr_engine cfg = Inr e" and "cp_enabled cfg" and "parse_ip ip = Some a"
    and "compile_rules (cp_rules cfg) = Inr rs"
  shows "(cidr_evaluate (Some e) now ip = no_decision \<and> (\<forall>r \<in> set rs. \<not> rule_applies now a r)) \<or>
    (\<exists>i < length rs. compile_rule (cp_rules cfg ! i) = Inr (rs ! i) \<and>
       cidr_evaluate (Some e) now ip = rule_decision (rs ! i) \<and> rule_applies now a (rs ! i) \<and>
       (\<forall>j < length rs. rule_applies now a (rs ! j) \<longrightarrow>
          cr_priority (rs ! j) < cr_priority (rs ! i) \<or>
          (cr_priority (rs ! j) = cr_priority (rs ! i) \<and> i \<le> j)))"
proof -
  have e: "e = \<lparr>eng_enabled = True, eng_rules = sort_by by_priority rs\<rparr>"
    using assms(1,2,4) by (simp add: new_cidr_engine_def)
  have ev: "cidr_evaluate (Some e) now ip =
      (case pick_rule (rule_applies now a) rs of None \<Rightarrow> no_decision | Some r \<Rightarrow> rule_decision r)"
    using assms(3) by (simp add: e cidr_evaluate_def first_rule_find find_sort_by_priority)
  show ?thesis
  proof (cases "pick_rule (rule_applies now a) rs")
    case None
    then have "\<forall>r \<in> set rs. \<not> rule_applies now a r" by (simp only: pick_rule_None)
    with None show ?thesis by (simp add: ev)
  next
    case (Some r)
    from pick_rule_Some [OF this] compile_rules_nth [OF assms(4)] Some show ?thesis
      by (simp add: ev) blast
  qed
qed

text \<open>A request is blocked exactly when the rule that decides its client address is a deny
  rule; the address is the resolved identity where the request carries one.\<close>

theorem cidr_block_iff_deny:
  assumes "id_resolved d \<noteq> []" and "split_host_port (id_resolved d) = None"
  shows "cidr_wrap (Some e) now remote (Some d) = Next_handler \<longleftrightarrow>
    \<not> (\<exists>a r. eng_enabled e \<and> parse_ip (id_resolved d) = Some a \<and>
       find (rule_applies now a) (eng_rules e) = Some r \<and> cr_action r \<noteq> ''allow'')"
  using assms
  by (auto simp: cidr_wrap_def cidr_evaluate_def first_rule_find no_decision_def rule_decision_def Let_def
      split: option.splits)

text \<open>Each holds of a deny rule on a network with an allow rule of higher priority inside it.\<close>

definition sample_rules :: "cidr_rule list" where
  "sample_rules =
     [\<lparr>cr_net = Net4 0x0A000000 8, cr_name = ''net'', cr_action = ''deny'', cr_priority = 1, cr_reason = [], cr_expires = 0\<rparr>,
      \<lparr>cr_net = Net4 0x0A000001 32, cr_name = ''host'', cr_action = ''allow'', cr_priority = 5, cr_reason = [], cr_expires = 0\<rparr>]"

definition sample_policy :: cidr_policy_config where
  "sample_policy = \<lparr>cp_enabled = True, cp_rules =
     [\<lparr>ce_name = ''net'', ce_cidr = ''10.0.0.0/8'', ce_action = ''deny'', ce_priority = 1,
        ce_reason = [], ce_expires_at = []\<rparr>,
      \<lparr>ce_name = ''host'', ce_cidr = ''10.0.0.1/32'', ce_action = ''allow'', ce_priority = 5,
        ce_reason = [], ce_expires_at = []\<rparr>]\<rparr>"

lemma sample_nets:
  "parse_cidr ''10.0.0.0/8'' = Some (Net4 0x0A000000 8)"
  "parse_cidr ''10.0.0.1/32'' = Some (Net4 0x0A000001 32)"
proof -
  have "split_on CHR ''/'' ''10.0.0.0/8'' = [''10.0.0.0'', ''8'']"
    "split_on CHR ''/'' ''10.0.0.1/32'' = [''10.0.0.1'', ''32'']" by simp_all
  moreover have "parse_octets ''10.0.0.0'' = Some [10, 0, 0, 0]" by code_simp
  moreover have "mask_len ''8'' = Some 8" "mask_len ''32'' = Some 32"
    by (simp_all add: mask_len_def decimal_value_def digit_value_def is_digit_def less_eq_char_def)
  ultimately show "parse_cidr ''10.0.0.0/8'' = Some (Net4 0x0A000000 8)"
    "parse_cidr ''10.0.0.1/32'' = Some (Net4 0x0A000001 32)"
    by (simp_all add: parse_cidr_def parse_ip_def parse_ipv4_def join_base_def join_with_def
        sample_octets keep_top_def del: split_on.simps)
qed

lemma sample_compiled: "compile_rules (cp_rules sample_policy) = Inr sample_rules"
  by (simp add: sample_policy_def sample_rules_def compile_rule_def sample_nets)

theorem cidr_highest_priority_witness:
  "\<exists>e. cidr_evaluate (Some e) 0 ''10.0.0.1'' \<noteq> no_decision"
proof -
  obtain e where e: "new_cidr_engine sample_policy = Inr e" by (simp add: new_cidr_engine_def sample_compiled)
  have en: "cp_enabled sample_policy" by (simp add: sample_policy_def)
  have ip: "parse_ip ''10.0.0.1'' = Some (V4 0x0A000001)"
    by (simp add: parse_ip_def parse_ipv4_def sample_octets join_base_def)
  have "rule_applies 0 (V4 0x0A000001) (hd sample_rules)" "hd sample_rules \<in> set sample_rules"
    by (simp_all add: rule_applies_def sample_rules_def net_contains_def keep_top_def)
  moreover have "rule_decision r \<noteq> no_decision" for r by (simp add: rule_decision_def no_decision_def)
  ultimately show ?thesis
    using cidr_highest_priority [OF e en ip sample_compiled, of 0] by metis
qed

theorem cidr_block_iff_deny_witness:
  "cidr_wrap (Some \<lparr>eng_enabled = True, eng_rules = sample_rules\<rparr>) 0 ''10.0.0.1:443''
     (Some (resolve_decision [] \<lparr>hi_remote_addr = ''10.0.0.7:443'', hi_forwarded_for = [], hi_forwarded = [], hi_real_ip = []\<rparr>))
   \<noteq> Next_handler"
proof -
  define d where "d = resolve_decision [] \<lparr>hi_remote_addr = ''10.0.0.7:443'', hi_forwarded_for = [],
    hi_forwarded = [], hi_real_ip = []\<rparr>"
  have "client_ip \<lparr>hi_remote_addr = ''10.0.0.7:443'', hi_forwarded_for = [], hi_forwarded = [], hi_real_ip = []\<rparr> = ''10.0.0.7''"
    by code_simp
  then have res: "id_resolved d = ''10.0.0.7''"
    by (simp add: d_def resolve_decision_def Let_def is_trusted_def header_get_def split: option.split)
  have "split_host_port ''10.0.0.7'' = None" by code_simp
  then have h: "id_resolved d \<noteq> []" "split_host_port (id_resolved d) = None" by (simp_all add: res)
  have ip: "parse_ip ''10.0.0.7'' = Some (V4 0x0A000007)"
    by (simp add: parse_ip_def parse_ipv4_def sample_octets join_base_def)
  have "find (rule_applies 0 (V4 0x0A000007)) sample_rules = Some (hd sample_rules)" "cr_action (hd sample_rules) \<noteq> ''allow''"
    by (simp_all add: rule_applies_def sample_rules_def net_contains_def keep_top_def)
  with cidr_block_iff_deny [OF h, of "\<lparr>eng_enabled = True, eng_rules = sample_rules\<rparr>" 0 "''10.0.0.1:443''"] ip
  show ?thesis by (simp add: d_def [symmetric] res)
qed

end
