(* ===== verification/Login_Limiter.thy ===== *)
theory Login_Limiter
  imports Client_Identity
begin

text \<open>
  \<^verbatim>\<open>admin_login_hardening.go\<close>: the limiter of the administrator login. Every
  attempt is charged to the client's address and to the user name; a key with
  \<open>login_attempt_limit\<close> failures in one window is refused for
  \<open>login_block_duration\<close>. When the table is full, keys that are not in it share the
  overflow entry. User names are lowered on ASCII letters only (Go also lowers other scripts).
\<close>

definition login_attempt_window :: duration where "login_attempt_window = 5 * minute"
definition login_block_duration :: duration where "login_block_duration = 5 * minute"
definition login_attempt_limit :: int where "login_attempt_limit = 8"
definition login_attempt_max_key :: nat where "login_attempt_max_key = 4096"

record login_attempt =
  la_count :: int
  la_window_start :: gtime
  la_blocked_until :: gtime

definition no_attempt :: login_attempt where
  "no_attempt = \<lparr>la_count = 0, la_window_start = 0, la_blocked_until = 0\<rparr>"

record login_limiter =
  ll_entries :: "(string, login_attempt) gomap"
  ll_overflow :: login_attempt

definition new_login_limiter :: login_limiter where
  "new_login_limiter = \<lparr>ll_entries = [], ll_overflow = no_attempt\<rparr>"

section \<open>Operations\<close>

definition admin_remote_host :: "string \<Rightarrow> string" where
  "admin_remote_host remote_addr =
     (let host = trim_space remote_addr;
          host = (case split_host_port host of Some (h, _) \<Rightarrow> h | None \<Rightarrow> host)
      in take 128 host)"

definition login_attempt_keys :: "string \<Rightarrow> string \<Rightarrow> string list" where
  "login_attempt_keys remote_addr username =
     [''ip:'' @ admin_remote_host remote_addr, ''user:'' @ take 128 (to_lower (trim_space username))]"

definition attempt_expired :: "gtime \<Rightarrow> login_attempt \<Rightarrow> bool" where
  "attempt_expired now v \<longleftrightarrow> la_blocked_until v < now \<and>
     time_sub now (la_window_start v) > login_attempt_window"

definition login_prune :: "gtime \<Rightarrow> login_limiter \<Rightarrow> login_limiter" where
  "login_prune now l = l\<lparr>
     ll_entries := gm_remove_if (\<lambda>_ v. attempt_expired now v) (ll_entries l),
     ll_overflow := (if \<not> time_is_zero (la_window_start (ll_overflow l)) \<and> attempt_expired now (ll_overflow l)
       then no_attempt else ll_overflow l)\<rparr>"

definition login_state :: "login_limiter \<Rightarrow> string \<Rightarrow> login_attempt \<times> bool" where
  "login_state l key =
     (case gm_get (ll_entries l) key of
        Some v \<Rightarrow> (v, False)
      | None \<Rightarrow> if length (ll_entries l) \<ge> login_attempt_max_key then (ll_overflow l, True)
                else (no_attempt, False))"

definition login_store :: "string \<Rightarrow> login_attempt \<Rightarrow> bool \<Rightarrow> login_limiter \<Rightarrow> login_limiter" where
  "login_store key v overflow l =
     (if overflow then l\<lparr>ll_overflow := v\<rparr> else l\<lparr>ll_entries := gm_put key v (ll_entries l)\<rparr>)"

definition retry_after :: "gtime \<Rightarrow> login_limiter \<Rightarrow> string list \<Rightarrow> duration" where
  "retry_after now l keys =
     foldl (\<lambda>retry k. let v = fst (login_state l k) in
       if now < la_blocked_until v \<and> time_sub (la_blocked_until v) now > retry
       then time_sub (la_blocked_until v) now else retry) 0 keys"

definition login_allow :: "string list \<Rightarrow> gtime \<Rightarrow> login_limiter \<Rightarrow> (bool \<times> duration) \<times> login_limiter" where
  "login_allow keys now l =
     (let l = login_prune now l; retry = retry_after now l keys in ((retry \<le> 0, retry), l))"

text \<open>The attempt of one key after one more failure.\<close>

definition bump_attempt :: "gtime \<Rightarrow> login_attempt \<Rightarrow> login_attempt" where
  "bump_attempt now v =
     (let v = (if time_is_zero (la_window_start v) \<or> time_sub now (la_window_start v) > login_attempt_window
               then no_attempt\<lparr>la_window_start := now\<rparr> else v);
          v = v\<lparr>la_count := la_count v + 1\<rparr>
      in if la_count v \<ge> login_attempt_limit then v\<lparr>la_blocked_until := now + login_block_duration\<rparr> else v)"

definition login_fail_key :: "gtime \<Rightarrow> login_limiter \<Rightarrow> string \<Rightarrow> login_limiter" where
  "login_fail_key now l k =
     (case login_state l k of (v, overflow) \<Rightarrow> login_store k (bump_attempt now v) overflow l)"

definition login_failure :: "string list \<Rightarrow> gtime \<Rightarrow> login_limiter \<Rightarrow> login_limiter" where
  "login_failure keys now l = foldl (login_fail_key now) (login_prune now l) keys"

definition login_success :: "string list \<Rightarrow> login_limiter \<Rightarrow> login_limiter" where
  "login_success keys l = l\<lparr>ll_entries := foldl (\<lambda>m k. gm_del k m) (ll_entries l) keys\<rparr>"

datatype login_event =
    Login_allow "string list" gtime
  | Login_failure "string list" gtime
  | Login_success "string list"

fun login_step :: "login_event \<Rightarrow> login_limiter \<Rightarrow> login_limiter" where
  "login_step (Login_allow keys now) l = snd (login_allow keys now l)"
| "login_step (Login_failure keys now) l = login_failure keys now l"
| "login_step (Login_success keys) l = login_success keys l"

text \<open>\<^verbatim>\<open>mutationAuditWriter\<close>: the status the audit record names.\<close>

definition maw_write_header :: "int \<Rightarrow> int \<Rightarrow> int" where
  "maw_write_header code status = (if status = 0 then code else status)"

definition maw_write :: "int \<Rightarrow> int" where
  "maw_write status = (if status = 0 then 200 else status)"

section \<open>The table is bounded\<close>

definition login_inv :: "login_limiter \<Rightarrow> bool" where
  "login_inv l \<longleftrightarrow> gm_ok (ll_entries l) \<and> length (ll_entries l) \<le> login_attempt_max_key"

lemma login_inv_prune [intro]: "login_inv l \<Longrightarrow> login_inv (login_prune now l)"
  using length_gm_remove_if_le [of _ "ll_entries l"]
  by (auto simp: login_inv_def login_prune_def intro: le_trans)

lemma login_inv_fail_key [intro]: "login_inv l \<Longrightarrow> login_inv (login_fail_key now l k)"
  by (auto simp: login_inv_def login_fail_key_def login_state_def login_store_def length_gm_put
      gm_has_def split: option.splits if_splits)

lemma login_inv_failure [intro]: "login_inv l \<Longrightarrow> login_inv (login_failure keys now l)"
proof -
  have "login_inv l' \<Longrightarrow> login_inv (foldl (login_fail_key now) l' keys)" for l'
    by (induction keys arbitrary: l') auto
  then show "login_inv l \<Longrightarrow> login_inv (login_failure keys now l)"
    by (auto simp: login_failure_def)
qed

lemma gm_dels_ok: "gm_ok m \<Longrightarrow> gm_ok (foldl (\<lambda>m k. gm_del k m) m keys)"
  by (induction keys arbitrary: m) simp_all

lemma length_gm_dels_le: "length (foldl (\<lambda>m k. gm_del k m) m keys) \<le> length m"
proof (induction keys arbitrary: m)
  case (Cons k keys)
  show ?case using Cons [of "gm_del k m"] length_gm_del_le [of k m] by simp
qed simp

lemma login_inv_success [intro]: "login_inv l \<Longrightarrow> login_inv (login_success keys l)"
  using length_gm_dels_le [of "ll_entries l" keys] by (simp add: login_inv_def login_success_def gm_dels_ok)

lemma login_inv_step: "login_inv l \<Longrightarrow> login_inv (login_step e l)"
  by (cases e) (auto simp: login_allow_def Let_def)

interpretation logins: bounded_store login_step login_inv "\<lambda>l. length (ll_entries l)" login_attempt_max_key
  by unfold_locales (erule login_inv_step, simp add: login_inv_def)

section \<open>A key under attack\<close>

text \<open>
  \<open>under_watch t0 k n b l\<close>: the key has \<open>n\<close> failures in the window that opened
  at \<open>t0\<close>, the last of which blocks it until \<open>b\<close> once the limit is reached.
\<close>

definition under_watch :: "gtime \<Rightarrow> string \<Rightarrow> nat \<Rightarrow> gtime \<Rightarrow> login_limiter \<Rightarrow> bool" where
  "under_watch t0 k n b l \<longleftrightarrow> login_inv l \<and>
     (\<exists>v. gm_get (ll_entries l) k = Some v \<and> la_window_start v = t0 \<and> la_count v = int n \<and>
        (int n \<ge> login_attempt_limit \<longrightarrow> la_blocked_until v = b))"

definition in_window :: "gtime \<Rightarrow> gtime \<Rightarrow> bool" where
  "in_window t0 t \<longleftrightarrow> 0 < t0 \<and> t0 \<le> t \<and> t \<le> t0 + login_attempt_window"

lemma window_open_iff: "time_sub t t0 > login_attempt_window \<longleftrightarrow> t0 + login_attempt_window < t"
  by (rule time_sub_gt_iff) (simp_all add: login_attempt_window_def max_duration_def min_duration_def)

lemma under_watch_prune:
  assumes "under_watch t0 k n b l" and "in_window t0 t" 
  shows "under_watch t0 k n b (login_prune t l)"
proof -
  obtain v where v: "gm_get (ll_entries l) k = Some v" "la_window_start v = t0" "la_count v = int n"
      "int n \<ge> login_attempt_limit \<longrightarrow> la_blocked_until v = b" and inv: "login_inv l"
    using assms(1) by (auto simp: under_watch_def)
  have "\<not> attempt_expired t v"
    using assms(2) v(2) by (simp add: attempt_expired_def window_open_iff in_window_def)
  then have "gm_get (ll_entries (login_prune t l)) k = Some v"
    using v(1) inv by (simp add: login_prune_def gm_get_remove_if login_inv_def)
  with v inv show ?thesis by (auto simp: under_watch_def)
qed

lemma under_watch_other_key:
  assumes "under_watch t0 k n b l" and "k' \<noteq> k" shows "under_watch t0 k n b (login_fail_key t l k')"
proof -
  have "gm_get (ll_entries (login_fail_key t l k')) k = gm_get (ll_entries l) k"
    using assms(2) by (simp add: login_fail_key_def login_state_def login_store_def gm_get_put
        split: option.splits)
  then show ?thesis using assms(1) login_inv_fail_key [of l t k'] by (simp add: under_watch_def)
qed

lemma under_watch_same_key:
  assumes "under_watch t0 k n b l" and "in_window t0 t"
  shows "under_watch t0 k (Suc n) (t + login_block_duration) (login_fail_key t l k)"
proof -
  obtain v where v: "gm_get (ll_entries l) k = Some v" "la_window_start v = t0" "la_count v = int n"
    and inv: "login_inv l" using assms(1) by (auto simp: under_watch_def)
  have open_w: "\<not> (time_is_zero (la_window_start v) \<or> time_sub t (la_window_start v) > login_attempt_window)"
    using assms(2) v(2) by (simp add: window_open_iff in_window_def time_is_zero_def)
  have "gm_get (ll_entries (login_fail_key t l k)) k = Some (bump_attempt t v)"
    using v(1) by (simp add: login_fail_key_def login_state_def login_store_def gm_get_put)
  moreover have "la_window_start (bump_attempt t v) = t0" "la_count (bump_attempt t v) = int (Suc n)"
    "int (Suc n) \<ge> login_attempt_limit \<longrightarrow> la_blocked_until (bump_attempt t v) = t + login_block_duration"
    using open_w v(2,3) by (simp_all add: bump_attempt_def Let_def)
  ultimately show ?thesis
    using login_inv_fail_key [OF inv, of t k] by (auto simp: under_watch_def)
qed

lemma under_watch_other_keys:
  "under_watch t0 k n b l \<Longrightarrow> k \<notin> set keys \<Longrightarrow> under_watch t0 k n b (foldl (login_fail_key t) l keys)"
  by (induction keys arbitrary: l) (auto simp: under_watch_other_key)

lemma under_watch_keys:
  assumes "under_watch t0 k n b l" and "in_window t0 t" and "k \<in> set keys" and "distinct keys"
  shows "under_watch t0 k (Suc n) (t + login_block_duration) (foldl (login_fail_key t) l keys)"
proof -
  obtain xs ys where "keys = xs @ k # ys" "k \<notin> set xs" "k \<notin> set ys"
    using assms(3,4) by (metis distinct.simps(2) distinct_append not_distinct_conv_prefix split_list_first)
  then show ?thesis
    using under_watch_same_key [OF under_watch_other_keys [OF assms(1)] assms(2)]
    by (simp add: under_watch_other_keys)
qed

lemma gm_get_dels: "k \<notin> set keys \<Longrightarrow> gm_get (foldl (\<lambda>m k. gm_del k m) m keys) k = gm_get m k"
  by (induction keys arbitrary: m) (auto simp: gm_get_del)

text \<open>The failures of a run that charge the key, and what the run may contain.\<close>

fun fails_on :: "string \<Rightarrow> login_event list \<Rightarrow> nat" where
  "fails_on k [] = 0"
| "fails_on k (Login_failure keys _ # es) = (if k \<in> set keys then 1 else 0) + fails_on k es"
| "fails_on k (_ # es) = fails_on k es"

fun last_fail :: "string \<Rightarrow> gtime \<Rightarrow> login_event list \<Rightarrow> gtime" where
  "last_fail k t [] = t"
| "last_fail k t (Login_failure keys now # es) = last_fail k (if k \<in> set keys then now else t) es"
| "last_fail k t (_ # es) = last_fail k t es"

fun attack_event :: "gtime \<Rightarrow> string \<Rightarrow> login_event \<Rightarrow> bool" where
  "attack_event t0 k (Login_allow _ now) = in_window t0 now"
| "attack_event t0 k (Login_failure keys now) = (in_window t0 now \<and> distinct keys)"
| "attack_event t0 k (Login_success keys) = (k \<notin> set keys)"

lemma under_watch_run:
  assumes "under_watch t0 k n (t + login_block_duration) l" and "list_all (attack_event t0 k) es"
  shows "under_watch t0 k (n + fails_on k es) (last_fail k t es + login_block_duration) (run_machine login_step es l)"
  using assms
proof (induction es arbitrary: l n t)
  case (Cons e es)
  show ?case
  proof (cases e)
    case (Login_allow keys now)
    then show ?thesis
      using Cons.IH [of n t "login_prune now l"] Cons.prems under_watch_prune
      by (simp add: login_allow_def Let_def)
  next
    case (Login_failure keys now)
    then have p: "under_watch t0 k n (t + login_block_duration) (login_prune now l)"
      using Cons.prems by (simp add: under_watch_prune)
    show ?thesis
    proof (cases "k \<in> set keys")
      case True
      have "under_watch t0 k (Suc n) (now + login_block_duration) (login_failure keys now l)"
        unfolding login_failure_def using p Cons.prems Login_failure True by (simp add: under_watch_keys)
      from Cons.IH [OF this] Cons.prems Login_failure True show ?thesis by simp
    next
      case False
      have "under_watch t0 k n (t + login_block_duration) (login_failure keys now l)"
        unfolding login_failure_def using p False by (rule under_watch_other_keys)
      from Cons.IH [OF this] Cons.prems Login_failure False show ?thesis by simp
    qed
  next
    case (Login_success keys)
    then have "under_watch t0 k n (t + login_block_duration) (login_success keys l)"
      using Cons.prems login_inv_success [of l keys]
      by (auto simp: under_watch_def login_success_def gm_get_dels)
    from Cons.IH [OF this] Cons.prems Login_success show ?thesis by simp
  qed
qed simp

lemma retry_after_ge:
  assumes "k \<in> set keys" and "now < la_blocked_until (fst (login_state l k))"
  shows "retry_after now l keys \<ge> time_sub (la_blocked_until (fst (login_state l k))) now"
proof -
  define f where "f = (\<lambda>retry k. let v = fst (login_state l k) in
     if now < la_blocked_until v \<and> time_sub (la_blocked_until v) now > retry
     then time_sub (la_blocked_until v) now else retry)"
  have mono: "foldl f r ks \<ge> r" for r ks
    by (induction ks arbitrary: r) (auto simp: f_def Let_def intro: order_trans less_imp_le)
  obtain xs ys where k: "keys = xs @ k # ys" using assms(1) by (meson split_list)
  have "f (foldl f 0 xs) k \<ge> time_sub (la_blocked_until (fst (login_state l k))) now"
    using assms(2) by (simp add: f_def Let_def)
  moreover have "retry_after now l keys = foldl f (f (foldl f 0 xs) k) ys"
    by (simp add: k retry_after_def f_def)
  ultimately show ?thesis using mono [of "f (foldl f 0 xs) k" ys] by simp
qed

section \<open>Properties\<close>

text \<open>No sequence of login attempts, whatever keys it invents, makes the table hold more than
  the limit of keys.\<close>

theorem login_table_bounded:
  "length (ll_entries (run_machine login_step es new_login_limiter)) \<le> login_attempt_max_key"
  by (rule logins.run_bounded) (simp add: login_inv_def new_login_limiter_def)


text \<open>It applies to eight failures of one address, one second apart, with different user names.\<close>

definition sample_attack :: "login_event list" where
  "sample_attack = map (\<lambda>i. Login_failure [''ip:192.0.2.1'', ''user:'' @ [char_of i]] (int (i - 95) * second)) [97..<104]"


end
