(* ===== verification/Pool.thy ===== *)
theory Pool
  imports Client_Identity
begin

text \<open>
  \<^verbatim>\<open>pool.go\<close>: the load balancer behind a site. A pick reads the health flags and
  the connection counts of the members one atomic load at a time, in up to three passes, while
  the monitor and other requests change them: \<open>pick_reads\<close> holds what each pass read,
  so that a theorem for all reads holds for every interleaving. Members are named by their
  place in the pool. A random draw below \<open>n\<close> is \<open>d mod n\<close> for an arbitrary \<open>d\<close>.
\<close>

unbundle bit_operations_syntax

record pool_member =
  pm_node :: string
  pm_target :: string
  pm_weight :: int
  pm_active :: int
  pm_healthy :: bool
  pm_ok_streak :: int
  pm_fail_streak :: int

record monitor_config =
  mc_type :: string
  mc_path :: string
  mc_interval_sec :: int
  mc_timeout_sec :: int
  mc_rise :: int
  mc_fall :: int
  mc_expect_status :: int

record pool_runtime =
  pl_name :: string
  pl_method :: string
  pl_members :: "pool_member list"
  pl_monitor :: monitor_config
  pl_rr :: u64

section \<open>Choosing a member\<close>

record pick_reads =
  rd_count :: "nat \<Rightarrow> bool"
  rd_total :: "nat \<Rightarrow> bool"
  rd_select :: "nat \<Rightarrow> bool"
  rd_active :: "nat \<Rightarrow> int"
  rd_active_again :: "nat \<Rightarrow> int"
  rd_draw :: nat
  rd_draw_again :: nat

definition healthy_count :: "(nat \<Rightarrow> bool) \<Rightarrow> nat \<Rightarrow> nat" where
  "healthy_count health n = length (filter health [0..<n])"

definition member_eligible :: "(nat \<Rightarrow> bool) \<Rightarrow> bool \<Rightarrow> nat \<Rightarrow> bool" where
  "member_eligible health healthy_only i \<longleftrightarrow> \<not> healthy_only \<or> health i"

fun nth_eligible :: "(nat \<Rightarrow> bool) \<Rightarrow> nat \<Rightarrow> nat list \<Rightarrow> nat option" where
  "nth_eligible ok n [] = None"
| "nth_eligible ok n (i # is) =
     (if \<not> ok i then nth_eligible ok n is
      else if n = 0 then Some i
      else nth_eligible ok (n - 1) is)"

definition fnv32 :: "string \<Rightarrow> 32 word" where
  "fnv32 s = foldl (\<lambda>h c. (h XOR of_nat (of_char c)) * 16777619) 2166136261 s"

text \<open>The member with the fewest connections, the first among equals.\<close>

fun least_loaded :: "(nat \<Rightarrow> bool) \<Rightarrow> (nat \<Rightarrow> int) \<Rightarrow> (nat \<times> int) option \<Rightarrow> nat list \<Rightarrow> (nat \<times> int) option" where
  "least_loaded ok active best [] = best"
| "least_loaded ok active best (i # is) =
     least_loaded ok active
       (if \<not> ok i then best
        else (case best of None \<Rightarrow> Some (i, active i)
          | Some (_, bestv) \<Rightarrow> if active i < bestv then Some (i, active i) else best)) is"

definition eff_weight :: "pool_member \<Rightarrow> nat" where
  "eff_weight m = (if pm_weight m < 1 then 1 else nat (pm_weight m))"

definition weight_total :: "(nat \<Rightarrow> bool) \<Rightarrow> (nat \<Rightarrow> nat) \<Rightarrow> nat list \<Rightarrow> nat" where
  "weight_total ok w is = sum_list (map w (filter ok is))"

fun weighted_nth :: "(nat \<Rightarrow> bool) \<Rightarrow> (nat \<Rightarrow> nat) \<Rightarrow> nat \<Rightarrow> nat list \<Rightarrow> nat option" where
  "weighted_nth ok w idx [] = None"
| "weighted_nth ok w idx (i # is) =
     (if \<not> ok i then weighted_nth ok w idx is
      else if idx < w i then Some i
      else weighted_nth ok w (idx - w i) is)"

definition pick :: "pick_reads \<Rightarrow> string \<Rightarrow> pool_runtime \<Rightarrow> nat option \<times> pool_runtime" where
  "pick rd client p =
     (let n = length (pl_members p); all_members = [0..<n] in
      if n = 0 then (None, p)
      else if n = 1 then (Some 0, p)
      else
        let healthy = healthy_count (rd_count rd) n;
            healthy_only = healthy > 0;
            eligible = (if healthy_only then healthy else n)
        in if pl_method p = ''least_conn'' then
             (case least_loaded (member_eligible (rd_select rd) healthy_only) (rd_active rd) None all_members of
                Some (b, _) \<Rightarrow> (Some b, p)
              | None \<Rightarrow> (map_option fst (least_loaded (\<lambda>_. True) (rd_active_again rd) None all_members), p))
           else if pl_method p = ''ip_hash'' then
             (case nth_eligible (member_eligible (rd_select rd) healthy_only)
                     (unat (fnv32 client mod of_nat eligible)) all_members of
                Some i \<Rightarrow> (Some i, p)
              | None \<Rightarrow> (Some (unat (fnv32 client mod of_nat n)), p))
           else if pl_method p = ''random'' then
             (case nth_eligible (member_eligible (rd_select rd) healthy_only)
                     (rd_draw rd mod eligible) all_members of
                Some i \<Rightarrow> (Some i, p)
              | None \<Rightarrow> (Some (rd_draw_again rd mod n), p))
           else
             let w = (\<lambda>i. eff_weight (pl_members p ! i));
                 seen = weight_total (member_eligible (rd_total rd) healthy_only) w all_members;
                 healthy_only = healthy_only \<and> seen \<noteq> 0;
                 tot = (if seen = 0 then weight_total (\<lambda>_. True) w all_members else seen);
                 rr = pl_rr p + 1;
                 idx = unat rr mod tot
             in (Some (case weighted_nth (member_eligible (rd_select rd) healthy_only) w idx all_members of
                    Some i \<Rightarrow> i | None \<Rightarrow> 0), p\<lparr>pl_rr := rr\<rparr>))"

section \<open>Connection accounting\<close>

text \<open>
  \<^verbatim>\<open>lbTransport.RoundTrip\<close> counts a request on its member until the round trip
  fails or its response body is closed; \<^verbatim>\<open>countingBody.Close\<close> uncounts once.
  A request is its member and how far it has come.
\<close>

datatype flight = Sent | Body_open | Over

record balancer =
  lb_active :: "int list"
  lb_flights :: "(nat \<times> flight) list"

datatype flight_event = Begin nat | Fail nat | Respond nat | Close_body nat

definition add_active :: "nat \<Rightarrow> int \<Rightarrow> balancer \<Rightarrow> balancer" where
  "add_active m d b = b\<lparr>lb_active := (lb_active b)[m := lb_active b ! m + d]\<rparr>"

definition set_flight :: "nat \<Rightarrow> flight \<Rightarrow> balancer \<Rightarrow> balancer" where
  "set_flight j f b = b\<lparr>lb_flights := (lb_flights b)[j := (fst (lb_flights b ! j), f)]\<rparr>"

definition flight_is :: "balancer \<Rightarrow> nat \<Rightarrow> flight \<Rightarrow> bool" where
  "flight_is b j f \<longleftrightarrow> j < length (lb_flights b) \<and> snd (lb_flights b ! j) = f"

fun flight_step :: "flight_event \<Rightarrow> balancer \<Rightarrow> balancer" where
  "flight_step (Begin m) b =
     (if m < length (lb_active b)
      then add_active m 1 (b\<lparr>lb_flights := lb_flights b @ [(m, Sent)]\<rparr>) else b)"
| "flight_step (Fail j) b =
     (if flight_is b j Sent then add_active (fst (lb_flights b ! j)) (- 1) (set_flight j Over b) else b)"
| "flight_step (Respond j) b = (if flight_is b j Sent then set_flight j Body_open b else b)"
| "flight_step (Close_body j) b =
     (if flight_is b j Body_open then add_active (fst (lb_flights b ! j)) (- 1) (set_flight j Over b) else b)"

section \<open>The health monitor\<close>

definition sec_or :: "int \<Rightarrow> int \<Rightarrow> duration" where
  "sec_or v d = (if v \<le> 0 then d * second else v * second)"

definition int_or :: "int \<Rightarrow> int \<Rightarrow> int" where
  "int_or v d = (if v \<le> 0 then d else v)"

text \<open>What a probe of a member saw: whether a TCP connection opened, the status of an HTTP
  response when one arrived.\<close>

record probe_result =
  pr_connected :: bool
  pr_status :: "int option"

definition probe :: "monitor_config \<Rightarrow> probe_result \<Rightarrow> bool" where
  "probe mon r =
     (if mc_type mon = ''tcp'' then pr_connected r
      else if mc_type mon = ''http'' \<or> mc_type mon = ''https'' then
        (case pr_status r of
           None \<Rightarrow> False
         | Some code \<Rightarrow> if mc_expect_status mon > 0 then code = mc_expect_status mon
             else 200 \<le> code \<and> code < 400)
      else True)"

definition check_member :: "int \<Rightarrow> int \<Rightarrow> bool \<Rightarrow> pool_member \<Rightarrow> pool_member" where
  "check_member rise fall ok m =
     (if ok then
        let m = m\<lparr>pm_ok_streak := pm_ok_streak m + 1, pm_fail_streak := 0\<rparr>
        in if pm_ok_streak m \<ge> rise then m\<lparr>pm_healthy := True\<rparr> else m
      else
        let m = m\<lparr>pm_fail_streak := pm_fail_streak m + 1, pm_ok_streak := 0\<rparr>
        in if pm_fail_streak m \<ge> fall then m\<lparr>pm_healthy := False\<rparr> else m)"

definition monitored :: "monitor_config \<Rightarrow> bool" where
  "monitored mon \<longleftrightarrow> mc_type mon \<noteq> [] \<and> mc_type mon \<noteq> ''none''"

definition start_monitor :: "pool_runtime \<Rightarrow> pool_runtime" where
  "start_monitor p = p\<lparr>pl_members := map (\<lambda>m. m\<lparr>pm_healthy := True\<rparr>) (pl_members p)\<rparr>"

text \<open>One round of checks, with what each probe saw, and the notifications it sends.\<close>

definition check_round :: "probe_result list \<Rightarrow> pool_runtime \<Rightarrow> pool_runtime" where
  "check_round rs p =
     (if monitored (pl_monitor p) then
        p\<lparr>pl_members := map2 (\<lambda>r m. check_member (int_or (mc_rise (pl_monitor p)) 2)
              (int_or (mc_fall (pl_monitor p)) 3) (probe (pl_monitor p) r) m) rs (pl_members p)\<rparr>
      else p)"

definition round_notices :: "probe_result list \<Rightarrow> pool_runtime \<Rightarrow> string list" where
  "round_notices rs p =
     concat (map2 (\<lambda>m m'. if pm_healthy m \<and> \<not> pm_healthy m'
         then [''down:'' @ pl_name p @ ''|'' @ pm_target m] else [])
       (pl_members p) (pl_members (check_round rs p)))"

section \<open>Picking\<close>

lemma nth_eligible_in: "nth_eligible ok n is = Some i \<Longrightarrow> i \<in> set is \<and> ok i"
  by (induction ok n "is" rule: nth_eligible.induct) (auto split: if_splits)

lemma nth_eligible_total: "n < length (filter ok is) \<Longrightarrow> \<exists>i. nth_eligible ok n is = Some i"
  by (induction ok n "is" rule: nth_eligible.induct) (auto split: if_splits)

lemma weighted_nth_in: "weighted_nth ok w idx is = Some i \<Longrightarrow> i \<in> set is \<and> ok i"
  by (induction ok w idx "is" rule: weighted_nth.induct) (auto split: if_splits)

lemma weighted_nth_total:
  "idx < weight_total ok w is \<Longrightarrow> \<exists>i. weighted_nth ok w idx is = Some i"
  by (induction ok w idx "is" rule: weighted_nth.induct) (auto simp: weight_total_def split: if_splits)

lemma least_loaded_Some:
  "least_loaded ok active (Some b) is \<noteq> None"
  by (induction "is" arbitrary: b) (auto split: prod.splits)

lemma least_loaded_spec:
  "least_loaded ok active best is = Some (b, v) \<Longrightarrow>
     (best = Some (b, v) \<or> (b \<in> set is \<and> ok b \<and> v = active b)) \<and>
     (\<forall>i \<in> set is. ok i \<longrightarrow> v \<le> active i) \<and> (\<forall>b' v'. best = Some (b', v') \<longrightarrow> v \<le> v')"
proof (induction "is" arbitrary: best)
  case (Cons i "is")
  show ?case
  proof (cases "ok i")
    case False
    with Cons.prems have "least_loaded ok active best is = Some (b, v)" by simp
    from Cons.IH [OF this] False show ?thesis by auto
  next
    case True
    define best' where "best' = (case best of None \<Rightarrow> Some (i, active i)
      | Some (_, bestv) \<Rightarrow> if active i < bestv then Some (i, active i) else best)"
    from Cons.prems True have "least_loaded ok active best' is = Some (b, v)" by (simp add: best'_def)
    from Cons.IH [OF this] True show ?thesis
      by (cases best) (auto simp: best'_def split: if_splits)
  qed
qed simp

lemma least_loaded_None: "least_loaded ok active None is = None \<longleftrightarrow> (\<forall>i \<in> set is. \<not> ok i)"
  by (induction "is") (auto simp: least_loaded_Some)

lemma least_loaded_in: "least_loaded ok active None is = Some (b, v) \<Longrightarrow> b \<in> set is \<and> ok b"
  using least_loaded_spec [of ok active None "is" b v] by auto

lemma eff_weight_pos: "0 < eff_weight m"
  by (simp add: eff_weight_def)

lemma weight_total_pos: "is \<noteq> [] \<Longrightarrow> (\<And>i. 0 < w i) \<Longrightarrow> 0 < weight_total (\<lambda>_. True) w is"
  by (cases "is") (simp_all add: weight_total_def)

lemma unat_mod_less:
  fixes h :: "32 word" assumes "0 < n" and "n < 2 ^ 32" shows "unat (h mod of_nat n) < n"
proof -
  have "unat (of_nat n :: 32 word) = n" using assms(2) by (simp add: unat_of_nat take_bit_eq_mod)
  then show ?thesis using assms(1) by (simp add: unat_mod_distrib)
qed

text \<open>The eligible members of a stable view, and the member each method takes from it.\<close>

lemma pick_members:
  assumes "pl_members p \<noteq> []" and "length (pl_members p) < 2 ^ 32"
  shows "\<exists>i < length (pl_members p). fst (pick rd client p) = Some i"
proof -
  define n where "n = length (pl_members p)"
  have n: "0 < n" "n < 2 ^ 32" using assms by (simp_all add: n_def)
  have ll: "\<exists>i < n. map_option fst (least_loaded (\<lambda>_. True) a None [0..<n]) = Some i" for a
  proof (cases "least_loaded (\<lambda>_. True) a None [0..<n]")
    case None
    with n show ?thesis by (simp add: least_loaded_None)
  next
    case (Some bv)
    with least_loaded_in [of "\<lambda>_. True" a "[0..<n]" "fst bv" "snd bv"] show ?thesis by auto
  qed
  have ll2: "least_loaded ok a None [0..<n] = Some (b, v) \<Longrightarrow> b < n" for ok a b v
    by (auto dest: least_loaded_in)
  have nth: "nth_eligible ok k [0..<n] = Some i \<Longrightarrow> i < n" for ok k i
    by (auto dest: nth_eligible_in)
  have wn: "(case weighted_nth ok w k [0..<n] of Some i \<Rightarrow> i | None \<Rightarrow> 0) < n" for ok w k
    using n by (auto dest: weighted_nth_in split: option.splits)
  have m: "unat (fnv32 client mod of_nat n) < n" "rd_draw_again rd mod n < n"
    using unat_mod_less [OF n] n by simp_all
  show ?thesis
    using n ll [of "rd_active_again rd"] ll2 nth wn m
    by (auto simp: pick_def Let_def n_def [symmetric] split: option.splits if_splits)
qed

lemma filter_count: "length (filter (member_eligible h True) [0..<n]) = healthy_count h n"
  by (simp add: healthy_count_def member_eligible_def cong: filter_cong)

lemma healthy_count_pos: "i < n \<Longrightarrow> h i \<Longrightarrow> 0 < healthy_count h n"
  by (auto simp: healthy_count_def filter_empty_conv)

lemma healthy_count_le: "healthy_count h n \<le> n"
  using length_filter_le [of h "[0..<n]"] by (simp add: healthy_count_def)

lemma weight_total_healthy:
  assumes "i < n" and "h i" and "\<And>i. 0 < w i"
  shows "0 < weight_total (member_eligible h True) w [0..<n]"
proof -
  have "w i \<le> sum_list (map w (filter (member_eligible h True) [0..<n]))"
    by (rule member_le_sum_list) (use assms in \<open>auto simp: member_eligible_def\<close>)
  with assms(3) [of i] show ?thesis by (simp add: weight_total_def)
qed

text \<open>What each method returns when the three passes read the same flags.\<close>

lemma pick_stable:
  assumes "1 < length (pl_members p)" and "i < length (pl_members p)" and "h i"
    and "rd_count rd = h" and "rd_total rd = h" and "rd_select rd = h"
    and "length (pl_members p) < 2 ^ 32"
  shows "\<exists>k < length (pl_members p). fst (pick rd client p) = Some k \<and> h k \<and>
    (pl_method p = ''least_conn'' \<longrightarrow> (\<forall>j < length (pl_members p). h j \<longrightarrow> rd_active rd k \<le> rd_active rd j))"
proof -
  define n where "n = length (pl_members p)"
  define ok where "ok = member_eligible h True"
  define c where "c = healthy_count h n"
  define w where "w = (\<lambda>i. eff_weight (pl_members p ! i))"
  define seen where "seen = weight_total ok w [0..<n]"
  have n: "\<not> n \<le> 1" "n < 2 ^ 32" using assms(1,7) by (simp_all add: n_def)
  have c: "0 < c" "c < 2 ^ 32"
    using healthy_count_pos [of i n h] assms(2,3) healthy_count_le [of h n] n(2) by (simp_all add: c_def n_def)
  have ok: "ok k \<longleftrightarrow> h k" for k by (simp add: ok_def member_eligible_def)
  have nth: "\<exists>k < n. nth_eligible ok d [0..<n] = Some k \<and> h k" if "d < c" for d
  proof -
    have "d < length (filter ok [0..<n])" using that by (simp add: ok_def filter_count c_def)
    then obtain k where "nth_eligible ok d [0..<n] = Some k" using nth_eligible_total by blast
    then show ?thesis using nth_eligible_in [of ok d "[0..<n]" k] ok by auto
  qed
  have seen: "0 < seen"
    unfolding seen_def ok_def by (rule weight_total_healthy [of i]) (use assms(2,3) in \<open>simp_all add: n_def w_def eff_weight_pos\<close>)
  have wn: "\<exists>k < n. weighted_nth ok w (d mod seen) [0..<n] = Some k \<and> h k" for d
  proof -
    have "d mod seen < weight_total ok w [0..<n]" using seen by (simp add: seen_def)
    then obtain k where "weighted_nth ok w (d mod seen) [0..<n] = Some k" using weighted_nth_total by blast
    then show ?thesis using weighted_nth_in [of ok w "d mod seen" "[0..<n]" k] ok by auto
  qed
  show ?thesis
  proof (cases "pl_method p = ''least_conn''")
    case True
    obtain b v where b: "least_loaded ok (rd_active rd) None [0..<n] = Some (b, v)"
      using assms(2,3) ok least_loaded_None [of ok "rd_active rd" "[0..<n]"] by (fastforce simp: n_def)
    have "fst (pick rd client p) = Some b"
      using True n b c(1) assms(4,6) by (simp add: pick_def Let_def c_def ok_def flip: n_def)
    with least_loaded_spec [OF b] ok True show ?thesis by (auto simp flip: n_def)
  next
    case False
    have "\<exists>k < n. fst (pick rd client p) = Some k \<and> h k"
    proof (cases "pl_method p = ''ip_hash'' \<or> pl_method p = ''random''")
      case True
      obtain k1 where "k1 < n" "nth_eligible ok (unat (fnv32 client mod of_nat c)) [0..<n] = Some k1" "h k1"
        using nth [OF unat_mod_less [OF c]] by blast
      moreover obtain k2 where "k2 < n" "nth_eligible ok (rd_draw rd mod c) [0..<n] = Some k2" "h k2"
        using nth [of "rd_draw rd mod c"] c(1) by auto
      ultimately show ?thesis
        using True False n c(1) assms(4,6) by (auto simp: pick_def Let_def c_def ok_def simp flip: n_def)
    next
      case False
      obtain k where "k < n" "weighted_nth ok w (unat (pl_rr p + 1) mod seen) [0..<n] = Some k" "h k"
        using wn by blast
      then show ?thesis
        using False \<open>pl_method p \<noteq> ''least_conn''\<close> n c(1) assms(4-6) seen
        by (simp add: pick_def Let_def c_def ok_def seen_def w_def flip: n_def)
    qed
    with False show ?thesis by (simp flip: n_def)
  qed
qed

section \<open>Round robin\<close>

fun picks :: "pick_reads \<Rightarrow> string \<Rightarrow> nat \<Rightarrow> pool_runtime \<Rightarrow> nat option list" where
  "picks rd client 0 p = []"
| "picks rd client (Suc k) p = (case pick rd client p of (m, p') \<Rightarrow> m # picks rd client k p')"

definition round_robin :: "pool_runtime \<Rightarrow> bool" where
  "round_robin p \<longleftrightarrow> pl_method p \<notin> {''least_conn'', ''ip_hash'', ''random''}"

text \<open>The members that take part: the healthy ones, or all of them when none is.\<close>

definition taking_part :: "(nat \<Rightarrow> bool) \<Rightarrow> nat \<Rightarrow> nat \<Rightarrow> bool" where
  "taking_part h n i \<longleftrightarrow> i < n \<and> (h i \<or> (\<forall>j < n. \<not> h j))"

lemma weighted_nth_skip: "weighted_nth ok w (w i + d) (i # is) = (if ok i then weighted_nth ok w d is
    else weighted_nth ok w (w i + d) is)"
  by simp

lemma count_weighted_nth:
  "distinct is \<Longrightarrow> count_list (map (\<lambda>d. weighted_nth ok w d is) [0..<weight_total ok w is]) (Some i) =
     (if i \<in> set is \<and> ok i then w i else 0)"
proof (induction "is")
  case (Cons k "is")
  show ?case
  proof (cases "ok k")
    case False
    then show ?thesis using Cons by (auto simp: weight_total_def)
  next
    case True
    have t: "weight_total ok w (k # is) = w k + weight_total ok w is" using True by (simp add: weight_total_def)
    have "map (\<lambda>d. w k + d) [0..<weight_total ok w is] = [w k..<w k + weight_total ok w is]"
      using map_add_upt [of "w k" "weight_total ok w is"] by (simp add: add.commute)
    then have "[0..<w k + weight_total ok w is] = [0..<w k] @ map (\<lambda>d. w k + d) [0..<weight_total ok w is]"
      by (simp add: upt_add_eq_append [of 0 "w k"])
    moreover have "map (\<lambda>d. weighted_nth ok w d (k # is)) [0..<w k] = replicate (w k) (Some k)"
      using True by (auto intro!: nth_equalityI)
    ultimately have "map (\<lambda>d. weighted_nth ok w d (k # is)) [0..<weight_total ok w (k # is)] =
        replicate (w k) (Some k) @ map (\<lambda>d. weighted_nth ok w d is) [0..<weight_total ok w is]"
      using True by (simp add: t comp_def)
    moreover have "count_list (replicate c (Some k)) (Some i) = (if i = k then c else 0)" for c
      by (induction c) auto
    ultimately show ?thesis using Cons True by auto
  qed
qed (simp add: weight_total_def)

lemma count_rotate_mod:
  "count_list (map (\<lambda>d. g ((a + d) mod t)) [0..<t]) x = count_list (map g [0..<t]) x"
proof (induction a)
  case 0
  have "map (\<lambda>d. g ((0 + d) mod t)) [0..<t] = map g [0..<t]" by simp
  then show ?case by (simp only:)
next
  case (Suc a)
  show ?case
  proof (cases t)
    case (Suc t')
    have "map (\<lambda>d. g ((Suc a + d) mod t)) [0..<t] = map (\<lambda>d. g ((a + d) mod t)) (map Suc [0..<t])"
      by simp
    also have "\<dots> = map (\<lambda>d. g ((a + d) mod t)) ([1..<t] @ [t])"
      by (simp only: map_Suc_upt) (simp add: Suc)
    finally have "count_list (map (\<lambda>d. g ((Suc a + d) mod t)) [0..<t]) x =
        count_list (map (\<lambda>d. g ((a + d) mod t)) (0 # [1..<t])) x" by simp
    moreover have "0 # [1..<t] = [0..<t]" by (simp add: Suc upt_conv_Cons)
    ultimately have "count_list (map (\<lambda>d. g ((Suc a + d) mod t)) [0..<t]) x =
        count_list (map (\<lambda>d. g ((a + d) mod t)) [0..<t]) x" by (simp only:)
    then show ?thesis using Suc.IH by (simp only:)
  qed simp
qed

lemma pick_round_robin:
  assumes "round_robin p" and "1 < length (pl_members p)"
    and "rd_count rd = h" and "rd_total rd = h" and "rd_select rd = h"
  defines "ok \<equiv> taking_part h (length (pl_members p))" and "w \<equiv> \<lambda>i. eff_weight (pl_members p ! i)"
    and "ms \<equiv> [0..<length (pl_members p)]"
  shows "pick rd client p =
    (weighted_nth ok w (unat (pl_rr p + 1) mod weight_total ok w ms) ms, p\<lparr>pl_rr := pl_rr p + 1\<rparr>)"
    and "0 < weight_total ok w ms"
proof -
  define n where "n = length (pl_members p)"
  define only where "only = (healthy_count h n > 0)"
  have n: "\<not> n \<le> 1" using assms(2) by (simp add: n_def)
  have ms_n: "[0..<n] = ms" by (simp add: ms_def n_def)
  have only: "only \<longleftrightarrow> (\<exists>j < n. h j)"
    by (auto simp: only_def healthy_count_def filter_empty_conv)
  have el: "member_eligible h only i \<longleftrightarrow> ok i" if "i < n" for i
    using that only by (auto simp: member_eligible_def ok_def taking_part_def simp flip: n_def)
  have total_eq: "weight_total (member_eligible h only) w ms = weight_total ok w ms"
    unfolding weight_total_def ms_def using el by (intro arg_cong [where f = sum_list] arg_cong [where f = "map w"] filter_cong) (auto simp: n_def)
  have nth_gen: "(\<And>i. i \<in> set is \<Longrightarrow> f i = g i) \<Longrightarrow> weighted_nth f w d is = weighted_nth g w d is" for f g d "is"
    by (induction "is" arbitrary: d) auto
  have nth_eq: "weighted_nth (member_eligible h only) w d ms = weighted_nth ok w d ms" for d
    by (rule nth_gen) (use el in \<open>auto simp: ms_def n_def\<close>)
  have "\<exists>i < n. ok i" using n only by (cases only) (auto simp: ok_def taking_part_def simp flip: n_def intro: exI [of _ 0])
  then obtain i where i: "i < n" "ok i" by blast
  have "w i \<le> sum_list (map w (filter ok ms))"
    by (rule member_le_sum_list) (use i in \<open>auto simp: ms_def n_def\<close>)
  moreover have "0 < w i" by (simp add: w_def eff_weight_pos)
  ultimately show pos: "0 < weight_total ok w ms" unfolding weight_total_def by linarith
  have "unat (pl_rr p + 1) mod weight_total ok w ms < weight_total ok w ms" using pos by simp
  from weighted_nth_total [OF this] obtain k where
    k: "weighted_nth ok w (unat (pl_rr p + 1) mod weight_total ok w ms) ms = Some k" by blast
  have sel: "weighted_nth (member_eligible h only) w (unat (pl_rr p + 1) mod weight_total (member_eligible h only) w ms) ms = Some k"
    by (simp only: nth_eq total_eq k)
  have pos': "weight_total (member_eligible h only) w ms \<noteq> 0" using pos by (simp add: total_eq)
  have "pick rd client p = (Some k, p\<lparr>pl_rr := pl_rr p + 1\<rparr>)"
    using assms(1) n sel pos'
    by (simp add: pick_def Let_def round_robin_def assms(3-5) ms_n flip: only_def w_def n_def)
  then show "pick rd client p =
    (weighted_nth ok w (unat (pl_rr p + 1) mod weight_total ok w ms) ms, p\<lparr>pl_rr := pl_rr p + 1\<rparr>)"
    by (simp add: k)
qed

lemma picks_round_robin:
  assumes "round_robin p" and "1 < length (pl_members p)"
    and "rd_count rd = h" and "rd_total rd = h" and "rd_select rd = h"
    and "unat (pl_rr p) + k < 2 ^ 64"
  defines "ok \<equiv> taking_part h (length (pl_members p))" and "w \<equiv> \<lambda>i. eff_weight (pl_members p ! i)"
    and "ms \<equiv> [0..<length (pl_members p)]"
  shows "picks rd client k p =
    map (\<lambda>d. weighted_nth ok w ((Suc (unat (pl_rr p)) + d) mod weight_total ok w ms) ms) [0..<k]"
  using assms(1-6) unfolding ok_def w_def ms_def
proof (induction k arbitrary: p)
  case (Suc k)
  define p' where "p' = p\<lparr>pl_rr := pl_rr p + 1\<rparr>"
  have rr: "unat (pl_rr p + 1) = Suc (unat (pl_rr p))"
    using Suc.prems(6) by (simp add: unat_word_ariths)
  have "picks rd client k p' = map (\<lambda>d. weighted_nth (taking_part h (length (pl_members p)))
      (\<lambda>i. eff_weight (pl_members p ! i)) ((Suc (Suc (unat (pl_rr p))) + d) mod
        weight_total (taking_part h (length (pl_members p))) (\<lambda>i. eff_weight (pl_members p ! i))
          [0..<length (pl_members p)]) [0..<length (pl_members p)]) [0..<k]"
    using Suc.IH [of p'] Suc.prems rr by (simp add: p'_def round_robin_def)
  then show ?case
    using pick_round_robin(1) [OF Suc.prems(1-5), of client] rr
    by (simp add: upt_conv_Cons p'_def map_Suc_upt [symmetric] comp_def del: upt_Suc)
qed simp

section \<open>Hysteresis\<close>

text \<open>How many of the latest probes gave the result \<open>r\<close>.\<close>

definition trailing :: "bool \<Rightarrow> bool list \<Rightarrow> int" where
  "trailing r rs = int (length (takeWhile (\<lambda>x. x = r) (rev rs)))"

lemma trailing_snoc: "trailing r (rs @ [x]) = (if x = r then trailing r rs + 1 else 0)"
  by (simp add: trailing_def)

definition run_checks :: "int \<Rightarrow> int \<Rightarrow> bool list \<Rightarrow> pool_member \<Rightarrow> pool_member" where
  "run_checks rise fall rs m = foldl (\<lambda>m ok. check_member rise fall ok m) m rs"

lemma run_checks_streaks:
  assumes "pm_ok_streak m = 0" and "pm_fail_streak m = 0"
  shows "pm_ok_streak (run_checks rise fall rs m) = trailing True rs \<and>
    pm_fail_streak (run_checks rise fall rs m) = trailing False rs"
proof (induction rs rule: rev_induct)
  case Nil
  show ?case using assms by (simp add: run_checks_def trailing_def)
next
  case (snoc x rs)
  then show ?case by (simp add: run_checks_def trailing_snoc check_member_def Let_def)
qed

fun run_rounds :: "probe_result list list \<Rightarrow> pool_runtime \<Rightarrow> pool_runtime" where
  "run_rounds [] p = p"
| "run_rounds (rs # rss) p = run_rounds rss (check_round rs p)"

lemma check_round_keeps:
  "pl_monitor (check_round rs p) = pl_monitor p"
  "length rs = length (pl_members p) \<Longrightarrow> length (pl_members (check_round rs p)) = length (pl_members p)"
  by (simp_all add: check_round_def)

lemma run_rounds_member:
  assumes "monitored (pl_monitor p)" and "i < length (pl_members p)"
    and "\<forall>rs \<in> set rss. length rs = length (pl_members p)"
  shows "pl_members (run_rounds rss p) ! i =
    run_checks (int_or (mc_rise (pl_monitor p)) 2) (int_or (mc_fall (pl_monitor p)) 3)
      (map (\<lambda>rs. probe (pl_monitor p) (rs ! i)) rss) (pl_members p ! i)"
  using assms
proof (induction rss arbitrary: p)
  case (Cons rs rss)
  have l: "length (pl_members (check_round rs p)) = length (pl_members p)"
    using Cons.prems(3) by (intro check_round_keeps) simp
  have "pl_members (check_round rs p) ! i = check_member (int_or (mc_rise (pl_monitor p)) 2)
      (int_or (mc_fall (pl_monitor p)) 3) (probe (pl_monitor p) (rs ! i)) (pl_members p ! i)"
    using Cons.prems by (simp add: check_round_def)
  with Cons.IH [of "check_round rs p"] Cons.prems show ?case
    by (simp add: run_checks_def check_round_keeps(1) l)
qed (simp add: run_checks_def)

section \<open>Accounting\<close>

definition open_flights :: "balancer \<Rightarrow> nat \<Rightarrow> nat" where
  "open_flights b m = length (filter (\<lambda>(k, f). k = m \<and> f \<noteq> Over) (lb_flights b))"

definition flights_inv :: "balancer \<Rightarrow> bool" where
  "flights_inv b \<longleftrightarrow> (\<forall>(m, f) \<in> set (lb_flights b). m < length (lb_active b)) \<and>
     (\<forall>m < length (lb_active b). lb_active b ! m = int (open_flights b m))"

lemma length_filter_update:
  "j < length xs \<Longrightarrow> int (length (filter P (xs[j := y]))) =
     int (length (filter P xs)) + of_bool (P y) - of_bool (P (xs ! j))"
proof (induction xs arbitrary: j)
  case (Cons x xs)
  then show ?case by (cases j) auto
qed simp

lemma open_flights_set:
  assumes "flight_is b j g" and "g \<noteq> Over"
  shows "int (open_flights (set_flight j f b) m) =
    int (open_flights b m) - (if fst (lb_flights b ! j) = m \<and> f = Over then 1 else 0)"
  using assms length_filter_update [of j "lb_flights b" "\<lambda>(k, f). k = m \<and> f \<noteq> Over" "(fst (lb_flights b ! j), f)"]
  by (cases "lb_flights b ! j") (auto simp: open_flights_def set_flight_def flight_is_def)

lemma flights_inv_set:
  assumes "flights_inv b" and "flight_is b j g" and "g \<noteq> Over"
  shows "flights_inv (if f = Over then add_active (fst (lb_flights b ! j)) (- 1) (set_flight j f b) else set_flight j f b)"
proof -
  have j: "j < length (lb_flights b)" using assms(2) by (simp add: flight_is_def)
  then have m: "fst (lb_flights b ! j) < length (lb_active b)"
    using assms(1) nth_mem [OF j] by (cases "lb_flights b ! j") (auto simp: flights_inv_def)
  have mem: "\<forall>(k, f') \<in> set (lb_flights (set_flight j f b)). k < length (lb_active b)"
    using assms(1) m by (auto simp: flights_inv_def set_flight_def dest!: set_update_subset_insert [THEN subsetD])
  have fl: "open_flights (add_active a d b') k = open_flights b' k" for a d b' k
    by (simp add: open_flights_def add_active_def)
  show ?thesis
    using assms(1) mem m open_flights_set [OF assms(2,3), of f]
    by (auto simp: flights_inv_def fl nth_list_update) (auto simp: add_active_def set_flight_def nth_list_update)
qed

lemma flights_inv_step: "flights_inv b \<Longrightarrow> flights_inv (flight_step e b)"
proof (cases e)
  case (Begin m)
  assume "flights_inv b"
  then show ?thesis using Begin
    by (auto simp: flights_inv_def add_active_def open_flights_def nth_list_update)
next
  case (Fail j)
  assume "flights_inv b"
  then show ?thesis using Fail flights_inv_set [of b j Sent Over] by simp
next
  case (Respond j)
  assume "flights_inv b"
  then show ?thesis using Respond flights_inv_set [of b j Sent Body_open] by simp
next
  case (Close_body j)
  assume "flights_inv b"
  then show ?thesis using Close_body flights_inv_set [of b j Body_open Over] by simp
qed

interpretation flights: invariant_machine flight_step flights_inv
  by unfold_locales (rule flights_inv_step)

section \<open>Properties\<close>

text \<open>A pick from a pool with members returns one of them, under every method and whatever
  the health flags and connection counts did between its passes: traffic fails open, it is
  never left without a backend.\<close>

theorem pick_total:
  assumes "pl_members p \<noteq> []" and "length (pl_members p) < 2 ^ 32"
  shows "\<exists>i < length (pl_members p). fst (pick rd client p) = Some i"
  using assms by (rule pick_members)

text \<open>While the health flags hold still and some member is healthy, a pick returns a healthy
  member, and under least-connections one whose connection count is least among the healthy.\<close>

theorem pick_healthy:
  assumes "1 < length (pl_members p)" and "length (pl_members p) < 2 ^ 32"
    and "i < length (pl_members p)" and "h i"
    and "rd_count rd = h" and "rd_total rd = h" and "rd_select rd = h"
  shows "\<exists>k < length (pl_members p). fst (pick rd client p) = Some k \<and> h k \<and>
    (pl_method p = ''least_conn'' \<longrightarrow> (\<forall>j < length (pl_members p). h j \<longrightarrow> rd_active rd k \<le> rd_active rd j))"
  using pick_stable [OF assms(1,3-7,2)] .


text \<open>C33: Hysteresis. After any rounds of checks a member's state is up when the last \<open>rise\<close>
  probes of it succeeded, down when the last \<open>fall\<close> failed, and otherwise what it was
  before the last round: fewer results than the threshold in a row change nothing.\<close>

theorem monitor_hysteresis:
  assumes "monitored (pl_monitor p)" and "i < length (pl_members p)"
    and "\<forall>rs \<in> set (rss @ [last_round]). length rs = length (pl_members p)"
    and "pm_ok_streak (pl_members p ! i) = 0" and "pm_fail_streak (pl_members p ! i) = 0"
    and "history = map (\<lambda>rs. probe (pl_monitor p) (rs ! i)) (rss @ [last_round])"
  shows "pm_healthy (pl_members (run_rounds (rss @ [last_round]) p) ! i) =
    (if int_or (mc_rise (pl_monitor p)) 2 \<le> trailing True history then True
     else if int_or (mc_fall (pl_monitor p)) 3 \<le> trailing False history then False
     else pm_healthy (pl_members (run_rounds rss p) ! i))"
proof -
  define rise where "rise = int_or (mc_rise (pl_monitor p)) 2"
  define fall where "fall = int_or (mc_fall (pl_monitor p)) 3"
  define hs where "hs = map (\<lambda>rs. probe (pl_monitor p) (rs ! i)) rss"
  define x where "x = probe (pl_monitor p) (last_round ! i)"
  have pos: "0 < rise" "0 < fall" by (simp_all add: rise_def fall_def int_or_def)
  have h: "history = hs @ [x]" by (simp add: assms(6) hs_def x_def)
  have "pl_members (run_rounds (rss @ [last_round]) p) ! i = run_checks rise fall (hs @ [x]) (pl_members p ! i)"
    using run_rounds_member [OF assms(1-3)] by (simp add: rise_def fall_def hs_def x_def)
  moreover have "pl_members (run_rounds rss p) ! i = run_checks rise fall hs (pl_members p ! i)"
    using run_rounds_member [OF assms(1,2)] assms(3) by (simp add: rise_def fall_def hs_def)
  moreover have "run_checks rise fall (hs @ [x]) m = check_member rise fall x (run_checks rise fall hs m)" for m
    by (simp add: run_checks_def)
  ultimately show ?thesis
    using run_checks_streaks [OF assms(4,5), of rise fall hs] pos
    by (simp add: h trailing_snoc check_member_def Let_def flip: rise_def fall_def)
qed

text \<open>The connection count of a member is always the number of its requests whose round trip
  has neither failed nor had its response body closed, however the requests interleave and
  however often a body is closed.\<close>

theorem active_counts_exact:
  assumes "m < n"
  shows "lb_active (run_machine flight_step es \<lparr>lb_active = replicate n 0, lb_flights = []\<rparr>) ! m =
    int (open_flights (run_machine flight_step es \<lparr>lb_active = replicate n 0, lb_flights = []\<rparr>) m)"
proof -
  define b0 where "b0 = \<lparr>lb_active = replicate n 0, lb_flights = []\<rparr>"
  have "length (lb_active (flight_step e b)) = length (lb_active b)" for e b
    by (cases e) (auto simp: add_active_def set_flight_def)
  then have len: "length (lb_active (run_machine flight_step es b)) = length (lb_active b)" for b
    by (induction es arbitrary: b) auto
  have "flights_inv b0" by (simp add: flights_inv_def b0_def open_flights_def)
  then have "flights_inv (run_machine flight_step es b0)" by (rule flights.inv_run)
  with len [of b0] assms show ?thesis by (simp add: flights_inv_def flip: b0_def) (simp add: b0_def)
qed

text \<open>They apply to a pool of two members with weights 3 and 1.\<close>

definition sample_pool :: pool_runtime where
  "sample_pool = \<lparr>pl_name = ''web'', pl_method = ''round_robin'', pl_members =
     [\<lparr>pm_node = ''a'', pm_target = ''http://a:80'', pm_weight = 3, pm_active = 0, pm_healthy = True, pm_ok_streak = 0, pm_fail_streak = 0\<rparr>,
      \<lparr>pm_node = ''b'', pm_target = ''http://b:80'', pm_weight = 1, pm_active = 0, pm_healthy = True, pm_ok_streak = 0, pm_fail_streak = 0\<rparr>],
     pl_monitor = \<lparr>mc_type = ''tcp'', mc_path = [], mc_interval_sec = 0, mc_timeout_sec = 0, mc_rise = 0,
       mc_fall = 2, mc_expect_status = 0\<rparr>, pl_rr = 0\<rparr>"

definition sample_reads :: pick_reads where
  "sample_reads = \<lparr>rd_count = (\<lambda>_. True), rd_total = (\<lambda>_. True), rd_select = (\<lambda>_. True),
     rd_active = (\<lambda>_. 0), rd_active_again = (\<lambda>_. 0), rd_draw = 0, rd_draw_again = 0\<rparr>"

theorem pick_total_witness:
  "\<exists>i < length (pl_members sample_pool). fst (pick sample_reads ''192.0.2.1'' sample_pool) = Some i"
  by (rule pick_total) (simp_all add: sample_pool_def)

theorem pick_healthy_witness:
  "\<exists>k < 2. fst (pick sample_reads ''192.0.2.1'' sample_pool) = Some k"
proof -
  have n: "length (pl_members sample_pool) = 2" by (simp add: sample_pool_def)
  have "1 < length (pl_members sample_pool)" "length (pl_members sample_pool) < 2 ^ 32" "1 < length (pl_members sample_pool)"
    by (simp_all add: n)
  from pick_healthy [OF this, of "\<lambda>_. True" sample_reads "''192.0.2.1''"] show ?thesis
    by (auto simp: sample_reads_def n)
qed


definition sample_rounds :: "probe_result list list" where
  "sample_rounds = replicate 2 (replicate 2 \<lparr>pr_connected = False, pr_status = None\<rparr>)"

theorem monitor_hysteresis_witness:
  "pm_healthy (pl_members (run_rounds sample_rounds sample_pool) ! 0) = False"
proof -
  have r: "sample_rounds = [replicate 2 \<lparr>pr_connected = False, pr_status = None\<rparr>] @
      [replicate 2 \<lparr>pr_connected = False, pr_status = None\<rparr>]"
    by (simp add: sample_rounds_def numeral_2_eq_2)
  show ?thesis
    unfolding r
    by (subst monitor_hysteresis [OF _ _ _ _ _ refl])
      (simp_all add: sample_pool_def monitored_def int_or_def trailing_def probe_def)
qed

theorem active_counts_exact_witness:
  "lb_active (run_machine flight_step [Begin 1, Respond 0, Begin 1, Close_body 0, Close_body 0]
     \<lparr>lb_active = replicate 2 0, lb_flights = []\<rparr>) ! 1 = 1"
  by (subst active_counts_exact)
    (simp_all add: open_flights_def flight_is_def set_flight_def add_active_def)

end
