(* ===== verification/Telemetry_Queue.thy ===== *)
theory Telemetry_Queue
  imports Go_Map
begin

text \<open>
  The bounded asynchronous queue that \<^verbatim>\<open>matchlog.go\<close> and
  \<^verbatim>\<open>observations.go\<close> share in shape: request goroutines offer records
  without blocking, one consumer takes them, and a shutdown drains what was accepted.

  \<^verbatim>\<open>enqueue\<close> is two steps, because the shutdown may come between its load of
  \<^verbatim>\<open>accepting\<close> and its send: \<open>Offer\<close> is the load, \<open>Send_now\<close> the
  select with a default branch, and \<open>tq_admitted\<close> holds the records between the two.
  \<open>tq_sends\<close> counts the second steps and is read by theorems only. The consumer is in
  the loop of \<^verbatim>\<open>run\<close> (\<open>Running\<close>), in its drain loop, or has returned.
  What it does with a record and at a tick is the component's business: \<open>handle\<close> and
  \<open>tick\<close> work on the store \<open>tq_store\<close>.
\<close>

datatype consumer = Idle | Running | Draining | Returned

record ('r, 's) tq =
  tq_queue :: "'r list"
  tq_cap :: nat
  tq_accepting :: bool
  tq_stop :: bool
  tq_consumer :: consumer
  tq_admitted :: "'r list"
  tq_queue_dropped :: u64
  tq_sends :: u64
  tq_store :: 's

definition new_tq :: "int \<Rightarrow> 's \<Rightarrow> ('r, 's) tq" where
  "new_tq capacity st = \<lparr>tq_queue = [], tq_cap = (if capacity \<le> 0 then 1 else nat capacity),
     tq_accepting = False, tq_stop = False, tq_consumer = Idle, tq_admitted = [],
     tq_queue_dropped = 0, tq_sends = 0, tq_store = st\<rparr>"

datatype 'r tq_event = Start | Offer 'r | Send_now nat | Take gtime | Tick | Stop | See_stop | Return

definition drop_nth :: "nat \<Rightarrow> 'a list \<Rightarrow> 'a list" where
  "drop_nth i xs = take i xs @ drop (Suc i) xs"

definition tq_start :: "('r, 's) tq \<Rightarrow> ('r, 's) tq" where
  "tq_start p = (if tq_consumer p = Idle then p\<lparr>tq_accepting := True, tq_consumer := Running\<rparr> else p)"

definition tq_offer :: "'r \<Rightarrow> ('r, 's) tq \<Rightarrow> ('r, 's) tq" where
  "tq_offer r p = (if tq_accepting p then p\<lparr>tq_admitted := tq_admitted p @ [r]\<rparr> else p)"

definition tq_send :: "'r \<Rightarrow> ('r, 's) tq \<Rightarrow> ('r, 's) tq" where
  "tq_send r p =
     (if length (tq_queue p) < tq_cap p
      then p\<lparr>tq_queue := tq_queue p @ [r], tq_sends := tq_sends p + 1\<rparr>
      else p\<lparr>tq_queue_dropped := tq_queue_dropped p + 1, tq_sends := tq_sends p + 1\<rparr>)"

definition tq_send_nth :: "nat \<Rightarrow> ('r, 's) tq \<Rightarrow> ('r, 's) tq" where
  "tq_send_nth i p =
     (if i < length (tq_admitted p)
      then tq_send (tq_admitted p ! i) (p\<lparr>tq_admitted := drop_nth i (tq_admitted p)\<rparr>) else p)"

definition tq_take :: "('r \<Rightarrow> gtime \<Rightarrow> 's \<Rightarrow> 's) \<Rightarrow> gtime \<Rightarrow> ('r, 's) tq \<Rightarrow> ('r, 's) tq" where
  "tq_take handle now p =
     (case tq_queue p of
        r # rs \<Rightarrow>
          if tq_consumer p = Running \<or> tq_consumer p = Draining
          then p\<lparr>tq_queue := rs, tq_store := handle r now (tq_store p)\<rparr> else p
      | [] \<Rightarrow> p)"

definition tq_tick :: "(u64 \<Rightarrow> 's \<Rightarrow> 's) \<Rightarrow> ('r, 's) tq \<Rightarrow> ('r, 's) tq" where
  "tq_tick tick p = (if tq_consumer p = Running
     then p\<lparr>tq_store := tick (tq_queue_dropped p) (tq_store p)\<rparr> else p)"

definition tq_stop_request :: "('r, 's) tq \<Rightarrow> ('r, 's) tq" where
  "tq_stop_request p = (if tq_consumer p = Idle then p else p\<lparr>tq_accepting := False, tq_stop := True\<rparr>)"

definition tq_see_stop :: "('r, 's) tq \<Rightarrow> ('r, 's) tq" where
  "tq_see_stop p = (if tq_consumer p = Running \<and> tq_stop p then p\<lparr>tq_consumer := Draining\<rparr> else p)"

definition tq_return :: "(u64 \<Rightarrow> 's \<Rightarrow> 's) \<Rightarrow> ('r, 's) tq \<Rightarrow> ('r, 's) tq" where
  "tq_return tick p = (if tq_consumer p = Draining \<and> tq_queue p = []
     then p\<lparr>tq_consumer := Returned, tq_store := tick (tq_queue_dropped p) (tq_store p)\<rparr> else p)"

fun tq_step :: "('r \<Rightarrow> gtime \<Rightarrow> 's \<Rightarrow> 's) \<Rightarrow> (u64 \<Rightarrow> 's \<Rightarrow> 's) \<Rightarrow> 'r tq_event \<Rightarrow> ('r, 's) tq \<Rightarrow> ('r, 's) tq" where
  "tq_step handle tick Start p = tq_start p"
| "tq_step handle tick (Offer r) p = tq_offer r p"
| "tq_step handle tick (Send_now i) p = tq_send_nth i p"
| "tq_step handle tick (Take now) p = tq_take handle now p"
| "tq_step handle tick Tick p = tq_tick tick p"
| "tq_step handle tick Stop p = tq_stop_request p"
| "tq_step handle tick See_stop p = tq_see_stop p"
| "tq_step handle tick Return p = tq_return tick p"

lemmas tq_defs = tq_start_def tq_offer_def tq_send_def tq_send_nth_def tq_take_def tq_tick_def
  tq_stop_request_def tq_see_stop_def tq_return_def

section \<open>What the queue promises its component\<close>

text \<open>
  The component tells how many records its store has accounted for; handling a record accounts
  for one more, and a tick for none. The store's own invariant is kept by both.
\<close>

locale telemetry_consumer =
  fixes handle :: "'r \<Rightarrow> gtime \<Rightarrow> 's \<Rightarrow> 's"
    and tick :: "u64 \<Rightarrow> 's \<Rightarrow> 's"
    and accounted :: "'s \<Rightarrow> u64"
    and store_inv :: "'s \<Rightarrow> bool"
  assumes handle_accounted: "accounted (handle r now st) = accounted st + 1"
    and tick_accounted: "accounted (tick d st) = accounted st"
    and handle_inv: "store_inv st \<Longrightarrow> store_inv (handle r now st)"
    and tick_inv: "store_inv st \<Longrightarrow> store_inv (tick d st)"
begin

definition queue_inv :: "('r, 's) tq \<Rightarrow> bool" where
  "queue_inv p \<longleftrightarrow> store_inv (tq_store p) \<and> length (tq_queue p) \<le> tq_cap p \<and>
     of_nat (length (tq_queue p)) + tq_queue_dropped p + accounted (tq_store p) = tq_sends p"

lemma queue_inv_send: "queue_inv p \<Longrightarrow> queue_inv (tq_send r p)"
  by (auto simp: queue_inv_def tq_send_def algebra_simps)

lemma queue_inv_take: "queue_inv p \<Longrightarrow> queue_inv (tq_take handle now p)"
  by (cases "tq_queue p") (auto simp: queue_inv_def tq_take_def handle_accounted handle_inv algebra_simps)

lemma queue_inv_step: "queue_inv p \<Longrightarrow> queue_inv (tq_step handle tick e p)"
proof (cases e)
  case (Send_now i)
  assume "queue_inv p"
  then have "queue_inv (p\<lparr>tq_admitted := drop_nth i (tq_admitted p)\<rparr>)" by (simp add: queue_inv_def)
  from queue_inv_send [OF this] \<open>queue_inv p\<close> Send_now show ?thesis by (simp add: tq_send_nth_def)
next
  case (Take now)
  assume "queue_inv p"
  with Take queue_inv_take show ?thesis by simp
qed (auto simp: queue_inv_def tq_defs tick_accounted tick_inv)

lemma queue_inv_run: "queue_inv p \<Longrightarrow> queue_inv (run_machine (tq_step handle tick) es p)"
  by (induction es arbitrary: p) (simp_all add: queue_inv_step)

lemma queue_inv_new: "store_inv st \<Longrightarrow> accounted st = 0 \<Longrightarrow> queue_inv (new_tq c st)"
  by (simp add: queue_inv_def new_tq_def)

text \<open>Once the shutdown has begun with no send outstanding, nothing enters the queue, and the
  consumer returns with it empty.\<close>

definition shut :: "('r, 's) tq \<Rightarrow> bool" where
  "shut p \<longleftrightarrow> \<not> tq_accepting p \<and> tq_consumer p \<noteq> Idle \<and> tq_admitted p = [] \<and>
     (tq_consumer p = Returned \<longrightarrow> tq_queue p = [])"

lemma shut_step: "shut p \<Longrightarrow> shut (tq_step handle tick e p)"
  by (cases e) (auto simp: shut_def tq_defs split: list.splits)

lemma shut_run: "shut p \<Longrightarrow> shut (run_machine (tq_step handle tick) es p)"
  by (induction es arbitrary: p) (simp_all add: shut_step)

lemma drained:
  assumes "queue_inv p" and "tq_consumer p = Running" and "tq_admitted p = []"
    and "q = run_machine (tq_step handle tick) es (tq_stop_request p)" and "tq_consumer q = Returned"
  shows "tq_queue q = []" and "tq_queue_dropped q + accounted (tq_store q) = tq_sends q"
proof -
  have "shut (tq_stop_request p)" using assms(2,3) by (simp add: shut_def tq_stop_request_def)
  then have "shut q" unfolding assms(4) by (rule shut_run)
  then show e: "tq_queue q = []" using assms(5) by (simp add: shut_def)
  have "queue_inv (tq_stop_request p)" using queue_inv_step [OF assms(1), of Stop] by simp
  then have "queue_inv q" unfolding assms(4) by (rule queue_inv_run)
  with e show "tq_queue_dropped q + accounted (tq_store q) = tq_sends q" by (simp add: queue_inv_def)
qed

end

text \<open>A consumer that gets its turns returns: it sees the stop request, takes what is queued
  and finds the queue empty.\<close>

definition drain_schedule :: "nat \<Rightarrow> gtime \<Rightarrow> 'r tq_event list" where
  "drain_schedule n now = See_stop # replicate n (Take now) @ [Return]"

lemma drain_schedule_returns:
  assumes "tq_consumer p = Running"
  shows "tq_consumer (run_machine (tq_step handle tick)
    (drain_schedule (length (tq_queue p)) now) (tq_stop_request p)) = Returned"
proof -
  have takes: "tq_consumer q = Draining \<Longrightarrow>
    tq_consumer (run_machine (tq_step handle tick) (replicate (length (tq_queue q)) (Take now) @ [Return]) q) = Returned"
    for q :: "('a, 'b) tq"
  proof (induction "tq_queue q" arbitrary: q)
    case Nil
    then have "tq_queue q = []" by simp
    with Nil show ?case by (simp add: tq_return_def)
  next
    case (Cons r rs)
    define q' where "q' = tq_take handle now q"
    have q: "tq_queue q = r # rs" using Cons.hyps(2) by simp
    have "tq_queue q' = rs" "tq_consumer q' = Draining" using q Cons.prems by (simp_all add: q'_def tq_take_def)
    with Cons.hyps(1) [of q'] show ?case by (simp add: q flip: q'_def)
  qed
  have "tq_consumer (tq_see_stop (tq_stop_request p)) = Draining"
    "tq_queue (tq_see_stop (tq_stop_request p)) = tq_queue p"
    using assms by (simp_all add: tq_stop_request_def tq_see_stop_def)
  with takes [of "tq_see_stop (tq_stop_request p)"] show ?thesis by (simp add: drain_schedule_def)
qed

end
