(* ===== verification/Match_Log.thy ===== *)
theory Match_Log
  imports Telemetry_Queue
begin

text \<open>
  \<^verbatim>\<open>matchlog.go\<close>: the aggregation of rule matches into log lines, on the queue of
  \<open>Telemetry_Queue\<close>; and the ring of recent matches of \<^verbatim>\<open>admin.go\<close>. The log
  lines written are part of the store (\<open>ml_lines\<close>); a timestamp in a line stands for
  its formatted text.
\<close>

record match_rec =
  mr_time :: string
  mr_site :: string
  mr_rule_id :: int
  mr_severity :: string
  mr_phase :: int
  mr_client :: string
  mr_uri :: string
  mr_msg :: string
  mr_data :: string

type_synonym match_log_key = "string \<times> int \<times> string"

record match_log_bucket =
  mb_sample :: match_rec
  mb_count :: u64
  mb_first_seen :: gtime
  mb_last_seen :: gtime

definition match_log_queue_capacity :: int where "match_log_queue_capacity = 8192"
definition match_log_max_groups :: int where "match_log_max_groups = 1024"

text \<open>\<open>Summary bucket uri msg data\<close>: each text with its truncation flag.\<close>

datatype log_line =
    Summary match_log_bucket "string \<times> bool" "string \<times> bool" "string \<times> bool"
  | Drops u64 u64 u64 u64

record match_log_store =
  ml_groups :: "(match_log_key, match_log_bucket) gomap"
  ml_max_groups :: nat
  ml_has_log :: bool
  ml_group_dropped :: u64
  ml_processed :: u64
  ml_emitted :: u64
  ml_reported :: u64
  ml_lines :: "log_line list"

section \<open>Operations\<close>

definition new_match_log_store :: "bool \<Rightarrow> int \<Rightarrow> match_log_store" where
  "new_match_log_store has_log max_groups =
     \<lparr>ml_groups = [], ml_max_groups = (if max_groups \<le> 0 then 1 else nat max_groups), ml_has_log = has_log,
      ml_group_dropped = 0, ml_processed = 0, ml_emitted = 0, ml_reported = 0, ml_lines = []\<rparr>"

definition new_match_log_plane :: "bool \<Rightarrow> int \<Rightarrow> int \<Rightarrow> (match_rec, match_log_store) tq" where
  "new_match_log_plane has_log capacity max_groups = new_tq capacity (new_match_log_store has_log max_groups)"

definition match_key :: "match_rec \<Rightarrow> match_log_key" where
  "match_key r = (mr_site r, mr_rule_id r, mr_client r)"

definition match_log_add :: "match_rec \<Rightarrow> gtime \<Rightarrow> match_log_store \<Rightarrow> match_log_store" where
  "match_log_add r now st =
     (case gm_get (ml_groups st) (match_key r) of
        Some b \<Rightarrow> st\<lparr>ml_groups := gm_put (match_key r) (b\<lparr>mb_count := mb_count b + 1, mb_last_seen := now\<rparr>) (ml_groups st),
                    ml_processed := ml_processed st + 1\<rparr>
      | None \<Rightarrow>
          if length (ml_groups st) \<ge> ml_max_groups st
          then st\<lparr>ml_group_dropped := ml_group_dropped st + 1\<rparr>
          else st\<lparr>ml_groups := gm_put (match_key r)
                   \<lparr>mb_sample = r, mb_count = 1, mb_first_seen = now, mb_last_seen = now\<rparr> (ml_groups st),
                 ml_processed := ml_processed st + 1\<rparr>)"

definition match_log_field :: "string \<Rightarrow> nat \<Rightarrow> string \<times> bool" where
  "match_log_field s lim = (if lim = 0 \<or> length s \<le> lim then (s, False) else (take lim s, True))"

definition summary_line :: "match_log_bucket \<Rightarrow> log_line" where
  "summary_line b = Summary b (match_log_field (mr_uri (mb_sample b)) 1024)
     (match_log_field (mr_msg (mb_sample b)) 1024) (match_log_field (mr_data (mb_sample b)) 2048)"

definition match_log_flush :: "match_log_store \<Rightarrow> match_log_store" where
  "match_log_flush st =
     (if ml_groups st = [] then st
      else if ml_has_log st
      then st\<lparr>ml_lines := ml_lines st @ map summary_line (gm_values (ml_groups st)),
              ml_emitted := ml_emitted st + of_nat (length (ml_groups st)), ml_groups := []\<rparr>
      else st\<lparr>ml_groups := []\<rparr>)"

definition match_log_report_drops :: "u64 \<Rightarrow> match_log_store \<Rightarrow> match_log_store" where
  "match_log_report_drops queue_dropped st =
     (let dropped = queue_dropped + ml_group_dropped st in
      if dropped = ml_reported st then st
      else st\<lparr>ml_lines := (if ml_has_log st
               then ml_lines st @ [Drops (dropped - ml_reported st) dropped queue_dropped (ml_group_dropped st)]
               else ml_lines st),
              ml_reported := dropped\<rparr>)"

definition match_log_tick :: "u64 \<Rightarrow> match_log_store \<Rightarrow> match_log_store" where
  "match_log_tick queue_dropped st = match_log_report_drops queue_dropped (match_log_flush st)"

definition match_log_step :: "match_rec tq_event \<Rightarrow> (match_rec, match_log_store) tq \<Rightarrow> (match_rec, match_log_store) tq" where
  "match_log_step = tq_step match_log_add match_log_tick"

record match_log_snapshot =
  ms_queue_depth :: nat
  ms_dropped :: u64
  ms_processed :: u64
  ms_emitted :: u64
  ms_active_groups :: nat
  ms_accepting :: bool

definition match_log_snapshot_of :: "(match_rec, match_log_store) tq \<Rightarrow> match_log_snapshot" where
  "match_log_snapshot_of p = \<lparr>ms_queue_depth = length (tq_queue p),
     ms_dropped = tq_queue_dropped p + ml_group_dropped (tq_store p),
     ms_processed = ml_processed (tq_store p), ms_emitted = ml_emitted (tq_store p),
     ms_active_groups = length (ml_groups (tq_store p)), ms_accepting = tq_accepting p\<rparr>"

section \<open>Every match is counted once\<close>

definition match_count :: "log_line \<Rightarrow> u64" where
  "match_count l = (case l of Summary b _ _ _ \<Rightarrow> mb_count b | Drops _ _ _ _ \<Rightarrow> 0)"

definition lines_count :: "match_log_store \<Rightarrow> u64" where
  "lines_count st = sum_list (map match_count (ml_lines st))"

definition groups_count :: "match_log_store \<Rightarrow> u64" where
  "groups_count st = sum_list (map mb_count (gm_values (ml_groups st)))"

definition match_log_inv :: "match_log_store \<Rightarrow> bool" where
  "match_log_inv st \<longleftrightarrow> gm_ok (ml_groups st) \<and> length (ml_groups st) \<le> ml_max_groups st \<and>
     (ml_has_log st \<longrightarrow> lines_count st + groups_count st = ml_processed st)"

lemma match_log_inv_add: "match_log_inv st \<Longrightarrow> match_log_inv (match_log_add r now st)"
proof -
  assume inv: "match_log_inv st"
  then have ok: "gm_ok (ml_groups st)" by (simp add: match_log_inv_def)
  show "match_log_inv (match_log_add r now st)"
  proof (cases "gm_get (ml_groups st) (match_key r)")
    case None
    with inv sum_list_put [OF ok, of mb_count "match_key r"] show ?thesis
      by (auto simp: match_log_add_def match_log_inv_def length_gm_put gm_has_def lines_count_def
          groups_count_def algebra_simps)
  next
    case (Some b)
    define b' where "b' = b\<lparr>mb_count := mb_count b + 1, mb_last_seen := now\<rparr>"
    have "sum_list (map mb_count (gm_values (gm_put (match_key r) b' (ml_groups st)))) =
        sum_list (map mb_count (gm_values (ml_groups st))) + 1"
      using sum_list_put [OF ok, of mb_count "match_key r" b'] Some by (simp add: b'_def algebra_simps)
    moreover have "match_log_add r now st = st\<lparr>ml_groups := gm_put (match_key r) b' (ml_groups st),
        ml_processed := ml_processed st + 1\<rparr>"
      using Some by (simp add: match_log_add_def b'_def)
    ultimately show ?thesis
      using inv Some by (simp add: match_log_inv_def length_gm_put gm_has_def lines_count_def
          groups_count_def add.assoc [symmetric])
  qed
qed

lemma match_log_inv_flush: "match_log_inv st \<Longrightarrow> match_log_inv (match_log_flush st)"
  by (auto simp: match_log_flush_def match_log_inv_def lines_count_def groups_count_def match_count_def
      summary_line_def comp_def)

lemma match_log_inv_report: "match_log_inv st \<Longrightarrow> match_log_inv (match_log_report_drops d st)"
  by (auto simp: match_log_report_drops_def match_log_inv_def lines_count_def groups_count_def
      match_count_def Let_def)

definition match_accounted :: "match_log_store \<Rightarrow> u64" where
  "match_accounted st = ml_processed st + ml_group_dropped st"

lemma match_accounted_add: "match_accounted (match_log_add r now st) = match_accounted st + 1"
  by (simp add: match_accounted_def match_log_add_def split: option.split)

lemma match_accounted_tick: "match_accounted (match_log_tick d st) = match_accounted st"
  by (simp add: match_accounted_def match_log_tick_def match_log_report_drops_def match_log_flush_def Let_def)

interpretation match_log: telemetry_consumer match_log_add match_log_tick match_accounted match_log_inv
  by unfold_locales
    (rule match_accounted_add, rule match_accounted_tick, erule match_log_inv_add,
      simp add: match_log_tick_def match_log_inv_flush match_log_inv_report)

lemma match_log_inv_new: "match_log_inv (new_match_log_store has_log n)" "match_accounted (new_match_log_store has_log n) = 0"
  by (simp_all add: match_log_inv_def new_match_log_store_def match_accounted_def lines_count_def groups_count_def)

lemma match_log_keeps_config:
  "ml_has_log (tq_store (match_log_step e p)) = ml_has_log (tq_store p)"
  "ml_max_groups (tq_store (match_log_step e p)) = ml_max_groups (tq_store p)"
  "tq_cap (match_log_step e p) = tq_cap p"
  by (cases e; auto simp: match_log_step_def tq_defs match_log_add_def match_log_tick_def match_log_flush_def
      match_log_report_drops_def Let_def split: list.splits option.splits)+

lemma match_log_run_config:
  "ml_has_log (tq_store (run_machine match_log_step es p)) = ml_has_log (tq_store p) \<and>
   ml_max_groups (tq_store (run_machine match_log_step es p)) = ml_max_groups (tq_store p) \<and>
   tq_cap (run_machine match_log_step es p) = tq_cap p"
  by (induction es arbitrary: p) (simp_all add: match_log_keeps_config)

lemma match_log_run_inv:
  "match_log.queue_inv (run_machine match_log_step es (new_match_log_plane has_log c n))"
  unfolding match_log_step_def new_match_log_plane_def
  by (rule match_log.queue_inv_run [OF match_log.queue_inv_new]) (rule match_log_inv_new)+

section \<open>The ring of recent matches\<close>

record match_ring =
  ring_recs :: "match_rec list"
  ring_next :: nat
  ring_size :: nat

definition blank_match :: match_rec where
  "blank_match = \<lparr>mr_time = [], mr_site = [], mr_rule_id = 0, mr_severity = [], mr_phase = 0, mr_client = [],
     mr_uri = [], mr_msg = [], mr_data = []\<rparr>"

definition new_match_ring :: "int \<Rightarrow> match_ring" where
  "new_match_ring capacity = \<lparr>ring_recs = replicate (nat capacity) blank_match, ring_next = 0, ring_size = 0\<rparr>"

definition ring_add :: "match_rec \<Rightarrow> match_ring \<Rightarrow> match_ring" where
  "ring_add m r =
     (let c = length (ring_recs r) in
      if c = 0 then r
      else \<lparr>ring_recs = (ring_recs r)[ring_next r := m], ring_next = (ring_next r + 1) mod c,
            ring_size = (if ring_size r < c then ring_size r + 1 else ring_size r)\<rparr>)"

definition ring_snapshot :: "int \<Rightarrow> match_ring \<Rightarrow> match_rec list" where
  "ring_snapshot lim r =
     (let c = length (ring_recs r);
          n = (if lim \<le> 0 \<or> lim > int (ring_size r) then ring_size r else nat lim)
      in map (\<lambda>i. ring_recs r ! nat ((int (ring_next r) - 1 - int i + int c) mod int c)) [0..<n])"

text \<open>The ring stands for the last records added, newest first.\<close>

definition ring_holds :: "match_ring \<Rightarrow> match_rec list \<Rightarrow> bool" where
  "ring_holds r ms \<longleftrightarrow> (let c = length (ring_recs r) in
     ring_size r = min c (length ms) \<and> (c > 0 \<longrightarrow> ring_next r = length ms mod c) \<and>
     (\<forall>i < ring_size r. ring_recs r ! ((length ms - 1 - i) mod c) = rev ms ! i))"

lemma ring_holds_add:
  assumes "ring_holds r ms" shows "ring_holds (ring_add m r) (ms @ [m])"
proof (cases "length (ring_recs r) = 0")
  case True
  with assms show ?thesis by (simp add: ring_holds_def ring_add_def Let_def)
next
  case False
  define c where "c = length (ring_recs r)"
  have c: "0 < c" "ring_size r = min c (length ms)" "ring_next r = length ms mod c"
    and held: "\<And>i. i < ring_size r \<Longrightarrow> ring_recs r ! ((length ms - 1 - i) mod c) = rev ms ! i"
    using assms False by (auto simp: ring_holds_def Let_def c_def)
  define r' where "r' = ring_add m r"
  have r': "length (ring_recs r') = c" "ring_next r' = Suc (length ms) mod c"
    "ring_size r' = min c (Suc (length ms))" "ring_recs r' = (ring_recs r)[length ms mod c := m]"
    using c False by (auto simp: r'_def ring_add_def Let_def mod_Suc_eq simp flip: c_def)
  have "ring_recs r' ! ((length ms - i) mod c) = (m # rev ms) ! i" if i: "i < min c (Suc (length ms))" for i
  proof (cases i)
    case 0
    then show ?thesis using c by (simp add: r'(4) flip: c_def)
  next
    case (Suc j)
    have j: "j < ring_size r" "length ms - i = length ms - 1 - j" "i \<le> length ms" "0 < i" "i < c"
      using i Suc c(2) by auto
    have "(length ms - i) mod c \<noteq> length ms mod c"
    proof
      assume "(length ms - i) mod c = length ms mod c"
      then have "c dvd (length ms - (length ms - i))" using mod_eq_dvd_iff_nat [of "length ms - i" "length ms" c] by simp
      then show False using j by (auto dest: dvd_imp_le)
    qed
    then show ?thesis using held [OF j(1)] Suc j(2) by (simp add: r'(4))
  qed
  then show ?thesis using c(1) r' by (simp add: ring_holds_def Let_def flip: r'_def)
qed

lemma ring_holds_fold: "ring_holds r xs \<Longrightarrow> ring_holds (fold ring_add ms r) (xs @ ms)"
proof (induction ms arbitrary: r xs)
  case (Cons m ms)
  from Cons.IH [OF ring_holds_add [OF Cons.prems]] show ?case by simp
qed simp

section \<open>Properties\<close>

text \<open>No match is lost or counted twice: at any point of any interleaving of the request
  goroutines, the consumer and the ticker, the counts of the summary lines written so far, the
  counts of the open groups, the matches still queued and the matches dropped at the queue or
  at the group limit add up to the matches offered (as uint64 counters do, modulo 2^64).\<close>

theorem match_log_conservation:
  assumes "p = run_machine match_log_step es (new_match_log_plane True c n)"
  shows "lines_count (tq_store p) + groups_count (tq_store p) + of_nat (length (tq_queue p)) +
    tq_queue_dropped p + ml_group_dropped (tq_store p) = tq_sends p"
proof -
  have "match_log.queue_inv p" unfolding assms by (rule match_log_run_inv)
  moreover have "ml_has_log (tq_store p)"
    using match_log_run_config [of es "new_match_log_plane True c n"]
    by (simp add: assms new_match_log_plane_def new_tq_def new_match_log_store_def)
  ultimately show ?thesis
    by (simp add: match_log.queue_inv_def match_log_inv_def match_accounted_def algebra_simps)
qed

text \<open>Neither the queue nor the group table outgrows its limit, whatever the attack
  traffic: memory for match logging is bounded.\<close>

lemma match_log_bounded:
  "length (tq_queue (run_machine match_log_step es (new_match_log_plane has_log c n))) \<le> max 1 (nat c) \<and>
   length (ml_groups (tq_store (run_machine match_log_step es (new_match_log_plane has_log c n)))) \<le> max 1 (nat n)"
  using match_log_run_inv [of es has_log c n] match_log_run_config [of es "new_match_log_plane has_log c n"]
  by (auto simp: match_log.queue_inv_def match_log_inv_def new_match_log_plane_def new_tq_def
      new_match_log_store_def split: if_splits)

text \<open>Shutdown drains. If no request is between its check and its send when the stop is
  requested, then when the consumer has returned the queue is empty: every match offered has
  been processed or counted as dropped.\<close>

theorem match_log_drained:
  assumes "p = run_machine match_log_step es (new_match_log_plane has_log c n)"
    and "tq_consumer p = Running" and "tq_admitted p = []"
    and "q = run_machine match_log_step es' (tq_stop_request p)" and "tq_consumer q = Returned"
  shows "tq_queue q = [] \<and>
    ml_processed (tq_store q) + tq_queue_dropped q + ml_group_dropped (tq_store q) = tq_sends q"
proof -
  have "match_log.queue_inv p" unfolding assms(1) by (rule match_log_run_inv)
  from match_log.drained [OF this assms(2,3) assms(4) [unfolded match_log_step_def] assms(5)]
  show ?thesis by (simp add: match_accounted_def algebra_simps)
qed

text \<open>A match whose request passed the accepting check just before a shutdown can be sent
  after the consumer has returned: it is accepted, never processed and never counted as
  dropped. The drain guarantee therefore needs the requests to have stopped first.\<close>

theorem match_log_late_send_lost:
  "\<exists>es. let q = run_machine match_log_step es (new_match_log_plane True 8192 1024) in
     tq_consumer q = Returned \<and> length (tq_queue q) = 1 \<and> ml_processed (tq_store q) = 0 \<and>
     tq_queue_dropped q + ml_group_dropped (tq_store q) = 0"
  by (rule exI [of _ "[Start, Offer blank_match, Stop, See_stop, Return, Send_now 0]"])
    (simp add: new_match_log_plane_def new_tq_def match_log_step_def tq_defs match_log_tick_def
      match_log_flush_def match_log_report_drops_def new_match_log_store_def drop_nth_def Let_def)

text \<open>The ring of recent matches answers a snapshot with the last records added, newest
  first, up to the limit asked for and its capacity.\<close>

theorem ring_snapshot_latest:
  assumes "0 < capacity"
  shows "ring_snapshot lim (fold ring_add ms (new_match_ring capacity)) =
    take (if lim \<le> 0 then nat capacity else min (nat lim) (nat capacity)) (rev ms)"
proof -
  define c where "c = nat capacity"
  define r where "r = fold ring_add ms (new_match_ring capacity)"
  have "ring_holds (new_match_ring capacity) []"
    by (simp add: ring_holds_def new_match_ring_def)
  from ring_holds_fold [OF this, of ms] have h: "ring_holds r ms" by (simp add: r_def)
  have len: "length (ring_recs (ring_add m x)) = length (ring_recs x)" for m x
    by (simp add: ring_add_def Let_def)
  have "length (ring_recs (fold ring_add ms x)) = length (ring_recs x)" for x
    by (induction ms arbitrary: x) (simp_all add: len)
  then have c: "length (ring_recs r) = c" "0 < c" using assms by (simp_all add: r_def new_match_ring_def c_def)
  have held: "ring_size r = min c (length ms)" "ring_next r = length ms mod c"
    "\<And>i. i < min c (length ms) \<Longrightarrow> ring_recs r ! ((length ms - 1 - i) mod c) = rev ms ! i"
    using h c by (auto simp: ring_holds_def Let_def)
  define n where "n = (if lim \<le> 0 \<or> lim > int (ring_size r) then ring_size r else nat lim)"
  have n: "n \<le> min c (length ms)" by (auto simp: n_def held(1))
  have idx: "nat ((int (ring_next r) - 1 - int i + int c) mod int c) = (length ms - 1 - i) mod c" if "i < n" for i
  proof -
    have "(int (length ms mod c) - 1 - int i + int c) mod int c = (int (length ms) - 1 - int i) mod int c"
      by (simp add: zmod_int mod_diff_left_eq diff_diff_eq)
    also have "\<dots> = int ((length ms - 1 - i) mod c)"
      using that n by (simp add: of_nat_diff zmod_int diff_diff_eq)
    finally show ?thesis by (simp add: held(2))
  qed
  have "ring_snapshot lim r = map (\<lambda>i. rev ms ! i) [0..<n]"
    using idx n held(3) by (simp add: ring_snapshot_def Let_def c flip: n_def)
  also have "\<dots> = take n (rev ms)" using n by (intro nth_equalityI) simp_all
  also have "\<dots> = take (if lim \<le> 0 then c else min (nat lim) c) (rev ms)"
  proof -
    have "take k (rev ms) = take (min k (length ms)) (rev ms)" for k by (simp add: min_def)
    moreover have "min n (length ms) = min (if lim \<le> 0 then c else min (nat lim) c) (length ms)"
      using c by (auto simp: n_def held(1) min_def)
    ultimately show ?thesis by metis
  qed
  finally show ?thesis by (simp add: r_def c_def)
qed

text \<open>They apply to a plane that accepts a match, and to a ring of capacity two.\<close>

theorem match_log_conservation_witness:
  "\<exists>p. p = run_machine match_log_step [Start, Offer blank_match, Send_now 0] (new_match_log_plane True 1 1) \<and>
     lines_count (tq_store p) + groups_count (tq_store p) + of_nat (length (tq_queue p)) +
       tq_queue_dropped p + ml_group_dropped (tq_store p) = tq_sends p"
  using match_log_conservation [OF refl] by blast

theorem match_log_drained_witness:
  "\<exists>q :: (match_rec, match_log_store) tq. tq_consumer q = Returned \<and> tq_sends q = 1 \<and> tq_queue q = [] \<and>
     ml_processed (tq_store q) + tq_queue_dropped q + ml_group_dropped (tq_store q) = tq_sends q"
proof -
  define p where "p = run_machine match_log_step [Start, Offer blank_match, Send_now 0] (new_match_log_plane True 1 1)"
  define q where "q = run_machine match_log_step [See_stop, Take 5, Return] (tq_stop_request p)"
  have pq: "tq_consumer p = Running" "tq_admitted p = []" "tq_consumer q = Returned" "tq_sends q = 1"
    by (simp_all add: p_def q_def new_match_log_plane_def new_tq_def match_log_step_def tq_defs
        new_match_log_store_def drop_nth_def)
  from match_log_drained [OF p_def pq(1,2) q_def pq(3)] pq show ?thesis by blast
qed

theorem ring_snapshot_latest_witness:
  "ring_snapshot 0 (fold ring_add [blank_match, blank_match\<lparr>mr_rule_id := 1\<rparr>, blank_match\<lparr>mr_rule_id := 2\<rparr>] (new_match_ring 2)) =
     [blank_match\<lparr>mr_rule_id := 2\<rparr>, blank_match\<lparr>mr_rule_id := 1\<rparr>]"
  by (subst ring_snapshot_latest) (simp_all add: numeral_2_eq_2)

end
