(* ===== verification/Site_Map.thy ===== *)
theory Site_Map
  imports Go_Net "HOL-Library.Sublist"
begin

text \<open>
  \<^verbatim>\<open>sitemap.go\<close>: the bounded tree of paths seen on a site, and the crawler. A node
  is its fields (\<open>node_info\<close>) with its children as a Go map. The crawler's network is
  the argument \<open>fetch\<close>: what the backend answers for a path and the paths of the
  same-origin links found in the answer (the regular expression and URL resolution are not
  modelled); \<open>expired\<close> says at which iteration the context's deadline has passed.
\<close>

datatype map_source = Observed | Crawled

record node_info =
  nd_name :: string
  nd_full :: string
  nd_hits :: nat
  nd_methods :: "string list"
  nd_last_code :: int
  nd_last_seen :: gtime
  nd_seen :: bool
  nd_crawled :: bool

datatype path_node = Node (info: node_info) (children: "(string \<times> path_node) list")

record crawl_state =
  cs_running :: bool
  cs_started :: gtime
  cs_finished :: gtime
  cs_pages :: nat
  cs_depth :: nat
  cs_forms :: nat
  cs_fields :: nat
  cs_err :: string

record site_map =
  sm_root :: path_node
  sm_nodes :: nat
  sm_crawl :: crawl_state

record site_maps =
  sms_by_name :: "(string, site_map) gomap"
  sms_max_nodes :: nat

section \<open>The tree\<close>

definition new_node :: "string \<Rightarrow> string \<Rightarrow> path_node" where
  "new_node name full = Node \<lparr>nd_name = name, nd_full = full, nd_hits = 0, nd_methods = [],
     nd_last_code = 0, nd_last_seen = 0, nd_seen = False, nd_crawled = False\<rparr> []"

definition idle_crawl :: crawl_state where
  "idle_crawl = \<lparr>cs_running = False, cs_started = 0, cs_finished = 0, cs_pages = 0, cs_depth = 0,
     cs_forms = 0, cs_fields = 0, cs_err = []\<rparr>"

definition fresh_site_map :: site_map where
  "fresh_site_map = \<lparr>sm_root = new_node [] ''/'', sm_nodes = 0, sm_crawl = idle_crawl\<rparr>"

definition new_site_maps :: "nat \<Rightarrow> site_maps" where
  "new_site_maps max_nodes = \<lparr>sms_by_name = [], sms_max_nodes = max_nodes\<rparr>"

definition map_for_site :: "string \<Rightarrow> site_maps \<Rightarrow> site_map" where
  "map_for_site name m = (case gm_get (sms_by_name m) name of Some sm \<Rightarrow> sm | None \<Rightarrow> fresh_site_map)"

text \<open>\<^verbatim>\<open>touch\<close>, with the request's method, status, clock reading and source.\<close>

record visit =
  vi_method :: string
  vi_code :: int
  vi_now :: gtime
  vi_source :: map_source

definition touch_info :: "visit \<Rightarrow> bool \<Rightarrow> node_info \<Rightarrow> node_info" where
  "touch_info v is_root n = n\<lparr>
     nd_hits := (if is_root then nd_hits n else nd_hits n + 1),
     nd_methods := (if vi_method v = [] then nd_methods n else List.insert (vi_method v) (nd_methods n)),
     nd_last_code := (if vi_code v = 0 then nd_last_code n else vi_code v),
     nd_last_seen := vi_now v,
     nd_seen := (nd_seen n \<or> vi_source v = Observed),
     nd_crawled := (nd_crawled n \<or> vi_source v = Crawled)\<rparr>"

definition touch :: "visit \<Rightarrow> bool \<Rightarrow> path_node \<Rightarrow> path_node" where
  "touch v is_root n = Node (touch_info v is_root (info n)) (children n)"

definition split_path :: "string \<Rightarrow> string list" where
  "split_path p =
     (let p = (if has_prefix p ''/'' then tl p else p) in
      if p = [] then [] else filter (\<lambda>s. s \<noteq> []) (split_on CHR ''/'' p))"

fun descend :: "nat \<Rightarrow> visit \<Rightarrow> string \<Rightarrow> string list \<Rightarrow> path_node \<Rightarrow> nat \<Rightarrow> path_node \<times> nat" where
  "descend max_nodes v full [] node nodes = (node, nodes)"
| "descend max_nodes v full (seg # segs) (Node i cs) nodes =
     (case map_of cs seg of
        Some child \<Rightarrow>
          (case descend max_nodes v (full @ ''/'' @ seg) segs (touch v False child) nodes of
             (child, nodes) \<Rightarrow> (Node i (AList.update seg child cs), nodes))
      | None \<Rightarrow>
          if nodes \<ge> max_nodes then (Node i cs, nodes)
          else (case descend max_nodes v (full @ ''/'' @ seg) segs
                   (touch v False (new_node seg (full @ ''/'' @ seg))) (nodes + 1) of
             (child, nodes) \<Rightarrow> (Node i (AList.update seg child cs), nodes)))"

definition record_path :: "nat \<Rightarrow> visit \<Rightarrow> string \<Rightarrow> site_map \<Rightarrow> site_map" where
  "record_path max_nodes v path sm =
     (let path = (if path = [] then ''/'' else path);
          (root, nodes) = descend max_nodes v [] (split_path path) (touch v True (sm_root sm)) (sm_nodes sm)
      in sm\<lparr>sm_root := root, sm_nodes := nodes\<rparr>)"

definition maps_record :: "string \<Rightarrow> visit \<Rightarrow> string \<Rightarrow> site_maps \<Rightarrow> site_maps" where
  "maps_record site v path m =
     m\<lparr>sms_by_name := gm_put site (record_path (sms_max_nodes m) v path (map_for_site site m)) (sms_by_name m)\<rparr>"

definition maps_clear :: "string \<Rightarrow> site_maps \<Rightarrow> site_maps" where
  "maps_clear name m =
     (case gm_get (sms_by_name m) name of
        None \<Rightarrow> m
      | Some sm \<Rightarrow> if cs_running (sm_crawl sm) then m else m\<lparr>sms_by_name := gm_del name (sms_by_name m)\<rparr>)"

section \<open>Reports\<close>

datatype node_json = Node_json
  (j_name: string) (j_full: string) (j_hits: nat) (j_methods: "string list") (j_last_code: int)
  (j_last_seen: "gtime option") (j_source: string) (j_is_dir: bool) (j_children: "node_json list")

definition dirs_first :: "node_json \<Rightarrow> node_json \<Rightarrow> bool" where
  "dirs_first a b \<longleftrightarrow> (if j_is_dir a \<noteq> j_is_dir b then j_is_dir a else j_name a < j_name b)"

definition source_name :: "node_info \<Rightarrow> string" where
  "source_name n = (if nd_seen n \<and> nd_crawled n then ''both'' else if nd_seen n then ''seen''
     else if nd_crawled n then ''crawled'' else [])"

text \<open>The time of day stands for itself (\<open>None\<close> for the empty text of a zero time).\<close>

fun node_to_json :: "path_node \<Rightarrow> node_json" where
  "node_to_json (Node i cs) =
     Node_json (if nd_name i = [] then ''/'' else nd_name i) (nd_full i) (nd_hits i)
       (sort_by (<) (nd_methods i)) (nd_last_code i)
       (if time_is_zero (nd_last_seen i) then None else Some (nd_last_seen i))
       (source_name i) (cs \<noteq> []) (sort_by dirs_first (map (\<lambda>(_, c). node_to_json c) cs))"

definition skip_markers :: "string list" where
  "skip_markers = [''logout'', ''signout'', ''sign-out'', ''log-out'', ''/delete'', ''/destroy'',
     ''/remove'', ''action=delete'', ''action=logout'']"

definition skip_link :: "string \<Rightarrow> bool" where
  "skip_link p \<longleftrightarrow> list_ex (contains_str (to_lower p)) skip_markers"

fun collect_seen :: "path_node \<Rightarrow> string list" where
  "collect_seen (Node i cs) =
     (if nd_full i \<noteq> [] \<and> nd_full i \<noteq> ''/'' \<and> nd_seen i \<and> ''GET'' \<in> set (nd_methods i) \<and> \<not> skip_link (nd_full i)
      then [nd_full i] else []) @ concat (map (\<lambda>(_, c). collect_seen c) cs)"

definition seen_get_paths :: "site_map \<Rightarrow> string list" where
  "seen_get_paths sm = sort_by (<) (collect_seen (sm_root sm))"

definition single_join :: "string \<Rightarrow> string \<Rightarrow> string" where
  "single_join a b =
     (if a = [] \<or> a = ''/'' then b
      else if has_suffix a ''/'' \<and> has_prefix b ''/'' then a @ tl b
      else if \<not> has_suffix a ''/'' \<and> \<not> has_prefix b ''/'' then a @ ''/'' @ b
      else a @ b)"

section \<open>The crawler\<close>

record crawl_page =
  pg_code :: int
  pg_html :: bool
  pg_html_any_case :: bool
  pg_body_empty :: bool
  pg_forms :: nat
  pg_fields :: nat
  pg_targets :: "string list"

record crawl_opts =
  co_max_pages :: nat
  co_max_depth :: nat

record crawler =
  cw_queue :: "(string \<times> nat) list"
  cw_seen :: "string list"
  cw_pages :: nat
  cw_fetched :: "(string \<times> nat) list"
  cw_map :: site_map

definition start_crawl :: "gtime \<Rightarrow> site_map \<Rightarrow> site_map option" where
  "start_crawl now sm =
     (if cs_running (sm_crawl sm) then None
      else Some (sm\<lparr>sm_crawl := idle_crawl\<lparr>cs_running := True, cs_started := now\<rparr>\<rparr>))"

definition finish_crawl :: "string \<Rightarrow> gtime \<Rightarrow> site_map \<Rightarrow> site_map" where
  "finish_crawl err now sm = sm\<lparr>sm_crawl := (sm_crawl sm)\<lparr>cs_running := False, cs_err := err, cs_finished := now\<rparr>\<rparr>"

fun seed_queue :: "string list \<Rightarrow> string list \<Rightarrow> (string \<times> nat) list \<Rightarrow> string list \<times> (string \<times> nat) list" where
  "seed_queue [] seen queue = (seen, queue)"
| "seed_queue (p # ps) seen queue =
     (if p \<in> set seen then seed_queue ps seen queue else seed_queue ps (p # seen) (queue @ [(p, 0)]))"

fun follow_links :: "nat \<Rightarrow> string list \<Rightarrow> string list \<Rightarrow> (string \<times> nat) list \<Rightarrow> string list \<times> (string \<times> nat) list" where
  "follow_links depth [] seen queue = (seen, queue)"
| "follow_links depth (t # ts) seen queue =
     (let np = (if t = [] then ''/'' else t) in
      if np \<in> set seen \<or> skip_link np then follow_links depth ts seen queue
      else follow_links depth ts (np # seen) (queue @ [(np, depth + 1)]))"

text \<open>One page: what one iteration of the loop does with the head of the queue.\<close>

definition crawl_visit :: "gtime \<Rightarrow> crawl_page \<Rightarrow> visit" where
  "crawl_visit now pg = \<lparr>vi_method = ''GET'', vi_code = pg_code pg, vi_now = now, vi_source = Crawled\<rparr>"

definition crawl_page_step :: "nat \<Rightarrow> crawl_opts \<Rightarrow> gtime \<Rightarrow> crawl_page \<Rightarrow> crawler \<Rightarrow> crawler" where
  "crawl_page_step max_nodes opts now pg c =
     (case cw_queue c of
        [] \<Rightarrow> c
      | (path, depth) # rest \<Rightarrow>
          let sm = record_path max_nodes (crawl_visit now pg) path (cw_map c);
              sm = sm\<lparr>sm_crawl := (sm_crawl sm)\<lparr>cs_pages := cw_pages c + 1, cs_depth := depth,
                cs_forms := cs_forms (sm_crawl sm) + (if pg_html_any_case pg then pg_forms pg else 0),
                cs_fields := cs_fields (sm_crawl sm) + pg_fields pg\<rparr>\<rparr>;
              (seen, queue) =
                (if depth \<ge> co_max_depth opts \<or> \<not> pg_html pg \<or> pg_body_empty pg then (cw_seen c, rest)
                 else follow_links depth (pg_targets pg) (cw_seen c) rest)
          in c\<lparr>cw_queue := queue, cw_seen := seen, cw_pages := cw_pages c + 1,
               cw_fetched := cw_fetched c @ [(path, depth)], cw_map := sm\<rparr>)"

text \<open>The loop, and the text the crawl finishes with.\<close>

function crawl_loop :: "(string \<Rightarrow> crawl_page) \<Rightarrow> (nat \<Rightarrow> bool) \<Rightarrow> (nat \<Rightarrow> gtime) \<Rightarrow> nat \<Rightarrow> crawl_opts \<Rightarrow>
    crawler \<Rightarrow> string \<times> crawler" where
  "crawl_loop fetch expired clock max_nodes opts c =
     (if cw_queue c = [] then ([], c)
      else if expired (cw_pages c) then (''timed out'', c)
      else if cw_pages c \<ge> co_max_pages opts then ([], c)
      else crawl_loop fetch expired clock max_nodes opts
             (crawl_page_step max_nodes opts (clock (cw_pages c)) (fetch (fst (hd (cw_queue c)))) c))"
  by pat_completeness auto
termination
proof (relation "measure (\<lambda>(fetch, expired, clock, max_nodes, opts, c). co_max_pages opts - cw_pages c)")
  fix fetch :: "string \<Rightarrow> crawl_page" and expired :: "nat \<Rightarrow> bool" and clock :: "nat \<Rightarrow> gtime"
    and max_nodes :: nat and opts :: crawl_opts and c :: crawler
  assume q: "cw_queue c \<noteq> []" and "\<not> co_max_pages opts \<le> cw_pages c"
  moreover have "cw_pages (crawl_page_step max_nodes opts now pg c) = cw_pages c + 1" for now pg
    using q by (auto simp: crawl_page_step_def Let_def split: list.splits prod.splits)
  ultimately show "((fetch, expired, clock, max_nodes, opts,
        crawl_page_step max_nodes opts (clock (cw_pages c)) (fetch (fst (hd (cw_queue c)))) c),
      fetch, expired, clock, max_nodes, opts, c)
    \<in> measure (\<lambda>(fetch, expired, clock, max_nodes, opts, c). co_max_pages opts - cw_pages c)"
    by simp
qed simp

declare crawl_loop.simps [simp del]

definition run_crawl :: "(string \<Rightarrow> crawl_page) \<Rightarrow> (nat \<Rightarrow> bool) \<Rightarrow> (nat \<Rightarrow> gtime) \<Rightarrow> nat \<Rightarrow> crawl_opts \<Rightarrow>
    bool \<Rightarrow> site_map \<Rightarrow> crawler" where
  "run_crawl fetch expired clock max_nodes opts has_backend sm =
     (case seed_queue (seen_get_paths sm) [''/''] [(''/'', 0)] of
        (seen, queue) \<Rightarrow>
          let c = \<lparr>cw_queue = queue, cw_seen = seen, cw_pages = 0, cw_fetched = [], cw_map = sm\<rparr> in
          if \<not> has_backend then c\<lparr>cw_map := finish_crawl ''no reachable pool member to crawl'' (clock 0) sm\<rparr>
          else (case crawl_loop fetch expired clock max_nodes opts c of
              (err, c) \<Rightarrow> c\<lparr>cw_map := finish_crawl err (clock (cw_pages c)) (cw_map c)\<rparr>))"

section \<open>The size of a tree\<close>

fun tree_size :: "path_node \<Rightarrow> nat" where
  "tree_size (Node i cs) = Suc (sum_list (map (\<lambda>p. tree_size (snd p)) cs))"

fun tree_ok :: "path_node \<Rightarrow> bool" where
  "tree_ok (Node i cs) \<longleftrightarrow> distinct (map fst cs) \<and> (\<forall>p \<in> set cs. tree_ok (snd p))"

lemma touch_tree [simp]:
  "tree_size (touch v b n) = tree_size n" "tree_ok (touch v b n) = tree_ok n"
  "children (touch v b n) = children n"
  by (cases n; simp add: touch_def)+

lemma new_node_tree [simp]: "tree_size (new_node s f) = 1" "tree_ok (new_node s f)"
  by (simp_all add: new_node_def)

lemma tree_ok_put: "tree_ok (Node i cs) \<Longrightarrow> tree_ok c \<Longrightarrow> tree_ok (Node i (AList.update k c cs))"
  using set_gm_put_subset [of k c cs] by (auto simp: distinct_update)

lemma tree_size_put:
  assumes "tree_ok (Node i cs)"
  shows "tree_size (Node i (AList.update k c cs)) + (case map_of cs k of Some d \<Rightarrow> tree_size d | None \<Rightarrow> 0) =
    tree_size (Node i cs) + tree_size c"
  using sum_list_put [of cs tree_size k c] assms by (simp add: gm_ok_def comp_def)

lemma descend_size:
  assumes "tree_ok n" and "descend max_nodes v full segs n nodes = (n', nodes')"
  shows "tree_ok n' \<and> tree_size n' + nodes = tree_size n + nodes' \<and> (nodes \<le> max_nodes \<longrightarrow> nodes' \<le> max_nodes)"
  using assms
proof (induction max_nodes v full segs n nodes arbitrary: n' nodes' rule: descend.induct)
  case (2 max_nodes v full seg segs i cs nodes)
  show ?case
  proof (cases "map_of cs seg")
    case (Some child)
    obtain c' where d: "descend max_nodes v (full @ ''/'' @ seg) segs (touch v False child) nodes = (c', nodes')"
      "n' = Node i (AList.update seg c' cs)"
      using 2(4) Some by (auto split: prod.splits)
    have "tree_ok child" using 2(3) Some by (auto dest: map_of_SomeD)
    then have ih: "tree_ok c' \<and> tree_size c' + nodes = tree_size child + nodes' \<and> (nodes \<le> max_nodes \<longrightarrow> nodes' \<le> max_nodes)"
      using 2(2) [OF Some _ d(1)] by simp
    show ?thesis
      unfolding d(2) using ih tree_ok_put [OF 2(3), of c' seg] tree_size_put [OF 2(3), of seg c'] Some by simp
  next
    case None
    show ?thesis
    proof (cases "nodes \<ge> max_nodes")
      case True
      with 2(3,4) None show ?thesis by auto
    next
      case False
      obtain c' where d: "descend max_nodes v (full @ ''/'' @ seg) segs
          (touch v False (new_node seg (full @ ''/'' @ seg))) (nodes + 1) = (c', nodes')"
        "n' = Node i (AList.update seg c' cs)"
        using 2(4) None False by (auto split: prod.splits)
      have ih: "tree_ok c' \<and> tree_size c' + (nodes + 1) = 1 + nodes' \<and> (nodes + 1 \<le> max_nodes \<longrightarrow> nodes' \<le> max_nodes)"
        using 2(1) [OF None False _ d(1)] by simp
      show ?thesis
        unfolding d(2) using ih False tree_ok_put [OF 2(3), of c' seg] tree_size_put [OF 2(3), of seg c'] None by simp
    qed
  qed
qed simp

definition site_map_ok :: "nat \<Rightarrow> site_map \<Rightarrow> bool" where
  "site_map_ok max_nodes sm \<longleftrightarrow> tree_ok (sm_root sm) \<and> tree_size (sm_root sm) = Suc (sm_nodes sm) \<and> sm_nodes sm \<le> max_nodes"

lemma site_map_ok_fresh: "site_map_ok n fresh_site_map"
  by (simp add: site_map_ok_def fresh_site_map_def)

lemma site_map_ok_record: "site_map_ok n sm \<Longrightarrow> site_map_ok n (record_path n v path sm)"
  using descend_size [of "touch v True (sm_root sm)" n v "[]" "split_path (if path = [] then ''/'' else path)" "sm_nodes sm"]
  by (auto simp: site_map_ok_def record_path_def Let_def split: prod.splits)

datatype map_event = Map_record string visit string | Map_clear string

fun maps_step :: "map_event \<Rightarrow> site_maps \<Rightarrow> site_maps" where
  "maps_step (Map_record site v path) m = maps_record site v path m"
| "maps_step (Map_clear site) m = maps_clear site m"

definition maps_ok :: "nat \<Rightarrow> site_maps \<Rightarrow> bool" where
  "maps_ok n m \<longleftrightarrow> sms_max_nodes m = n \<and> gm_all (\<lambda>_. site_map_ok n) (sms_by_name m)"

lemma maps_ok_step: "maps_ok n m \<Longrightarrow> maps_ok n (maps_step e m)"
proof (cases e)
  case (Map_record site v path)
  assume m: "maps_ok n m"
  then have "site_map_ok n (map_for_site site m)"
    by (auto simp: maps_ok_def map_for_site_def site_map_ok_fresh dest: gm_all_get split: option.split)
  with m Map_record show ?thesis by (auto simp: maps_ok_def maps_record_def site_map_ok_record)
next
  case (Map_clear site)
  assume "maps_ok n m"
  with Map_clear show ?thesis by (auto simp: maps_ok_def maps_clear_def split: option.split)
qed

interpretation site_maps_machine: invariant_machine maps_step "maps_ok n"
  by unfold_locales (rule maps_ok_step)

section \<open>Hit counts\<close>

fun node_at :: "path_node \<Rightarrow> string list \<Rightarrow> path_node option" where
  "node_at n [] = Some n"
| "node_at (Node i cs) (s # ss) = (case map_of cs s of None \<Rightarrow> None | Some c \<Rightarrow> node_at c ss)"

definition hits_at :: "path_node \<Rightarrow> string list \<Rightarrow> nat" where
  "hits_at n ps = (case node_at n ps of None \<Rightarrow> 0 | Some m \<Rightarrow> nd_hits (info m))"

lemma hits_at_touch: "hits_at (touch v b n) ps = hits_at n ps + (if ps = [] \<and> \<not> b then 1 else 0)"
  by (cases n; cases ps) (auto simp: hits_at_def touch_def touch_info_def)

lemma hits_at_new: "hits_at (new_node s f) ps = 0"
  by (cases ps) (simp_all add: hits_at_def new_node_def)

lemma hits_at_Cons: "hits_at (Node i cs) (p # ps) = (case map_of cs p of None \<Rightarrow> 0 | Some c \<Rightarrow> hits_at c ps)"
  by (simp add: hits_at_def split: option.split)

lemma descend_hits:
  assumes "nodes + length segs \<le> max_nodes" and "descend max_nodes v full segs n nodes = (n', nodes')"
  shows "hits_at n' ps = hits_at n ps + (if ps \<noteq> [] \<and> prefix ps segs then 1 else 0) \<and> nodes' \<le> nodes + length segs"
  using assms
proof (induction max_nodes v full segs n nodes arbitrary: n' nodes' ps rule: descend.induct)
  case (1 max_nodes v full node nodes)
  then show ?case by simp
next
  case (2 max_nodes v full seg segs i cs nodes)
  show ?case
  proof (cases "map_of cs seg")
    case (Some child)
    obtain c' where d: "descend max_nodes v (full @ ''/'' @ seg) segs (touch v False child) nodes = (c', nodes')"
      "n' = Node i (AList.update seg c' cs)"
      using 2(4) Some by (auto split: prod.splits)
    have ih: "hits_at c' qs = hits_at child qs + (if prefix qs segs then 1 else 0) \<and> nodes' \<le> nodes + length segs" for qs
      using 2(2) [OF Some _ d(1), of qs] 2(3) by (auto simp: hits_at_touch)
    show ?thesis
    proof (cases ps)
      case Nil
      then show ?thesis using ih [of "[]"] by (simp add: d(2) hits_at_def)
    next
      case (Cons q qs)
      then show ?thesis using ih [of qs] Some by (auto simp: d(2) hits_at_Cons gm_get_put)
    qed
  next
    case None
    have room: "\<not> nodes \<ge> max_nodes" using 2(3) by simp
    obtain c' where d: "descend max_nodes v (full @ ''/'' @ seg) segs
        (touch v False (new_node seg (full @ ''/'' @ seg))) (nodes + 1) = (c', nodes')"
      "n' = Node i (AList.update seg c' cs)"
      using 2(4) None room by (auto split: prod.splits)
    have ih: "hits_at c' qs = (if prefix qs segs then 1 else 0) \<and> nodes' \<le> nodes + 1 + length segs" for qs
      using 2(1) [OF None room _ d(1), of qs] 2(3) by (auto simp: hits_at_touch hits_at_new)
    show ?thesis
    proof (cases ps)
      case Nil
      then show ?thesis using ih [of "[]"] by (simp add: d(2) hits_at_def)
    next
      case (Cons q qs)
      then show ?thesis using ih [of qs] None by (auto simp: d(2) hits_at_Cons gm_get_put)
    qed
  qed
qed

definition segs_of :: "string \<Rightarrow> string list" where
  "segs_of path = split_path (if path = [] then ''/'' else path)"

lemma record_path_hits:
  assumes "sm_nodes sm + length (segs_of path) \<le> max_nodes"
  shows "hits_at (sm_root (record_path max_nodes v path sm)) ps =
      hits_at (sm_root sm) ps + (if ps \<noteq> [] \<and> prefix ps (segs_of path) then 1 else 0)"
    and "sm_nodes (record_path max_nodes v path sm) \<le> sm_nodes sm + length (segs_of path)"
proof -
  obtain n' nodes' where d: "descend max_nodes v [] (segs_of path) (touch v True (sm_root sm)) (sm_nodes sm) = (n', nodes')"
    by fastforce
  have "record_path max_nodes v path sm = sm\<lparr>sm_root := n', sm_nodes := nodes'\<rparr>"
    using d by (simp add: record_path_def segs_of_def)
  with descend_hits [OF assms d, of ps]
  show "hits_at (sm_root (record_path max_nodes v path sm)) ps =
      hits_at (sm_root sm) ps + (if ps \<noteq> [] \<and> prefix ps (segs_of path) then 1 else 0)"
    "sm_nodes (record_path max_nodes v path sm) \<le> sm_nodes sm + length (segs_of path)"
    by (simp_all add: hits_at_touch)
qed

section \<open>The crawl\<close>

definition crawl_inv :: "crawl_opts \<Rightarrow> crawler \<Rightarrow> bool" where
  "crawl_inv opts c \<longleftrightarrow>
     (let ps = cw_fetched c @ cw_queue c in
      distinct (map fst ps) \<and> fst ` set ps \<subseteq> set (cw_seen c) \<and>
      (\<forall>(p, d) \<in> set ps. d \<le> co_max_depth opts \<and> (p = ''/'' \<or> \<not> skip_link p)) \<and>
      length (cw_fetched c) = cw_pages c \<and> cw_pages c \<le> co_max_pages opts)"

definition queue_ok :: "nat \<Rightarrow> (string \<times> nat) list \<Rightarrow> string list \<Rightarrow> bool" where
  "queue_ok lim ps seen \<longleftrightarrow> distinct (map fst ps) \<and> fst ` set ps \<subseteq> set seen \<and>
     (\<forall>(p, d) \<in> set ps. d \<le> lim \<and> (p = ''/'' \<or> \<not> skip_link p))"

lemma crawl_inv_iff: "crawl_inv opts c \<longleftrightarrow> queue_ok (co_max_depth opts) (cw_fetched c @ cw_queue c) (cw_seen c) \<and>
    length (cw_fetched c) = cw_pages c \<and> cw_pages c \<le> co_max_pages opts"
  by (auto simp: crawl_inv_def queue_ok_def Let_def)

lemma queue_ok_snoc:
  assumes "queue_ok lim ps seen" and "p \<notin> set seen" and "d \<le> lim" and "p = ''/'' \<or> \<not> skip_link p"
  shows "queue_ok lim (ps @ [(p, d)]) (p # seen)"
  using assms by (auto simp: queue_ok_def)

lemma follow_links_ok:
  assumes "queue_ok lim (done @ queue) seen" and "depth < lim"
  shows "queue_ok lim (done @ snd (follow_links depth ts seen queue)) (fst (follow_links depth ts seen queue))"
  using assms
proof (induction ts arbitrary: seen queue)
  case (Cons t ts)
  define np where "np = (if t = [] then ''/'' else t)"
  show ?case
  proof (cases "np \<in> set seen \<or> skip_link np")
    case True
    then show ?thesis using Cons by (simp add: Let_def flip: np_def)
  next
    case False
    then have "queue_ok lim (done @ queue @ [(np, depth + 1)]) (np # seen)"
      using queue_ok_snoc [OF Cons.prems(1), of np "depth + 1"] Cons.prems(2) by simp
    from Cons.IH [OF this Cons.prems(2)] False show ?thesis by (simp add: Let_def flip: np_def)
  qed
qed simp

lemma seed_queue_ok:
  assumes "queue_ok lim queue seen" and "\<forall>p \<in> set ps. \<not> skip_link p"
  shows "queue_ok lim (snd (seed_queue ps seen queue)) (fst (seed_queue ps seen queue))"
  using assms
proof (induction ps arbitrary: seen queue)
  case (Cons p ps)
  then show ?case using queue_ok_snoc [OF Cons.prems(1), of p 0] by auto
qed simp

lemma collect_seen_safe: "p \<in> set (collect_seen n) \<Longrightarrow> \<not> skip_link p"
  by (induction n rule: collect_seen.induct) (auto split: if_splits)

lemma crawl_step_inv:
  assumes "crawl_inv opts c" and "cw_queue c \<noteq> []" and "cw_pages c < co_max_pages opts"
  shows "crawl_inv opts (crawl_page_step max_nodes opts now pg c)"
proof -
  obtain path depth rest where q: "cw_queue c = (path, depth) # rest"
    using assms(2) by (cases "cw_queue c") auto
  define c' where "c' = crawl_page_step max_nodes opts now pg c"
  have ok: "queue_ok (co_max_depth opts) ((cw_fetched c @ [(path, depth)]) @ rest) (cw_seen c)"
    and n: "length (cw_fetched c) = cw_pages c"
    using assms(1) q by (simp_all add: crawl_inv_iff)
  have c': "cw_fetched c' = cw_fetched c @ [(path, depth)]" "cw_pages c' = cw_pages c + 1"
    by (simp_all add: c'_def crawl_page_step_def q Let_def split: prod.splits)
  have "queue_ok (co_max_depth opts) (cw_fetched c' @ cw_queue c') (cw_seen c')"
  proof (cases "depth \<ge> co_max_depth opts \<or> \<not> pg_html pg \<or> pg_body_empty pg")
    case True
    then have "cw_queue c' = rest" "cw_seen c' = cw_seen c"
      by (simp_all add: c'_def crawl_page_step_def q Let_def)
    with ok c' show ?thesis by simp
  next
    case False
    then have "cw_queue c' = snd (follow_links depth (pg_targets pg) (cw_seen c) rest)"
      "cw_seen c' = fst (follow_links depth (pg_targets pg) (cw_seen c) rest)"
      by (simp_all add: c'_def crawl_page_step_def q Let_def split: prod.splits)
    with follow_links_ok [OF ok, of depth "pg_targets pg"] False c' show ?thesis by simp
  qed
  with c' n assms(3) show ?thesis by (simp add: crawl_inv_iff flip: c'_def)
qed

lemma crawl_loop_inv:
  "crawl_inv opts c \<Longrightarrow> crawl_inv opts (snd (crawl_loop fetch expired clock max_nodes opts c))"
proof (induction fetch expired clock max_nodes opts c rule: crawl_loop.induct)
  case (1 fetch expired clock max_nodes opts c)
  show ?case
    using 1 crawl_step_inv [OF 1(2)] by (subst crawl_loop.simps) auto
qed

section \<open>Properties\<close>

text \<open>The tree of a site never holds more than the limit of nodes besides its root, and its
  node counter is exact, whatever paths the traffic invents; the same bound holds for every
  site of the store.\<close>

theorem sitemap_bounded:
  assumes "gm_get (sms_by_name (run_machine maps_step es (new_site_maps n))) site = Some sm"
  shows "tree_size (sm_root sm) = Suc (sm_nodes sm) \<and> sm_nodes sm \<le> n"
proof -
  have "maps_ok n (run_machine maps_step es (new_site_maps n))"
    by (rule site_maps_machine.inv_run) (simp add: maps_ok_def new_site_maps_def)
  with assms show ?thesis by (auto simp: maps_ok_def site_map_ok_def dest: gm_all_get)
qed

text \<open>While the paths recorded fit under the limit, the hit count of every node is the
  number of recorded paths that pass through it: the tree is an exact count of prefixes.\<close>

theorem sitemap_hits_exact:
  assumes "sum_list (map (\<lambda>(v, p). length (segs_of p)) visits) \<le> max_nodes" and "ps \<noteq> []"
  shows "hits_at (sm_root (fold (\<lambda>(v, p). record_path max_nodes v p) visits fresh_site_map)) ps =
    length (filter (\<lambda>(v, p). prefix ps (segs_of p)) visits)"
proof -
  have "hits_at (sm_root (fold (\<lambda>(v, p). record_path max_nodes v p) vs sm)) ps =
      hits_at (sm_root sm) ps + length (filter (\<lambda>(v, p). prefix ps (segs_of p)) vs)"
    if "sm_nodes sm + sum_list (map (\<lambda>(v, p). length (segs_of p)) vs) \<le> max_nodes" for vs sm
    using that
  proof (induction vs arbitrary: sm)
    case (Cons vp vs)
    obtain v p where vp: "vp = (v, p)" by (cases vp)
    have room: "sm_nodes sm + length (segs_of p) \<le> max_nodes" using Cons.prems vp by simp
    have "sm_nodes (record_path max_nodes v p sm) + sum_list (map (\<lambda>(v, p). length (segs_of p)) vs) \<le> max_nodes"
      using record_path_hits(2) [OF room, of v] Cons.prems vp by simp
    from Cons.IH [OF this] record_path_hits(1) [OF room, of v ps] assms(2) show ?case by (simp add: vp)
  qed simp
  from this [of fresh_site_map visits] assms(1) show ?thesis
    by (simp add: fresh_site_map_def hits_at_new)
qed

text \<open>C38: A crawl is a polite mapper: it ends, fetches at most the page limit, fetches no path
  twice, none deeper than the depth limit, and apart from the front page none whose name looks
  like a state-changing link, whatever links the backend serves; the site is left with no crawl
  running.\<close>

theorem crawl_polite:
  assumes "c = run_crawl fetch expired clock max_nodes opts has_backend sm"
  shows "length (cw_fetched c) \<le> co_max_pages opts \<and> distinct (map fst (cw_fetched c)) \<and>
    (\<forall>(p, d) \<in> set (cw_fetched c). d \<le> co_max_depth opts \<and> (p = ''/'' \<or> \<not> skip_link p)) \<and>
    \<not> cs_running (sm_crawl (cw_map c))"
proof -
  define seeds where "seeds = seed_queue (seen_get_paths sm) [''/''] [(''/'', 0)]"
  define c0 where "c0 = \<lparr>cw_queue = snd seeds, cw_seen = fst seeds, cw_pages = 0, cw_fetched = [], cw_map = sm\<rparr>"
  have "\<forall>p \<in> set (seen_get_paths sm). \<not> skip_link p" by (simp add: seen_get_paths_def collect_seen_safe)
  moreover have "queue_ok (co_max_depth opts) [(''/'', 0)] [''/'']" by (simp add: queue_ok_def)
  ultimately have "queue_ok (co_max_depth opts) (snd seeds) (fst seeds)"
    unfolding seeds_def by (intro seed_queue_ok)
  then have inv0: "crawl_inv opts c0" by (simp add: crawl_inv_iff c0_def)
  then have inv1: "crawl_inv opts (snd (crawl_loop fetch expired clock max_nodes opts c0))" by (rule crawl_loop_inv)
  have running: "\<not> cs_running (sm_crawl (finish_crawl e t m))" for e t m by (simp add: finish_crawl_def)
  obtain cw where cw: "cw_fetched c = cw_fetched cw" "crawl_inv opts cw" "\<not> cs_running (sm_crawl (cw_map c))"
  proof (cases has_backend)
    case True
    then have "cw_fetched c = cw_fetched (snd (crawl_loop fetch expired clock max_nodes opts c0))"
      "\<not> cs_running (sm_crawl (cw_map c))"
      by (simp_all add: assms run_crawl_def seeds_def c0_def running split: prod.splits)
    then show ?thesis using inv1 that by blast
  next
    case False
    then have "cw_fetched c = cw_fetched c0" "\<not> cs_running (sm_crawl (cw_map c))"
      by (simp_all add: assms run_crawl_def seeds_def c0_def running split: prod.splits)
    then show ?thesis using inv0 that by blast
  qed
  from cw(2) have "length (cw_fetched cw) \<le> co_max_pages opts" "distinct (map fst (cw_fetched cw))"
    "\<forall>(p, d) \<in> set (cw_fetched cw). d \<le> co_max_depth opts \<and> (p = ''/'' \<or> \<not> skip_link p)"
    by (auto simp: crawl_inv_iff queue_ok_def)
  with cw show ?thesis by simp
qed

text \<open>They apply to two requests under one directory.\<close>

definition sample_visit :: visit where
  "sample_visit = \<lparr>vi_method = ''GET'', vi_code = 200, vi_now = 1, vi_source = Observed\<rparr>"

theorem sitemap_bounded_witness:
  "\<exists>sm. gm_get (sms_by_name (run_machine maps_step [Map_record ''s'' sample_visit ''/a/b/c''] (new_site_maps 2))) ''s'' = Some sm \<and>
     tree_size (sm_root sm) = 3 \<and> sm_nodes sm \<le> 2"
proof -
  define sm where "sm = record_path 2 sample_visit ''/a/b/c'' fresh_site_map"
  have g: "gm_get (sms_by_name (run_machine maps_step [Map_record ''s'' sample_visit ''/a/b/c''] (new_site_maps 2))) ''s'' = Some sm"
    by (simp add: maps_record_def new_site_maps_def map_for_site_def sm_def)
  have "tree_size (sm_root sm) = 3"
    by (simp add: sm_def record_path_def fresh_site_map_def new_node_def touch_def split_path_def has_prefix_def)
  with g sitemap_bounded [OF g] show ?thesis by blast
qed

theorem sitemap_hits_exact_witness:
  "hits_at (sm_root (fold (\<lambda>(v, p). record_path 5 v p) [(sample_visit, ''/a/b''), (sample_visit, ''/a'')] fresh_site_map)) [''a''] = 2"
  by (subst sitemap_hits_exact) (simp_all add: segs_of_def split_path_def has_prefix_def)

theorem crawl_polite_witness:
  "length (cw_fetched (run_crawl (\<lambda>p. \<lparr>pg_code = 200, pg_html = True, pg_html_any_case = True, pg_body_empty = False,
      pg_forms = 0, pg_fields = 0, pg_targets = [p @ ''a'', p @ ''b'', ''/logout'']\<rparr>) (\<lambda>_. False) int 10
      \<lparr>co_max_pages = 3, co_max_depth = 2\<rparr> True fresh_site_map)) \<le> 3"
  using crawl_polite [OF refl, of "\<lambda>p. \<lparr>pg_code = 200, pg_html = True, pg_html_any_case = True, pg_body_empty = False,
      pg_forms = 0, pg_fields = 0, pg_targets = [p @ ''a'', p @ ''b'', ''/logout'']\<rparr>" "\<lambda>_. False" int 10
      "\<lparr>co_max_pages = 3, co_max_depth = 2\<rparr>" True fresh_site_map] by simp

end
