(* ===== verification/Learner.thy ===== *)
theory Learner
  imports Go_Map Float64
begin

text \<open>
  \<^verbatim>\<open>learn.go\<close>: the policy learner. Per site and path it counts requests and, for
  every rule that fires, matches and distinct clients; the recommendations are computed from
  those counts. A client set is a list without repetitions; counters are natural numbers
  (int64 in the code, one step per request). The share of traffic is compared in float64, as the
  code does: 0.15 is the nearest float and the product is rounded.
\<close>

definition learn_max_paths :: nat where "learn_max_paths = 2000"
definition learn_max_clients :: nat where "learn_max_clients = 64"

record rule_agg =
  ra_count :: nat
  ra_clients :: "string list"
  ra_severity :: string

record path_agg =
  pa_hits :: nat
  pa_blocked :: nat
  pa_ok2xx :: nat
  pa_rules :: "(int, rule_agg) gomap"
  pa_last_seen :: gtime

type_synonym site_learn = "(string, path_agg) gomap"
type_synonym learn_store = "(string, site_learn) gomap"

section \<open>Operations\<close>

definition learn_for_site :: "string \<Rightarrow> learn_store \<Rightarrow> site_learn" where
  "learn_for_site site l = (case gm_get l site of Some sl \<Rightarrow> sl | None \<Rightarrow> [])"

definition new_path_agg :: path_agg where
  "new_path_agg = \<lparr>pa_hits = 0, pa_blocked = 0, pa_ok2xx = 0, pa_rules = [], pa_last_seen = 0\<rparr>"

definition learn_key :: "string \<Rightarrow> string" where
  "learn_key p = (if p = [] then ''/'' else p)"

definition learn_path :: "string \<Rightarrow> site_learn \<Rightarrow> path_agg option" where
  "learn_path p sl =
     (case gm_get sl (learn_key p) of
        Some pa \<Rightarrow> Some pa
      | None \<Rightarrow> if length sl \<ge> learn_max_paths then None else Some new_path_agg)"

definition count_request :: "int \<Rightarrow> gtime \<Rightarrow> path_agg \<Rightarrow> path_agg" where
  "count_request code now pa = pa\<lparr>
     pa_hits := pa_hits pa + 1, pa_last_seen := now,
     pa_blocked := (if code = 403 then pa_blocked pa + 1 else pa_blocked pa),
     pa_ok2xx := (if code \<noteq> 403 \<and> 200 \<le> code \<and> code < 300 then pa_ok2xx pa + 1 else pa_ok2xx pa)\<rparr>"

definition count_match :: "int \<Rightarrow> string \<Rightarrow> string \<Rightarrow> path_agg \<Rightarrow> path_agg" where
  "count_match rule client sev pa =
     (let ra = (case gm_get (pa_rules pa) rule of
            Some ra \<Rightarrow> ra | None \<Rightarrow> \<lparr>ra_count = 0, ra_clients = [], ra_severity = sev\<rparr>);
          ra = ra\<lparr>ra_count := ra_count ra + 1,
            ra_clients := (if length (ra_clients ra) < learn_max_clients
              then List.insert client (ra_clients ra) else ra_clients ra)\<rparr>
      in pa\<lparr>pa_rules := gm_put rule ra (pa_rules pa)\<rparr>)"

definition learn_update :: "string \<Rightarrow> string \<Rightarrow> (path_agg \<Rightarrow> path_agg) \<Rightarrow> learn_store \<Rightarrow> learn_store" where
  "learn_update site path f l =
     (let sl = learn_for_site site l in
      case learn_path path sl of
        None \<Rightarrow> gm_put site sl l
      | Some pa \<Rightarrow> gm_put site (gm_put (learn_key path) (f pa) sl) l)"

definition note_request :: "string \<Rightarrow> string \<Rightarrow> int \<Rightarrow> gtime \<Rightarrow> learn_store \<Rightarrow> learn_store" where
  "note_request site path code now l = learn_update site path (count_request code now) l"

definition note_match :: "string \<Rightarrow> string \<Rightarrow> int \<Rightarrow> string \<Rightarrow> string \<Rightarrow> learn_store \<Rightarrow> learn_store" where
  "note_match site uri rule client sev l = learn_update site uri (count_match rule client sev) l"

definition learn_clear :: "string \<Rightarrow> learn_store \<Rightarrow> learn_store" where
  "learn_clear site l = gm_del site l"

section \<open>Recommendations\<close>

datatype rule_kind = Likely_fp | Attack | Noise
datatype page_risk = Benign | Normal | Elevated | Hostile

definition fifteen_percent :: rat where
  "fifteen_percent = f64 (15 / 100)"

definition classify_rule :: "rule_agg \<Rightarrow> nat \<Rightarrow> rule_kind" where
  "classify_rule ra hits =
     (let clients = length (ra_clients ra) in
      if clients \<ge> 3 \<and> hits > 0 \<and> f64 (of_nat (ra_count ra)) \<ge> f64 (fifteen_percent * f64 (of_nat hits))
      then Likely_fp
      else if clients \<le> 2 \<and> ra_count ra \<ge> 3 then Attack
      else Noise)"

record rule_finding =
  rf_rule_id :: int
  rf_count :: nat
  rf_clients :: nat
  rf_severity :: string
  rf_kind :: rule_kind

record page_recommendation =
  pr_path :: string
  pr_hits :: nat
  pr_blocked :: nat
  pr_risk :: page_risk
  pr_findings :: "rule_finding list"
  pr_exclusions :: "int list"

record site_recommendation =
  sre_site :: string
  sre_pages :: "page_recommendation list"
  sre_paranoia :: nat

definition page_findings :: "path_agg \<Rightarrow> rule_finding list" where
  "page_findings pa = map (\<lambda>(rule, ra). \<lparr>rf_rule_id = rule, rf_count = ra_count ra,
     rf_clients = length (ra_clients ra), rf_severity = ra_severity ra,
     rf_kind = classify_rule ra (pa_hits pa)\<rparr>) (pa_rules pa)"

definition page_risk_of :: "bool \<Rightarrow> bool \<Rightarrow> page_risk" where
  "page_risk_of has_attack has_fp =
     (if has_attack \<and> has_fp then Elevated else if has_attack then Hostile
      else if has_fp then Benign else Normal)"

definition recommend_page :: "string \<Rightarrow> path_agg \<Rightarrow> page_recommendation" where
  "recommend_page path pa =
     (let fs = page_findings pa;
          fps = filter (\<lambda>f. rf_kind f = Likely_fp) fs;
          attacks = filter (\<lambda>f. rf_kind f = Attack) fs
      in \<lparr>pr_path = path, pr_hits = pa_hits pa, pr_blocked = pa_blocked pa,
          pr_risk = page_risk_of (attacks \<noteq> []) (fps \<noteq> []),
          pr_findings = sort_by (\<lambda>a b. rf_count a > rf_count b) fs,
          pr_exclusions = sort_by (<) (map rf_rule_id fps)\<rparr>)"

definition risk_rank :: "page_risk \<Rightarrow> nat" where
  "risk_rank r = (case r of Hostile \<Rightarrow> 3 | Elevated \<Rightarrow> 2 | Benign \<Rightarrow> 1 | Normal \<Rightarrow> 0)"

definition riskier :: "page_recommendation \<Rightarrow> page_recommendation \<Rightarrow> bool" where
  "riskier a b \<longleftrightarrow> (if risk_rank (pr_risk a) \<noteq> risk_rank (pr_risk b)
     then risk_rank (pr_risk a) > risk_rank (pr_risk b) else pr_hits a > pr_hits b)"

definition recommend_pages :: "site_learn \<Rightarrow> page_recommendation list" where
  "recommend_pages sl = map (\<lambda>(p, pa). recommend_page p pa) (filter (\<lambda>(p, pa). pa_rules pa \<noteq> []) sl)"

definition suggest_paranoia :: "page_recommendation list \<Rightarrow> nat" where
  "suggest_paranoia pages =
     (let attack_pages = length (filter (\<lambda>r. pr_risk r = Elevated \<or> pr_risk r = Hostile) pages);
          fp_only_pages = length (filter (\<lambda>r. pr_risk r = Benign) pages)
      in if attack_pages \<ge> 3 then 3 else if attack_pages \<ge> 1 then 2
         else if fp_only_pages \<ge> 1 then 1 else 0)"

definition recommend :: "string \<Rightarrow> learn_store \<Rightarrow> site_recommendation" where
  "recommend site l =
     (let pages = recommend_pages (learn_for_site site l)
      in \<lparr>sre_site = site, sre_pages = sort_by riskier pages, sre_paranoia = suggest_paranoia pages\<rparr>)"

section \<open>What the store holds\<close>

datatype learn_event =
    Learn_request string string int gtime
  | Learn_match string string int string string
  | Learn_clear string

fun learn_step :: "learn_event \<Rightarrow> learn_store \<Rightarrow> learn_store" where
  "learn_step (Learn_request site path code now) l = note_request site path code now l"
| "learn_step (Learn_match site uri rule client sev) l = note_match site uri rule client sev l"
| "learn_step (Learn_clear site) l = learn_clear site l"

text \<open>The matches of a run that a rule on a path can have counted.\<close>

definition matched_by :: "learn_event list \<Rightarrow> string \<Rightarrow> string \<Rightarrow> int \<Rightarrow> string set" where
  "matched_by es site path rule =
     {client. \<exists>uri sev. Learn_match site uri rule client sev \<in> set es \<and> learn_key uri = path}"

definition rule_ok :: "string set \<Rightarrow> rule_agg \<Rightarrow> bool" where
  "rule_ok who ra \<longleftrightarrow> distinct (ra_clients ra) \<and> set (ra_clients ra) \<subseteq> who \<and>
     length (ra_clients ra) \<le> learn_max_clients"

definition path_ok :: "(int \<Rightarrow> string set) \<Rightarrow> path_agg \<Rightarrow> bool" where
  "path_ok who pa \<longleftrightarrow> gm_ok (pa_rules pa) \<and> gm_all (\<lambda>rule ra. rule_ok (who rule) ra) (pa_rules pa)"

definition site_ok :: "(string \<Rightarrow> int \<Rightarrow> string set) \<Rightarrow> site_learn \<Rightarrow> bool" where
  "site_ok who sl \<longleftrightarrow> gm_ok sl \<and> length sl \<le> learn_max_paths \<and> gm_all (\<lambda>path pa. path_ok (who path) pa) sl"

definition learn_ok :: "(string \<Rightarrow> string \<Rightarrow> int \<Rightarrow> string set) \<Rightarrow> learn_store \<Rightarrow> bool" where
  "learn_ok who l \<longleftrightarrow> gm_ok l \<and> gm_all (\<lambda>site sl. site_ok (who site) sl) l"

lemma learn_ok_mono:
  assumes "learn_ok who l" and "\<And>site path rule. who site path rule \<subseteq> who' site path rule"
  shows "learn_ok who' l"
proof -
  have r: "rule_ok (who site path rule) ra \<Longrightarrow> rule_ok (who' site path rule) ra" for site path rule ra
    using assms(2) [of site path rule] by (auto simp: rule_ok_def)
  have p: "path_ok (who site path) pa \<Longrightarrow> path_ok (who' site path) pa" for site path pa
    using r by (auto simp: path_ok_def gm_all_def)
  have s: "site_ok (who site) sl \<Longrightarrow> site_ok (who' site) sl" for site sl
    using p by (auto simp: site_ok_def gm_all_def)
  show ?thesis using assms(1) s by (auto simp: learn_ok_def gm_all_def)
qed

lemma learn_update_ok:
  assumes "learn_ok who l" and "\<And>pa. path_ok (who site (learn_key path)) pa \<Longrightarrow> path_ok (who site (learn_key path)) (f pa)"
  shows "learn_ok who (learn_update site path f l)"
proof -
  define sl where "sl = learn_for_site site l"
  have sl: "site_ok (who site) sl"
    using assms(1) by (auto simp: sl_def learn_for_site_def learn_ok_def site_ok_def dest: gm_all_get split: option.split)
  show ?thesis
  proof (cases "learn_path path sl")
    case None
    with assms(1) sl show ?thesis by (auto simp: learn_update_def learn_ok_def simp flip: sl_def)
  next
    case (Some pa)
    have "path_ok (who site (learn_key path)) pa"
      using Some sl by (auto simp: learn_path_def site_ok_def path_ok_def new_path_agg_def dest: gm_all_get split: option.splits if_splits)
    then have "path_ok (who site (learn_key path)) (f pa)" by (rule assms(2))
    then have "site_ok (who site) (gm_put (learn_key path) (f pa) sl)"
      using Some sl by (auto simp: site_ok_def learn_path_def length_gm_put gm_has_def split: option.splits if_splits)
    with assms(1) Some show ?thesis by (auto simp: learn_update_def learn_ok_def simp flip: sl_def)
  qed
qed

lemma count_match_ok:
  assumes "path_ok who pa" and "client \<in> who rule"
  shows "path_ok who (count_match rule client sev pa)"
proof -
  define ra where "ra = (case gm_get (pa_rules pa) rule of
    Some ra \<Rightarrow> ra | None \<Rightarrow> \<lparr>ra_count = 0, ra_clients = [], ra_severity = sev\<rparr>)"
  have "rule_ok (who rule) ra"
    using assms(1) by (auto simp: ra_def path_ok_def rule_ok_def dest: gm_all_get split: option.split)
  then have "rule_ok (who rule) (ra\<lparr>ra_count := ra_count ra + 1, ra_clients := (if length (ra_clients ra) < learn_max_clients
      then List.insert client (ra_clients ra) else ra_clients ra)\<rparr>)"
    using assms(2) by (auto simp: rule_ok_def List.insert_def)
  with assms(1) show ?thesis
    by (auto simp: count_match_def path_ok_def Let_def simp flip: ra_def)
qed

lemma learn_ok_step:
  assumes "learn_ok (matched_by es) l" shows "learn_ok (matched_by (e # es)) (learn_step e l)"
proof -
  have ok: "learn_ok (matched_by (e # es)) l"
    using assms by (rule learn_ok_mono) (auto simp: matched_by_def)
  show ?thesis
  proof (cases e)
    case (Learn_request site path code now)
    have "path_ok who pa \<Longrightarrow> path_ok who (count_request code now pa)" for who pa
      by (simp add: path_ok_def count_request_def)
    with ok Learn_request show ?thesis by (simp add: note_request_def learn_update_ok)
  next
    case (Learn_match site uri rule client sev)
    have "client \<in> matched_by (e # es) site (learn_key uri) rule"
      by (auto simp: matched_by_def Learn_match)
    with ok Learn_match show ?thesis
      by (simp add: note_match_def learn_update_ok count_match_ok)
  next
    case (Learn_clear site)
    with ok show ?thesis by (auto simp: learn_clear_def learn_ok_def)
  qed
qed

lemma learn_ok_run:
  assumes "learn_ok (matched_by es) l"
  shows "learn_ok (matched_by (rev es' @ es)) (run_machine learn_step es' l)"
  using assms
proof (induction es' arbitrary: l es)
  case (Cons e es')
  from Cons.IH [OF learn_ok_step [OF Cons.prems, of e]] show ?case by simp
qed simp

lemma matched_by_rev [simp]: "matched_by (rev es) = matched_by es"
  by (simp add: matched_by_def fun_eq_iff)

lemma learn_ok_from_new: "learn_ok (matched_by es) (run_machine learn_step es [])"
  using learn_ok_run [of "[]" "[]" es] by (simp add: learn_ok_def)

section \<open>Properties\<close>

text \<open>The learner's memory is bounded: at most the limit of paths per site and of clients per
  rule, whatever paths and clients the traffic invents.\<close>

theorem learner_bounded:
  assumes "gm_get (run_machine learn_step es []) site = Some sl"
  shows "length sl \<le> learn_max_paths \<and>
    (\<forall>path pa rule ra. gm_get sl path = Some pa \<longrightarrow> gm_get (pa_rules pa) rule = Some ra \<longrightarrow>
       length (ra_clients ra) \<le> learn_max_clients)"
proof -
  have "site_ok (matched_by es site) sl"
    using learn_ok_from_new [of es] assms by (auto simp: learn_ok_def dest: gm_all_get)
  then show ?thesis
    by (auto simp: site_ok_def path_ok_def rule_ok_def dest!: gm_all_get)
qed

text \<open>C39: A rule exception is never suggested on thin evidence: every rule in the suggested
  exclusions of a page was matched on that page by at least three different clients, the page
  has seen requests, and no exclusion is suggested on a page rated hostile.\<close>

theorem exclusion_needs_three_clients:
  assumes "rec \<in> set (sre_pages (recommend site (run_machine learn_step es [])))"
    and "rule \<in> set (pr_exclusions rec)"
  shows "\<exists>clients \<subseteq> matched_by es site (pr_path rec) rule. card clients \<ge> 3 \<and> pr_hits rec > 0 \<and> pr_risk rec \<noteq> Hostile"
proof -
  define sl where "sl = learn_for_site site (run_machine learn_step es [])"
  have sl: "site_ok (matched_by es site) sl"
    using learn_ok_from_new [of es]
    by (auto simp: sl_def learn_for_site_def learn_ok_def site_ok_def dest: gm_all_get split: option.split)
  obtain path pa where pa: "(path, pa) \<in> set sl" "rec = recommend_page path pa"
    using assms(1) by (auto simp: recommend_def recommend_pages_def Let_def simp flip: sl_def)
  obtain ra where ra: "(rule, ra) \<in> set (pa_rules pa)" "classify_rule ra (pa_hits pa) = Likely_fp"
    using assms(2) by (auto simp: pa(2) recommend_page_def page_findings_def Let_def)
  have "rule_ok (matched_by es site path rule) ra"
    using sl pa(1) ra(1) by (force simp: site_ok_def path_ok_def gm_all_def)
  moreover have "3 \<le> length (ra_clients ra)" "0 < pa_hits pa"
    using ra(2) by (auto simp: classify_rule_def Let_def split: if_splits)
  moreover have "pr_risk rec \<noteq> Hostile"
  proof -
    have "\<exists>f \<in> set (page_findings pa). rf_kind f = Likely_fp"
      using ra by (force simp: page_findings_def)
    then have "filter (\<lambda>f. rf_kind f = Likely_fp) (page_findings pa) \<noteq> []" by (auto simp: filter_empty_conv)
    then show ?thesis by (simp add: pa(2) recommend_page_def page_risk_of_def Let_def)
  qed
  moreover have "pr_path rec = path" "pr_hits rec = pa_hits pa"
    by (simp_all add: pa(2) recommend_page_def Let_def)
  ultimately show ?thesis
    by (intro exI [of _ "set (ra_clients ra)"]) (auto simp: rule_ok_def distinct_card)
qed

text \<open>The paranoia suggested for a site is 3 with at least three pages under attack, 2 with
  at least one, 1 when there are only pages with false positives and 0 without findings; and the
  pages are listed by falling risk, by falling traffic within one risk.\<close>

theorem recommend_ranked:
  "sorted_wrt (\<lambda>a b. risk_rank (pr_risk a) > risk_rank (pr_risk b) \<or>
      (risk_rank (pr_risk a) = risk_rank (pr_risk b) \<and> pr_hits a \<ge> pr_hits b)) (sre_pages (recommend site l)) \<and>
   sre_paranoia (recommend site l) =
     (let attacked = length (filter (\<lambda>r. risk_rank (pr_risk r) \<ge> 2) (sre_pages (recommend site l))) in
      if attacked \<ge> 3 then 3 else if attacked > 0 then 2
      else if \<exists>r \<in> set (sre_pages (recommend site l)). pr_risk r = Benign then 1 else 0)"
proof -
  define pages where "pages = recommend_pages (learn_for_site site l)"
  have s: "sorted_wrt (\<lambda>a b. \<not> riskier b a) (sort_by riskier pages)"
    by (rule sorted_sort_by) (auto simp: riskier_def split: if_splits)
  have len: "length (filter p (insert_by riskier x xs)) = length (filter p (x # xs))" for p x xs
    by (induction xs) auto
  have count: "length (filter p (sort_by riskier xs)) = length (filter p xs)" for p xs
    by (induction xs) (auto simp: sort_by_Cons len)
  define attacked where "attacked = length (filter (\<lambda>r. risk_rank (pr_risk r) \<ge> 2) pages)"
  have att: "length (filter (\<lambda>r. pr_risk r = Elevated \<or> pr_risk r = Hostile) pages) = attacked"
    unfolding attacked_def
    by (intro arg_cong [where f = length] filter_cong) (auto simp: risk_rank_def split: page_risk.splits)
  have fp: "length (filter (\<lambda>r. pr_risk r = Benign) pages) \<ge> 1 \<longleftrightarrow> (\<exists>r \<in> set pages. pr_risk r = Benign)"
    by (auto simp: Suc_le_eq filter_empty_conv)
  have "suggest_paranoia pages = (let attacked = length (filter (\<lambda>r. risk_rank (pr_risk r) \<ge> 2) (sort_by riskier pages)) in
      if attacked \<ge> 3 then 3 else if attacked > 0 then 2
      else if \<exists>r \<in> set (sort_by riskier pages). pr_risk r = Benign then 1 else 0)"
    unfolding suggest_paranoia_def Let_def count att fp set_sort_by attacked_def [symmetric] by auto
  moreover have "sorted_wrt (\<lambda>a b. risk_rank (pr_risk a) > risk_rank (pr_risk b) \<or>
      (risk_rank (pr_risk a) = risk_rank (pr_risk b) \<and> pr_hits a \<ge> pr_hits b)) (sort_by riskier pages)"
    using s by (rule sorted_wrt_mono_rel [rotated]) (auto simp: riskier_def split: if_splits)
  ultimately show ?thesis by (simp add: recommend_def Let_def flip: pages_def)
qed

text \<open>They apply to a rule that three clients triggered on a page with three requests.\<close>

definition sample_learning :: "learn_event list" where
  "sample_learning = [Learn_request ''s'' ''/a'' 200 1, Learn_match ''s'' ''/a'' 942100 ''c1'' ''high'',
     Learn_match ''s'' ''/a'' 942100 ''c2'' ''high'', Learn_match ''s'' ''/a'' 942100 ''c3'' ''high'']"

lemma sample_learned: "run_machine learn_step sample_learning [] =
    [(''s'', [(''/a'', \<lparr>pa_hits = 1, pa_blocked = 0, pa_ok2xx = 1, pa_rules =
        [(942100, \<lparr>ra_count = 3, ra_clients = [''c3'', ''c2'', ''c1''], ra_severity = ''high''\<rparr>)], pa_last_seen = 1\<rparr>)])]"
  by (simp add: sample_learning_def note_request_def note_match_def learn_update_def learn_for_site_def
      learn_path_def learn_key_def learn_max_paths_def new_path_agg_def count_request_def count_match_def
      learn_max_clients_def)

theorem learner_bounded_witness:
  "\<exists>sl. gm_get (run_machine learn_step sample_learning []) ''s'' = Some sl \<and> length sl \<le> learn_max_paths"
proof -
  obtain sl where g: "gm_get (run_machine learn_step sample_learning []) ''s'' = Some sl"
    unfolding sample_learned by simp
  with learner_bounded [OF g] show ?thesis by blast
qed

theorem exclusion_needs_three_clients_witness:
  "\<exists>clients \<subseteq> matched_by sample_learning ''s'' ''/a'' 942100. card clients \<ge> 3"
proof -
  define ra where "ra = \<lparr>ra_count = 3, ra_clients = [''c3'', ''c2'', ''c1''], ra_severity = ''high''\<rparr>"
  define pa where "pa = \<lparr>pa_hits = 1, pa_blocked = 0, pa_ok2xx = 1, pa_rules = [(942100, ra)], pa_last_seen = 1\<rparr>"
  have st: "run_machine learn_step sample_learning [] = [(''s'', [(''/a'', pa)])]"
    unfolding sample_learned pa_def ra_def ..
  have one: "f64 1 = 1" "f64 3 = 3" using f64_of_nat [of 1] f64_of_nat [of 3] by simp_all
  have "fifteen_percent \<le> 1"
    unfolding fifteen_percent_def using f64_le_of_nat [of "15 / 100" 1] by simp
  then have "f64 (fifteen_percent * 1) \<le> 1" using f64_le_of_nat [of fifteen_percent 1] by simp
  then have k: "classify_rule ra (pa_hits pa) = Likely_fp"
    by (simp add: classify_rule_def ra_def pa_def one)
  have r: "recommend_page ''/a'' pa \<in> set (sre_pages (recommend ''s'' (run_machine learn_step sample_learning [])))"
    unfolding st by (simp add: recommend_def recommend_pages_def learn_for_site_def Let_def pa_def)
  have "page_findings pa = [\<lparr>rf_rule_id = 942100, rf_count = 3, rf_clients = 3, rf_severity = ''high'', rf_kind = Likely_fp\<rparr>]"
    using k by (simp add: page_findings_def pa_def ra_def)
  then have "942100 \<in> set (pr_exclusions (recommend_page ''/a'' pa))" "pr_path (recommend_page ''/a'' pa) = ''/a''"
    by (simp_all add: recommend_page_def)
  from exclusion_needs_three_clients [OF r this(1)] this(2) show ?thesis by auto
qed

theorem recommend_ranked_witness: "sre_paranoia (recommend ''s'' []) = 0"
  using recommend_ranked [of "''s''" "[]"] by (simp add: recommend_def recommend_pages_def learn_for_site_def)

end
