(* ===== verification/Sequence_State.thy ===== *)
theory Sequence_State
  imports Go_Time Float64 Telemetry_Queue
begin

text \<open>
  The state of the API sequence engine (\<^verbatim>\<open>sequence_api61.go\<close> to
  \<^verbatim>\<open>sequence_api64.go\<close>): request-flow sessions, the edges between operations,
  the learned workflows, the violations found, the operators' exceptions and site controls.
  The maps of the store are Go maps; the workflow pointers are never nil.

  \<open>seq_env\<close> holds what the engine calls and does not define: the keyed digest
  (HMAC-SHA256, truncated, in hexadecimal), the plain one (SHA-256), the RFC 3339 text of a
  time, and \<^verbatim>\<open>math.Pow\<close>, whose rounding Go leaves open. The theorems hold for
  every such environment; where the length of a digest matters it is a hypothesis.
\<close>

record seq_env =
  se_digest :: "string \<Rightarrow> string"
  se_hash :: "string \<Rightarrow> string"
  se_time_text :: "gtime \<Rightarrow> string"
  se_pow :: "rat \<Rightarrow> rat \<Rightarrow> rat"

section \<open>Types\<close>

record seq_session =
  ss_key :: string
  ss_site :: string
  ss_correlation_kind :: string
  ss_workflow_id :: string
  ss_current_op :: string
  ss_entry_op :: string
  ss_recent_ops :: "string list"
  ss_seen_transitions :: "string list"
  ss_request_count :: u64
  ss_workflow_depth :: u64
  ss_started_at :: gtime
  ss_last_seen :: gtime
  ss_expires_at :: gtime
  ss_absolute_expires_at :: gtime

datatype maturity = Learning | Mature | Stale

record seq_transition =
  st_id :: string
  st_site :: string
  st_workflow_id :: string
  st_from :: string
  st_to :: string
  st_count :: u64
  st_observations :: u64
  st_sessions :: u64
  st_first_seen :: gtime
  st_last_seen :: gtime
  st_expires_at :: gtime
  st_confidence :: rat
  st_maturity :: maturity

record seq_workflow =
  sw_id :: string
  sw_site :: string
  sw_identity_kind :: string
  sw_observations :: u64
  sw_sessions :: u64
  sw_first_seen :: gtime
  sw_last_seen :: gtime
  sw_max_depth :: u64
  sw_entry_ops :: "(string, u64) gomap"
  sw_terminal_ops :: "(string, u64) gomap"

record seq_violation =
  sv_id :: string
  sv_time :: gtime
  sv_type :: string
  sv_site :: string
  sv_workflow_id :: string
  sv_session :: string
  sv_identity_kind :: string
  sv_from :: string
  sv_to :: string
  sv_related :: string
  sv_maturity :: maturity
  sv_transition_confidence :: rat
  sv_expected_confidence :: rat
  sv_deviation :: rat
  sv_run_length :: u64
  sv_evidence_observations :: u64
  sv_evidence_sessions :: u64
  sv_expires_at :: gtime

record seq_exception =
  sx_id :: string
  sx_site :: string
  sx_workflow_id :: string
  sx_type :: string
  sx_from :: string
  sx_to :: string
  sx_related :: string
  sx_enabled :: bool
  sx_expires_at :: gtime

record seq_control =
  sc_site :: string
  sc_mode :: string
  sc_generation :: u64
  sc_updated_at :: gtime

record seq_recent =
  sr_fingerprint :: string
  sr_site :: string
  sr_workflow_id :: string
  sr_correlation_kind :: string
  sr_entry_op :: string
  sr_terminal_op :: string
  sr_request_count :: u64
  sr_started_at :: gtime
  sr_ended_at :: gtime
  sr_expires_at :: gtime

record seq_observation =
  so_session_key :: string
  so_site :: string
  so_correlation_kind :: string
  so_workflow_id :: string
  so_identity_kind :: string
  so_operation_id :: string
  so_at :: gtime

record seq_settings =
  cfg_session_ttl :: duration
  cfg_session_absolute_ttl :: duration
  cfg_transition_ttl :: duration
  cfg_workflow_ttl :: duration
  cfg_stale_after :: duration
  cfg_max_sessions :: int
  cfg_max_transitions :: int
  cfg_max_workflows :: int
  cfg_max_workflow_ops :: int
  cfg_max_recent_ops :: int
  cfg_max_seen_transitions :: int
  cfg_min_observations :: u64
  cfg_min_sessions :: u64
  cfg_min_learning :: duration
  cfg_confidence :: rat
  cfg_queue_capacity :: int
  cfg_violation_ttl :: duration
  cfg_max_violations :: int
  cfg_max_exceptions :: int
  cfg_entry_confidence :: rat
  cfg_divergence_expected :: rat
  cfg_divergence_observed :: rat
  cfg_repetition_tail :: rat
  cfg_repetition_run :: u64
  cfg_recent_ttl :: duration
  cfg_max_recent_sessions :: int

record seq_state =
  sq_sessions :: "(string, seq_session) gomap"
  sq_transitions :: "(string, seq_transition) gomap"
  sq_workflows :: "(string, seq_workflow) gomap"
  sq_violations :: "seq_violation list"
  sq_exceptions :: "(string, seq_exception) gomap"
  sq_recent :: "seq_recent list"
  sq_controls :: "(string, seq_control) gomap"
  sq_processed :: u64
  sq_evicted_sessions :: u64
  sq_evicted_transitions :: u64
  sq_evicted_workflows :: u64
  sq_evicted_violations :: u64
  sq_evicted_recent :: u64

section \<open>Settings\<close>

definition default_settings :: seq_settings where
  "default_settings = \<lparr>
     cfg_session_ttl = 30 * minute, cfg_session_absolute_ttl = 8 * hour,
     cfg_transition_ttl = 24 * hour, cfg_workflow_ttl = 7 * 24 * hour, cfg_stale_after = 6 * hour,
     cfg_max_sessions = 4096, cfg_max_transitions = 8192, cfg_max_workflows = 512,
     cfg_max_workflow_ops = 256, cfg_max_recent_ops = 32, cfg_max_seen_transitions = 128,
     cfg_min_observations = 20, cfg_min_sessions = 5, cfg_min_learning = 15 * minute,
     cfg_confidence = f64 (5 / 100), cfg_queue_capacity = 4096,
     cfg_violation_ttl = 7 * 24 * hour, cfg_max_violations = 2048, cfg_max_exceptions = 256,
     cfg_entry_confidence = f64 (50 / 100), cfg_divergence_expected = f64 (75 / 100),
     cfg_divergence_observed = f64 (1 / 100), cfg_repetition_tail = f64 (1 / 100),
     cfg_repetition_run = 3, cfg_recent_ttl = 24 * hour, cfg_max_recent_sessions = 1024\<rparr>"

definition or_default :: "int \<Rightarrow> int \<Rightarrow> int" where
  "or_default v d = (if v \<le> 0 then d else v)"

definition or_default_count :: "u64 \<Rightarrow> u64 \<Rightarrow> u64" where
  "or_default_count v d = (if v = 0 then d else v)"

definition or_default_share :: "rat \<Rightarrow> rat \<Rightarrow> rat" where
  "or_default_share v d = (if v \<le> 0 \<or> v > 1 then d else v)"

text \<open>The settings a store is built with: every value out of range takes its default.\<close>

definition normalize_settings :: "seq_settings \<Rightarrow> seq_settings" where
  "normalize_settings c = (let d = default_settings in \<lparr>
     cfg_session_ttl = or_default (cfg_session_ttl c) (cfg_session_ttl d),
     cfg_session_absolute_ttl = or_default (cfg_session_absolute_ttl c) (cfg_session_absolute_ttl d),
     cfg_transition_ttl = or_default (cfg_transition_ttl c) (cfg_transition_ttl d),
     cfg_workflow_ttl = or_default (cfg_workflow_ttl c) (cfg_workflow_ttl d),
     cfg_stale_after = or_default (cfg_stale_after c) (cfg_stale_after d),
     cfg_max_sessions = or_default (cfg_max_sessions c) (cfg_max_sessions d),
     cfg_max_transitions = or_default (cfg_max_transitions c) (cfg_max_transitions d),
     cfg_max_workflows = or_default (cfg_max_workflows c) (cfg_max_workflows d),
     cfg_max_workflow_ops = or_default (cfg_max_workflow_ops c) (cfg_max_workflow_ops d),
     cfg_max_recent_ops = or_default (cfg_max_recent_ops c) (cfg_max_recent_ops d),
     cfg_max_seen_transitions = or_default (cfg_max_seen_transitions c) (cfg_max_seen_transitions d),
     cfg_min_observations = or_default_count (cfg_min_observations c) (cfg_min_observations d),
     cfg_min_sessions = or_default_count (cfg_min_sessions c) (cfg_min_sessions d),
     cfg_min_learning = or_default (cfg_min_learning c) (cfg_min_learning d),
     cfg_confidence = or_default_share (cfg_confidence c) (cfg_confidence d),
     cfg_queue_capacity = or_default (cfg_queue_capacity c) (cfg_queue_capacity d),
     cfg_violation_ttl = or_default (cfg_violation_ttl c) (cfg_violation_ttl d),
     cfg_max_violations = or_default (cfg_max_violations c) (cfg_max_violations d),
     cfg_max_exceptions = or_default (cfg_max_exceptions c) (cfg_max_exceptions d),
     cfg_entry_confidence = or_default_share (cfg_entry_confidence c) (cfg_entry_confidence d),
     cfg_divergence_expected = or_default_share (cfg_divergence_expected c) (cfg_divergence_expected d),
     cfg_divergence_observed = (if cfg_divergence_observed c < 0 \<or> cfg_divergence_observed c > 1
       then cfg_divergence_observed d else cfg_divergence_observed c),
     cfg_repetition_tail = (if cfg_repetition_tail c \<le> 0 \<or> cfg_repetition_tail c \<ge> 1
       then cfg_repetition_tail d else cfg_repetition_tail c),
     cfg_repetition_run = (if cfg_repetition_run c < 2 then cfg_repetition_run d else cfg_repetition_run c),
     cfg_recent_ttl = or_default (cfg_recent_ttl c) (cfg_recent_ttl d),
     cfg_max_recent_sessions = or_default (cfg_max_recent_sessions c) (cfg_max_recent_sessions d)\<rparr>)"

definition limits_ok :: "seq_settings \<Rightarrow> bool" where
  "limits_ok c \<longleftrightarrow> cfg_max_sessions c > 0 \<and> cfg_max_transitions c > 0 \<and> cfg_max_workflows c > 0 \<and>
     cfg_max_workflow_ops c > 0 \<and> cfg_max_recent_ops c > 0 \<and> cfg_max_seen_transitions c > 0 \<and>
     cfg_max_violations c > 0 \<and> cfg_max_exceptions c > 0 \<and> cfg_max_recent_sessions c > 0"

lemma limits_ok_normalize: "limits_ok (normalize_settings c)"
  by (simp add: limits_ok_def normalize_settings_def or_default_def default_settings_def Let_def)

definition new_seq_state :: seq_state where
  "new_seq_state = \<lparr>sq_sessions = [], sq_transitions = [], sq_workflows = [], sq_violations = [],
     sq_exceptions = [], sq_recent = [], sq_controls = [], sq_processed = 0, sq_evicted_sessions = 0,
     sq_evicted_transitions = 0, sq_evicted_workflows = 0, sq_evicted_violations = 0, sq_evicted_recent = 0\<rparr>"

section \<open>Identifiers\<close>

text \<open>The separator of the digest inputs is a zero byte.\<close>

definition join_nul :: "string list \<Rightarrow> string" where
  "join_nul ss = join_with [byte 0] ss"

definition transition_id :: "seq_env \<Rightarrow> string \<Rightarrow> string \<Rightarrow> string \<Rightarrow> string \<Rightarrow> string" where
  "transition_id env site workflow from_op to_op = se_hash env (join_nul [site, workflow, from_op, to_op])"

definition valid_operation_id :: "string \<Rightarrow> bool" where
  "valid_operation_id v \<longleftrightarrow> length v = 32 \<and> hex_decodes v"

definition optional_operation_id :: "string \<Rightarrow> bool" where
  "optional_operation_id v \<longleftrightarrow> v = [] \<or> valid_operation_id v"

definition valid_site :: "string \<Rightarrow> bool" where
  "valid_site site \<longleftrightarrow> (let s = trim_space site in
     s \<noteq> [] \<and> length s \<le> 256 \<and> list_all (\<lambda>c. \<not> c < byte 32 \<and> c \<noteq> byte 127) s)"

definition mode_learn :: string where "mode_learn = ''LEARN''"
definition mode_detect :: string where "mode_detect = ''DETECT''"

definition valid_mode :: "string \<Rightarrow> bool" where
  "valid_mode m \<longleftrightarrow> m = mode_learn \<or> m = mode_detect"

definition anomaly_types :: "string list" where
  "anomaly_types = [''UNKNOWN_TRANSITION'', ''PREREQUISITE_SKIPPED'', ''UNEXPECTED_ENTRY_POINT'',
     ''SEQUENCE_REVERSAL'', ''ABNORMAL_REPETITION'', ''WORKFLOW_DIVERGENCE'']"

definition valid_anomaly_type :: "string \<Rightarrow> bool" where
  "valid_anomaly_type t \<longleftrightarrow> t \<in> set anomaly_types"

definition sequence_mode :: "seq_state \<Rightarrow> string \<Rightarrow> string" where
  "sequence_mode st site =
     (case gm_get (sq_controls st) site of
        Some c \<Rightarrow> if valid_mode (sc_mode c) then sc_mode c else mode_learn
      | None \<Rightarrow> mode_learn)"

text \<open>\<open>xs\<close> with \<open>x\<close> at its end and at most \<open>n\<close> elements, dropping from the front.\<close>

definition push_bounded :: "int \<Rightarrow> 'a \<Rightarrow> 'a list \<Rightarrow> 'a list" where
  "push_bounded n x xs =
     (if int (length xs) \<ge> n then drop (length xs - nat n + 1) xs @ [x] else xs @ [x])"

lemma length_push_bounded: "0 < n \<Longrightarrow> int (length xs) \<le> n \<Longrightarrow> int (length (push_bounded n x xs)) \<le> n"
  by (auto simp: push_bounded_def)

lemma set_push_bounded: "set (push_bounded n x xs) \<subseteq> insert x (set xs)"
  by (auto simp: push_bounded_def dest: in_set_dropD)

section \<open>Maturity\<close>

definition maturity_for :: "gtime \<Rightarrow> gtime \<Rightarrow> gtime \<Rightarrow> u64 \<Rightarrow> u64 \<Rightarrow> rat \<Rightarrow> seq_settings \<Rightarrow> maturity" where
  "maturity_for now first_seen last_seen observations sessions confidence c =
     (if \<not> time_is_zero last_seen \<and> time_sub now last_seen \<ge> cfg_stale_after c then Stale
      else if observations \<ge> cfg_min_observations c \<and> sessions \<ge> cfg_min_sessions c \<and>
        \<not> time_is_zero first_seen \<and> time_sub now first_seen \<ge> cfg_min_learning c \<and>
        confidence \<ge> cfg_confidence c then Mature
      else Learning)"

definition workflow_maturity :: "seq_settings \<Rightarrow> gtime \<Rightarrow> seq_workflow \<Rightarrow> maturity" where
  "workflow_maturity c now w =
     maturity_for now (sw_first_seen w) (sw_last_seen w) (sw_observations w) (sw_sessions w) 1 c"

definition workflow_maturity_of :: "seq_settings \<Rightarrow> seq_state \<Rightarrow> string \<Rightarrow> gtime \<Rightarrow> maturity" where
  "workflow_maturity_of c st wid now =
     (case gm_get (sq_workflows st) wid of None \<Rightarrow> Learning | Some w \<Rightarrow> workflow_maturity c now w)"

text \<open>\<^verbatim>\<open>float64(a) / float64(b)\<close>\<close>

definition share :: "u64 \<Rightarrow> u64 \<Rightarrow> rat" where
  "share a b = f64 (f64 (of_nat (unat a)) / f64 (of_nat (unat b)))"

lemma share_range:
  assumes "a \<le> b" shows "0 \<le> share a b \<and> share a b \<le> 1"
proof -
  define x where "x = f64 (of_nat (unat a))"
  define y where "y = f64 (of_nat (unat b))"
  have xy: "0 \<le> x" unfolding x_def by (rule f64_nonneg) (rule of_nat_0_le_iff)
  have "(of_nat (unat a) :: rat) \<le> of_nat (unat b)"
    using assms by (simp only: word_le_nat_alt of_nat_le_iff)
  then have "x \<le> y" unfolding x_def y_def by (rule f64_mono)
  note xy = xy this
  from xy have "x / y \<le> 1" by (cases "y = 0") (simp_all add: divide_le_eq_1)
  then have "f64 (x / y) \<le> 1" using f64_le_of_nat [of "x / y" 1] by simp
  moreover have "0 \<le> f64 (x / y)" using xy by simp
  ultimately show ?thesis unfolding share_def x_def [symmetric] y_def [symmetric] by blast
qed

end
