(* ===== verification/Sequence_Detect.thy ===== *)
theory Sequence_Detect
  imports Sequence_State
begin

text \<open>
  \<^verbatim>\<open>sequence_api63.go\<close>: anomaly detection on the learned transitions. The
  detection functions compute the violations in the order the code appends them; nothing they
  read changes between two appends. Detection only records evidence: no function here returns a
  verdict on the request.
\<close>

section \<open>Evidence\<close>

definition derived_transition :: "seq_settings \<Rightarrow> u64 \<Rightarrow> gtime \<Rightarrow> seq_transition \<Rightarrow> seq_transition" where
  "derived_transition c tot now edge =
     (let conf = (if tot > 0 then share (st_observations edge) tot else 0)
      in edge\<lparr>st_confidence := conf,
           st_maturity := maturity_for now (st_first_seen edge) (st_last_seen edge) (st_observations edge)
             (st_sessions edge) conf c\<rparr>)"

definition edges_from :: "seq_state \<Rightarrow> string \<Rightarrow> string \<Rightarrow> seq_transition list" where
  "edges_from st wid from_op =
     filter (\<lambda>e. st_workflow_id e = wid \<and> st_from e = from_op) (gm_values (sq_transitions st))"

definition sat_total :: "u64 list \<Rightarrow> u64" where
  "sat_total ns = foldl sat_add 0 ns"

definition source_total :: "seq_state \<Rightarrow> string \<Rightarrow> string \<Rightarrow> u64" where
  "source_total st wid from_op = sat_total (map st_observations (edges_from st wid from_op))"

record detection_context =
  dc_workflow :: "seq_workflow option"
  dc_maturity :: maturity
  dc_direct :: "seq_transition option"
  dc_outgoing :: "seq_transition list"
  dc_max_confidence :: rat
  dc_observations :: u64
  dc_sessions :: u64

definition by_confidence :: "seq_transition \<Rightarrow> seq_transition \<Rightarrow> bool" where
  "by_confidence a b \<longleftrightarrow> (if st_confidence a \<noteq> st_confidence b then st_confidence a > st_confidence b
     else st_to a < st_to b)"

definition detection_context_of :: "seq_settings \<Rightarrow> seq_state \<Rightarrow> string \<Rightarrow> string \<Rightarrow> string \<Rightarrow> gtime \<Rightarrow> detection_context" where
  "detection_context_of c st wid from_op to_op now =
     (let edges = map (derived_transition c (source_total st wid from_op) now)
            (if from_op = [] then [] else edges_from st wid from_op)
      in \<lparr>dc_workflow = gm_get (sq_workflows st) wid, dc_maturity = workflow_maturity_of c st wid now,
          dc_direct = find (\<lambda>e. st_to e = to_op) (rev edges),
          dc_outgoing = sort_by by_confidence edges,
          dc_max_confidence = foldl (\<lambda>m e. if st_confidence e > m then st_confidence e else m) 0 edges,
          dc_observations = sat_total (map st_observations edges),
          dc_sessions = foldl (\<lambda>m e. if st_sessions e > m then st_sessions e else m) 0 edges\<rparr>)"

definition evidence_ready :: "seq_settings \<Rightarrow> gtime \<Rightarrow> bool \<Rightarrow> seq_transition \<Rightarrow> bool" where
  "evidence_ready c now need_confidence e \<longleftrightarrow>
     \<not> (st_observations e < cfg_min_observations c \<or> st_sessions e < cfg_min_sessions c \<or>
        time_is_zero (st_first_seen e)) \<and>
     \<not> (time_sub now (st_first_seen e) < cfg_min_learning c \<or>
        (\<not> time_is_zero (st_last_seen e) \<and> time_sub now (st_last_seen e) \<ge> cfg_stale_after c)) \<and>
     \<not> (need_confidence \<and> st_confidence e < cfg_confidence c)"

definition source_ready :: "seq_settings \<Rightarrow> gtime \<Rightarrow> detection_context \<Rightarrow> bool" where
  "source_ready c now ctx \<longleftrightarrow>
     \<not> (dc_workflow ctx = None \<or> dc_maturity ctx \<noteq> Mature \<or>
        dc_observations ctx < cfg_min_observations c \<or> dc_sessions ctx < cfg_min_sessions c) \<and>
     list_ex (evidence_ready c now True) (dc_outgoing ctx)"

fun run_back :: "u64 \<Rightarrow> string list \<Rightarrow> string \<Rightarrow> u64" where
  "run_back run [] op = run"
| "run_back run (x # xs) op = (if x \<noteq> op then run else run_back (sat_incr run) xs op)"

definition consecutive_run :: "string list \<Rightarrow> string \<Rightarrow> u64" where
  "consecutive_run recent op = run_back 1 (rev recent) op"

section \<open>Recording a violation\<close>

definition exception_matches :: "seq_exception \<Rightarrow> seq_violation \<Rightarrow> gtime \<Rightarrow> bool" where
  "exception_matches x v now \<longleftrightarrow>
     sx_enabled x \<and> trim_space (sx_site x) \<noteq> [] \<and> sx_site x = sv_site v \<and>
     (time_is_zero (sx_expires_at x) \<or> now < sx_expires_at x) \<and>
     (sx_workflow_id x = [] \<or> sx_workflow_id x = sv_workflow_id v) \<and>
     (sx_type x = [] \<or> sx_type x = sv_type v) \<and>
     (sx_from x = [] \<or> sx_from x = sv_from v) \<and>
     (sx_to x = [] \<or> sx_to x = sv_to v) \<and>
     (sx_related x = [] \<or> sx_related x = sv_related v)"

definition excepted :: "seq_state \<Rightarrow> seq_violation \<Rightarrow> gtime \<Rightarrow> bool" where
  "excepted st v now \<longleftrightarrow> list_ex (\<lambda>x. exception_matches x v now) (gm_values (sq_exceptions st))"

definition violation_id :: "seq_env \<Rightarrow> seq_violation \<Rightarrow> string" where
  "violation_id env v = se_hash env (join_nul [se_time_text env (sv_time v), sv_type v, sv_site v,
     sv_workflow_id v, sv_session v, sv_from v, sv_to v, sv_related v, decimal_of (unat (sv_run_length v))])"

definition complete_violation :: "seq_env \<Rightarrow> seq_settings \<Rightarrow> seq_violation \<Rightarrow> seq_violation" where
  "complete_violation env c v = v\<lparr>sv_maturity := Mature, sv_expires_at := sv_time v + cfg_violation_ttl c,
     sv_id := violation_id env v\<rparr>"

definition append_violation :: "seq_env \<Rightarrow> seq_settings \<Rightarrow> seq_violation \<Rightarrow> seq_state \<Rightarrow> seq_state" where
  "append_violation env c v st =
     (if time_is_zero (sv_time v) \<or> \<not> valid_anomaly_type (sv_type v) \<or> sv_site v = [] \<or>
        length (sv_workflow_id v) \<noteq> 40 \<or> length (sv_session v) \<noteq> 40 then st
      else
        let v = complete_violation env c v in
        if excepted st v (sv_time v) then st
        else st\<lparr>sq_violations := push_bounded (cfg_max_violations c) v (sq_violations st),
                sq_evicted_violations := (if int (length (sq_violations st)) \<ge> cfg_max_violations c
                  then sq_evicted_violations st + 1 else sq_evicted_violations st)\<rparr>)"

text \<open>The fields every violation of an observation shares.\<close>

definition violation_of :: "seq_observation \<Rightarrow> string \<Rightarrow> seq_violation" where
  "violation_of ev kind = \<lparr>sv_id = [], sv_time = so_at ev, sv_type = kind, sv_site = so_site ev,
     sv_workflow_id = so_workflow_id ev, sv_session = so_session_key ev,
     sv_identity_kind = so_identity_kind ev, sv_from = [], sv_to = so_operation_id ev, sv_related = [],
     sv_maturity = Learning, sv_transition_confidence = 0, sv_expected_confidence = 0, sv_deviation = 0,
     sv_run_length = 0, sv_evidence_observations = 0, sv_evidence_sessions = 0, sv_expires_at = 0\<rparr>"

section \<open>Detection\<close>

definition max_entry_confidence :: "seq_workflow \<Rightarrow> rat" where
  "max_entry_confidence w = foldl (\<lambda>m n. let conf = share n (sw_sessions w) in if conf > m then conf else m) 0
     (gm_values (sw_entry_ops w))"

definition detect_unexpected_entry :: "seq_env \<Rightarrow> seq_settings \<Rightarrow> seq_observation \<Rightarrow> seq_state \<Rightarrow> seq_state" where
  "detect_unexpected_entry env c ev st =
     (if sequence_mode st (so_site ev) \<noteq> mode_detect then st
      else (case gm_get (sq_workflows st) (so_workflow_id ev) of
          None \<Rightarrow> st
        | Some w \<Rightarrow>
            if workflow_maturity_of c st (so_workflow_id ev) (so_at ev) \<noteq> Mature \<or>
              sw_sessions w < cfg_min_sessions c then st
            else if gm_has (sw_entry_ops w) (so_operation_id ev) then st
            else if sat_total (gm_values (sw_entry_ops w)) < cfg_min_sessions c \<or> sw_sessions w = 0 then st
            else if max_entry_confidence w < cfg_entry_confidence c then st
            else append_violation env c ((violation_of ev ''UNEXPECTED_ENTRY_POINT'')\<lparr>
                sv_expected_confidence := max_entry_confidence w,
                sv_evidence_observations := sw_observations w, sv_evidence_sessions := sw_sessions w\<rparr>) st))"

text \<open>The first mature two-step path around the transition seen, in the order of confidence.\<close>

definition second_step :: "seq_env \<Rightarrow> seq_settings \<Rightarrow> seq_state \<Rightarrow> gtime \<Rightarrow> string \<Rightarrow> seq_transition \<Rightarrow> seq_transition option" where
  "second_step env c st now to_op first =
     (case gm_get (sq_transitions st) (transition_id env (st_site first) (st_workflow_id first) (st_to first) to_op) of
        None \<Rightarrow> None
      | Some e \<Rightarrow>
          let e = derived_transition c (source_total st (st_workflow_id first) (st_to first)) now e in
          if evidence_ready c now True e then Some e else None)"

fun skipped_prerequisite :: "seq_env \<Rightarrow> seq_settings \<Rightarrow> seq_state \<Rightarrow> gtime \<Rightarrow> string \<Rightarrow> seq_transition list \<Rightarrow>
    (string \<times> seq_transition) option" where
  "skipped_prerequisite env c st now to_op [] = None"
| "skipped_prerequisite env c st now to_op (first # rest) =
     (if st_to first = to_op \<or> \<not> evidence_ready c now True first
      then skipped_prerequisite env c st now to_op rest
      else (case second_step env c st now to_op first of
          Some e \<Rightarrow> Some (st_to first, e)
        | None \<Rightarrow> skipped_prerequisite env c st now to_op rest))"

text \<open>The evidence a violation between two operations carries.\<close>

definition with_baseline :: "string \<Rightarrow> detection_context \<Rightarrow> seq_violation \<Rightarrow> seq_violation" where
  "with_baseline from_op ctx v = v\<lparr>sv_from := from_op, sv_expected_confidence := dc_max_confidence ctx,
     sv_evidence_observations := dc_observations ctx, sv_evidence_sessions := dc_sessions ctx\<rparr>"

definition repetition_anomaly :: "seq_env \<Rightarrow> seq_settings \<Rightarrow> seq_observation \<Rightarrow> string list \<Rightarrow> string \<Rightarrow>
    detection_context \<Rightarrow> seq_violation list" where
  "repetition_anomaly env c ev recent from_op ctx =
     (let run = consecutive_run recent (so_operation_id ev) in
      if from_op = so_operation_id ev \<and> run \<ge> cfg_repetition_run c then
        let self_conf = (case dc_direct ctx of Some e \<Rightarrow> st_confidence e | None \<Rightarrow> 0);
            self_ready = (case dc_direct ctx of Some e \<Rightarrow> evidence_ready c (so_at ev) False e | None \<Rightarrow> False);
            tail = (if self_ready \<and> self_conf > 0 then se_pow env self_conf (f64 (of_nat (unat (run - 1)))) else 0)
        in if (dc_direct ctx = None \<or> \<not> self_ready \<or> tail < cfg_repetition_tail c) \<and>
              dc_max_confidence ctx \<ge> cfg_confidence c
           then [(with_baseline from_op ctx (violation_of ev ''ABNORMAL_REPETITION''))\<lparr>
               sv_transition_confidence := self_conf, sv_run_length := run\<rparr>]
           else []
      else [])"

definition divergence_anomaly :: "seq_settings \<Rightarrow> seq_observation \<Rightarrow> string \<Rightarrow> detection_context \<Rightarrow>
    seq_transition \<Rightarrow> seq_violation list" where
  "divergence_anomaly c ev from_op ctx direct =
     (if evidence_ready c (so_at ev) False direct \<and> dc_max_confidence ctx \<ge> cfg_divergence_expected c \<and>
        st_confidence direct \<le> cfg_divergence_observed c \<and> st_confidence direct < dc_max_confidence ctx
      then [(with_baseline from_op ctx (violation_of ev ''WORKFLOW_DIVERGENCE''))\<lparr>
          sv_transition_confidence := st_confidence direct,
          sv_deviation := f64 (dc_max_confidence ctx - st_confidence direct)\<rparr>]
      else [])"

definition reverse_edge :: "seq_env \<Rightarrow> seq_settings \<Rightarrow> seq_state \<Rightarrow> seq_observation \<Rightarrow> string \<Rightarrow> seq_transition option" where
  "reverse_edge env c st ev from_op =
     (case gm_get (sq_transitions st)
             (transition_id env (so_site ev) (so_workflow_id ev) (so_operation_id ev) from_op) of
        None \<Rightarrow> None
      | Some e \<Rightarrow>
          let e = derived_transition c (source_total st (so_workflow_id ev) (so_operation_id ev)) (so_at ev) e in
          if evidence_ready c (so_at ev) True e then Some e else None)"

text \<open>What remains when the transition itself has never been seen.\<close>

definition unseen_anomaly :: "seq_env \<Rightarrow> seq_settings \<Rightarrow> seq_state \<Rightarrow> seq_observation \<Rightarrow> string \<Rightarrow>
    detection_context \<Rightarrow> bool \<Rightarrow> seq_violation list" where
  "unseen_anomaly env c st ev from_op ctx ready =
     (case reverse_edge env c st ev from_op of
        Some e \<Rightarrow> [(violation_of ev ''SEQUENCE_REVERSAL'')\<lparr>sv_from := from_op, sv_related := st_from e,
            sv_expected_confidence := st_confidence e, sv_evidence_observations := st_observations e,
            sv_evidence_sessions := st_sessions e\<rparr>]
      | None \<Rightarrow>
          if \<not> ready then []
          else (case skipped_prerequisite env c st (so_at ev) (so_operation_id ev) (dc_outgoing ctx) of
              Some (pre, second_edge) \<Rightarrow> [(with_baseline from_op ctx (violation_of ev ''PREREQUISITE_SKIPPED''))\<lparr>
                sv_related := pre, sv_expected_confidence := min (dc_max_confidence ctx) (st_confidence second_edge)\<rparr>]
            | None \<Rightarrow> [with_baseline from_op ctx (violation_of ev ''UNKNOWN_TRANSITION'')]))"

definition transition_anomalies :: "seq_env \<Rightarrow> seq_settings \<Rightarrow> seq_observation \<Rightarrow> seq_session \<Rightarrow> string \<Rightarrow>
    seq_state \<Rightarrow> seq_violation list" where
  "transition_anomalies env c ev session from_op st =
     (if sequence_mode st (so_site ev) \<noteq> mode_detect \<or> from_op = [] then []
      else
        let ctx = detection_context_of c st (so_workflow_id ev) from_op (so_operation_id ev) (so_at ev) in
        if dc_workflow ctx = None \<or> dc_maturity ctx \<noteq> Mature then []
        else
          let ready = source_ready c (so_at ev) ctx in
          (if ready then repetition_anomaly env c ev (ss_recent_ops session) from_op ctx else []) @
          (case dc_direct ctx of
             Some direct \<Rightarrow> if ready then divergence_anomaly c ev from_op ctx direct else []
           | None \<Rightarrow> unseen_anomaly env c st ev from_op ctx ready))"

definition detect_transition_anomalies :: "seq_env \<Rightarrow> seq_settings \<Rightarrow> seq_observation \<Rightarrow> seq_session \<Rightarrow> string \<Rightarrow>
    seq_state \<Rightarrow> seq_state" where
  "detect_transition_anomalies env c ev session from_op st =
     fold (append_violation env c) (transition_anomalies env c ev session from_op st) st"

section \<open>What detection can add\<close>

text \<open>\<open>justified env c ev st v\<close>: the violation is of the observation's site, workflow and
  session, the site is in detection mode with a mature workflow, no exception covers it.\<close>

definition justified :: "seq_env \<Rightarrow> seq_settings \<Rightarrow> seq_observation \<Rightarrow> seq_state \<Rightarrow> seq_violation \<Rightarrow> bool" where
  "justified env c ev st v \<longleftrightarrow>
     sv_site v = so_site ev \<and> sv_workflow_id v = so_workflow_id ev \<and> sv_session v = so_session_key ev \<and>
     sv_time v = so_at ev \<and> valid_anomaly_type (sv_type v) \<and> sv_maturity v = Mature \<and>
     sequence_mode st (so_site ev) = mode_detect \<and>
     workflow_maturity_of c st (so_workflow_id ev) (so_at ev) = Mature \<and>
     \<not> excepted st v (so_at ev)"

definition of_event :: "seq_observation \<Rightarrow> seq_violation \<Rightarrow> bool" where
  "of_event ev v \<longleftrightarrow> sv_site v = so_site ev \<and> sv_workflow_id v = so_workflow_id ev \<and>
     sv_session v = so_session_key ev \<and> sv_time v = so_at ev"

lemma append_violation_frame:
  "sq_sessions (append_violation env c v st) = sq_sessions st"
  "sq_transitions (append_violation env c v st) = sq_transitions st"
  "sq_workflows (append_violation env c v st) = sq_workflows st"
  "sq_exceptions (append_violation env c v st) = sq_exceptions st"
  "sq_controls (append_violation env c v st) = sq_controls st"
  "sq_recent (append_violation env c v st) = sq_recent st"
  by (simp_all add: append_violation_def Let_def)

lemma append_violation_new:
  assumes "v' \<in> set (sq_violations (append_violation env c v st))"
  shows "v' \<in> set (sq_violations st) \<or>
    (v' = complete_violation env c v \<and> valid_anomaly_type (sv_type v) \<and> \<not> excepted st v' (sv_time v))"
  using assms set_push_bounded [of "cfg_max_violations c" "complete_violation env c v" "sq_violations st"]
  by (auto simp: append_violation_def Let_def complete_violation_def split: if_splits)

lemma excepted_frame: "sq_exceptions st' = sq_exceptions st \<Longrightarrow> excepted st' v t = excepted st v t"
  by (simp add: excepted_def)

lemma fold_append_frame:
  "sq_sessions (fold (append_violation env c) vs st) = sq_sessions st"
  "sq_transitions (fold (append_violation env c) vs st) = sq_transitions st"
  "sq_workflows (fold (append_violation env c) vs st) = sq_workflows st"
  "sq_exceptions (fold (append_violation env c) vs st) = sq_exceptions st"
  "sq_controls (fold (append_violation env c) vs st) = sq_controls st"
  "sq_recent (fold (append_violation env c) vs st) = sq_recent st"
  by (induction vs arbitrary: st) (simp_all add: append_violation_frame)

lemma fold_append_new:
  assumes "v' \<in> set (sq_violations (fold (append_violation env c) vs st))"
  shows "v' \<in> set (sq_violations st) \<or>
    (\<exists>v \<in> set vs. v' = complete_violation env c v \<and> valid_anomaly_type (sv_type v) \<and> \<not> excepted st v' (sv_time v))"
  using assms
proof (induction vs arbitrary: st)
  case (Cons v vs)
  then have "v' \<in> set (sq_violations (append_violation env c v st)) \<or>
    (\<exists>w \<in> set vs. v' = complete_violation env c w \<and> valid_anomaly_type (sv_type w) \<and>
      \<not> excepted (append_violation env c v st) v' (sv_time w))"
    using Cons.IH [of "append_violation env c v st"] by simp
  then show ?case
    using append_violation_new [of v' env c v st]
    by (auto simp: excepted_frame [OF append_violation_frame(4)])
qed simp

lemma of_event_violation_of [simp]: "of_event ev (violation_of ev kind)"
  by (simp add: of_event_def violation_of_def)

lemma of_event_update [simp]:
  "of_event ev (v\<lparr>sv_from := a\<rparr>) = of_event ev v" "of_event ev (v\<lparr>sv_related := b\<rparr>) = of_event ev v"
  "of_event ev (v\<lparr>sv_expected_confidence := x\<rparr>) = of_event ev v"
  "of_event ev (v\<lparr>sv_transition_confidence := x\<rparr>) = of_event ev v"
  "of_event ev (v\<lparr>sv_deviation := x\<rparr>) = of_event ev v" "of_event ev (v\<lparr>sv_run_length := n\<rparr>) = of_event ev v"
  "of_event ev (v\<lparr>sv_evidence_observations := n\<rparr>) = of_event ev v"
  "of_event ev (v\<lparr>sv_evidence_sessions := n\<rparr>) = of_event ev v"
  by (simp_all add: of_event_def)

lemma of_event_with_baseline [simp]: "of_event ev (with_baseline f ctx v) = of_event ev v"
  by (simp add: with_baseline_def)

lemma transition_anomalies_event:
  "v \<in> set (transition_anomalies env c ev session from_op st) \<Longrightarrow> of_event ev v"
  by (auto simp: transition_anomalies_def repetition_anomaly_def divergence_anomaly_def unseen_anomaly_def Let_def
      split: if_splits option.splits prod.splits)

lemma transition_anomalies_mode:
  assumes "transition_anomalies env c ev session from_op st \<noteq> []"
  shows "sequence_mode st (so_site ev) = mode_detect \<and> workflow_maturity_of c st (so_workflow_id ev) (so_at ev) = Mature"
proof -
  have "dc_maturity (detection_context_of c st (so_workflow_id ev) from_op (so_operation_id ev) (so_at ev)) =
      workflow_maturity_of c st (so_workflow_id ev) (so_at ev)"
    by (simp add: detection_context_of_def Let_def)
  with assms show ?thesis by (auto simp: transition_anomalies_def Let_def split: if_splits)
qed

lemma complete_justified:
  assumes "of_event ev v" and "valid_anomaly_type (sv_type v)" and "\<not> excepted st (complete_violation env c v) (sv_time v)"
    and "sequence_mode st (so_site ev) = mode_detect"
    and "workflow_maturity_of c st (so_workflow_id ev) (so_at ev) = Mature"
  shows "justified env c ev st (complete_violation env c v)"
  using assms by (auto simp: justified_def of_event_def complete_violation_def)

lemma detect_transition_justified:
  assumes "v \<in> set (sq_violations (detect_transition_anomalies env c ev session from_op st))"
  shows "v \<in> set (sq_violations st) \<or> justified env c ev st v"
proof -
  from fold_append_new [OF assms [unfolded detect_transition_anomalies_def]] show ?thesis
  proof
    assume "\<exists>w \<in> set (transition_anomalies env c ev session from_op st). v = complete_violation env c w \<and>
      valid_anomaly_type (sv_type w) \<and> \<not> excepted st v (sv_time w)"
    then obtain w where w: "w \<in> set (transition_anomalies env c ev session from_op st)" "v = complete_violation env c w"
      "valid_anomaly_type (sv_type w)" "\<not> excepted st v (sv_time w)" by blast
    then have "transition_anomalies env c ev session from_op st \<noteq> []" by auto
    from transition_anomalies_mode [OF this] w show ?thesis
      by (auto intro: complete_justified transition_anomalies_event)
  qed simp
qed

lemma detect_entry_justified:
  assumes "v \<in> set (sq_violations (detect_unexpected_entry env c ev st))"
  shows "v \<in> set (sq_violations st) \<or> justified env c ev st v"
proof (cases "detect_unexpected_entry env c ev st = st")
  case False
  then obtain w where w: "detect_unexpected_entry env c ev st = append_violation env c w st" "of_event ev w"
      and m: "sequence_mode st (so_site ev) = mode_detect"
        "workflow_maturity_of c st (so_workflow_id ev) (so_at ev) = Mature"
    by (auto simp: detect_unexpected_entry_def split: if_splits option.splits)
  from assms append_violation_new [of v env c w st] w m show ?thesis
    by (auto intro: complete_justified)
qed (use assms in simp)

lemma detect_frame:
  "sq_sessions (detect_unexpected_entry env c ev st) = sq_sessions st"
  "sq_transitions (detect_unexpected_entry env c ev st) = sq_transitions st"
  "sq_workflows (detect_unexpected_entry env c ev st) = sq_workflows st"
  "sq_exceptions (detect_unexpected_entry env c ev st) = sq_exceptions st"
  "sq_controls (detect_unexpected_entry env c ev st) = sq_controls st"
  "sq_recent (detect_unexpected_entry env c ev st) = sq_recent st"
  by (auto simp: detect_unexpected_entry_def append_violation_frame split: option.splits)

text \<open>A derived confidence is a probability, because the total it is measured against saturates.\<close>

lemma sat_total_ge: "n \<in> set ns \<Longrightarrow> n \<le> sat_total ns"
proof -
  have acc: "a \<le> foldl sat_add a ns" for a and ns :: "u64 list"
    by (induction ns arbitrary: a) (auto intro: order_trans [OF sat_add_ge1])
  assume "n \<in> set ns"
  then obtain xs ys where "ns = xs @ n # ys" by (meson split_list)
  then have "sat_total ns = foldl sat_add (sat_add (foldl sat_add 0 xs) n) ys" by (simp add: sat_total_def)
  then show ?thesis using acc [of "sat_add (foldl sat_add 0 xs) n" ys] sat_add_ge2 [of n "foldl sat_add 0 xs"] by simp
qed

lemma derived_confidence_range:
  assumes "e \<in> set (edges_from st wid f)"
  shows "0 \<le> st_confidence (derived_transition c (source_total st wid f) now e) \<and>
    st_confidence (derived_transition c (source_total st wid f) now e) \<le> 1"
proof -
  have "st_observations e \<le> source_total st wid f"
    unfolding source_total_def by (rule sat_total_ge) (use assms in simp)
  then show ?thesis using share_range by (simp add: derived_transition_def Let_def)
qed

end
