(* ===== verification/Sequence_Engine.thy ===== *)
theory Sequence_Engine
  imports Sequence_Detect
begin

text \<open>
  The engine of \<^verbatim>\<open>sequence_api61.go\<close> and \<^verbatim>\<open>sequence_api62.go\<close>:
  what an observation does to the sessions, the edges and the learned workflows, how the tables
  are pruned and kept within their limits, and the derived figures that are published.

  Every operation below runs under \<^verbatim>\<open>stateMu\<close>. \<open>clk\<close> is a reading of the
  store's clock. The keys of the maps are digests or, for sites, checked to be non-empty, so the
  loops that choose what to evict never meet the empty key they use as a mark.
\<close>

section \<open>Recent sessions\<close>

definition recent_of :: "seq_settings \<Rightarrow> seq_session \<Rightarrow> gtime \<Rightarrow> seq_recent" where
  "recent_of c s ended = \<lparr>sr_fingerprint = ss_key s, sr_site = ss_site s, sr_workflow_id = ss_workflow_id s,
     sr_correlation_kind = ss_correlation_kind s, sr_entry_op = ss_entry_op s,
     sr_terminal_op = ss_current_op s, sr_request_count = ss_request_count s,
     sr_started_at = ss_started_at s, sr_ended_at = ended, sr_expires_at = ended + cfg_recent_ttl c\<rparr>"

definition record_recent :: "seq_settings \<Rightarrow> gtime \<Rightarrow> seq_session \<Rightarrow> gtime \<Rightarrow> seq_state \<Rightarrow> seq_state" where
  "record_recent c clk s ended st =
     (if ss_key s = [] \<or> \<not> valid_site (ss_site s) \<or> ss_workflow_id s = [] \<or> ss_current_op s = [] then st
      else
        let ended = (if time_is_zero ended then clk else ended) in
        st\<lparr>sq_recent := push_bounded (cfg_max_recent_sessions c) (recent_of c s ended) (sq_recent st),
           sq_evicted_recent := (if int (length (sq_recent st)) \<ge> cfg_max_recent_sessions c
             then sq_evicted_recent st + 1 else sq_evicted_recent st)\<rparr>)"

text \<open>\<^verbatim>\<open>boundedIncrementOperation\<close>\<close>

definition bounded_increment :: "string \<Rightarrow> int \<Rightarrow> (string, u64) gomap \<Rightarrow> (string, u64) gomap" where
  "bounded_increment op mx m =
     (if op = [] \<or> mx \<le> 0 then m
      else (case gm_get m op of
          None \<Rightarrow> if int (length m) \<ge> mx then m else gm_put op 1 m
        | Some n \<Rightarrow> gm_put op (sat_incr n) m))"

definition update_workflow :: "string \<Rightarrow> (seq_workflow \<Rightarrow> seq_workflow) \<Rightarrow> seq_state \<Rightarrow> seq_state" where
  "update_workflow wid f st =
     (case gm_get (sq_workflows st) wid of
        None \<Rightarrow> st
      | Some w \<Rightarrow> st\<lparr>sq_workflows := gm_put wid (f w) (sq_workflows st)\<rparr>)"

definition finalize_session :: "seq_settings \<Rightarrow> gtime \<Rightarrow> seq_session \<Rightarrow> gtime \<Rightarrow> seq_state \<Rightarrow> seq_state" where
  "finalize_session c clk s t st =
     (if ss_workflow_id s = [] \<or> ss_current_op s = [] then st
      else update_workflow (ss_workflow_id s)
        (\<lambda>w. w\<lparr>sw_terminal_ops := bounded_increment (ss_current_op s) (cfg_max_workflow_ops c) (sw_terminal_ops w),
             sw_last_seen := (if sw_last_seen w < t then t else sw_last_seen w)\<rparr>)
        (record_recent c clk s t st))"

section \<open>Pruning\<close>

definition prune_detection :: "gtime \<Rightarrow> seq_state \<Rightarrow> seq_state" where
  "prune_detection now st =
     st\<lparr>sq_violations := filter (\<lambda>v. now < sv_expires_at v) (sq_violations st),
        sq_exceptions := gm_remove_if (\<lambda>_ x. \<not> time_is_zero (sx_expires_at x) \<and> \<not> now < sx_expires_at x)
          (sq_exceptions st)\<rparr>"

definition prune_operations :: "gtime \<Rightarrow> seq_state \<Rightarrow> seq_state" where
  "prune_operations now st = st\<lparr>sq_recent := filter (\<lambda>v. now < sr_expires_at v) (sq_recent st)\<rparr>"

definition session_over :: "gtime \<Rightarrow> seq_session \<Rightarrow> bool" where
  "session_over now s \<longleftrightarrow> \<not> now < ss_expires_at s \<or>
     (\<not> time_is_zero (ss_absolute_expires_at s) \<and> \<not> now < ss_absolute_expires_at s)"

definition drop_session :: "seq_settings \<Rightarrow> gtime \<Rightarrow> gtime \<Rightarrow> string \<Rightarrow> seq_session \<Rightarrow> seq_state \<Rightarrow> seq_state" where
  "drop_session c clk t k s st =
     (let st = finalize_session c clk s t st in st\<lparr>sq_sessions := gm_del k (sq_sessions st)\<rparr>)"

definition prune_sessions :: "seq_settings \<Rightarrow> gtime \<Rightarrow> gtime \<Rightarrow> seq_state \<Rightarrow> seq_state" where
  "prune_sessions c clk now st =
     fold (\<lambda>(k, s) st. if session_over now s then drop_session c clk now k s st else st) (sq_sessions st) st"

definition prune_seq :: "seq_settings \<Rightarrow> gtime \<Rightarrow> gtime \<Rightarrow> seq_state \<Rightarrow> seq_state" where
  "prune_seq c clk now st =
     (let st = prune_sessions c clk now (prune_operations now (prune_detection now st)) in
      st\<lparr>sq_transitions := gm_remove_if (\<lambda>_ e. \<not> now < st_expires_at e) (sq_transitions st),
         sq_workflows := gm_remove_if (\<lambda>_ w. \<not> time_is_zero (sw_last_seen w) \<and>
           \<not> now < sw_last_seen w + cfg_workflow_ttl c) (sq_workflows st)\<rparr>)"

section \<open>Making room\<close>

definition ensure_session_capacity :: "seq_settings \<Rightarrow> gtime \<Rightarrow> gtime \<Rightarrow> seq_state \<Rightarrow> seq_state" where
  "ensure_session_capacity c clk now st =
     (if int (length (sq_sessions st)) < cfg_max_sessions c then st
      else (case oldest ss_last_seen (sq_sessions st) of
          None \<Rightarrow> st
        | Some k \<Rightarrow>
            (case gm_get (sq_sessions st) k of
               None \<Rightarrow> st
             | Some s \<Rightarrow>
                 let st = drop_session c clk now k s st
                 in st\<lparr>sq_evicted_sessions := sq_evicted_sessions st + 1\<rparr>)))"

definition ensure_transition_capacity :: "seq_settings \<Rightarrow> seq_state \<Rightarrow> seq_state" where
  "ensure_transition_capacity c st =
     (if int (length (sq_transitions st)) < cfg_max_transitions c then st
      else (case oldest st_last_seen (sq_transitions st) of
          None \<Rightarrow> st
        | Some k \<Rightarrow> st\<lparr>sq_transitions := gm_del k (sq_transitions st),
            sq_evicted_transitions := sq_evicted_transitions st + 1\<rparr>))"

text \<open>A workflow is evicted with its edges and its sessions.\<close>

definition drop_workflow_edges :: "string \<Rightarrow> seq_state \<Rightarrow> seq_state" where
  "drop_workflow_edges wid st =
     (let kept = gm_remove_if (\<lambda>_ e. st_workflow_id e = wid) (sq_transitions st)
      in st\<lparr>sq_transitions := kept, sq_evicted_transitions := sq_evicted_transitions st +
           of_nat (length (sq_transitions st) - length kept)\<rparr>)"

definition drop_workflow_sessions :: "seq_settings \<Rightarrow> gtime \<Rightarrow> gtime \<Rightarrow> string \<Rightarrow> seq_state \<Rightarrow> seq_state" where
  "drop_workflow_sessions c clk now wid st =
     fold (\<lambda>(k, s) st. if ss_workflow_id s = wid then
         let st = record_recent c clk s now st
         in st\<lparr>sq_sessions := gm_del k (sq_sessions st), sq_evicted_sessions := sq_evicted_sessions st + 1\<rparr>
       else st) (sq_sessions st) st"

definition ensure_workflow_capacity :: "seq_settings \<Rightarrow> gtime \<Rightarrow> gtime \<Rightarrow> seq_state \<Rightarrow> seq_state" where
  "ensure_workflow_capacity c clk now st =
     (if int (length (sq_workflows st)) < cfg_max_workflows c then st
      else (case oldest sw_last_seen (sq_workflows st) of
          None \<Rightarrow> st
        | Some wid \<Rightarrow>
            drop_workflow_sessions c clk now wid (drop_workflow_edges wid
              (st\<lparr>sq_workflows := gm_del wid (sq_workflows st),
                 sq_evicted_workflows := sq_evicted_workflows st + 1\<rparr>))))"

section \<open>Learning\<close>

definition new_workflow :: "seq_observation \<Rightarrow> seq_workflow" where
  "new_workflow ev = \<lparr>sw_id = so_workflow_id ev, sw_site = so_site ev, sw_identity_kind = so_identity_kind ev,
     sw_observations = 0, sw_sessions = 0, sw_first_seen = so_at ev, sw_last_seen = so_at ev,
     sw_max_depth = 0, sw_entry_ops = [], sw_terminal_ops = []\<rparr>"

text \<open>\<^verbatim>\<open>workflowLocked\<close>: after it, the observation's workflow is in the table.\<close>

definition ensure_workflow :: "seq_settings \<Rightarrow> gtime \<Rightarrow> seq_observation \<Rightarrow> seq_state \<Rightarrow> seq_state" where
  "ensure_workflow c clk ev st =
     (if gm_has (sq_workflows st) (so_workflow_id ev) then st
      else
        let st = ensure_workflow_capacity c clk (so_at ev) st
        in st\<lparr>sq_workflows := gm_put (so_workflow_id ev) (new_workflow ev) (sq_workflows st)\<rparr>)"

definition note_seen :: "gtime \<Rightarrow> seq_workflow \<Rightarrow> seq_workflow" where
  "note_seen t w = w\<lparr>sw_first_seen := (if time_is_zero (sw_first_seen w) \<or> t < sw_first_seen w then t
       else sw_first_seen w), sw_last_seen := (if sw_last_seen w < t then t else sw_last_seen w)\<rparr>"

definition note_session_start :: "seq_settings \<Rightarrow> gtime \<Rightarrow> seq_observation \<Rightarrow> seq_state \<Rightarrow> seq_state" where
  "note_session_start c clk ev st =
     update_workflow (so_workflow_id ev)
       (\<lambda>w. (note_seen (so_at ev) (w\<lparr>sw_sessions := sat_incr (sw_sessions w)\<rparr>))
          \<lparr>sw_entry_ops := bounded_increment (so_operation_id ev) (cfg_max_workflow_ops c) (sw_entry_ops w)\<rparr>)
       (ensure_workflow c clk ev st)"

definition note_observation :: "seq_settings \<Rightarrow> gtime \<Rightarrow> seq_observation \<Rightarrow> u64 \<Rightarrow> seq_state \<Rightarrow> seq_state" where
  "note_observation c clk ev depth st =
     update_workflow (so_workflow_id ev)
       (\<lambda>w. note_seen (so_at ev) (w\<lparr>sw_observations := sat_incr (sw_observations w),
          sw_max_depth := (if depth > sw_max_depth w then depth else sw_max_depth w)\<rparr>))
       (ensure_workflow c clk ev st)"

section \<open>Processing an observation\<close>

definition complete_observation :: "seq_env \<Rightarrow> seq_observation \<Rightarrow> seq_observation" where
  "complete_observation env ev =
     (let ev = (if so_workflow_id ev = [] then ev\<lparr>so_workflow_id :=
          se_digest env (join_nul [''workflow'', so_site ev, ''legacy''])\<rparr> else ev)
      in if so_identity_kind ev = [] then ev\<lparr>so_identity_kind := ''anonymous''\<rparr> else ev)"

definition new_session :: "seq_settings \<Rightarrow> seq_observation \<Rightarrow> seq_session" where
  "new_session c ev = \<lparr>ss_key = so_session_key ev, ss_site = so_site ev,
     ss_correlation_kind = so_correlation_kind ev, ss_workflow_id = so_workflow_id ev, ss_current_op = [],
     ss_entry_op = so_operation_id ev, ss_recent_ops = [], ss_seen_transitions = [], ss_request_count = 0,
     ss_workflow_depth = 0, ss_started_at = so_at ev, ss_last_seen = so_at ev,
     ss_expires_at = so_at ev + cfg_session_ttl c,
     ss_absolute_expires_at = so_at ev + cfg_session_absolute_ttl c\<rparr>"

text \<open>The session an observation belongs to: the one there is, or a new one.\<close>

definition open_session :: "seq_env \<Rightarrow> seq_settings \<Rightarrow> gtime \<Rightarrow> seq_observation \<Rightarrow> seq_state \<Rightarrow>
    seq_session \<times> seq_state" where
  "open_session env c clk ev st =
     (let begin = (\<lambda>st. (new_session c ev,
            note_session_start c clk ev (ensure_session_capacity c clk (so_at ev)
              (detect_unexpected_entry env c ev st))))
      in case gm_get (sq_sessions st) (so_session_key ev) of
          None \<Rightarrow> begin st
        | Some s \<Rightarrow>
            if \<not> time_is_zero (ss_absolute_expires_at s) \<and> \<not> so_at ev < ss_absolute_expires_at s
            then begin (drop_session c clk (so_at ev) (so_session_key ev) s st)
            else (s, st))"

definition advance_session :: "seq_settings \<Rightarrow> seq_observation \<Rightarrow> seq_session \<Rightarrow> seq_session" where
  "advance_session c ev s =
     (let expires = so_at ev + cfg_session_ttl c;
          requests = sat_incr (ss_request_count s);
          recent = ss_recent_ops s @ [so_operation_id ev]
      in s\<lparr>ss_current_op := so_operation_id ev, ss_last_seen := so_at ev,
           ss_expires_at := (if ss_absolute_expires_at s < expires then ss_absolute_expires_at s else expires),
           ss_request_count := requests, ss_workflow_depth := requests,
           ss_recent_ops := (if int (length recent) > cfg_max_recent_ops c
             then drop (length recent - nat (cfg_max_recent_ops c)) recent else recent)\<rparr>)"

definition new_transition :: "seq_observation \<Rightarrow> string \<Rightarrow> string \<Rightarrow> seq_transition" where
  "new_transition ev tid from_op = \<lparr>st_id = tid, st_site = so_site ev, st_workflow_id = so_workflow_id ev,
     st_from = from_op, st_to = so_operation_id ev, st_count = 0, st_observations = 0, st_sessions = 0,
     st_first_seen = so_at ev, st_last_seen = 0, st_expires_at = 0, st_confidence = 0, st_maturity = Learning\<rparr>"

text \<open>The edge from the previous operation, and the session that has now seen it.\<close>

definition note_transition :: "seq_env \<Rightarrow> seq_settings \<Rightarrow> seq_observation \<Rightarrow> string \<Rightarrow> seq_session \<Rightarrow> seq_state \<Rightarrow>
    seq_session \<times> seq_state" where
  "note_transition env c ev from_op s st =
     (let tid = transition_id env (so_site ev) (so_workflow_id ev) from_op (so_operation_id ev);
          (edge, st) = (case gm_get (sq_transitions st) tid of
              Some e \<Rightarrow> (e, st)
            | None \<Rightarrow> (new_transition ev tid from_op, ensure_transition_capacity c st));
          observations = sat_incr (st_observations edge);
          fresh = (tid \<notin> set (ss_seen_transitions s) \<and>
            int (length (ss_seen_transitions s)) < cfg_max_seen_transitions c);
          edge = edge\<lparr>st_observations := observations, st_count := observations,
            st_sessions := (if fresh then sat_incr (st_sessions edge) else st_sessions edge),
            st_last_seen := so_at ev, st_expires_at := so_at ev + cfg_transition_ttl c\<rparr>;
          s = (if fresh then s\<lparr>ss_seen_transitions := ss_seen_transitions s @ [tid]\<rparr> else s)
      in (s, st\<lparr>sq_transitions := gm_put tid edge (sq_transitions st)\<rparr>))"

definition process_observation :: "seq_env \<Rightarrow> seq_settings \<Rightarrow> gtime \<Rightarrow> seq_observation \<Rightarrow> seq_state \<Rightarrow> seq_state" where
  "process_observation env c clk ev st =
     (if so_session_key ev = [] \<or> so_operation_id ev = [] \<or> time_is_zero (so_at ev) then st
      else
        let ev = complete_observation env ev;
            (s, st) = open_session env c clk ev (prune_seq c clk (so_at ev) st);
            from_op = ss_current_op s;
            st = (if from_op \<noteq> [] then detect_transition_anomalies env c ev s from_op st else st);
            s = advance_session c ev s;
            st = note_observation c clk ev (ss_workflow_depth s) st;
            (s, st) = (if from_op \<noteq> [] then note_transition env c ev from_op s st else (s, st))
        in st\<lparr>sq_sessions := gm_put (so_session_key ev) s (sq_sessions st),
              sq_processed := sq_processed st + 1\<rparr>)"

end
