(* ===== verification/Sequence_Control.thy ===== *)
theory Sequence_Control
  imports Sequence_Engine
begin

text \<open>
  \<^verbatim>\<open>sequence_api64.go\<close>, the operators' controls: the mode of a site, reset and
  relearn, exceptions. A request without a time uses a reading of the clock. Every operation
  returns its error or its result, with the state.
\<close>

datatype control_error = Bad_Site | Bad_Site_Or_Type | Bad_Mode | Controls_Full | No_Mature_Workflow | Bad_Selector
  | No_Scope | Ttl_Too_Long | Exceptions_Full | Exception_Missing

definition resolved_now :: "gtime \<Rightarrow> gtime \<Rightarrow> gtime" where
  "resolved_now clk now = (if time_is_zero now then clk else now)"

definition site_control :: "seq_state \<Rightarrow> string \<Rightarrow> seq_control" where
  "site_control st site = (case gm_get (sq_controls st) site of
      Some x \<Rightarrow> x
    | None \<Rightarrow> \<lparr>sc_site = site, sc_mode = mode_learn, sc_generation = 0, sc_updated_at = 0\<rparr>)"

definition controls_full :: "seq_settings \<Rightarrow> seq_state \<Rightarrow> string \<Rightarrow> bool" where
  "controls_full c st site \<longleftrightarrow> \<not> gm_has (sq_controls st) site \<and> int (length (sq_controls st)) \<ge> cfg_max_workflows c"

definition put_control :: "seq_control \<Rightarrow> seq_state \<Rightarrow> seq_state" where
  "put_control x st = st\<lparr>sq_controls := gm_put (sc_site x) x (sq_controls st)\<rparr>"

definition has_mature_workflow :: "seq_settings \<Rightarrow> seq_state \<Rightarrow> string \<Rightarrow> gtime \<Rightarrow> bool" where
  "has_mature_workflow c st site now \<longleftrightarrow>
     list_ex (\<lambda>(wid, w). sw_site w = site \<and> workflow_maturity_of c st wid now = Mature) (sq_workflows st)"

definition set_mode :: "seq_settings \<Rightarrow> gtime \<Rightarrow> string \<Rightarrow> string \<Rightarrow> gtime \<Rightarrow> seq_state \<Rightarrow>
    (control_error + seq_control) \<times> seq_state" where
  "set_mode c clk site mode now st =
     (let site = trim_space site; mode = to_upper (trim_space mode) in
      if \<not> valid_site site then (Inl Bad_Site, st)
      else if \<not> valid_mode mode then (Inl Bad_Mode, st)
      else
        let now = resolved_now clk now in
        if controls_full c st site then (Inl Controls_Full, st)
        else if mode = mode_detect \<and> \<not> has_mature_workflow c st site now then (Inl No_Mature_Workflow, st)
        else
          let x = site_control st site;
              x = x\<lparr>sc_site := site, sc_mode := mode, sc_updated_at := now,
                sc_generation := (if sc_generation x = 0 then 1 else sc_generation x)\<rparr>
          in (Inr x, put_control x st))"

record reset_result =
  rr_site :: string
  rr_mode :: string
  rr_generation :: u64
  rr_reset_at :: gtime
  rr_sessions :: nat
  rr_recent :: nat
  rr_transitions :: nat
  rr_workflows :: nat
  rr_violations :: nat
  rr_exceptions :: nat

text \<open>What the reset removes, and what it counts.\<close>

definition clear_site :: "string \<Rightarrow> seq_state \<Rightarrow> seq_state" where
  "clear_site site st = st\<lparr>
     sq_sessions := gm_remove_if (\<lambda>_ v. ss_site v = site) (sq_sessions st),
     sq_transitions := gm_remove_if (\<lambda>_ v. st_site v = site) (sq_transitions st),
     sq_workflows := gm_remove_if (\<lambda>_ v. sw_site v = site) (sq_workflows st),
     sq_recent := filter (\<lambda>v. sr_site v \<noteq> site) (sq_recent st),
     sq_violations := filter (\<lambda>v. sv_site v \<noteq> site) (sq_violations st)\<rparr>"

definition count_if :: "('a \<Rightarrow> bool) \<Rightarrow> 'a list \<Rightarrow> nat" where
  "count_if p xs = length (filter p xs)"

definition reset_and_relearn :: "seq_settings \<Rightarrow> gtime \<Rightarrow> string \<Rightarrow> gtime \<Rightarrow> seq_state \<Rightarrow>
    (control_error + reset_result) \<times> seq_state" where
  "reset_and_relearn c clk site now st =
     (let site = trim_space site in
      if \<not> valid_site site then (Inl Bad_Site, st)
      else
        let now = resolved_now clk now in
        if controls_full c st site then (Inl Controls_Full, st)
        else
          let x = site_control st site;
              generation = sat_incr (sc_generation x);
              x = x\<lparr>sc_site := site, sc_mode := mode_learn, sc_updated_at := now,
                sc_generation := (if generation = 0 then 1 else generation)\<rparr>
          in (Inr \<lparr>rr_site = site, rr_mode = mode_learn, rr_generation = sc_generation x, rr_reset_at = now,
                rr_sessions = count_if (\<lambda>v. ss_site v = site) (gm_values (sq_sessions st)),
                rr_recent = count_if (\<lambda>v. sr_site v = site) (sq_recent st),
                rr_transitions = count_if (\<lambda>v. st_site v = site) (gm_values (sq_transitions st)),
                rr_workflows = count_if (\<lambda>v. sw_site v = site) (gm_values (sq_workflows st)),
                rr_violations = count_if (\<lambda>v. sv_site v = site) (sq_violations st),
                rr_exceptions = count_if (\<lambda>v. sx_site v = site) (gm_values (sq_exceptions st))\<rparr>,
              put_control x (clear_site site st)))"

section \<open>Exceptions\<close>

definition default_exception_ttl :: duration where "default_exception_ttl = 24 * hour"
definition max_exception_ttl :: duration where "max_exception_ttl = 30 * 24 * hour"

definition valid_exception :: "gtime \<Rightarrow> seq_exception \<Rightarrow> bool" where
  "valid_exception now x \<longleftrightarrow>
     length (sx_id x) = 40 \<and> trim_space (sx_site x) \<noteq> [] \<and>
     \<not> (\<not> time_is_zero (sx_expires_at x) \<and> \<not> now < sx_expires_at x) \<and>
     (sx_workflow_id x = [] \<or> length (sx_workflow_id x) = 40 \<and> hex_decodes (sx_workflow_id x)) \<and>
     (sx_type x = [] \<or> valid_anomaly_type (sx_type x)) \<and>
     list_all optional_operation_id [sx_from x, sx_to x, sx_related x] \<and>
     hex_decodes (sx_id x)"

definition trim_exception :: "seq_exception \<Rightarrow> seq_exception" where
  "trim_exception x = x\<lparr>sx_site := trim_space (sx_site x), sx_type := trim_space (sx_type x),
     sx_workflow_id := trim_space (sx_workflow_id x), sx_from := trim_space (sx_from x),
     sx_to := trim_space (sx_to x), sx_related := trim_space (sx_related x)\<rparr>"

definition exception_id :: "seq_env \<Rightarrow> gtime \<Rightarrow> seq_exception \<Rightarrow> string" where
  "exception_id env now x = se_digest env (join_nul [''sequence-exception'', sx_site x, sx_workflow_id x,
     sx_type x, sx_from x, sx_to x, sx_related x, se_time_text env now])"

definition create_exception :: "seq_env \<Rightarrow> seq_settings \<Rightarrow> gtime \<Rightarrow> seq_exception \<Rightarrow> duration \<Rightarrow> gtime \<Rightarrow> seq_state \<Rightarrow>
    (control_error + seq_exception) \<times> seq_state" where
  "create_exception env c clk x ttl now st =
     (let x = trim_exception x in
      if \<not> valid_site (sx_site x) \<or> \<not> valid_anomaly_type (sx_type x) then (Inl Bad_Site_Or_Type, st)
      else if sx_workflow_id x = [] \<and> sx_from x = [] \<and> sx_to x = [] \<and> sx_related x = [] then (Inl No_Scope, st)
      else
        let ttl = (if ttl \<le> 0 then default_exception_ttl else ttl) in
        if ttl > max_exception_ttl then (Inl Ttl_Too_Long, st)
        else
          let now = resolved_now clk now;
              x = x\<lparr>sx_enabled := True, sx_expires_at := now + ttl\<rparr>;
              x = x\<lparr>sx_id := exception_id env now x\<rparr>
          in if \<not> valid_exception now x then (Inl Bad_Selector, st)
             else if int (length (sq_exceptions st)) \<ge> cfg_max_exceptions c then (Inl Exceptions_Full, st)
             else (Inr x, st\<lparr>sq_exceptions := gm_put (sx_id x) x (sq_exceptions st)\<rparr>))"

definition delete_exception :: "string \<Rightarrow> seq_state \<Rightarrow> (control_error + seq_exception) \<times> seq_state" where
  "delete_exception xid st =
     (let xid = trim_space xid in
      case gm_get (sq_exceptions st) xid of
        None \<Rightarrow> (Inl Exception_Missing, st)
      | Some x \<Rightarrow> (Inr x, st\<lparr>sq_exceptions := gm_del xid (sq_exceptions st)\<rparr>))"

end
