(* ===== verification/Sequence_Persist.thy ===== *)
theory Sequence_Persist
  imports Sequence_Control
begin

text \<open>
  What the sequence engine publishes and stores: the derived figures
  (\<^verbatim>\<open>refreshLearningDerivedLocked\<close>), the model
  (\<^verbatim>\<open>publishSnapshot\<close>), the file that is written and read back, with its
  validity checks and the migration of version 1, and the read model of the console.

  A maturity in a file is one of the three texts the code writes. The read of the file and the
  key file are not modelled; a missing file is the empty one of version 0.
\<close>

definition state_version :: int where "state_version = 4"

section \<open>Derived figures\<close>

definition learning_key :: "seq_transition \<Rightarrow> string" where
  "learning_key e = st_workflow_id e @ byte 0 # st_from e"

text \<open>The total of a source here wraps around, where detection saturates it.\<close>

definition outgoing_total :: "(string, seq_transition) gomap \<Rightarrow> string \<Rightarrow> u64" where
  "outgoing_total m k = sum_list (map st_observations (filter (\<lambda>e. learning_key e = k) (gm_values m)))"

definition refresh_transition :: "seq_settings \<Rightarrow> u64 \<Rightarrow> gtime \<Rightarrow> seq_transition \<Rightarrow> seq_transition" where
  "refresh_transition c tot now e =
     (let conf = (if tot > 0 then share (st_observations e) tot else 0)
      in e\<lparr>st_confidence := conf,
           st_maturity := maturity_for now (st_first_seen e) (st_last_seen e) (st_observations e) (st_sessions e) conf c,
           st_count := st_observations e\<rparr>)"

definition refresh_learning :: "seq_settings \<Rightarrow> gtime \<Rightarrow> seq_state \<Rightarrow> seq_state" where
  "refresh_learning c now st =
     st\<lparr>sq_transitions := map (\<lambda>(k, e). (k, refresh_transition c
          (outgoing_total (sq_transitions st) (learning_key e)) now e)) (sq_transitions st)\<rparr>"

section \<open>The published model\<close>

record workflow_model =
  wm_id :: string
  wm_site :: string
  wm_identity_kind :: string
  wm_observations :: u64
  wm_sessions :: u64
  wm_first_seen :: gtime
  wm_last_seen :: gtime
  wm_max_depth :: u64
  wm_entry_ops :: "(string \<times> u64) list"
  wm_terminal_ops :: "(string \<times> u64) list"
  wm_maturity :: maturity
  wm_detection_state :: string

definition detection_state :: "maturity \<Rightarrow> string" where
  "detection_state m = (if m = Mature then mode_detect else mode_learn)"

definition operation_less :: "string \<times> u64 \<Rightarrow> string \<times> u64 \<Rightarrow> bool" where
  "operation_less a b \<longleftrightarrow> (if snd a \<noteq> snd b then snd a > snd b else fst a < fst b)"

definition operation_map_snapshot :: "(string, u64) gomap \<Rightarrow> (string \<times> u64) list" where
  "operation_map_snapshot m = sort_by operation_less m"

definition workflow_snapshot :: "seq_settings \<Rightarrow> gtime \<Rightarrow> seq_workflow \<Rightarrow> workflow_model" where
  "workflow_snapshot c now w =
     (let m = workflow_maturity c now w in \<lparr>
        wm_id = sw_id w, wm_site = sw_site w, wm_identity_kind = sw_identity_kind w,
        wm_observations = sw_observations w, wm_sessions = sw_sessions w, wm_first_seen = sw_first_seen w,
        wm_last_seen = sw_last_seen w, wm_max_depth = sw_max_depth w,
        wm_entry_ops = operation_map_snapshot (sw_entry_ops w),
        wm_terminal_ops = operation_map_snapshot (sw_terminal_ops w),
        wm_maturity = m, wm_detection_state = detection_state m\<rparr>)"

text \<open>The settings the model repeats; durations in seconds, positive, so rounded down.\<close>

record model_settings =
  ms_session_ttl :: int
  ms_session_absolute :: int
  ms_transition_ttl :: int
  ms_workflow_ttl :: int
  ms_stale_after :: int
  ms_max_sessions :: int
  ms_max_transitions :: int
  ms_max_workflows :: int
  ms_max_workflow_ops :: int
  ms_max_recent_ops :: int
  ms_min_observations :: u64
  ms_min_sessions :: u64
  ms_min_learning :: int
  ms_confidence :: rat
  ms_queue_capacity :: int
  ms_violation_ttl :: int
  ms_max_violations :: int
  ms_max_exceptions :: int
  ms_entry_confidence :: rat
  ms_divergence_expected :: rat
  ms_divergence_observed :: rat
  ms_repetition_tail :: rat
  ms_repetition_run :: u64
  ms_recent_ttl :: int
  ms_max_recent_sessions :: int

definition model_settings_of :: "seq_settings \<Rightarrow> model_settings" where
  "model_settings_of c = \<lparr>
     ms_session_ttl = cfg_session_ttl c div second, ms_session_absolute = cfg_session_absolute_ttl c div second,
     ms_transition_ttl = cfg_transition_ttl c div second, ms_workflow_ttl = cfg_workflow_ttl c div second,
     ms_stale_after = cfg_stale_after c div second, ms_max_sessions = cfg_max_sessions c,
     ms_max_transitions = cfg_max_transitions c, ms_max_workflows = cfg_max_workflows c,
     ms_max_workflow_ops = cfg_max_workflow_ops c, ms_max_recent_ops = cfg_max_recent_ops c,
     ms_min_observations = cfg_min_observations c, ms_min_sessions = cfg_min_sessions c,
     ms_min_learning = cfg_min_learning c div second, ms_confidence = cfg_confidence c,
     ms_queue_capacity = cfg_queue_capacity c, ms_violation_ttl = cfg_violation_ttl c div second,
     ms_max_violations = cfg_max_violations c, ms_max_exceptions = cfg_max_exceptions c,
     ms_entry_confidence = cfg_entry_confidence c, ms_divergence_expected = cfg_divergence_expected c,
     ms_divergence_observed = cfg_divergence_observed c, ms_repetition_tail = cfg_repetition_tail c,
     ms_repetition_run = cfg_repetition_run c, ms_recent_ttl = cfg_recent_ttl c div second,
     ms_max_recent_sessions = cfg_max_recent_sessions c\<rparr>"

record seq_model =
  sm_version :: int
  sm_generated_at :: gtime
  sm_settings :: model_settings
  sm_sessions :: "seq_session list"
  sm_transitions :: "seq_transition list"
  sm_workflows :: "workflow_model list"
  sm_violations :: "seq_violation list"
  sm_exceptions :: "seq_exception list"
  sm_recent :: "seq_recent list"
  sm_controls :: "seq_control list"
  sm_queue_depth :: nat
  sm_dropped :: u64
  sm_evicted_sessions :: u64
  sm_evicted_transitions :: u64
  sm_evicted_workflows :: u64
  sm_evicted_violations :: u64
  sm_evicted_recent :: u64

definition published_workflow :: "seq_settings \<Rightarrow> gtime \<Rightarrow> seq_state \<Rightarrow> seq_workflow \<Rightarrow> workflow_model" where
  "published_workflow c now st w =
     (let m = workflow_snapshot c now w in m\<lparr>wm_detection_state :=
        (if sequence_mode st (sw_site w) = mode_detect \<and> wm_maturity m = Mature then mode_detect else mode_learn)\<rparr>)"

definition violation_less :: "seq_violation \<Rightarrow> seq_violation \<Rightarrow> bool" where
  "violation_less a b \<longleftrightarrow> (if sv_time a = sv_time b then sv_id a < sv_id b else sv_time a < sv_time b)"

definition recent_less :: "seq_recent \<Rightarrow> seq_recent \<Rightarrow> bool" where
  "recent_less a b \<longleftrightarrow> (if sr_ended_at a = sr_ended_at b then sr_fingerprint a < sr_fingerprint b
     else sr_ended_at a < sr_ended_at b)"

text \<open>
  \<open>depth\<close> and \<open>dropped\<close> are the readings of the observation queue.
\<close>

definition publish :: "seq_settings \<Rightarrow> gtime \<Rightarrow> gtime \<Rightarrow> nat \<Rightarrow> u64 \<Rightarrow> seq_state \<Rightarrow> seq_model \<times> seq_state" where
  "publish c clk now depth dropped st =
     (let st = refresh_learning c now (prune_seq c clk now st) in
      (\<lparr>sm_version = state_version, sm_generated_at = now, sm_settings = model_settings_of c,
        sm_sessions = sort_by (\<lambda>a b. ss_key a < ss_key b) (gm_values (sq_sessions st)),
        sm_transitions = sort_by (\<lambda>a b. st_id a < st_id b) (gm_values (sq_transitions st)),
        sm_workflows = sort_by (\<lambda>a b. wm_id a < wm_id b)
          (map (published_workflow c now st) (gm_values (sq_workflows st))),
        sm_violations = sort_by violation_less (sq_violations st),
        sm_exceptions = sort_by (\<lambda>a b. sx_id a < sx_id b) (gm_values (sq_exceptions st)),
        sm_recent = sort_by recent_less (sq_recent st),
        sm_controls = sort_by (\<lambda>a b. sc_site a < sc_site b) (gm_values (sq_controls st)),
        sm_queue_depth = depth, sm_dropped = dropped,
        sm_evicted_sessions = sq_evicted_sessions st, sm_evicted_transitions = sq_evicted_transitions st,
        sm_evicted_workflows = sq_evicted_workflows st, sm_evicted_violations = sq_evicted_violations st,
        sm_evicted_recent = sq_evicted_recent st\<rparr>, st))"

section \<open>What a file may hold\<close>

record state_file =
  sf_version :: int
  sf_sessions :: "seq_session list"
  sf_transitions :: "seq_transition list"
  sf_workflows :: "workflow_model list"
  sf_violations :: "seq_violation list"
  sf_exceptions :: "seq_exception list"
  sf_recent :: "seq_recent list"
  sf_controls :: "seq_control list"

definition file_of_model :: "seq_model \<Rightarrow> state_file" where
  "file_of_model m = \<lparr>sf_version = state_version, sf_sessions = sm_sessions m, sf_transitions = sm_transitions m,
     sf_workflows = sm_workflows m, sf_violations = sm_violations m, sf_exceptions = sm_exceptions m,
     sf_recent = sm_recent m, sf_controls = sm_controls m\<rparr>"

definition correlation_kinds :: "string list" where
  "correlation_kinds = [''anonymous'', ''verified_identity'']"

definition valid_session :: "gtime \<Rightarrow> int \<Rightarrow> int \<Rightarrow> seq_session \<Rightarrow> bool" where
  "valid_session now recent_limit seen_limit v \<longleftrightarrow>
     length (ss_key v) = 40 \<and> ss_correlation_kind v \<in> set correlation_kinds \<and>
     trim_space (ss_site v) \<noteq> [] \<and> valid_operation_id (ss_current_op v) \<and> now < ss_expires_at v \<and>
     \<not> (\<not> time_is_zero (ss_absolute_expires_at v) \<and> \<not> now < ss_absolute_expires_at v) \<and>
     int (length (ss_recent_ops v)) \<le> recent_limit \<and> int (length (ss_seen_transitions v)) \<le> seen_limit \<and>
     hex_decodes (ss_key v) \<and> list_all valid_operation_id (ss_recent_ops v)"

definition valid_transition :: "gtime \<Rightarrow> seq_transition \<Rightarrow> bool" where
  "valid_transition now v \<longleftrightarrow>
     length (st_id v) = 40 \<and> trim_space (st_site v) \<noteq> [] \<and> valid_operation_id (st_from v) \<and>
     valid_operation_id (st_to v) \<and> now < st_expires_at v \<and> 0 \<le> st_confidence v \<and> st_confidence v \<le> 1 \<and>
     hex_decodes (st_id v)"

definition valid_workflow :: "seq_settings \<Rightarrow> gtime \<Rightarrow> workflow_model \<Rightarrow> bool" where
  "valid_workflow c now v \<longleftrightarrow>
     length (wm_id v) = 40 \<and> trim_space (wm_site v) \<noteq> [] \<and>
     wm_identity_kind v \<in> {''anonymous'', ''authenticated'', ''legacy''} \<and>
     \<not> time_is_zero (wm_first_seen v) \<and> \<not> time_is_zero (wm_last_seen v) \<and>
     \<not> wm_last_seen v < wm_first_seen v \<and> time_sub now (wm_last_seen v) < cfg_workflow_ttl c \<and>
     list_all (\<lambda>(op, _). valid_operation_id op) (wm_entry_ops v @ wm_terminal_ops v)"

definition valid_violation :: "gtime \<Rightarrow> seq_violation \<Rightarrow> bool" where
  "valid_violation now v \<longleftrightarrow>
     length (sv_id v) = 40 \<and> length (sv_workflow_id v) = 40 \<and> length (sv_session v) = 40 \<and>
     trim_space (sv_site v) \<noteq> [] \<and> valid_anomaly_type (sv_type v) \<and> \<not> time_is_zero (sv_time v) \<and>
     now < sv_expires_at v \<and> sv_maturity v = Mature \<and>
     list_all optional_operation_id [sv_from v, sv_to v, sv_related v] \<and>
     list_all (\<lambda>x. 0 \<le> x \<and> x \<le> 1) [sv_transition_confidence v, sv_expected_confidence v] \<and>
     hex_decodes (sv_id v) \<and> hex_decodes (sv_workflow_id v) \<and> hex_decodes (sv_session v)"

definition valid_recent :: "gtime \<Rightarrow> seq_recent \<Rightarrow> bool" where
  "valid_recent now v \<longleftrightarrow>
     length (sr_fingerprint v) = 40 \<and> length (sr_workflow_id v) = 40 \<and> valid_site (sr_site v) \<and>
     sr_correlation_kind v \<in> set correlation_kinds \<and> valid_operation_id (sr_terminal_op v) \<and>
     now < sr_expires_at v \<and> \<not> time_is_zero (sr_ended_at v) \<and> \<not> time_is_zero (sr_started_at v) \<and>
     \<not> sr_ended_at v < sr_started_at v \<and> optional_operation_id (sr_entry_op v)"

definition valid_control :: "seq_control \<Rightarrow> bool" where
  "valid_control v \<longleftrightarrow> valid_site (sc_site v) \<and> valid_mode (sc_mode v)"

section \<open>Reading the file\<close>

definition load_operations :: "int \<Rightarrow> (string \<times> u64) list \<Rightarrow> (string, u64) gomap" where
  "load_operations mx ops = fold (\<lambda>(op, n) m. if int (length m) \<ge> mx then m else gm_put op n m) ops []"

definition workflow_of_model :: "seq_settings \<Rightarrow> workflow_model \<Rightarrow> seq_workflow" where
  "workflow_of_model c v = \<lparr>sw_id = wm_id v, sw_site = wm_site v, sw_identity_kind = wm_identity_kind v,
     sw_observations = wm_observations v, sw_sessions = wm_sessions v, sw_first_seen = wm_first_seen v,
     sw_last_seen = wm_last_seen v, sw_max_depth = wm_max_depth v,
     sw_entry_ops = load_operations (cfg_max_workflow_ops c) (wm_entry_ops v),
     sw_terminal_ops = load_operations (cfg_max_workflow_ops c) (wm_terminal_ops v)\<rparr>"

text \<open>A table read entry by entry: an entry that is not valid, or finds the table full, is passed over.\<close>

definition load_table :: "int \<Rightarrow> ('v \<Rightarrow> bool) \<Rightarrow> ('v \<Rightarrow> 'k) \<Rightarrow> ('v \<Rightarrow> 'w) \<Rightarrow> 'v list \<Rightarrow> ('k, 'w) gomap \<Rightarrow> ('k, 'w) gomap" where
  "load_table mx ok key conv vs m =
     fold (\<lambda>v m. if int (length m) \<ge> mx \<or> \<not> ok v then m else gm_put (key v) (conv v) m) vs m"

definition load_log :: "int \<Rightarrow> ('v \<Rightarrow> bool) \<Rightarrow> 'v list \<Rightarrow> 'v list \<Rightarrow> 'v list" where
  "load_log mx ok vs xs = fold (\<lambda>v xs. if int (length xs) \<ge> mx \<or> \<not> ok v then xs else xs @ [v]) vs xs"

definition loaded_transition :: "seq_transition \<Rightarrow> seq_transition" where
  "loaded_transition v =
     (let n = (if st_observations v = 0 then st_count v else st_observations v)
      in v\<lparr>st_observations := n, st_count := n\<rparr>)"

definition load_tables :: "seq_settings \<Rightarrow> gtime \<Rightarrow> state_file \<Rightarrow> seq_state \<Rightarrow> seq_state" where
  "load_tables c now f st = st\<lparr>
     sq_workflows := load_table (cfg_max_workflows c) (valid_workflow c now) wm_id (workflow_of_model c)
       (sf_workflows f) (sq_workflows st),
     sq_sessions := load_table (cfg_max_sessions c)
       (valid_session now (cfg_max_recent_ops c) (cfg_max_seen_transitions c)) ss_key id
       (sf_sessions f) (sq_sessions st),
     sq_transitions := load_table (cfg_max_transitions c) (valid_transition now) st_id loaded_transition
       (sf_transitions f) (sq_transitions st),
     sq_violations := load_log (cfg_max_violations c) (valid_violation now) (sf_violations f) (sq_violations st),
     sq_exceptions := load_table (cfg_max_exceptions c) (valid_exception now) sx_id id
       (sf_exceptions f) (sq_exceptions st),
     sq_recent := load_log (cfg_max_recent_sessions c) (valid_recent now) (sf_recent f) (sq_recent st),
     sq_controls := load_table (cfg_max_workflows c) valid_control sc_site id (sf_controls f) (sq_controls st)\<rparr>"

section \<open>Migration of version 1\<close>

text \<open>The memo of the identifiers in the code is left out: it holds the digest of its own key.\<close>

definition legacy_workflow_id :: "seq_env \<Rightarrow> string \<Rightarrow> string \<Rightarrow> string" where
  "legacy_workflow_id env site kind = se_digest env (join_nul [''workflow'', site, ''legacy'', kind])"

definition legacy_workflow :: "string \<Rightarrow> string \<Rightarrow> string \<Rightarrow> gtime \<Rightarrow> gtime \<Rightarrow> seq_workflow" where
  "legacy_workflow wid site kind first_seen last_seen = \<lparr>sw_id = wid, sw_site = site, sw_identity_kind = kind,
     sw_observations = 0, sw_sessions = 0, sw_first_seen = first_seen, sw_last_seen = last_seen,
     sw_max_depth = 0, sw_entry_ops = [], sw_terminal_ops = []\<rparr>"

text \<open>The workflow of an entry of the old file, made when there is room.\<close>

definition ensure_legacy :: "seq_settings \<Rightarrow> seq_workflow \<Rightarrow> seq_state \<Rightarrow> seq_state" where
  "ensure_legacy c w st =
     (if gm_has (sq_workflows st) (sw_id w) \<or> int (length (sq_workflows st)) \<ge> cfg_max_workflows c then st
      else st\<lparr>sq_workflows := gm_put (sw_id w) w (sq_workflows st)\<rparr>)"

definition migrated_session :: "seq_env \<Rightarrow> seq_settings \<Rightarrow> seq_session \<Rightarrow> seq_session" where
  "migrated_session env c v =
     (let kind = (if ss_correlation_kind v = ''verified_identity'' then ''legacy'' else ''anonymous'');
          absolute = ss_started_at v + cfg_session_absolute_ttl c
      in v\<lparr>ss_workflow_id := legacy_workflow_id env (ss_site v) kind,
           ss_entry_op := (case ss_recent_ops v of [] \<Rightarrow> ss_entry_op v | op # _ \<Rightarrow> op),
           ss_workflow_depth := ss_request_count v, ss_absolute_expires_at := absolute,
           ss_expires_at := (if absolute < ss_expires_at v then absolute else ss_expires_at v)\<rparr>)"

definition learn_legacy_session :: "seq_settings \<Rightarrow> seq_session \<Rightarrow> seq_state \<Rightarrow> seq_state" where
  "learn_legacy_session c v st =
     (let kind = (if ss_correlation_kind v = ''verified_identity'' then ''legacy'' else ''anonymous'')
      in update_workflow (ss_workflow_id v)
        (\<lambda>w. w\<lparr>sw_sessions := sw_sessions w + 1, sw_observations := sw_observations w + ss_request_count v,
          sw_max_depth := (if ss_workflow_depth v > sw_max_depth w then ss_workflow_depth v else sw_max_depth w),
          sw_entry_ops := bounded_increment (ss_entry_op v) (cfg_max_workflow_ops c) (sw_entry_ops w)\<rparr>)
        (ensure_legacy c (legacy_workflow (ss_workflow_id v) (ss_site v) kind (ss_started_at v) (ss_last_seen v)) st))"

definition migrated_transition :: "seq_env \<Rightarrow> seq_transition \<Rightarrow> seq_transition" where
  "migrated_transition env v =
     (let wid = legacy_workflow_id env (st_site v) ''transition''
      in v\<lparr>st_workflow_id := wid, st_observations := st_count v, st_sessions := 0, st_maturity := Learning,
           st_id := transition_id env (st_site v) wid (st_from v) (st_to v)\<rparr>)"

definition learn_legacy_transition :: "seq_settings \<Rightarrow> seq_transition \<Rightarrow> seq_state \<Rightarrow> seq_state" where
  "learn_legacy_transition c v st =
     update_workflow (st_workflow_id v)
       (\<lambda>w. w\<lparr>sw_observations := sw_observations w + st_count v,
         sw_first_seen := (if time_is_zero (sw_first_seen w) \<or>
             (\<not> time_is_zero (st_first_seen v) \<and> st_first_seen v < sw_first_seen w)
           then st_first_seen v else sw_first_seen w),
         sw_last_seen := (if sw_last_seen w < st_last_seen v then st_last_seen v else sw_last_seen w)\<rparr>)
       (ensure_legacy c (legacy_workflow (st_workflow_id v) (st_site v) ''legacy'' (st_first_seen v) (st_last_seen v)) st)"

definition migrate_v1 :: "seq_env \<Rightarrow> seq_settings \<Rightarrow> gtime \<Rightarrow> state_file \<Rightarrow> seq_state \<Rightarrow> state_file \<times> seq_state" where
  "migrate_v1 env c now f st =
     (let sessions = map (migrated_session env c) (sf_sessions f);
          st = fold (\<lambda>v. if now < ss_expires_at v then learn_legacy_session c v else id) sessions st;
          transitions = map (migrated_transition env) (sf_transitions f);
          st = fold (learn_legacy_transition c) transitions st;
          workflows = (if sf_workflows f = [] then map (workflow_snapshot c now) (gm_values (sq_workflows st))
            else sf_workflows f)
      in (f\<lparr>sf_sessions := sessions, sf_transitions := transitions, sf_workflows := workflows\<rparr>, st))"

text \<open>\<^verbatim>\<open>load\<close>, up to the snapshot it ends with; None is the error of an unknown version.\<close>

definition load_state :: "seq_env \<Rightarrow> seq_settings \<Rightarrow> gtime \<Rightarrow> state_file \<Rightarrow> seq_state \<Rightarrow> seq_state option" where
  "load_state env c now f st =
     (if sf_version f \<notin> {0, 1, 2, 3, state_version} then None
      else
        let (f, st) = (if sf_version f = 1 then migrate_v1 env c now f st else (f, st))
        in Some (load_tables c now f st))"

section \<open>The read model of the console\<close>

record learning_state =
  ls_site :: string
  ls_mode :: string
  ls_generation :: u64
  ls_updated_at :: gtime
  ls_workflows :: nat
  ls_learning :: nat
  ls_mature :: nat
  ls_stale :: nat
  ls_transitions :: nat
  ls_sessions :: nat
  ls_recent :: nat
  ls_violations :: nat
  ls_exceptions :: nat

definition new_learning_state :: "string \<Rightarrow> learning_state" where
  "new_learning_state site = \<lparr>ls_site = site, ls_mode = mode_learn, ls_generation = 0, ls_updated_at = 0,
     ls_workflows = 0, ls_learning = 0, ls_mature = 0, ls_stale = 0, ls_transitions = 0, ls_sessions = 0,
     ls_recent = 0, ls_violations = 0, ls_exceptions = 0\<rparr>"

type_synonym site_states = "(string, learning_state) gomap"

definition at_site :: "string \<Rightarrow> (learning_state \<Rightarrow> learning_state) \<Rightarrow> site_states \<Rightarrow> site_states" where
  "at_site site f m = gm_put site
     (f (case gm_get m site of None \<Rightarrow> new_learning_state site | Some v \<Rightarrow> v)) m"

definition note_control :: "seq_control \<Rightarrow> learning_state \<Rightarrow> learning_state" where
  "note_control x v = v\<lparr>ls_mode := sc_mode x, ls_generation := sc_generation x, ls_updated_at := sc_updated_at x\<rparr>"

definition note_workflow :: "workflow_model \<Rightarrow> learning_state \<Rightarrow> learning_state" where
  "note_workflow w v =
     (let v = v\<lparr>ls_workflows := ls_workflows v + 1\<rparr> in
      case wm_maturity w of
        Mature \<Rightarrow> v\<lparr>ls_mature := ls_mature v + 1\<rparr>
      | Stale \<Rightarrow> v\<lparr>ls_stale := ls_stale v + 1\<rparr>
      | Learning \<Rightarrow> v\<lparr>ls_learning := ls_learning v + 1\<rparr>)"

definition learning_states :: "seq_model \<Rightarrow> learning_state list" where
  "learning_states m =
     (let t = fold (\<lambda>x. at_site (sc_site x) (note_control x)) (sm_controls m) [];
          t = fold (\<lambda>w. at_site (wm_site w) (note_workflow w)) (sm_workflows m) t;
          t = fold (\<lambda>e. at_site (st_site e) (\<lambda>v. v\<lparr>ls_transitions := ls_transitions v + 1\<rparr>)) (sm_transitions m) t;
          t = fold (\<lambda>s. at_site (ss_site s) (\<lambda>v. v\<lparr>ls_sessions := ls_sessions v + 1\<rparr>)) (sm_sessions m) t;
          t = fold (\<lambda>s. at_site (sr_site s) (\<lambda>v. v\<lparr>ls_recent := ls_recent v + 1\<rparr>)) (sm_recent m) t;
          t = fold (\<lambda>x. at_site (sv_site x) (\<lambda>v. v\<lparr>ls_violations := ls_violations v + 1\<rparr>)) (sm_violations m) t;
          t = fold (\<lambda>x. at_site (sx_site x) (\<lambda>v. v\<lparr>ls_exceptions := ls_exceptions v + 1\<rparr>)) (sm_exceptions m) t
      in sort_by (\<lambda>a b. ls_site a < ls_site b) (gm_values t))"

end
