(* ===== verification/Sequence_Bounds.thy ===== *)
theory Sequence_Bounds
  imports Sequence_Persist
begin

text \<open>
  The limits of the sequence engine's tables: an invariant every operation of
  \<^verbatim>\<open>sequence_api61.go\<close> to \<^verbatim>\<open>sequence_api64.go\<close> keeps.
\<close>

section \<open>The tables stay within their limits\<close>

definition workflow_ok :: "seq_settings \<Rightarrow> seq_workflow \<Rightarrow> bool" where
  "workflow_ok c w \<longleftrightarrow> bounded_map (cfg_max_workflow_ops c) (\<lambda>_ _. True) (sw_entry_ops w) \<and>
     bounded_map (cfg_max_workflow_ops c) (\<lambda>_ _. True) (sw_terminal_ops w)"

definition session_ok :: "seq_settings \<Rightarrow> seq_session \<Rightarrow> bool" where
  "session_ok c s \<longleftrightarrow> int (length (ss_recent_ops s)) \<le> cfg_max_recent_ops c \<and>
     int (length (ss_seen_transitions s)) \<le> cfg_max_seen_transitions c"

definition sessions_ok :: "seq_settings \<Rightarrow> seq_state \<Rightarrow> bool" where
  "sessions_ok c st \<longleftrightarrow> bounded_map (cfg_max_sessions c) (\<lambda>_. session_ok c) (sq_sessions st)"

definition transitions_ok :: "seq_settings \<Rightarrow> seq_state \<Rightarrow> bool" where
  "transitions_ok c st \<longleftrightarrow> bounded_map (cfg_max_transitions c) (\<lambda>_ _. True) (sq_transitions st)"

definition workflows_ok :: "seq_settings \<Rightarrow> seq_state \<Rightarrow> bool" where
  "workflows_ok c st \<longleftrightarrow> bounded_map (cfg_max_workflows c) (\<lambda>_. workflow_ok c) (sq_workflows st)"

definition logs_ok :: "seq_settings \<Rightarrow> seq_state \<Rightarrow> bool" where
  "logs_ok c st \<longleftrightarrow> int (length (sq_violations st)) \<le> cfg_max_violations c \<and>
     int (length (sq_recent st)) \<le> cfg_max_recent_sessions c"

definition operator_ok :: "seq_settings \<Rightarrow> seq_state \<Rightarrow> bool" where
  "operator_ok c st \<longleftrightarrow> bounded_map (cfg_max_exceptions c) (\<lambda>_ _. True) (sq_exceptions st) \<and>
     bounded_map (cfg_max_workflows c) (\<lambda>_ x. valid_mode (sc_mode x)) (sq_controls st)"

definition seq_inv :: "seq_settings \<Rightarrow> seq_state \<Rightarrow> bool" where
  "seq_inv c st \<longleftrightarrow> sessions_ok c st \<and> transitions_ok c st \<and> workflows_ok c st \<and> logs_ok c st \<and> operator_ok c st"

lemmas table_defs = sessions_ok_def transitions_ok_def workflows_ok_def logs_ok_def operator_ok_def

lemma new_seq_inv: "limits_ok c \<Longrightarrow> seq_inv c new_seq_state"
  by (simp add: seq_inv_def table_defs new_seq_state_def limits_ok_def)

lemma seq_inv_append_violation:
  "limits_ok c \<Longrightarrow> seq_inv c st \<Longrightarrow> seq_inv c (append_violation env c v st)"
  by (auto simp: seq_inv_def table_defs append_violation_def Let_def limits_ok_def length_push_bounded)

lemma seq_inv_detect:
  assumes "limits_ok c" and "seq_inv c st"
  shows "seq_inv c (detect_unexpected_entry env c ev st)"
    and "seq_inv c (detect_transition_anomalies env c ev s from_op st)"
proof -
  show "seq_inv c (detect_unexpected_entry env c ev st)"
    using assms by (auto simp: detect_unexpected_entry_def intro: seq_inv_append_violation split: option.splits)
  have "seq_inv c (fold (append_violation env c) vs st)" for vs
    using assms(2) by (rule fold_invariant) (rule seq_inv_append_violation [OF assms(1)])
  then show "seq_inv c (detect_transition_anomalies env c ev s from_op st)"
    by (simp add: detect_transition_anomalies_def)
qed

lemma seq_inv_record_recent:
  "limits_ok c \<Longrightarrow> seq_inv c st \<Longrightarrow> seq_inv c (record_recent c clk s t st)"
  by (auto simp: seq_inv_def table_defs record_recent_def Let_def limits_ok_def length_push_bounded)

lemma record_recent_frame [simp]:
  "sq_sessions (record_recent c clk s t st) = sq_sessions st"
  "sq_transitions (record_recent c clk s t st) = sq_transitions st"
  "sq_workflows (record_recent c clk s t st) = sq_workflows st"
  "sq_violations (record_recent c clk s t st) = sq_violations st"
  "sq_exceptions (record_recent c clk s t st) = sq_exceptions st"
  "sq_controls (record_recent c clk s t st) = sq_controls st"
  by (simp_all add: record_recent_def Let_def)

lemma update_workflow_frame [simp]:
  "sq_sessions (update_workflow wid f st) = sq_sessions st"
  "sq_transitions (update_workflow wid f st) = sq_transitions st"
  "sq_violations (update_workflow wid f st) = sq_violations st"
  "sq_recent (update_workflow wid f st) = sq_recent st"
  "sq_exceptions (update_workflow wid f st) = sq_exceptions st"
  "sq_controls (update_workflow wid f st) = sq_controls st"
  by (simp_all add: update_workflow_def split: option.splits)

lemma seq_inv_update_workflow:
  assumes "seq_inv c st" and "\<And>w. workflow_ok c w \<Longrightarrow> workflow_ok c (f w)"
  shows "seq_inv c (update_workflow wid f st)"
proof (cases "gm_get (sq_workflows st) wid")
  case (Some w)
  from assms(1) have b: "bounded_map (cfg_max_workflows c) (\<lambda>_. workflow_ok c) (sq_workflows st)"
    by (simp add: seq_inv_def workflows_ok_def)
  from bounded_map_get [OF b Some] have "workflow_ok c (f w)" by (rule assms(2))
  with b have "bounded_map (cfg_max_workflows c) (\<lambda>_. workflow_ok c) (gm_put wid (f w) (sq_workflows st))"
    by (rule bounded_map_put [OF _ has_room_get [OF Some]])
  with assms(1) Some show ?thesis by (simp add: update_workflow_def seq_inv_def table_defs)
qed (use assms(1) in \<open>simp add: update_workflow_def\<close>)

lemma bounded_increment_ok:
  assumes "bounded_map mx (\<lambda>_ _. True) m"
  shows "bounded_map mx (\<lambda>_ _. True) (bounded_increment op mx m)"
  using assms by (auto simp: bounded_increment_def has_room_def gm_has_def split: option.splits)

lemma note_seen_fields [simp]:
  "sw_entry_ops (note_seen t w) = sw_entry_ops w" "sw_terminal_ops (note_seen t w) = sw_terminal_ops w"
  "sw_observations (note_seen t w) = sw_observations w" "sw_sessions (note_seen t w) = sw_sessions w"
  "sw_site (note_seen t w) = sw_site w"
  by (simp_all add: note_seen_def)

lemma seq_inv_finalize:
  "limits_ok c \<Longrightarrow> seq_inv c st \<Longrightarrow> seq_inv c (finalize_session c clk s t st)"
  by (auto simp: finalize_session_def workflow_ok_def
      intro!: seq_inv_update_workflow seq_inv_record_recent bounded_increment_ok)

lemma finalize_frame [simp]:
  "sq_sessions (finalize_session c clk s t st) = sq_sessions st"
  "sq_transitions (finalize_session c clk s t st) = sq_transitions st"
  "sq_violations (finalize_session c clk s t st) = sq_violations st"
  "sq_exceptions (finalize_session c clk s t st) = sq_exceptions st"
  "sq_controls (finalize_session c clk s t st) = sq_controls st"
  by (simp_all add: finalize_session_def)

text \<open>Dropping sessions leaves the room there was.\<close>

definition session_room :: "seq_settings \<Rightarrow> string \<Rightarrow> seq_state \<Rightarrow> bool" where
  "session_room c k st \<longleftrightarrow> has_room (cfg_max_sessions c) k (sq_sessions st)"

lemma seq_inv_drop_session:
  "limits_ok c \<Longrightarrow> seq_inv c st \<Longrightarrow> seq_inv c (drop_session c clk t k s st)"
  using seq_inv_finalize [of c st clk s t]
  by (auto simp: drop_session_def Let_def seq_inv_def table_defs)

lemma session_room_del:
  "seq_inv c st \<Longrightarrow> session_room c k st \<Longrightarrow> has_room (cfg_max_sessions c) k (gm_del k' (sq_sessions st))"
  by (auto simp: seq_inv_def sessions_ok_def session_room_def intro: has_room_del)

lemma session_room_drop_session:
  "seq_inv c st \<Longrightarrow> session_room c k st \<Longrightarrow> session_room c k (drop_session c clk t k' s st)"
  using session_room_del [of c st k k'] by (simp add: drop_session_def Let_def session_room_def)

lemma seq_inv_fold_drop:
  assumes "limits_ok c" and "seq_inv c st"
  shows "seq_inv c (fold (\<lambda>(k, s) st. if p k s then drop_session c clk t k s st else st) xs st)"
  by (rule fold_invariant [where P = "seq_inv c"])
    (auto simp: assms(2) intro: seq_inv_drop_session [OF assms(1)])

lemma seq_inv_prune:
  assumes "limits_ok c" and "seq_inv c st"
  shows "seq_inv c (prune_seq c clk now st)"
proof -
  have "seq_inv c (prune_operations now (prune_detection now st))"
    using assms(2)
    by (auto simp: prune_operations_def prune_detection_def seq_inv_def table_defs
        intro: order_trans [OF of_nat_mono [OF length_filter_le]])
  then have "seq_inv c (prune_sessions c clk now (prune_operations now (prune_detection now st)))"
    unfolding prune_sessions_def by (rule seq_inv_fold_drop [OF assms(1)])
  then show ?thesis by (auto simp: prune_seq_def Let_def seq_inv_def table_defs)
qed

lemma ensure_session_capacity_ok:
  assumes "limits_ok c" and "seq_inv c st"
  shows "seq_inv c (ensure_session_capacity c clk now st) \<and> session_room c k (ensure_session_capacity c clk now st)"
proof (cases "int (length (sq_sessions st)) < cfg_max_sessions c")
  case True
  with assms show ?thesis by (simp add: ensure_session_capacity_def session_room_def has_room_def)
next
  case False
  with assms(1) have "sq_sessions st \<noteq> []" by (auto simp: limits_ok_def)
  then obtain j where j: "oldest ss_last_seen (sq_sessions st) = Some j"
    by (cases "oldest ss_last_seen (sq_sessions st)") (auto simp: oldest_None_iff)
  then have has: "gm_has (sq_sessions st) j" by (rule oldest_has)
  then obtain s where s: "gm_get (sq_sessions st) j = Some s" by (auto simp: gm_has_def)
  have "int (length (gm_del j (sq_sessions st))) < cfg_max_sessions c"
    using assms(2) has by (auto simp: seq_inv_def sessions_ok_def intro: has_room_del_oldest)
  with seq_inv_drop_session [OF assms, of clk now j s] False j s show ?thesis
    by (simp add: ensure_session_capacity_def Let_def seq_inv_def table_defs session_room_def has_room_def
        drop_session_def)
qed

lemma ensure_transition_capacity_ok:
  assumes "limits_ok c" and "seq_inv c st"
  shows "seq_inv c (ensure_transition_capacity c st) \<and>
    has_room (cfg_max_transitions c) k (sq_transitions (ensure_transition_capacity c st))"
proof (cases "int (length (sq_transitions st)) < cfg_max_transitions c")
  case True
  with assms show ?thesis by (simp add: ensure_transition_capacity_def has_room_def)
next
  case False
  with assms(1) have "sq_transitions st \<noteq> []" by (auto simp: limits_ok_def)
  then obtain j where j: "oldest st_last_seen (sq_transitions st) = Some j"
    by (cases "oldest st_last_seen (sq_transitions st)") (auto simp: oldest_None_iff)
  then have "gm_has (sq_transitions st) j" by (rule oldest_has)
  with assms(2) have "int (length (gm_del j (sq_transitions st))) < cfg_max_transitions c"
    by (auto simp: seq_inv_def transitions_ok_def intro: has_room_del_oldest)
  with False j assms(2) show ?thesis
    by (auto simp: ensure_transition_capacity_def seq_inv_def table_defs has_room_def)
qed

lemma drop_workflow_sessions_ok:
  assumes "limits_ok c" and "seq_inv c st"
  shows "seq_inv c (drop_workflow_sessions c clk now wid st) \<and>
    sq_workflows (drop_workflow_sessions c clk now wid st) = sq_workflows st \<and>
    (session_room c k st \<longrightarrow> session_room c k (drop_workflow_sessions c clk now wid st))"
proof -
  define f where "f = (\<lambda>(k, s) st. if ss_workflow_id s = wid then
      let st = record_recent c clk s now st
      in st\<lparr>sq_sessions := gm_del k (sq_sessions st), sq_evicted_sessions := sq_evicted_sessions st + 1\<rparr>
    else st)"
  have step: "seq_inv c (f x st') \<and> sq_workflows (f x st') = sq_workflows st' \<and>
      (session_room c k st' \<longrightarrow> session_room c k (f x st'))" if "seq_inv c st'" for x st'
    using that seq_inv_record_recent [OF assms(1) that, of clk "snd x" now] session_room_del [OF that, of k]
    by (cases x) (auto simp: f_def Let_def seq_inv_def table_defs session_room_def)
  have "seq_inv c (fold f xs st) \<and> sq_workflows (fold f xs st) = sq_workflows st \<and>
      (session_room c k st \<longrightarrow> session_room c k (fold f xs st))" for xs
    using assms(2) by (induction xs arbitrary: st) (use step in auto)
  then show ?thesis by (simp add: drop_workflow_sessions_def f_def)
qed

lemma drop_workflow_edges_ok:
  assumes "seq_inv c st"
  shows "seq_inv c (drop_workflow_edges wid st)"
    and "session_room c k (drop_workflow_edges wid st) \<longleftrightarrow> session_room c k st"
    and "sq_workflows (drop_workflow_edges wid st) = sq_workflows st"
  using assms by (auto simp: drop_workflow_edges_def Let_def seq_inv_def table_defs session_room_def)

lemma ensure_workflow_capacity_ok:
  assumes "limits_ok c" and "seq_inv c st"
  shows "seq_inv c (ensure_workflow_capacity c clk now st) \<and>
    has_room (cfg_max_workflows c) wid (sq_workflows (ensure_workflow_capacity c clk now st)) \<and>
    (session_room c k st \<longrightarrow> session_room c k (ensure_workflow_capacity c clk now st))"
proof (cases "int (length (sq_workflows st)) < cfg_max_workflows c")
  case True
  with assms show ?thesis by (simp add: ensure_workflow_capacity_def has_room_def)
next
  case False
  with assms(1) have "sq_workflows st \<noteq> []" by (auto simp: limits_ok_def)
  then obtain j where j: "oldest sw_last_seen (sq_workflows st) = Some j"
    by (cases "oldest sw_last_seen (sq_workflows st)") (auto simp: oldest_None_iff)
  then have "gm_has (sq_workflows st) j" by (rule oldest_has)
  with assms(2) have len: "int (length (gm_del j (sq_workflows st))) < cfg_max_workflows c"
    by (auto simp: seq_inv_def workflows_ok_def intro: has_room_del_oldest)
  define st1 where "st1 = st\<lparr>sq_workflows := gm_del j (sq_workflows st),
    sq_evicted_workflows := sq_evicted_workflows st + 1\<rparr>"
  have 1: "seq_inv c st1" using assms(2) by (auto simp: st1_def seq_inv_def table_defs)
  have "ensure_workflow_capacity c clk now st = drop_workflow_sessions c clk now j (drop_workflow_edges j st1)"
    using False j by (simp add: ensure_workflow_capacity_def st1_def)
  with drop_workflow_sessions_ok [OF assms(1) drop_workflow_edges_ok(1) [OF 1], of clk now j j k] len
  show ?thesis
    by (simp add: drop_workflow_edges_ok(2,3) [OF 1] has_room_def) (simp add: st1_def session_room_def)
qed

lemma ensure_workflow_ok:
  assumes "limits_ok c" and "seq_inv c st"
  shows "seq_inv c (ensure_workflow c clk ev st) \<and>
    gm_has (sq_workflows (ensure_workflow c clk ev st)) (so_workflow_id ev) \<and>
    (session_room c k st \<longrightarrow> session_room c k (ensure_workflow c clk ev st))"
proof (cases "gm_has (sq_workflows st) (so_workflow_id ev)")
  case True
  with assms show ?thesis by (simp add: ensure_workflow_def)
next
  case False
  have "workflow_ok c (new_workflow ev)"
    using assms(1) by (simp add: workflow_ok_def new_workflow_def limits_ok_def)
  with ensure_workflow_capacity_ok [OF assms, of clk "so_at ev" "so_workflow_id ev" k] False
  show ?thesis
    by (auto simp: ensure_workflow_def Let_def seq_inv_def table_defs session_room_def gm_has_def gm_get_put)
qed

lemma note_session_start_ok:
  assumes "limits_ok c" and "seq_inv c st"
  shows "seq_inv c (note_session_start c clk ev st) \<and>
    (session_room c k st \<longrightarrow> session_room c k (note_session_start c clk ev st))"
  using ensure_workflow_ok [OF assms, of clk ev k]
  by (auto simp: note_session_start_def session_room_def workflow_ok_def
      intro!: seq_inv_update_workflow bounded_increment_ok)

lemma note_observation_ok:
  assumes "limits_ok c" and "seq_inv c st"
  shows "seq_inv c (note_observation c clk ev depth st) \<and>
    (session_room c k st \<longrightarrow> session_room c k (note_observation c clk ev depth st))"
  using ensure_workflow_ok [OF assms, of clk ev k]
  by (auto simp: note_observation_def session_room_def workflow_ok_def intro!: seq_inv_update_workflow)

lemma detect_entry_room [simp]:
  "session_room c k (detect_unexpected_entry env c ev st) \<longleftrightarrow> session_room c k st"
  by (simp add: session_room_def detect_frame)

text \<open>What an observation's session is when it is opened.\<close>

lemma open_session_ok:
  assumes "limits_ok c" and "seq_inv c st" and "open_session env c clk ev st = (s, st')"
  shows "seq_inv c st'" and "session_ok c s" and "session_room c (so_session_key ev) st'"
proof -
  define fresh where "fresh = (\<lambda>st. note_session_start c clk ev (ensure_session_capacity c clk (so_at ev)
    (detect_unexpected_entry env c ev st)))"
  have opens: "seq_inv c (fresh st0) \<and> session_room c (so_session_key ev) (fresh st0)" if "seq_inv c st0" for st0
    using ensure_session_capacity_ok [OF assms(1) seq_inv_detect(1) [OF assms(1) that], of clk "so_at ev" env ev "so_session_key ev"]
      note_session_start_ok [OF assms(1)]
    unfolding fresh_def by blast
  have new: "session_ok c (new_session c ev)"
    using assms(1) by (simp add: session_ok_def new_session_def limits_ok_def)
  have "seq_inv c st' \<and> session_ok c s \<and> session_room c (so_session_key ev) st'"
  proof (cases "gm_get (sq_sessions st) (so_session_key ev)")
    case None
    with assms(2,3) opens new show ?thesis by (auto simp: open_session_def fresh_def Let_def)
  next
    case (Some s0)
    show ?thesis
    proof (cases "\<not> time_is_zero (ss_absolute_expires_at s0) \<and> \<not> so_at ev < ss_absolute_expires_at s0")
      case True
      with Some assms(3) have "s = new_session c ev"
          and "st' = fresh (drop_session c clk (so_at ev) (so_session_key ev) s0 st)"
        by (auto simp: open_session_def fresh_def Let_def)
      with new opens [OF seq_inv_drop_session [OF assms(1,2)]] show ?thesis by simp
    next
      case False
      with Some assms(3) have "s = s0" "st' = st" by (auto simp: open_session_def Let_def)
      moreover have "session_ok c s0"
        using assms(2) Some by (auto simp: seq_inv_def sessions_ok_def dest: bounded_map_get)
      ultimately show ?thesis
        using assms(2) Some by (auto simp: session_ok_def session_room_def intro: has_room_get)
    qed
  qed
  then show "seq_inv c st'" and "session_ok c s" and "session_room c (so_session_key ev) st'" by auto
qed

lemma note_transition_ok:
  assumes "limits_ok c" and "seq_inv c st" and "note_transition env c ev from_op s st = (s', st')"
  shows "seq_inv c st'" and "session_ok c s \<Longrightarrow> session_ok c s'" and "sq_sessions st' = sq_sessions st"
proof -
  define tid where "tid = transition_id env (so_site ev) (so_workflow_id ev) from_op (so_operation_id ev)"
  have frame: "sq_sessions (ensure_transition_capacity c st) = sq_sessions st"
    by (simp add: ensure_transition_capacity_def split: option.splits)
  have put: "seq_inv c (st0\<lparr>sq_transitions := gm_put tid e (sq_transitions st0)\<rparr>)"
    if "seq_inv c st0" and "has_room (cfg_max_transitions c) tid (sq_transitions st0)" for st0 e
    using that by (auto simp: seq_inv_def table_defs)
  show "seq_inv c st'"
    using assms(2,3) put ensure_transition_capacity_ok [OF assms(1,2), of tid]
    by (auto simp: note_transition_def Let_def tid_def split: option.splits if_splits intro: has_room_get)
  show "sq_sessions st' = sq_sessions st"
    using assms(3) frame by (auto simp: note_transition_def Let_def split: option.splits)
  show "session_ok c s \<Longrightarrow> session_ok c s'"
    using assms(3) by (auto simp: note_transition_def Let_def session_ok_def
        split: option.splits if_splits)
qed

lemma advance_session_ok:
  assumes "limits_ok c" and "session_ok c s"
  shows "session_ok c (advance_session c ev s)"
  using assms by (auto simp: advance_session_def Let_def session_ok_def limits_ok_def)

lemma seq_inv_store_session:
  assumes "seq_inv c st" and "session_room c k st" and "session_ok c s"
  shows "seq_inv c (st\<lparr>sq_sessions := gm_put k s (sq_sessions st), sq_processed := n\<rparr>)"
  using assms by (auto simp: seq_inv_def table_defs session_room_def)

lemma detect_transition_room [simp]:
  "session_room c k (detect_transition_anomalies env c ev s from_op st) \<longleftrightarrow> session_room c k st"
  by (simp add: session_room_def detect_transition_anomalies_def fold_append_frame)

lemma complete_observation_key [simp]:
  "so_session_key (complete_observation env ev) = so_session_key ev"
  "so_site (complete_observation env ev) = so_site ev"
  "so_operation_id (complete_observation env ev) = so_operation_id ev"
  "so_at (complete_observation env ev) = so_at ev"
  by (simp_all add: complete_observation_def Let_def)

lemma seq_inv_process:
  assumes "limits_ok c" and "seq_inv c st"
  shows "seq_inv c (process_observation env c clk ev st)"
proof (cases "so_session_key ev = [] \<or> so_operation_id ev = [] \<or> time_is_zero (so_at ev)")
  case False
  define ev1 where "ev1 = complete_observation env ev"
  obtain s1 st1 where 1: "open_session env c clk ev1 (prune_seq c clk (so_at ev1) st) = (s1, st1)"
    by (metis surj_pair)
  define st2 where "st2 = (if ss_current_op s1 \<noteq> [] then
    detect_transition_anomalies env c ev1 s1 (ss_current_op s1) st1 else st1)"
  define s2 where "s2 = advance_session c ev1 s1"
  define st3 where "st3 = note_observation c clk ev1 (ss_workflow_depth s2) st2"
  obtain s4 st4 where 4: "(if ss_current_op s1 \<noteq> [] then note_transition env c ev1 (ss_current_op s1) s2 st3
      else (s2, st3)) = (s4, st4)" by (metis surj_pair)
  have key: "so_session_key ev1 = so_session_key ev" by (simp add: ev1_def)
  note o = open_session_ok [OF assms(1) seq_inv_prune [OF assms] 1]
  from o have i2: "seq_inv c st2" "session_room c (so_session_key ev) st2"
    unfolding st2_def by (auto simp: key intro: seq_inv_detect(2) [OF assms(1)])
  with note_observation_ok [OF assms(1) i2(1), of clk ev1 "ss_workflow_depth s2" "so_session_key ev"]
  have i3: "seq_inv c st3" "session_room c (so_session_key ev) st3" by (simp_all add: st3_def)
  have s2: "session_ok c s2" unfolding s2_def by (rule advance_session_ok [OF assms(1) o(2)])
  have i4: "seq_inv c st4" "session_ok c s4" "session_room c (so_session_key ev) st4"
  proof (atomize (full), cases "ss_current_op s1 \<noteq> []")
    case True
    with 4 have nt: "note_transition env c ev1 (ss_current_op s1) s2 st3 = (s4, st4)" by simp
    from note_transition_ok [OF assms(1) i3(1) nt] s2 i3(2)
    show "seq_inv c st4 \<and> session_ok c s4 \<and> session_room c (so_session_key ev) st4"
      by (simp add: session_room_def)
  qed (use 4 s2 i3 in auto)
  have "process_observation env c clk ev st =
      st4\<lparr>sq_sessions := gm_put (so_session_key ev1) s4 (sq_sessions st4), sq_processed := sq_processed st4 + 1\<rparr>"
    using False 1 4 by (cases "ss_current_op s1 = []")
      (auto simp: process_observation_def Let_def ev1_def st2_def s2_def st3_def)
  with seq_inv_store_session [OF i4(1,3,2)] show ?thesis by (simp add: key)
qed (use assms in \<open>simp add: process_observation_def\<close>)

end
