(* ===== verification/Sequence_Machine.thy ===== *)
theory Sequence_Machine
  imports Sequence_Bounds
begin

text \<open>
  The sequence engine as a machine: the operations the goroutines call, in any order, on a store
  built by \<^verbatim>\<open>newSequenceStoreWithSettings\<close> and filled from a file. The theorems
  below hold for every list of events, so for every interleaving of the methods, which run one
  at a time under \<^verbatim>\<open>stateMu\<close>.
\<close>

section \<open>The machine\<close>

datatype seq_event =
    Observe gtime seq_observation
  | Publish gtime gtime
  | Set_Mode gtime string string gtime
  | Relearn gtime string gtime
  | Create_Exception gtime seq_exception duration gtime
  | Delete_Exception string

fun seq_step :: "seq_env \<Rightarrow> seq_settings \<Rightarrow> seq_event \<Rightarrow> seq_state \<Rightarrow> seq_state" where
  "seq_step env c (Observe clk ev) st = process_observation env c clk ev st"
| "seq_step env c (Publish clk now) st = snd (publish c clk now 0 0 st)"
| "seq_step env c (Set_Mode clk site mode now) st = snd (set_mode c clk site mode now st)"
| "seq_step env c (Relearn clk site now) st = snd (reset_and_relearn c clk site now st)"
| "seq_step env c (Create_Exception clk x ttl now) st = snd (create_exception env c clk x ttl now st)"
| "seq_step env c (Delete_Exception xid) st = snd (delete_exception xid st)"

text \<open>A store at start-up: nothing is read when the file has a version the code does not know.\<close>

definition seq_boot :: "seq_env \<Rightarrow> seq_settings \<Rightarrow> gtime \<Rightarrow> state_file \<Rightarrow> seq_state" where
  "seq_boot env c now f =
     (case load_state env c now f new_seq_state of None \<Rightarrow> new_seq_state | Some st \<Rightarrow> st)"

section \<open>The controls keep the limits\<close>

lemma seq_inv_put_control:
  assumes "seq_inv c st" and "\<not> controls_full c st (sc_site x)" and "valid_mode (sc_mode x)"
  shows "seq_inv c (put_control x st)"
  using assms by (auto simp: put_control_def controls_full_def seq_inv_def table_defs has_room_def)

lemma seq_inv_clear_site:
  assumes "seq_inv c st" shows "seq_inv c (clear_site site st)"
  using assms by (auto simp: clear_site_def seq_inv_def table_defs
      intro: order_trans [OF of_nat_mono [OF length_filter_le]])

lemma clear_site_controls [simp]: "sq_controls (clear_site site st) = sq_controls st"
  by (simp add: clear_site_def)

lemma seq_inv_set_mode: "seq_inv c st \<Longrightarrow> seq_inv c (snd (set_mode c clk site mode now st))"
  by (auto simp: set_mode_def Let_def intro: seq_inv_put_control)

lemma seq_inv_reset: "seq_inv c st \<Longrightarrow> seq_inv c (snd (reset_and_relearn c clk site now st))"
  by (auto simp: reset_and_relearn_def Let_def valid_mode_def controls_full_def
      intro!: seq_inv_put_control seq_inv_clear_site)

lemma seq_inv_create_exception: "seq_inv c st \<Longrightarrow> seq_inv c (snd (create_exception env c clk x ttl now st))"
  by (auto simp: create_exception_def Let_def seq_inv_def table_defs has_room_def)

lemma seq_inv_delete_exception: "seq_inv c st \<Longrightarrow> seq_inv c (snd (delete_exception xid st))"
  by (auto simp: delete_exception_def Let_def seq_inv_def table_defs split: option.splits)

lemma refresh_learning_ok: "seq_inv c st \<Longrightarrow> seq_inv c (refresh_learning c' now st)"
  by (simp add: refresh_learning_def seq_inv_def table_defs bounded_map_def gm_ok_def gm_all_def comp_def
      case_prod_beta)

lemma seq_inv_step:
  assumes "limits_ok c" and "seq_inv c st" shows "seq_inv c (seq_step env c e st)"
  using assms
  by (cases e) (auto simp: publish_def Let_def intro: seq_inv_process seq_inv_prune seq_inv_set_mode seq_inv_reset
      seq_inv_create_exception seq_inv_delete_exception refresh_learning_ok)

section \<open>Loading keeps the limits\<close>

lemma load_operations_ok:
  assumes "0 < mx" shows "bounded_map mx (\<lambda>_ _. True) (load_operations mx ops)"
  unfolding load_operations_def
proof (rule fold_invariant)
  fix x and m :: "(string, u64) gomap"
  assume m: "bounded_map mx (\<lambda>_ _. True) m"
  show "bounded_map mx (\<lambda>_ _. True) ((\<lambda>(op, n) m. if int (length m) \<ge> mx then m else gm_put op n m) x m)"
    using bounded_map_put [OF m, of "fst x" "snd x"] m by (cases x) (simp add: has_room_def)
qed (use assms in simp)

lemma load_table_ok:
  assumes "bounded_map mx p m" and "\<And>v. ok v \<Longrightarrow> p (key v) (conv v)"
  shows "bounded_map mx p (load_table mx ok key conv vs m)"
  unfolding load_table_def
proof (rule fold_invariant)
  fix v m
  assume m: "bounded_map mx p m"
  show "bounded_map mx p (if int (length m) \<ge> mx \<or> \<not> ok v then m else gm_put (key v) (conv v) m)"
    using bounded_map_put [OF m, of "key v" "conv v"] m assms(2) by (simp add: has_room_def)
qed (rule assms(1))

lemma load_log_ok:
  "int (length xs) \<le> mx \<Longrightarrow> int (length (load_log mx ok vs xs)) \<le> mx"
  unfolding load_log_def by (induction vs arbitrary: xs) auto

lemma seq_inv_load_tables:
  assumes "limits_ok c" and "seq_inv c st" shows "seq_inv c (load_tables c now f st)"
proof -
  have "workflow_ok c (workflow_of_model c w)" for w
    using assms(1) by (simp add: workflow_ok_def workflow_of_model_def limits_ok_def load_operations_ok)
  with assms(2) show ?thesis
    by (auto simp: load_tables_def seq_inv_def table_defs valid_session_def session_ok_def valid_control_def
        intro!: load_table_ok load_log_ok)
qed

lemma ensure_legacy_ok:
  assumes "limits_ok c" and "seq_inv c st" and "workflow_ok c w" shows "seq_inv c (ensure_legacy c w st)"
  using assms by (auto simp: ensure_legacy_def seq_inv_def table_defs has_room_def)

lemma legacy_workflow_ok: "limits_ok c \<Longrightarrow> workflow_ok c (legacy_workflow wid site kind a b)"
  by (simp add: workflow_ok_def legacy_workflow_def limits_ok_def)

lemma learn_legacy_ok:
  assumes "limits_ok c" and "seq_inv c st"
  shows "seq_inv c (learn_legacy_session c s st)" and "seq_inv c (learn_legacy_transition c e st)"
  using assms by (auto simp: learn_legacy_session_def learn_legacy_transition_def Let_def workflow_ok_def
      intro!: seq_inv_update_workflow ensure_legacy_ok legacy_workflow_ok bounded_increment_ok)

lemma seq_inv_migrate:
  assumes "limits_ok c" and "seq_inv c st" shows "seq_inv c (snd (migrate_v1 env c now f st))"
  using assms by (auto simp: migrate_v1_def Let_def intro!: fold_invariant [where P = "seq_inv c"] learn_legacy_ok)

lemma seq_inv_load:
  assumes "limits_ok c" and "seq_inv c st" and "load_state env c now f st = Some st'"
  shows "seq_inv c st'"
  using assms seq_inv_migrate [OF assms(1,2), of env now f] seq_inv_load_tables [OF assms(1)]
  by (auto simp: load_state_def split: if_splits prod.splits)

lemma seq_inv_boot: "limits_ok c \<Longrightarrow> seq_inv c (seq_boot env c now f)"
  using seq_inv_load [OF _ new_seq_inv] by (auto simp: seq_boot_def new_seq_inv split: option.splits)

text \<open>The store as a machine that keeps its invariant, with the settings it normalizes.\<close>

interpretation sequence_machine: invariant_machine "seq_step env (normalize_settings c)" "seq_inv (normalize_settings c)"
  for env c
  by unfold_locales (rule seq_inv_step [OF limits_ok_normalize])

section \<open>Limits\<close>

text \<open>C24: From whatever file the store starts and whatever happens to it, no table ever holds more
  than the settings allow: sessions, edges, workflows, exceptions, site controls, violations,
  recent sessions, and the operations a workflow or a session remembers.\<close>

theorem sequence_tables_bounded:
  "let c = normalize_settings c0; st = run_machine (seq_step env c) es (seq_boot env c now f) in
    int (length (sq_sessions st)) \<le> cfg_max_sessions c \<and>
    int (length (sq_transitions st)) \<le> cfg_max_transitions c \<and>
    int (length (sq_workflows st)) \<le> cfg_max_workflows c \<and>
    int (length (sq_exceptions st)) \<le> cfg_max_exceptions c \<and>
    int (length (sq_controls st)) \<le> cfg_max_workflows c \<and>
    int (length (sq_violations st)) \<le> cfg_max_violations c \<and>
    int (length (sq_recent st)) \<le> cfg_max_recent_sessions c \<and>
    list_all (\<lambda>w. int (length (sw_entry_ops w)) \<le> cfg_max_workflow_ops c \<and>
       int (length (sw_terminal_ops w)) \<le> cfg_max_workflow_ops c) (gm_values (sq_workflows st)) \<and>
    list_all (\<lambda>s. int (length (ss_recent_ops s)) \<le> cfg_max_recent_ops c \<and>
       int (length (ss_seen_transitions s)) \<le> cfg_max_seen_transitions c) (gm_values (sq_sessions st))"
proof -
  define c where "c = normalize_settings c0"
  define st where "st = run_machine (seq_step env c) es (seq_boot env c now f)"
  have "seq_inv c st"
    unfolding st_def c_def by (rule sequence_machine.inv_run) (rule seq_inv_boot [OF limits_ok_normalize])
  then show ?thesis
    unfolding c_def [symmetric] Let_def st_def [symmetric]
    by (auto simp: seq_inv_def table_defs bounded_map_def gm_all_def workflow_ok_def session_ok_def list_all_iff)
qed

section \<open>Which operations touch the controls\<close>

lemma drop_session_controls [simp]: "sq_controls (drop_session c clk t k s st) = sq_controls st"
  by (simp add: drop_session_def Let_def)

lemma prune_controls [simp]: "sq_controls (prune_seq c clk now st) = sq_controls st"
proof -
  have "sq_controls (prune_sessions c clk now st') = sq_controls st'" for st'
    unfolding prune_sessions_def by (rule fold_invariant) auto
  then show ?thesis by (simp add: prune_seq_def Let_def prune_operations_def prune_detection_def)
qed

lemma ensure_controls [simp]:
  "sq_controls (ensure_session_capacity c clk now st) = sq_controls st"
  "sq_controls (ensure_transition_capacity c st) = sq_controls st"
  "sq_controls (ensure_workflow c clk ev st) = sq_controls st"
proof -
  have d: "sq_controls (drop_workflow_sessions c clk now wid st') = sq_controls st'" for now wid st'
    unfolding drop_workflow_sessions_def by (rule fold_invariant) (auto simp: Let_def)
  show "sq_controls (ensure_workflow c clk ev st) = sq_controls st"
    by (simp add: ensure_workflow_def ensure_workflow_capacity_def drop_workflow_edges_def Let_def d split: option.splits)
  show "sq_controls (ensure_session_capacity c clk now st) = sq_controls st"
    by (simp add: ensure_session_capacity_def Let_def split: option.splits)
  show "sq_controls (ensure_transition_capacity c st) = sq_controls st"
    by (simp add: ensure_transition_capacity_def split: option.splits)
qed

lemma note_controls [simp]:
  "sq_controls (note_session_start c clk ev st) = sq_controls st"
  "sq_controls (note_observation c clk ev depth st) = sq_controls st"
  by (simp_all add: note_session_start_def note_observation_def)

lemma open_session_controls: "sq_controls (snd (open_session env c clk ev st)) = sq_controls st"
  by (simp add: open_session_def Let_def detect_frame split: option.splits)

lemma note_transition_controls: "sq_controls (snd (note_transition env c ev from_op s st)) = sq_controls st"
  by (simp add: note_transition_def Let_def split: option.splits)

lemma process_controls [simp]: "sq_controls (process_observation env c clk ev st) = sq_controls st"
  using open_session_controls [of env c clk "complete_observation env ev" "prune_seq c clk (so_at ev) st"]
    note_transition_controls [of env c "complete_observation env ev"]
  by (auto simp: process_observation_def Let_def detect_transition_anomalies_def fold_append_frame split: prod.split)
    (metis fold_append_frame(5) note_controls(2) snd_conv)+

lemma step_controls:
  assumes "\<And>clk site mode now. e \<noteq> Set_Mode clk site mode now" and "\<And>clk site now. e \<noteq> Relearn clk site now"
  shows "sq_controls (seq_step env c e st) = sq_controls st"
  using assms by (cases e) (auto simp: publish_def Let_def refresh_learning_def create_exception_def
      delete_exception_def split: option.splits)

section \<open>Modes\<close>

text \<open>An operator's request that puts a site into detection mode, and one that relearns it.\<close>

definition turns_on :: "seq_settings \<Rightarrow> string \<Rightarrow> seq_event \<Rightarrow> seq_state \<Rightarrow> bool" where
  "turns_on c site e st \<longleftrightarrow> (case e of
      Set_Mode clk s m now \<Rightarrow> trim_space s = site \<and> valid_site site \<and> to_upper (trim_space m) = mode_detect \<and>
        has_mature_workflow c st site (resolved_now clk now)
    | _ \<Rightarrow> False)"

definition relearns :: "string \<Rightarrow> seq_event \<Rightarrow> bool" where
  "relearns site e \<longleftrightarrow> (case e of Relearn clk s now \<Rightarrow> trim_space s = site | _ \<Rightarrow> False)"

lemma mode_put_control:
  "sequence_mode (put_control x st) site = (if sc_site x = site
     then (if valid_mode (sc_mode x) then sc_mode x else mode_learn) else sequence_mode st site)"
  by (simp add: sequence_mode_def put_control_def gm_get_put)

lemma modes_differ: "mode_learn \<noteq> mode_detect"
  by (simp add: mode_learn_def mode_detect_def)

lemma sequence_mode_frame: "sq_controls st' = sq_controls st \<Longrightarrow> sequence_mode st' site = sequence_mode st site"
  by (simp add: sequence_mode_def)

lemma detecting_has_control: "sequence_mode st site = mode_detect \<Longrightarrow> gm_has (sq_controls st) site"
  using modes_differ by (auto simp: sequence_mode_def gm_has_def split: option.splits)

lemma mode_step:
  assumes "sequence_mode (seq_step env c e st) site = mode_detect"
  shows "turns_on c site e st \<or>
    (sequence_mode st site = mode_detect \<and> (relearns site e \<longrightarrow> \<not> valid_site site))"
proof (cases e)
  case (Set_Mode clk s m now)
  with assms modes_differ show ?thesis
    by (auto simp: set_mode_def Let_def turns_on_def relearns_def mode_put_control valid_mode_def split: if_splits)
next
  case (Relearn clk s now)
  with assms modes_differ detecting_has_control [of st site] show ?thesis
    by (auto simp: reset_and_relearn_def Let_def turns_on_def relearns_def mode_put_control controls_full_def
        sequence_mode_frame [OF clear_site_controls] split: if_splits)
qed (use assms sequence_mode_frame [OF step_controls [of e env c st]] in \<open>auto simp: relearns_def\<close>)

lemma mode_run:
  "sequence_mode (run_machine (seq_step env c) es st) site = mode_detect \<Longrightarrow>
   sequence_mode st site = mode_detect \<or>
   (\<exists>es1 e es2. es = es1 @ e # es2 \<and> turns_on c site e (run_machine (seq_step env c) es1 st) \<and>
      \<not> list_ex (relearns site) es2)"
proof (induction es rule: rev_induct)
  case (snoc x xs)
  have "sequence_mode (seq_step env c x (run_machine (seq_step env c) xs st)) site = mode_detect"
    using snoc.prems by (simp add: run_machine_append)
  from mode_step [OF this] show ?case
  proof
    assume "turns_on c site x (run_machine (seq_step env c) xs st)"
    then have "\<exists>es1 e es2. xs @ [x] = es1 @ e # es2 \<and> turns_on c site e (run_machine (seq_step env c) es1 st) \<and>
        \<not> list_ex (relearns site) es2"
      by (intro exI [of _ xs] exI [of _ x] exI [of _ "[]"]) simp
    then show ?case ..
  next
    assume a: "sequence_mode (run_machine (seq_step env c) xs st) site = mode_detect \<and>
      (relearns site x \<longrightarrow> \<not> valid_site site)"
    with snoc.IH consider "sequence_mode st site = mode_detect"
      | es1 e es2 where "xs = es1 @ e # es2" "turns_on c site e (run_machine (seq_step env c) es1 st)"
          "\<not> list_ex (relearns site) es2" by blast
    then show ?case
    proof cases
      case 2
      have "valid_site site" using 2(2) by (auto simp: turns_on_def split: seq_event.splits)
      with a 2 have "xs @ [x] = es1 @ e # (es2 @ [x]) \<and> \<not> list_ex (relearns site) (es2 @ [x])" by simp
      with 2(2) show ?thesis by blast
    qed simp
  qed
qed simp

text \<open>C23: A site of a new store is in detection mode only after an operator asked for it at a moment
  when the site had a mature workflow, and the site has not been relearned since.\<close>

theorem detect_only_by_operator:
  assumes "sequence_mode (run_machine (seq_step env c) es new_seq_state) site = mode_detect"
  shows "\<exists>es1 e es2. es = es1 @ e # es2 \<and> turns_on c site e (run_machine (seq_step env c) es1 new_seq_state) \<and>
    \<not> list_ex (relearns site) es2"
proof -
  have "sequence_mode new_seq_state site \<noteq> mode_detect"
    using modes_differ by (simp add: sequence_mode_def new_seq_state_def)
  with mode_run [OF assms] show ?thesis by blast
qed

section \<open>Generations\<close>

definition site_generation :: "string \<Rightarrow> seq_state \<Rightarrow> u64" where
  "site_generation site st = sc_generation (site_control st site)"

lemma site_generation_frame: "sq_controls st' = sq_controls st \<Longrightarrow> site_generation site st' = site_generation site st"
  by (simp add: site_generation_def site_control_def)

lemma site_generation_put:
  "site_generation site (put_control x st) = (if sc_site x = site then sc_generation x else site_generation site st)"
  by (simp add: site_generation_def site_control_def put_control_def gm_get_put)

lemma set_mode_generation:
  "site_generation site st \<le> site_generation site (snd (set_mode c clk s m now st))"
  by (auto simp: set_mode_def Let_def site_generation_put) (simp_all add: site_generation_def)

lemma relearn_generation_ge:
  "site_generation site st \<le> site_generation site (snd (reset_and_relearn c clk s now st))"
  by (auto simp: reset_and_relearn_def Let_def site_generation_put sat_incr_nonzero sat_incr_ge
      site_generation_frame [OF clear_site_controls]) (simp_all add: site_generation_def sat_incr_ge)

lemma generation_step: "site_generation site st \<le> site_generation site (seq_step env c e st)"
proof (cases e)
  case (Set_Mode clk s m now)
  then show ?thesis by (simp add: set_mode_generation)
next
  case (Relearn clk s now)
  then show ?thesis by (simp add: relearn_generation_ge)
qed (use site_generation_frame [OF step_controls [of e env c st]] in auto)

interpretation generations: monotone_machine "seq_step env (normalize_settings c)" "seq_inv (normalize_settings c)"
    "site_generation site"
  for env c site
  by unfold_locales (rule generation_step)

text \<open>The generation of a site never decreases, and an accepted relearn raises it by one (it stays at the
  largest uint64).\<close>

theorem relearn_generation:
  assumes "fst (reset_and_relearn c clk site now st) = Inr r"
    and "st = run_machine (seq_step env c) es (seq_boot env c at0 f)" and "c = normalize_settings c0"
  shows "unat (rr_generation r) = min (unat (site_generation (trim_space site) st) + 1) (2 ^ 64 - 1) \<and>
    rr_generation r \<le> site_generation (trim_space site)
      (run_machine (seq_step env c) es' (snd (reset_and_relearn c clk site now st)))"
proof -
  have inv: "seq_inv c (snd (reset_and_relearn c clk site now st))"
    unfolding assms(2,3)
    by (intro seq_inv_reset sequence_machine.inv_run seq_inv_boot limits_ok_normalize)
  have r: "rr_generation r = sat_incr (site_generation (trim_space site) st)"
    using assms(1) by (auto simp: reset_and_relearn_def Let_def sat_incr_nonzero site_generation_def split: if_splits)
  have g: "site_generation (trim_space site) (snd (reset_and_relearn c clk site now st)) = rr_generation r"
    using assms(1) by (auto simp: reset_and_relearn_def Let_def site_generation_put split: if_splits)
  show ?thesis
    using generations.gauge_run [OF inv [unfolded assms(3)], of "trim_space site" env es']
    by (simp only: r unat_sat_incr g [unfolded r] assms(3) [symmetric] simp_thms)
qed

section \<open>Relearning\<close>

lemma count_if_complement: "count_if p xs + length (filter (\<lambda>x. \<not> p x) xs) = length xs"
  by (simp add: count_if_def sum_length_filter_compl)

lemma count_if_remove_if:
  "count_if p (gm_values m) + length (gm_remove_if (\<lambda>_. p) m) = length m"
  by (induction m) (auto simp: count_if_def gm_remove_if_def)

text \<open>An accepted relearn of a site removes the sessions, edges, workflows, recent sessions and
  violations of that site and of no other, counts exactly what it removed, leaves the operators'
  exceptions as they are, and returns the site to LEARN; the modes of other sites do not change.\<close>

theorem relearn_scope:
  assumes "reset_and_relearn c clk site now st = (Inr r, st')" and "site' = trim_space site"
  shows "st' = put_control (site_control st' site') (clear_site site' st) \<and>
    sq_exceptions st' = sq_exceptions st \<and>
    rr_sessions r + length (sq_sessions st') = length (sq_sessions st) \<and>
    rr_transitions r + length (sq_transitions st') = length (sq_transitions st) \<and>
    rr_workflows r + length (sq_workflows st') = length (sq_workflows st) \<and>
    rr_recent r + length (sq_recent st') = length (sq_recent st) \<and>
    rr_violations r + length (sq_violations st') = length (sq_violations st) \<and>
    sequence_mode st' site' = mode_learn \<and>
    (\<forall>other. other \<noteq> site' \<longrightarrow> sequence_mode st' other = sequence_mode st other)"
proof -
  obtain x where x: "st' = put_control x (clear_site site' st)" "sc_site x = site'" "sc_mode x = mode_learn"
      and r: "rr_sessions r = count_if (\<lambda>v. ss_site v = site') (gm_values (sq_sessions st))"
        "rr_recent r = count_if (\<lambda>v. sr_site v = site') (sq_recent st)"
        "rr_transitions r = count_if (\<lambda>v. st_site v = site') (gm_values (sq_transitions st))"
        "rr_workflows r = count_if (\<lambda>v. sw_site v = site') (gm_values (sq_workflows st))"
        "rr_violations r = count_if (\<lambda>v. sv_site v = site') (sq_violations st)"
    using assms by (auto simp: reset_and_relearn_def Let_def split: if_splits)
  have a: "site_control st' site' = x" by (simp add: x site_control_def put_control_def gm_get_put)
  have tables: "sq_exceptions st' = sq_exceptions st"
      "sq_sessions st' = gm_remove_if (\<lambda>_ v. ss_site v = site') (sq_sessions st)"
      "sq_transitions st' = gm_remove_if (\<lambda>_ v. st_site v = site') (sq_transitions st)"
      "sq_workflows st' = gm_remove_if (\<lambda>_ v. sw_site v = site') (sq_workflows st)"
      "sq_recent st' = filter (\<lambda>v. sr_site v \<noteq> site') (sq_recent st)"
      "sq_violations st' = filter (\<lambda>v. sv_site v \<noteq> site') (sq_violations st)"
    by (simp_all add: x(1) put_control_def clear_site_def)
  have modes: "sequence_mode st' site' = mode_learn"
      "\<forall>other. other \<noteq> site' \<longrightarrow> sequence_mode st' other = sequence_mode st other"
    using x sequence_mode_frame [OF clear_site_controls] by (auto simp: mode_put_control)
  have eq: "st' = put_control (site_control st' site') (clear_site site' st)"
    unfolding a by (rule x(1))
  show ?thesis
    by (intro conjI eq modes) (simp_all only: r tables count_if_remove_if count_if_complement)
qed

section \<open>Violations\<close>

text \<open>The facts about a workflow that pruning sessions does not change.\<close>

definition same_evidence :: "seq_workflow \<Rightarrow> seq_workflow \<Rightarrow> bool" where
  "same_evidence w w' \<longleftrightarrow> sw_observations w = sw_observations w' \<and> sw_sessions w = sw_sessions w' \<and>
     sw_first_seen w = sw_first_seen w' \<and> sw_site w = sw_site w' \<and> sw_entry_ops w = sw_entry_ops w'"

definition evidence_from :: "seq_state \<Rightarrow> seq_state \<Rightarrow> bool" where
  "evidence_from st st' \<longleftrightarrow> (\<forall>k w'. gm_get (sq_workflows st') k = Some w' \<longrightarrow>
     (\<exists>w. gm_get (sq_workflows st) k = Some w \<and> same_evidence w w'))"

lemma evidence_from_refl [simp]: "evidence_from st st"
  by (simp add: evidence_from_def same_evidence_def)

lemma evidence_from_trans: "evidence_from a b \<Longrightarrow> evidence_from b c \<Longrightarrow> evidence_from a c"
  by (fastforce simp: evidence_from_def same_evidence_def)

lemma evidence_from_frame: "sq_workflows st' = sq_workflows st \<Longrightarrow> evidence_from st st'"
  by (simp add: evidence_from_def same_evidence_def)

lemma evidence_update_workflow:
  assumes "\<And>w. same_evidence w (f w)" shows "evidence_from st (update_workflow wid f st)"
  using assms by (auto simp: evidence_from_def update_workflow_def gm_get_put split: option.splits if_splits)
    (auto simp: same_evidence_def)

lemma evidence_drop_session: "evidence_from st (drop_session c clk t k s st)"
proof -
  have "evidence_from st (finalize_session c clk s t st)"
    unfolding finalize_session_def
    by (auto intro!: evidence_from_trans [OF evidence_from_frame evidence_update_workflow] simp: same_evidence_def)
  then show ?thesis by (simp add: drop_session_def Let_def evidence_from_def)
qed

lemma evidence_prune:
  assumes "limits_ok c" and "seq_inv c st" shows "evidence_from st (prune_seq c clk now st)"
proof -
  define st1 where "st1 = prune_operations now (prune_detection now st)"
  define st2 where "st2 = prune_sessions c clk now st1"
  have 1: "evidence_from st st1"
    by (rule evidence_from_frame) (simp add: st1_def prune_operations_def prune_detection_def)
  have 2: "evidence_from st1 st2"
    unfolding st2_def prune_sessions_def
    by (rule fold_invariant) (auto intro: evidence_from_trans [OF _ evidence_drop_session])
  have "seq_inv c st1" using assms(2)
    by (auto simp: st1_def prune_operations_def prune_detection_def seq_inv_def table_defs
        intro: order_trans [OF of_nat_mono [OF length_filter_le]])
  then have "seq_inv c st2" unfolding st2_def prune_sessions_def by (rule seq_inv_fold_drop [OF assms(1)])
  then have ok: "gm_ok (sq_workflows st2)" by (simp add: seq_inv_def workflows_ok_def bounded_map_def)
  have "evidence_from st2 (prune_seq c clk now st)"
    by (auto simp: prune_seq_def Let_def st1_def [symmetric] st2_def [symmetric] evidence_from_def
        gm_get_remove_if [OF ok] same_evidence_def split: option.splits if_splits)
  with 1 2 show ?thesis by (blast intro: evidence_from_trans)
qed

lemma prune_detects:
  "sq_exceptions (prune_seq c clk now st) =
     gm_remove_if (\<lambda>_ x. \<not> time_is_zero (sx_expires_at x) \<and> \<not> now < sx_expires_at x) (sq_exceptions st)"
  "set (sq_violations (prune_seq c clk now st)) \<subseteq> set (sq_violations st)"
proof -
  have "sq_exceptions (prune_sessions c clk now st') = sq_exceptions st' \<and>
      sq_violations (prune_sessions c clk now st') = sq_violations st'" for st'
    unfolding prune_sessions_def by (rule fold_invariant) (auto simp: drop_session_def Let_def)
  then show "sq_exceptions (prune_seq c clk now st) =
     gm_remove_if (\<lambda>_ x. \<not> time_is_zero (sx_expires_at x) \<and> \<not> now < sx_expires_at x) (sq_exceptions st)"
    and "set (sq_violations (prune_seq c clk now st)) \<subseteq> set (sq_violations st)"
    by (auto simp: prune_seq_def Let_def prune_operations_def prune_detection_def)
qed

text \<open>An exception that has expired matches nothing, so pruning does not change what is excepted.\<close>

lemma list_ex_remove_if:
  assumes "\<And>k v. p v \<Longrightarrow> \<not> q k v"
  shows "list_ex p (gm_values (gm_remove_if q m)) = list_ex p (gm_values m)"
  using assms by (induction m) (auto simp: gm_remove_if_def)

lemma excepted_prune: "excepted (prune_seq c clk now st) v now = excepted st v now"
  unfolding excepted_def prune_detects by (rule list_ex_remove_if) (simp add: exception_matches_def)

lemma violations_kept [simp]:
  "sq_violations (drop_session c clk t k s st) = sq_violations st"
  "sq_violations (ensure_session_capacity c clk t st) = sq_violations st"
  "sq_violations (note_session_start c clk ev st) = sq_violations st"
  "sq_violations (note_observation c clk ev depth st) = sq_violations st"
proof -
  show d: "sq_violations (drop_session c clk t k s st) = sq_violations st" for t k s st
    by (simp add: drop_session_def Let_def)
  show "sq_violations (ensure_session_capacity c clk t st) = sq_violations st"
    by (simp add: ensure_session_capacity_def Let_def d split: option.splits)
  have "sq_violations (drop_workflow_sessions c clk now wid st') = sq_violations st'" for now wid st'
    unfolding drop_workflow_sessions_def by (rule fold_invariant) (auto simp: Let_def)
  then have e: "sq_violations (ensure_workflow c clk ev st) = sq_violations st"
    by (simp add: ensure_workflow_def ensure_workflow_capacity_def drop_workflow_edges_def Let_def split: option.splits)
  show "sq_violations (note_session_start c clk ev st) = sq_violations st"
    by (simp add: note_session_start_def e)
  show "sq_violations (note_observation c clk ev depth st) = sq_violations st"
    by (simp add: note_observation_def e)
qed

lemma note_transition_violations: "sq_violations (snd (note_transition env c ev from_op s st)) = sq_violations st"
  by (simp add: note_transition_def Let_def ensure_transition_capacity_def split: option.splits)

text \<open>Where the violations of one observation come from.\<close>

lemma open_session_violations:
  assumes "open_session env c clk ev st = (s, st')"
  shows "(ss_current_op s \<noteq> [] \<longrightarrow> st' = st) \<and>
    (st' = st \<or> (\<exists>stx. (stx = st \<or> (\<exists>k s. stx = drop_session c clk (so_at ev) k s st)) \<and>
       sq_violations st' = sq_violations (detect_unexpected_entry env c ev stx)))"
proof -
  have fresh: ?thesis if "s = new_session c ev"
      and "sq_violations st' = sq_violations (detect_unexpected_entry env c ev stx)"
      and "stx = st \<or> (\<exists>k s. stx = drop_session c clk (so_at ev) k s st)" for stx
    using that by (auto simp: new_session_def)
  show ?thesis
  proof (cases "gm_get (sq_sessions st) (so_session_key ev)")
    case None
    with assms show ?thesis by (intro fresh [of st]) (auto simp: open_session_def Let_def)
  next
    case (Some s0)
    show ?thesis
    proof (cases "\<not> time_is_zero (ss_absolute_expires_at s0) \<and> \<not> so_at ev < ss_absolute_expires_at s0")
      case True
      with Some assms show ?thesis
        by (intro fresh [of "drop_session c clk (so_at ev) (so_session_key ev) s0 st"])
          (auto simp: open_session_def Let_def)
    qed (use Some assms in \<open>auto simp: open_session_def Let_def\<close>)
  qed
qed

lemma process_violations:
  assumes "v \<in> set (sq_violations (process_observation env c clk ev st))"
  defines "ev' \<equiv> complete_observation env ev" and "st0 \<equiv> prune_seq c clk (so_at ev) st"
  shows "v \<in> set (sq_violations st) \<or>
    (\<exists>st1. (st1 = st0 \<or> (\<exists>k s. st1 = drop_session c clk (so_at ev) k s st0)) \<and> justified env c ev' st1 v)"
proof (cases "so_session_key ev = [] \<or> so_operation_id ev = [] \<or> time_is_zero (so_at ev)")
  case True
  with assms(1) show ?thesis by (simp add: process_observation_def)
next
  case False
  obtain s1 st1 where 1: "open_session env c clk ev' st0 = (s1, st1)" by (metis surj_pair)
  define st2 where "st2 = (if ss_current_op s1 \<noteq> [] then
    detect_transition_anomalies env c ev' s1 (ss_current_op s1) st1 else st1)"
  have "sq_violations (process_observation env c clk ev st) = sq_violations st2"
    using False 1 note_transition_violations [of env c ev' "ss_current_op s1"]
    by (auto simp: process_observation_def Let_def ev'_def st0_def st2_def split: prod.splits)
      (metis snd_conv violations_kept(4))
  with assms(1) have v: "v \<in> set (sq_violations st2)" by simp
  have "v \<in> set (sq_violations st1) \<or> justified env c ev' st0 v"
  proof (cases "ss_current_op s1 \<noteq> []")
    case True
    with open_session_violations [OF 1] have "st1 = st0" by simp
    with True v show ?thesis using detect_transition_justified [of v env c ev' s1 "ss_current_op s1" st0]
      by (auto simp: st2_def)
  qed (use v in \<open>simp add: st2_def\<close>)
  moreover have "v \<in> set (sq_violations st0) \<or>
      (\<exists>stx. (stx = st0 \<or> (\<exists>k s. stx = drop_session c clk (so_at ev) k s st0)) \<and> justified env c ev' stx v)"
    if v1: "v \<in> set (sq_violations st1)"
  proof (cases "st1 = st0")
    case False
    with open_session_violations [OF 1] obtain stx
      where stx: "stx = st0 \<or> (\<exists>k s. stx = drop_session c clk (so_at ev) k s st0)"
        and "sq_violations st1 = sq_violations (detect_unexpected_entry env c ev' stx)"
      by (auto simp: ev'_def)
    with v1 have "v \<in> set (sq_violations stx) \<or> justified env c ev' stx v"
      by (intro detect_entry_justified) simp
    moreover have "sq_violations stx = sq_violations st0" using stx by auto
    ultimately show ?thesis using stx by auto
  qed (use v1 in simp)
  ultimately show ?thesis using prune_detects(2) [of c clk "so_at ev" st] by (auto simp: st0_def)
qed

lemma mature_workflow:
  assumes "workflow_maturity_of c st wid now = Mature"
  shows "\<exists>w. gm_get (sq_workflows st) wid = Some w \<and> cfg_min_observations c \<le> sw_observations w \<and>
    cfg_min_sessions c \<le> sw_sessions w \<and> cfg_min_learning c \<le> time_sub now (sw_first_seen w)"
  using assms by (auto simp: workflow_maturity_of_def workflow_maturity_def maturity_for_def split: option.splits if_splits)

text \<open>C18: A violation is recorded only for the observation that shows it, on a site an operator has put
  into detection mode, against a workflow that had the observations, the sessions and the age the
  settings ask for, and never when an exception of the operators covers it.\<close>

theorem violation_justified:
  assumes "limits_ok c" and "seq_inv c st"
    and "v \<in> set (sq_violations (process_observation env c clk ev st))" and "v \<notin> set (sq_violations st)"
  shows "sv_site v = so_site ev \<and> sv_session v = so_session_key ev \<and> sv_time v = so_at ev \<and>
    valid_anomaly_type (sv_type v) \<and> sequence_mode st (so_site ev) = mode_detect \<and>
    \<not> excepted st v (so_at ev) \<and>
    (\<exists>w. gm_get (sq_workflows st) (sv_workflow_id v) = Some w \<and> cfg_min_observations c \<le> sw_observations w \<and>
       cfg_min_sessions c \<le> sw_sessions w \<and> cfg_min_learning c \<le> time_sub (so_at ev) (sw_first_seen w))"
proof -
  define st0 where "st0 = prune_seq c clk (so_at ev) st"
  from process_violations [OF assms(3)] assms(4) obtain st1
    where st1: "st1 = st0 \<or> (\<exists>k s. st1 = drop_session c clk (so_at ev) k s st0)"
      and j: "justified env c (complete_observation env ev) st1 v"
    unfolding st0_def by blast
  have "sq_controls st1 = sq_controls st" using st1 by (auto simp: st0_def)
  note mode = sequence_mode_frame [OF this]
  have "sq_exceptions st1 = sq_exceptions st0" using st1 by (auto simp: drop_session_def Let_def)
  from excepted_frame [OF this, of v "so_at ev"] have ex: "excepted st1 v (so_at ev) = excepted st v (so_at ev)"
    unfolding st0_def excepted_prune .
  have "evidence_from st0 st1" using st1 evidence_drop_session by auto
  with evidence_prune [OF assms(1,2)] have "evidence_from st st1"
    unfolding st0_def by (rule evidence_from_trans)
  note evidence = this
  from j obtain w' where w': "gm_get (sq_workflows st1) (sv_workflow_id v) = Some w'"
      and e: "cfg_min_observations c \<le> sw_observations w'" "cfg_min_sessions c \<le> sw_sessions w'"
        "cfg_min_learning c \<le> time_sub (so_at ev) (sw_first_seen w')"
    using mature_workflow [of c st1 "so_workflow_id (complete_observation env ev)" "so_at ev"]
    by (auto simp: justified_def)
  from evidence w' obtain w where "gm_get (sq_workflows st) (sv_workflow_id v) = Some w" "same_evidence w w'"
    unfolding evidence_from_def by blast
  with e have "\<exists>w. gm_get (sq_workflows st) (sv_workflow_id v) = Some w \<and> cfg_min_observations c \<le> sw_observations w \<and>
       cfg_min_sessions c \<le> sw_sessions w \<and> cfg_min_learning c \<le> time_sub (so_at ev) (sw_first_seen w)"
    by (auto simp: same_evidence_def)
  with j mode ex show ?thesis by (auto simp: justified_def)
qed

section \<open>Concrete runs\<close>

definition sample_wid :: string where "sample_wid = replicate 40 CHR ''a''"

lemma sample_wid [simp]: "length sample_wid = 40" "sample_wid \<noteq> []"
  by (simp_all add: sample_wid_def)

definition sample_env :: seq_env where
  "sample_env = \<lparr>se_digest = (\<lambda>_. sample_wid), se_hash = (\<lambda>_. sample_wid), se_time_text = (\<lambda>_. []),
     se_pow = (\<lambda>_ _. 0)\<rparr>"

definition sample_settings :: seq_settings where
  "sample_settings = default_settings\<lparr>cfg_min_observations := 1, cfg_min_sessions := 1, cfg_min_learning := 1,
     cfg_confidence := 1\<rparr>"

lemma sample_settings_fields [simp]:
  "cfg_max_sessions sample_settings = 4096" "cfg_max_workflows sample_settings = 512"
  "cfg_max_workflow_ops sample_settings = 256" "cfg_max_violations sample_settings = 2048"
  "cfg_min_observations sample_settings = 1" "cfg_min_sessions sample_settings = 1"
  "cfg_min_learning sample_settings = 1" "cfg_confidence sample_settings = 1"
  "cfg_stale_after sample_settings = 6 * hour" "cfg_workflow_ttl sample_settings = 7 * 24 * hour"
  "cfg_entry_confidence sample_settings = f64 (50 / 100)"
  by (simp_all add: sample_settings_def default_settings_def)

lemma sample_limits: "limits_ok sample_settings"
  by (simp add: limits_ok_def sample_settings_def default_settings_def)

definition shop_visit :: "string \<Rightarrow> string \<Rightarrow> gtime \<Rightarrow> seq_observation" where
  "shop_visit session op t = \<lparr>so_session_key = session, so_site = ''shop'', so_correlation_kind = ''anonymous'',
     so_workflow_id = sample_wid, so_identity_kind = ''anonymous'', so_operation_id = op, so_at = t\<rparr>"

lemma shop_visit_fields [simp]:
  "so_session_key (shop_visit k op t) = k" "so_site (shop_visit k op t) = ''shop''"
  "so_workflow_id (shop_visit k op t) = sample_wid" "so_operation_id (shop_visit k op t) = op"
  "so_at (shop_visit k op t) = t" "so_identity_kind (shop_visit k op t) = ''anonymous''"
  "complete_observation sample_env (shop_visit k op t) = shop_visit k op t"
  by (simp_all add: shop_visit_def complete_observation_def)

definition sample_workflow :: "u64 \<Rightarrow> u64 \<Rightarrow> seq_workflow" where
  "sample_workflow observations depth = \<lparr>sw_id = sample_wid, sw_site = ''shop'', sw_identity_kind = ''anonymous'',
     sw_observations = observations, sw_sessions = 1, sw_first_seen = 1, sw_last_seen = 1, sw_max_depth = depth,
     sw_entry_ops = [(''home'', 1)], sw_terminal_ops = []\<rparr>"

lemma sample_open:
  "open_session sample_env sample_settings 0 (shop_visit k ''home'' 1) new_seq_state =
     (new_session sample_settings (shop_visit k ''home'' 1),
      new_seq_state\<lparr>sq_workflows := [(sample_wid, sample_workflow 0 0)]\<rparr>)"
  by (simp add: open_session_def new_seq_state_def detect_unexpected_entry_def sequence_mode_def mode_learn_def
      mode_detect_def ensure_session_capacity_def note_session_start_def update_workflow_def ensure_workflow_def
      ensure_workflow_capacity_def new_workflow_def note_seen_def bounded_increment_def gm_has_def Let_def
      sample_workflow_def time_is_zero_def)

lemma sample_note:
  "note_observation sample_settings 0 (shop_visit k op 1) 1 (st\<lparr>sq_workflows := [(sample_wid, sample_workflow 0 0)]\<rparr>) =
     st\<lparr>sq_workflows := [(sample_wid, sample_workflow 1 1)]\<rparr>"
  by (simp add: note_observation_def update_workflow_def ensure_workflow_def gm_has_def note_seen_def
      sample_workflow_def time_is_zero_def)

text \<open>One visit to a new store: a workflow that has been seen once.\<close>

definition sample_store :: seq_state where
  "sample_store = process_observation sample_env sample_settings 0 (shop_visit ''k'' ''home'' 1) new_seq_state"

lemma sample_store_tables:
  "sq_workflows sample_store = [(sample_wid, sample_workflow 1 1)]" "sq_controls sample_store = []"
proof -
  have p: "prune_seq sample_settings 0 1 new_seq_state = new_seq_state"
    by (simp add: prune_seq_def prune_sessions_def prune_operations_def prune_detection_def new_seq_state_def
        gm_remove_if_def)
  have s: "ss_current_op (new_session c ev) = []" "ss_request_count (new_session c ev) = 0" for c ev
    by (simp_all add: new_session_def)
  have d: "ss_workflow_depth (advance_session c ev s) = sat_incr (ss_request_count s)" for c ev s
    by (simp add: advance_session_def Let_def)
  show "sq_workflows sample_store = [(sample_wid, sample_workflow 1 1)]" "sq_controls sample_store = []"
    by (simp_all add: sample_store_def process_observation_def time_is_zero_def p sample_open s d sample_note Let_def)
      (simp add: new_seq_state_def)
qed

lemma sample_texts [simp]: "trim_space ''shop'' = ''shop''" "trim_space ''DETECT'' = ''DETECT''"
    "to_upper ''DETECT'' = ''DETECT''" "valid_site ''shop''"
proof -
  show t: "trim_space ''shop'' = ''shop''"
    by (rule trim_space_visible) (simp_all add: visible_def less_eq_char_def)
  show "trim_space ''DETECT'' = ''DETECT''"
    by (rule trim_space_visible) (simp_all add: visible_def less_eq_char_def)
  show "to_upper ''DETECT'' = ''DETECT''" by (simp add: to_upper_def upper_char_def less_eq_char_def)
  have n: "byte 127 = CHR 0x7F" by (simp add: char_of_eq_iff take_bit_eq_mod)
  show "valid_site ''shop''"
    unfolding valid_site_def t n Let_def by (simp add: less_char_def)
qed

lemma sample_mature:
  "has_mature_workflow sample_settings sample_store ''shop'' 2"
  by (simp add: has_mature_workflow_def sample_store_tables sample_workflow_def workflow_maturity_of_def
      workflow_maturity_def maturity_for_def time_is_zero_def time_sub_def min_duration_def max_duration_def)

definition shop_request :: seq_event where
  "shop_request = Set_Mode 0 ''shop'' ''DETECT'' 2"

lemma shop_request_step:
  "seq_step sample_env sample_settings shop_request sample_store =
     put_control \<lparr>sc_site = ''shop'', sc_mode = mode_detect, sc_generation = 1, sc_updated_at = 2\<rparr> sample_store"
  using sample_mature sample_store_tables(2)
  by (simp add: shop_request_def set_mode_def Let_def valid_mode_def mode_detect_def resolved_now_def
      time_is_zero_def controls_full_def site_control_def gm_has_def)

theorem detect_only_by_operator_witness:
  "\<exists>es1 e es2. [Observe 0 (shop_visit ''k'' ''home'' 1), shop_request] = es1 @ e # es2 \<and>
    turns_on sample_settings ''shop'' e (run_machine (seq_step sample_env sample_settings) es1 new_seq_state) \<and>
    \<not> list_ex (relearns ''shop'') es2"
  by (rule detect_only_by_operator)
    (simp add: sample_store_def [symmetric] shop_request_step mode_put_control valid_mode_def)

theorem relearn_scope_witness:
  "sq_workflows (snd (reset_and_relearn sample_settings 0 ''shop'' 3 sample_store)) = []"
proof -
  have "\<not> controls_full sample_settings sample_store ''shop''"
    by (simp add: controls_full_def sample_store_tables)
  then obtain r st' where r: "reset_and_relearn sample_settings 0 ''shop'' 3 sample_store = (Inr r, st')"
      "rr_workflows r = 1"
    by (simp add: reset_and_relearn_def Let_def sample_store_tables count_if_def sample_workflow_def)
  from relearn_scope [OF r(1) refl] r show ?thesis by (simp add: sample_store_tables)
qed

theorem relearn_generation_witness:
  "\<exists>r. fst (reset_and_relearn (normalize_settings default_settings) 0 ''shop'' 3 new_seq_state) = Inr r \<and>
     unat (rr_generation r) = 1"
proof -
  have b: "new_seq_state = run_machine (seq_step sample_env (normalize_settings default_settings)) []
      (seq_boot sample_env (normalize_settings default_settings) 0
        \<lparr>sf_version = 9, sf_sessions = [], sf_transitions = [], sf_workflows = [], sf_violations = [],
          sf_exceptions = [], sf_recent = [], sf_controls = []\<rparr>)"
    by (simp add: seq_boot_def load_state_def state_version_def)
  have "\<not> controls_full (normalize_settings default_settings) new_seq_state ''shop''"
    using limits_ok_normalize [of default_settings] by (simp add: controls_full_def new_seq_state_def limits_ok_def)
  then obtain r where r: "fst (reset_and_relearn (normalize_settings default_settings) 0 ''shop'' 3 new_seq_state) = Inr r"
    by (simp add: reset_and_relearn_def Let_def)
  have "site_generation ''shop'' new_seq_state = 0"
    by (simp add: site_generation_def site_control_def new_seq_state_def)
  with relearn_generation [OF r b refl, of "[]"] r show ?thesis by simp
qed

definition sample_watching :: seq_state where
  "sample_watching = new_seq_state\<lparr>sq_workflows := [(sample_wid, sample_workflow 1 1)],
     sq_controls := [(''shop'', \<lparr>sc_site = ''shop'', sc_mode = mode_detect, sc_generation = 1, sc_updated_at = 2\<rparr>)]\<rparr>"

lemma sample_watching_inv: "seq_inv sample_settings sample_watching"
  by (simp add: seq_inv_def table_defs sample_watching_def new_seq_state_def bounded_map_def gm_ok_def gm_all_def
      workflow_ok_def sample_workflow_def valid_mode_def) (simp add: sample_settings_def default_settings_def)

lemma sample_prune: "prune_seq sample_settings 0 3 sample_watching = sample_watching"
  by (simp add: prune_seq_def prune_sessions_def prune_operations_def prune_detection_def gm_remove_if_def
      sample_watching_def new_seq_state_def sample_workflow_def time_is_zero_def)

lemma sample_entry:
  "\<exists>v. sq_violations (detect_unexpected_entry sample_env sample_settings (shop_visit sample_wid ''cart'' 3)
      sample_watching) = [v] \<and> sv_type v = ''UNEXPECTED_ENTRY_POINT''"
proof -
  have w: "gm_get (sq_workflows sample_watching) sample_wid = Some (sample_workflow 1 1)"
    "sq_exceptions sample_watching = []" "sq_violations sample_watching = []"
    by (simp_all add: sample_watching_def new_seq_state_def)
  have m: "sequence_mode sample_watching ''shop'' = mode_detect"
    by (simp add: sequence_mode_def sample_watching_def valid_mode_def)
  have "workflow_maturity_of sample_settings sample_watching sample_wid 3 = Mature"
    by (simp add: workflow_maturity_of_def w workflow_maturity_def sample_workflow_def maturity_for_def
        time_is_zero_def time_sub_def min_duration_def max_duration_def)
  moreover have "share 1 1 = 1" by (simp add: share_def)
  moreover have "f64 (1 / 2) \<le> 1" using f64_le_of_nat [of "1 / 2" 1] by simp
  ultimately show ?thesis
    by (simp add: detect_unexpected_entry_def m w sample_workflow_def gm_has_def sat_total_def sat_add_def
        max_entry_confidence_def append_violation_def violation_of_def time_is_zero_def valid_anomaly_type_def
        anomaly_types_def excepted_def push_bounded_def complete_violation_def)
qed

theorem violation_justified_witness:
  "\<exists>v. v \<in> set (sq_violations (process_observation sample_env sample_settings 0 (shop_visit sample_wid ''cart'' 3)
      sample_watching)) \<and> sv_type v = ''UNEXPECTED_ENTRY_POINT'' \<and> sv_site v = ''shop'' \<and>
    sequence_mode sample_watching ''shop'' = mode_detect \<and> \<not> excepted sample_watching v 3"
proof -
  obtain v where v: "sq_violations (detect_unexpected_entry sample_env sample_settings
      (shop_visit sample_wid ''cart'' 3) sample_watching) = [v]" "sv_type v = ''UNEXPECTED_ENTRY_POINT''"
    using sample_entry by blast
  have s: "gm_get (sq_sessions sample_watching) sample_wid = None"
    by (simp add: sample_watching_def new_seq_state_def)
  have "v \<in> set (sq_violations (process_observation sample_env sample_settings 0
      (shop_visit sample_wid ''cart'' 3) sample_watching))"
    by (simp add: process_observation_def time_is_zero_def sample_prune open_session_def s new_session_def Let_def v)
  with violation_justified [OF sample_limits sample_watching_inv this] v(2) show ?thesis
    by (auto simp: sample_watching_def new_seq_state_def)
qed

end
