(* ===== verification/Object_Locator.thy ===== *)
theory Object_Locator
  imports Sequence_State
begin

text \<open>
  \<^verbatim>\<open>object_locator_api71.go\<close>: where the operations of an API select objects. A
  locator is a field of an operation (a path segment, a query parameter, a body field or a GraphQL
  variable) that carries an object identifier. Values are kept as keyed digests only.
  Operators declare locators (INCLUDE) or hide false ones (SUPPRESS).

  \<open>object_env\<close> holds the digests: SHA-256 cut to 16 and to 20 bytes and the two keyed
  HMACs, in hexadecimal. \<open>strings.ToLower\<close> acts on ASCII letters. The samples of a request
  (the fields the schema collector found in it, with their values) are arguments.
\<close>

record object_env =
  oe_hash16 :: "string \<Rightarrow> string"
  oe_hash20 :: "string \<Rightarrow> string"
  oe_value_digest :: "string \<Rightarrow> string"
  oe_identity_digest :: "string \<Rightarrow> string"

section \<open>Types\<close>

record value_fingerprint =
  vf_digest :: string
  vf_count :: u64
  vf_first_seen :: gtime
  vf_last_seen :: gtime

record object_locator =
  ol_id :: string
  ol_operation :: string
  ol_location :: string
  ol_field :: string
  ol_schema_type :: string
  ol_semantic :: string
  ol_confidence :: rat
  ol_sources :: "string list"
  ol_status :: string
  ol_observations :: u64
  ol_fingerprints :: "value_fingerprint list"
  ol_first_seen :: gtime
  ol_last_seen :: gtime
  ol_expires_at :: gtime

record locator_override =
  oo_id :: string
  oo_operation :: string
  oo_location :: string
  oo_field :: string
  oo_schema_type :: string
  oo_semantic :: string
  oo_action :: string
  oo_created_at :: gtime
  oo_updated_at :: gtime

record locator_store =
  os_locators :: "(string, object_locator) gomap"
  os_overrides :: "(string, locator_override) gomap"

record path_parameter =
  pp_name :: string
  pp_kind :: string

record observed_operation =
  ao_id :: string
  ao_ignored :: bool
  ao_path_parameters :: "path_parameter list"

record field_sample =
  fs_path :: string
  fs_location :: string
  fs_type :: string
  fs_format :: string
  fs_value :: string

definition locator_ttl :: duration where "locator_ttl = 30 * 24 * hour"
definition max_locators :: nat where "max_locators = 4096"
definition max_locators_per_operation :: nat where "max_locators_per_operation = 32"
definition max_fingerprints :: nat where "max_fingerprints = 8"
definition max_overrides :: nat where "max_overrides = 1024"

definition source_api1 :: string where "source_api1 = ''API1_NORMALIZED_PATH''"
definition source_api2 :: string where "source_api2 = ''API2_TYPED_SCHEMA''"
definition source_api3 :: string where "source_api3 = ''API3_OPENAPI_CONTRACT''"
definition source_operator :: string where "source_operator = ''OPERATOR''"
definition source_api8 :: string where "source_api8 = ''API8_GRAPHQL_VARIABLE''"
definition override_include :: string where "override_include = ''INCLUDE''"
definition override_suppress :: string where "override_suppress = ''SUPPRESS''"
definition status_active :: string where "status_active = ''ACTIVE''"
definition status_suppressed :: string where "status_suppressed = ''SUPPRESSED''"

definition new_locator_store :: locator_store where
  "new_locator_store = \<lparr>os_locators = [], os_overrides = []\<rparr>"

section \<open>Names and identifiers\<close>

definition locator_id :: "object_env \<Rightarrow> string \<Rightarrow> string \<Rightarrow> string \<Rightarrow> string" where
  "locator_id env op loc field = oe_hash16 env (''object-locator|'' @ op @ ''|'' @ to_lower loc @ ''|'' @ field)"

definition override_id :: "object_env \<Rightarrow> string \<Rightarrow> string \<Rightarrow> string \<Rightarrow> string" where
  "override_id env op loc field =
     oe_hash16 env (''object-locator-override|'' @ op @ ''|'' @ to_lower loc @ ''|'' @ field)"

definition valid_locator_location :: "string \<Rightarrow> bool" where
  "valid_locator_location v \<longleftrightarrow> to_lower (trim_space v) \<in> {''path'', ''query'', ''body'', ''graphql_variable''}"

definition valid_locator_field :: "string \<Rightarrow> bool" where
  "valid_locator_field v \<longleftrightarrow> (let v = trim_space v in
     v \<noteq> [] \<and> length v \<le> 256 \<and> list_all (\<lambda>c. \<not> c < byte 32 \<and> c \<noteq> byte 127) v)"

text \<open>\<^verbatim>\<open>isSensitiveFieldName\<close>\<close>

definition sensitive_tokens :: "string list" where
  "sensitive_tokens = [''password'', ''passwd'', ''secret'', ''token'', ''authorization'', ''cookie'', ''session'',
     ''apikey'', ''accesskey'', ''privatekey'', ''creditcard'', ''cardnumber'', ''cvv'', ''ssn'', ''email'',
     ''phone'', ''address'', ''name'', ''memo'', ''comment'', ''message'', ''note'']"

definition sensitive_field :: "string \<Rightarrow> bool" where
  "sensitive_field path \<longleftrightarrow>
     (let canonical = filter (\<lambda>c. c \<notin> set ''_-. []'') (to_lower path)
      in list_ex (contains_str canonical) sensitive_tokens)"

text \<open>\<^verbatim>\<open>strings.FieldsFunc\<close>: the maximal runs of characters that are not separators.\<close>

fun fields_by :: "(char \<Rightarrow> bool) \<Rightarrow> string \<Rightarrow> string \<Rightarrow> string list" where
  "fields_by sep cur [] = (if cur = [] then [] else [cur])"
| "fields_by sep cur (c # cs) =
     (if sep c then (if cur = [] then fields_by sep [] cs else cur # fields_by sep [] cs)
      else fields_by sep (cur @ [c]) cs)"

definition semantic_name :: "string \<Rightarrow> string" where
  "semantic_name path =
     (let path = trim_space path in
      if path = [] \<or> path = ''$'' \<or> has_prefix (to_lower path) ''variables.'' \<or> sensitive_field path then []
      else
        (case rev (fields_by (\<lambda>c. c \<in> set ''.[]/'') [] path) of
           [] \<Rightarrow> []
         | leaf # _ \<Rightarrow>
             let leaf = trim_space leaf;
                 canonical = to_lower (filter (\<lambda>c. c \<notin> set ''_-'') leaf)
             in if canonical = ''id'' \<or> canonical = ''uuid'' \<or> (length canonical > 2 \<and> has_suffix canonical ''id'')
                then leaf else []))"

definition type_eligible :: "string \<Rightarrow> string \<Rightarrow> bool" where
  "type_eligible typ fmt \<longleftrightarrow> to_lower (trim_space fmt) \<in> {''uuid'', ''ulid''} \<or>
     to_lower (trim_space typ) \<in> {''integer'', ''number'', ''string''}"

text \<open>\<^verbatim>\<open>digestValue\<close>: the empty text for the empty value.\<close>

definition digest_value :: "object_env \<Rightarrow> string \<Rightarrow> string \<Rightarrow> string \<Rightarrow> string \<Rightarrow> string" where
  "digest_value env op loc field raw =
     (if raw = [] then [] else oe_value_digest env (join_nul [op, loc, field, raw]))"

definition source_weight :: "string \<Rightarrow> rat" where
  "source_weight s = (if s = source_operator then 1 else if s = source_api3 then f64 (95 / 100)
     else if s = source_api1 then f64 (85 / 100) else if s = source_api2 then f64 (75 / 100)
     else if s = source_api8 then f64 (95 / 100) else 0)"

definition locator_confidence :: "string list \<Rightarrow> rat" where
  "locator_confidence sources = foldl (\<lambda>best s. if source_weight s > best then source_weight s else best) 0 sources"

section \<open>Merging evidence\<close>

text \<open>The fingerprints after a digest was seen.\<close>

fun note_digest :: "string \<Rightarrow> gtime \<Rightarrow> value_fingerprint list \<Rightarrow> value_fingerprint list option" where
  "note_digest d now [] = None"
| "note_digest d now (f # fs) =
     (if vf_digest f = d then Some (f\<lparr>vf_count := vf_count f + 1, vf_last_seen := now\<rparr> # fs)
      else map_option (Cons f) (note_digest d now fs))"

definition add_digest :: "string \<Rightarrow> gtime \<Rightarrow> value_fingerprint list \<Rightarrow> value_fingerprint list" where
  "add_digest d now fs =
     (if d = [] then fs
      else (case note_digest d now fs of
          Some fs' \<Rightarrow> fs'
        | None \<Rightarrow> if length fs < max_fingerprints
            then fs @ [\<lparr>vf_digest = d, vf_count = 1, vf_first_seen = now, vf_last_seen = now\<rparr>] else fs))"

definition new_locator :: "string \<Rightarrow> string \<Rightarrow> string \<Rightarrow> string \<Rightarrow> string \<Rightarrow> gtime \<Rightarrow> object_locator" where
  "new_locator lid op loc field sem now = \<lparr>ol_id = lid, ol_operation = op, ol_location = loc, ol_field = field,
     ol_schema_type = [], ol_semantic = sem, ol_confidence = 0, ol_sources = [], ol_status = [],
     ol_observations = 0, ol_fingerprints = [], ol_first_seen = now, ol_last_seen = 0, ol_expires_at = 0\<rparr>"

definition touch_locator :: "string \<Rightarrow> string \<Rightarrow> string \<Rightarrow> string \<Rightarrow> gtime \<Rightarrow> object_locator \<Rightarrow> object_locator" where
  "touch_locator styp sem src digest now v =
     (let sources = sort_by (\<lambda>a b. a < b) (if src \<in> set (ol_sources v) then ol_sources v else ol_sources v @ [src])
      in v\<lparr>ol_schema_type := (if styp \<noteq> [] then to_lower (trim_space styp) else ol_schema_type v),
           ol_semantic := (if ol_semantic v = [] \<or> src = source_api3 \<or> src = source_operator then sem
             else ol_semantic v),
           ol_sources := sources, ol_confidence := locator_confidence sources, ol_status := status_active,
           ol_observations := ol_observations v + 1, ol_last_seen := now, ol_expires_at := now + locator_ttl,
           ol_fingerprints := add_digest digest now (ol_fingerprints v)\<rparr>)"

text \<open>\<open>Some\<close> is the locator that was touched.\<close>

definition merge_locator :: "object_env \<Rightarrow> string \<Rightarrow> string \<Rightarrow> string \<Rightarrow> string \<Rightarrow> string \<Rightarrow> string \<Rightarrow> string \<Rightarrow> gtime \<Rightarrow>
    locator_store \<Rightarrow> object_locator option \<times> locator_store" where
  "merge_locator env op loc field styp sem src raw now st =
     (let loc = to_lower (trim_space loc); field = trim_space field; sem = trim_space sem in
      if \<not> valid_operation_id op \<or> \<not> valid_locator_location loc \<or> \<not> valid_locator_field field \<or> sem = []
      then (None, st)
      else
        let lid = locator_id env op loc field;
            touch = touch_locator styp sem src (digest_value env op loc field raw) now;
            put = (\<lambda>v. (Some v, st\<lparr>os_locators := gm_put lid v (os_locators st)\<rparr>))
        in case gm_get (os_locators st) lid of
             Some v \<Rightarrow> put (touch v)
           | None \<Rightarrow>
               if length (os_locators st) \<ge> max_locators \<or>
                 group_count ol_operation op (os_locators st) \<ge> max_locators_per_operation then (None, st)
               else put (touch (new_locator lid op loc field sem now)))"

definition prune_locators :: "gtime \<Rightarrow> locator_store \<Rightarrow> locator_store" where
  "prune_locators now st = st\<lparr>os_locators := gm_remove_if (\<lambda>_ v. \<not> now < ol_expires_at v \<and>
     \<not> (source_operator \<in> set (ol_sources v) \<or> source_api3 \<in> set (ol_sources v))) (os_locators st)\<rparr>"

definition suppressed :: "object_env \<Rightarrow> locator_store \<Rightarrow> string \<Rightarrow> string \<Rightarrow> string \<Rightarrow> bool" where
  "suppressed env st op loc field \<longleftrightarrow> (case gm_get (os_overrides st) (override_id env op loc field) of
      Some x \<Rightarrow> oo_action x = override_suppress
    | None \<Rightarrow> False)"

section \<open>Observations\<close>

definition note_path_parameter :: "object_env \<Rightarrow> gtime \<Rightarrow> string \<Rightarrow> field_sample list \<Rightarrow> path_parameter \<Rightarrow>
    locator_store \<Rightarrow> locator_store" where
  "note_path_parameter env now op samples p st =
     (if pp_kind p \<noteq> ''identifier'' \<and> pp_kind p \<noteq> ''opaque_token'' then st
      else
        let field = pp_name p;
            sem = (if semantic_name field = [] then field else semantic_name field);
            raw = (case find (\<lambda>s. fs_location s = ''path'' \<and> fs_path s = field) samples of
                None \<Rightarrow> [] | Some s \<Rightarrow> fs_value s)
        in snd (merge_locator env op ''path'' field (pp_kind p) sem source_api1 raw now st))"

definition object_sample :: "field_sample \<Rightarrow> bool" where
  "object_sample s \<longleftrightarrow> fs_location s \<in> {''path'', ''query'', ''body''} \<and>
     \<not> (fs_location s = ''body'' \<and> has_prefix (to_lower (fs_path s)) ''variables.'')"

definition note_sample :: "object_env \<Rightarrow> gtime \<Rightarrow> string \<Rightarrow> field_sample \<Rightarrow> locator_store \<Rightarrow> locator_store" where
  "note_sample env now op s st =
     (if \<not> object_sample s then st
      else
        let sem = semantic_name (fs_path s);
            sem = (if fs_location s = ''path'' \<and> sem = [] then fs_path s else sem)
        in if sem = [] \<or> \<not> type_eligible (fs_type s) (fs_format s) then st
           else snd (merge_locator env op (fs_location s) (fs_path s) (fs_type s) sem source_api2 (fs_value s) now st))"

definition note_locator_observation :: "object_env \<Rightarrow> gtime \<Rightarrow> observed_operation \<Rightarrow> field_sample list \<Rightarrow>
    locator_store \<Rightarrow> locator_store" where
  "note_locator_observation env now op samples st =
     (if ao_id op = [] \<or> ao_ignored op then st
      else
        fold (note_sample env now (ao_id op)) samples
          (fold (note_path_parameter env now (ao_id op) samples) (ao_path_parameters op)
            (prune_locators now st)))"

record contract_candidate =
  cc_operation :: string
  cc_location :: string
  cc_field :: string
  cc_schema_type :: string
  cc_semantic :: string

definition refresh_contract_sources :: "object_env \<Rightarrow> gtime \<Rightarrow> contract_candidate list \<Rightarrow> locator_store \<Rightarrow> locator_store" where
  "refresh_contract_sources env now cs st =
     fold (\<lambda>x st. snd (merge_locator env (cc_operation x) (cc_location x) (cc_field x) (cc_schema_type x)
       (cc_semantic x) source_api3 [] now st)) cs st"

definition valid_graphql_name :: "string \<Rightarrow> bool" where
  "valid_graphql_name v \<longleftrightarrow> v \<noteq> [] \<and> length v \<le> 128 \<and>
     (let letter = (\<lambda>c. c = CHR ''_'' \<or> (CHR ''A'' \<le> c \<and> c \<le> CHR ''Z'') \<or> (CHR ''a'' \<le> c \<and> c \<le> CHR ''z''))
      in letter (hd v) \<and> list_all (\<lambda>c. letter c \<or> (CHR ''0'' \<le> c \<and> c \<le> CHR ''9'')) (tl v))"

definition variable_semantic :: "string \<Rightarrow> string \<Rightarrow> string" where
  "variable_semantic name typ = (if sensitive_field name then []
     else if contains_str (to_upper typ) ''ID'' then name else semantic_name name)"

definition note_graphql_variable :: "object_env \<Rightarrow> string \<Rightarrow> string \<Rightarrow> string \<Rightarrow> string \<Rightarrow> gtime \<Rightarrow> locator_store \<Rightarrow>
    object_locator option \<times> locator_store" where
  "note_graphql_variable env op field styp raw now st =
     (if \<not> valid_operation_id op \<or> \<not> valid_graphql_name field \<or> raw = [] then (None, st)
      else
        let sem = variable_semantic field styp in
        if sem = [] then (None, st)
        else (case merge_locator env op ''graphql_variable'' field styp sem source_api8 raw now (prune_locators now st) of
            (None, st) \<Rightarrow> (None, st)
          | (Some v, st) \<Rightarrow> (if suppressed env st op ''graphql_variable'' field then None else Some v, st)))"

section \<open>Overrides\<close>

datatype override_error = Bad_Action | Bad_Locator | Bad_Semantic | Overrides_Full | Override_Missing

definition remove_operator_source :: "object_env \<Rightarrow> string \<Rightarrow> string \<Rightarrow> string \<Rightarrow> locator_store \<Rightarrow> locator_store" where
  "remove_operator_source env op loc field st =
     (let lid = locator_id env op loc field in
      case gm_get (os_locators st) lid of
        None \<Rightarrow> st
      | Some v \<Rightarrow>
          let sources = filter (\<lambda>s. s \<noteq> source_operator) (ol_sources v);
              v = v\<lparr>ol_sources := sources, ol_confidence := locator_confidence sources\<rparr>
          in if sources = [] then st\<lparr>os_locators := gm_del lid (os_locators st)\<rparr>
             else st\<lparr>os_locators := gm_put lid v (os_locators st)\<rparr>)"

definition trim_override :: "locator_override \<Rightarrow> locator_override" where
  "trim_override v = v\<lparr>oo_operation := trim_space (oo_operation v), oo_location := to_lower (trim_space (oo_location v)),
     oo_field := trim_space (oo_field v), oo_schema_type := to_lower (trim_space (oo_schema_type v)),
     oo_semantic := trim_space (oo_semantic v), oo_action := to_upper (trim_space (oo_action v))\<rparr>"

definition merge_override :: "object_env \<Rightarrow> gtime \<Rightarrow> locator_override \<Rightarrow> locator_store \<Rightarrow> locator_store" where
  "merge_override env now v st =
     (if oo_action v = override_include
      then snd (merge_locator env (oo_operation v) (oo_location v) (oo_field v) (oo_schema_type v) (oo_semantic v)
        source_operator [] now st) else st)"

definition upsert_override :: "object_env \<Rightarrow> gtime \<Rightarrow> locator_override \<Rightarrow> locator_store \<Rightarrow>
    (override_error + locator_override) \<times> locator_store" where
  "upsert_override env now v st =
     (let v = trim_override v in
      if oo_action v \<noteq> override_include \<and> oo_action v \<noteq> override_suppress then (Inl Bad_Action, st)
      else if \<not> valid_operation_id (oo_operation v) \<or> \<not> valid_locator_location (oo_location v) \<or>
        \<not> valid_locator_field (oo_field v) then (Inl Bad_Locator, st)
      else
        let sem = (if oo_action v = override_include \<and> oo_semantic v = [] then semantic_name (oo_field v)
              else oo_semantic v);
            v = v\<lparr>oo_semantic := sem\<rparr>
        in if oo_action v = override_include \<and> (sem = [] \<or> length sem > 128) then (Inl Bad_Semantic, st)
           else
             let xid = override_id env (oo_operation v) (oo_location v) (oo_field v) in
             case gm_get (os_overrides st) xid of
               None \<Rightarrow>
                 if length (os_overrides st) \<ge> max_overrides then (Inl Overrides_Full, st)
                 else
                   let v = v\<lparr>oo_created_at := now, oo_id := xid, oo_updated_at := now\<rparr>
                   in (Inr v, merge_override env now v (st\<lparr>os_overrides := gm_put xid v (os_overrides st)\<rparr>))
             | Some old \<Rightarrow>
                 let st = (if oo_action old = override_include \<and> oo_action v \<noteq> override_include
                       then remove_operator_source env (oo_operation old) (oo_location old) (oo_field old) st else st);
                     v = v\<lparr>oo_created_at := oo_created_at old, oo_id := xid, oo_updated_at := now\<rparr>
                 in (Inr v, merge_override env now v (st\<lparr>os_overrides := gm_put xid v (os_overrides st)\<rparr>)))"

definition delete_override :: "object_env \<Rightarrow> string \<Rightarrow> locator_store \<Rightarrow> (override_error + locator_override) \<times> locator_store" where
  "delete_override env xid st =
     (case gm_get (os_overrides st) xid of
        None \<Rightarrow> (Inl Override_Missing, st)
      | Some v \<Rightarrow>
          let st = st\<lparr>os_overrides := gm_del xid (os_overrides st)\<rparr>
          in (Inr v, if oo_action v = override_include
              then remove_operator_source env (oo_operation v) (oo_location v) (oo_field v) st else st))"

section \<open>Reading\<close>

definition list_overrides :: "locator_store \<Rightarrow> locator_override list" where
  "list_overrides st = sort_by (\<lambda>a b. oo_id a < oo_id b) (gm_values (os_overrides st))"

definition locator_less :: "object_locator \<Rightarrow> object_locator \<Rightarrow> bool" where
  "locator_less a b \<longleftrightarrow> (if ol_operation a \<noteq> ol_operation b then ol_operation a < ol_operation b
     else if ol_location a \<noteq> ol_location b then ol_location a < ol_location b else ol_field a < ol_field b)"

definition locator_view :: "object_env \<Rightarrow> locator_store \<Rightarrow> object_locator \<Rightarrow> object_locator" where
  "locator_view env st v = v\<lparr>ol_status := (if suppressed env st (ol_operation v) (ol_location v) (ol_field v)
     then status_suppressed else status_active)\<rparr>"

definition locator_snapshot :: "object_env \<Rightarrow> gtime \<Rightarrow> locator_store \<Rightarrow> object_locator list \<times> locator_store" where
  "locator_snapshot env now st =
     (let st = prune_locators now st
      in (sort_by locator_less (map (locator_view env st) (gm_values (os_locators st))), st))"

definition active_locator :: "object_env \<Rightarrow> gtime \<Rightarrow> string \<Rightarrow> string \<Rightarrow> string \<Rightarrow> locator_store \<Rightarrow>
    object_locator option \<times> locator_store" where
  "active_locator env now op loc field st =
     (let loc = to_lower (trim_space loc); field = trim_space field; st = prune_locators now st in
      case gm_get (os_locators st) (locator_id env op loc field) of
        None \<Rightarrow> (None, st)
      | Some v \<Rightarrow> if suppressed env st op loc field then (None, st)
          else (Some (v\<lparr>ol_status := status_active\<rparr>), st))"

text \<open>A named locator of the path stands for the segment only when there is one segment and one such
  locator. \<open>now\<close> and \<open>now2\<close> are the two readings of the clock.\<close>

definition active_path_locator :: "object_env \<Rightarrow> gtime \<Rightarrow> gtime \<Rightarrow> string \<Rightarrow> string \<Rightarrow> nat \<Rightarrow> locator_store \<Rightarrow>
    object_locator option \<times> locator_store" where
  "active_path_locator env now now2 op positional segments st =
     (case active_locator env now op ''path'' positional st of
        (Some v, st) \<Rightarrow> (Some v, st)
      | (None, st) \<Rightarrow>
          if segments \<noteq> 1 then (None, st)
          else
            let st = prune_locators now2 st;
                named = filter (\<lambda>v. ol_operation v = op \<and> ol_location v = ''path'' \<and> ol_field v \<noteq> positional \<and>
                  \<not> suppressed env st op ''path'' (ol_field v)) (gm_values (os_locators st))
            in (case named of [v] \<Rightarrow> Some (v\<lparr>ol_status := status_active\<rparr>) | _ \<Rightarrow> None, st))"

section \<open>Loading\<close>

definition valid_locator :: "gtime \<Rightarrow> object_locator \<Rightarrow> bool" where
  "valid_locator now v \<longleftrightarrow>
     length (ol_id v) = 32 \<and> valid_operation_id (ol_operation v) \<and> valid_locator_location (ol_location v) \<and>
     valid_locator_field (ol_field v) \<and> 0 \<le> ol_confidence v \<and> ol_confidence v \<le> 1 \<and>
     \<not> time_is_zero (ol_first_seen v) \<and> \<not> time_is_zero (ol_last_seen v) \<and> now < ol_expires_at v \<and>
     ol_sources v \<noteq> [] \<and> length (ol_fingerprints v) \<le> max_fingerprints \<and> hex_decodes (ol_id v) \<and>
     list_all (\<lambda>f. length (vf_digest f) = 40 \<and> hex_decodes (vf_digest f)) (ol_fingerprints v)"

definition valid_override :: "locator_override \<Rightarrow> bool" where
  "valid_override v \<longleftrightarrow>
     length (oo_id v) = 32 \<and> valid_operation_id (oo_operation v) \<and> valid_locator_location (oo_location v) \<and>
     valid_locator_field (oo_field v) \<and> oo_action v \<in> {override_include, override_suppress} \<and>
     hex_decodes (oo_id v) \<and>
     (oo_action v \<noteq> override_include \<or> trim_space (oo_semantic v) \<noteq> [] \<and> length (oo_semantic v) \<le> 128)"

record locator_file =
  lf_version :: int
  lf_locators :: "object_locator list"
  lf_overrides :: "locator_override list"

definition load_locator :: "gtime \<Rightarrow> object_locator \<Rightarrow> locator_store \<Rightarrow> locator_store" where
  "load_locator now v st =
     (if length (os_locators st) \<ge> max_locators \<or> \<not> valid_locator now v \<or>
        group_count ol_operation (ol_operation v) (os_locators st) \<ge> max_locators_per_operation then st
      else st\<lparr>os_locators := gm_put (ol_id v) v (os_locators st)\<rparr>)"

definition load_override :: "object_env \<Rightarrow> gtime \<Rightarrow> locator_override \<Rightarrow> locator_store \<Rightarrow> locator_store" where
  "load_override env now v st =
     (if length (os_overrides st) \<ge> max_overrides \<or> \<not> valid_override v then st
      else merge_override env now v (st\<lparr>os_overrides := gm_put (oo_id v) v (os_overrides st)\<rparr>))"

definition load_locators :: "object_env \<Rightarrow> gtime \<Rightarrow> locator_file \<Rightarrow> locator_store \<Rightarrow> locator_store option" where
  "load_locators env now f st =
     (if lf_version f \<notin> {0, 1} then None
      else Some (fold (load_override env now) (lf_overrides f) (fold (load_locator now) (lf_locators f) st)))"

end
