(* ===== verification/Object_Relationship.thy ===== *)
theory Object_Relationship
  imports Object_Locator
begin

text \<open>
  \<^verbatim>\<open>object_relationship_api72.go\<close> and \<^verbatim>\<open>bola_detection_api73.go\<close>: which
  verified identity was seen with which object, and the candidates for broken object level
  authorization found against that baseline. Both are evidence only.

  An observation first goes to the detector, which reads the relationships as they were, and is
  then merged into them. The pointers in the maps are not nil, and the relationship store has its
  locators and its detector.
\<close>

section \<open>Relationships\<close>

record object_relationship =
  or_id :: string
  or_locator :: string
  or_operation :: string
  or_location :: string
  or_field :: string
  or_identity_kind :: string
  or_identity :: string
  or_tenant :: string
  or_client :: string
  or_object :: string
  or_level :: string
  or_count :: u64
  or_sources :: "string list"
  or_first_seen :: gtime
  or_last_seen :: gtime
  or_expires_at :: gtime

text \<open>The parts of an observation the engine reads; the request parts feed the collector of samples.\<close>

record object_observation =
  ob_operation :: string
  ob_identity_kind :: string
  ob_identity :: string
  ob_tenant :: string
  ob_client :: string
  ob_direct_locator :: string
  ob_direct_location :: string
  ob_direct_field :: string
  ob_direct_object :: string
  ob_direct_source :: string
  ob_at :: gtime

definition relationship_ttl :: duration where "relationship_ttl = 30 * 24 * hour"
definition max_relationships :: nat where "max_relationships = 8192"
definition max_relationships_per_identity :: nat where "max_relationships_per_identity = 512"
definition max_relationships_per_object :: nat where "max_relationships_per_object = 256"
definition source_api5 :: string where "source_api5 = ''API5_VERIFIED_IDENTITY''"
definition source_api71 :: string where "source_api71 = ''API71_KEYED_OBJECT''"
definition evidence_observed :: string where "evidence_observed = ''OBSERVED''"
definition evidence_repeated :: string where "evidence_repeated = ''REPEATED''"

definition relationship_id :: "object_env \<Rightarrow> string \<Rightarrow> string \<Rightarrow> string \<Rightarrow> string" where
  "relationship_id env identity lid object = oe_hash20 env (join_nul [''api72-relationship'', identity, lid, object])"

text \<open>\<^verbatim>\<open>identityObservation\<close>: the pseudonyms of a verified identity.\<close>

record verified_identity =
  vi_issuer :: string
  vi_subject :: string
  vi_tenant :: string
  vi_client :: string

definition digest_identity :: "object_env \<Rightarrow> string \<Rightarrow> string list \<Rightarrow> string" where
  "digest_identity env kind values = oe_identity_digest env (join_nul [''api72'', kind, join_nul values])"

definition digest_optional_identity :: "object_env \<Rightarrow> string \<Rightarrow> string \<Rightarrow> string \<Rightarrow> string" where
  "digest_optional_identity env kind issuer v =
     (if trim_space v = [] then [] else digest_identity env kind [issuer, v])"

definition no_observation :: object_observation where
  "no_observation = \<lparr>ob_operation = [], ob_identity_kind = [], ob_identity = [], ob_tenant = [], ob_client = [],
     ob_direct_locator = [], ob_direct_location = [], ob_direct_field = [], ob_direct_object = [],
     ob_direct_source = [], ob_at = 0\<rparr>"

definition identity_observation :: "object_env \<Rightarrow> gtime \<Rightarrow> verified_identity option \<Rightarrow> object_observation" where
  "identity_observation env now vid =
     (case vid of
        None \<Rightarrow> no_observation
      | Some i \<Rightarrow>
          let (kind, identity) =
            (if trim_space (vi_subject i) \<noteq> [] then (''subject'', digest_identity env ''subject'' [vi_issuer i, vi_subject i])
             else if trim_space (vi_client i) \<noteq> [] then (''client'', digest_identity env ''client'' [vi_issuer i, vi_client i])
             else ([], []))
          in if identity = [] then no_observation
             else no_observation\<lparr>ob_identity_kind := kind, ob_identity := identity,
               ob_tenant := digest_optional_identity env ''tenant'' (vi_issuer i) (vi_tenant i),
               ob_client := digest_optional_identity env ''client'' (vi_issuer i) (vi_client i), ob_at := now\<rparr>)"

type_synonym relationships = "(string, object_relationship) gomap"

definition object_of :: "object_relationship \<Rightarrow> string \<times> string" where
  "object_of v = (or_locator v, or_object v)"

definition prune_relationships :: "gtime \<Rightarrow> relationships \<Rightarrow> relationships" where
  "prune_relationships now m = gm_remove_if (\<lambda>_ v. \<not> now < or_expires_at v) m"

definition new_relationship :: "object_observation \<Rightarrow> object_locator \<Rightarrow> string \<Rightarrow> string \<Rightarrow> string \<Rightarrow> object_relationship" where
  "new_relationship ev loc object src rid = \<lparr>or_id = rid, or_locator = ol_id loc, or_operation = ol_operation loc,
     or_location = ol_location loc, or_field = ol_field loc, or_identity_kind = ob_identity_kind ev,
     or_identity = ob_identity ev, or_tenant = ob_tenant ev, or_client = ob_client ev, or_object = object,
     or_level = [], or_count = 0, or_sources = [source_api5, src], or_first_seen = ob_at ev, or_last_seen = 0,
     or_expires_at = 0\<rparr>"

definition touch_relationship :: "gtime \<Rightarrow> object_relationship \<Rightarrow> object_relationship" where
  "touch_relationship now v =
     (let n = sat_incr (or_count v)
      in v\<lparr>or_count := n, or_level := (if n \<ge> 2 then evidence_repeated else evidence_observed),
           or_last_seen := now, or_expires_at := now + relationship_ttl\<rparr>)"

definition merge_relationship :: "object_env \<Rightarrow> object_observation \<Rightarrow> object_locator \<Rightarrow> string \<Rightarrow> string \<Rightarrow>
    relationships \<Rightarrow> relationships" where
  "merge_relationship env ev loc object src m =
     (let rid = relationship_id env (ob_identity ev) (ol_id loc) object;
          m = prune_relationships (ob_at ev) m
      in case gm_get m rid of
           Some v \<Rightarrow> gm_put rid (touch_relationship (ob_at ev) v) m
         | None \<Rightarrow>
             if length m \<ge> max_relationships \<or> group_count or_identity (ob_identity ev) m \<ge> max_relationships_per_identity \<or>
               group_count object_of (ol_id loc, object) m \<ge> max_relationships_per_object then m
             else gm_put rid (touch_relationship (ob_at ev) (new_relationship ev loc object src rid)) m)"

section \<open>Candidates\<close>

datatype bola_type = Identity_Divergence | Tenant_Divergence | Enumeration
datatype bola_confidence = Medium | High

definition bola_type_text :: "bola_type \<Rightarrow> string" where
  "bola_type_text k = (case k of Identity_Divergence \<Rightarrow> ''IDENTITY_OBJECT_DIVERGENCE''
     | Tenant_Divergence \<Rightarrow> ''TENANT_OBJECT_DIVERGENCE'' | Enumeration \<Rightarrow> ''OBJECT_ENUMERATION'')"

record bola_candidate =
  bc_id :: string
  bc_type :: bola_type
  bc_operation :: string
  bc_locator :: string
  bc_location :: string
  bc_field :: string
  bc_identity :: string
  bc_tenant :: string
  bc_object :: string
  bc_confidence :: bola_confidence
  bc_baseline_identities :: nat
  bc_baseline_tenants :: nat
  bc_baseline_observations :: u64
  bc_recent_objects :: nat
  bc_evidence :: u64
  bc_sources :: "string list"
  bc_first_seen :: gtime
  bc_last_seen :: gtime
  bc_expires_at :: gtime

record bola_context =
  bx_current :: bool
  bx_foreign :: bool
  bx_foreign_tenant :: bool
  bx_identities :: nat
  bx_tenants :: nat
  bx_observations :: u64
  bx_recent_objects :: nat

record bola_store =
  bs_candidates :: "(string, bola_candidate) gomap"
  bs_generated :: u64

definition candidate_ttl :: duration where "candidate_ttl = 7 * 24 * hour"
definition max_candidates :: nat where "max_candidates = 4096"
definition max_candidates_per_identity :: nat where "max_candidates_per_identity = 256"
definition max_candidates_per_object :: nat where "max_candidates_per_object = 128"
definition min_baseline :: u64 where "min_baseline = 2"
definition enumeration_window :: duration where "enumeration_window = 10 * minute"
definition enumeration_objects :: nat where "enumeration_objects = 20"

definition candidate_id :: "object_env \<Rightarrow> bola_type \<Rightarrow> string \<Rightarrow> string \<Rightarrow> string \<Rightarrow> string \<Rightarrow> string" where
  "candidate_id env kind identity lid object tenant =
     oe_hash20 env (join_nul [''api73-bola-candidate'', bola_type_text kind, identity, lid, object, tenant])"

text \<open>What the relationships that have not expired say of an identity and an object.\<close>

definition bola_context_of :: "relationships \<Rightarrow> string \<Rightarrow> string \<Rightarrow> string \<Rightarrow> string \<Rightarrow> gtime \<Rightarrow> bola_context" where
  "bola_context_of m lid object identity tenant now =
     (let live = filter (\<lambda>v. now < or_expires_at v) (gm_values m);
          here = filter (\<lambda>v. or_locator v = lid \<and> or_object v = object) live;
          recent = filter (\<lambda>v. or_identity v = identity \<and> or_locator v = lid \<and> now - enumeration_window < or_last_seen v) live
      in \<lparr>bx_current = list_ex (\<lambda>v. or_identity v = identity) here,
          bx_foreign = list_ex (\<lambda>v. or_identity v \<noteq> identity \<and> or_count v \<ge> min_baseline) here,
          bx_foreign_tenant = list_ex (\<lambda>v. tenant \<noteq> [] \<and> or_tenant v \<noteq> [] \<and> or_tenant v \<noteq> tenant \<and>
            or_count v \<ge> min_baseline) here,
          bx_identities = length (remdups (map or_identity here)),
          bx_tenants = length (remdups (filter (\<lambda>t. t \<noteq> []) (map or_tenant here))),
          bx_observations = foldl sat_add 0 (map or_count here),
          bx_recent_objects = length (remdups (map or_object recent))\<rparr>)"

definition prune_candidates :: "gtime \<Rightarrow> bola_store \<Rightarrow> bola_store" where
  "prune_candidates now s = s\<lparr>bs_candidates := gm_remove_if (\<lambda>_ v. \<not> now < bc_expires_at v) (bs_candidates s)\<rparr>"

definition candidate_object :: "bola_candidate \<Rightarrow> string \<times> string" where
  "candidate_object v = (bc_locator v, bc_object v)"

definition new_candidate :: "bola_type \<Rightarrow> object_observation \<Rightarrow> object_locator \<Rightarrow> string \<Rightarrow> string \<Rightarrow> bola_candidate" where
  "new_candidate kind ev loc object cid = \<lparr>bc_id = cid, bc_type = kind, bc_operation = ol_operation loc,
     bc_locator = ol_id loc, bc_location = ol_location loc, bc_field = ol_field loc, bc_identity = ob_identity ev,
     bc_tenant = ob_tenant ev, bc_object = object, bc_confidence = Medium, bc_baseline_identities = 0,
     bc_baseline_tenants = 0, bc_baseline_observations = 0, bc_recent_objects = 0, bc_evidence = 0,
     bc_sources = [source_api5, source_api71, ''API72_RELATIONSHIP_BASELINE''], bc_first_seen = ob_at ev,
     bc_last_seen = 0, bc_expires_at = 0\<rparr>"

definition touch_candidate :: "bola_confidence \<Rightarrow> bola_context \<Rightarrow> gtime \<Rightarrow> bola_candidate \<Rightarrow> bola_candidate" where
  "touch_candidate conf ctx now v = v\<lparr>bc_confidence := conf, bc_baseline_identities := bx_identities ctx,
     bc_baseline_tenants := bx_tenants ctx, bc_baseline_observations := bx_observations ctx,
     bc_recent_objects := bx_recent_objects ctx + 1, bc_evidence := sat_incr (bc_evidence v),
     bc_last_seen := now, bc_expires_at := now + candidate_ttl\<rparr>"

definition record_candidate :: "object_env \<Rightarrow> bola_type \<Rightarrow> bola_confidence \<Rightarrow> object_observation \<Rightarrow> object_locator \<Rightarrow>
    string \<Rightarrow> bola_context \<Rightarrow> bola_store \<Rightarrow> bola_store" where
  "record_candidate env kind conf ev loc object ctx s =
     (let cid = candidate_id env kind (ob_identity ev) (ol_id loc) object (ob_tenant ev);
          s = prune_candidates (ob_at ev) s;
          put = (\<lambda>v. s\<lparr>bs_candidates := gm_put cid (touch_candidate conf ctx (ob_at ev) v) (bs_candidates s),
            bs_generated := bs_generated s + 1\<rparr>)
      in case gm_get (bs_candidates s) cid of
           Some v \<Rightarrow> put v
         | None \<Rightarrow>
             if length (bs_candidates s) \<ge> max_candidates \<or>
               group_count bc_identity (ob_identity ev) (bs_candidates s) \<ge> max_candidates_per_identity \<or>
               group_count candidate_object (ol_id loc, object) (bs_candidates s) \<ge> max_candidates_per_object then s
             else put (new_candidate kind ev loc object cid))"

text \<open>The anomalies an observation shows, with their confidence.\<close>

definition bola_anomalies :: "object_observation \<Rightarrow> bola_context \<Rightarrow> (bola_type \<times> bola_confidence) list" where
  "bola_anomalies ev ctx =
     (if \<not> bx_current ctx \<and> bx_foreign ctx \<and> bx_observations ctx \<ge> min_baseline
      then [(Identity_Divergence, if bx_observations ctx \<ge> 5 \<and> bx_identities ctx = 1 then High else Medium)] else []) @
     (if ob_tenant ev \<noteq> [] \<and> \<not> bx_current ctx \<and> bx_foreign_tenant ctx \<and> bx_observations ctx \<ge> min_baseline
      then [(Tenant_Divergence, if bx_tenants ctx = 1 \<and> bx_observations ctx \<ge> 5 then High else Medium)] else []) @
     (if \<not> bx_current ctx \<and> bx_recent_objects ctx \<ge> enumeration_objects - 1
      then [(Enumeration, if bx_recent_objects ctx \<ge> enumeration_objects * 2 - 1 then High else Medium)] else [])"

definition observe_object :: "object_env \<Rightarrow> object_observation \<Rightarrow> object_locator \<Rightarrow> string \<Rightarrow> relationships \<Rightarrow>
    bola_store \<Rightarrow> bola_store" where
  "observe_object env ev loc object m s =
     (if ob_identity ev = [] \<or> object = [] \<or> time_is_zero (ob_at ev) then s
      else
        let ctx = bola_context_of m (ol_id loc) object (ob_identity ev) (ob_tenant ev) (ob_at ev)
        in fold (\<lambda>(kind, conf). record_candidate env kind conf ev loc object ctx) (bola_anomalies ev ctx) s)"

section \<open>Processing\<close>

record object_plane =
  op_locators :: locator_store
  op_relationships :: relationships
  op_bola :: bola_store
  op_processed :: u64

definition new_object_plane :: object_plane where
  "new_object_plane = \<lparr>op_locators = new_locator_store, op_relationships = [],
     op_bola = \<lparr>bs_candidates = [], bs_generated = 0\<rparr>, op_processed = 0\<rparr>"

text \<open>The detector first, then the baseline it reads.\<close>

definition relate :: "object_env \<Rightarrow> object_observation \<Rightarrow> object_locator \<Rightarrow> string \<Rightarrow> string \<Rightarrow> object_plane \<Rightarrow> object_plane" where
  "relate env ev loc object src p = p\<lparr>
     op_bola := observe_object env ev loc object (op_relationships p) (op_bola p),
     op_relationships := merge_relationship env ev loc object src (op_relationships p)\<rparr>"

definition relate_found :: "object_env \<Rightarrow> object_observation \<Rightarrow> field_sample \<Rightarrow> object_locator option \<times> locator_store \<Rightarrow>
    object_plane \<Rightarrow> object_plane" where
  "relate_found env ev s r p =
     (let p = p\<lparr>op_locators := snd r\<rparr> in
      case fst r of
        None \<Rightarrow> p
      | Some loc \<Rightarrow>
          let object = digest_value env (ob_operation ev) (ol_location loc) (ol_field loc) (fs_value s)
          in if object = [] then p else relate env ev loc object source_api71 p)"

text \<open>\<open>now\<close> and \<open>now2\<close> are the readings of the locators' clock for this sample.\<close>

definition relate_sample :: "object_env \<Rightarrow> object_observation \<Rightarrow> nat \<Rightarrow> (field_sample \<times> gtime \<times> gtime) \<Rightarrow>
    object_plane \<Rightarrow> object_plane" where
  "relate_sample env ev segments x p =
     (case x of (s, now, now2) \<Rightarrow>
        if \<not> object_sample s \<or> fs_value s = [] then p
        else if fs_location s = ''path''
        then relate_found env ev s (active_path_locator env now now2 (ob_operation ev) (fs_path s) segments (op_locators p)) p
        else relate_found env ev s (active_locator env now (ob_operation ev) (fs_location s) (fs_path s) (op_locators p)) p)"

definition process_direct :: "object_env \<Rightarrow> gtime \<Rightarrow> object_observation \<Rightarrow> object_plane \<Rightarrow> object_plane" where
  "process_direct env now ev p =
     (case active_locator env now (ob_operation ev) (ob_direct_location ev) (ob_direct_field ev) (op_locators p) of
        (found, st) \<Rightarrow>
          let p = p\<lparr>op_locators := st\<rparr> in
          case found of
            None \<Rightarrow> p
          | Some loc \<Rightarrow> if ol_id loc = ob_direct_locator ev
              then relate env ev loc (ob_direct_object ev) (ob_direct_source ev) p else p)"

text \<open>\<open>samples\<close> is what the schema collector finds in the request, each with the
  readings of the clock taken for it.\<close>

definition process_object :: "object_env \<Rightarrow> gtime \<Rightarrow> object_observation \<Rightarrow> (field_sample \<times> gtime \<times> gtime) list \<Rightarrow>
    object_plane \<Rightarrow> object_plane" where
  "process_object env now ev samples p =
     (if ob_operation ev = [] \<or> ob_identity ev = [] \<or> time_is_zero (ob_at ev) then p
      else
        let p = (if ob_direct_locator ev \<noteq> [] \<and> ob_direct_object ev \<noteq> [] then process_direct env now ev p
              else fold (relate_sample env ev (length (filter (\<lambda>(s, _). fs_location s = ''path'') samples))) samples p)
        in p\<lparr>op_processed := op_processed p + 1\<rparr>)"

section \<open>Snapshots and files\<close>

definition relationship_less :: "object_relationship \<Rightarrow> object_relationship \<Rightarrow> bool" where
  "relationship_less a b \<longleftrightarrow> (if or_last_seen a \<noteq> or_last_seen b then or_last_seen a < or_last_seen b
     else or_id a < or_id b)"

definition relationship_snapshot :: "gtime \<Rightarrow> relationships \<Rightarrow> object_relationship list \<times> relationships" where
  "relationship_snapshot now m =
     (let m = prune_relationships now m in (sort_by relationship_less (gm_values m), m))"

definition candidate_less :: "bola_candidate \<Rightarrow> bola_candidate \<Rightarrow> bool" where
  "candidate_less a b \<longleftrightarrow> (if bc_last_seen a \<noteq> bc_last_seen b then bc_last_seen b < bc_last_seen a
     else bc_id a < bc_id b)"

definition candidate_snapshot :: "gtime \<Rightarrow> bola_store \<Rightarrow> bola_candidate list \<times> bola_store" where
  "candidate_snapshot now s =
     (let s = prune_candidates now s in (sort_by candidate_less (gm_values (bs_candidates s)), s))"

definition digest40 :: "string \<Rightarrow> bool" where
  "digest40 d \<longleftrightarrow> length d = 40 \<and> hex_decodes d"

definition valid_relationship :: "gtime \<Rightarrow> object_relationship \<Rightarrow> bool" where
  "valid_relationship now v \<longleftrightarrow>
     length (or_locator v) = 32 \<and> valid_operation_id (or_operation v) \<and> valid_locator_location (or_location v) \<and>
     valid_locator_field (or_field v) \<and> or_identity_kind v \<in> {''subject'', ''client''} \<and> or_count v \<noteq> 0 \<and>
     \<not> time_is_zero (or_first_seen v) \<and> \<not> time_is_zero (or_last_seen v) \<and> now < or_expires_at v \<and>
     or_level v \<in> {evidence_observed, evidence_repeated} \<and>
     list_all digest40 [or_id v, or_identity v, or_object v] \<and>
     list_all (\<lambda>d. d = [] \<or> digest40 d) [or_tenant v, or_client v] \<and>
     length (or_sources v) = 2 \<and> source_api5 \<in> set (or_sources v) \<and>
     (source_api71 \<in> set (or_sources v) \<or> source_api8 \<in> set (or_sources v))"

definition load_relationship :: "gtime \<Rightarrow> object_relationship \<Rightarrow> relationships \<Rightarrow> relationships" where
  "load_relationship now v m =
     (if length m \<ge> max_relationships \<or> \<not> valid_relationship now v \<or>
        group_count or_identity (or_identity v) m \<ge> max_relationships_per_identity \<or>
        group_count object_of (object_of v) m \<ge> max_relationships_per_object then m
      else gm_put (or_id v) v m)"

definition load_relationships :: "gtime \<Rightarrow> int \<Rightarrow> object_relationship list \<Rightarrow> relationships \<Rightarrow> relationships option" where
  "load_relationships now version vs m =
     (if version \<notin> {0, 1} then None else Some (fold (load_relationship now) vs m))"

definition valid_candidate :: "gtime \<Rightarrow> bola_candidate \<Rightarrow> bool" where
  "valid_candidate now v \<longleftrightarrow>
     valid_operation_id (bc_operation v) \<and> length (bc_locator v) = 32 \<and> valid_locator_location (bc_location v) \<and>
     valid_locator_field (bc_field v) \<and> bc_evidence v \<noteq> 0 \<and> \<not> time_is_zero (bc_first_seen v) \<and>
     \<not> time_is_zero (bc_last_seen v) \<and> now < bc_expires_at v \<and>
     list_all digest40 [bc_id v, bc_identity v, bc_object v] \<and> (bc_tenant v = [] \<or> digest40 (bc_tenant v)) \<and>
     length (bc_sources v) = 3 \<and>
     {source_api5, source_api71, ''API72_RELATIONSHIP_BASELINE''} \<subseteq> set (bc_sources v)"

definition load_candidate :: "gtime \<Rightarrow> bola_candidate \<Rightarrow> bola_store \<Rightarrow> bola_store" where
  "load_candidate now v s =
     (if length (bs_candidates s) \<ge> max_candidates \<or> \<not> valid_candidate now v \<or>
        group_count bc_identity (bc_identity v) (bs_candidates s) \<ge> max_candidates_per_identity \<or>
        group_count candidate_object (candidate_object v) (bs_candidates s) \<ge> max_candidates_per_object then s
      else s\<lparr>bs_candidates := gm_put (bc_id v) v (bs_candidates s)\<rparr>)"

definition load_candidates :: "gtime \<Rightarrow> int \<Rightarrow> bola_candidate list \<Rightarrow> bola_store \<Rightarrow> bola_store option" where
  "load_candidates now version vs s =
     (if version \<notin> {0, 1} then None else Some (fold (load_candidate now) vs s))"

end
