(* ===== verification/Bola_Policy.thy ===== *)
theory Bola_Policy
  imports Object_Relationship
begin

text \<open>
  \<^verbatim>\<open>bola_policy_api74.go\<close>: how operators handle the candidates. A policy hides
  matching candidates from the queue (SUPPRESS) or leaves them in it (REVIEW); a review records
  what an operator decided, and new evidence opens a dismissed or resolved candidate again.
\<close>

section \<open>Types\<close>

datatype bola_action = Review | Suppress
datatype workflow_state = Open | Acknowledged | Dismissed | Resolved

text \<open>A candidate type is optional in a policy: empty stands for any.\<close>

record bola_policy =
  bp_id :: string
  bp_operation :: string
  bp_locator :: string
  bp_type :: "bola_type option"
  bp_min_confidence :: bola_confidence
  bp_action :: bola_action
  bp_enabled :: bool
  bp_created_at :: gtime
  bp_updated_at :: gtime
  bp_expires_at :: gtime

record bola_review =
  bv_candidate :: string
  bv_state :: workflow_state
  bv_reason :: string
  bv_evidence :: u64
  bv_candidate_last_seen :: gtime
  bv_updated_at :: gtime
  bv_expires_at :: gtime

record bola_policy_store =
  bp_policies :: "(string, bola_policy) gomap"
  bp_reviews :: "(string, bola_review) gomap"

record evidence_view =
  ev_candidate :: bola_candidate
  ev_policy :: "bola_policy option"
  ev_action :: bola_action
  ev_state :: workflow_state
  ev_reason :: string
  ev_reopened :: bool
  ev_suppressed :: bool
  ev_reviewed_at :: gtime

datatype policy_error = Bad_Operation | Bad_Locator_Id | Foreign_Locator | Bad_Type | Bad_Confidence | Bad_Policy_Action
  | Bad_Ttl | Policies_Full | Policy_Missing | Bad_State | Bad_Reason | Reason_Required | Reviews_Full

definition max_policies :: nat where "max_policies = 1024"
definition max_reviews :: nat where "max_reviews = 4096"
definition policy_default_ttl :: duration where "policy_default_ttl = 30 * 24 * hour"
definition policy_max_ttl :: duration where "policy_max_ttl = 180 * 24 * hour"
definition review_ttl :: duration where "review_ttl = 30 * 24 * hour"

definition reason_codes :: "string list" where
  "reason_codes = [[], ''INVESTIGATING'', ''EXPECTED_SHARED_RESOURCE'', ''AUTHORIZED_CROSS_TENANT'',
     ''TEST_TRAFFIC'', ''FALSE_POSITIVE'', ''FIX_DEPLOYED'', ''OTHER_REVIEWED'']"

definition confidence_text :: "bola_confidence \<Rightarrow> string" where
  "confidence_text k = (case k of Medium \<Rightarrow> ''MEDIUM'' | High \<Rightarrow> ''HIGH'')"

definition confidence_rank :: "bola_confidence \<Rightarrow> nat" where
  "confidence_rank k = (case k of High \<Rightarrow> 2 | Medium \<Rightarrow> 1)"

definition action_text :: "bola_action \<Rightarrow> string" where
  "action_text a = (case a of Review \<Rightarrow> ''REVIEW'' | Suppress \<Rightarrow> ''SUPPRESS'')"

definition state_text :: "workflow_state \<Rightarrow> string" where
  "state_text s = (case s of Open \<Rightarrow> ''OPEN'' | Acknowledged \<Rightarrow> ''ACKNOWLEDGED'' | Dismissed \<Rightarrow> ''DISMISSED''
     | Resolved \<Rightarrow> ''RESOLVED'')"

text \<open>Reading the texts of a request; the outer option is the error.\<close>

definition parse_type :: "string \<Rightarrow> bola_type option option" where
  "parse_type t = (if t = [] then Some None
     else map_option Some (find (\<lambda>k. bola_type_text k = t) [Identity_Divergence, Tenant_Divergence, Enumeration]))"

definition parse_confidence :: "string \<Rightarrow> bola_confidence option" where
  "parse_confidence t = find (\<lambda>k. confidence_text k = t) [Medium, High]"

definition parse_action :: "string \<Rightarrow> bola_action option" where
  "parse_action t = find (\<lambda>k. action_text k = t) [Review, Suppress]"

definition parse_state :: "string \<Rightarrow> workflow_state option" where
  "parse_state t = find (\<lambda>k. state_text k = t) [Open, Acknowledged, Dismissed, Resolved]"

definition type_text :: "bola_type option \<Rightarrow> string" where
  "type_text k = (case k of None \<Rightarrow> [] | Some k \<Rightarrow> bola_type_text k)"

definition policy_id :: "object_env \<Rightarrow> string \<Rightarrow> string \<Rightarrow> bola_type option \<Rightarrow> bola_confidence \<Rightarrow> string" where
  "policy_id env op lid kind conf =
     oe_hash20 env (join_nul [''api74-bola-policy'', op, lid, type_text kind, confidence_text conf])"

definition new_policy_store :: bola_policy_store where
  "new_policy_store = \<lparr>bp_policies = [], bp_reviews = []\<rparr>"

section \<open>Operations\<close>

definition prune_policies :: "gtime \<Rightarrow> bola_policy_store \<Rightarrow> bola_policy_store" where
  "prune_policies now s = s\<lparr>
     bp_policies := gm_remove_if (\<lambda>_ p. \<not> now < bp_expires_at p) (bp_policies s),
     bp_reviews := gm_remove_if (\<lambda>_ r. \<not> now < bv_expires_at r) (bp_reviews s)\<rparr>"

definition locator_belongs :: "string \<Rightarrow> string \<Rightarrow> object_locator list \<Rightarrow> bool" where
  "locator_belongs lid op locators \<longleftrightarrow> lid = [] \<or> list_ex (\<lambda>l. ol_id l = lid \<and> ol_operation l = op) locators"

record policy_request =
  pr_operation :: string
  pr_locator :: string
  pr_type :: string
  pr_min_confidence :: string
  pr_action :: string
  pr_enabled :: bool

text \<open>\<open>locators\<close> is the snapshot of the locator store the code asks for.\<close>

definition upsert_policy :: "object_env \<Rightarrow> gtime \<Rightarrow> policy_request \<Rightarrow> duration \<Rightarrow> object_locator list \<Rightarrow>
    bola_policy_store \<Rightarrow> (policy_error + bola_policy) \<times> bola_policy_store" where
  "upsert_policy env now req ttl locators s =
     (let op = trim_space (pr_operation req); lid = trim_space (pr_locator req) in
      if \<not> valid_operation_id op then (Inl Bad_Operation, s)
      else if lid \<noteq> [] \<and> length lid \<noteq> 32 then (Inl Bad_Locator_Id, s)
      else if lid \<noteq> [] \<and> (\<not> hex_decodes lid \<or> \<not> locator_belongs lid op locators) then (Inl Foreign_Locator, s)
      else
        let conf_text = trim_space (pr_min_confidence req) in
        case parse_type (trim_space (pr_type req)) of
          None \<Rightarrow> (Inl Bad_Type, s)
        | Some kind \<Rightarrow>
            (case parse_confidence (if conf_text = [] then confidence_text Medium else conf_text) of
               None \<Rightarrow> (Inl Bad_Confidence, s)
             | Some conf \<Rightarrow>
                 (case parse_action (trim_space (pr_action req)) of
                    None \<Rightarrow> (Inl Bad_Policy_Action, s)
                  | Some action \<Rightarrow>
                      let ttl = (if ttl = 0 then policy_default_ttl else ttl) in
                      if ttl < minute \<or> ttl > policy_max_ttl then (Inl Bad_Ttl, s)
                      else
                        let pid = policy_id env op lid kind conf;
                            s = prune_policies now s;
                            finish = (\<lambda>p. let p = p\<lparr>bp_action := action, bp_enabled := pr_enabled req,
                                bp_updated_at := now, bp_expires_at := now + ttl\<rparr>
                              in (Inr p, s\<lparr>bp_policies := gm_put pid p (bp_policies s)\<rparr>))
                        in case gm_get (bp_policies s) pid of
                             Some p \<Rightarrow> finish p
                           | None \<Rightarrow>
                               if length (bp_policies s) \<ge> max_policies then (Inl Policies_Full, s)
                               else finish \<lparr>bp_id = pid, bp_operation = op, bp_locator = lid, bp_type = kind,
                                 bp_min_confidence = conf, bp_action = action, bp_enabled = False, bp_created_at = now,
                                 bp_updated_at = 0, bp_expires_at = 0\<rparr>)))"

definition delete_policy :: "string \<Rightarrow> bola_policy_store \<Rightarrow> (policy_error + bola_policy) \<times> bola_policy_store" where
  "delete_policy pid s =
     (let pid = trim_space pid in
      case gm_get (bp_policies s) pid of
        None \<Rightarrow> (Inl Policy_Missing, s)
      | Some p \<Rightarrow> (Inr p, s\<lparr>bp_policies := gm_del pid (bp_policies s)\<rparr>))"

definition policy_less :: "bola_policy \<Rightarrow> bola_policy \<Rightarrow> bool" where
  "policy_less a b \<longleftrightarrow> (if bp_operation a \<noteq> bp_operation b then bp_operation a < bp_operation b
     else if bp_locator a \<noteq> bp_locator b then bp_locator a < bp_locator b else bp_id a < bp_id b)"

definition policies_snapshot :: "gtime \<Rightarrow> bola_policy_store \<Rightarrow> bola_policy list \<times> bola_policy_store" where
  "policies_snapshot now s =
     (let s = prune_policies now s in (sort_by policy_less (gm_values (bp_policies s)), s))"

definition review_candidate :: "gtime \<Rightarrow> bola_candidate \<Rightarrow> string \<Rightarrow> string \<Rightarrow> bola_policy_store \<Rightarrow>
    (policy_error + bola_review) \<times> bola_policy_store" where
  "review_candidate now cand state reason s =
     (let reason = trim_space reason in
      case parse_state (trim_space state) of
        None \<Rightarrow> (Inl Bad_State, s)
      | Some state \<Rightarrow>
          if reason \<notin> set reason_codes then (Inl Bad_Reason, s)
          else if state \<noteq> Open \<and> reason = [] then (Inl Reason_Required, s)
          else
            let s = prune_policies now s in
            if \<not> gm_has (bp_reviews s) (bc_id cand) \<and> length (bp_reviews s) \<ge> max_reviews then (Inl Reviews_Full, s)
            else
              let r = \<lparr>bv_candidate = bc_id cand, bv_state = state, bv_reason = reason, bv_evidence = bc_evidence cand,
                bv_candidate_last_seen = bc_last_seen cand, bv_updated_at = now, bv_expires_at = now + review_ttl\<rparr>
              in (Inr r, s\<lparr>bp_reviews := gm_put (bc_id cand) r (bp_reviews s)\<rparr>))"

section \<open>Which policy applies\<close>

definition specificity :: "bola_policy \<Rightarrow> nat" where
  "specificity p = (if bp_locator p \<noteq> [] then 2 else 0) + (if bp_type p \<noteq> None then 1 else 0)"

definition policy_matches :: "bola_policy \<Rightarrow> bola_candidate \<Rightarrow> gtime \<Rightarrow> bool" where
  "policy_matches p cand now \<longleftrightarrow>
     bp_enabled p \<and> now < bp_expires_at p \<and> bp_operation p = bc_operation cand \<and>
     \<not> confidence_rank (bc_confidence cand) < confidence_rank (bp_min_confidence p) \<and>
     (bp_locator p = [] \<or> bp_locator p = bc_locator cand) \<and>
     (bp_type p = None \<or> bp_type p = Some (bc_type cand))"

definition better_policy :: "bola_policy \<Rightarrow> bola_policy \<Rightarrow> bool" where
  "better_policy p best \<longleftrightarrow> specificity p > specificity best \<or>
     (specificity p = specificity best \<and> bp_updated_at best < bp_updated_at p) \<or>
     (specificity p = specificity best \<and> bp_updated_at p = bp_updated_at best \<and> bp_id p < bp_id best)"

definition matching_policy :: "bola_policy_store \<Rightarrow> bola_candidate \<Rightarrow> gtime \<Rightarrow> bola_policy option" where
  "matching_policy s cand now =
     fold (\<lambda>p best. if \<not> policy_matches p cand now then best
       else (case best of None \<Rightarrow> Some p | Some b \<Rightarrow> if better_policy p b then Some p else Some b))
       (gm_values (bp_policies s)) None"

definition evidence_of :: "bola_policy_store \<Rightarrow> gtime \<Rightarrow> bola_candidate \<Rightarrow> evidence_view" where
  "evidence_of s now cand =
     (let v = \<lparr>ev_candidate = cand, ev_policy = None, ev_action = Review, ev_state = Open, ev_reason = [],
            ev_reopened = False, ev_suppressed = False, ev_reviewed_at = 0\<rparr>;
          v = (case matching_policy s cand now of
              None \<Rightarrow> v
            | Some p \<Rightarrow> v\<lparr>ev_policy := Some p, ev_action := bp_action p, ev_suppressed := (bp_action p = Suppress)\<rparr>)
      in case gm_get (bp_reviews s) (bc_id cand) of
           None \<Rightarrow> v
         | Some r \<Rightarrow>
             let v = v\<lparr>ev_state := bv_state r, ev_reason := bv_reason r, ev_reviewed_at := bv_updated_at r\<rparr>
             in if bv_state r \<in> {Dismissed, Resolved} \<and> bv_candidate_last_seen r < bc_last_seen cand
                then v\<lparr>ev_state := Open, ev_reopened := True\<rparr> else v)"

definition evidence_less :: "evidence_view \<Rightarrow> evidence_view \<Rightarrow> bool" where
  "evidence_less a b \<longleftrightarrow> (if ev_suppressed a \<noteq> ev_suppressed b then \<not> ev_suppressed a
     else candidate_less (ev_candidate a) (ev_candidate b))"

text \<open>The candidates are pruned at their own reading of the clock.\<close>

definition evidence_snapshot :: "gtime \<Rightarrow> gtime \<Rightarrow> bola_policy_store \<Rightarrow> bola_store \<Rightarrow>
    evidence_view list \<times> bola_policy_store \<times> bola_store" where
  "evidence_snapshot now cnow s cands =
     (let (rows, cands) = candidate_snapshot cnow cands; s = prune_policies now s
      in (sort_by evidence_less (map (evidence_of s now) rows), s, cands))"

section \<open>Loading\<close>

definition valid_policy :: "gtime \<Rightarrow> bola_policy \<Rightarrow> bool" where
  "valid_policy now p \<longleftrightarrow>
     length (bp_id p) = 40 \<and> valid_operation_id (bp_operation p) \<and>
     (bp_locator p = [] \<or> length (bp_locator p) = 32) \<and> \<not> time_is_zero (bp_created_at p) \<and>
     \<not> time_is_zero (bp_updated_at p) \<and> now < bp_expires_at p \<and>
     list_all (\<lambda>d. d = [] \<or> hex_decodes d) [bp_id p, bp_operation p, bp_locator p] \<and>
     \<not> bp_updated_at p + (policy_max_ttl + second) < bp_expires_at p"

definition valid_review :: "gtime \<Rightarrow> bola_review \<Rightarrow> bool" where
  "valid_review now r \<longleftrightarrow>
     length (bv_candidate r) = 40 \<and> bv_evidence r \<noteq> 0 \<and> \<not> time_is_zero (bv_candidate_last_seen r) \<and>
     \<not> time_is_zero (bv_updated_at r) \<and> now < bv_expires_at r \<and> bv_reason r \<in> set reason_codes \<and>
     hex_decodes (bv_candidate r)"

definition load_policies :: "gtime \<Rightarrow> int \<Rightarrow> bola_policy list \<Rightarrow> bola_review list \<Rightarrow> bola_policy_store \<Rightarrow>
    bola_policy_store option" where
  "load_policies now version ps rs s =
     (if version \<notin> {0, 1} then None
      else
        let s = fold (\<lambda>p s. if length (bp_policies s) \<ge> max_policies \<or> \<not> valid_policy now p then s
              else s\<lparr>bp_policies := gm_put (bp_id p) p (bp_policies s)\<rparr>) ps s
        in Some (fold (\<lambda>r s. if length (bp_reviews s) \<ge> max_reviews \<or> \<not> valid_review now r then s
              else s\<lparr>bp_reviews := gm_put (bv_candidate r) r (bp_reviews s)\<rparr>) rs s))"

section \<open>Which policy wins\<close>

lemma better_policy_trans: "better_policy a b \<Longrightarrow> better_policy b c \<Longrightarrow> better_policy a c"
  by (auto simp: better_policy_def)

lemma better_policy_total: "bp_id a \<noteq> bp_id b \<Longrightarrow> better_policy a b \<or> better_policy b a"
  by (auto simp: better_policy_def)

lemma better_policy_irrefl [simp]: "\<not> better_policy a a"
  by (simp add: better_policy_def)

definition pick_policy :: "bola_candidate \<Rightarrow> gtime \<Rightarrow> bola_policy \<Rightarrow> bola_policy option \<Rightarrow> bola_policy option" where
  "pick_policy cand now p best = (if \<not> policy_matches p cand now then best
     else (case best of None \<Rightarrow> Some p | Some b \<Rightarrow> if better_policy p b then Some p else Some b))"

lemma matching_policy_pick: "matching_policy s cand now = fold (pick_policy cand now) (gm_values (bp_policies s)) None"
  by (simp add: matching_policy_def pick_policy_def [abs_def])

lemma pick_policy_fold:
  assumes "distinct (map bp_id (case best of None \<Rightarrow> ps | Some b \<Rightarrow> b # ps))"
    and "\<And>b. best = Some b \<Longrightarrow> policy_matches b cand now"
  shows "case fold (pick_policy cand now) ps best of
      None \<Rightarrow> best = None \<and> (\<forall>q \<in> set ps. \<not> policy_matches q cand now)
    | Some p \<Rightarrow> (p \<in> set ps \<or> best = Some p) \<and> policy_matches p cand now \<and>
        (\<forall>q. (q \<in> set ps \<or> best = Some q) \<and> policy_matches q cand now \<and> q \<noteq> p \<longrightarrow> better_policy p q)"
  using assms
proof (induction ps arbitrary: best)
  case Nil
  then show ?case by (auto split: option.splits)
next
  case (Cons a ps)
  define best' where "best' = pick_policy cand now a best"
  have cases: "best' = best \<and> \<not> policy_matches a cand now \<or>
      policy_matches a cand now \<and> (best = None \<and> best' = Some a \<or>
        (\<exists>b. best = Some b \<and> (best' = Some a \<and> better_policy a b \<or> best' = Some b \<and> better_policy b a)))"
    using Cons.prems better_policy_total [of a "the best"] by (auto simp: best'_def pick_policy_def split: option.splits)
  have "distinct (map bp_id (case best' of None \<Rightarrow> ps | Some b \<Rightarrow> b # ps))"
    using cases Cons.prems(1) by (auto split: option.splits)
  moreover have "\<And>b. best' = Some b \<Longrightarrow> policy_matches b cand now"
    using cases Cons.prems(2) by auto
  ultimately have ih: "case fold (pick_policy cand now) ps best' of
      None \<Rightarrow> best' = None \<and> (\<forall>q \<in> set ps. \<not> policy_matches q cand now)
    | Some p \<Rightarrow> (p \<in> set ps \<or> best' = Some p) \<and> policy_matches p cand now \<and>
        (\<forall>q. (q \<in> set ps \<or> best' = Some q) \<and> policy_matches q cand now \<and> q \<noteq> p \<longrightarrow> better_policy p q)"
    by (rule Cons.IH)
  have step: "fold (pick_policy cand now) (a # ps) best = fold (pick_policy cand now) ps best'"
    by (simp add: best'_def)
  show ?case
  proof (cases "fold (pick_policy cand now) ps best'")
    case None
    then show ?thesis unfolding step using ih cases by auto
  next
    case (Some p)
    with ih have p: "p \<in> set ps \<or> best' = Some p" "policy_matches p cand now"
      and best: "\<And>q. q \<in> set ps \<or> best' = Some q \<Longrightarrow> policy_matches q cand now \<Longrightarrow> q \<noteq> p \<Longrightarrow> better_policy p q"
      by auto
    have "better_policy p q"
      if q: "q \<in> set (a # ps) \<or> best = Some q" "policy_matches q cand now" "q \<noteq> p" for q
    proof (cases "q \<in> set ps \<or> best' = Some q")
      case True
      with best q show ?thesis by blast
    next
      case False
      with cases q Cons.prems(2) obtain b where "best' = Some b" "better_policy b q" "policy_matches b cand now"
        by auto
      with best [of b] better_policy_trans [of p b q] show ?thesis by auto
    qed
    then show ?thesis unfolding step using p cases Some by auto
  qed
qed

text \<open>The policy applied to a candidate is the one that matches it (enabled, not expired, of its
  operation, at its confidence, of its locator and type where the policy names them) and precedes
  every other that does: the most specific, among those the last updated, among those the one
  with the least identifier. This determines it, so the order of the map does not matter.\<close>

theorem policy_choice:
  assumes "distinct (map bp_id (gm_values (bp_policies s)))"
  shows "matching_policy s cand now = Some p \<longleftrightarrow>
    p \<in> set (gm_values (bp_policies s)) \<and> policy_matches p cand now \<and>
    (\<forall>q \<in> set (gm_values (bp_policies s)). policy_matches q cand now \<and> q \<noteq> p \<longrightarrow> better_policy p q)"
proof -
  have w: "case matching_policy s cand now of
      None \<Rightarrow> \<forall>q \<in> set (gm_values (bp_policies s)). \<not> policy_matches q cand now
    | Some p \<Rightarrow> p \<in> set (gm_values (bp_policies s)) \<and> policy_matches p cand now \<and>
        (\<forall>q \<in> set (gm_values (bp_policies s)). policy_matches q cand now \<and> q \<noteq> p \<longrightarrow> better_policy p q)"
    using pick_policy_fold [where best = None and ps = "gm_values (bp_policies s)" and cand = cand and now = now] assms
    by (auto simp: matching_policy_pick split: option.splits)
  have "p = q" if "better_policy p q" "better_policy q p" for q
    using better_policy_trans [OF that] by simp
  then show ?thesis using w by (fastforce split: option.splits)
qed

definition sample_candidate :: "string \<Rightarrow> gtime \<Rightarrow> bola_candidate" where
  "sample_candidate lid seen = \<lparr>bc_id = ''c1'', bc_type = Identity_Divergence, bc_operation = ''op'', bc_locator = lid,
     bc_location = ''path'', bc_field = ''id'', bc_identity = ''alice'', bc_tenant = [], bc_object = ''o'',
     bc_confidence = High, bc_baseline_identities = 1, bc_baseline_tenants = 0, bc_baseline_observations = 5,
     bc_recent_objects = 1, bc_evidence = 1, bc_sources = [], bc_first_seen = 1, bc_last_seen = seen,
     bc_expires_at = seen + candidate_ttl\<rparr>"

definition sample_bola_policy :: "string \<Rightarrow> string \<Rightarrow> gtime \<Rightarrow> bola_action \<Rightarrow> bola_policy" where
  "sample_bola_policy pid lid updated action = \<lparr>bp_id = pid, bp_operation = ''op'', bp_locator = lid, bp_type = None,
     bp_min_confidence = Medium, bp_action = action, bp_enabled = True, bp_created_at = 1, bp_updated_at = updated,
     bp_expires_at = 1000\<rparr>"

definition sample_policies :: bola_policy_store where
  "sample_policies = \<lparr>bp_policies = [(''p1'', sample_bola_policy ''p1'' [] 9 Suppress),
     (''p2'', sample_bola_policy ''p2'' ''L'' 3 Review)], bp_reviews = []\<rparr>"

theorem policy_choice_witness:
  "matching_policy sample_policies (sample_candidate ''L'' 2) 10 = Some (sample_bola_policy ''p2'' ''L'' 3 Review)"
  by (subst policy_choice)
    (auto simp: sample_policies_def sample_bola_policy_def sample_candidate_def policy_matches_def better_policy_def
      specificity_def confidence_rank_def)

section \<open>Reviews\<close>

text \<open>What an accepted review says of a candidate holds until the candidate is seen again:
  evidence newer than the review's opens a dismissed or resolved candidate, and only such.\<close>

theorem review_reopens:
  assumes "review_candidate now cand state reason s = (Inr r, s')" and "bc_id cand' = bc_id cand"
  shows "parse_state (trim_space state) = Some (bv_state r) \<and>
    ev_reopened (evidence_of s' t cand') =
      (bv_state r \<in> {Dismissed, Resolved} \<and> bc_last_seen cand < bc_last_seen cand') \<and>
    ev_state (evidence_of s' t cand') = (if ev_reopened (evidence_of s' t cand') then Open else bv_state r) \<and>
    ev_reason (evidence_of s' t cand') = trim_space reason"
proof -
  have r: "parse_state (trim_space state) = Some (bv_state r) \<and> bv_reason r = trim_space reason \<and>
      bv_candidate_last_seen r = bc_last_seen cand \<and> gm_get (bp_reviews s') (bc_id cand') = Some r"
    using assms by (auto simp: review_candidate_def Let_def gm_get_put split: option.splits if_splits)
  have "ev_reopened (evidence_of s' t cand') =
      (bv_state r \<in> {Dismissed, Resolved} \<and> bc_last_seen cand < bc_last_seen cand')" and
    "ev_state (evidence_of s' t cand') = (if ev_reopened (evidence_of s' t cand') then Open else bv_state r)" and
    "ev_reason (evidence_of s' t cand') = trim_space reason"
    using r by (cases "matching_policy s' cand' t"; simp add: evidence_of_def Let_def)+
  with r show ?thesis by simp
qed

theorem review_reopens_witness:
  "ev_state (evidence_of (snd (review_candidate 5 (sample_candidate ''L'' 2) ''DISMISSED'' ''FALSE_POSITIVE'' sample_policies))
      6 (sample_candidate ''L'' 4)) = Open"
proof -
  have t: "trim_space ''DISMISSED'' = ''DISMISSED''" "trim_space ''FALSE_POSITIVE'' = ''FALSE_POSITIVE''"
    by (rule trim_space_visible; simp add: visible_def less_eq_char_def)+
  have p: "parse_state ''DISMISSED'' = Some Dismissed" by (simp add: parse_state_def state_text_def)
  have c: "''FALSE_POSITIVE'' \<in> set reason_codes" by (simp add: reason_codes_def)
  have r: "review_candidate 5 (sample_candidate ''L'' 2) ''DISMISSED'' ''FALSE_POSITIVE'' sample_policies =
      (Inr \<lparr>bv_candidate = ''c1'', bv_state = Dismissed, bv_reason = ''FALSE_POSITIVE'', bv_evidence = 1,
        bv_candidate_last_seen = 2, bv_updated_at = 5, bv_expires_at = 5 + review_ttl\<rparr>,
       snd (review_candidate 5 (sample_candidate ''L'' 2) ''DISMISSED'' ''FALSE_POSITIVE'' sample_policies))"
    by (simp add: review_candidate_def t p c Let_def sample_policies_def sample_candidate_def prune_policies_def
        max_reviews_def gm_remove_if_def)
  show ?thesis
    using review_reopens [OF r, of "sample_candidate ''L'' 4" 6] by (simp add: sample_candidate_def)
qed

end
