(* ===== verification/Object_Security.thy ===== *)
theory Object_Security
  imports Bola_Policy
begin

text \<open>
  The object authorization engine as a machine: the operations of the locators, the
  relationships and the candidates in any order, the limits of their tables, what a candidate
  stands on, and how the operators' policies and reviews apply to it.
\<close>

section \<open>The machine\<close>

datatype object_event =
    Process gtime object_observation "(field_sample \<times> gtime \<times> gtime) list"
  | Note_Operation gtime observed_operation "field_sample list"
  | Refresh_Contracts gtime "contract_candidate list"
  | Note_Variable string string string string gtime
  | Upsert_Override gtime locator_override
  | Delete_Override string
  | Read_Locators gtime
  | Read_Relationships gtime
  | Read_Candidates gtime

fun object_step :: "object_env \<Rightarrow> object_event \<Rightarrow> object_plane \<Rightarrow> object_plane" where
  "object_step env (Process now ev samples) p = process_object env now ev samples p"
| "object_step env (Note_Operation now op samples) p =
     p\<lparr>op_locators := note_locator_observation env now op samples (op_locators p)\<rparr>"
| "object_step env (Refresh_Contracts now cs) p = p\<lparr>op_locators := refresh_contract_sources env now cs (op_locators p)\<rparr>"
| "object_step env (Note_Variable op field styp raw now) p =
     p\<lparr>op_locators := snd (note_graphql_variable env op field styp raw now (op_locators p))\<rparr>"
| "object_step env (Upsert_Override now v) p = p\<lparr>op_locators := snd (upsert_override env now v (op_locators p))\<rparr>"
| "object_step env (Delete_Override xid) p = p\<lparr>op_locators := snd (delete_override env xid (op_locators p))\<rparr>"
| "object_step env (Read_Locators now) p = p\<lparr>op_locators := snd (locator_snapshot env now (op_locators p))\<rparr>"
| "object_step env (Read_Relationships now) p =
     p\<lparr>op_relationships := snd (relationship_snapshot now (op_relationships p))\<rparr>"
| "object_step env (Read_Candidates now) p = p\<lparr>op_bola := snd (candidate_snapshot now (op_bola p))\<rparr>"

text \<open>A plane at start-up, from its three files.\<close>

definition object_boot :: "object_env \<Rightarrow> gtime \<Rightarrow> locator_file \<Rightarrow> int \<Rightarrow> object_relationship list \<Rightarrow> int \<Rightarrow>
    bola_candidate list \<Rightarrow> object_plane" where
  "object_boot env now lf rv rs bv bs = new_object_plane\<lparr>
     op_locators := (case load_locators env now lf new_locator_store of None \<Rightarrow> new_locator_store | Some st \<Rightarrow> st),
     op_relationships := (case load_relationships now rv rs [] of None \<Rightarrow> [] | Some m \<Rightarrow> m),
     op_bola := (case load_candidates now bv bs \<lparr>bs_candidates = [], bs_generated = 0\<rparr> of
       None \<Rightarrow> \<lparr>bs_candidates = [], bs_generated = 0\<rparr> | Some s \<Rightarrow> s)\<rparr>"

section \<open>Limits\<close>

definition fingerprints_ok :: "object_locator \<Rightarrow> bool" where
  "fingerprints_ok v \<longleftrightarrow> length (ol_fingerprints v) \<le> max_fingerprints"

definition locators_ok :: "locator_store \<Rightarrow> bool" where
  "locators_ok st \<longleftrightarrow>
     quota_map max_locators max_locators_per_operation ol_operation max_locators (\<lambda>_. ()) (os_locators st) \<and>
     gm_all (\<lambda>_. fingerprints_ok) (os_locators st) \<and>
     bounded_map (int max_overrides) (\<lambda>_ _. True) (os_overrides st)"

definition relationships_ok :: "relationships \<Rightarrow> bool" where
  "relationships_ok m \<longleftrightarrow> quota_map max_relationships max_relationships_per_identity or_identity
     max_relationships_per_object object_of m"

definition candidates_ok :: "bola_store \<Rightarrow> bool" where
  "candidates_ok s \<longleftrightarrow> quota_map max_candidates max_candidates_per_identity bc_identity
     max_candidates_per_object candidate_object (bs_candidates s)"

definition plane_ok :: "object_plane \<Rightarrow> bool" where
  "plane_ok p \<longleftrightarrow> locators_ok (op_locators p) \<and> relationships_ok (op_relationships p) \<and> candidates_ok (op_bola p)"

lemma group_count_unit [simp]: "group_count (\<lambda>_. ()) x m = length m"
  by (simp add: group_count_def)

lemma length_note_digest: "note_digest d now fs = Some fs' \<Longrightarrow> length fs' = length fs"
  by (induction fs arbitrary: fs') (auto split: if_splits)

lemma fingerprints_touch: "fingerprints_ok v \<Longrightarrow> fingerprints_ok (touch_locator styp sem src d now v)"
  by (auto simp: fingerprints_ok_def touch_locator_def Let_def add_digest_def max_fingerprints_def
      dest: length_note_digest split: option.splits)

lemma touch_locator_operation [simp]: "ol_operation (touch_locator styp sem src d now v) = ol_operation v"
  by (simp add: touch_locator_def Let_def)

lemma locators_ok_put:
  assumes "locators_ok st" and "fingerprints_ok v"
    and "gm_get (os_locators st) k = Some w \<Longrightarrow> ol_operation v = ol_operation w"
    and "gm_get (os_locators st) k = None \<Longrightarrow> length (os_locators st) < max_locators \<and>
      group_count ol_operation (ol_operation v) (os_locators st) < max_locators_per_operation"
    and "gm_get (os_locators st) k = None \<or> gm_get (os_locators st) k = Some w"
  shows "locators_ok (st\<lparr>os_locators := gm_put k v (os_locators st)\<rparr>)"
  using assms by (auto simp: locators_ok_def intro: quota_map_put quota_map_put_same)

lemma merge_locator_ok:
  assumes "locators_ok st" shows "locators_ok (snd (merge_locator env op loc field styp sem src raw now st))"
proof -
  define lid where "lid = locator_id env op (to_lower (trim_space loc)) (trim_space field)"
  show ?thesis
  proof (cases "gm_get (os_locators st) lid")
    case None
    have "fingerprints_ok (new_locator i o' l f s t)" for i o' l f s t
      by (simp add: fingerprints_ok_def new_locator_def max_fingerprints_def)
    with None assms show ?thesis
      by (auto simp: merge_locator_def Let_def lid_def [symmetric] fingerprints_touch new_locator_def not_le
          intro!: locators_ok_put)
  next
    case (Some w)
    moreover have "fingerprints_ok w" using assms Some by (auto simp: locators_ok_def dest: gm_all_get)
    ultimately show ?thesis using assms
      by (auto simp: merge_locator_def Let_def lid_def [symmetric] fingerprints_touch
          intro!: locators_ok_put [where w = w])
  qed
qed

lemma prune_locators_ok: "locators_ok st \<Longrightarrow> locators_ok (prune_locators now st)"
  by (auto simp: prune_locators_def locators_ok_def)

lemma note_locators_ok:
  assumes "locators_ok st"
  shows "locators_ok (note_locator_observation env now op samples st)"
    and "locators_ok (refresh_contract_sources env now cs st)"
    and "locators_ok (snd (note_graphql_variable env opid field styp raw now st))"
proof -
  show "locators_ok (note_locator_observation env now op samples st)"
    using assms by (auto simp: note_locator_observation_def note_sample_def note_path_parameter_def Let_def
        intro!: fold_invariant [where P = locators_ok] merge_locator_ok prune_locators_ok)
  show "locators_ok (refresh_contract_sources env now cs st)"
    unfolding refresh_contract_sources_def using assms by (rule fold_invariant) (rule merge_locator_ok)
  show "locators_ok (snd (note_graphql_variable env opid field styp raw now st))"
    using merge_locator_ok [OF prune_locators_ok [OF assms, of now], of env opid "''graphql_variable''" field styp
        "variable_semantic field styp" source_api8 raw now]
    by (auto simp: note_graphql_variable_def Let_def assms split: prod.splits option.splits)
qed

lemma remove_operator_source_ok:
  assumes "locators_ok st" shows "locators_ok (remove_operator_source env op loc field st)"
proof (cases "gm_get (os_locators st) (locator_id env op loc field)")
  case (Some v)
  then have "fingerprints_ok v" using assms by (auto simp: locators_ok_def dest: gm_all_get)
  then have "fingerprints_ok (v\<lparr>ol_sources := xs, ol_confidence := y\<rparr>)" for xs y by (simp add: fingerprints_ok_def)
  with Some assms show ?thesis
    by (auto simp: remove_operator_source_def Let_def intro!: locators_ok_put [where w = v])
      (auto simp: locators_ok_def)
qed (simp add: remove_operator_source_def assms)

lemma merge_override_ok: "locators_ok st \<Longrightarrow> locators_ok (merge_override env now v st)"
  by (simp add: merge_override_def merge_locator_ok)

lemma override_put_ok:
  assumes "locators_ok st" and "os_overrides st = m" and "has_room (int max_overrides) k m"
  shows "locators_ok (st\<lparr>os_overrides := gm_put k v m\<rparr>)"
  using assms by (auto simp: locators_ok_def)

lemma remove_operator_source_overrides [simp]: "os_overrides (remove_operator_source env op loc field st) = os_overrides st"
  by (simp add: remove_operator_source_def Let_def split: option.splits)

lemma overrides_ok:
  assumes "locators_ok st"
  shows "locators_ok (snd (upsert_override env now v st))" and "locators_ok (snd (delete_override env xid st))"
proof -
  show "locators_ok (snd (upsert_override env now v st))"
    using assms by (auto simp: upsert_override_def Let_def has_room_def gm_has_def split: option.splits
        intro!: merge_override_ok override_put_ok remove_operator_source_ok)
  have "locators_ok (st\<lparr>os_overrides := gm_del xid (os_overrides st)\<rparr>)"
    using assms by (auto simp: locators_ok_def)
  with assms show "locators_ok (snd (delete_override env xid st))"
    by (auto simp: delete_override_def Let_def intro: remove_operator_source_ok split: option.splits)
qed

lemma active_locator_ok:
  assumes "locators_ok st"
  shows "locators_ok (snd (active_locator env now op loc field st))"
    and "locators_ok (snd (active_path_locator env now now2 op pos n st))"
proof -
  show a: "locators_ok (snd (active_locator env now op loc field st))" for loc field
    using assms by (auto simp: active_locator_def Let_def intro: prune_locators_ok split: option.splits)
  show "locators_ok (snd (active_path_locator env now now2 op pos n st))"
    using a [of "''path''" pos] by (auto simp: active_path_locator_def Let_def split: prod.splits option.splits
        intro: prune_locators_ok)
qed

lemma merge_relationship_ok:
  assumes "relationships_ok m" shows "relationships_ok (merge_relationship env ev loc object src m)"
proof -
  define rid where "rid = relationship_id env (ob_identity ev) (ol_id loc) object"
  define m0 where "m0 = prune_relationships (ob_at ev) m"
  have ok: "relationships_ok m0"
    using assms by (auto simp: m0_def prune_relationships_def relationships_ok_def)
  show ?thesis
  proof (cases "gm_get m0 rid")
    case None
    with ok show ?thesis
      by (auto simp: merge_relationship_def Let_def rid_def [symmetric] m0_def [symmetric] relationships_ok_def
          not_le touch_relationship_def new_relationship_def object_of_def intro!: quota_map_put)
  next
    case (Some v)
    with ok show ?thesis
      by (auto simp: merge_relationship_def Let_def rid_def [symmetric] m0_def [symmetric] relationships_ok_def
          touch_relationship_def object_of_def intro!: quota_map_put_same)
  qed
qed

lemma record_candidate_ok:
  assumes "candidates_ok s" shows "candidates_ok (record_candidate env kind conf ev loc object ctx s)"
proof -
  define cid where "cid = candidate_id env kind (ob_identity ev) (ol_id loc) object (ob_tenant ev)"
  define s0 where "s0 = prune_candidates (ob_at ev) s"
  have ok: "candidates_ok s0"
    using assms by (auto simp: s0_def prune_candidates_def candidates_ok_def)
  show ?thesis
  proof (cases "gm_get (bs_candidates s0) cid")
    case None
    with ok show ?thesis
      by (auto simp: record_candidate_def Let_def cid_def [symmetric] s0_def [symmetric] candidates_ok_def not_le
          touch_candidate_def new_candidate_def candidate_object_def intro!: quota_map_put)
  next
    case (Some v)
    with ok show ?thesis
      by (auto simp: record_candidate_def Let_def cid_def [symmetric] s0_def [symmetric] candidates_ok_def
          touch_candidate_def candidate_object_def intro!: quota_map_put_same)
  qed
qed

lemma observe_object_ok:
  assumes "candidates_ok s" shows "candidates_ok (observe_object env ev loc object m s)"
proof -
  have "candidates_ok (fold (\<lambda>(kind, conf). record_candidate env kind conf ev loc object ctx) xs s)" for ctx xs
    using assms by (rule fold_invariant) (auto intro: record_candidate_ok)
  with assms show ?thesis by (auto simp: observe_object_def Let_def)
qed

lemma relate_ok: "plane_ok p \<Longrightarrow> plane_ok (relate env ev loc object src p)"
  by (simp add: relate_def plane_ok_def observe_object_ok merge_relationship_ok)

lemma relate_found_ok:
  "plane_ok p \<Longrightarrow> locators_ok (snd r) \<Longrightarrow> plane_ok (relate_found env ev s r p)"
  by (auto simp: relate_found_def Let_def intro!: relate_ok split: option.splits) (simp_all add: plane_ok_def)

lemma relate_sample_ok: "plane_ok p \<Longrightarrow> plane_ok (relate_sample env ev n x p)"
  by (auto simp: relate_sample_def split: prod.splits intro!: relate_found_ok active_locator_ok)
    (simp_all add: plane_ok_def)

lemma process_direct_ok:
  assumes "plane_ok p" shows "plane_ok (process_direct env now ev p)"
proof -
  have "plane_ok (p\<lparr>op_locators := snd (active_locator env now o' l f (op_locators p))\<rparr>)" for o' l f
    using assms active_locator_ok(1) [of "op_locators p"] by (simp add: plane_ok_def)
  from this [of "ob_operation ev" "ob_direct_location ev" "ob_direct_field ev"] show ?thesis
    by (auto simp: process_direct_def Let_def intro!: relate_ok split: prod.splits option.splits)
qed

lemma process_object_ok:
  assumes "plane_ok p" shows "plane_ok (process_object env now ev samples p)"
proof -
  have "plane_ok (fold (relate_sample env ev n) samples p)" for n
    using assms by (rule fold_invariant) (rule relate_sample_ok)
  with process_direct_ok [OF assms] assms show ?thesis
    by (auto simp: process_object_def Let_def) (simp_all add: plane_ok_def)
qed

lemma plane_ok_step: "plane_ok p \<Longrightarrow> plane_ok (object_step env e p)"
  using process_object_ok
  by (cases e) (auto simp: plane_ok_def note_locators_ok overrides_ok locator_snapshot_def relationship_snapshot_def
      candidate_snapshot_def Let_def prune_locators_ok prune_relationships_def relationships_ok_def
      prune_candidates_def candidates_ok_def)

interpretation object_machine: invariant_machine "object_step env" plane_ok for env
  by unfold_locales (rule plane_ok_step)

section \<open>Loading\<close>

lemma new_locator_store_ok [simp]: "locators_ok new_locator_store"
  by (simp add: locators_ok_def new_locator_store_def)

lemma load_locators_ok:
  assumes "load_locators env now f new_locator_store = Some st" shows "locators_ok st"
proof -
  have l: "locators_ok (load_locator now v st)" if "locators_ok st" for v st
    using that by (auto simp: load_locator_def locators_ok_def valid_locator_def fingerprints_ok_def not_le
        intro!: quota_map_put gm_all_put)
  have o: "locators_ok (load_override env now v st)" if "locators_ok st" for v st
    using that by (auto simp: load_override_def has_room_def intro!: merge_override_ok override_put_ok)
  have "locators_ok (fold (load_locator now) (lf_locators f) new_locator_store)"
    by (rule fold_invariant) (auto intro: l)
  then have "locators_ok (fold (load_override env now) (lf_overrides f)
      (fold (load_locator now) (lf_locators f) new_locator_store))"
    by (rule fold_invariant) (rule o)
  with assms show ?thesis by (auto simp: load_locators_def split: if_splits)
qed

lemma load_relationships_ok:
  assumes "load_relationships now v rs [] = Some m" shows "relationships_ok m"
proof -
  have "relationships_ok (fold (load_relationship now) rs [])"
    by (rule fold_invariant)
      (auto simp: relationships_ok_def load_relationship_def not_le intro!: quota_map_put)
  with assms show ?thesis by (auto simp: load_relationships_def split: if_splits)
qed

lemma load_candidates_ok:
  assumes "load_candidates now v bs \<lparr>bs_candidates = [], bs_generated = 0\<rparr> = Some s" shows "candidates_ok s"
proof -
  have "candidates_ok (fold (load_candidate now) bs \<lparr>bs_candidates = [], bs_generated = 0\<rparr>)"
    by (rule fold_invariant)
      (auto simp: candidates_ok_def load_candidate_def not_le intro!: quota_map_put)
  with assms show ?thesis by (auto simp: load_candidates_def split: if_splits)
qed

lemma plane_ok_boot: "plane_ok (object_boot env now lf rv rs bv bs)"
  by (auto simp: object_boot_def plane_ok_def new_object_plane_def relationships_ok_def candidates_ok_def
      dest: load_locators_ok load_relationships_ok load_candidates_ok split: option.splits)

text \<open>C30: From whatever files the plane starts and whatever happens to it, its tables stay within their
  limits: 4096 locators, 32 of an operation, 8 fingerprints of each, 1024 overrides; 8192
  relationships, 512 of an identity, 256 of an object; 4096 candidates, 256 of an identity, 128 of
  an object. The fingerprints are what is left of the values of a field.\<close>

theorem object_quotas:
  "let p = run_machine (object_step env) es (object_boot env now lf rv rs bv bs);
       locators = os_locators (op_locators p); candidates = bs_candidates (op_bola p) in
     length locators \<le> 4096 \<and> (\<forall>op. group_count ol_operation op locators \<le> 32) \<and>
     list_all (\<lambda>v. length (ol_fingerprints v) \<le> 8) (gm_values locators) \<and>
     length (os_overrides (op_locators p)) \<le> 1024 \<and>
     length (op_relationships p) \<le> 8192 \<and>
     (\<forall>i. group_count or_identity i (op_relationships p) \<le> 512) \<and>
     (\<forall>x. group_count object_of x (op_relationships p) \<le> 256) \<and>
     length candidates \<le> 4096 \<and> (\<forall>i. group_count bc_identity i candidates \<le> 256) \<and>
     (\<forall>x. group_count candidate_object x candidates \<le> 128)"
  using object_machine.inv_run [OF plane_ok_boot, of env es env now lf rv rs bv bs]
  by (simp add: Let_def plane_ok_def locators_ok_def relationships_ok_def candidates_ok_def quota_map_def
      within_quota_def bounded_map_def gm_all_def fingerprints_ok_def list_all_iff split_beta max_locators_def
      max_locators_per_operation_def max_fingerprints_def max_overrides_def max_relationships_def
      max_relationships_per_identity_def max_relationships_per_object_def max_candidates_def
      max_candidates_per_identity_def max_candidates_per_object_def)

section \<open>What a candidate stands on\<close>

definition live_link :: "gtime \<Rightarrow> string \<Rightarrow> string \<Rightarrow> object_relationship \<Rightarrow> bool" where
  "live_link now lid object r \<longleftrightarrow> now < or_expires_at r \<and> or_locator r = lid \<and> or_object r = object"

text \<open>The evidence for each kind in a baseline; \<open>recent\<close> is the number of objects of the
  locator the identity was seen with in the last ten minutes, this one included.\<close>

definition candidate_evidence :: "object_observation \<Rightarrow> bola_type \<Rightarrow> string \<Rightarrow> string \<Rightarrow> nat \<Rightarrow> relationships \<Rightarrow> bool" where
  "candidate_evidence ev kind lid object recent m \<longleftrightarrow> (case kind of
      Identity_Divergence \<Rightarrow> list_ex (\<lambda>r. live_link (ob_at ev) lid object r \<and> or_identity r \<noteq> ob_identity ev \<and>
        2 \<le> or_count r) (gm_values m)
    | Tenant_Divergence \<Rightarrow> list_ex (\<lambda>r. live_link (ob_at ev) lid object r \<and> or_identity r \<noteq> ob_identity ev \<and>
        ob_tenant ev \<noteq> [] \<and> or_tenant r \<notin> {[], ob_tenant ev} \<and> 2 \<le> or_count r) (gm_values m)
    | Enumeration \<Rightarrow> 20 \<le> recent)"

text \<open>A locator of the store that no operator has suppressed.\<close>

definition listed_locator :: "object_env \<Rightarrow> locator_store \<Rightarrow> string \<Rightarrow> object_locator \<Rightarrow> bool" where
  "listed_locator env st op loc \<longleftrightarrow> (\<exists>lid w l f. gm_get (os_locators st) lid = Some w \<and>
     loc = w\<lparr>ol_status := status_active\<rparr> \<and> \<not> suppressed env st op l f \<and>
     (lid = locator_id env op l f \<or> ol_operation w = op \<and> l = ol_location w \<and> f = ol_field w))"

definition candidate_justified :: "object_env \<Rightarrow> object_observation \<Rightarrow> object_plane \<Rightarrow> string \<Rightarrow> bola_candidate \<Rightarrow> bool" where
  "candidate_justified env ev p cid v \<longleftrightarrow> (\<exists>kind loc object.
     cid = candidate_id env kind (ob_identity ev) (ol_id loc) object (ob_tenant ev) \<and>
     listed_locator env (op_locators p) (ob_operation ev) loc \<and>
     list_all (\<lambda>r. \<not> (live_link (ob_at ev) (ol_id loc) object r \<and> or_identity r = ob_identity ev))
       (gm_values (op_relationships p)) \<and>
     candidate_evidence ev kind (ol_id loc) object (bc_recent_objects v) (op_relationships p) \<and>
     bc_last_seen v = ob_at ev \<and> bc_expires_at v = ob_at ev + candidate_ttl)"

lemma gm_values_get: "gm_ok m \<Longrightarrow> r \<in> set (gm_values m) \<longleftrightarrow> (\<exists>k. gm_get m k = Some r)"
  by (force simp: gm_ok_def)

text \<open>How the baseline may differ from the one the observation found: of other identities it has
  nothing new, of its own identity it has kept what was there. \<open>own_keys\<close>: no
  relationship of another identity lies at a key of this one.\<close>

definition own_keys :: "object_env \<Rightarrow> string \<Rightarrow> relationships \<Rightarrow> bool" where
  "own_keys env identity m \<longleftrightarrow> (\<forall>l x. case gm_get m (relationship_id env identity l x) of
     None \<Rightarrow> True | Some r \<Rightarrow> or_identity r = identity)"

definition baseline_kept :: "object_env \<Rightarrow> object_observation \<Rightarrow> relationships \<Rightarrow> relationships \<Rightarrow> bool" where
  "baseline_kept env ev m0 m \<longleftrightarrow> own_keys env (ob_identity ev) m \<and>
     (\<forall>k r. gm_get m k = Some r \<longrightarrow> or_identity r \<noteq> ob_identity ev \<longrightarrow> gm_get m0 k = Some r) \<and>
     (\<forall>k r. gm_get m0 k = Some r \<longrightarrow> or_identity r = ob_identity ev \<longrightarrow> ob_at ev < or_expires_at r \<longrightarrow>
       (\<exists>r'. gm_get m k = Some r' \<and> or_identity r' = or_identity r \<and> object_of r' = object_of r \<and>
         ob_at ev < or_expires_at r'))"

lemma baseline_kept_refl: "own_keys env (ob_identity ev) m \<Longrightarrow> baseline_kept env ev m m"
  by (auto simp: baseline_kept_def)

lemma prune_relationships_get:
  "gm_ok m \<Longrightarrow> gm_get (prune_relationships now m) k = Some r \<longleftrightarrow> gm_get m k = Some r \<and> now < or_expires_at r"
  by (auto simp: prune_relationships_def gm_get_remove_if split: option.splits)

lemma own_keys_iff:
  "own_keys env identity m \<longleftrightarrow>
     (\<forall>l x r. gm_get m (relationship_id env identity l x) = Some r \<longrightarrow> or_identity r = identity)"
  by (simp add: own_keys_def split: option.split)

lemma baseline_kept_prune:
  assumes "gm_ok m" and "baseline_kept env ev m0 m"
  shows "baseline_kept env ev m0 (prune_relationships (ob_at ev) m)"
  using assms(2) unfolding baseline_kept_def own_keys_iff prune_relationships_get [OF assms(1)] by blast

lemma baseline_kept_put:
  assumes "baseline_kept env ev m0 m" and "or_identity v = ob_identity ev" and "ob_at ev < or_expires_at v"
    and "\<And>w. gm_get m k = Some w \<Longrightarrow> object_of v = object_of w \<and> or_identity w = ob_identity ev"
  shows "baseline_kept env ev m0 (gm_put k v m)"
proof -
  have "\<exists>r'. gm_get (gm_put k v m) k' = Some r' \<and> or_identity r' = or_identity r \<and> object_of r' = object_of r \<and>
      ob_at ev < or_expires_at r'"
    if r: "gm_get m0 k' = Some r" "or_identity r = ob_identity ev" "ob_at ev < or_expires_at r" for k' r
  proof -
    from assms(1) r obtain w where "gm_get m k' = Some w" "or_identity w = or_identity r" "object_of w = object_of r"
      "ob_at ev < or_expires_at w" unfolding baseline_kept_def by blast
    with assms(2,3,4) r show ?thesis by (cases "k' = k") (auto simp: gm_get_put)
  qed
  then show ?thesis
    using assms(1,2) unfolding baseline_kept_def own_keys_iff by (auto simp: gm_get_put split: if_splits)
qed

lemma baseline_kept_merge:
  assumes "relationships_ok m" and "baseline_kept env ev m0 m"
  shows "baseline_kept env ev m0 (merge_relationship env ev loc object src m)"
proof -
  define rid where "rid = relationship_id env (ob_identity ev) (ol_id loc) object"
  define m1 where "m1 = prune_relationships (ob_at ev) m"
  have b: "baseline_kept env ev m0 m1"
    using assms by (auto simp: m1_def relationships_ok_def quota_map_def intro: baseline_kept_prune)
  have own: "or_identity w = ob_identity ev" if "gm_get m1 rid = Some w" for w
    using b that by (auto simp: baseline_kept_def own_keys_iff rid_def)
  have ttl: "0 < relationship_ttl" by (simp add: relationship_ttl_def)
  show ?thesis
  proof (cases "gm_get m1 rid")
    case None
    with b ttl show ?thesis
      by (auto simp: merge_relationship_def Let_def rid_def [symmetric] m1_def [symmetric] touch_relationship_def
          new_relationship_def intro!: baseline_kept_put)
  next
    case (Some w)
    with b ttl own show ?thesis
      by (auto simp: merge_relationship_def Let_def rid_def [symmetric] m1_def [symmetric] touch_relationship_def
          object_of_def intro!: baseline_kept_put)
  qed
qed

text \<open>The evidence found in a baseline that was kept is evidence of the first one.\<close>

lemma anomaly_evidence:
  assumes "gm_ok m" and "gm_ok m0" and "baseline_kept env ev m0 m"
    and "(kind, conf) \<in> set (bola_anomalies ev (bola_context_of m lid object (ob_identity ev) (ob_tenant ev) (ob_at ev)))"
  shows "list_all (\<lambda>r. \<not> (live_link (ob_at ev) lid object r \<and> or_identity r = ob_identity ev)) (gm_values m0) \<and>
    candidate_evidence ev kind lid object
      (bx_recent_objects (bola_context_of m lid object (ob_identity ev) (ob_tenant ev) (ob_at ev)) + 1) m0"
proof -
  have none: "\<not> (live_link (ob_at ev) lid object r \<and> or_identity r = ob_identity ev)" if "gm_get m k = Some r" for k r
    using assms(4) that gm_values_get [OF assms(1), of r]
    by (auto simp: bola_anomalies_def bola_context_of_def Let_def list_ex_iff live_link_def split: if_splits)
  have none0: "\<not> (live_link (ob_at ev) lid object r \<and> or_identity r = ob_identity ev)" if "gm_get m0 k = Some r" for k r
    using that assms(3) none unfolding baseline_kept_def live_link_def object_of_def by fastforce
  have foreign: "r \<in> set (gm_values m0)" if "r \<in> set (gm_values m)" "or_identity r \<noteq> ob_identity ev" for r
    using that assms(3) unfolding gm_values_get [OF assms(1)] gm_values_get [OF assms(2)] baseline_kept_def by blast
  have here: "or_identity r \<noteq> ob_identity ev" if "r \<in> set (gm_values m)" "live_link (ob_at ev) lid object r" for r
    using that none unfolding gm_values_get [OF assms(1)] by blast
  have "candidate_evidence ev kind lid object
      (bx_recent_objects (bola_context_of m lid object (ob_identity ev) (ob_tenant ev) (ob_at ev)) + 1) m0"
  proof (cases kind)
    case Identity_Divergence
    with assms(4) obtain r where "r \<in> set (gm_values m)" "live_link (ob_at ev) lid object r"
      "or_identity r \<noteq> ob_identity ev" "2 \<le> or_count r"
      by (auto simp: bola_anomalies_def bola_context_of_def Let_def list_ex_iff live_link_def min_baseline_def split: if_splits)
    with foreign Identity_Divergence show ?thesis by (auto simp: candidate_evidence_def list_ex_iff simp del: set_map)
  next
    case Tenant_Divergence
    with assms(4) obtain r where "r \<in> set (gm_values m)" "live_link (ob_at ev) lid object r"
      "ob_tenant ev \<noteq> []" "or_tenant r \<notin> {[], ob_tenant ev}" "2 \<le> or_count r"
      by (auto simp: bola_anomalies_def bola_context_of_def Let_def list_ex_iff live_link_def min_baseline_def split: if_splits)
    with foreign here Tenant_Divergence show ?thesis by (auto simp: candidate_evidence_def list_ex_iff simp del: set_map)
  next
    case Enumeration
    with assms(4) show ?thesis
      by (auto simp: bola_anomalies_def candidate_evidence_def enumeration_objects_def split: if_splits)
  qed
  moreover have "list_all (\<lambda>r. \<not> (live_link (ob_at ev) lid object r \<and> or_identity r = ob_identity ev)) (gm_values m0)"
    using none0 unfolding list_all_iff Ball_def gm_values_get [OF assms(2)] by blast
  ultimately show ?thesis by blast
qed

section \<open>What processing adds\<close>

text \<open>The locators during an observation: some have expired, none is new.\<close>

definition locators_from :: "locator_store \<Rightarrow> locator_store \<Rightarrow> bool" where
  "locators_from st0 st \<longleftrightarrow> os_overrides st = os_overrides st0 \<and>
     (\<forall>k v. gm_get (os_locators st) k = Some v \<longrightarrow> gm_get (os_locators st0) k = Some v)"

lemma locators_from_refl [simp]: "locators_from st st"
  by (simp add: locators_from_def)

lemma locators_ok_gm: "locators_ok st \<Longrightarrow> gm_ok (os_locators st)"
  by (simp add: locators_ok_def quota_map_def)

lemma locators_from_prune:
  "locators_ok st \<Longrightarrow> locators_from st0 st \<Longrightarrow> locators_from st0 (prune_locators now st)"
  by (auto simp: locators_from_def prune_locators_def gm_get_remove_if locators_ok_gm split: option.splits if_splits)

lemma listed_locator_from:
  assumes "locators_from st0 st" and "listed_locator env st op loc" shows "listed_locator env st0 op loc"
proof -
  have "suppressed env st op l f = suppressed env st0 op l f" for l f
    using assms(1) by (simp add: suppressed_def locators_from_def)
  with assms show ?thesis unfolding listed_locator_def locators_from_def by metis
qed

lemma active_locator_listed:
  assumes "locators_ok st" and "locators_from st0 st" and "active_locator env now op l f st = (found, st')"
  shows "locators_ok st' \<and> locators_from st0 st' \<and> (\<forall>loc. found = Some loc \<longrightarrow> listed_locator env st0 op loc)"
proof -
  define l' where "l' = to_lower (trim_space l)"
  define f' where "f' = trim_space f"
  have st': "st' = prune_locators now st"
    using assms(3) by (auto simp: active_locator_def Let_def split: option.splits if_splits)
  have "listed_locator env st' op loc" if found: "found = Some loc" for loc
  proof -
    from assms(3) found obtain w where "gm_get (os_locators st') (locator_id env op l' f') = Some w"
      "\<not> suppressed env st' op l' f'" "loc = w\<lparr>ol_status := status_active\<rparr>"
      by (auto simp: active_locator_def Let_def st' l'_def f'_def split: option.splits if_splits)
    then show ?thesis unfolding listed_locator_def by blast
  qed
  with assms st' show ?thesis
    by (auto intro: prune_locators_ok locators_from_prune listed_locator_from)
qed

lemma active_path_locator_listed:
  assumes "locators_ok st" and "locators_from st0 st"
    and "active_path_locator env now now2 op positional n st = (found, st')"
  shows "locators_ok st' \<and> locators_from st0 st' \<and> (\<forall>loc. found = Some loc \<longrightarrow> listed_locator env st0 op loc)"
proof -
  obtain found1 st1 where a: "active_locator env now op ''path'' positional st = (found1, st1)" by fastforce
  note l = active_locator_listed [OF assms(1,2) a]
  show ?thesis
  proof (cases "found1 = None \<and> n = 1")
    case False
    with assms(3) a l show ?thesis by (auto simp: active_path_locator_def split: option.splits)
  next
    case True
    define st2 where "st2 = prune_locators now2 st1"
    have ok: "locators_ok st2" "locators_from st0 st2"
      using l by (auto simp: st2_def intro: prune_locators_ok locators_from_prune)
    define named where "named = filter (\<lambda>v. ol_operation v = op \<and> ol_location v = ''path'' \<and>
      ol_field v \<noteq> positional \<and> \<not> suppressed env st2 op ''path'' (ol_field v)) (gm_values (os_locators st2))"
    have r: "st' = st2" "found = (case named of [v] \<Rightarrow> Some (v\<lparr>ol_status := status_active\<rparr>) | _ \<Rightarrow> None)"
      using assms(3) a True by (auto simp: active_path_locator_def Let_def st2_def named_def)
    have "listed_locator env st2 op loc" if "found = Some loc" for loc
    proof -
      from that r obtain w where w: "loc = w\<lparr>ol_status := status_active\<rparr>" "w \<in> set named"
        by (auto split: list.splits)
      from w(2) have "w \<in> set (gm_values (os_locators st2))" "ol_operation w = op"
        "\<not> suppressed env st2 op (ol_location w) (ol_field w)" by (auto simp: named_def)
      with w(1) show ?thesis
        unfolding gm_values_get [OF locators_ok_gm [OF ok(1)]] listed_locator_def by blast
    qed
    with ok r(1) show ?thesis by (auto intro: listed_locator_from)
  qed
qed

definition candidates_from :: "object_env \<Rightarrow> object_observation \<Rightarrow> object_plane \<Rightarrow> bola_store \<Rightarrow> bool" where
  "candidates_from env ev p s \<longleftrightarrow> (\<forall>cid v. gm_get (bs_candidates s) cid = Some v \<longrightarrow>
     gm_get (bs_candidates (op_bola p)) cid = Some v \<or> candidate_justified env ev p cid v)"

lemma record_candidate_from:
  assumes "candidates_ok s" and "candidates_from env ev p s"
    and "\<And>v. bc_recent_objects v = bx_recent_objects ctx + 1 \<Longrightarrow> bc_last_seen v = ob_at ev \<Longrightarrow>
      bc_expires_at v = ob_at ev + candidate_ttl \<Longrightarrow>
      candidate_justified env ev p (candidate_id env kind (ob_identity ev) (ol_id loc) object (ob_tenant ev)) v"
  shows "candidates_from env ev p (record_candidate env kind conf ev loc object ctx s)"
proof -
  define s1 where "s1 = prune_candidates (ob_at ev) s"
  have from1: "candidates_from env ev p s1"
    using assms(1,2) by (auto simp: s1_def candidates_from_def prune_candidates_def candidates_ok_def quota_map_def
        gm_get_remove_if split: option.splits if_splits)
  have "candidates_from env ev p (s1\<lparr>bs_candidates := gm_put
      (candidate_id env kind (ob_identity ev) (ol_id loc) object (ob_tenant ev)) v (bs_candidates s1),
      bs_generated := n\<rparr>)" if "v = touch_candidate conf ctx (ob_at ev) w" for v w n
    using from1 assms(3) [of v] that by (auto simp: candidates_from_def gm_get_put touch_candidate_def)
  with from1 show ?thesis
    by (auto simp: record_candidate_def Let_def s1_def [symmetric] split: option.splits)
qed

definition processing :: "object_env \<Rightarrow> object_observation \<Rightarrow> object_plane \<Rightarrow> object_plane \<Rightarrow> bool" where
  "processing env ev p q \<longleftrightarrow> plane_ok q \<and> baseline_kept env ev (op_relationships p) (op_relationships q) \<and>
     locators_from (op_locators p) (op_locators q) \<and> candidates_from env ev p (op_bola q)"

lemma relationships_ok_gm: "relationships_ok m \<Longrightarrow> gm_ok m"
  by (simp add: relationships_ok_def quota_map_def)

lemma relate_processing:
  assumes "plane_ok p" and "processing env ev p q" and "listed_locator env (op_locators p) (ob_operation ev) loc"
  shows "processing env ev p (relate env ev loc object src q)"
proof -
  define m where "m = op_relationships q"
  define ctx where "ctx = bola_context_of m (ol_id loc) object (ob_identity ev) (ob_tenant ev) (ob_at ev)"
  have ok: "relationships_ok m" "candidates_ok (op_bola q)" "baseline_kept env ev (op_relationships p) m"
    using assms(2) by (auto simp: processing_def plane_ok_def m_def)
  have gm: "gm_ok m" "gm_ok (op_relationships p)"
    using ok(1) assms(1) by (auto simp: plane_ok_def intro: relationships_ok_gm)
  have just: "candidate_justified env ev p (candidate_id env kind (ob_identity ev) (ol_id loc) object (ob_tenant ev)) v"
    if "(kind, conf) \<in> set (bola_anomalies ev ctx)" "bc_recent_objects v = bx_recent_objects ctx + 1"
      "bc_last_seen v = ob_at ev" "bc_expires_at v = ob_at ev + candidate_ttl" for kind conf v
    unfolding candidate_justified_def
    using anomaly_evidence [OF gm ok(3) that(1) [unfolded ctx_def], folded ctx_def] that(2,3,4) assms(3)
    by (intro exI [of _ kind] exI [of _ loc] exI [of _ object]) simp
  let ?P = "\<lambda>s. candidates_ok s \<and> candidates_from env ev p s"
  have "?P (fold (\<lambda>(kind, conf). record_candidate env kind conf ev loc object ctx) (bola_anomalies ev ctx) (op_bola q))"
  proof (rule fold_invariant [where P = ?P])
    show "?P (op_bola q)" using ok(2) assms(2) by (simp add: processing_def)
  next
    fix x s assume x: "x \<in> set (bola_anomalies ev ctx)" and s: "?P s"
    obtain kind conf where k: "x = (kind, conf)" by fastforce
    have "candidates_from env ev p (record_candidate env kind conf ev loc object ctx s)"
      using just [OF x [unfolded k]] s by (intro record_candidate_from) auto
    with s k show "?P ((case x of (kind, conf) \<Rightarrow> record_candidate env kind conf ev loc object ctx) s)"
      by (simp add: record_candidate_ok)
  qed
  then have "candidates_from env ev p (observe_object env ev loc object m (op_bola q))"
    using assms(2) by (auto simp: observe_object_def Let_def ctx_def processing_def)
  moreover have "baseline_kept env ev (op_relationships p) (merge_relationship env ev loc object src m)"
    using ok(1,3) by (rule baseline_kept_merge)
  ultimately show ?thesis
    using relate_ok [of q env ev loc object src] assms(2) by (simp add: processing_def relate_def m_def)
qed

lemma processing_locators:
  "processing env ev p q \<Longrightarrow> locators_ok st \<Longrightarrow> locators_from (op_locators p) st \<Longrightarrow>
   processing env ev p (q\<lparr>op_locators := st\<rparr>)"
  by (simp add: processing_def plane_ok_def)

lemma processing_store: "processing env ev p q \<Longrightarrow> locators_ok (op_locators q) \<and> locators_from (op_locators p) (op_locators q)"
  by (simp add: processing_def plane_ok_def)

lemma relate_found_processing:
  assumes "plane_ok p" and "processing env ev p q" and "locators_ok (snd r)" and "locators_from (op_locators p) (snd r)"
    and "\<And>loc. fst r = Some loc \<Longrightarrow> listed_locator env (op_locators p) (ob_operation ev) loc"
  shows "processing env ev p (relate_found env ev s r q)"
  using assms by (auto simp: relate_found_def Let_def intro!: relate_processing processing_locators split: option.splits)

lemma relate_sample_processing:
  assumes "plane_ok p" and "processing env ev p q" shows "processing env ev p (relate_sample env ev n x q)"
proof -
  obtain s now now2 where x: "x = (s, now, now2)" by (cases x) auto
  note st = conjunct1 [OF processing_store [OF assms(2)]] conjunct2 [OF processing_store [OF assms(2)]]
  have "processing env ev p (relate_found env ev s (active_locator env now (ob_operation ev) l f (op_locators q)) q)" for l f
    using active_locator_listed [OF st, of env now "ob_operation ev" l f]
    by (intro relate_found_processing assms) (auto simp: prod_eq_iff)
  moreover have "processing env ev p (relate_found env ev s
      (active_path_locator env now now2 (ob_operation ev) l n (op_locators q)) q)" for l
    using active_path_locator_listed [OF st, of env now now2 "ob_operation ev" l n]
    by (intro relate_found_processing assms) (auto simp: prod_eq_iff)
  ultimately show ?thesis using assms(2) by (simp add: relate_sample_def x)
qed

lemma process_direct_processing:
  assumes "plane_ok p" and "processing env ev p p" shows "processing env ev p (process_direct env now ev p)"
proof -
  note st = conjunct1 [OF processing_store [OF assms(2)]] conjunct2 [OF processing_store [OF assms(2)]]
  obtain found st' where a: "active_locator env now (ob_operation ev) (ob_direct_location ev) (ob_direct_field ev)
      (op_locators p) = (found, st')" by fastforce
  from active_locator_listed [OF st a] a assms show ?thesis
    by (auto simp: process_direct_def Let_def intro!: relate_processing processing_locators split: option.splits)
qed

lemma process_object_processing:
  assumes "plane_ok p" and "own_keys env (ob_identity ev) (op_relationships p)"
  shows "processing env ev p (process_object env now ev samples p)"
proof -
  have start: "processing env ev p p"
    using assms by (simp add: processing_def baseline_kept_refl candidates_from_def)
  have count: "processing env ev p (q\<lparr>op_processed := n\<rparr>) = processing env ev p q" for q n
    by (simp add: processing_def plane_ok_def)
  have "processing env ev p (fold (relate_sample env ev n) samples p)" for n
    using start by (rule fold_invariant) (rule relate_sample_processing [OF assms(1)])
  with start process_direct_processing [OF assms(1) start] show ?thesis
    by (simp add: process_object_def Let_def count)
qed


definition sample_object_env :: object_env where
  "sample_object_env = \<lparr>oe_hash16 = (\<lambda>s. s), oe_hash20 = (\<lambda>s. s), oe_value_digest = (\<lambda>s. s), oe_identity_digest = (\<lambda>s. s)\<rparr>"

definition sample_locator :: object_locator where
  "sample_locator = (new_locator (locator_id sample_object_env ''op'' ''query'' ''id'') ''op'' ''query'' ''id'' ''id'' 1)
     \<lparr>ol_expires_at := 100\<rparr>"

definition sample_access :: "string \<Rightarrow> gtime \<Rightarrow> object_observation" where
  "sample_access who now = no_observation\<lparr>ob_operation := ''op'', ob_identity_kind := ''subject'', ob_identity := who,
     ob_direct_locator := ol_id sample_locator, ob_direct_location := ''query'', ob_direct_field := ''id'',
     ob_direct_object := ''invoice-7'', ob_direct_source := source_api71, ob_at := now\<rparr>"

text \<open>Bob has reached the invoice twice.\<close>

definition sample_link :: object_relationship where
  "sample_link = touch_relationship 2 (touch_relationship 1 (new_relationship (sample_access ''bob'' 1) sample_locator
     ''invoice-7'' source_api71 ''link''))"

definition sample_plane :: object_plane where
  "sample_plane = new_object_plane\<lparr>
     op_locators := \<lparr>os_locators = [(ol_id sample_locator, sample_locator)], os_overrides = []\<rparr>,
     op_relationships := [(relationship_id sample_object_env ''bob'' (ol_id sample_locator) ''invoice-7'', sample_link)]\<rparr>"

lemma sample_plane_ok: "plane_ok sample_plane"
  by (simp add: sample_plane_def new_object_plane_def plane_ok_def locators_ok_def relationships_ok_def candidates_ok_def
      quota_map_def gm_ok_def gm_all_def bounded_map_def within_quota_def group_count_def fingerprints_ok_def sample_locator_def
      new_locator_def max_locators_def max_locators_per_operation_def max_overrides_def max_fingerprints_def
      max_relationships_def max_relationships_per_identity_def max_relationships_per_object_def)

lemma sample_own_keys: "own_keys sample_object_env ''alice'' (op_relationships sample_plane)"
  by (simp add: own_keys_def sample_plane_def relationship_id_def sample_object_env_def join_nul_def
      join_with_def)

lemma sample_active:
  "active_locator sample_object_env 3 ''op'' ''query'' ''id'' (op_locators sample_plane) =
     (Some (sample_locator\<lparr>ol_status := status_active\<rparr>), op_locators sample_plane)"
proof -
  have t: "trim_space ''query'' = ''query''" "trim_space ''id'' = ''id''"
    by (rule trim_space_visible; simp add: visible_def less_eq_char_def)+
  have l: "to_lower ''query'' = ''query''"
    by (simp add: to_lower_def lower_char_def less_eq_char_def)
  have i: "ol_id sample_locator = locator_id sample_object_env ''op'' ''query'' ''id''" "ol_expires_at sample_locator = 100"
    by (simp_all add: sample_locator_def new_locator_def)
  show ?thesis
    by (simp add: active_locator_def t l Let_def sample_plane_def prune_locators_def gm_remove_if_def suppressed_def i)
qed

lemma sample_link_fields: "or_identity sample_link = ''bob''" "or_locator sample_link = ol_id sample_locator"
    "or_object sample_link = ''invoice-7''" "or_count sample_link = 2" "3 < or_expires_at sample_link" "or_tenant sample_link = []"
  by (simp_all add: sample_link_def touch_relationship_def Let_def new_relationship_def sample_access_def no_observation_def
      relationship_ttl_def sat_incr_def word_less_def unsigned_minus_1_eq_mask mask_eq_exp_minus_1)

lemma sample_context:
  "bola_anomalies (sample_access ''alice'' 3)
     (bola_context_of (op_relationships sample_plane) (ol_id sample_locator) ''invoice-7'' ''alice'' [] 3) =
     [(Identity_Divergence, Medium)]"
  by (simp add: bola_anomalies_def bola_context_of_def Let_def sample_plane_def sample_link_fields min_baseline_def
      sample_access_def no_observation_def enumeration_objects_def sat_add_def)

lemma sample_access_fields: "ob_operation (sample_access who now) = ''op''" "ob_identity (sample_access who now) = who"
    "ob_at (sample_access who now) = now" "ob_tenant (sample_access who now) = []"
    "ob_direct_locator (sample_access who now) = ol_id sample_locator" "ob_direct_location (sample_access who now) = ''query''"
    "ob_direct_field (sample_access who now) = ''id''" "ob_direct_object (sample_access who now) = ''invoice-7''"
  by (simp_all add: sample_access_def no_observation_def)

definition sample_cid :: string where
  "sample_cid = candidate_id sample_object_env Identity_Divergence ''alice'' (ol_id sample_locator) ''invoice-7'' []"

lemma sample_candidate_found:
  "\<exists>v. gm_get (bs_candidates (op_bola (process_object sample_object_env 3 (sample_access ''alice'' 3) [] sample_plane)))
     sample_cid = Some v"
proof -
  have id: "ol_id sample_locator \<noteq> []"
    by (simp add: sample_locator_def new_locator_def locator_id_def sample_object_env_def)
  have c: "op_bola sample_plane = \<lparr>bs_candidates = [], bs_generated = 0\<rparr>"
    by (simp add: sample_plane_def new_object_plane_def)
  show ?thesis
    by (simp add: process_object_def process_direct_def sample_access_fields time_is_zero_def id sample_active Let_def
        relate_def observe_object_def sample_context record_candidate_def c prune_candidates_def gm_remove_if_def
        max_candidates_def max_candidates_per_identity_def max_candidates_per_object_def group_count_def sample_cid_def)
qed


end
