(* ===== verification/Graphql_Lexer.thy ===== *)
theory Graphql_Lexer
  imports Object_Locator
begin

text \<open>
  The bounded lexer of \<^verbatim>\<open>graphql_api8.go\<close>. The index into the source is the suffix
  that is left, with its position for the error message. Literals lose their values: a string
  or number token does not carry its text.
\<close>

section \<open>Errors\<close>

text \<open>The errors of lexing, parsing and analysis, by their messages.\<close>

datatype gql_error =
    Empty_Document | Document_Exceeds nat | Unterminated_Block | Newline_In_String | Unterminated_String
  | Too_Many_Tokens | Bad_Character nat
  | Expected_Name | Expected string | Unterminated_Variables | Too_Many_Variables | Unterminated_Arguments
  | Unterminated_List | Unterminated_Object | Bad_Value | Unterminated_Selection | Too_Many_Fields
  | Duplicate_Fragment | Unsupported_Definition string | Too_Many_Definitions | No_Operation
  | Sdl_Out_Of_Bounds | Unterminated_Sdl_Arguments | Sdl_Too_Many_Fields | Sdl_Too_Many_Types | Sdl_No_Query_Root string
  | Operation_Not_Found | Operation_Name_Required | Too_Deep | Cyclic_Fragment | Unknown_Fragment | Too_Complex

section \<open>Tokens\<close>

datatype gql_token_kind = Eof_Token | Name_Token | Number_Token | String_Token | Punct_Token | Spread_Token

record gql_token =
  gt_kind :: gql_token_kind
  gt_text :: string

definition max_query_bytes :: nat where "max_query_bytes = 65536"
definition max_query_tokens :: nat where "max_query_tokens = 8192"

definition gql_name_start :: "char \<Rightarrow> bool" where
  "gql_name_start c \<longleftrightarrow> c = CHR ''_'' \<or> (CHR ''A'' \<le> c \<and> c \<le> CHR ''Z'') \<or> (CHR ''a'' \<le> c \<and> c \<le> CHR ''z'')"

definition gql_name_continue :: "char \<Rightarrow> bool" where
  "gql_name_continue c \<longleftrightarrow> gql_name_start c \<or> (CHR ''0'' \<le> c \<and> c \<le> CHR ''9'')"

definition gql_space :: "char \<Rightarrow> bool" where
  "gql_space c \<longleftrightarrow> c \<in> {CHR '' '', byte 9, byte 13, byte 10, CHR '',''}"

definition gql_newline :: "char \<Rightarrow> bool" where
  "gql_newline c \<longleftrightarrow> c \<in> {byte 10, byte 13}"

definition gql_number_start :: "char \<Rightarrow> bool" where
  "gql_number_start c \<longleftrightarrow> c = CHR ''-'' \<or> (CHR ''0'' \<le> c \<and> c \<le> CHR ''9'')"

definition gql_number_continue :: "char \<Rightarrow> bool" where
  "gql_number_continue c \<longleftrightarrow> (CHR ''0'' \<le> c \<and> c \<le> CHR ''9'') \<or> c \<in> set ''.eE+-''"

definition gql_punct :: "char \<Rightarrow> bool" where
  "gql_punct c \<longleftrightarrow> c \<in> set ''!$():=@[]{|}&''"

definition gql_quote :: char where
  "gql_quote = byte 34"

definition gql_backslash :: char where
  "gql_backslash = byte 92"

definition name_token :: "string \<Rightarrow> gql_token" where
  "name_token s = \<lparr>gt_kind = Name_Token, gt_text = s\<rparr>"

definition punct_token :: "char \<Rightarrow> gql_token" where
  "punct_token c = \<lparr>gt_kind = Punct_Token, gt_text = [c]\<rparr>"

definition spread_token :: gql_token where
  "spread_token = \<lparr>gt_kind = Spread_Token, gt_text = ''...''\<rparr>"

definition string_token :: gql_token where
  "string_token = \<lparr>gt_kind = String_Token, gt_text = ''<string>''\<rparr>"

definition number_token :: gql_token where
  "number_token = \<lparr>gt_kind = Number_Token, gt_text = ''<number>''\<rparr>"

definition eof_token :: gql_token where
  "eof_token = \<lparr>gt_kind = Eof_Token, gt_text = []\<rparr>"

text \<open>The bytes by their characters.\<close>

lemma gql_bytes: "byte 9 = CHR 0x09" "byte 10 = CHR 0x0A" "byte 13 = CHR 0x0D" "byte 34 = CHR 0x22" "byte 92 = CHR 0x5C"
  by (simp_all add: char_of_eq_iff take_bit_eq_mod)

lemma gql_newline_chars: "gql_newline c \<longleftrightarrow> c = CHR 0x0A \<or> c = CHR 0x0D"
  unfolding gql_newline_def gql_bytes by simp

lemma gql_space_chars: "gql_space c \<longleftrightarrow> c \<in> {CHR '' '', CHR 0x09, CHR 0x0D, CHR 0x0A, CHR '','' }"
  unfolding gql_space_def gql_bytes by simp

lemma gql_quote_char: "gql_quote = CHR 0x22" and gql_backslash_char: "gql_backslash = CHR 0x5C"
  unfolding gql_quote_def gql_backslash_def gql_bytes by simp_all

section \<open>The scanners of literals\<close>

text \<open>What follows the closing three quotes of a block string.\<close>

fun block_end :: "string \<Rightarrow> gql_error + string" where
  "block_end (a # b # c # r) =
     (if a = gql_quote \<and> b = gql_quote \<and> c = gql_quote then Inr r else block_end (b # c # r))"
| "block_end _ = Inl Unterminated_Block"

text \<open>What follows the closing quote of a string; \<open>esc\<close> after a backslash. Reaching the end
  of the source with \<open>esc\<close>, or without having read a character, is not an error in the code.\<close>

fun string_end :: "bool \<Rightarrow> string \<Rightarrow> gql_error + string" where
  "string_end esc [] = Inr []"
| "string_end esc (ch # r) =
     (if esc then string_end False r
      else if ch = gql_backslash then string_end True r
      else if ch = gql_quote then Inr r
      else if gql_newline ch then Inl Newline_In_String
      else if r = [] then Inl Unterminated_String
      else string_end False r)"

definition quoted_end :: "string \<Rightarrow> gql_error + string" where
  "quoted_end s = (if take 3 s = [gql_quote, gql_quote, gql_quote] then block_end (drop 3 s) else string_end False (tl s))"

section \<open>The lexer\<close>

text \<open>The token a source starts with that is neither empty, space nor comment, and what follows it;
  \<open>pos\<close> is its position.\<close>

definition lex_token :: "nat \<Rightarrow> string \<Rightarrow> gql_error + gql_token \<times> string" where
  "lex_token pos s =
     (let c = hd s in
      if take 3 s = ''...'' then Inr (spread_token, drop 3 s)
      else if c = gql_quote then (case quoted_end s of Inl e \<Rightarrow> Inl e | Inr r \<Rightarrow> Inr (string_token, r))
      else if gql_name_start c then
        Inr (name_token (c # takeWhile gql_name_continue (tl s)), dropWhile gql_name_continue (tl s))
      else if gql_number_start c then Inr (number_token, dropWhile gql_number_continue (tl s))
      else if gql_punct c then Inr (punct_token c, tl s)
      else Inl (Bad_Character pos))"

lemma block_end_shorter: "block_end s = Inr r \<Longrightarrow> length r < length s"
  by (induction s rule: block_end.induct) (auto split: if_splits)

lemma string_end_shorter: "string_end esc s = Inr r \<Longrightarrow> length r \<le> length s"
  by (induction esc s rule: string_end.induct) (auto split: if_splits)

lemma quoted_end_shorter:
  assumes "quoted_end s = Inr r" and "s \<noteq> []" shows "length r < length s"
proof (cases "take 3 s = [gql_quote, gql_quote, gql_quote]")
  case True
  with assms block_end_shorter [of "drop 3 s" r] show ?thesis by (simp add: quoted_end_def)
next
  case False
  with assms string_end_shorter [of False "tl s" r] show ?thesis
    by (cases s) (auto simp: quoted_end_def split: if_splits)
qed

lemma lex_token_shorter:
  assumes "lex_token pos s = Inr (t, r)" and "s \<noteq> []" shows "length r < length s"
  using assms quoted_end_shorter [of s r] length_dropWhile_le [of gql_name_continue "tl s"]
    length_dropWhile_le [of gql_number_continue "tl s"]
  by (cases s) (auto simp: lex_token_def Let_def split: if_splits sum.splits)

text \<open>\<open>n\<close> tokens have been found so far.\<close>

function lex_from :: "nat \<Rightarrow> nat \<Rightarrow> nat \<Rightarrow> string \<Rightarrow> gql_error + gql_token list" where
  "lex_from maxt n pos s =
     (if s = [] then Inr [eof_token]
      else if gql_space (hd s) then lex_from maxt n (pos + 1) (tl s)
      else if hd s = CHR ''#'' then
        lex_from maxt n (pos + length (takeWhile (\<lambda>c. \<not> gql_newline c) s)) (dropWhile (\<lambda>c. \<not> gql_newline c) s)
      else (case lex_token pos s of
          Inl e \<Rightarrow> Inl e
        | Inr (t, r) \<Rightarrow>
            if n + 1 > maxt then Inl Too_Many_Tokens
            else (case lex_from maxt (n + 1) (pos + (length s - length r)) r of Inl e \<Rightarrow> Inl e | Inr ts \<Rightarrow> Inr (t # ts))))"
  by pat_completeness auto
termination
proof (relation "measure (\<lambda>(maxt, n, pos, s). length s)"; (simp only: in_measure prod.case)?)
  fix s :: string
  assume s: "s \<noteq> []"
  then show "length (tl s) < length s" by simp
  assume "hd s = CHR ''#''"
  moreover have "\<not> gql_newline (CHR ''#'')" by (simp add: gql_newline_chars)
  ultimately have "dropWhile (\<lambda>c. \<not> gql_newline c) s = dropWhile (\<lambda>c. \<not> gql_newline c) (tl s)"
    using s by (cases s) auto
  then show "length (dropWhile (\<lambda>c. \<not> gql_newline c) s) < length s"
    using s length_dropWhile_le [of "\<lambda>c. \<not> gql_newline c" "tl s"] by (cases s) auto
qed (use lex_token_shorter in auto)

declare lex_from.simps [simp del]

definition lex_bounded :: "string \<Rightarrow> nat \<Rightarrow> nat \<Rightarrow> gql_error + gql_token list" where
  "lex_bounded src max_bytes max_tokens =
     (if src = [] then Inl Empty_Document
      else if length src > max_bytes then Inl (Document_Exceeds max_bytes)
      else lex_from max_tokens 0 0 src)"

definition lex_graphql :: "string \<Rightarrow> gql_error + gql_token list" where
  "lex_graphql src = lex_bounded src max_query_bytes max_query_tokens"

end
