(* ===== verification/Graphql_Parser.thy ===== *)
theory Graphql_Parser
  imports Graphql_Lexer
begin

text \<open>
  The recursive descent parser of \<^verbatim>\<open>graphql_api8.go\<close>. A parser takes the tokens from
  the current position on and returns what it read and the tokens after it; past the last token
  there are only end markers. Arguments, directives and default values are skipped.
\<close>

section \<open>Parsers\<close>

type_synonym 'a gql_parser = "gql_token list \<Rightarrow> gql_error + 'a \<times> gql_token list"

definition gbind :: "gql_error + 'a \<times> gql_token list \<Rightarrow> ('a \<Rightarrow> gql_token list \<Rightarrow> gql_error + 'b) \<Rightarrow> gql_error + 'b" where
  "gbind m f = (case m of Inl e \<Rightarrow> Inl e | Inr (x, ts) \<Rightarrow> f x ts)"

lemma gbind_cong [fundef_cong]:
  "m = m' \<Longrightarrow> (\<And>x ts. m' = Inr (x, ts) \<Longrightarrow> f x ts = g x ts) \<Longrightarrow> gbind m f = gbind m' g"
  by (auto simp: gbind_def split: sum.splits)

lemma gbind_Inr [simp]: "gbind (Inr (x, ts)) f = f x ts"
  by (simp add: gbind_def)

lemma gbind_Inl [simp]: "gbind (Inl e) f = Inl e"
  by (simp add: gbind_def)

lemma gbind_eq_Inr: "gbind m f = Inr y \<longleftrightarrow> (\<exists>x ts. m = Inr (x, ts) \<and> f x ts = Inr y)"
  by (auto simp: gbind_def split: sum.splits)

definition peek :: "gql_token list \<Rightarrow> gql_token" where
  "peek ts = (case ts of [] \<Rightarrow> eof_token | t # _ \<Rightarrow> t)"

text \<open>\<open>at_text\<close> is what \<^verbatim>\<open>accept\<close> tests; having it, the code steps to the next token.\<close>

definition at_text :: "string \<Rightarrow> gql_token list \<Rightarrow> bool" where
  "at_text text ts \<longleftrightarrow> gt_text (peek ts) = text"

definition at_kind :: "gql_token_kind \<Rightarrow> gql_token list \<Rightarrow> bool" where
  "at_kind k ts \<longleftrightarrow> gt_kind (peek ts) = k"

definition p_name :: "string gql_parser" where
  "p_name ts = (if at_kind Name_Token ts then Inr (gt_text (peek ts), tl ts) else Inl Expected_Name)"

definition p_expect :: "string \<Rightarrow> unit gql_parser" where
  "p_expect text ts = (if at_text text ts then Inr ((), tl ts) else Inl (Expected text))"

lemma at_text_nonempty: "at_text text ts \<Longrightarrow> text \<noteq> [] \<Longrightarrow> ts \<noteq> []"
  by (auto simp: at_text_def peek_def eof_token_def)

lemma at_kind_nonempty: "at_kind k ts \<Longrightarrow> k \<noteq> Eof_Token \<Longrightarrow> ts \<noteq> []"
  by (auto simp: at_kind_def peek_def eof_token_def)

lemma p_name_shorter: "p_name ts = Inr (n, ts') \<Longrightarrow> length ts' < length ts"
  by (cases ts) (auto simp: p_name_def at_kind_def peek_def eof_token_def split: if_splits)

lemma p_expect_shorter: "p_expect text ts = Inr (u, ts') \<Longrightarrow> text \<noteq> [] \<Longrightarrow> length ts' < length ts"
  by (cases ts) (auto simp: p_expect_def at_text_def peek_def eof_token_def split: if_splits)

lemma tl_shorter: "at_text text ts \<Longrightarrow> text \<noteq> [] \<Longrightarrow> length (tl ts) < length ts"
  using at_text_nonempty by (cases ts) auto

text \<open>\<^verbatim>\<open>if p.accept(text)\<close>: whether the text was there, and the tokens after it.\<close>

definition skip_text :: "string \<Rightarrow> gql_token list \<Rightarrow> gql_token list" where
  "skip_text text ts = (if at_text text ts then tl ts else ts)"

lemma skip_text_le: "length (skip_text text ts) \<le> length ts"
  by (simp add: skip_text_def)

section \<open>Types and values\<close>

function type_ref :: "string gql_parser" where
  "type_ref ts =
     (if at_text ''['' ts then
        gbind (type_ref (tl ts)) (\<lambda>inner ts1. gbind (p_expect '']'' ts1) (\<lambda>_ ts2.
          Inr (''['' @ inner @ '']'' @ (if at_text ''!'' ts2 then ''!'' else []), skip_text ''!'' ts2)))
      else gbind (p_name ts) (\<lambda>n ts1. Inr (n @ (if at_text ''!'' ts1 then ''!'' else []), skip_text ''!'' ts1)))"
  by pat_completeness auto
termination by (relation "measure length") (auto dest: at_text_nonempty)

declare type_ref.simps [simp del]

lemma type_ref_shorter: "type_ref ts = Inr (v, ts') \<Longrightarrow> length ts' < length ts"
proof (induction ts arbitrary: v ts' rule: type_ref.induct)
  case (1 ts)
  show ?case
  proof (cases "at_text ''['' ts")
    case True
    with "1.prems" obtain inner ts1 ts2 where *: "type_ref (tl ts) = Inr (inner, ts1)" "p_expect '']'' ts1 = Inr ((), ts2)"
      "ts' = skip_text ''!'' ts2"
      by (subst (asm) type_ref.simps) (auto simp: gbind_eq_Inr)
    have "length ts' \<le> length ts2" using *(3) skip_text_le by simp
    also have "\<dots> < length ts1" using p_expect_shorter [OF *(2)] by simp
    also have "\<dots> < length (tl ts)" by (rule "1.IH" [OF True *(1)])
    also have "\<dots> < length ts" using tl_shorter [OF True] by simp
    finally show ?thesis .
  next
    case False
    with "1.prems" obtain n ts1 where *: "p_name ts = Inr (n, ts1)" "ts' = skip_text ''!'' ts1"
      by (subst (asm) type_ref.simps) (auto simp: gbind_eq_Inr)
    then show ?thesis using p_name_shorter [OF *(1)] skip_text_le [of "''!''" ts1] by simp
  qed
qed

function skip_value :: "unit gql_parser" and skip_list :: "unit gql_parser" and skip_object :: "unit gql_parser" where
  "skip_value ts =
     (if at_kind String_Token ts \<or> at_kind Number_Token ts \<or> at_kind Name_Token ts then Inr ((), tl ts)
      else if at_text ''$'' ts then gbind (p_name (tl ts)) (\<lambda>_ ts1. Inr ((), ts1))
      else if at_text ''['' ts then skip_list (tl ts)
      else if at_text ''{'' ts then skip_object (tl ts)
      else Inl Bad_Value)"
| "skip_list ts =
     (if at_text '']'' ts then Inr ((), tl ts)
      else if at_kind Eof_Token ts then Inl Unterminated_List
      else gbind (skip_value ts) (\<lambda>_ ts1. skip_list ts1))"
| "skip_object ts =
     (if at_text ''}'' ts then Inr ((), tl ts)
      else if at_kind Eof_Token ts then Inl Unterminated_Object
      else gbind (p_name ts) (\<lambda>_ ts1. gbind (p_expect '':'' ts1) (\<lambda>_ ts2.
        gbind (skip_value ts2) (\<lambda>_ ts3. skip_object ts3))))"
  by pat_completeness auto

lemma skip_value_partial: "skip_value_skip_list_skip_object_dom (Inl ts) \<Longrightarrow> skip_value ts = Inr (u, ts') \<Longrightarrow> length ts' < length ts"
  and skip_list_partial: "skip_value_skip_list_skip_object_dom (Inr (Inl ts)) \<Longrightarrow> skip_list ts = Inr (u, ts') \<Longrightarrow> length ts' < length ts"
  and skip_object_partial: "skip_value_skip_list_skip_object_dom (Inr (Inr ts)) \<Longrightarrow> skip_object ts = Inr (u, ts') \<Longrightarrow> length ts' < length ts"
proof (induction ts and ts and ts arbitrary: u ts' and u ts' and u ts' rule: skip_value_skip_list_skip_object.pinduct)
  case (1 ts)
  have k: "length (tl ts) < length ts" if "at_kind String_Token ts \<or> at_kind Number_Token ts \<or> at_kind Name_Token ts"
    using that at_kind_nonempty [of _ ts] by (cases ts) auto
  have t: "length (tl ts) < length ts" if "at_text x ts" "x \<noteq> []" for x
    using that by (rule tl_shorter)
  from 1 k t show ?case
    by (auto simp: skip_value.psimps gbind_eq_Inr split: if_splits dest!: p_name_shorter)
next
  case (2 ts)
  then show ?case
    using tl_shorter [of "'']''" ts] by (auto simp: skip_list.psimps gbind_eq_Inr split: if_splits) (meson less_trans)
next
  case (3 ts)
  from "3.prems" "3.hyps" consider "at_text ''}'' ts" "ts' = tl ts"
    | n ts1 ts2 u3 ts3 where "\<not> at_text ''}'' ts" "\<not> at_kind Eof_Token ts" "p_name ts = Inr (n, ts1)"
        "p_expect '':'' ts1 = Inr ((), ts2)" "skip_value ts2 = Inr (u3, ts3)" "skip_object ts3 = Inr (u, ts')"
    by (auto simp: skip_object.psimps gbind_eq_Inr split: if_splits)
  then show ?case
  proof cases
    case 1
    then show ?thesis using tl_shorter [of "''}''" ts] by simp
  next
    case 2
    then show ?thesis
      using "3.IH"(1) [OF 2(1,2,3,4,5)] "3.IH"(2) [OF 2(1,2,3,4,5,6)]
        p_name_shorter [OF 2(3)] p_expect_shorter [OF 2(4)] by simp
  qed
qed

lemma skip_terminates: "All skip_value_skip_list_skip_object_dom"
proof (rule "skip_value_skip_list_skip_object.termination" [of "measure (\<lambda>x. case x of Inl ts \<Rightarrow> 2 * length ts
    | Inr (Inl ts) \<Rightarrow> 2 * length ts + 1 | Inr (Inr ts) \<Rightarrow> 2 * length ts + 1)"]; (simp only: in_measure sum.case)?)
  fix ts :: "gql_token list"
  show "2 * length (tl ts) + 1 < 2 * length ts" if "at_text ''['' ts"
    using tl_shorter [OF that] by simp
  show "2 * length (tl ts) + 1 < 2 * length ts" if "at_text ''{'' ts"
    using tl_shorter [OF that] by simp
next
  fix ts ts1 :: "gql_token list" and x :: unit
  assume "skip_value ts = Inr (x, ts1)" and "skip_value_skip_list_skip_object_dom (Inl ts)"
  then show "2 * length ts1 + 1 < 2 * length ts + 1" using skip_value_partial by auto
next
  fix ts ts1 ts2 :: "gql_token list" and n :: string and u :: unit
  assume "p_name ts = Inr (n, ts1)" and "p_expect '':'' ts1 = Inr (u, ts2)"
  then have l: "length ts2 < length ts" using p_name_shorter p_expect_shorter by fastforce
  then show "2 * length ts2 < 2 * length ts + 1" by simp
  fix ts3 u' assume "skip_value ts2 = Inr (u', ts3)" and "skip_value_skip_list_skip_object_dom (Inl ts2)"
  with l show "2 * length ts3 + 1 < 2 * length ts + 1" using skip_value_partial by fastforce
qed simp_all

termination skip_value by (rule skip_terminates)

lemmas skip_shorter = skip_value_partial [OF skip_terminates [rule_format]]

declare skip_value.simps [simp del] skip_list.simps [simp del] skip_object.simps [simp del]

section \<open>Arguments, directives, variables\<close>

function skip_arguments :: "unit gql_parser" where
  "skip_arguments ts =
     (if at_text '')'' ts then Inr ((), tl ts)
      else if at_kind Eof_Token ts then Inl Unterminated_Arguments
      else gbind (p_name ts) (\<lambda>_ ts1. gbind (p_expect '':'' ts1) (\<lambda>_ ts2.
        gbind (skip_value ts2) (\<lambda>_ ts3. skip_arguments ts3))))"
  by pat_completeness auto
termination
  by (relation "measure length") (auto dest!: p_name_shorter p_expect_shorter skip_shorter)

declare skip_arguments.simps [simp del]

lemma skip_arguments_shorter: "skip_arguments ts = Inr (u, ts') \<Longrightarrow> length ts' < length ts"
proof (induction ts rule: skip_arguments.induct)
  case (1 ts)
  show ?case
  proof (cases "at_text '')'' ts")
    case True
    with "1.prems" tl_shorter [OF True] show ?thesis by (subst (asm) skip_arguments.simps) auto
  next
    case False
    with "1.prems" obtain n ts1 ts2 ts3 where *: "p_name ts = Inr (n, ts1)" "p_expect '':'' ts1 = Inr ((), ts2)"
      "skip_value ts2 = Inr ((), ts3)" "skip_arguments ts3 = Inr (u, ts')" "\<not> at_kind Eof_Token ts"
      by (subst (asm) skip_arguments.simps) (auto simp: gbind_eq_Inr split: if_splits)
    from "1.IH" [OF False *(5,1,2,3,4)] p_name_shorter [OF *(1)] p_expect_shorter [OF *(2)] skip_shorter [OF *(3)]
    show ?thesis by simp
  qed
qed

function skip_directives :: "unit gql_parser" where
  "skip_directives ts =
     (if at_text ''@'' ts then
        gbind (p_name (tl ts)) (\<lambda>_ ts1.
          if at_text ''('' ts1 then gbind (skip_arguments (tl ts1)) (\<lambda>_ ts2. skip_directives ts2)
          else skip_directives ts1)
      else Inr ((), ts))"
  by pat_completeness auto
termination
  by (relation "measure length") (auto dest!: p_name_shorter skip_arguments_shorter)

declare skip_directives.simps [simp del]

lemma skip_directives_le: "skip_directives ts = Inr (u, ts') \<Longrightarrow> length ts' \<le> length ts"
proof (induction ts rule: skip_directives.induct)
  case (1 ts)
  show ?case
  proof (cases "at_text ''@'' ts")
    case False
    with "1.prems" show ?thesis by (subst (asm) skip_directives.simps) simp
  next
    case True
    with "1.prems" obtain n ts1 where n: "p_name (tl ts) = Inr (n, ts1)"
      by (subst (asm) skip_directives.simps) (auto simp: gbind_eq_Inr)
    note short = p_name_shorter [OF n] tl_shorter [OF True]
    show ?thesis
    proof (cases "at_text ''('' ts1")
      case False
      with "1.prems" True n have "skip_directives ts1 = Inr (u, ts')" by (subst (asm) skip_directives.simps) simp
      from "1.IH"(2) [OF True n False this] short show ?thesis by simp
    next
      case par: True
      with "1.prems" True n obtain ts2 where a: "skip_arguments (tl ts1) = Inr ((), ts2)" "skip_directives ts2 = Inr (u, ts')"
        by (subst (asm) skip_directives.simps) (auto simp: gbind_eq_Inr)
      from "1.IH"(1) [OF True n par a] skip_arguments_shorter [OF a(1)] short tl_shorter [OF par] show ?thesis by simp
    qed
  qed
qed

definition max_variables :: nat where "max_variables = 256"

type_synonym gql_variables = "(string, string) gomap"

text \<open>\<^verbatim>\<open>if p.accept("=") { p.skipValue() }\<close>\<close>

definition skip_default :: "unit gql_parser" where
  "skip_default ts = (if at_text ''='' ts then skip_value (tl ts) else Inr ((), ts))"

lemma skip_default_le: "skip_default ts = Inr (u, ts') \<Longrightarrow> length ts' \<le> length ts"
  using skip_shorter [of "tl ts" u ts'] by (auto simp: skip_default_def split: if_splits)

function variable_definitions :: "gql_variables \<Rightarrow> gql_variables gql_parser" where
  "variable_definitions dst ts =
     (if at_text '')'' ts then Inr (dst, tl ts)
      else if at_kind Eof_Token ts then Inl Unterminated_Variables
      else gbind (p_expect ''$'' ts) (\<lambda>_ ts1. gbind (p_name ts1) (\<lambda>n ts2.
        if length dst \<ge> max_variables then Inl Too_Many_Variables
        else gbind (p_expect '':'' ts2) (\<lambda>_ ts3. gbind (type_ref ts3) (\<lambda>typ ts4.
          gbind (skip_default ts4) (\<lambda>_ ts5.
            gbind (skip_directives ts5) (\<lambda>_ ts6. variable_definitions (gm_put n typ dst) ts6)))))))"
  by pat_completeness auto
termination
proof (relation "measure (\<lambda>(dst, ts). length ts)"; (simp only: in_measure prod.case)?)
  fix ts ts1 ts2 ts3 ts4 ts5 ts6 :: "gql_token list" and u1 u3 u5 u6 :: unit and n ty :: string
  assume a: "p_expect ''$'' ts = Inr (u1, ts1)" "p_name ts1 = Inr (n, ts2)" "p_expect '':'' ts2 = Inr (u3, ts3)"
    "type_ref ts3 = Inr (ty, ts4)" "skip_default ts4 = Inr (u5, ts5)" "skip_directives ts5 = Inr (u6, ts6)"
  from skip_default_le [OF a(5)] p_expect_shorter [OF a(1)] p_name_shorter [OF a(2)] p_expect_shorter [OF a(3)] type_ref_shorter [OF a(4)]
    skip_directives_le [OF a(6)]
  show "length ts6 < length ts" by simp
qed simp

declare variable_definitions.simps [simp del]

lemma variable_definitions_shorter:
  "variable_definitions dst ts = Inr (d, ts') \<Longrightarrow> length ts' < length ts"
proof (induction dst ts rule: variable_definitions.induct)
  case (1 dst ts)
  show ?case
  proof (cases "at_text '')'' ts")
    case True
    with "1.prems" tl_shorter [OF True] show ?thesis by (subst (asm) variable_definitions.simps) auto
  next
    case False
    with "1.prems" obtain n ts1 ts2 ts3 ty ts4 ts5 ts6 where *: "\<not> at_kind Eof_Token ts"
      "p_expect ''$'' ts = Inr ((), ts1)" "p_name ts1 = Inr (n, ts2)" "\<not> max_variables \<le> length dst"
      "p_expect '':'' ts2 = Inr ((), ts3)" "type_ref ts3 = Inr (ty, ts4)"
      "skip_default ts4 = Inr ((), ts5)"
      "skip_directives ts5 = Inr ((), ts6)" "variable_definitions (gm_put n ty dst) ts6 = Inr (d, ts')"
      by (subst (asm) variable_definitions.simps) (auto simp: gbind_eq_Inr split: if_splits)
    from "1.IH" [OF False *] skip_default_le [OF *(7)] p_expect_shorter [OF *(2)] p_name_shorter [OF *(3)] p_expect_shorter [OF *(5)]
      type_ref_shorter [OF *(6)] skip_directives_le [OF *(8)]
    show ?thesis by simp
  qed
qed

section \<open>Selections\<close>

text \<open>The parser builds three kinds of \<^verbatim>\<open>gqlSelection\<close>: a field with its children, a spread
  of a named fragment, and an inline fragment.\<close>

datatype gql_selection = Field string "gql_selection list" | Spread string | Inline "gql_selection list"

definition max_query_fields :: nat where "max_query_fields = 2048"

text \<open>After a name: the field an alias stands for, and the arguments of a field.\<close>

definition aliased :: "string \<Rightarrow> string gql_parser" where
  "aliased n ts = (if at_text '':'' ts then p_name (tl ts) else Inr (n, ts))"

definition skip_call :: "unit gql_parser" where
  "skip_call ts = (if at_text ''('' ts then skip_arguments (tl ts) else Inr ((), ts))"

lemma aliased_le: "aliased n ts = Inr (f, ts') \<Longrightarrow> length ts' \<le> length ts"
  using p_name_shorter [of "tl ts" f ts'] by (auto simp: aliased_def split: if_splits)

lemma skip_call_le: "skip_call ts = Inr (u, ts') \<Longrightarrow> length ts' \<le> length ts"
  using skip_arguments_shorter [of "tl ts" u ts'] by (auto simp: skip_call_def split: if_splits)

text \<open>\<open>n\<close> selections of the set have been read.\<close>

function selection_set :: "gql_selection list gql_parser"
  and selections :: "nat \<Rightarrow> gql_selection list gql_parser"
  and selection :: "gql_selection gql_parser" where
  "selection_set ts = gbind (p_expect ''{'' ts) (\<lambda>_ ts1. selections 0 ts1)"
| "selections n ts =
     (if at_text ''}'' ts then Inr ([], tl ts)
      else if at_kind Eof_Token ts then Inl Unterminated_Selection
      else gbind (selection ts) (\<lambda>sel ts1.
        if n + 1 > max_query_fields then Inl Too_Many_Fields
        else gbind (selections (n + 1) ts1) (\<lambda>sels ts2. Inr (sel # sels, ts2))))"
| "selection ts =
     (if at_text ''...'' ts then
        let ts = tl ts in
        if at_text ''on'' ts then
          gbind (p_name (tl ts)) (\<lambda>_ ts1. gbind (skip_directives ts1) (\<lambda>_ ts2.
            gbind (selection_set ts2) (\<lambda>kids ts3. Inr (Inline kids, ts3))))
        else if at_text ''@'' ts then
          gbind (skip_directives ts) (\<lambda>_ ts1. gbind (selection_set ts1) (\<lambda>kids ts2. Inr (Inline kids, ts2)))
        else gbind (p_name ts) (\<lambda>n ts1. gbind (skip_directives ts1) (\<lambda>_ ts2. Inr (Spread n, ts2)))
      else gbind (p_name ts) (\<lambda>n ts1.
        gbind (aliased n ts1) (\<lambda>field ts2.
          gbind (skip_call ts2) (\<lambda>_ ts3.
            gbind (skip_directives ts3) (\<lambda>_ ts4.
              if at_text ''{'' ts4 then gbind (selection_set ts4) (\<lambda>kids ts5. Inr (Field field kids, ts5))
              else Inr (Field field [], ts4))))))"
  by pat_completeness auto

lemma field_head_shorter:
  assumes "p_name ts = Inr (n, ts1)" and "aliased n ts1 = Inr (f, ts2)" and "skip_call ts2 = Inr (u, ts3)"
    and "skip_directives ts3 = Inr (u', ts4)"
  shows "length ts4 < length ts"
  using p_name_shorter [OF assms(1)] aliased_le [OF assms(2)] skip_call_le [OF assms(3)] skip_directives_le [OF assms(4)]
  by simp

lemma selection_set_partial: "selection_set_selections_selection_dom (Inl ts) \<Longrightarrow> selection_set ts = Inr (s, ts') \<Longrightarrow> length ts' < length ts"
  and selections_partial: "selection_set_selections_selection_dom (Inr (Inl (n, ts))) \<Longrightarrow> selections n ts = Inr (s, ts') \<Longrightarrow> length ts' < length ts"
  and selection_partial: "selection_set_selections_selection_dom (Inr (Inr ts)) \<Longrightarrow> selection ts = Inr (x, ts') \<Longrightarrow> length ts' < length ts"
proof (induction ts and n ts and ts arbitrary: s ts' and s ts' and x ts' rule: selection_set_selections_selection.pinduct)
  case (1 ts)
  then obtain ts1 where *: "p_expect ''{'' ts = Inr ((), ts1)" "selections 0 ts1 = Inr (s, ts')"
    by (auto simp: selection_set.psimps gbind_eq_Inr)
  with "1.IH" [OF *] p_expect_shorter [OF *(1)] show ?case by simp
next
  case (2 n ts)
  show ?case
  proof (cases "at_text ''}'' ts")
    case True
    with "2.prems" "2.hyps" tl_shorter [OF True] show ?thesis by (simp add: selections.psimps)
  next
    case False
    with "2.prems" "2.hyps" obtain sel ts1 sels where *: "\<not> at_kind Eof_Token ts" "selection ts = Inr (sel, ts1)"
      "\<not> max_query_fields < n + 1" "selections (n + 1) ts1 = Inr (sels, ts')"
      by (auto simp: selections.psimps gbind_eq_Inr split: if_splits)
    from "2.IH"(1) [OF False *(1,2)] "2.IH"(2) [OF False *] show ?thesis by simp
  qed
next
  case (3 ts)
  show ?case
  proof (cases "at_text ''...'' ts")
    case dots: True
    have l: "length (tl ts) < length ts" using tl_shorter [OF dots] by simp
    consider (on) m ts1 ts2 kids where "at_text ''on'' (tl ts)" "p_name (tl (tl ts)) = Inr (m, ts1)"
        "skip_directives ts1 = Inr ((), ts2)" "selection_set ts2 = Inr (kids, ts')"
      | (dir) ts1 kids where "\<not> at_text ''on'' (tl ts)" "at_text ''@'' (tl ts)" "skip_directives (tl ts) = Inr ((), ts1)"
        "selection_set ts1 = Inr (kids, ts')"
      | (spread) m ts1 where "p_name (tl ts) = Inr (m, ts1)" "skip_directives ts1 = Inr ((), ts')"
      using "3.prems" "3.hyps" dots by (auto simp: selection.psimps gbind_eq_Inr Let_def split: if_splits)
    then show ?thesis
    proof cases
      case on
      from "3.IH"(1) [OF dots refl on] l p_name_shorter [OF on(2)] skip_directives_le [OF on(3)] show ?thesis by simp
    next
      case dir
      from "3.IH"(2) [OF dots refl dir] l skip_directives_le [OF dir(3)] show ?thesis by simp
    next
      case spread
      from l p_name_shorter [OF spread(1)] skip_directives_le [OF spread(2)] show ?thesis by simp
    qed
  next
    case False
    with "3.prems" "3.hyps" obtain m ts1 f ts2 ts3 ts4 where *: "p_name ts = Inr (m, ts1)"
      "aliased m ts1 = Inr (f, ts2)" "skip_call ts2 = Inr ((), ts3)" "skip_directives ts3 = Inr ((), ts4)"
      and r: "(if at_text ''{'' ts4 then gbind (selection_set ts4) (\<lambda>kids ts5. Inr (Field f kids, ts5))
              else Inr (Field f [], ts4)) = Inr (x, ts')"
      by (subst (asm) selection.psimps) (auto simp: gbind_eq_Inr)
    note short = field_head_shorter [OF *]
    show ?thesis
    proof (cases "at_text ''{'' ts4")
      case True
      with r obtain kids where "selection_set ts4 = Inr (kids, ts')" by (auto simp: gbind_eq_Inr)
      from "3.IH"(3) [OF False * True this] short show ?thesis by simp
    next
      case no: False
      with r short show ?thesis by simp
    qed
  qed
qed

lemma selection_terminates: "All selection_set_selections_selection_dom"
proof (rule "selection_set_selections_selection.termination" [of "measure (\<lambda>x. case x of Inl ts \<Rightarrow> 2 * length ts
    | Inr (Inl (n, ts)) \<Rightarrow> 2 * length ts + 1 | Inr (Inr ts) \<Rightarrow> 2 * length ts)"]; (simp only: in_measure sum.case prod.case)?)
  fix ts ts1 :: "gql_token list" and u :: unit
  assume "p_expect ''{'' ts = Inr (u, ts1)"
  then show "2 * length ts1 + 1 < 2 * length ts" using p_expect_shorter by fastforce
next
  fix ts ts1 :: "gql_token list" and x
  assume "selection ts = Inr (x, ts1)" and "selection_set_selections_selection_dom (Inr (Inr ts))"
  then show "2 * length ts1 + 1 < 2 * length ts + 1" using selection_partial by fastforce
next
  fix ts ts1 ts2 ts3 ts4 :: "gql_token list" and n f :: string and u u' :: unit
  assume "p_name ts = Inr (n, ts1)" "aliased n ts1 = Inr (f, ts2)" "skip_call ts2 = Inr (u, ts3)"
    "skip_directives ts3 = Inr (u', ts4)"
  then show "2 * length ts4 < 2 * length ts" using field_head_shorter by fastforce
qed (auto simp: neq_Nil_conv dest!: at_text_nonempty p_name_shorter skip_directives_le)

termination selection_set by (rule selection_terminates)

lemmas selection_set_shorter = selection_set_partial [OF selection_terminates [rule_format]]

declare selection_set.simps [simp del] selections.simps [simp del] selection.simps [simp del]

section \<open>Documents\<close>

record gql_operation_def =
  od_type :: string
  od_name :: string
  od_variables :: gql_variables
  od_selections :: "gql_selection list"

record gql_document =
  gd_operations :: "gql_operation_def list"
  gd_fragments :: "(string, gql_selection list) gomap"

definition max_operation_defs :: nat where "max_operation_defs = 128"
definition max_fragment_defs :: nat where "max_fragment_defs = 256"

text \<open>An operation, after its keyword.\<close>

definition optional_name :: "string gql_parser" where
  "optional_name ts = (if at_kind Name_Token ts then p_name ts else Inr ([], ts))"

definition optional_variables :: "gql_variables gql_parser" where
  "optional_variables ts = (if at_text ''('' ts then variable_definitions [] (tl ts) else Inr ([], ts))"

definition operation_def :: "string \<Rightarrow> gql_operation_def gql_parser" where
  "operation_def kw ts =
     gbind (optional_name ts) (\<lambda>name ts1. gbind (optional_variables ts1) (\<lambda>vars ts2.
       gbind (skip_directives ts2) (\<lambda>_ ts3. gbind (selection_set ts3) (\<lambda>sels ts4.
         Inr (\<lparr>od_type = kw, od_name = name, od_variables = vars, od_selections = sels\<rparr>, ts4)))))"

text \<open>A fragment, after its keyword.\<close>

definition fragment_def :: "(string, gql_selection list) gomap \<Rightarrow> (string \<times> gql_selection list) gql_parser" where
  "fragment_def fragments ts =
     gbind (p_name ts) (\<lambda>name ts1.
       if gm_has fragments name then Inl Duplicate_Fragment
       else gbind (p_expect ''on'' ts1) (\<lambda>_ ts2. gbind (p_name ts2) (\<lambda>_ ts3.
         gbind (skip_directives ts3) (\<lambda>_ ts4. gbind (selection_set ts4) (\<lambda>sels ts5. Inr ((name, sels), ts5))))))"

definition definitions_ok :: "gql_document \<Rightarrow> bool" where
  "definitions_ok doc \<longleftrightarrow> length (gd_operations doc) \<le> max_operation_defs \<and> length (gd_fragments doc) \<le> max_fragment_defs"

definition add_operation :: "gql_operation_def \<Rightarrow> gql_document \<Rightarrow> gql_document" where
  "add_operation op doc = doc\<lparr>gd_operations := gd_operations doc @ [op]\<rparr>"

lemma operation_def_le: "operation_def kw ts = Inr (op, ts') \<Longrightarrow> length ts' < length ts"
proof -
  assume "operation_def kw ts = Inr (op, ts')"
  then obtain name ts1 vars ts2 ts3 sels where *: "optional_name ts = Inr (name, ts1)"
    "optional_variables ts1 = Inr (vars, ts2)" "skip_directives ts2 = Inr ((), ts3)" "selection_set ts3 = Inr (sels, ts')"
    by (auto simp: operation_def_def gbind_eq_Inr)
  have "length ts1 \<le> length ts"
    using *(1) p_name_shorter [of ts name ts1] by (auto simp: optional_name_def split: if_splits)
  moreover have "length ts2 \<le> length ts1"
    using *(2) variable_definitions_shorter [of "[]" "tl ts1" vars ts2] by (auto simp: optional_variables_def split: if_splits)
  ultimately show ?thesis using skip_directives_le [OF *(3)] selection_set_shorter [OF *(4)] by simp
qed

lemma fragment_def_shorter: "fragment_def fs ts = Inr (f, ts') \<Longrightarrow> length ts' < length ts"
proof -
  assume "fragment_def fs ts = Inr (f, ts')"
  then obtain name ts1 ts2 m ts3 ts4 sels where *: "p_name ts = Inr (name, ts1)" "p_expect ''on'' ts1 = Inr ((), ts2)"
    "p_name ts2 = Inr (m, ts3)" "skip_directives ts3 = Inr ((), ts4)" "selection_set ts4 = Inr (sels, ts')"
    by (auto simp: fragment_def_def gbind_eq_Inr split: if_splits)
  from p_name_shorter [OF *(1)] p_expect_shorter [OF *(2)] p_name_shorter [OF *(3)] skip_directives_le [OF *(4)]
    selection_set_shorter [OF *(5)]
  show ?thesis by simp
qed

text \<open>A selection set on its own is a query; the code does not count it against the limit.\<close>

function parse_definitions :: "gql_document \<Rightarrow> gql_token list \<Rightarrow> gql_error + gql_document" where
  "parse_definitions doc ts =
     (if at_kind Eof_Token ts then Inr doc
      else if at_text ''{'' ts then
        gbind (selection_set ts) (\<lambda>sels ts1. parse_definitions
          (add_operation \<lparr>od_type = ''query'', od_name = [], od_variables = [], od_selections = sels\<rparr> doc) ts1)
      else gbind (p_name ts) (\<lambda>kw ts1.
        if kw = ''query'' \<or> kw = ''mutation'' \<or> kw = ''subscription'' then
          gbind (operation_def kw ts1) (\<lambda>op ts2.
            let doc = add_operation op doc in if definitions_ok doc then parse_definitions doc ts2 else Inl Too_Many_Definitions)
        else if kw = ''fragment'' then
          gbind (fragment_def (gd_fragments doc) ts1) (\<lambda>f ts2.
            let doc = doc\<lparr>gd_fragments := gm_put (fst f) (snd f) (gd_fragments doc)\<rparr>
            in if definitions_ok doc then parse_definitions doc ts2 else Inl Too_Many_Definitions)
        else Inl (Unsupported_Definition kw)))"
  by pat_completeness auto
termination
  by (relation "measure (\<lambda>(doc, ts). length ts)")
    (auto dest!: p_name_shorter operation_def_le fragment_def_shorter selection_set_shorter)

declare parse_definitions.simps [simp del]

definition parse_document :: "string \<Rightarrow> gql_error + gql_document" where
  "parse_document src =
     (case lex_graphql src of
        Inl e \<Rightarrow> Inl e
      | Inr ts \<Rightarrow>
          (case parse_definitions \<lparr>gd_operations = [], gd_fragments = []\<rparr> ts of
             Inl e \<Rightarrow> Inl e
           | Inr doc \<Rightarrow> if gd_operations doc = [] then Inl No_Operation else Inr doc))"

end
