(* ===== verification/Graphql_Print.thy ===== *)
theory Graphql_Print
  imports Graphql_Parser
begin

text \<open>
  A printer of documents, as the specification of what the parser reads: the parser gives back
  every document that is printed within the limits. The printer is not code of the program.
\<close>

section \<open>Documents to print\<close>

definition gql_name :: "string \<Rightarrow> bool" where
  "gql_name s \<longleftrightarrow> s \<noteq> [] \<and> gql_name_start (hd s) \<and> list_all gql_name_continue (tl s)"

text \<open>The type of a variable, required when the flag is set.\<close>

datatype gql_type = Named string bool | List_Of gql_type bool

fun gql_type_text :: "gql_type \<Rightarrow> string" where
  "gql_type_text (Named n req) = n @ (if req then ''!'' else [])"
| "gql_type_text (List_Of t req) = ''['' @ gql_type_text t @ '']'' @ (if req then ''!'' else [])"

definition required_tokens :: "bool \<Rightarrow> gql_token list" where
  "required_tokens req = (if req then [punct_token (CHR ''!'')] else [])"

fun type_tokens :: "gql_type \<Rightarrow> gql_token list" where
  "type_tokens (Named n req) = name_token n # required_tokens req"
| "type_tokens (List_Of t req) = punct_token (CHR ''['') # type_tokens t @ punct_token (CHR '']'') # required_tokens req"

fun type_names :: "gql_type \<Rightarrow> bool" where
  "type_names (Named n req) = gql_name n"
| "type_names (List_Of t req) = type_names t"

definition in_braces :: "gql_token list \<Rightarrow> gql_token list" where
  "in_braces ts = punct_token (CHR ''{'') # ts @ [punct_token (CHR ''}'')]"

fun selection_tokens :: "gql_selection \<Rightarrow> gql_token list" where
  "selection_tokens (Field f kids) = name_token f # (if kids = [] then [] else in_braces (concat (map selection_tokens kids)))"
| "selection_tokens (Spread n) = [spread_token, name_token n]"
| "selection_tokens (Inline kids) = [spread_token, name_token ''on'', name_token ''T''] @
     in_braces (concat (map selection_tokens kids))"

definition set_tokens :: "gql_selection list \<Rightarrow> gql_token list" where
  "set_tokens sels = in_braces (concat (map selection_tokens sels))"

text \<open>What can be printed: names are names, and a list is not longer than a set may be.\<close>

fun printable :: "gql_selection \<Rightarrow> bool" where
  "printable (Field f kids) = (gql_name f \<and> length kids \<le> max_query_fields \<and> list_all printable kids)"
| "printable (Spread n) = (gql_name n \<and> n \<noteq> ''on'')"
| "printable (Inline kids) = (length kids \<le> max_query_fields \<and> list_all printable kids)"

definition printable_set :: "gql_selection list \<Rightarrow> bool" where
  "printable_set sels \<longleftrightarrow> length sels \<le> max_query_fields \<and> list_all printable sels"

section \<open>Parsing what was printed\<close>

lemma token_simps [simp]:
  "peek (t # ts) = t" "gt_text (name_token n) = n" "gt_kind (name_token n) = Name_Token"
  "gt_text (punct_token c) = [c]" "gt_kind (punct_token c) = Punct_Token"
  "gt_text spread_token = ''...''" "gt_kind spread_token = Spread_Token"
  "gt_text eof_token = []" "gt_kind eof_token = Eof_Token"
  by (simp_all add: peek_def name_token_def punct_token_def spread_token_def eof_token_def)

lemma at_simps [simp]: "at_text s (t # ts) \<longleftrightarrow> gt_text t = s" "at_kind k (t # ts) \<longleftrightarrow> gt_kind t = k"
  by (simp_all add: at_text_def at_kind_def)

lemma gql_name_not_punct:
  assumes "gql_name s" "\<not> gql_name_start c" shows "s \<noteq> c # r"
  using assms by (cases s) (auto simp: gql_name_def)

lemma gql_name_text [simp]:
  assumes "gql_name s"
  shows "s \<noteq> ''{''" "s \<noteq> ''}''" "s \<noteq> ''...''" "s \<noteq> ''@''" "s \<noteq> ''(''" "s \<noteq> '')''" "s \<noteq> '':''" "s \<noteq> ''[''" "s \<noteq> '']''"
    "s \<noteq> ''!''" "s \<noteq> ''$''" "s \<noteq> ''=''" "s \<noteq> []"
  using assms gql_name_not_punct [OF assms] by (auto simp: gql_name_start_def less_eq_char_def gql_name_def)

lemma p_name_token [simp]: "p_name (name_token n # ts) = Inr (n, ts)"
  by (simp add: p_name_def)

lemma p_expect_token [simp]: "p_expect [c] (punct_token c # ts) = Inr ((), ts)"
  by (simp add: p_expect_def)

lemma p_expect_name [simp]: "p_expect n (name_token n # ts) = Inr ((), ts)"
  by (simp add: p_expect_def)

lemma skip_directives_none: "\<not> at_text ''@'' ts \<Longrightarrow> skip_directives ts = Inr ((), ts)"
  by (simp add: skip_directives.simps)

text \<open>What may follow a selection without being read as part of it.\<close>

definition ends_selection :: "gql_token list \<Rightarrow> bool" where
  "ends_selection ts \<longleftrightarrow> \<not> at_text '':'' ts \<and> \<not> at_text ''('' ts \<and> \<not> at_text ''@'' ts \<and> \<not> at_text ''{'' ts"

lemma selection_tokens_first:
  "printable s \<Longrightarrow> ends_selection (selection_tokens s @ ts) \<and> \<not> at_text ''}'' (selection_tokens s @ ts) \<and>
     \<not> at_kind Eof_Token (selection_tokens s @ ts)"
  by (cases s) (auto simp: ends_selection_def)

lemma ends_selection_close: "ends_selection (punct_token (CHR ''}'') # ts)"
  by (simp add: ends_selection_def)

lemma selections_tokens:
  assumes "\<And>s ts. s \<in> set ss \<Longrightarrow> ends_selection ts \<Longrightarrow> selection (selection_tokens s @ ts) = Inr (s, ts)"
    and "list_all printable ss" and "n + length ss \<le> max_query_fields"
  shows "selections n (concat (map selection_tokens ss) @ punct_token (CHR ''}'') # ts) = Inr (ss, ts)"
  using assms
proof (induction ss arbitrary: n)
  case Nil
  then show ?case by (subst selections.simps) simp
next
  case (Cons s ss)
  define rest where "rest = concat (map selection_tokens ss) @ punct_token (CHR ''}'') # ts"
  have "ends_selection rest"
    using Cons.prems(2) selection_tokens_first ends_selection_close by (cases ss) (auto simp: rest_def)
  then have "selection (selection_tokens s @ rest) = Inr (s, rest)" using Cons.prems(1) by simp
  moreover have "selections (n + 1) rest = Inr (ss, ts)"
    unfolding rest_def using Cons.prems by (intro Cons.IH) auto
  moreover have "selections n (selection_tokens s @ rest) = gbind (selection (selection_tokens s @ rest)) (\<lambda>sel ts1.
        if n + 1 > max_query_fields then Inl Too_Many_Fields
        else gbind (selections (n + 1) ts1) (\<lambda>sels ts2. Inr (sel # sels, ts2)))"
    using Cons.prems(2) selection_tokens_first [of s rest] by (subst selections.simps) simp
  ultimately show ?case using Cons.prems(3) by (simp add: rest_def)
qed

lemma selection_printed:
  "printable s \<Longrightarrow> ends_selection ts \<Longrightarrow> selection (selection_tokens s @ ts) = Inr (s, ts)"
proof (induction s arbitrary: ts)
  case (Field f kids)
  have k: "selections 0 (concat (map selection_tokens kids) @ punct_token (CHR ''}'') # ts) = Inr (kids, ts)"
    using Field.prems(1) by (intro selections_tokens Field.IH) (auto simp: list_all_iff)
  show ?case
  proof (cases "kids = []")
    case True
    with Field.prems show ?thesis
      by (subst selection.simps) (simp add: aliased_def skip_call_def ends_selection_def skip_directives_none)
  next
    case False
    with Field.prems k show ?thesis
      by (subst selection.simps) (simp add: aliased_def skip_call_def in_braces_def skip_directives_none selection_set.simps)
  qed
next
  case (Spread n)
  then show ?case
    by (subst selection.simps) (simp add: Let_def ends_selection_def skip_directives_none)
next
  case (Inline kids)
  have "selections 0 (concat (map selection_tokens kids) @ punct_token (CHR ''}'') # ts) = Inr (kids, ts)"
    using Inline.prems(1) by (intro selections_tokens Inline.IH) (auto simp: list_all_iff)
  then show ?case
    by (subst selection.simps) (simp add: Let_def in_braces_def skip_directives_none selection_set.simps)
qed

lemma selection_set_printed: "printable_set sels \<Longrightarrow> selection_set (set_tokens sels @ ts) = Inr (sels, ts)"
  by (simp add: selection_set.simps set_tokens_def in_braces_def printable_set_def selections_tokens selection_printed list_all_iff)

lemma type_printed:
  "type_names t \<Longrightarrow> \<not> at_text ''!'' ts \<Longrightarrow> type_ref (type_tokens t @ ts) = Inr (gql_type_text t, ts)"
proof (induction t arbitrary: ts)
  case (Named n req)
  then show ?case by (subst type_ref.simps) (simp add: required_tokens_def skip_text_def)
next
  case (List_Of t req)
  have "type_ref (type_tokens t @ punct_token (CHR '']'') # required_tokens req @ ts) =
      Inr (gql_type_text t, punct_token (CHR '']'') # required_tokens req @ ts)"
    using List_Of.prems by (intro List_Of.IH) auto
  with List_Of.prems show ?case
    by (subst type_ref.simps) (simp add: required_tokens_def skip_text_def)
qed

section \<open>Whole documents\<close>

record source_operation =
  so_type :: string
  so_name :: string
  so_variables :: "(string \<times> gql_type) list"
  so_selections :: "gql_selection list"

record gql_source =
  gs_operations :: "source_operation list"
  gs_fragments :: "(string \<times> gql_selection list) list"

definition variable_tokens :: "string \<times> gql_type \<Rightarrow> gql_token list" where
  "variable_tokens v = [punct_token (CHR ''$''), name_token (fst v), punct_token (CHR '':'')] @ type_tokens (snd v)"

definition operation_tokens :: "source_operation \<Rightarrow> gql_token list" where
  "operation_tokens op = name_token (so_type op) # (if so_name op = [] then [] else [name_token (so_name op)]) @
     (if so_variables op = [] then []
      else punct_token (CHR ''('') # concat (map variable_tokens (so_variables op)) @ [punct_token (CHR '')'')]) @
     set_tokens (so_selections op)"

definition fragment_tokens :: "string \<times> gql_selection list \<Rightarrow> gql_token list" where
  "fragment_tokens f = [name_token ''fragment'', name_token (fst f), name_token ''on'', name_token ''T''] @ set_tokens (snd f)"

definition source_tokens :: "gql_source \<Rightarrow> gql_token list" where
  "source_tokens d = concat (map operation_tokens (gs_operations d)) @ concat (map fragment_tokens (gs_fragments d))"

text \<open>Every token is followed by a space.\<close>

definition print_tokens :: "gql_token list \<Rightarrow> string" where
  "print_tokens ts = concat (map (\<lambda>t. gt_text t @ '' '') ts)"

definition print_source :: "gql_source \<Rightarrow> string" where
  "print_source d = print_tokens (source_tokens d)"

definition operation_of :: "source_operation \<Rightarrow> gql_operation_def" where
  "operation_of op = \<lparr>od_type = so_type op, od_name = so_name op,
     od_variables = map (\<lambda>v. (fst v, gql_type_text (snd v))) (so_variables op), od_selections = so_selections op\<rparr>"

definition document_of :: "gql_source \<Rightarrow> gql_document" where
  "document_of d = \<lparr>gd_operations = map operation_of (gs_operations d), gd_fragments = gs_fragments d\<rparr>"

definition printable_operation :: "source_operation \<Rightarrow> bool" where
  "printable_operation op \<longleftrightarrow> so_type op \<in> {''query'', ''mutation'', ''subscription''} \<and>
     (so_name op = [] \<or> gql_name (so_name op)) \<and> length (so_variables op) \<le> max_variables \<and>
     distinct (map fst (so_variables op)) \<and> list_all (\<lambda>v. gql_name (fst v) \<and> type_names (snd v)) (so_variables op) \<and>
     printable_set (so_selections op)"

definition printable_source :: "gql_source \<Rightarrow> bool" where
  "printable_source d \<longleftrightarrow> gs_operations d \<noteq> [] \<and> length (gs_operations d) \<le> max_operation_defs \<and>
     length (gs_fragments d) \<le> max_fragment_defs \<and> list_all printable_operation (gs_operations d) \<and>
     distinct (map fst (gs_fragments d)) \<and> list_all (\<lambda>f. gql_name (fst f) \<and> printable_set (snd f)) (gs_fragments d)"

lemma gm_put_new: "k \<notin> fst ` set m \<Longrightarrow> gm_put k v m = m @ [(k, v)]"
  by (induction m) auto

lemma variables_printed:
  assumes "distinct (map fst dst @ map fst vars)" and "length dst + length vars \<le> max_variables"
    and "list_all (\<lambda>v. gql_name (fst v) \<and> type_names (snd v)) vars"
  shows "variable_definitions dst (concat (map variable_tokens vars) @ punct_token (CHR '')'') # ts) =
    Inr (dst @ map (\<lambda>v. (fst v, gql_type_text (snd v))) vars, ts)"
  using assms
proof (induction vars arbitrary: dst)
  case Nil
  then show ?case by (subst variable_definitions.simps) simp
next
  case (Cons v vars)
  define rest where "rest = concat (map variable_tokens vars) @ punct_token (CHR '')'') # ts"
  have first: "\<not> at_text ''!'' rest" "\<not> at_text ''='' rest" "\<not> at_text ''@'' rest"
    by (cases vars; simp add: rest_def variable_tokens_def)+
  have t: "type_ref (type_tokens (snd v) @ rest) = Inr (gql_type_text (snd v), rest)"
    using Cons.prems(3) first(1) by (intro type_printed) auto
  have "gm_put (fst v) (gql_type_text (snd v)) dst = dst @ [(fst v, gql_type_text (snd v))]"
    using Cons.prems(1) by (intro gm_put_new) auto
  moreover have "variable_definitions (dst @ [(fst v, gql_type_text (snd v))]) rest =
      Inr ((dst @ [(fst v, gql_type_text (snd v))]) @ map (\<lambda>v. (fst v, gql_type_text (snd v))) vars, ts)"
    unfolding rest_def using Cons.prems by (intro Cons.IH) auto
  ultimately show ?case
    using Cons.prems(2) t first
    by (subst variable_definitions.simps)
      (simp add: variable_tokens_def [of v] rest_def [symmetric] skip_default_def skip_directives_none)
qed

lemma operation_printed:
  assumes "printable_operation op"
  shows "operation_def (so_type op) (tl (operation_tokens op) @ ts) = Inr (operation_of op, ts)"
proof -
  have s: "selection_set (set_tokens (so_selections op) @ ts) = Inr (so_selections op, ts)"
    using assms by (simp add: printable_operation_def selection_set_printed)
  have first: "\<not> at_kind Name_Token (set_tokens sels @ ts)" "\<not> at_text ''('' (set_tokens sels @ ts)"
    "\<not> at_text ''@'' (set_tokens sels @ ts)" for sels
    by (simp_all add: set_tokens_def in_braces_def)
  have v: "variable_definitions [] (concat (map variable_tokens (so_variables op)) @ punct_token (CHR '')'') # ts') =
      Inr (map (\<lambda>v. (fst v, gql_type_text (snd v))) (so_variables op), ts')" for ts'
    using assms variables_printed [of "[]" "so_variables op" ts'] by (simp add: printable_operation_def)
  have n: "so_name op \<noteq> ''(''" "so_name op \<noteq> ''@''" using assms by (auto simp: printable_operation_def)
  show ?thesis
    using s first v n
    by (simp add: operation_def_def operation_tokens_def optional_name_def optional_variables_def operation_of_def
        skip_directives_none)
qed

lemma fragment_printed:
  assumes "gql_name (fst f)" and "printable_set (snd f)" and "fst f \<notin> fst ` set fs"
  shows "fragment_def fs (tl (fragment_tokens f) @ ts) = Inr (f, ts)"
proof -
  have "\<not> at_text ''@'' (set_tokens (snd f) @ ts)" by (simp add: set_tokens_def in_braces_def)
  then show ?thesis
    using assms by (simp add: fragment_def_def fragment_tokens_def gm_has_iff skip_directives_none selection_set_printed)
qed

lemma keyword_texts: "t \<in> {''query'', ''mutation'', ''subscription''} \<Longrightarrow> t \<noteq> ''{'' \<and> t \<noteq> ''fragment''"
  by auto

lemma operations_printed:
  assumes "list_all printable_operation ops" and "length (gd_operations doc) + length ops \<le> max_operation_defs"
    and "length (gd_fragments doc) \<le> max_fragment_defs"
  shows "parse_definitions doc (concat (map operation_tokens ops) @ ts) =
    parse_definitions (doc\<lparr>gd_operations := gd_operations doc @ map operation_of ops\<rparr>) ts"
  using assms
proof (induction ops arbitrary: doc)
  case (Cons op ops)
  define rest where "rest = concat (map operation_tokens ops) @ ts"
  have op: "operation_def (so_type op) (tl (operation_tokens op) @ rest) = Inr (operation_of op, rest)"
    using Cons.prems(1) by (intro operation_printed) simp
  have kw: "so_type op \<in> {''query'', ''mutation'', ''subscription''}"
    using Cons.prems(1) by (simp add: printable_operation_def)
  have toks: "operation_tokens op @ rest = name_token (so_type op) # (tl (operation_tokens op) @ rest)"
    by (simp add: operation_tokens_def)
  have "parse_definitions doc (operation_tokens op @ rest) =
      parse_definitions (add_operation (operation_of op) doc) rest"
    using kw keyword_texts [OF kw] op Cons.prems(2,3) unfolding toks
    by (subst parse_definitions.simps) (simp add: Let_def definitions_ok_def add_operation_def)
  also have "\<dots> = parse_definitions (doc\<lparr>gd_operations := gd_operations doc @ map operation_of (op # ops)\<rparr>) ts"
    unfolding rest_def using Cons.prems by (subst Cons.IH) (auto simp: add_operation_def)
  finally show ?case by (simp add: rest_def)
qed simp

lemma fragments_printed:
  assumes "list_all (\<lambda>f. gql_name (fst f) \<and> printable_set (snd f)) fs"
    and "distinct (map fst (gd_fragments doc @ fs))" and "length (gd_fragments doc) + length fs \<le> max_fragment_defs"
    and "length (gd_operations doc) \<le> max_operation_defs"
  shows "parse_definitions doc (concat (map fragment_tokens fs) @ [eof_token]) =
    Inr (doc\<lparr>gd_fragments := gd_fragments doc @ fs\<rparr>)"
  using assms
proof (induction fs arbitrary: doc)
  case Nil
  then show ?case by (subst parse_definitions.simps) simp
next
  case (Cons f fs)
  define rest where "rest = concat (map fragment_tokens fs) @ [eof_token]"
  have new: "fst f \<notin> fst ` set (gd_fragments doc)" using Cons.prems(2) by auto
  have fr: "fragment_def (gd_fragments doc) (tl (fragment_tokens f) @ rest) = Inr (f, rest)"
    using Cons.prems(1) new by (intro fragment_printed) auto
  have toks: "fragment_tokens f @ rest = name_token ''fragment'' # (tl (fragment_tokens f) @ rest)"
    by (simp add: fragment_tokens_def)
  have "parse_definitions doc (fragment_tokens f @ rest) =
      parse_definitions (doc\<lparr>gd_fragments := gd_fragments doc @ [f]\<rparr>) rest"
    using fr Cons.prems(3,4) gm_put_new [OF new, of "snd f"] unfolding toks
    by (subst parse_definitions.simps) (simp add: Let_def definitions_ok_def)
  also have "\<dots> = Inr (doc\<lparr>gd_fragments := gd_fragments doc @ f # fs\<rparr>)"
    unfolding rest_def using Cons.prems by (subst Cons.IH) auto
  finally show ?case by (simp add: rest_def)
qed

lemma source_parsed:
  assumes "printable_source d"
  shows "parse_definitions \<lparr>gd_operations = [], gd_fragments = []\<rparr> (source_tokens d @ [eof_token]) = Inr (document_of d)"
  using assms
  by (simp add: source_tokens_def operations_printed printable_source_def fragments_printed document_of_def)

section \<open>Lexing what was printed\<close>

definition printed_token :: "gql_token \<Rightarrow> bool" where
  "printed_token t \<longleftrightarrow> t = spread_token \<or> (\<exists>c. gql_punct c \<and> t = punct_token c) \<or> (\<exists>n. gql_name n \<and> t = name_token n)"

lemma takeWhile_continue: "list_all gql_name_continue r \<Longrightarrow>
    takeWhile gql_name_continue (r @ CHR '' '' # s) = r \<and> dropWhile gql_name_continue (r @ CHR '' '' # s) = CHR '' '' # s"
  by (induction r) (simp_all add: gql_name_continue_def gql_name_start_def less_eq_char_def)

lemma name_start_char:
  "gql_name_start c \<Longrightarrow> \<not> gql_space c \<and> c \<noteq> CHR ''#'' \<and> c \<noteq> gql_quote \<and> c \<noteq> CHR ''.''"
  by (auto simp: gql_name_start_def gql_space_chars gql_quote_char less_eq_char_def)

lemma punct_char:
  "gql_punct c \<Longrightarrow> \<not> gql_space c \<and> c \<noteq> CHR ''#'' \<and> c \<noteq> gql_quote \<and> c \<noteq> CHR ''.'' \<and> \<not> gql_name_start c \<and> \<not> gql_number_start c"
  by (auto simp: gql_punct_def gql_name_start_def gql_number_start_def gql_space_chars gql_quote_char less_eq_char_def)

lemma lex_printed_token:
  assumes "printed_token t"
  shows "gt_text t \<noteq> [] \<and> \<not> gql_space (hd (gt_text t)) \<and> hd (gt_text t) \<noteq> CHR ''#'' \<and>
    lex_token pos (gt_text t @ CHR '' '' # s) = Inr (t, CHR '' '' # s)"
proof -
  consider "t = spread_token" | c where "gql_punct c" "t = punct_token c" | n where "gql_name n" "t = name_token n"
    using assms by (auto simp: printed_token_def)
  then show ?thesis
  proof cases
    case 1
    then show ?thesis by (simp add: lex_token_def gql_space_chars)
  next
    case (2 c)
    with punct_char [OF 2(1)] show ?thesis by (simp add: lex_token_def)
  next
    case (3 n)
    then obtain c r where n: "n = c # r" "gql_name_start c" "list_all gql_name_continue r"
      by (cases n) (auto simp: gql_name_def)
    with name_start_char [OF n(2)] takeWhile_continue [OF n(3), of s] 3(2) show ?thesis
      by (simp add: lex_token_def)
  qed
qed

lemma lex_printed:
  assumes "list_all printed_token ts" and "n + length ts \<le> maxt"
  shows "lex_from maxt n pos (print_tokens ts) = Inr (ts @ [eof_token])"
  using assms
proof (induction ts arbitrary: n pos)
  case Nil
  then show ?case by (subst lex_from.simps) (simp add: print_tokens_def)
next
  case (Cons t ts)
  have t: "gt_text t \<noteq> []" "\<not> gql_space (hd (gt_text t))" "hd (gt_text t) \<noteq> CHR ''#''"
    "lex_token pos (gt_text t @ CHR '' '' # print_tokens ts) = Inr (t, CHR '' '' # print_tokens ts)"
    using lex_printed_token [of t pos "print_tokens ts"] Cons.prems by auto
  have sp: "lex_from maxt (n + 1) pos' (CHR '' '' # print_tokens ts) = Inr (ts @ [eof_token])" for pos'
    using Cons.prems by (subst lex_from.simps) (simp add: gql_space_chars Cons.IH)
  have "print_tokens (t # ts) = gt_text t @ CHR '' '' # print_tokens ts" by (simp add: print_tokens_def)
  then show ?case
    using t sp Cons.prems(2) by (subst lex_from.simps) simp
qed

lemma printed_simps [simp]: "printed_token spread_token" "gql_name n \<Longrightarrow> printed_token (name_token n)"
    "gql_punct c \<Longrightarrow> printed_token (punct_token c)"
  by (auto simp: printed_token_def)

lemma punct_simps [simp]: "gql_punct (CHR ''!'')" "gql_punct (CHR ''$'')" "gql_punct (CHR ''('')" "gql_punct (CHR '')'')"
    "gql_punct (CHR '':'')" "gql_punct (CHR ''['')" "gql_punct (CHR '']'')" "gql_punct (CHR ''{'')" "gql_punct (CHR ''}'')"
  by (simp_all add: gql_punct_def)

lemma keyword_names [simp]: "gql_name ''on''" "gql_name ''T''" "gql_name ''query''" "gql_name ''mutation''"
    "gql_name ''subscription''" "gql_name ''fragment''"
  by (simp_all add: gql_name_def gql_name_start_def gql_name_continue_def less_eq_char_def)

lemma type_tokens_printed: "type_names t \<Longrightarrow> list_all printed_token (type_tokens t)"
  by (induction t) (simp_all add: required_tokens_def)

lemma selection_tokens_printed: "printable s \<Longrightarrow> list_all printed_token (selection_tokens s)"
  by (induction s) (auto simp: in_braces_def list_all_iff)

lemma set_tokens_printed: "printable_set sels \<Longrightarrow> list_all printed_token (set_tokens sels)"
  using selection_tokens_printed by (auto simp: set_tokens_def in_braces_def printable_set_def list_all_iff)

lemma operation_tokens_printed: "printable_operation op \<Longrightarrow> list_all printed_token (operation_tokens op)"
  using set_tokens_printed [of "so_selections op"] type_tokens_printed
  by (auto simp: printable_operation_def operation_tokens_def variable_tokens_def list_all_iff)

lemma source_tokens_printed: "printable_source d \<Longrightarrow> list_all printed_token (source_tokens d)"
  using operation_tokens_printed set_tokens_printed
  by (fastforce simp: printable_source_def source_tokens_def fragment_tokens_def list_all_iff)

lemma source_tokens_nonempty: "printable_source d \<Longrightarrow> source_tokens d \<noteq> []"
  by (cases "gs_operations d") (auto simp: printable_source_def source_tokens_def operation_tokens_def)

lemma source_read_back:
  assumes "printable_source d" and "length (print_source d) \<le> 65536" and "length (source_tokens d) \<le> 8192"
  shows "parse_document (print_source d) = Inr (document_of d)"
proof -
  have "print_source d \<noteq> []"
    using source_tokens_nonempty [OF assms(1)] by (cases "source_tokens d") (simp_all add: print_source_def print_tokens_def)
  moreover have "lex_from max_query_tokens 0 0 (print_source d) = Inr (source_tokens d @ [eof_token])"
    unfolding print_source_def
    using lex_printed [OF source_tokens_printed [OF assms(1)]] assms(3) by (simp add: max_query_tokens_def)
  ultimately have "lex_graphql (print_source d) = Inr (source_tokens d @ [eof_token])"
    using assms(2) by (simp add: lex_graphql_def lex_bounded_def max_query_bytes_def)
  moreover have "gd_operations (document_of d) \<noteq> []"
    using assms(1) by (simp add: printable_source_def document_of_def)
  ultimately show ?thesis by (simp add: parse_document_def source_parsed [OF assms(1)])
qed

text \<open>C25: Lexer and parser together read back every document from its text: operations with their names and
  typed variables, fields, spreads and inline fragments, and fragment definitions, as long as the text is
  within 64 KiB and 8192 tokens. (The text is what \<open>print_source\<close> writes, one space after
  each token.)\<close>

theorem graphql_roundtrip:
  assumes "printable_source d" and "length (print_source d) \<le> 65536" and "length (source_tokens d) \<le> 8192"
  shows "parse_document (print_source d) = Inr (document_of d)"
  using assms by (rule source_read_back)

text \<open>\<^verbatim>\<open>query Q ( $ id : [ ID ! ] ) { user { ... F name } } fragment F on T { email }\<close>\<close>

definition sample_source :: gql_source where
  "sample_source = \<lparr>gs_operations = [\<lparr>so_type = ''query'', so_name = ''Q'',
       so_variables = [(''id'', List_Of (Named ''ID'' True) False)],
       so_selections = [Field ''user'' [Spread ''F'', Field ''name'' []]]\<rparr>],
     gs_fragments = [(''F'', [Field ''email'' []])]\<rparr>"

lemma sample_names: "gql_name ''Q''" "gql_name ''id''" "gql_name ''ID''" "gql_name ''user''" "gql_name ''F''" "gql_name ''name''"
    "gql_name ''email''"
  by (simp_all add: gql_name_def gql_name_start_def gql_name_continue_def less_eq_char_def)

lemma sample_source_printable: "printable_source sample_source"
  by (simp add: sample_source_def printable_source_def printable_operation_def printable_set_def sample_names
      max_query_fields_def max_variables_def max_operation_defs_def max_fragment_defs_def)

lemma sample_source_short: "length (print_source sample_source) \<le> 65536" "length (source_tokens sample_source) \<le> 8192"
  by (simp_all add: sample_source_def print_source_def print_tokens_def source_tokens_def operation_tokens_def variable_tokens_def
      required_tokens_def fragment_tokens_def set_tokens_def in_braces_def)

theorem graphql_roundtrip_witness:
  "parse_document (print_source sample_source) = Inr (document_of sample_source)"
  by (rule graphql_roundtrip [OF sample_source_printable sample_source_short])

end
