(* ===== verification/Graphql_Analysis.thy ===== *)
theory Graphql_Analysis
  imports Graphql_Print
begin

text \<open>
  \<^verbatim>\<open>analyzeGraphQLDocument\<close>: the walk over the selections of an operation that counts its
  fields, follows its fragments and refuses what is too deep, too large or cyclic. What the
  policies see of a request is this analysis, so it is related to an independent definition of
  where a field occurs in a document.

  \<open>gql_env\<close> holds SHA-256 in hexadecimal, whole and cut to 16 bytes.
\<close>

section \<open>The walk\<close>

record gql_env =
  ge_sha256 :: "string \<Rightarrow> string"
  ge_hash16 :: "string \<Rightarrow> string"

definition absolute_max_depth :: nat where "absolute_max_depth = 64"
definition absolute_max_complexity :: nat where "absolute_max_complexity = 10000"

type_synonym gql_fragments = "(string, gql_selection list) gomap"

record walk_state =
  ws_complexity :: nat
  ws_fields :: "string list"
  ws_max_depth :: nat
  ws_introspection :: bool

definition field_path :: "string \<Rightarrow> string \<Rightarrow> string" where
  "field_path prefix f = prefix @ ''.'' @ f"

text \<open>A field is met at a depth.\<close>

definition enter_field :: "string \<Rightarrow> nat \<Rightarrow> string \<Rightarrow> walk_state \<Rightarrow> gql_error + walk_state" where
  "enter_field prefix depth f st =
     (let n = ws_complexity st + 1; path = field_path prefix f in
      if n > absolute_max_complexity then Inl Too_Complex
      else if path \<notin> set (ws_fields st) \<and> length (ws_fields st) \<ge> max_query_fields then Inl Too_Many_Fields
      else Inr \<lparr>ws_complexity = n,
        ws_fields = (if path \<in> set (ws_fields st) then ws_fields st else ws_fields st @ [path]),
        ws_max_depth = max depth (ws_max_depth st),
        ws_introspection = (ws_introspection st \<or> f = ''__schema'' \<or> f = ''__type'')\<rparr>)"

lemma unvisited_less:
  fixes fr :: "('k, 'v) gomap"
  assumes "n \<notin> set stack" and "gm_get fr n = Some sels"
  shows "card (fst ` set fr - insert n (set stack)) < card (fst ` set fr - set stack)"
proof -
  have "n \<in> fst ` set fr - set stack" using assms by (force dest: map_of_SomeD)
  then have "card (fst ` set fr - set stack - {n}) < card (fst ` set fr - set stack)"
    by (intro card_Diff1_less) auto
  moreover have "fst ` set fr - set stack - {n} = fst ` set fr - insert n (set stack)" by auto
  ultimately show ?thesis by simp
qed

text \<open>The code checks the depth once for the list; the depth of its elements is the same.\<close>

function walk :: "gql_fragments \<Rightarrow> string \<Rightarrow> nat \<Rightarrow> string list \<Rightarrow> gql_selection list \<Rightarrow> walk_state \<Rightarrow>
    gql_error + walk_state" where
  "walk fr prefix depth stack [] st = (if depth > absolute_max_depth then Inl Too_Deep else Inr st)"
| "walk fr prefix depth stack (sel # rest) st =
     (if depth > absolute_max_depth then Inl Too_Deep
      else
        (case (case sel of
            Spread n \<Rightarrow>
              if n \<in> set stack then Inl Cyclic_Fragment
              else (case gm_get fr n of
                  None \<Rightarrow> Inl Unknown_Fragment
                | Some sels \<Rightarrow> walk fr prefix depth (n # stack) sels st)
          | Inline kids \<Rightarrow> walk fr prefix depth stack kids st
          | Field f kids \<Rightarrow>
              (case enter_field prefix depth f st of
                 Inl e \<Rightarrow> Inl e
               | Inr st1 \<Rightarrow> if kids = [] then Inr st1 else walk fr (field_path prefix f) (depth + 1) stack kids st1))
         of Inl e \<Rightarrow> Inl e | Inr st1 \<Rightarrow> walk fr prefix depth stack rest st1))"
  by pat_completeness auto
termination
proof (relation "inv_image (less_than <*lex*> less_than)
    (\<lambda>(fr, prefix, depth, stack, sels, st). (card (fst ` set fr - set stack), size_list size sels))")
  show "wf (inv_image (less_than <*lex*> less_than) (\<lambda>(fr :: gql_fragments, prefix :: string, depth :: nat, stack :: string list,
      sels :: gql_selection list, st :: walk_state). (card (fst ` set fr - set stack), size_list size sels)))"
    by auto
qed (auto simp: unvisited_less split: gql_selection.splits)

declare walk.simps [simp del]

section \<open>The analysis\<close>

record graphql_analysis =
  ga_type :: string
  ga_name :: string
  ga_fingerprint :: string
  ga_depth :: nat
  ga_complexity :: nat
  ga_fields :: "string list"
  ga_variables :: gql_variables
  ga_introspection :: bool

definition choose_operation :: "gql_operation_def list \<Rightarrow> string \<Rightarrow> gql_error + gql_operation_def" where
  "choose_operation ops name =
     (if name \<noteq> [] then (case find (\<lambda>op. od_name op = name) ops of None \<Rightarrow> Inl Operation_Not_Found | Some op \<Rightarrow> Inr op)
      else (case ops of [op] \<Rightarrow> Inr op | _ \<Rightarrow> Inl Operation_Name_Required))"

definition sort_strings :: "string list \<Rightarrow> string list" where
  "sort_strings = sort_by (\<lambda>a b. a < b)"

definition start_walk :: walk_state where
  "start_walk = \<lparr>ws_complexity = 0, ws_fields = [], ws_max_depth = 0, ws_introspection = False\<rparr>"

definition fingerprint :: "gql_env \<Rightarrow> string \<Rightarrow> string \<Rightarrow> nat \<Rightarrow> nat \<Rightarrow> string list \<Rightarrow> string" where
  "fingerprint env ty name depth complexity fs =
     ge_sha256 env (join_nul [ty, name, decimal_of depth, decimal_of complexity, join_with [byte 31] fs])"

definition analyze_operation :: "gql_env \<Rightarrow> gql_document \<Rightarrow> gql_operation_def \<Rightarrow> gql_error + graphql_analysis" where
  "analyze_operation env doc op =
     (case walk (gd_fragments doc) (od_type op) 1 [] (od_selections op) start_walk of
        Inl e \<Rightarrow> Inl e
      | Inr st \<Rightarrow>
          let fs = sort_strings (ws_fields st) in
          Inr \<lparr>ga_type = od_type op, ga_name = od_name op,
            ga_fingerprint = fingerprint env (od_type op) (od_name op) (ws_max_depth st) (ws_complexity st) fs,
            ga_depth = ws_max_depth st, ga_complexity = ws_complexity st, ga_fields = fs,
            ga_variables = od_variables op, ga_introspection = ws_introspection st\<rparr>)"

definition analyze_document :: "gql_env \<Rightarrow> string \<Rightarrow> string \<Rightarrow> gql_error + graphql_analysis" where
  "analyze_document env src name =
     (case parse_document src of
        Inl e \<Rightarrow> Inl e
      | Inr doc \<Rightarrow>
          (case choose_operation (gd_operations doc) name of
             Inl e \<Rightarrow> Inl e
           | Inr op \<Rightarrow> analyze_operation env doc op))"

section \<open>Where a field occurs\<close>

text \<open>\<open>occurs_in fr sels p\<close>: following the names \<open>p\<close> through the selections, into
  inline fragments and through spreads, one comes to a field. It knows nothing of depths, limits
  or the order of the walk.\<close>

inductive occurs_in :: "gql_fragments \<Rightarrow> gql_selection list \<Rightarrow> string list \<Rightarrow> bool" for fr where
  here: "Field f kids \<in> set sels \<Longrightarrow> occurs_in fr sels [f]"
| child: "Field f kids \<in> set sels \<Longrightarrow> occurs_in fr kids p \<Longrightarrow> occurs_in fr sels (f # p)"
| inlined: "Inline kids \<in> set sels \<Longrightarrow> occurs_in fr kids p \<Longrightarrow> occurs_in fr sels p"
| spread: "Spread n \<in> set sels \<Longrightarrow> gm_get fr n = Some kids \<Longrightarrow> occurs_in fr kids p \<Longrightarrow> occurs_in fr sels p"

lemma occurs_Nil [simp]: "\<not> occurs_in fr [] p"
proof
  assume "occurs_in fr [] p" then show False by (induction "[] :: gql_selection list" p rule: occurs_in.induct) auto
qed

lemma occurs_nonempty: "occurs_in fr sels p \<Longrightarrow> p \<noteq> []"
  by (induction rule: occurs_in.induct) auto

lemma occurs_mono: "occurs_in fr sels p \<Longrightarrow> set sels \<subseteq> set sels' \<Longrightarrow> occurs_in fr sels' p"
  by (cases rule: occurs_in.cases) (auto intro: occurs_in.intros)

text \<open>The occurrences from a list, by its first selection.\<close>

definition occurs_from :: "gql_fragments \<Rightarrow> gql_selection \<Rightarrow> string list \<Rightarrow> bool" where
  "occurs_from fr sel p \<longleftrightarrow> (case sel of
      Field f kids \<Rightarrow> p = [f] \<or> (\<exists>q. p = f # q \<and> occurs_in fr kids q)
    | Inline kids \<Rightarrow> occurs_in fr kids p
    | Spread n \<Rightarrow> (\<exists>kids. gm_get fr n = Some kids \<and> occurs_in fr kids p))"

lemma occurs_iff: "occurs_in fr sels p \<longleftrightarrow> (\<exists>sel \<in> set sels. occurs_from fr sel p)"
proof
  assume "occurs_in fr sels p"
  then show "\<exists>sel \<in> set sels. occurs_from fr sel p"
    by (cases rule: occurs_in.cases) (force simp: occurs_from_def)+
next
  assume "\<exists>sel \<in> set sels. occurs_from fr sel p"
  then obtain sel where "sel \<in> set sels" "occurs_from fr sel p" by blast
  then show "occurs_in fr sels p"
    by (cases sel rule: gql_selection.exhaust) (auto simp: occurs_from_def intro: occurs_in.intros)
qed

lemma occurs_Field:
  "occurs_in fr (Field f kids # rest) p \<longleftrightarrow> p = [f] \<or> (\<exists>q. p = f # q \<and> occurs_in fr kids q) \<or> occurs_in fr rest p"
  by (subst (1 3) occurs_iff) (auto simp: occurs_from_def)

lemma occurs_Inline: "occurs_in fr (Inline kids # rest) p \<longleftrightarrow> occurs_in fr kids p \<or> occurs_in fr rest p"
  by (subst (1 3) occurs_iff) (auto simp: occurs_from_def)

lemma occurs_Spread:
  "occurs_in fr (Spread n # rest) p \<longleftrightarrow> (\<exists>kids. gm_get fr n = Some kids \<and> occurs_in fr kids p) \<or> occurs_in fr rest p"
  by (subst (1 3) occurs_iff) (auto simp: occurs_from_def)

lemmas occurs_simps = occurs_Field occurs_Inline occurs_Spread

text \<open>The path of a field, as the code writes it.\<close>

definition dotted :: "string \<Rightarrow> string list \<Rightarrow> string" where
  "dotted prefix p = foldl field_path prefix p"

lemma dotted_simps [simp]: "dotted prefix [] = prefix" "dotted prefix (f # p) = dotted (field_path prefix f) p"
  by (simp_all add: dotted_def)

section \<open>What the walk finds\<close>

text \<open>Induction over a walk that succeeds.\<close>

lemma walk_success [consumes 1, case_names Nil Spread Inline Leaf Field]:
  assumes "walk fr prefix depth stack sels st = Inr st'"
    and nil: "\<And>prefix depth stack st. depth \<le> absolute_max_depth \<Longrightarrow> P prefix depth stack [] st st"
    and spread: "\<And>prefix depth stack n sels rest st st1 st'. depth \<le> absolute_max_depth \<Longrightarrow> n \<notin> set stack \<Longrightarrow>
      gm_get fr n = Some sels \<Longrightarrow> walk fr prefix depth (n # stack) sels st = Inr st1 \<Longrightarrow>
      P prefix depth (n # stack) sels st st1 \<Longrightarrow> walk fr prefix depth stack rest st1 = Inr st' \<Longrightarrow>
      P prefix depth stack rest st1 st' \<Longrightarrow> P prefix depth stack (Spread n # rest) st st'"
    and inline: "\<And>prefix depth stack kids rest st st1 st'. depth \<le> absolute_max_depth \<Longrightarrow>
      walk fr prefix depth stack kids st = Inr st1 \<Longrightarrow> P prefix depth stack kids st st1 \<Longrightarrow>
      walk fr prefix depth stack rest st1 = Inr st' \<Longrightarrow> P prefix depth stack rest st1 st' \<Longrightarrow>
      P prefix depth stack (Inline kids # rest) st st'"
    and leaf: "\<And>prefix depth stack f rest st st1 st'. depth \<le> absolute_max_depth \<Longrightarrow>
      enter_field prefix depth f st = Inr st1 \<Longrightarrow> walk fr prefix depth stack rest st1 = Inr st' \<Longrightarrow>
      P prefix depth stack rest st1 st' \<Longrightarrow> P prefix depth stack (Field f [] # rest) st st'"
    and field: "\<And>prefix depth stack f kids rest st st0 st1 st'. depth \<le> absolute_max_depth \<Longrightarrow> kids \<noteq> [] \<Longrightarrow>
      enter_field prefix depth f st = Inr st0 \<Longrightarrow> walk fr (field_path prefix f) (depth + 1) stack kids st0 = Inr st1 \<Longrightarrow>
      P (field_path prefix f) (depth + 1) stack kids st0 st1 \<Longrightarrow> walk fr prefix depth stack rest st1 = Inr st' \<Longrightarrow>
      P prefix depth stack rest st1 st' \<Longrightarrow> P prefix depth stack (Field f kids # rest) st st'"
  shows "P prefix depth stack sels st st'"
proof -
  have "fr' = fr \<Longrightarrow> walk fr' prefix depth stack sels st = Inr st' \<Longrightarrow> P prefix depth stack sels st st'" for fr' st'
  proof (induction fr' prefix depth stack sels st arbitrary: st' rule: walk.induct)
    case (1 fr' prefix depth stack st)
    then show ?case by (auto simp: walk.simps intro: nil split: if_splits)
  next
    case (2 fr' prefix depth stack sel rest st)
    have d: "depth \<le> absolute_max_depth" using "2.prems"(2) by (auto simp: walk.simps split: if_splits)
    then have nd: "\<not> absolute_max_depth < depth" by simp
    show ?case
    proof (cases sel)
      case (Spread n)
      with "2.prems" nd obtain sels st1 where *: "n \<notin> set stack" "gm_get fr' n = Some sels"
        "walk fr' prefix depth (n # stack) sels st = Inr st1" "walk fr' prefix depth stack rest st1 = Inr st'"
        by (auto simp: walk.simps split: if_splits option.splits sum.splits)
      have "P prefix depth (n # stack) sels st st1" using "2.IH"(2) [OF nd Spread *(1,2) "2.prems"(1) *(3)] .
      moreover have "P prefix depth stack rest st1 st'"
        using "2.IH"(4) [OF nd _ "2.prems"(1) *(4)] * Spread by simp
      ultimately show ?thesis unfolding Spread using * "2.prems"(1) d by (auto intro: spread)
    next
      case (Inline kids)
      with "2.prems" nd obtain st1 where *: "walk fr' prefix depth stack kids st = Inr st1"
        "walk fr' prefix depth stack rest st1 = Inr st'"
        by (auto simp: walk.simps split: sum.splits)
      have "P prefix depth stack kids st st1" using "2.IH"(3) [OF nd Inline "2.prems"(1) *(1)] .
      moreover have "P prefix depth stack rest st1 st'"
        using "2.IH"(4) [OF nd _ "2.prems"(1) *(2)] * Inline by simp
      ultimately show ?thesis unfolding Inline using * "2.prems"(1) d by (auto intro: inline)
    next
      case (Field f kids)
      with "2.prems" nd obtain st0 st1 where e: "enter_field prefix depth f st = Inr st0"
        and k: "(if kids = [] then Inr st0 else walk fr' (field_path prefix f) (depth + 1) stack kids st0) = Inr st1"
        and r: "walk fr' prefix depth stack rest st1 = Inr st'"
        by (auto simp: walk.simps split: sum.splits)
      have pr: "P prefix depth stack rest st1 st'"
        using "2.IH"(4) [OF nd _ "2.prems"(1) r] e k Field by simp
      show ?thesis
      proof (cases "kids = []")
        case True
        with k e r pr d "2.prems"(1) show ?thesis unfolding Field by (auto intro: leaf)
      next
        case False
        with k have w: "walk fr' (field_path prefix f) (depth + 1) stack kids st0 = Inr st1" by simp
        have "P (field_path prefix f) (depth + 1) stack kids st0 st1"
          using "2.IH"(1) [OF nd Field e False "2.prems"(1) w] .
        with w e r pr d False "2.prems"(1) show ?thesis unfolding Field by (auto intro: field)
      qed
    qed
  qed
  with assms(1) show ?thesis by simp
qed

definition paths_of :: "gql_fragments \<Rightarrow> string \<Rightarrow> gql_selection list \<Rightarrow> string set" where
  "paths_of fr prefix sels = dotted prefix ` {p. occurs_in fr sels p}"

lemma paths_of_simps:
  "paths_of fr prefix [] = {}"
  "paths_of fr prefix (Field f kids # rest) =
     insert (field_path prefix f) (paths_of fr (field_path prefix f) kids \<union> paths_of fr prefix rest)"
  "paths_of fr prefix (Inline kids # rest) = paths_of fr prefix kids \<union> paths_of fr prefix rest"
  "gm_get fr n = Some kids \<Longrightarrow> paths_of fr prefix (Spread n # rest) = paths_of fr prefix kids \<union> paths_of fr prefix rest"
proof -
  have "{p. occurs_in fr (Field f kids # rest) p} =
      insert [f] ((#) f ` {p. occurs_in fr kids p} \<union> {p. occurs_in fr rest p})"
    by (auto simp: occurs_Field)
  then show "paths_of fr prefix (Field f kids # rest) =
     insert (field_path prefix f) (paths_of fr (field_path prefix f) kids \<union> paths_of fr prefix rest)"
    by (simp add: paths_of_def image_Un image_image)
  show "paths_of fr prefix (Inline kids # rest) = paths_of fr prefix kids \<union> paths_of fr prefix rest"
    by (auto simp: paths_of_def occurs_Inline)
  show "gm_get fr n = Some kids \<Longrightarrow> paths_of fr prefix (Spread n # rest) = paths_of fr prefix kids \<union> paths_of fr prefix rest"
    by (auto simp: paths_of_def occurs_Spread)
qed (simp add: paths_of_def)

lemma enter_field_fields:
  "enter_field prefix depth f st = Inr st' \<Longrightarrow> set (ws_fields st') = insert (field_path prefix f) (set (ws_fields st))"
  by (auto simp: enter_field_def Let_def split: if_splits)

lemma walk_fields:
  assumes "walk fr prefix depth stack sels st = Inr st'"
  shows "set (ws_fields st') = set (ws_fields st) \<union> paths_of fr prefix sels"
  using assms by (induction rule: walk_success) (simp_all add: paths_of_simps enter_field_fields Un_ac)

text \<open>The depths reached: a field found by a path of \<open>n\<close> names from a list at depth \<open>d\<close> is
  at depth \<open>d + n - 1\<close>, and with it come all smaller depths.\<close>

definition depths_of :: "gql_fragments \<Rightarrow> nat \<Rightarrow> gql_selection list \<Rightarrow> nat set" where
  "depths_of fr depth sels = {d. \<exists>p. occurs_in fr sels p \<and> d < depth + length p}"

lemma depths_of_simps:
  "depths_of fr depth [] = {}"
  "depths_of fr depth (Field f kids # rest) =
     {..depth} \<union> depths_of fr (depth + 1) kids \<union> depths_of fr depth rest"
  "depths_of fr depth (Inline kids # rest) = depths_of fr depth kids \<union> depths_of fr depth rest"
  "gm_get fr n = Some kids \<Longrightarrow> depths_of fr depth (Spread n # rest) = depths_of fr depth kids \<union> depths_of fr depth rest"
  by (auto simp: depths_of_def occurs_simps)

lemma walk_depths:
  assumes "walk fr prefix depth stack sels st = Inr st'"
  shows "{..ws_max_depth st'} = {..ws_max_depth st} \<union> depths_of fr depth sels"
proof -
  have e: "{..ws_max_depth st'} = {..depth} \<union> {..ws_max_depth st}" if "enter_field prefix depth f st = Inr st'"
    for prefix depth f st st'
    using that by (auto simp: enter_field_def Let_def split: if_splits)
  show ?thesis
    using assms by (induction rule: walk_success) (simp_all add: depths_of_simps e Un_ac)
qed

definition introspective :: "string \<Rightarrow> bool" where
  "introspective f \<longleftrightarrow> f = ''__schema'' \<or> f = ''__type''"

definition introspects :: "gql_fragments \<Rightarrow> gql_selection list \<Rightarrow> bool" where
  "introspects fr sels \<longleftrightarrow> (\<exists>p. occurs_in fr sels p \<and> introspective (last p))"

lemma introspects_simps:
  "\<not> introspects fr []"
  "introspects fr (Field f kids # rest) \<longleftrightarrow> introspective f \<or> introspects fr kids \<or> introspects fr rest"
  "introspects fr (Inline kids # rest) \<longleftrightarrow> introspects fr kids \<or> introspects fr rest"
  "gm_get fr n = Some kids \<Longrightarrow> introspects fr (Spread n # rest) \<longleftrightarrow> introspects fr kids \<or> introspects fr rest"
proof -
  have "\<exists>p. p = f # q \<and> last p = last q" if "occurs_in fr kids q" for q
    using occurs_nonempty [OF that] by simp
  then show "introspects fr (Field f kids # rest) \<longleftrightarrow> introspective f \<or> introspects fr kids \<or> introspects fr rest"
    unfolding introspects_def occurs_Field by (metis last.simps)
qed (auto simp: introspects_def occurs_simps)

lemma walk_introspection:
  assumes "walk fr prefix depth stack sels st = Inr st'"
  shows "ws_introspection st' \<longleftrightarrow> ws_introspection st \<or> introspects fr sels"
proof -
  have e: "ws_introspection st' \<longleftrightarrow> ws_introspection st \<or> introspective f" if "enter_field prefix depth f st = Inr st'"
    for prefix depth f st st'
    using that by (auto simp: enter_field_def Let_def introspective_def split: if_splits)
  show ?thesis
    using assms by (induction rule: walk_success) (auto simp: introspects_simps e)
qed

definition walk_ok :: "walk_state \<Rightarrow> bool" where
  "walk_ok st \<longleftrightarrow> ws_complexity st \<le> absolute_max_complexity \<and> length (ws_fields st) \<le> max_query_fields \<and>
     length (ws_fields st) \<le> ws_complexity st \<and> ws_max_depth st \<le> absolute_max_depth \<and> distinct (ws_fields st)"

lemma walk_keeps_ok:
  assumes "walk fr prefix depth stack sels st = Inr st'" and "walk_ok st"
  shows "walk_ok st'"
proof -
  have e: "walk_ok st'" if "enter_field prefix depth f st = Inr st'" "depth \<le> absolute_max_depth" "walk_ok st"
    for prefix depth f st st'
    using that by (auto simp: enter_field_def Let_def walk_ok_def split: if_splits)
  show ?thesis
    using assms by (induction rule: walk_success) (auto dest: e)
qed

lemma sorted_sort_strings: "sorted (sort_strings xs)"
  using sort_by_key_sorted [of "\<lambda>s. s" xs] by (simp add: sort_strings_def)

lemma sort_strings_simps [simp]: "set (sort_strings xs) = set xs" "distinct (sort_strings xs) = distinct xs"
    "length (sort_strings xs) = length xs"
  by (simp_all add: sort_strings_def)


section \<open>What the analysis says\<close>

lemma analyze_operation_walk:
  assumes "analyze_operation env doc op = Inr a"
  obtains st where "walk (gd_fragments doc) (od_type op) 1 [] (od_selections op) start_walk = Inr st" and "walk_ok st"
    and "ga_fields a = sort_strings (ws_fields st)" and "ga_depth a = ws_max_depth st"
    and "ga_complexity a = ws_complexity st" and "ga_introspection a = ws_introspection st" and "ga_type a = od_type op"
    and "ga_name a = od_name op"
proof -
  have start: "walk_ok start_walk" by (simp add: walk_ok_def start_walk_def)
  from assms obtain st where w: "walk (gd_fragments doc) (od_type op) 1 [] (od_selections op) start_walk = Inr st"
    by (auto simp: analyze_operation_def split: sum.splits)
  show thesis
    using that [OF w walk_keeps_ok [OF w start]] assms w by (auto simp: analyze_operation_def Let_def)
qed

text \<open>C26: The analysis tells of an operation what is in it: its fields are, in order and once each, the
  dotted paths of the fields that occur in its selections, however they are reached through
  fragments and aliases; its depth is that of the deepest; it introspects if one of them is
  \<open>__schema\<close> or \<open>__type\<close>.\<close>

theorem analysis_faithful:
  assumes "analyze_operation env doc op = Inr a"
  shows "sorted (ga_fields a) \<and> distinct (ga_fields a) \<and>
    set (ga_fields a) = {dotted (od_type op) p |p. occurs_in (gd_fragments doc) (od_selections op) p} \<and>
    (\<forall>n>0. n \<le> ga_depth a \<longleftrightarrow> (\<exists>p. occurs_in (gd_fragments doc) (od_selections op) p \<and> n \<le> length p)) \<and>
    (ga_introspection a \<longleftrightarrow>
      (\<exists>p. occurs_in (gd_fragments doc) (od_selections op) p \<and> last p \<in> {''__schema'', ''__type''}))"
proof -
  from assms obtain st where w: "walk (gd_fragments doc) (od_type op) 1 [] (od_selections op) start_walk = Inr st"
    and ok: "walk_ok st" and a: "ga_fields a = sort_strings (ws_fields st)" "ga_depth a = ws_max_depth st"
      "ga_introspection a = ws_introspection st" by (rule analyze_operation_walk)
  have fs: "set (ws_fields st) = paths_of (gd_fragments doc) (od_type op) (od_selections op)"
    using walk_fields [OF w] by (simp add: start_walk_def)
  have "n \<le> ws_max_depth st \<longleftrightarrow> (\<exists>p. occurs_in (gd_fragments doc) (od_selections op) p \<and> n \<le> length p)" if "0 < n" for n
  proof -
    have "n \<in> {..ws_max_depth st} \<longleftrightarrow> n \<in> depths_of (gd_fragments doc) 1 (od_selections op)"
      unfolding walk_depths [OF w] using that by (simp add: start_walk_def)
    then show ?thesis by (simp add: depths_of_def less_Suc_eq_le)
  qed
  moreover have "ws_introspection st \<longleftrightarrow>
      (\<exists>p. occurs_in (gd_fragments doc) (od_selections op) p \<and> last p \<in> {''__schema'', ''__type''})"
    using walk_introspection [OF w] by (simp add: start_walk_def introspects_def introspective_def)
  ultimately show ?thesis
    using fs ok a sorted_sort_strings by (auto simp: walk_ok_def paths_of_def)
qed

lemma parse_definitions_types:
  assumes "parse_definitions doc ts = Inr doc'" and "od_type ` set (gd_operations doc) \<subseteq> T"
    and "{''query'', ''mutation'', ''subscription''} \<subseteq> T"
  shows "od_type ` set (gd_operations doc') \<subseteq> T"
  using assms(1,2)
proof (induction doc ts rule: parse_definitions.induct)
  case (1 doc ts)
  have op: "od_type op = kw" if "operation_def kw ts1 = Inr (op, ts2)" for kw ts1 op ts2
    using that by (auto simp: operation_def_def gbind_eq_Inr)
  from "1.prems"(1) consider (eof) "at_kind Eof_Token ts" "doc' = doc"
    | (anon) sels ts1 where "\<not> at_kind Eof_Token ts" "at_text ''{'' ts" "selection_set ts = Inr (sels, ts1)"
        "parse_definitions (add_operation \<lparr>od_type = ''query'', od_name = [], od_variables = [], od_selections = sels\<rparr> doc) ts1 =
          Inr doc'"
    | (op) kw ts1 opd ts2 where "\<not> at_kind Eof_Token ts" "\<not> at_text ''{'' ts" "p_name ts = Inr (kw, ts1)"
        "kw = ''query'' \<or> kw = ''mutation'' \<or> kw = ''subscription''" "operation_def kw ts1 = Inr (opd, ts2)"
        "definitions_ok (add_operation opd doc)" "parse_definitions (add_operation opd doc) ts2 = Inr doc'"
    | (frag) kw ts1 f ts2 where "\<not> at_kind Eof_Token ts" "\<not> at_text ''{'' ts" "p_name ts = Inr (kw, ts1)"
        "\<not> (kw = ''query'' \<or> kw = ''mutation'' \<or> kw = ''subscription'')" "kw = ''fragment''"
        "fragment_def (gd_fragments doc) ts1 = Inr (f, ts2)"
        "definitions_ok (doc\<lparr>gd_fragments := gm_put (fst f) (snd f) (gd_fragments doc)\<rparr>)"
        "parse_definitions (doc\<lparr>gd_fragments := gm_put (fst f) (snd f) (gd_fragments doc)\<rparr>) ts2 = Inr doc'"
    by (subst (asm) parse_definitions.simps) (auto simp: gbind_eq_Inr Let_def split: if_splits)
  then show ?case
  proof cases
    case eof
    with "1.prems"(2) show ?thesis by simp
  next
    case anon
    from "1.IH"(1) [OF anon] "1.prems"(2) assms(3) show ?thesis by (auto simp: add_operation_def)
  next
    case op
    have "od_type opd \<in> T" using op(4) assms(3) \<open>\<And>kw ts1 op ts2. operation_def kw ts1 = Inr (op, ts2) \<Longrightarrow> od_type op = kw\<close> [OF op(5)] by auto
    with "1.IH"(2) [OF op(1-5) refl op(6,7)] "1.prems"(2) show ?thesis by (auto simp: add_operation_def)
  next
    case frag
    from "1.IH"(3) [OF frag(1-6) refl frag(7,8)] "1.prems"(2) show ?thesis by simp
  qed
qed

lemma parse_document_types:
  "parse_document src = Inr doc \<Longrightarrow> op \<in> set (gd_operations doc) \<Longrightarrow> od_type op \<in> {''query'', ''mutation'', ''subscription''}"
  using parse_definitions_types [of "\<lparr>gd_operations = [], gd_fragments = []\<rparr>" _ doc
      "{''query'', ''mutation'', ''subscription''}"]
  by (auto simp: parse_document_def split: sum.splits if_splits)

lemma choose_operation_in:
  "choose_operation ops name = Inr op \<Longrightarrow> op \<in> set ops \<and> (name \<noteq> [] \<longrightarrow> od_name op = name)"
  by (auto simp: choose_operation_def find_Some_iff split: if_splits option.splits list.splits)

text \<open>What is analysed at all is within the absolute limits: a text of 64 KiB, 64 levels, 10000 fields counted
  with repetition, 2048 different ones; and it is the operation the request named.\<close>

theorem analysis_bounded:
  assumes "analyze_document env src name = Inr a"
  shows "length src \<le> 65536 \<and> ga_depth a \<le> 64 \<and> ga_complexity a \<le> 10000 \<and> length (ga_fields a) \<le> 2048 \<and>
    length (ga_fields a) \<le> ga_complexity a \<and> ga_type a \<in> {''query'', ''mutation'', ''subscription''} \<and>
    (name \<noteq> [] \<longrightarrow> ga_name a = name)"
proof -
  from assms obtain doc op where d: "parse_document src = Inr doc" and c: "choose_operation (gd_operations doc) name = Inr op"
    and a: "analyze_operation env doc op = Inr a"
    by (auto simp: analyze_document_def split: sum.splits)
  from a obtain st where st: "walk_ok st" "ga_fields a = sort_strings (ws_fields st)" "ga_depth a = ws_max_depth st"
      "ga_complexity a = ws_complexity st" "ga_type a = od_type op" "ga_name a = od_name op"
    by (rule analyze_operation_walk)
  have "length src \<le> 65536"
    using d by (auto simp: parse_document_def lex_graphql_def lex_bounded_def max_query_bytes_def split: sum.splits if_splits)
  moreover note choose_operation_in [OF c] parse_document_types [OF d, of op]
  ultimately show ?thesis
    using st by (auto simp: walk_ok_def absolute_max_depth_def absolute_max_complexity_def max_query_fields_def)
qed

section \<open>A sample\<close>

definition sample_gql_env :: gql_env where
  "sample_gql_env = \<lparr>ge_sha256 = (\<lambda>s. s), ge_hash16 = (\<lambda>s. s)\<rparr>"

definition sample_analysis :: graphql_analysis where
  "sample_analysis = \<lparr>ga_type = ''query'', ga_name = ''Q'',
     ga_fingerprint = fingerprint sample_gql_env ''query'' ''Q'' 2 3 [''query.user'', ''query.user.email'', ''query.user.name''],
     ga_depth = 2, ga_complexity = 3, ga_fields = [''query.user'', ''query.user.email'', ''query.user.name''],
     ga_variables = [(''id'', ''[ID!]'')], ga_introspection = False\<rparr>"

lemma sample_operation: "gd_operations (document_of sample_source) = [operation_of (hd (gs_operations sample_source))]"
  by (simp add: document_of_def sample_source_def)

lemma sample_analyzed:
  "analyze_operation sample_gql_env (document_of sample_source) (operation_of (hd (gs_operations sample_source))) =
     Inr sample_analysis"
  by (simp add: analyze_operation_def document_of_def sample_source_def operation_of_def walk.simps enter_field_def
      start_walk_def absolute_max_depth_def absolute_max_complexity_def max_query_fields_def field_path_def Let_def
      sort_strings_def sort_by_Cons sample_analysis_def less_char_def numeral_2_eq_2 numeral_3_eq_3)

theorem analysis_faithful_witness:
  "set (ga_fields sample_analysis) =
     {dotted ''query'' p |p. occurs_in (gs_fragments sample_source) [Field ''user'' [Spread ''F'', Field ''name'' []]] p}"
  using analysis_faithful [OF sample_analyzed]
  by (simp add: document_of_def operation_of_def sample_source_def)

lemma sample_document_analyzed:
  "analyze_document sample_gql_env (print_source sample_source) ''Q'' = Inr sample_analysis"
proof -
  have "parse_document (print_source sample_source) = Inr (document_of sample_source)"
    by (rule source_read_back [OF sample_source_printable sample_source_short])
  moreover have "choose_operation (gd_operations (document_of sample_source)) ''Q'' =
      Inr (operation_of (hd (gs_operations sample_source)))"
    unfolding sample_operation by (simp add: choose_operation_def operation_of_def sample_source_def)
  ultimately show ?thesis by (simp add: analyze_document_def sample_analyzed)
qed

theorem analysis_bounded_witness: "ga_depth sample_analysis \<le> 64 \<and> ga_name sample_analysis = ''Q''"
  using analysis_bounded [OF sample_document_analyzed] by simp

section \<open>The work of the walk\<close>

text \<open>
  How often the walk calls itself when it meets no error. Depth counts only fields and complexity
  only fields, so fragments that do nothing but spread others are followed for free: the number of
  calls is not bounded by the absolute limits.
\<close>

function walk_calls :: "gql_fragments \<Rightarrow> string list \<Rightarrow> gql_selection list \<Rightarrow> nat" where
  "walk_calls fr stack [] = 0"
| "walk_calls fr stack (sel # rest) =
     (case sel of
        Spread n \<Rightarrow> if n \<in> set stack then 0
          else (case gm_get fr n of None \<Rightarrow> 0 | Some sels \<Rightarrow> 1 + walk_calls fr (n # stack) sels)
      | Inline kids \<Rightarrow> 1 + walk_calls fr stack kids
      | Field f kids \<Rightarrow> if kids = [] then 0 else 1 + walk_calls fr stack kids) + walk_calls fr stack rest"
  by pat_completeness auto
termination
proof (relation "inv_image (less_than <*lex*> less_than)
    (\<lambda>(fr, stack, sels). (card (fst ` set fr - set stack), size_list size sels))")
  show "wf (inv_image (less_than <*lex*> less_than) (\<lambda>(fr :: gql_fragments, stack :: string list,
      sels :: gql_selection list). (card (fst ` set fr - set stack), size_list size sels)))"
    by auto
qed (auto simp: unvisited_less split: gql_selection.splits)

declare walk_calls.simps [simp del]

text \<open>A chain: each fragment spreads the next one twice, the last is empty.\<close>

definition chain_name :: "nat \<Rightarrow> string" where
  "chain_name i = replicate (Suc i) (CHR ''f'')"

definition chain_link :: "nat \<Rightarrow> nat \<Rightarrow> gql_selection list" where
  "chain_link n i = (if i < n then [Spread (chain_name (Suc i)), Spread (chain_name (Suc i))] else [])"

definition chain_source :: "nat \<Rightarrow> gql_source" where
  "chain_source n = \<lparr>gs_operations = [\<lparr>so_type = ''query'', so_name = [], so_variables = [],
       so_selections = [Spread (chain_name 0)]\<rparr>],
     gs_fragments = map (\<lambda>i. (chain_name i, chain_link n i)) [0..<Suc n]\<rparr>"

lemma chain_name_eq [simp]: "chain_name i = chain_name j \<longleftrightarrow> i = j"
  by (auto simp: chain_name_def dest: arg_cong [of _ _ length])

lemma chain_fragment: "i \<le> n \<Longrightarrow> gm_get (gs_fragments (chain_source n)) (chain_name i) = Some (chain_link n i)"
  by (rule map_of_is_SomeI) (auto simp: chain_source_def distinct_map inj_on_def comp_def simp del: upt_Suc)

lemma chain_calls:
  assumes "i \<le> n" and "\<forall>j. i < j \<longrightarrow> chain_name j \<notin> set stack"
  shows "walk_calls (gs_fragments (chain_source n)) stack (chain_link n i) + 2 = 2 * 2 ^ (n - i)"
  using assms
proof (induction "n - i" arbitrary: i stack)
  case 0
  then show ?case by (simp add: chain_link_def walk_calls.simps)
next
  case (Suc k)
  then have i: "i < n" by simp
  have "walk_calls (gs_fragments (chain_source n)) (chain_name (Suc i) # stack) (chain_link n (Suc i)) + 2 =
      2 * 2 ^ (n - Suc i)"
    using Suc by (intro Suc.hyps(1)) auto
  moreover have "chain_name (Suc i) \<notin> set stack" using Suc.prems by blast
  moreover have "(2::nat) ^ (n - i) = 2 * 2 ^ (n - Suc i)"
    using i by (simp flip: power_Suc add: Suc_diff_Suc)
  ultimately show ?case
    using i by (simp add: chain_link_def [of n i] walk_calls.simps chain_fragment)
qed

lemma chain_walks:
  assumes "i \<le> n" and "\<forall>j. i < j \<longrightarrow> chain_name j \<notin> set stack" and "depth \<le> absolute_max_depth"
  shows "walk (gs_fragments (chain_source n)) prefix depth stack (chain_link n i) st = Inr st"
  using assms(1,2)
proof (induction "n - i" arbitrary: i stack)
  case 0
  then show ?case using assms(3) by (simp add: chain_link_def walk.simps)
next
  case (Suc k)
  then have i: "i < n" by simp
  have "walk (gs_fragments (chain_source n)) prefix depth (chain_name (Suc i) # stack) (chain_link n (Suc i)) st = Inr st"
    using Suc by (intro Suc.hyps(1)) auto
  moreover have "chain_name (Suc i) \<notin> set stack" using Suc.prems by blast
  ultimately show ?case
    using i assms(3) by (simp add: chain_link_def [of n i] walk.simps chain_fragment)
qed

lemma chain_printable: "n < 256 \<Longrightarrow> printable_source (chain_source n)"
proof -
  assume n: "n < 256"
  have name: "gql_name (chain_name i)" for i
    by (simp add: gql_name_def chain_name_def gql_name_start_def gql_name_continue_def less_eq_char_def list_all_iff)
  have on: "chain_name i \<noteq> ''on''" for i by (simp add: chain_name_def)
  have "printable_set (chain_link n i)" for i
    by (simp add: printable_set_def chain_link_def name on max_query_fields_def)
  with n name on show ?thesis
    by (auto simp: printable_source_def chain_source_def printable_operation_def printable_set_def list_all_iff distinct_map
        inj_on_def comp_def max_query_fields_def max_variables_def max_operation_defs_def max_fragment_defs_def)
qed

lemma print_tokens_simps: "length (print_tokens []) = 0"
    "length (print_tokens (t # ts)) = length (gt_text t) + 1 + length (print_tokens ts)"
    "length (print_tokens (ts @ us)) = length (print_tokens ts) + length (print_tokens us)"
  by (simp_all add: print_tokens_def)

lemma chain_fragments_short:
  assumes "\<forall>i \<in> set is. i \<le> n"
  shows "length (print_tokens (concat (map (\<lambda>i. fragment_tokens (chain_name i, chain_link n i)) is))) \<le> length is * (3 * n + 40) \<and>
    length (concat (map (\<lambda>i. fragment_tokens (chain_name i, chain_link n i)) is)) \<le> length is * 10"
  using assms
proof (induction "is")
  case (Cons i "is")
  have "length (print_tokens (fragment_tokens (chain_name i, chain_link n i))) \<le> 3 * n + 40"
    using Cons.prems by (simp add: fragment_tokens_def set_tokens_def in_braces_def print_tokens_simps chain_link_def chain_name_def)
  moreover have "length (fragment_tokens (chain_name i, chain_link n i)) \<le> 10"
    by (simp add: fragment_tokens_def set_tokens_def in_braces_def chain_link_def)
  ultimately show ?case using Cons by (simp add: print_tokens_simps)
qed (simp add: print_tokens_simps)

lemma chain_short:
  assumes "n \<le> 100"
  shows "length (print_source (chain_source n)) \<le> 65536 \<and> length (source_tokens (chain_source n)) \<le> 8192"
proof -
  define frags where "frags = concat (map (\<lambda>i. fragment_tokens (chain_name i, chain_link n i)) [0..<Suc n])"
  have f: "length (print_tokens frags) \<le> (n + 1) * (3 * n + 40)" "length frags \<le> (n + 1) * 10"
    using chain_fragments_short [of "[0..<Suc n]" n] by (auto simp: frags_def simp del: upt_Suc)
  have "source_tokens (chain_source n) = name_token ''query'' # set_tokens [Spread (chain_name 0)] @ frags"
    by (simp add: source_tokens_def chain_source_def operation_tokens_def frags_def comp_def del: upt_Suc)
  then have len: "length (print_source (chain_source n)) \<le> 30 + length (print_tokens frags)"
    "length (source_tokens (chain_source n)) \<le> 10 + length frags"
    by (simp_all add: print_source_def print_tokens_simps set_tokens_def in_braces_def chain_name_def)
  have "(n + 1) * (3 * n + 40) \<le> 101 * 340" using assms by (intro mult_le_mono) auto
  with f len assms show ?thesis by auto
qed

text \<open>C36: The limits do not bound the work: for every \<open>n\<close> up to 100 there is a document of at most
  64 KiB that is analysed without error, with depth and complexity 0, by a walk of at least \<open>2 ^ n\<close>
  calls.\<close>

theorem graphql_walk_exponential:
  assumes "n \<le> 100"
  shows "\<exists>doc op a. length (print_source (chain_source n)) \<le> 65536 \<and>
    parse_document (print_source (chain_source n)) = Inr doc \<and> gd_operations doc = [op] \<and>
    analyze_document env (print_source (chain_source n)) [] = Inr a \<and> ga_depth a = 0 \<and> ga_complexity a = 0 \<and>
    2 ^ n \<le> walk_calls (gd_fragments doc) [] (od_selections op)"
proof -
  define op where "op = operation_of (hd (gs_operations (chain_source n)))"
  have p: "parse_document (print_source (chain_source n)) = Inr (document_of (chain_source n))"
    using assms chain_short [OF assms] by (intro source_read_back chain_printable) auto
  have ops: "gd_operations (document_of (chain_source n)) = [op]"
    by (simp add: document_of_def chain_source_def op_def)
  have op: "od_selections op = [Spread (chain_name 0)]" "od_type op = ''query''"
    by (simp_all add: op_def chain_source_def operation_of_def)
  have fr: "gd_fragments (document_of (chain_source n)) = gs_fragments (chain_source n)"
    by (simp add: document_of_def)
  have "walk (gs_fragments (chain_source n)) ''query'' 1 [chain_name 0] (chain_link n 0) start_walk = Inr start_walk"
    by (rule chain_walks) (auto simp: absolute_max_depth_def)
  then have "walk (gs_fragments (chain_source n)) ''query'' 1 [] [Spread (chain_name 0)] start_walk = Inr start_walk"
    by (simp add: walk.simps chain_fragment absolute_max_depth_def)
  then obtain a where "analyze_operation env (document_of (chain_source n)) op = Inr a" "ga_depth a = 0" "ga_complexity a = 0"
    by (simp add: analyze_operation_def fr op Let_def start_walk_def)
  moreover have "analyze_document env (print_source (chain_source n)) [] = analyze_operation env (document_of (chain_source n)) op"
    by (simp add: analyze_document_def p ops choose_operation_def)
  moreover have "walk_calls (gs_fragments (chain_source n)) [chain_name 0] (chain_link n 0) + 2 = 2 * 2 ^ n"
    using chain_calls [of 0 n "[chain_name 0]"] by simp
  then have "2 ^ n \<le> walk_calls (gd_fragments (document_of (chain_source n))) [] (od_selections op)"
    by (simp add: op fr walk_calls.simps chain_fragment)
  ultimately show ?thesis using p ops chain_short [OF assms] by auto
qed

theorem graphql_walk_exponential_witness:
  "\<exists>doc op. parse_document (print_source (chain_source 60)) = Inr doc \<and> gd_operations doc = [op] \<and>
     2 ^ 60 \<le> walk_calls (gd_fragments doc) [] (od_selections op)"
  using graphql_walk_exponential [of 60 sample_gql_env] by auto

end
