(* ===== verification/Graphql_Schema.thy ===== *)
theory Graphql_Schema
  imports Graphql_Print
begin

text \<open>
  \<^verbatim>\<open>parseGraphQLSDL\<close> of \<^verbatim>\<open>graphql_api8.go\<close>: the object types of an imported
  schema, each with its fields and the types they have, and the three root types. Everything else in
  the schema is skipped.
\<close>

section \<open>Types\<close>

type_synonym gql_field_types = "(string, string) gomap"

record sdl_state =
  sd_query :: string
  sd_mutation :: string
  sd_subscription :: string
  sd_types :: "(string, string list) gomap"
  sd_field_types :: "(string, gql_field_types) gomap"
  sd_total :: nat

definition max_schema_bytes :: nat where "max_schema_bytes = 262144"
definition max_schema_tokens :: nat where "max_schema_tokens = 32768"
definition max_schema_types :: nat where "max_schema_types = 1024"
definition max_schema_fields :: nat where "max_schema_fields = 8192"

text \<open>\<^verbatim>\<open>strings.Trim(v, "![]")\<close>, twice as in the code; a type text has no space to trim.\<close>

definition trim_type_marks :: "string \<Rightarrow> string" where
  "trim_type_marks v = rev (dropWhile (\<lambda>c. c \<in> set ''![]'') (rev (dropWhile (\<lambda>c. c \<in> set ''![]'') v)))"

definition base_type :: "string \<Rightarrow> string" where
  "base_type v = trim_type_marks (trim_type_marks (trim_space v))"

section \<open>Skipping\<close>

fun skip_sdl_arguments :: "nat \<Rightarrow> unit gql_parser" where
  "skip_sdl_arguments 0 ts = Inr ((), ts)"
| "skip_sdl_arguments (Suc depth) [] = Inl Unterminated_Sdl_Arguments"
| "skip_sdl_arguments (Suc depth) (t # ts) =
     (if gt_kind t = Eof_Token then Inl Unterminated_Sdl_Arguments
      else if gt_text t = ''('' then skip_sdl_arguments (Suc (Suc depth)) ts
      else if gt_text t = '')'' then skip_sdl_arguments depth ts
      else skip_sdl_arguments (Suc depth) ts)"

definition sdl_keywords :: "string list" where
  "sdl_keywords = [''schema'', ''type'', ''extend'', ''scalar'', ''enum'', ''input'', ''interface'', ''union'', ''directive'']"

fun skip_sdl_definition :: "nat \<Rightarrow> gql_token list \<Rightarrow> gql_token list" where
  "skip_sdl_definition depth [] = []"
| "skip_sdl_definition depth (t # ts) =
     (if gt_kind t = Eof_Token then t # ts
      else if depth = 0 \<and> gt_kind t = Name_Token \<and> gt_text t \<in> set sdl_keywords then t # ts
      else if gt_text t \<in> {''{'', ''['', ''(''} then skip_sdl_definition (depth + 1) ts
      else if gt_text t \<in> {''}'', '']'', '')''} then skip_sdl_definition (depth - 1) ts
      else skip_sdl_definition depth ts)"

text \<open>\<^verbatim>\<open>for p.peek().kind != gqlEOF && p.peek().text != "{" { p.take() }\<close>\<close>

fun skip_to_brace :: "gql_token list \<Rightarrow> gql_token list" where
  "skip_to_brace [] = []"
| "skip_to_brace (t # ts) = (if gt_kind t = Eof_Token \<or> gt_text t = ''{'' then t # ts else skip_to_brace ts)"

lemma skip_sdl_arguments_le: "skip_sdl_arguments d ts = Inr (u, ts') \<Longrightarrow> length ts' \<le> length ts"
  by (induction d ts rule: skip_sdl_arguments.induct) (auto split: if_splits)

lemma skip_sdl_definition_le: "length (skip_sdl_definition d ts) \<le> length ts"
  by (induction d ts rule: skip_sdl_definition.induct) (auto simp: le_Suc_eq)

lemma skip_to_brace_le: "length (skip_to_brace ts) \<le> length ts"
  by (induction ts) (auto simp: le_Suc_eq)

section \<open>Definitions\<close>

text \<open>\<^verbatim>\<open>schema { query: Q mutation: M }\<close>, after the brace.\<close>

definition set_root :: "string \<Rightarrow> string \<Rightarrow> sdl_state \<Rightarrow> sdl_state" where
  "set_root kind root_ty st =
     (if kind = ''query'' then st\<lparr>sd_query := root_ty\<rparr>
      else if kind = ''mutation'' then st\<lparr>sd_mutation := root_ty\<rparr>
      else if kind = ''subscription'' then st\<lparr>sd_subscription := root_ty\<rparr> else st)"

function schema_roots :: "sdl_state \<Rightarrow> sdl_state gql_parser" where
  "schema_roots st ts =
     (if at_text ''}'' ts then Inr (st, tl ts)
      else gbind (p_name ts) (\<lambda>kind ts1. gbind (p_expect '':'' ts1) (\<lambda>_ ts2. gbind (p_name ts2) (\<lambda>root_ty ts3.
        schema_roots (set_root kind root_ty st) ts3))))"
  by pat_completeness auto
termination by (relation "measure (\<lambda>(st, ts). length ts)") (auto dest!: p_name_shorter p_expect_shorter)

declare schema_roots.simps [simp del]

lemma schema_roots_le: "schema_roots st ts = Inr (st', ts') \<Longrightarrow> length ts' \<le> length ts"
proof (induction st ts rule: schema_roots.induct)
  case (1 st ts)
  show ?case
  proof (cases "at_text ''}'' ts")
    case True
    with "1.prems" show ?thesis by (subst (asm) schema_roots.simps) auto
  next
    case False
    with "1.prems" obtain kind ts1 ts2 root_ty ts3 where *: "p_name ts = Inr (kind, ts1)" "p_expect '':'' ts1 = Inr ((), ts2)"
      "p_name ts2 = Inr (root_ty, ts3)" "schema_roots (set_root kind root_ty st) ts3 = Inr (st', ts')"
      by (subst (asm) schema_roots.simps) (auto simp: gbind_eq_Inr)
    from "1.IH" [OF False *] p_name_shorter [OF *(1)] p_expect_shorter [OF *(2)] p_name_shorter [OF *(3)] show ?thesis by simp
  qed
qed

text \<open>The fields of a type, after the brace: the names so far, their types, and the total of the schema.\<close>

record type_fields =
  tf_fields :: "string list"
  tf_types :: gql_field_types
  tf_total :: nat

definition add_field :: "string \<Rightarrow> string \<Rightarrow> type_fields \<Rightarrow> gql_error + type_fields" where
  "add_field f ty st =
     (let st = st\<lparr>tf_types := gm_put f ty (tf_types st)\<rparr> in
      if f \<in> set (tf_fields st) then Inr st
      else if tf_total st + 1 > max_schema_fields then Inl Sdl_Too_Many_Fields
      else Inr (st\<lparr>tf_fields := tf_fields st @ [f], tf_total := tf_total st + 1\<rparr>))"

definition skip_sdl_call :: "unit gql_parser" where
  "skip_sdl_call ts = (if at_text ''('' ts then skip_sdl_arguments 1 (tl ts) else Inr ((), ts))"

lemma skip_sdl_call_le: "skip_sdl_call ts = Inr (u, ts') \<Longrightarrow> length ts' \<le> length ts"
  using skip_sdl_arguments_le [of 1 "tl ts" u ts'] by (auto simp: skip_sdl_call_def split: if_splits)

function fields_of_type :: "type_fields \<Rightarrow> type_fields gql_parser" where
  "fields_of_type st ts =
     (if at_text ''}'' ts then Inr (st, tl ts)
      else if at_kind String_Token ts then fields_of_type st (tl ts)
      else gbind (p_name ts) (\<lambda>f ts1. gbind (skip_sdl_call ts1) (\<lambda>_ ts2. gbind (p_expect '':'' ts2) (\<lambda>_ ts3.
        gbind (type_ref ts3) (\<lambda>ty ts4. gbind (skip_directives ts4) (\<lambda>_ ts5.
          (case add_field f (base_type ty) st of Inl e \<Rightarrow> Inl e | Inr st \<Rightarrow> fields_of_type st ts5)))))))"
  by pat_completeness auto
termination
proof (relation "measure (\<lambda>(st, ts). length ts)"; (simp only: in_measure prod.case)?)
  fix ts :: "gql_token list"
  assume "at_kind String_Token ts"
  then show "length (tl ts) < length ts" using at_kind_nonempty [of String_Token ts] by (cases ts) auto
next
  fix ts ts1 ts2 ts3 ts4 ts5 :: "gql_token list" and f ty :: string and u u' u'' :: unit
  assume a: "p_name ts = Inr (f, ts1)" "skip_sdl_call ts1 = Inr (u, ts2)" "p_expect '':'' ts2 = Inr (u', ts3)"
    "type_ref ts3 = Inr (ty, ts4)" "skip_directives ts4 = Inr (u'', ts5)"
  from p_name_shorter [OF a(1)] skip_sdl_call_le [OF a(2)] p_expect_shorter [OF a(3)] type_ref_shorter [OF a(4)]
    skip_directives_le [OF a(5)]
  show "length ts5 < length ts" by simp
qed simp

declare fields_of_type.simps [simp del]

text \<open>\<^verbatim>\<open>type Name ... { fields }\<close>, after the keyword; an extension adds to what is there.\<close>

definition type_definition :: "sdl_state \<Rightarrow> sdl_state gql_parser" where
  "type_definition st ts =
     gbind (p_name ts) (\<lambda>name ts1. gbind (p_expect ''{'' (skip_to_brace ts1)) (\<lambda>_ ts2.
       gbind (fields_of_type \<lparr>tf_fields = (case gm_get (sd_types st) name of None \<Rightarrow> [] | Some fs \<Rightarrow> fs),
           tf_types = (case gm_get (sd_field_types st) name of None \<Rightarrow> [] | Some fts \<Rightarrow> fts), tf_total = sd_total st\<rparr> ts2)
         (\<lambda>tf ts3.
           let types = gm_put name (sort_by (\<lambda>a b. a < b) (tf_fields tf)) (sd_types st)
           in if length types > max_schema_types then Inl Sdl_Too_Many_Types
              else Inr (st\<lparr>sd_types := types, sd_field_types := gm_put name (tf_types tf) (sd_field_types st),
                sd_total := tf_total tf\<rparr>, ts3))))"

lemma case_Inr: "(case x of Inl e \<Rightarrow> Inl e | Inr a \<Rightarrow> f a) = Inr y \<longleftrightarrow> (\<exists>a. x = Inr a \<and> f a = Inr y)"
  by (auto split: sum.splits)

text \<open>Induction over the fields read.\<close>

lemma fields_of_type_cases:
  assumes "fields_of_type st ts = Inr (st', ts')"
  shows "at_text ''}'' ts \<and> st' = st \<and> ts' = tl ts \<or>
    \<not> at_text ''}'' ts \<and> at_kind String_Token ts \<and> fields_of_type st (tl ts) = Inr (st', ts') \<or>
    (\<exists>f ts1 ts2 ts3 ty ts4 ts5 st1. \<not> at_text ''}'' ts \<and> \<not> at_kind String_Token ts \<and> p_name ts = Inr (f, ts1) \<and>
      skip_sdl_call ts1 = Inr ((), ts2) \<and> p_expect '':'' ts2 = Inr ((), ts3) \<and> type_ref ts3 = Inr (ty, ts4) \<and>
      skip_directives ts4 = Inr ((), ts5) \<and> add_field f (base_type ty) st = Inr st1 \<and>
      fields_of_type st1 ts5 = Inr (st', ts'))"
  using assms by (subst (asm) fields_of_type.simps) (auto simp: gbind_eq_Inr case_Inr split: if_splits)

lemma fields_of_type_invariant:
  assumes "fields_of_type st ts = Inr (st', ts')" and "P st"
    and "\<And>f ty st st1. add_field f ty st = Inr st1 \<Longrightarrow> P st \<Longrightarrow> P st1"
  shows "P st' \<and> length ts' \<le> length ts"
  using assms(1,2)
proof (induction st ts rule: fields_of_type.induct)
  case (1 st ts)
  from fields_of_type_cases [OF "1.prems"(1)] show ?case
  proof (elim disjE exE conjE)
    assume "at_text ''}'' ts" "st' = st" "ts' = tl ts"
    with "1.prems"(2) show ?thesis by simp
  next
    assume a: "\<not> at_text ''}'' ts" "at_kind String_Token ts" "fields_of_type st (tl ts) = Inr (st', ts')"
    from "1.IH"(1) [OF a "1.prems"(2)] show ?thesis by auto
  next
    fix f ts1 ts2 ts3 ty ts4 ts5 st1
    assume a: "\<not> at_text ''}'' ts" "\<not> at_kind String_Token ts" "p_name ts = Inr (f, ts1)" "skip_sdl_call ts1 = Inr ((), ts2)"
      "p_expect '':'' ts2 = Inr ((), ts3)" "type_ref ts3 = Inr (ty, ts4)" "skip_directives ts4 = Inr ((), ts5)"
      "add_field f (base_type ty) st = Inr st1" "fields_of_type st1 ts5 = Inr (st', ts')"
    from "1.IH"(2) [OF a assms(3) [OF a(8) "1.prems"(2)]]
      p_name_shorter [OF a(3)] skip_sdl_call_le [OF a(4)] p_expect_shorter [OF a(5)] type_ref_shorter [OF a(6)]
      skip_directives_le [OF a(7)]
    show ?thesis by auto
  qed
qed

lemma type_definition_le:
  assumes "type_definition st ts = Inr (st', ts')" shows "length ts' < length ts"
proof -
  from assms obtain name ts1 ts2 tf0 tf where *: "p_name ts = Inr (name, ts1)"
    "p_expect ''{'' (skip_to_brace ts1) = Inr ((), ts2)" "fields_of_type tf0 ts2 = Inr (tf, ts')"
    by (auto simp: type_definition_def gbind_eq_Inr Let_def split: if_splits)
  from p_name_shorter [OF *(1)] p_expect_shorter [OF *(2)] skip_to_brace_le [of ts1]
    fields_of_type_invariant [OF *(3), of "\<lambda>_. True"]
  show ?thesis by simp
qed

section \<open>The whole schema\<close>

text \<open>After an optional \<^verbatim>\<open>extend\<close>: the keyword of a definition.\<close>

definition sdl_keyword :: "string gql_parser" where
  "sdl_keyword ts = gbind (p_name ts) (\<lambda>kw ts1. if kw = ''extend'' then p_name ts1 else Inr (kw, ts1))"

definition schema_definition :: "sdl_state \<Rightarrow> sdl_state gql_parser" where
  "schema_definition st ts =
     gbind (skip_directives ts) (\<lambda>_ ts1. gbind (p_expect ''{'' ts1) (\<lambda>_ ts2. schema_roots st ts2))"

definition sdl_definition :: "string \<Rightarrow> sdl_state \<Rightarrow> sdl_state gql_parser" where
  "sdl_definition kw st ts =
     (if kw = ''schema'' then schema_definition st ts
      else if kw = ''type'' then type_definition st ts
      else Inr (st, skip_sdl_definition 0 ts))"

lemma sdl_keyword_shorter: "sdl_keyword ts = Inr (kw, ts') \<Longrightarrow> length ts' < length ts"
  by (auto simp: sdl_keyword_def gbind_eq_Inr split: if_splits dest!: p_name_shorter)

lemma sdl_definition_le:
  assumes "sdl_definition kw st ts = Inr (st', ts')" shows "length ts' \<le> length ts"
  using assms skip_sdl_definition_le [of 0 ts]
  by (auto simp: sdl_definition_def schema_definition_def gbind_eq_Inr split: if_splits
      dest!: type_definition_le skip_directives_le p_expect_shorter schema_roots_le)

function sdl_definitions :: "sdl_state \<Rightarrow> gql_token list \<Rightarrow> gql_error + sdl_state" where
  "sdl_definitions st ts =
     (if at_kind Eof_Token ts then Inr st
      else if at_kind String_Token ts then sdl_definitions st (tl ts)
      else gbind (sdl_keyword ts) (\<lambda>kw ts1. gbind (sdl_definition kw st ts1) (\<lambda>st2 ts2. sdl_definitions st2 ts2)))"
  by pat_completeness auto
termination
proof (relation "measure (\<lambda>(st, ts). length ts)"; (simp only: in_measure prod.case)?)
  fix ts :: "gql_token list"
  assume "at_kind String_Token ts"
  then show "length (tl ts) < length ts" using at_kind_nonempty [of String_Token ts] by (cases ts) auto
next
  fix ts ts1 ts2 :: "gql_token list" and kw :: string and st st2 :: sdl_state
  assume "sdl_keyword ts = Inr (kw, ts1)" "sdl_definition kw st ts1 = Inr (st2, ts2)"
  then show "length ts2 < length ts" using sdl_keyword_shorter sdl_definition_le by fastforce
qed simp

declare sdl_definitions.simps [simp del]

definition new_sdl :: sdl_state where
  "new_sdl = \<lparr>sd_query = ''Query'', sd_mutation = ''Mutation'', sd_subscription = ''Subscription'', sd_types = [],
     sd_field_types = [], sd_total = 0\<rparr>"

definition parse_sdl :: "string \<Rightarrow> gql_error + sdl_state" where
  "parse_sdl src =
     (if src = [] \<or> length src > max_schema_bytes then Inl Sdl_Out_Of_Bounds
      else
        (case lex_bounded src max_schema_bytes max_schema_tokens of
           Inl e \<Rightarrow> Inl e
         | Inr ts \<Rightarrow>
             (case sdl_definitions new_sdl ts of
                Inl e \<Rightarrow> Inl e
              | Inr st \<Rightarrow>
                  if \<not> gm_has (sd_types st) (sd_query st) then Inl (Sdl_No_Query_Root (sd_query st))
                  else Inr (st\<lparr>sd_mutation := (if gm_has (sd_types st) (sd_mutation st) then sd_mutation st else []),
                    sd_subscription := (if gm_has (sd_types st) (sd_subscription st) then sd_subscription st else [])\<rparr>))))"

section \<open>What a schema is\<close>

definition type_ok :: "string list \<Rightarrow> gql_field_types \<Rightarrow> bool" where
  "type_ok fs fts \<longleftrightarrow> sorted fs \<and> distinct fs \<and> gm_ok fts \<and> set fs = fst ` set fts"

definition sdl_ok :: "sdl_state \<Rightarrow> bool" where
  "sdl_ok st \<longleftrightarrow> gm_ok (sd_types st) \<and> length (sd_types st) \<le> max_schema_types \<and>
     map fst (sd_field_types st) = map fst (sd_types st) \<and>
     (\<forall>t fs. gm_get (sd_types st) t = Some fs \<longrightarrow> (\<exists>fts. gm_get (sd_field_types st) t = Some fts \<and> type_ok fs fts)) \<and>
     sd_total st = sum_list (map length (gm_values (sd_types st))) \<and> sd_total st \<le> max_schema_fields"

definition tf_ok :: "nat \<Rightarrow> nat \<Rightarrow> type_fields \<Rightarrow> bool" where
  "tf_ok n0 t0 tf \<longleftrightarrow> distinct (tf_fields tf) \<and> gm_ok (tf_types tf) \<and> set (tf_fields tf) = fst ` set (tf_types tf) \<and>
     tf_total tf + n0 = t0 + length (tf_fields tf) \<and> tf_total tf \<le> max_schema_fields"

lemma keys_put: "fst ` set (gm_put k v m) = insert k (fst ` set m)"
  by (induction m) auto

lemma map_fst_put: "map fst m = map fst m' \<Longrightarrow> map fst (gm_put k v m) = map fst (gm_put k v' m')"
proof (induction m arbitrary: m')
  case (Cons x m)
  then show ?case by (cases m'; cases x) (auto split: prod.splits)
qed simp

lemma add_field_ok:
  assumes "add_field f ty tf = Inr tf'" and ok: "tf_ok n0 t0 tf" shows "tf_ok n0 t0 tf'"
proof -
  have keys: "fst ` set (gm_put f ty (tf_types tf)) = insert f (set (tf_fields tf))"
    using ok by (simp add: keys_put tf_ok_def)
  show ?thesis
  proof (cases "f \<in> set (tf_fields tf)")
    case True
    with assms(1) have "tf' = tf\<lparr>tf_types := gm_put f ty (tf_types tf)\<rparr>" by (simp add: add_field_def Let_def)
    with ok keys True show ?thesis by (simp add: tf_ok_def insert_absorb)
  next
    case False
    with assms(1) have "tf' = tf\<lparr>tf_types := gm_put f ty (tf_types tf), tf_fields := tf_fields tf @ [f],
        tf_total := tf_total tf + 1\<rparr>" "tf_total tf < max_schema_fields"
      by (auto simp: add_field_def Let_def split: if_splits)
    with ok keys False show ?thesis by (simp add: tf_ok_def)
  qed
qed

lemma type_definition_ok:
  assumes "type_definition st ts = Inr (st', ts')" and "sdl_ok st" shows "sdl_ok st'"
proof -
  from assms(1) obtain name ts1 ts2 fs0 fts0 tf where
    fs0: "fs0 = (case gm_get (sd_types st) name of None \<Rightarrow> [] | Some fs \<Rightarrow> fs)" and
    fts0: "fts0 = (case gm_get (sd_field_types st) name of None \<Rightarrow> [] | Some fts \<Rightarrow> fts)" and
    f: "fields_of_type \<lparr>tf_fields = fs0, tf_types = fts0, tf_total = sd_total st\<rparr> ts2 = Inr (tf, ts')" and
    len: "length (gm_put name (sort_by (\<lambda>a b. a < b) (tf_fields tf)) (sd_types st)) \<le> max_schema_types" and
    st': "st' = st\<lparr>sd_types := gm_put name (sort_by (\<lambda>a b. a < b) (tf_fields tf)) (sd_types st),
      sd_field_types := gm_put name (tf_types tf) (sd_field_types st), sd_total := tf_total tf\<rparr>"
    by (auto simp: type_definition_def gbind_eq_Inr Let_def split: if_splits)
  have none: "gm_get (sd_field_types st) name = None" if "gm_get (sd_types st) name = None"
  proof -
    have "name \<notin> set (map fst (sd_types st))" using that by (simp add: map_of_eq_None_iff)
    then have "name \<notin> set (map fst (sd_field_types st))" using assms(2) by (simp add: sdl_ok_def)
    then show ?thesis by (simp add: map_of_eq_None_iff)
  qed
  have "tf_ok (length fs0) (sd_total st) \<lparr>tf_fields = fs0, tf_types = fts0, tf_total = sd_total st\<rparr>"
    using assms(2) none by (cases "gm_get (sd_types st) name") (fastforce simp: fs0 fts0 tf_ok_def sdl_ok_def type_ok_def)+
  with fields_of_type_invariant [OF f, of "tf_ok (length fs0) (sd_total st)"] add_field_ok
  have tf: "tf_ok (length fs0) (sd_total st) tf" by blast
  have sorted: "sorted (sort_by (\<lambda>a b. a < b) (tf_fields tf))"
    using sort_by_key_sorted [of "\<lambda>s. s" "tf_fields tf"] by simp
  have "sum_list (map length (gm_values (gm_put name (sort_by (\<lambda>a b. a < b) (tf_fields tf)) (sd_types st)))) + length fs0 =
      sum_list (map length (gm_values (sd_types st))) + length (tf_fields tf)"
    using sum_list_put [of "sd_types st" length name "sort_by (\<lambda>a b. a < b) (tf_fields tf)"] assms(2)
    by (cases "gm_get (sd_types st) name") (simp_all add: sdl_ok_def fs0)
  with assms(2) tf len sorted show ?thesis
    by (auto simp: sdl_ok_def st' tf_ok_def gm_get_put type_ok_def intro!: map_fst_put)
qed

lemma schema_roots_same:
  assumes "schema_roots st ts = Inr (st', ts')" and "sdl_ok st" shows "sdl_ok st'"
  using assms
proof (induction st ts rule: schema_roots.induct)
  case (1 st ts)
  show ?case
  proof (cases "at_text ''}'' ts")
    case True
    with "1.prems" show ?thesis by (subst (asm) schema_roots.simps) auto
  next
    case False
    with "1.prems" obtain kind ts1 ts2 rt ts3 where *: "p_name ts = Inr (kind, ts1)" "p_expect '':'' ts1 = Inr ((), ts2)"
      "p_name ts2 = Inr (rt, ts3)" "schema_roots (set_root kind rt st) ts3 = Inr (st', ts')"
      by (subst (asm) schema_roots.simps) (auto simp: gbind_eq_Inr)
    have "sdl_ok (set_root kind rt st)" using "1.prems"(2) by (auto simp: set_root_def sdl_ok_def)
    with "1.IH" [OF False *] show ?thesis by simp
  qed
qed

lemma sdl_definitions_ok:
  assumes "sdl_definitions st ts = Inr st'" and "sdl_ok st" shows "sdl_ok st'"
  using assms
proof (induction st ts rule: sdl_definitions.induct)
  case (1 st ts)
  show ?case
  proof (cases "at_kind Eof_Token ts")
    case True
    with "1.prems" show ?thesis by (subst (asm) sdl_definitions.simps) auto
  next
    case eof: False
    show ?thesis
    proof (cases "at_kind String_Token ts")
      case True
      with "1.prems"(1) eof have "sdl_definitions st (tl ts) = Inr st'" by (subst (asm) sdl_definitions.simps) auto
      with "1.IH"(1) [OF eof True] "1.prems"(2) show ?thesis by simp
    next
      case False
      with "1.prems"(1) eof obtain kw ts1 st2 ts2 where *: "sdl_keyword ts = Inr (kw, ts1)"
        "sdl_definition kw st ts1 = Inr (st2, ts2)" "sdl_definitions st2 ts2 = Inr st'"
        by (subst (asm) sdl_definitions.simps) (auto simp: gbind_eq_Inr)
      have "sdl_ok st2"
        using *(2) "1.prems"(2) by (auto simp: sdl_definition_def schema_definition_def gbind_eq_Inr split: if_splits
            intro: type_definition_ok schema_roots_same)
      with "1.IH"(2) [OF eof False *] show ?thesis by simp
    qed
  qed
qed

text \<open>C34: An accepted schema is well typed: its query root is one of its types, and so are the other roots it
  has; every type has a type for each of its fields, which are listed once, in order, and for nothing else;
  there are at most 1024 types and 8192 fields.\<close>

theorem schema_well_typed:
  assumes "parse_sdl src = Inr st"
  shows "gm_has (sd_types st) (sd_query st) \<and>
    (sd_mutation st = [] \<or> gm_has (sd_types st) (sd_mutation st)) \<and>
    (sd_subscription st = [] \<or> gm_has (sd_types st) (sd_subscription st)) \<and>
    (\<forall>t fs. gm_get (sd_types st) t = Some fs \<longrightarrow> sorted fs \<and> distinct fs \<and>
       (\<exists>fts. gm_get (sd_field_types st) t = Some fts \<and> (\<forall>f. f \<in> set fs \<longleftrightarrow> gm_has fts f))) \<and>
    length (sd_types st) \<le> 1024 \<and> sum_list (map length (gm_values (sd_types st))) \<le> 8192"
proof -
  have "sdl_ok new_sdl" by (simp add: sdl_ok_def new_sdl_def)
  with assms have "sdl_ok st"
    using sdl_definitions_ok [of new_sdl] by (fastforce simp: parse_sdl_def sdl_ok_def split: if_splits sum.splits)
  moreover have "gm_has (sd_types st) (sd_query st)"
    "sd_mutation st = [] \<or> gm_has (sd_types st) (sd_mutation st)"
    "sd_subscription st = [] \<or> gm_has (sd_types st) (sd_subscription st)"
    using assms by (auto simp: parse_sdl_def split: if_splits sum.splits)
  ultimately show ?thesis
    by (fastforce simp: sdl_ok_def type_ok_def gm_has_iff max_schema_types_def max_schema_fields_def)
qed

text \<open>\<^verbatim>\<open>type Query { user : User ! } type User { name : String }\<close>\<close>

definition sample_sdl_tokens :: "gql_token list" where
  "sample_sdl_tokens = [name_token ''type'', name_token ''Query'', punct_token (CHR ''{''), name_token ''user'',
     punct_token (CHR '':''), name_token ''User'', punct_token (CHR ''!''), punct_token (CHR ''}''),
     name_token ''type'', name_token ''User'', punct_token (CHR ''{''), name_token ''name'',
     punct_token (CHR '':''), name_token ''String'', punct_token (CHR ''}'')]"

definition sample_schema :: sdl_state where
  "sample_schema = \<lparr>sd_query = ''Query'', sd_mutation = [], sd_subscription = [],
     sd_types = [(''Query'', [''user'']), (''User'', [''name''])],
     sd_field_types = [(''Query'', [(''user'', ''User'')]), (''User'', [(''name'', ''String'')])], sd_total = 2\<rparr>"

lemma sample_sdl_printed: "list_all printed_token sample_sdl_tokens"
  by (simp add: sample_sdl_tokens_def gql_name_def gql_name_start_def gql_name_continue_def less_eq_char_def)

lemma sample_base_types: "base_type ''User!'' = ''User''" "base_type ''String'' = ''String''"
proof -
  have "trim_space ''User!'' = ''User!''" "trim_space ''String'' = ''String''"
    by (rule trim_space_visible; simp add: visible_def less_eq_char_def)+
  then show "base_type ''User!'' = ''User''" "base_type ''String'' = ''String''"
    by (simp_all add: base_type_def trim_type_marks_def)
qed

lemma sample_sdl_parsed: "parse_sdl (print_tokens sample_sdl_tokens) = Inr sample_schema"
proof -
  have "lex_bounded (print_tokens sample_sdl_tokens) max_schema_bytes max_schema_tokens = Inr (sample_sdl_tokens @ [eof_token])"
  proof -
    have "print_tokens sample_sdl_tokens \<noteq> []" "length (print_tokens sample_sdl_tokens) \<le> max_schema_bytes"
      "length sample_sdl_tokens \<le> max_schema_tokens"
      by (simp_all add: print_tokens_def sample_sdl_tokens_def max_schema_bytes_def max_schema_tokens_def)
    then show ?thesis using lex_printed [OF sample_sdl_printed, of 0 max_schema_tokens 0] by (simp add: lex_bounded_def)
  qed
  moreover have "sdl_definitions new_sdl (sample_sdl_tokens @ [eof_token]) =
      Inr (sample_schema\<lparr>sd_mutation := ''Mutation'', sd_subscription := ''Subscription''\<rparr>)"
    by (simp add: sample_sdl_tokens_def sdl_definitions.simps sdl_keyword_def sdl_definition_def type_definition_def
        fields_of_type.simps skip_sdl_call_def type_ref.simps skip_text_def skip_directives_none add_field_def Let_def
        new_sdl_def sample_schema_def sample_base_types max_schema_fields_def max_schema_types_def sort_by_Cons)
  ultimately show ?thesis
    by (simp add: parse_sdl_def sample_schema_def gm_has_def print_tokens_def sample_sdl_tokens_def max_schema_bytes_def)
qed

theorem schema_well_typed_witness:
  "gm_has (sd_types sample_schema) (sd_query sample_schema) \<and> length (sd_types sample_schema) \<le> 1024"
  using schema_well_typed [OF sample_sdl_parsed] by simp

end
