(* ===== verification/Graphql_Policy.thy ===== *)
theory Graphql_Policy
  imports Graphql_Analysis Graphql_Schema Object_Relationship
begin

text \<open>
  The policies of \<^verbatim>\<open>graphql_api8.go\<close>: the store of observed operations,
  persisted queries, schema contracts and policies, its snapshot for the request path, and the
  decision on a request.

  The maximal depth and complexity of a stored record are integers, as a state file may hold
  negative ones, which the checks refuse. A mode or action of a file that is none of the program's
  is refused with its record; here it has no representation.
\<close>

section \<open>Types\<close>

datatype gql_mode = Learn | Detect | Enforce
datatype gql_action = Learned | Detected | Blocked

datatype gql_violation_type =
    Malformed | Absolute_Depth | Absolute_Complexity | Depth_Limit | Complexity_Limit | Introspection_Disabled
  | Mutation_Disabled | Subscription_Disabled | Persisted_Required | Schema_Mismatch | Field_Not_Allowed | Field_Denied

record gql_operation =
  go_id :: string
  go_endpoint :: string
  go_site :: string
  go_type :: string
  go_name :: string
  go_fingerprint :: string
  go_depth :: int
  go_complexity :: int
  go_fields :: "string list"
  go_variables :: "string list"
  go_introspection :: bool
  go_persisted :: string
  go_count :: u64
  go_first_seen :: gtime
  go_last_seen :: gtime
  go_expires_at :: gtime

record gql_persisted =
  gp_hash :: string
  gp_operation :: string
  gp_endpoint :: string
  gp_type :: string
  gp_name :: string
  gp_fingerprint :: string
  gp_depth :: int
  gp_complexity :: int
  gp_fields :: "string list"
  gp_variables :: "string list"
  gp_introspection :: bool
  gp_first_seen :: gtime
  gp_last_seen :: gtime
  gp_expires_at :: gtime

record gql_contract =
  gc_id :: string
  gc_name :: string
  gc_endpoint :: string
  gc_source :: string
  gc_query :: string
  gc_mutation :: string
  gc_subscription :: string
  gc_types :: "(string, string list) gomap"
  gc_field_types :: "(string, gql_field_types) gomap"
  gc_created_at :: gtime
  gc_updated_at :: gtime
  gc_created_by :: string

record gql_policy =
  gl_id :: string
  gl_endpoint :: string
  gl_name :: string
  gl_contract :: string
  gl_mode :: gql_mode
  gl_max_depth :: int
  gl_max_complexity :: int
  gl_introspection :: bool
  gl_mutation :: bool
  gl_subscription :: bool
  gl_persisted :: bool
  gl_allowed :: "string list"
  gl_denied :: "string list"
  gl_status :: int
  gl_created_at :: gtime
  gl_updated_at :: gtime
  gl_created_by :: string
  gl_updated_by :: string
  gl_reason :: string

record gql_violation =
  gv_id :: string
  gv_time :: gtime
  gv_endpoint :: string
  gv_operation :: string
  gv_name :: string
  gv_contract :: string
  gv_mode :: gql_mode
  gv_action :: gql_action
  gv_type :: gql_violation_type
  gv_expected :: string
  gv_observed :: string
  gv_field :: string

text \<open>What the request path reads: copies of the tables, and for each endpoint the policy for requests that
  have no operation.\<close>

record gql_runtime =
  rt_policies :: "(string, gql_policy) gomap"
  rt_contracts :: "(string, gql_contract) gomap"
  rt_fallback :: "(string, gql_policy) gomap"
  rt_persisted :: "(string, gql_persisted) gomap"

record gql_store =
  gq_operations :: "(string, gql_operation) gomap"
  gq_persisted :: "(string, gql_persisted) gomap"
  gq_contracts :: "(string, gql_contract) gomap"
  gq_policies :: "(string, gql_policy) gomap"
  gq_violations :: "gql_violation list"
  gq_runtime :: gql_runtime
  gq_processed :: u64

definition max_operations :: nat where "max_operations = 4096"
definition max_persisted :: nat where "max_persisted = 4096"
definition max_gql_policies :: nat where "max_gql_policies = 1024"
definition max_contracts :: nat where "max_contracts = 128"
definition max_gql_violations :: nat where "max_gql_violations = 4096"
definition max_policy_fields :: nat where "max_policy_fields = 512"
definition max_policy_reason :: nat where "max_policy_reason = 512"
definition persisted_ttl :: duration where "persisted_ttl = 30 * 24 * hour"
definition operation_ttl :: duration where "operation_ttl = 30 * 24 * hour"

definition empty_runtime :: gql_runtime where
  "empty_runtime = \<lparr>rt_policies = [], rt_contracts = [], rt_fallback = [], rt_persisted = []\<rparr>"

definition new_gql_store :: gql_store where
  "new_gql_store = \<lparr>gq_operations = [], gq_persisted = [], gq_contracts = [], gq_policies = [], gq_violations = [],
     gq_runtime = empty_runtime, gq_processed = 0\<rparr>"

section \<open>Names\<close>

definition gql_policy_id :: "gql_env \<Rightarrow> string \<Rightarrow> string \<Rightarrow> string" where
  "gql_policy_id env endpoint name = ge_hash16 env (join_nul [''api8-graphql-policy'', endpoint, name])"

definition gql_operation_id :: "gql_env \<Rightarrow> string \<Rightarrow> string \<Rightarrow> string \<Rightarrow> string \<Rightarrow> string" where
  "gql_operation_id env endpoint ty name fp = ge_hash16 env (join_nul [''api8-graphql-operation'', endpoint, ty, name, fp])"

definition contract_id :: "gql_env \<Rightarrow> string \<Rightarrow> string \<Rightarrow> string" where
  "contract_id env endpoint name = ge_hash16 env (join_nul [''api8-graphql-schema'', endpoint, to_lower (trim_space name)])"

definition mode_text :: "gql_mode \<Rightarrow> string" where
  "mode_text m = (case m of Learn \<Rightarrow> ''LEARN'' | Detect \<Rightarrow> ''DETECT'' | Enforce \<Rightarrow> ''ENFORCE'')"

definition parse_mode :: "string \<Rightarrow> gql_mode option" where
  "parse_mode t = find (\<lambda>m. mode_text m = t) [Learn, Detect, Enforce]"

definition valid_gql_hash :: "string \<Rightarrow> bool" where
  "valid_gql_hash v \<longleftrightarrow> length v = 64 \<and> hex_decodes v"

definition valid_field_path :: "string \<Rightarrow> bool" where
  "valid_field_path v \<longleftrightarrow> v \<noteq> [] \<and> length v \<le> 512 \<and>
     (let parts = split_on CHR ''.'' v in
      2 \<le> length parts \<and> length parts \<le> absolute_max_depth + 1 \<and> list_all valid_graphql_name parts)"

section \<open>The snapshot\<close>

definition mode_rank :: "gql_mode \<Rightarrow> nat" where
  "mode_rank m = (case m of Enforce \<Rightarrow> 3 | Detect \<Rightarrow> 2 | Learn \<Rightarrow> 1)"

definition better_fallback :: "gql_policy \<Rightarrow> gql_policy \<Rightarrow> bool" where
  "better_fallback cand cur \<longleftrightarrow>
     (if mode_rank (gl_mode cand) \<noteq> mode_rank (gl_mode cur) then mode_rank (gl_mode cand) > mode_rank (gl_mode cur)
      else if gl_name cand = [] \<and> gl_name cur \<noteq> [] then True
      else if gl_name cand \<noteq> [] \<and> gl_name cur = [] then False
      else gl_id cand < gl_id cur)"

definition add_fallback :: "gql_policy \<Rightarrow> (string, gql_policy) gomap \<Rightarrow> (string, gql_policy) gomap" where
  "add_fallback p m =
     (case gm_get m (gl_endpoint p) of
        None \<Rightarrow> gm_put (gl_endpoint p) p m
      | Some cur \<Rightarrow> if better_fallback p cur then gm_put (gl_endpoint p) p m else m)"

definition rebuild_runtime :: "gql_store \<Rightarrow> gql_store" where
  "rebuild_runtime s = s\<lparr>gq_runtime := \<lparr>rt_policies = gq_policies s, rt_contracts = gq_contracts s,
     rt_fallback = fold add_fallback (gm_values (gq_policies s)) [], rt_persisted = gq_persisted s\<rparr>\<rparr>"

definition prune_gql :: "gtime \<Rightarrow> gql_store \<Rightarrow> gql_store" where
  "prune_gql now s = s\<lparr>
     gq_operations := gm_remove_if (\<lambda>_ v. \<not> now < go_expires_at v) (gq_operations s),
     gq_persisted := gm_remove_if (\<lambda>_ v. \<not> now < gp_expires_at v) (gq_persisted s)\<rparr>"

definition runtime_policy :: "gql_env \<Rightarrow> gql_runtime \<Rightarrow> string \<Rightarrow> string \<Rightarrow> gql_policy option" where
  "runtime_policy env rt endpoint name =
     (case (if name \<noteq> [] then gm_get (rt_policies rt) (gql_policy_id env endpoint name) else None) of
        Some p \<Rightarrow> Some p
      | None \<Rightarrow> gm_get (rt_policies rt) (gql_policy_id env endpoint []))"

definition runtime_contract :: "gql_runtime \<Rightarrow> string \<Rightarrow> gql_contract option" where
  "runtime_contract rt cid = (if cid = [] then None else gm_get (rt_contracts rt) cid)"

definition persisted_profile :: "gql_runtime \<Rightarrow> string \<Rightarrow> gql_persisted option" where
  "persisted_profile rt h = (if \<not> valid_gql_hash h then None else gm_get (rt_persisted rt) (to_lower h))"

section \<open>Evaluation\<close>

text \<open>\<^verbatim>\<open>sort.SearchStrings\<close>: binary search for the first element that is not less.\<close>

function search_from :: "string list \<Rightarrow> string \<Rightarrow> nat \<Rightarrow> nat \<Rightarrow> nat" where
  "search_from xs v i j =
     (if i < j then let h = (i + j) div 2 in if xs ! h < v then search_from xs v (h + 1) j else search_from xs v i h else i)"
  by pat_completeness auto
termination by (relation "measure (\<lambda>(xs, v, i, j). j - i)") auto

declare search_from.simps [simp del]

definition contains_field :: "string list \<Rightarrow> string \<Rightarrow> bool" where
  "contains_field xs v \<longleftrightarrow> (let i = search_from xs v 0 (length xs) in i < length xs \<and> xs ! i = v)"

definition new_gql_violation :: "string \<Rightarrow> string \<Rightarrow> string \<Rightarrow> gql_mode \<Rightarrow> gql_violation_type \<Rightarrow> string \<Rightarrow> string \<Rightarrow> string \<Rightarrow>
    gtime \<Rightarrow> gql_violation" where
  "new_gql_violation endpoint opid name mode ty expd obs field now = \<lparr>gv_id = [], gv_time = now, gv_endpoint = endpoint,
     gv_operation = opid, gv_name = (if name \<noteq> [] \<and> \<not> valid_graphql_name name then [] else name), gv_contract = [],
     gv_mode = mode, gv_action = Learned, gv_type = ty, gv_expected = take 1024 expd, gv_observed = take 1024 obs,
     gv_field = (if field \<noteq> [] \<and> \<not> valid_field_path field then [] else field)\<rparr>"

text \<open>From a type along the names of a path.\<close>

fun allows_from :: "(string, gql_field_types) gomap \<Rightarrow> string \<Rightarrow> string list \<Rightarrow> bool" where
  "allows_from fts current [] = True"
| "allows_from fts current (f # fs) =
     (if has_prefix f ''__'' then True
      else (case gm_get fts current of
          None \<Rightarrow> True
        | Some ft \<Rightarrow> (case gm_get ft f of None \<Rightarrow> False | Some next_ty \<Rightarrow> allows_from fts next_ty fs)))"

definition contract_root :: "gql_contract \<Rightarrow> string \<Rightarrow> string" where
  "contract_root c ty = (if ty = ''mutation'' then gc_mutation c else if ty = ''subscription'' then gc_subscription c
     else gc_query c)"

definition schema_allows :: "gql_contract \<Rightarrow> string \<Rightarrow> string \<Rightarrow> bool" where
  "schema_allows c ty path =
     (let parts = split_on CHR ''.'' path in
      if length parts < 2 \<or> hd parts \<noteq> ty then False
      else if contract_root c ty = [] then False
      else allows_from (gc_field_types c) (contract_root c ty) (tl parts))"

definition evaluate_policy :: "gql_policy \<Rightarrow> gql_contract option \<Rightarrow> graphql_analysis \<Rightarrow> bool \<Rightarrow> string \<Rightarrow> string \<Rightarrow> gtime \<Rightarrow>
    gql_violation list" where
  "evaluate_policy p contract a persisted endpoint opid now =
     (let v = (\<lambda>ty expd obs field. new_gql_violation endpoint opid (ga_name a) (gl_mode p) ty expd obs field now) in
      (if gl_max_depth p > 0 \<and> int (ga_depth a) > gl_max_depth p
       then [v Depth_Limit (decimal_of (nat (gl_max_depth p))) (decimal_of (ga_depth a)) []] else []) @
      (if gl_max_complexity p > 0 \<and> int (ga_complexity a) > gl_max_complexity p
       then [v Complexity_Limit (decimal_of (nat (gl_max_complexity p))) (decimal_of (ga_complexity a)) []] else []) @
      (if ga_introspection a \<and> \<not> gl_introspection p then [v Introspection_Disabled ''false'' ''true'' []] else []) @
      (if ga_type a = ''mutation'' \<and> \<not> gl_mutation p then [v Mutation_Disabled ''query-only'' ''mutation'' []] else []) @
      (if ga_type a = ''subscription'' \<and> \<not> gl_subscription p
       then [v Subscription_Disabled ''query-only'' ''subscription'' []] else []) @
      (if gl_persisted p \<and> \<not> persisted then [v Persisted_Required ''persisted query'' ''inline query'' []] else []) @
      (case contract of
         None \<Rightarrow> []
       | Some c \<Rightarrow> map (\<lambda>f. (v Schema_Mismatch ''field declared by imported GraphQL SDL'' f f)\<lparr>gv_contract := gc_id c\<rparr>)
           (filter (\<lambda>f. \<not> schema_allows c (ga_type a) f) (ga_fields a))) @
      concat (map (\<lambda>f.
        (if gl_allowed p \<noteq> [] \<and> \<not> contains_field (gl_allowed p) f then [v Field_Not_Allowed ''allowed field'' f f] else []) @
        (if contains_field (gl_denied p) f then [v Field_Denied ''field not present'' f f] else [])) (ga_fields a)))"

end
