(* ===== verification/Graphql_Store.thy ===== *)
theory Graphql_Store
  imports Graphql_Policy
begin

text \<open>
  The operations of the GraphQL store of \<^verbatim>\<open>graphql_api8.go\<close>: observations, schema
  contracts, policies and their modes, violations, snapshots, the state file. Each operation runs
  under the store's mutex. \<open>upsert_policy\<close> reads the contract once before it takes the lock:
  that reading is its argument \<open>seen\<close>. The lists of a policy are sorted when an operator
  sends them; \<^verbatim>\<open>load\<close> takes them as the file has them.
\<close>

section \<open>Observations\<close>

record gql_sample =
  vs_name :: string
  vs_type :: string
  vs_value :: string

record gql_observation =
  gb_operation :: gql_operation
  gb_persisted :: "gql_persisted option"
  gb_variables :: "gql_sample list"
  gb_identity :: object_observation
  gb_at :: gtime

definition operation_type_ok :: "string \<Rightarrow> bool" where
  "operation_type_ok t \<longleftrightarrow> t = ''query'' \<or> t = ''mutation'' \<or> t = ''subscription''"

definition valid_gql_operation :: "gql_env \<Rightarrow> gtime \<Rightarrow> gql_operation \<Rightarrow> bool" where
  "valid_gql_operation env now v \<longleftrightarrow>
     valid_operation_id (go_id v) \<and> valid_operation_id (go_endpoint v) \<and>
     go_id v = gql_operation_id env (go_endpoint v) (go_type v) (go_name v) (go_fingerprint v) \<and>
     operation_type_ok (go_type v) \<and> (go_name v = [] \<or> valid_graphql_name (go_name v)) \<and>
     valid_gql_hash (go_fingerprint v) \<and> 0 \<le> go_depth v \<and> go_depth v \<le> int absolute_max_depth \<and>
     0 \<le> go_complexity v \<and> go_complexity v \<le> int absolute_max_complexity \<and>
     length (go_fields v) \<le> max_query_fields \<and> length (go_variables v) \<le> max_variables \<and> go_count v \<noteq> 0 \<and>
     \<not> time_is_zero (go_first_seen v) \<and> \<not> time_is_zero (go_last_seen v) \<and> now < go_expires_at v \<and>
     list_all valid_field_path (go_fields v) \<and> list_all valid_graphql_name (go_variables v) \<and>
     (go_persisted v = [] \<or> valid_gql_hash (go_persisted v))"

definition valid_gql_persisted :: "gql_env \<Rightarrow> gtime \<Rightarrow> gql_persisted \<Rightarrow> bool" where
  "valid_gql_persisted env now v \<longleftrightarrow>
     valid_gql_hash (gp_hash v) \<and> valid_operation_id (gp_operation v) \<and> valid_operation_id (gp_endpoint v) \<and>
     operation_type_ok (gp_type v) \<and> (gp_name v = [] \<or> valid_graphql_name (gp_name v)) \<and>
     gp_operation v = gql_operation_id env (gp_endpoint v) (gp_type v) (gp_name v) (gp_fingerprint v) \<and>
     valid_gql_hash (gp_fingerprint v) \<and> 0 \<le> gp_depth v \<and> gp_depth v \<le> int absolute_max_depth \<and>
     0 \<le> gp_complexity v \<and> gp_complexity v \<le> int absolute_max_complexity \<and>
     length (gp_fields v) \<le> max_query_fields \<and> length (gp_variables v) \<le> max_variables \<and>
     \<not> time_is_zero (gp_first_seen v) \<and> \<not> time_is_zero (gp_last_seen v) \<and> now < gp_expires_at v"

definition touch_operation :: "gtime \<Rightarrow> string \<Rightarrow> gql_operation \<Rightarrow> gql_operation" where
  "touch_operation now h v = v\<lparr>go_count := sat_incr (go_count v), go_last_seen := now,
     go_expires_at := now + operation_ttl, go_persisted := (if go_persisted v = [] then h else go_persisted v)\<rparr>"

definition merge_operation :: "gtime \<Rightarrow> gql_operation \<Rightarrow> (string, gql_operation) gomap \<Rightarrow> (string, gql_operation) gomap" where
  "merge_operation now op m =
     (case gm_get m (go_id op) of
        Some v \<Rightarrow> gm_put (go_id op) (touch_operation now (go_persisted op) v) m
      | None \<Rightarrow>
          if length m < max_operations
          then gm_put (go_id op) (touch_operation now (go_persisted op) (op\<lparr>go_count := 0, go_first_seen := now\<rparr>)) m
          else m)"

definition merge_persisted :: "gtime \<Rightarrow> gql_persisted \<Rightarrow> (string, gql_persisted) gomap \<Rightarrow> (string, gql_persisted) gomap" where
  "merge_persisted now p m =
     (let touch = (\<lambda>v. v\<lparr>gp_last_seen := now, gp_expires_at := now + persisted_ttl\<rparr>) in
      case gm_get m (gp_hash p) of
        Some v \<Rightarrow> gm_put (gp_hash p) (touch v) m
      | None \<Rightarrow> if length m < max_persisted then gm_put (gp_hash p) (touch (p\<lparr>gp_first_seen := now\<rparr>)) m else m)"

definition merge_observation :: "gql_env \<Rightarrow> gtime \<Rightarrow> gql_observation \<Rightarrow> gql_store \<Rightarrow> gql_store" where
  "merge_observation env now ev s =
     (let s = prune_gql now s;
          s = s\<lparr>gq_operations := merge_operation now (gb_operation ev) (gq_operations s)\<rparr>;
          s = (case gb_persisted ev of
                 None \<Rightarrow> s
               | Some p \<Rightarrow> if valid_gql_persisted env now p
                   then s\<lparr>gq_persisted := merge_persisted now p (gq_persisted s)\<rparr> else s)
      in rebuild_runtime s)"

text \<open>A variable becomes a locator and, with a verified identity, an observation handed to the
  queue of the relationships (\<^verbatim>\<open>enqueueKeyed\<close>). Values leave only as keyed digests.\<close>

definition keyed_observation :: "object_observation \<Rightarrow> object_locator \<Rightarrow> string \<Rightarrow> string \<Rightarrow> object_observation" where
  "keyed_observation ev loc object src = ev\<lparr>ob_operation := ol_operation loc, ob_direct_locator := ol_id loc,
     ob_direct_location := ol_location loc, ob_direct_field := ol_field loc, ob_direct_object := object,
     ob_direct_source := src\<rparr>"

definition note_variable :: "object_env \<Rightarrow> gtime \<Rightarrow> gql_observation \<Rightarrow> gql_sample \<Rightarrow>
    locator_store \<times> object_observation list \<Rightarrow> locator_store \<times> object_observation list" where
  "note_variable oenv now ev v acc =
     (let op = go_id (gb_operation ev); (st, sent) = acc in
      if vs_value v = [] then acc
      else (case note_graphql_variable oenv op (vs_name v) (vs_type v) (vs_value v) now st of
          (None, st) \<Rightarrow> (st, sent)
        | (Some loc, st) \<Rightarrow>
            let object = digest_value oenv op ''graphql_variable'' (vs_name v) (vs_value v) in
            if object = [] \<or> ob_identity (gb_identity ev) = [] \<or> ol_id loc = [] then (st, sent)
            else (st, sent @ [keyed_observation ((gb_identity ev)\<lparr>ob_operation := op, ob_at := now\<rparr>) loc object source_api8])))"

definition observation_time :: "gtime \<Rightarrow> gql_observation \<Rightarrow> gtime" where
  "observation_time clock ev = (if time_is_zero (gb_at ev) then clock else gb_at ev)"

definition absorb_graphql :: "gql_env \<Rightarrow> gtime \<Rightarrow> gql_observation \<Rightarrow> gql_store \<Rightarrow> gql_store" where
  "absorb_graphql env clock ev s =
     (if go_id (gb_operation ev) = [] then s
      else let s = merge_observation env (observation_time clock ev) ev s in s\<lparr>gq_processed := gq_processed s + 1\<rparr>)"

definition process_graphql :: "gql_env \<Rightarrow> object_env \<Rightarrow> gtime \<Rightarrow> gql_observation \<Rightarrow> gql_store \<Rightarrow> locator_store \<Rightarrow>
    gql_store \<times> locator_store \<times> object_observation list" where
  "process_graphql env oenv clock ev s st =
     (absorb_graphql env clock ev s,
      if go_id (gb_operation ev) = [] then (st, [])
      else fold (note_variable oenv (observation_time clock ev) ev) (gb_variables ev) (st, []))"

section \<open>Schema contracts\<close>

datatype gql_store_error =
    Bad_Schema_Name | Bad_Endpoint | Bad_Sdl_Size | Bad_Sdl gql_error | Contracts_Full | Contract_Missing
  | Contract_In_Use string | Too_Many_Selectors | Bad_Selector string | Bad_Operation_Name | Bad_Contract_Reference
  | Bad_Max_Depth | Bad_Max_Complexity | Bad_Gql_Status | Long_Reason | Gql_Policies_Full | Bad_Gql_Mode
  | Gql_Policy_Missing | Bad_Transition gql_mode gql_mode | Reason_Required

definition new_contract :: "gql_env \<Rightarrow> gtime \<Rightarrow> string \<Rightarrow> string \<Rightarrow> string \<Rightarrow> sdl_state \<Rightarrow> string \<Rightarrow> gql_contract" where
  "new_contract env now name endpoint sdl d who = \<lparr>gc_id = contract_id env endpoint name, gc_name = name,
     gc_endpoint = endpoint, gc_source = ge_sha256 env sdl, gc_query = sd_query d, gc_mutation = sd_mutation d,
     gc_subscription = sd_subscription d, gc_types = sd_types d, gc_field_types = sd_field_types d,
     gc_created_at = now, gc_updated_at = now, gc_created_by = who\<rparr>"

definition changed_reason :: string where "changed_reason = ''schema contract changed; revalidation required''"

definition revalidate :: "gtime \<Rightarrow> string \<Rightarrow> string \<Rightarrow> gql_policy \<Rightarrow> gql_policy" where
  "revalidate now who cid p = (if gl_contract p = cid
     then p\<lparr>gl_mode := Learn, gl_updated_at := now, gl_updated_by := who, gl_reason := changed_reason\<rparr> else p)"

definition upsert_contract :: "gql_env \<Rightarrow> gtime \<Rightarrow> string \<Rightarrow> string \<Rightarrow> string \<Rightarrow> string \<Rightarrow> gql_store \<Rightarrow>
    (gql_store_error + gql_contract) \<times> gql_store" where
  "upsert_contract env now name endpoint sdl who s =
     (let name = trim_space name; endpoint = trim_space endpoint in
      if name = [] \<or> length name > 128 then (Inl Bad_Schema_Name, s)
      else if \<not> valid_operation_id endpoint then (Inl Bad_Endpoint, s)
      else if sdl = [] \<or> length sdl > max_schema_bytes then (Inl Bad_Sdl_Size, s)
      else (case parse_sdl sdl of
          Inl e \<Rightarrow> (Inl (Bad_Sdl e), s)
        | Inr d \<Rightarrow>
            let row = new_contract env now name endpoint sdl d who; cid = gc_id row in
            (case gm_get (gq_contracts s) cid of
               Some old \<Rightarrow>
                 let row = row\<lparr>gc_created_at := gc_created_at old\<rparr>;
                     ps = (if gc_source old \<noteq> gc_source row
                       then map (\<lambda>(k, p). (k, revalidate now who cid p)) (gq_policies s) else gq_policies s)
                 in (Inr row, rebuild_runtime (s\<lparr>gq_policies := ps, gq_contracts := gm_put cid row (gq_contracts s)\<rparr>))
             | None \<Rightarrow>
                 if length (gq_contracts s) \<ge> max_contracts then (Inl Contracts_Full, s)
                 else (Inr row, rebuild_runtime (s\<lparr>gq_contracts := gm_put cid row (gq_contracts s)\<rparr>)))))"

definition delete_contract :: "string \<Rightarrow> gql_store \<Rightarrow> (gql_store_error + gql_contract) \<times> gql_store" where
  "delete_contract cid s =
     (case gm_get (gq_contracts s) cid of
        None \<Rightarrow> (Inl Contract_Missing, s)
      | Some c \<Rightarrow>
          (case find (\<lambda>p. gl_contract p = cid) (gm_values (gq_policies s)) of
             Some p \<Rightarrow> (Inl (Contract_In_Use (gl_id p)), s)
           | None \<Rightarrow> (Inr c, rebuild_runtime (s\<lparr>gq_contracts := gm_del cid (gq_contracts s)\<rparr>))))"

section \<open>Policies\<close>

definition normalize_selectors :: "string list \<Rightarrow> gql_store_error + string list" where
  "normalize_selectors xs =
     (if length xs > max_policy_fields then Inl Too_Many_Selectors
      else (case find (\<lambda>x. \<not> valid_field_path (trim_space x)) xs of
          Some x \<Rightarrow> Inl (Bad_Selector x)
        | None \<Rightarrow> Inr (sort_strings (remdups (map trim_space xs)))))"

definition contract_serves :: "gql_contract option \<Rightarrow> string \<Rightarrow> bool" where
  "contract_serves c endpoint \<longleftrightarrow> (case c of None \<Rightarrow> False | Some c \<Rightarrow> gc_endpoint c = endpoint)"

text \<open>The checks of a request before the lock, and the request as they leave it.\<close>

definition check_policy :: "gql_contract option \<Rightarrow> gql_policy \<Rightarrow> gql_store_error + gql_policy" where
  "check_policy seen req =
     (let req = req\<lparr>gl_endpoint := trim_space (gl_endpoint req), gl_name := trim_space (gl_name req)\<rparr> in
      if \<not> valid_operation_id (gl_endpoint req) then Inl Bad_Endpoint
      else if gl_name req \<noteq> [] \<and> \<not> valid_graphql_name (gl_name req) then Inl Bad_Operation_Name
      else if gl_contract req \<noteq> [] \<and> \<not> contract_serves seen (gl_endpoint req) then Inl Bad_Contract_Reference
      else (case normalize_selectors (gl_allowed req) of
          Inl e \<Rightarrow> Inl e
        | Inr allowed \<Rightarrow>
            (case normalize_selectors (gl_denied req) of
               Inl e \<Rightarrow> Inl e
             | Inr denied \<Rightarrow>
                 let status = (if gl_status req = 0 then 400 else gl_status req); reason = trim_space (gl_reason req) in
                 if gl_max_depth req < 0 \<or> gl_max_depth req > int absolute_max_depth then Inl Bad_Max_Depth
                 else if gl_max_complexity req < 0 \<or> gl_max_complexity req > int absolute_max_complexity
                 then Inl Bad_Max_Complexity
                 else if status < 400 \<or> status > 499 then Inl Bad_Gql_Status
                 else if length reason > max_policy_reason then Inl Long_Reason
                 else Inr (req\<lparr>gl_allowed := allowed, gl_denied := denied, gl_status := status, gl_reason := reason\<rparr>))))"

definition edited_policy :: "string \<Rightarrow> gtime \<Rightarrow> string \<Rightarrow> gql_policy \<Rightarrow> gql_policy option \<Rightarrow> gql_policy" where
  "edited_policy pid now who req old =
     req\<lparr>gl_id := (case old of None \<Rightarrow> pid | Some p \<Rightarrow> gl_id p), gl_mode := Learn, gl_contract := trim_space (gl_contract req),
       gl_created_at := (case old of None \<Rightarrow> now | Some p \<Rightarrow> gl_created_at p),
       gl_created_by := (case old of None \<Rightarrow> who | Some p \<Rightarrow> gl_created_by p),
       gl_endpoint := (case old of None \<Rightarrow> gl_endpoint req | Some p \<Rightarrow> gl_endpoint p),
       gl_name := (case old of None \<Rightarrow> gl_name req | Some p \<Rightarrow> gl_name p),
       gl_updated_at := now, gl_updated_by := who\<rparr>"

definition upsert_gql_policy :: "gql_env \<Rightarrow> gtime \<Rightarrow> gql_contract option \<Rightarrow> gql_policy \<Rightarrow> string \<Rightarrow> gql_store \<Rightarrow>
    (gql_store_error + gql_policy) \<times> gql_store" where
  "upsert_gql_policy env now seen req who s =
     (case check_policy seen req of
        Inl e \<Rightarrow> (Inl e, s)
      | Inr req \<Rightarrow>
          let pid = gql_policy_id env (gl_endpoint req) (gl_name req); old = gm_get (gq_policies s) pid in
          if gl_contract req \<noteq> [] \<and> \<not> contract_serves (gm_get (gq_contracts s) (gl_contract req)) (gl_endpoint req)
          then (Inl Bad_Contract_Reference, s)
          else if old = None \<and> length (gq_policies s) \<ge> max_gql_policies then (Inl Gql_Policies_Full, s)
          else let p = edited_policy pid now who req old
            in (Inr p, rebuild_runtime (s\<lparr>gq_policies := gm_put pid p (gq_policies s)\<rparr>)))"

definition mode_transition :: "gql_mode \<Rightarrow> gql_mode \<Rightarrow> bool" where
  "mode_transition old new \<longleftrightarrow> (if old = new then True
     else (case old of Learn \<Rightarrow> new = Detect | Detect \<Rightarrow> new = Learn \<or> new = Enforce | Enforce \<Rightarrow> new = Detect \<or> new = Learn))"

definition set_gql_mode :: "gtime \<Rightarrow> string \<Rightarrow> string \<Rightarrow> string \<Rightarrow> string \<Rightarrow> gql_store \<Rightarrow>
    (gql_store_error + gql_policy) \<times> gql_store" where
  "set_gql_mode now pid mode who reason s =
     (let reason = trim_space reason in
      if length reason > max_policy_reason then (Inl Long_Reason, s)
      else (case parse_mode (to_upper (trim_space mode)) of
          None \<Rightarrow> (Inl Bad_Gql_Mode, s)
        | Some m \<Rightarrow>
            (case gm_get (gq_policies s) pid of
               None \<Rightarrow> (Inl Gql_Policy_Missing, s)
             | Some p \<Rightarrow>
                 if \<not> mode_transition (gl_mode p) m then (Inl (Bad_Transition (gl_mode p) m), s)
                 else if m = Enforce \<and> reason = [] then (Inl Reason_Required, s)
                 else let p = p\<lparr>gl_mode := m, gl_updated_at := now, gl_updated_by := who, gl_reason := reason\<rparr>
                   in (Inr p, rebuild_runtime (s\<lparr>gq_policies := gm_put pid p (gq_policies s)\<rparr>)))))"

definition delete_gql_policy :: "string \<Rightarrow> gql_store \<Rightarrow> (gql_store_error + gql_policy) \<times> gql_store" where
  "delete_gql_policy pid s =
     (case gm_get (gq_policies s) pid of
        None \<Rightarrow> (Inl Gql_Policy_Missing, s)
      | Some p \<Rightarrow> (Inr p, rebuild_runtime (s\<lparr>gq_policies := gm_del pid (gq_policies s)\<rparr>)))"

section \<open>Violations\<close>

definition violation_type_text :: "gql_violation_type \<Rightarrow> string" where
  "violation_type_text t = (case t of
       Malformed \<Rightarrow> ''MALFORMED_GRAPHQL'' | Absolute_Depth \<Rightarrow> ''ABSOLUTE_DEPTH_LIMIT''
     | Absolute_Complexity \<Rightarrow> ''ABSOLUTE_COMPLEXITY_LIMIT'' | Depth_Limit \<Rightarrow> ''DEPTH_LIMIT''
     | Complexity_Limit \<Rightarrow> ''COMPLEXITY_LIMIT'' | Introspection_Disabled \<Rightarrow> ''INTROSPECTION_DISABLED''
     | Mutation_Disabled \<Rightarrow> ''MUTATION_DISABLED'' | Subscription_Disabled \<Rightarrow> ''SUBSCRIPTION_DISABLED''
     | Persisted_Required \<Rightarrow> ''PERSISTED_QUERY_REQUIRED'' | Schema_Mismatch \<Rightarrow> ''SCHEMA_FIELD_MISMATCH''
     | Field_Not_Allowed \<Rightarrow> ''FIELD_NOT_ALLOWED'' | Field_Denied \<Rightarrow> ''FIELD_DENIED'')"

text \<open>\<^verbatim>\<open>Time.UnixNano\<close>, an int64 that wraps, and its decimal digits.\<close>

definition unix_epoch :: gtime where "unix_epoch = 62135596800 * second"

definition unix_nano :: "gtime \<Rightarrow> int" where
  "unix_nano t = sint (word_of_int (t - unix_epoch) :: 64 word)"

definition decimal_of_int :: "int \<Rightarrow> string" where
  "decimal_of_int n = (if n < 0 then ''-'' @ decimal_of (nat (- n)) else decimal_of (nat n))"

definition stamp_violation :: "gql_env \<Rightarrow> gtime \<Rightarrow> gql_violation \<Rightarrow> gql_violation" where
  "stamp_violation env now v =
     (let v = (if time_is_zero (gv_time v) then v\<lparr>gv_time := now\<rparr> else v) in
      if gv_id v = [] then v\<lparr>gv_id := ge_hash16 env (join_nul [''api8-violation'', gv_operation v,
        violation_type_text (gv_type v), gv_field v, decimal_of_int (unix_nano (gv_time v))])\<rparr> else v)"

definition last_n :: "nat \<Rightarrow> 'a list \<Rightarrow> 'a list" where
  "last_n n xs = drop (length xs - n) xs"

definition record_gql_violations :: "gql_env \<Rightarrow> gtime \<Rightarrow> gql_violation list \<Rightarrow> gql_store \<Rightarrow> gql_store" where
  "record_gql_violations env now vs s =
     (if vs = [] then s
      else s\<lparr>gq_violations := last_n max_gql_violations (gq_violations s @ map (stamp_violation env now) vs)\<rparr>)"

section \<open>Snapshots\<close>

definition operations_snapshot :: "gtime \<Rightarrow> gql_store \<Rightarrow> gql_operation list \<times> gql_store" where
  "operations_snapshot now s =
     (let s = prune_gql now s in
      (sort_by (\<lambda>a b. if go_last_seen a \<noteq> go_last_seen b then go_last_seen b < go_last_seen a else go_id a < go_id b)
         (gm_values (gq_operations s)), s))"

definition persisted_snapshot :: "gtime \<Rightarrow> gql_store \<Rightarrow> gql_persisted list \<times> gql_store" where
  "persisted_snapshot now s =
     (let s = prune_gql now s in
      (sort_by (\<lambda>a b. gp_last_seen b < gp_last_seen a) (gm_values (gq_persisted s)), s))"

definition gql_policies_snapshot :: "gql_store \<Rightarrow> gql_policy list" where
  "gql_policies_snapshot s = sort_by (\<lambda>a b. gl_id a < gl_id b) (gm_values (gq_policies s))"

definition contracts_snapshot :: "gql_store \<Rightarrow> gql_contract list" where
  "contracts_snapshot s = sort_by (\<lambda>a b. gc_name a < gc_name b) (gm_values (gq_contracts s))"

definition violations_snapshot :: "int \<Rightarrow> gql_store \<Rightarrow> gql_violation list" where
  "violations_snapshot limit s =
     (let n = (if limit \<le> 0 \<or> limit > 500 then 100 else nat limit) in rev (last_n n (gq_violations s)))"

section \<open>The state file\<close>

record gql_file =
  gf_version :: int
  gf_operations :: "gql_operation list"
  gf_persisted :: "gql_persisted list"
  gf_contracts :: "gql_contract list"
  gf_policies :: "gql_policy list"
  gf_violations :: "gql_violation list"

definition save_gql :: "gtime \<Rightarrow> gql_store \<Rightarrow> gql_file \<times> gql_store" where
  "save_gql now s =
     (let s = prune_gql now s in
      (\<lparr>gf_version = 1, gf_operations = gm_values (gq_operations s), gf_persisted = gm_values (gq_persisted s),
         gf_contracts = gm_values (gq_contracts s), gf_policies = gm_values (gq_policies s),
         gf_violations = gq_violations s\<rparr>, s))"

definition hex32 :: "string \<Rightarrow> bool" where
  "hex32 v \<longleftrightarrow> length v = 32 \<and> hex_decodes v"

definition valid_gql_policy :: "gql_env \<Rightarrow> gql_policy \<Rightarrow> bool" where
  "valid_gql_policy env v \<longleftrightarrow>
     hex32 (gl_id v) \<and> gl_id v = gql_policy_id env (gl_endpoint v) (gl_name v) \<and> valid_operation_id (gl_endpoint v) \<and>
     (gl_name v = [] \<or> valid_graphql_name (gl_name v)) \<and> (gl_contract v = [] \<or> hex32 (gl_contract v)) \<and>
     0 \<le> gl_max_depth v \<and> gl_max_depth v \<le> int absolute_max_depth \<and>
     0 \<le> gl_max_complexity v \<and> gl_max_complexity v \<le> int absolute_max_complexity \<and>
     length (gl_allowed v) \<le> max_policy_fields \<and> length (gl_denied v) \<le> max_policy_fields \<and>
     400 \<le> gl_status v \<and> gl_status v \<le> 499 \<and> \<not> time_is_zero (gl_created_at v) \<and> \<not> time_is_zero (gl_updated_at v) \<and>
     length (gl_reason v) \<le> max_policy_reason \<and> list_all valid_field_path (gl_allowed v @ gl_denied v)"

definition valid_gql_violation :: "gql_violation \<Rightarrow> bool" where
  "valid_gql_violation v \<longleftrightarrow>
     hex32 (gv_id v) \<and> \<not> time_is_zero (gv_time v) \<and> valid_operation_id (gv_endpoint v) \<and>
     (gv_operation v = [] \<or> valid_operation_id (gv_operation v)) \<and> (gv_name v = [] \<or> valid_graphql_name (gv_name v)) \<and>
     (gv_contract v = [] \<or> hex32 (gv_contract v)) \<and> length (gv_expected v) \<le> 1024 \<and> length (gv_observed v) \<le> 1024 \<and>
     (gv_field v = [] \<or> valid_field_path (gv_field v))"

definition valid_type_fields :: "(string, gql_field_types) gomap \<Rightarrow> string \<Rightarrow> string list \<Rightarrow> bool" where
  "valid_type_fields fts t fs \<longleftrightarrow>
     (let ft = (case gm_get fts t of None \<Rightarrow> [] | Some ft \<Rightarrow> ft) in
      valid_graphql_name t \<and> length fs \<le> max_schema_fields \<and> length ft = length fs \<and>
      list_all (\<lambda>f. valid_graphql_name f \<and> valid_graphql_name (case gm_get ft f of None \<Rightarrow> [] | Some ty \<Rightarrow> ty)) fs)"

definition valid_gql_contract :: "gql_env \<Rightarrow> gql_contract \<Rightarrow> bool" where
  "valid_gql_contract env v \<longleftrightarrow>
     length (gc_id v) = 32 \<and> gc_id v = contract_id env (gc_endpoint v) (gc_name v) \<and> valid_operation_id (gc_endpoint v) \<and>
     trim_space (gc_name v) \<noteq> [] \<and> length (gc_name v) \<le> 128 \<and> valid_gql_hash (gc_source v) \<and>
     valid_graphql_name (gc_query v) \<and> (gc_mutation v = [] \<or> valid_graphql_name (gc_mutation v)) \<and>
     (gc_subscription v = [] \<or> valid_graphql_name (gc_subscription v)) \<and> gc_types v \<noteq> [] \<and>
     length (gc_types v) \<le> max_schema_types \<and> length (gc_field_types v) = length (gc_types v) \<and>
     \<not> time_is_zero (gc_created_at v) \<and> \<not> time_is_zero (gc_updated_at v) \<and>
     list_all (\<lambda>(t, fs). valid_type_fields (gc_field_types v) t fs) (gc_types v) \<and>
     sum_list (map length (gm_values (gc_types v))) \<le> max_schema_fields"

text \<open>A list of a file into a table that has a limit.\<close>

definition load_gql_table :: "nat \<Rightarrow> ('v \<Rightarrow> string) \<Rightarrow> ('v \<Rightarrow> bool) \<Rightarrow> 'v list \<Rightarrow> (string, 'v) gomap \<Rightarrow> (string, 'v) gomap" where
  "load_gql_table n key ok vs m = fold (\<lambda>v m. if length m \<ge> n \<or> \<not> ok v then m else gm_put (key v) v m) vs m"

definition policy_linked :: "(string, gql_contract) gomap \<Rightarrow> gql_policy \<Rightarrow> bool" where
  "policy_linked cs v \<longleftrightarrow> gl_contract v = [] \<or> contract_serves (gm_get cs (gl_contract v)) (gl_endpoint v)"

definition load_gql :: "gql_env \<Rightarrow> gtime \<Rightarrow> gql_file \<Rightarrow> gql_store \<Rightarrow> gql_store option" where
  "load_gql env now f s =
     (if gf_version f \<notin> {0, 1} then None
      else
        let cs = load_gql_table max_contracts gc_id (valid_gql_contract env) (gf_contracts f) (gq_contracts s) in
        Some (rebuild_runtime (s\<lparr>
          gq_operations := load_gql_table max_operations go_id (valid_gql_operation env now) (gf_operations f) (gq_operations s),
          gq_persisted := load_gql_table max_persisted gp_hash (valid_gql_persisted env now) (gf_persisted f) (gq_persisted s),
          gq_contracts := cs,
          gq_policies := load_gql_table max_gql_policies gl_id (\<lambda>v. valid_gql_policy env v \<and> policy_linked cs v)
            (gf_policies f) (gq_policies s),
          gq_violations := filter valid_gql_violation (last_n max_gql_violations (gf_violations f))\<rparr>)))"

section \<open>The machine\<close>

datatype gql_event =
    Observe_Graphql gtime gql_observation
  | Import_Contract gtime string string string string
  | Drop_Contract string
  | Edit_Policy gtime "gql_contract option" gql_policy string
  | Change_Mode gtime string string string string
  | Drop_Policy string
  | Report_Violations gtime "gql_violation list"
  | List_Operations gtime
  | List_Persisted gtime
  | Write_File gtime

text \<open>What an observation does to the locators is a step of the object plane.\<close>

fun gql_step :: "gql_env \<Rightarrow> gql_event \<Rightarrow> gql_store \<Rightarrow> gql_store" where
  "gql_step env (Observe_Graphql clock ev) s = absorb_graphql env clock ev s"
| "gql_step env (Import_Contract now name endpoint sdl who) s = snd (upsert_contract env now name endpoint sdl who s)"
| "gql_step env (Drop_Contract cid) s = snd (delete_contract cid s)"
| "gql_step env (Edit_Policy now seen req who) s = snd (upsert_gql_policy env now seen req who s)"
| "gql_step env (Change_Mode now pid mode who reason) s = snd (set_gql_mode now pid mode who reason s)"
| "gql_step env (Drop_Policy pid) s = snd (delete_gql_policy pid s)"
| "gql_step env (Report_Violations now vs) s = record_gql_violations env now vs s"
| "gql_step env (List_Operations now) s = snd (operations_snapshot now s)"
| "gql_step env (List_Persisted now) s = snd (persisted_snapshot now s)"
| "gql_step env (Write_File now) s = snd (save_gql now s)"

end
