(* ===== verification/Graphql_Wrap.thy ===== *)
theory Graphql_Wrap
  imports Graphql_Store
begin

text \<open>
  The request path of \<^verbatim>\<open>graphql_api8.go\<close> (\<^verbatim>\<open>decodeGraphQLEnvelope\<close> and
  \<^verbatim>\<open>wrap\<close>): a request is read as a GraphQL envelope, its document analysed, the policy of its
  endpoint looked up in the snapshot and evaluated, and the request served or refused.

  A request stands here with its endpoint id, its lower-case media type, and what
  \<^verbatim>\<open>encoding/json\<close> makes of its JSON parts. The path loads the snapshot several
  times, and each load may see another one: \<open>gql_loads\<close> holds them.
\<close>

section \<open>Envelopes\<close>

datatype scalar_json = Json_String string | Json_Number string | Json_Other

record variable_json =
  vj_raw :: string
  vj_value :: scalar_json

datatype extension_json = No_Extensions | Bad_Extensions | Extensions "(int \<times> string) option"

type_synonym variables_json = "(string, variable_json) gomap"

record body_json =
  bj_query :: string
  bj_operation :: string
  bj_variables :: variables_json
  bj_extensions :: extension_json

record gql_request =
  gr_site :: string
  gr_endpoint :: string
  gr_method :: string
  gr_media :: string
  gr_url_query :: string
  gr_url_operation :: string
  gr_url_variables :: string
  gr_url_variables_json :: "variables_json option"
  gr_url_extensions :: extension_json
  gr_body :: string
  gr_truncated :: bool
  gr_body_json :: "body_json option"
  gr_identity :: object_observation

record gql_envelope =
  ev_query :: string
  ev_operation :: string
  ev_variables :: variables_json
  ev_hash :: string
  ev_persisted :: bool

datatype gql_request_error =
    Variables_Exceed | Variables_Invalid | Capture_Exceeded | Empty_Request | Envelope_Exceeded | Envelope_Invalid
  | Extensions_Invalid | Persisted_Version | Persisted_Hash | Document_Too_Large | Hash_Mismatch | Hash_Unknown
  | Query_Required | Bad_Document gql_error

datatype gql_decoded = Not_Graphql | Graphql gql_envelope "gql_request_error option"

definition empty_envelope :: gql_envelope where
  "empty_envelope = \<lparr>ev_query = [], ev_operation = [], ev_variables = [], ev_hash = [], ev_persisted = False\<rparr>"

definition decode_persisted :: "extension_json \<Rightarrow> gql_envelope \<Rightarrow> gql_decoded" where
  "decode_persisted x e =
     (case x of
        No_Extensions \<Rightarrow> Graphql e None
      | Bad_Extensions \<Rightarrow> Graphql e (Some Extensions_Invalid)
      | Extensions None \<Rightarrow> Graphql e None
      | Extensions (Some (version, raw)) \<Rightarrow>
          let h = to_lower (trim_space raw) in
          if version \<noteq> 1 then Graphql e (Some Persisted_Version)
          else if \<not> valid_gql_hash h then Graphql e (Some Persisted_Hash)
          else Graphql (e\<lparr>ev_hash := h, ev_persisted := True\<rparr>) None)"

definition json_media :: "string \<Rightarrow> bool" where
  "json_media ct \<longleftrightarrow> ct = ''application/json'' \<or> ct = ''application/graphql+json''"

definition decode_get :: "gql_request \<Rightarrow> gql_decoded" where
  "decode_get r =
     (let e = empty_envelope\<lparr>ev_query := gr_url_query r, ev_operation := gr_url_operation r\<rparr> in
      if gr_url_query r = [] \<and> gr_url_extensions r = No_Extensions then Not_Graphql
      else if gr_url_variables r = [] then decode_persisted (gr_url_extensions r) e
      else if length (gr_url_variables r) > max_query_bytes then Graphql e (Some Variables_Exceed)
      else (case gr_url_variables_json r of
          None \<Rightarrow> Graphql e (Some Variables_Invalid)
        | Some vs \<Rightarrow> decode_persisted (gr_url_extensions r) (e\<lparr>ev_variables := vs\<rparr>)))"

definition decode_post :: "gql_request \<Rightarrow> gql_decoded" where
  "decode_post r =
     (if gr_media r = ''application/graphql'' then
        (if gr_truncated r then Graphql empty_envelope (Some Capture_Exceeded)
         else if gr_body r = [] then Graphql empty_envelope (Some Empty_Request)
         else Graphql (empty_envelope\<lparr>ev_query := gr_body r\<rparr>) None)
      else if \<not> json_media (gr_media r) \<or> gr_body r = [] then Not_Graphql
      else if gr_truncated r then Graphql empty_envelope (Some Envelope_Exceeded)
      else (case gr_body_json r of
          None \<Rightarrow> Not_Graphql
        | Some b \<Rightarrow>
            if bj_query b = [] \<and> bj_extensions b = No_Extensions then Not_Graphql
            else decode_persisted (bj_extensions b)
              (empty_envelope\<lparr>ev_query := bj_query b, ev_operation := bj_operation b, ev_variables := bj_variables b\<rparr>)))"

definition decode_envelope :: "gql_request \<Rightarrow> gql_decoded" where
  "decode_envelope r = (if gr_method r = ''GET'' then decode_get r
     else if gr_method r = ''POST'' then decode_post r else Not_Graphql)"

section \<open>The text of an error\<close>

definition quoted :: "string \<Rightarrow> string" where "quoted s = [CHR 0x22] @ s @ [CHR 0x22]"

fun gql_error_text :: "gql_error \<Rightarrow> string" where
  "gql_error_text Empty_Document = ''empty GraphQL document''"
| "gql_error_text (Document_Exceeds n) = ''GraphQL document exceeds '' @ decimal_of n @ '' bytes''"
| "gql_error_text Unterminated_Block = ''unterminated GraphQL block string''"
| "gql_error_text Newline_In_String = ''newline in GraphQL string''"
| "gql_error_text Unterminated_String = ''unterminated GraphQL string''"
| "gql_error_text Too_Many_Tokens = ''too many GraphQL tokens''"
| "gql_error_text (Bad_Character n) = ''invalid GraphQL character at byte '' @ decimal_of n"
| "gql_error_text Expected_Name = ''expected GraphQL name''"
| "gql_error_text (Expected s) = ''expected '' @ quoted s"
| "gql_error_text Unterminated_Variables = ''unterminated variable definitions''"
| "gql_error_text Too_Many_Variables = ''too many GraphQL variables''"
| "gql_error_text Unterminated_Arguments = ''unterminated GraphQL arguments''"
| "gql_error_text Unterminated_List = ''unterminated GraphQL list''"
| "gql_error_text Unterminated_Object = ''unterminated GraphQL object''"
| "gql_error_text Bad_Value = ''invalid GraphQL value''"
| "gql_error_text Unterminated_Selection = ''unterminated GraphQL selection set''"
| "gql_error_text Too_Many_Fields = ''too many GraphQL fields''"
| "gql_error_text Duplicate_Fragment = ''duplicate GraphQL fragment''"
| "gql_error_text (Unsupported_Definition kw) = ''unsupported GraphQL definition '' @ quoted kw"
| "gql_error_text Too_Many_Definitions = ''too many GraphQL definitions''"
| "gql_error_text No_Operation = ''GraphQL document has no operation''"
| "gql_error_text Sdl_Out_Of_Bounds = ''GraphQL SDL size is out of bounds''"
| "gql_error_text Unterminated_Sdl_Arguments = ''unterminated GraphQL SDL arguments''"
| "gql_error_text Sdl_Too_Many_Fields = ''GraphQL SDL has too many fields''"
| "gql_error_text Sdl_Too_Many_Types = ''GraphQL SDL has too many types''"
| "gql_error_text (Sdl_No_Query_Root t) = ''GraphQL SDL query root '' @ quoted t @ '' is not defined''"
| "gql_error_text Operation_Not_Found = ''operationName does not match a GraphQL operation''"
| "gql_error_text Operation_Name_Required = ''operationName is required for a multi-operation GraphQL document''"
| "gql_error_text Too_Deep = ''GraphQL depth exceeds absolute safety limit''"
| "gql_error_text Cyclic_Fragment = ''cyclic GraphQL fragment''"
| "gql_error_text Unknown_Fragment = ''unknown GraphQL fragment''"
| "gql_error_text Too_Complex = ''GraphQL complexity exceeds absolute safety limit''"

fun request_error_text :: "gql_request_error \<Rightarrow> string" where
  "request_error_text Variables_Exceed = ''GraphQL variables exceed limit''"
| "request_error_text Variables_Invalid = ''invalid GraphQL variables JSON''"
| "request_error_text Capture_Exceeded = ''GraphQL document exceeds capture limit''"
| "request_error_text Empty_Request = ''empty GraphQL request''"
| "request_error_text Envelope_Exceeded = ''GraphQL JSON envelope exceeds capture limit''"
| "request_error_text Envelope_Invalid = ''invalid GraphQL JSON envelope''"
| "request_error_text Extensions_Invalid = ''invalid GraphQL extensions''"
| "request_error_text Persisted_Version = ''unsupported persistedQuery version''"
| "request_error_text Persisted_Hash = ''invalid persistedQuery sha256Hash''"
| "request_error_text Document_Too_Large = ''GraphQL document exceeds 64 KiB''"
| "request_error_text Hash_Mismatch = ''persistedQuery hash does not match query''"
| "request_error_text Hash_Unknown = ''unknown persistedQuery hash''"
| "request_error_text Query_Required = ''GraphQL query is required''"
| "request_error_text (Bad_Document e) = gql_error_text e"

section \<open>The decision\<close>

record gql_loads =
  ld_configured :: gql_runtime
  ld_persisted :: gql_runtime
  ld_policy :: gql_runtime
  ld_fallback :: gql_runtime
  ld_contract :: gql_runtime

record gql_verdict =
  vd_action :: gql_action
  vd_violations :: "gql_violation list"
  vd_observation :: "gql_observation option"
  vd_refused :: "int option"

definition analysis_from_persisted :: "gql_persisted \<Rightarrow> graphql_analysis" where
  "analysis_from_persisted p = \<lparr>ga_type = gp_type p, ga_name = gp_name p, ga_fingerprint = gp_fingerprint p,
     ga_depth = nat (gp_depth p), ga_complexity = nat (gp_complexity p), ga_fields = gp_fields p,
     ga_variables = fold (\<lambda>n m. gm_put n [] m) (gp_variables p) [], ga_introspection = gp_introspection p\<rparr>"

definition persisted_from :: "string \<Rightarrow> gql_operation \<Rightarrow> gtime \<Rightarrow> gql_persisted" where
  "persisted_from h op now = \<lparr>gp_hash = h, gp_operation = go_id op, gp_endpoint = go_endpoint op, gp_type = go_type op,
     gp_name = go_name op, gp_fingerprint = go_fingerprint op, gp_depth = go_depth op, gp_complexity = go_complexity op,
     gp_fields = go_fields op, gp_variables = go_variables op, gp_introspection = go_introspection op,
     gp_first_seen = now, gp_last_seen = now, gp_expires_at = now + persisted_ttl\<rparr>"

text \<open>The analysis of the envelope, and whether its persisted query is known.\<close>

definition analyse_envelope :: "gql_env \<Rightarrow> gql_runtime \<Rightarrow> gql_envelope \<Rightarrow> gql_request_error option \<Rightarrow>
    gql_request_error + (graphql_analysis \<times> bool)" where
  "analyse_envelope env rt e derr =
     (case derr of
        Some x \<Rightarrow> Inl x
      | None \<Rightarrow>
          if ev_query e \<noteq> [] then
            (if length (ev_query e) > max_query_bytes then Inl Document_Too_Large
             else (case analyze_document env (ev_query e) (ev_operation e) of
                 Inl x \<Rightarrow> Inl (Bad_Document x)
               | Inr a \<Rightarrow>
                   if \<not> ev_persisted e then Inr (a, False)
                   else if ge_sha256 env (ev_query e) \<noteq> ev_hash e then Inl Hash_Mismatch
                   else Inr (a, True)))
          else if ev_persisted e then
            (case persisted_profile rt (ev_hash e) of
               None \<Rightarrow> Inl Hash_Unknown
             | Some p \<Rightarrow> Inr (analysis_from_persisted p, True))
          else Inl Query_Required)"

definition absolute_violations :: "graphql_analysis \<Rightarrow> gql_mode \<Rightarrow> string \<Rightarrow> string \<Rightarrow> gtime \<Rightarrow> gql_violation list" where
  "absolute_violations a mode endpoint opid now =
     (if ga_depth a > absolute_max_depth then [new_gql_violation endpoint opid (ga_name a) mode Absolute_Depth
        (decimal_of absolute_max_depth) (decimal_of (ga_depth a)) [] now] else []) @
     (if ga_complexity a > absolute_max_complexity then [new_gql_violation endpoint opid (ga_name a) mode Absolute_Complexity
        (decimal_of absolute_max_complexity) (decimal_of (ga_complexity a)) [] now] else [])"

definition scalar_variable :: "variable_json \<Rightarrow> string option" where
  "scalar_variable v =
     (if vj_raw v = [] \<or> vj_raw v = ''null'' then None
      else (case vj_value v of
          Json_String x \<Rightarrow> if x = [] \<or> length x > 512 then None else Some x
        | Json_Number x \<Rightarrow> if x = [] \<or> length x > 128 then None else Some x
        | Json_Other \<Rightarrow> None))"

definition sampled_variables :: "gql_variables \<Rightarrow> variables_json \<Rightarrow> gql_sample list" where
  "sampled_variables types vs =
     take max_variables (concat (map (\<lambda>(name, v).
       let ty = (case gm_get types name of None \<Rightarrow> [] | Some t \<Rightarrow> t) in
       if variable_semantic name ty = [] then []
       else (case scalar_variable v of None \<Rightarrow> [] | Some x \<Rightarrow> [\<lparr>vs_name = name, vs_type = ty, vs_value = x\<rparr>])) vs))"

definition observed_gql_operation :: "gql_request \<Rightarrow> gql_envelope \<Rightarrow> graphql_analysis \<Rightarrow> string \<Rightarrow> gtime \<Rightarrow> gql_operation" where
  "observed_gql_operation r e a opid now = \<lparr>go_id = opid, go_endpoint = gr_endpoint r, go_site = gr_site r,
     go_type = ga_type a, go_name = ga_name a, go_fingerprint = ga_fingerprint a, go_depth = int (ga_depth a),
     go_complexity = int (ga_complexity a), go_fields = ga_fields a,
     go_variables = sort_strings (map fst (ga_variables a)), go_introspection = ga_introspection a,
     go_persisted = ev_hash e, go_count = 0, go_first_seen = now, go_last_seen = now,
     go_expires_at = now + operation_ttl\<rparr>"

definition observe_gql :: "gql_request \<Rightarrow> gql_envelope \<Rightarrow> graphql_analysis \<Rightarrow> bool \<Rightarrow> string \<Rightarrow> gtime \<Rightarrow> gql_observation" where
  "observe_gql r e a known opid now =
     (let op = observed_gql_operation r e a opid now in
      \<lparr>gb_operation = op,
       gb_persisted = (if ev_persisted e \<and> known \<and> ev_query e \<noteq> [] then Some (persisted_from (ev_hash e) op now) else None),
       gb_variables = sampled_variables (ga_variables a) (ev_variables e), gb_identity = gr_identity r, gb_at = now\<rparr>)"

definition action_for :: "gql_policy option \<Rightarrow> bool \<Rightarrow> gql_action" where
  "action_for pol violated =
     (case pol of
        None \<Rightarrow> Learned
      | Some p \<Rightarrow> if gl_mode p = Enforce \<and> violated then Blocked else if gl_mode p = Detect then Detected else Learned)"

definition refusal_status :: "gql_policy option \<Rightarrow> int" where
  "refusal_status pol = (case pol of None \<Rightarrow> 400
     | Some p \<Rightarrow> if gl_status p < 400 \<or> gl_status p > 499 then 400 else gl_status p)"

definition conclude :: "gql_policy option \<Rightarrow> gql_violation list \<Rightarrow> gql_observation option \<Rightarrow> gql_verdict" where
  "conclude pol vs obs =
     (let act = action_for pol (vs \<noteq> []) in
      \<lparr>vd_action = act, vd_violations = map (\<lambda>v. v\<lparr>gv_action := act\<rparr>) vs, vd_observation = obs,
       vd_refused = (if act = Blocked then Some (refusal_status pol) else None)\<rparr>)"

definition mode_of :: "gql_policy option \<Rightarrow> gql_mode" where
  "mode_of pol = (case pol of None \<Rightarrow> Learn | Some p \<Rightarrow> gl_mode p)"

definition judge :: "gql_env \<Rightarrow> gql_loads \<Rightarrow> gql_request \<Rightarrow> gql_envelope \<Rightarrow> gql_request_error option \<Rightarrow> gtime \<Rightarrow>
    gql_verdict" where
  "judge env ld r e derr now =
     (case analyse_envelope env (ld_persisted ld) e derr of
        Inl x \<Rightarrow>
          let pol = gm_get (rt_fallback (ld_fallback ld)) (gr_endpoint r) in
          conclude pol [new_gql_violation (gr_endpoint r) [] (ev_operation e) (mode_of pol) Malformed
            ''valid bounded GraphQL request'' (request_error_text x) [] now] None
      | Inr (a, known) \<Rightarrow>
          let opid = gql_operation_id env (gr_endpoint r) (ga_type a) (ga_name a) (ga_fingerprint a);
              pol = runtime_policy env (ld_policy ld) (gr_endpoint r) (ga_name a)
          in conclude pol
            (absolute_violations a (mode_of pol) (gr_endpoint r) opid now @
             (case pol of None \<Rightarrow> []
              | Some p \<Rightarrow> evaluate_policy p (runtime_contract (ld_contract ld) (gl_contract p)) a (ev_persisted e \<and> known)
                  (gr_endpoint r) opid now))
            (Some (observe_gql r e a known opid now)))"

text \<open>No verdict: the request is not GraphQL's business and is served.\<close>

definition graphql_verdict :: "gql_env \<Rightarrow> gql_loads \<Rightarrow> gtime \<Rightarrow> gql_request \<Rightarrow> gql_verdict option" where
  "graphql_verdict env ld now r =
     (case decode_envelope r of
        Graphql e derr \<Rightarrow> Some (judge env ld r e derr now)
      | Not_Graphql \<Rightarrow>
          if gm_get (rt_fallback (ld_configured ld)) (gr_endpoint r) = None then None
          else if gr_method r \<noteq> ''POST'' \<or> \<not> json_media (gr_media r) then None
          else Some (judge env ld r empty_envelope (Some Envelope_Invalid) now))"

text \<open>The whole handler on the store: the violations are recorded before the request is answered.\<close>

definition wrap_graphql :: "gql_env \<Rightarrow> gql_loads \<Rightarrow> gtime \<Rightarrow> gtime \<Rightarrow> gql_request \<Rightarrow> gql_store \<Rightarrow>
    int option \<times> gql_observation option \<times> gql_store" where
  "wrap_graphql env ld now clock r s =
     (case graphql_verdict env ld now r of
        None \<Rightarrow> (None, None, s)
      | Some v \<Rightarrow> (vd_refused v, vd_observation v, record_gql_violations env clock (vd_violations v) s))"

end
