(* ===== verification/Graphql_Verdict.thy ===== *)
theory Graphql_Verdict
  imports Graphql_Wrap
begin

text \<open>
  What a verdict of the GraphQL policies means: the binary search of the field lists, the
  evaluation of a policy against its reading as a set of rules, and which requests are refused.
\<close>

section \<open>Field lists\<close>

definition splits_at :: "string list \<Rightarrow> string \<Rightarrow> nat \<Rightarrow> bool" where
  "splits_at xs v i \<longleftrightarrow> i \<le> length xs \<and> (\<forall>k < i. xs ! k < v) \<and> (\<forall>k. i \<le> k \<and> k < length xs \<longrightarrow> \<not> xs ! k < v)"

lemma search_splits:
  assumes "sorted xs" and "i \<le> j" and "j \<le> length xs" and "\<forall>k < i. xs ! k < v"
    and "\<forall>k. j \<le> k \<and> k < length xs \<longrightarrow> \<not> xs ! k < v"
  shows "splits_at xs v (search_from xs v i j)"
  using assms
proof (induction xs v i j rule: search_from.induct)
  case (1 xs v i j)
  define h where "h = (i + j) div 2"
  show ?case
  proof (cases "i < j")
    case False
    with "1.prems" show ?thesis by (subst search_from.simps) (auto simp: splits_at_def)
  next
    case True
    then have h: "i \<le> h" "h < j" by (auto simp: h_def)
    note mono = sorted_nth_mono [OF "1.prems"(1)]
    have eq: "search_from xs v i j = (if xs ! h < v then search_from xs v (h + 1) j else search_from xs v i h)"
      using True by (subst search_from.simps) (simp add: h_def Let_def)
    show ?thesis
    proof (cases "xs ! h < v")
      case less: True
      have "\<forall>k < h + 1. xs ! k < v"
        using less h "1.prems"(3) by (auto simp: less_Suc_eq_le intro: le_less_trans [OF mono])
      with less h "1.prems" show ?thesis
        unfolding eq using "1.IH"(1) [OF True h_def less] by simp
    next
      case ge: False
      have "\<forall>k. h \<le> k \<and> k < length xs \<longrightarrow> \<not> xs ! k < v"
        using ge mono by (meson le_less_trans)
      with ge h "1.prems" show ?thesis
        unfolding eq using "1.IH"(2) [OF True h_def ge] by simp
    qed
  qed
qed

lemma contains_field_iff:
  assumes "sorted xs" shows "contains_field xs v \<longleftrightarrow> v \<in> set xs"
proof -
  define i where "i = search_from xs v 0 (length xs)"
  have split: "splits_at xs v i" unfolding i_def using assms by (intro search_splits) auto
  have "v \<in> set xs \<Longrightarrow> i < length xs \<and> xs ! i = v"
  proof -
    assume "v \<in> set xs"
    then obtain k where k: "k < length xs" "xs ! k = v" by (auto simp: in_set_conv_nth)
    with split have ik: "i \<le> k" by (meson less_irrefl not_le splits_at_def)
    with k split have "\<not> xs ! i < v" by (auto simp: splits_at_def)
    moreover have "xs ! i \<le> v" using sorted_nth_mono [OF assms ik k(1)] k(2) by simp
    ultimately show ?thesis using ik k(1) by simp
  qed
  then show ?thesis by (auto simp: contains_field_def Let_def i_def [symmetric])
qed

section \<open>Policies as rules\<close>

text \<open>What a policy and a contract ask of an operation, without order, search or report.\<close>

definition complies :: "gql_policy \<Rightarrow> gql_contract option \<Rightarrow> graphql_analysis \<Rightarrow> bool \<Rightarrow> bool" where
  "complies p contract a persisted \<longleftrightarrow>
     (gl_max_depth p > 0 \<longrightarrow> int (ga_depth a) \<le> gl_max_depth p) \<and>
     (gl_max_complexity p > 0 \<longrightarrow> int (ga_complexity a) \<le> gl_max_complexity p) \<and>
     (ga_introspection a \<longrightarrow> gl_introspection p) \<and>
     (ga_type a = ''mutation'' \<longrightarrow> gl_mutation p) \<and> (ga_type a = ''subscription'' \<longrightarrow> gl_subscription p) \<and>
     (gl_persisted p \<longrightarrow> persisted) \<and>
     (\<forall>c f. contract = Some c \<and> f \<in> set (ga_fields a) \<longrightarrow> schema_allows c (ga_type a) f) \<and>
     (gl_allowed p \<noteq> [] \<longrightarrow> set (ga_fields a) \<subseteq> set (gl_allowed p)) \<and>
     set (ga_fields a) \<inter> set (gl_denied p) = {}"

definition lists_sorted :: "gql_policy \<Rightarrow> bool" where
  "lists_sorted p \<longleftrightarrow> sorted (gl_allowed p) \<and> sorted (gl_denied p)"

lemma schema_part_Nil:
  "(case contract of None \<Rightarrow> [] | Some c \<Rightarrow> map (g c) (filter (\<lambda>f. \<not> schema_allows c ty f) fs)) = [] \<longleftrightarrow>
     (\<forall>c f. contract = Some c \<and> f \<in> set fs \<longrightarrow> schema_allows c ty f)"
  by (cases contract) (auto simp: filter_empty_conv)

lemma evaluate_iff_complies:
  assumes "lists_sorted p"
  shows "evaluate_policy p contract a persisted endpoint opid now = [] \<longleftrightarrow> complies p contract a persisted"
proof -
  have c: "contains_field (gl_allowed p) f \<longleftrightarrow> f \<in> set (gl_allowed p)"
    "contains_field (gl_denied p) f \<longleftrightarrow> f \<in> set (gl_denied p)" for f
    using assms by (simp_all add: lists_sorted_def contains_field_iff)
  have fields: "(\<forall>f \<in> set (ga_fields a). \<not> (gl_allowed p \<noteq> [] \<and> f \<notin> set (gl_allowed p)) \<and> f \<notin> set (gl_denied p)) \<longleftrightarrow>
      (gl_allowed p \<noteq> [] \<longrightarrow> set (ga_fields a) \<subseteq> set (gl_allowed p)) \<and> set (ga_fields a) \<inter> set (gl_denied p) = {}"
    by blast
  show ?thesis
    unfolding evaluate_policy_def Let_def append_is_Nil_conv when_Nil schema_part_Nil concat_map_Nil c fields complies_def
    by (intro conj_cong refl) auto
qed

end
