(* ===== verification/Graphql_Machine.thy ===== *)
theory Graphql_Machine
  imports Graphql_Verdict
begin

text \<open>
  The GraphQL store as a machine: what every sequence of its operations keeps (limits, links,
  the snapshot), how a policy comes to be enforced, what its state file brings back, and which
  requests its policies stop.
\<close>

section \<open>What every operation keeps\<close>

definition policy_ok :: "gql_env \<Rightarrow> string \<Rightarrow> gql_policy \<Rightarrow> bool" where
  "policy_ok env k p \<longleftrightarrow>
     gl_id p = k \<and> k = gql_policy_id env (gl_endpoint p) (gl_name p) \<and> valid_operation_id (gl_endpoint p) \<and>
     (gl_name p = [] \<or> valid_graphql_name (gl_name p)) \<and> lists_sorted p \<and>
     length (gl_allowed p) \<le> max_policy_fields \<and> length (gl_denied p) \<le> max_policy_fields \<and>
     list_all valid_field_path (gl_allowed p @ gl_denied p) \<and>
     0 \<le> gl_max_depth p \<and> gl_max_depth p \<le> int absolute_max_depth \<and>
     0 \<le> gl_max_complexity p \<and> gl_max_complexity p \<le> int absolute_max_complexity \<and>
     400 \<le> gl_status p \<and> gl_status p \<le> 499 \<and> length (gl_reason p) \<le> max_policy_reason"

definition contract_ok :: "string \<Rightarrow> gql_contract \<Rightarrow> bool" where
  "contract_ok k c \<longleftrightarrow> gc_id c = k \<and> trim_space k = k"

text \<open>A policy that names a contract names one that is there.\<close>

definition linked :: "(string, gql_contract) gomap \<Rightarrow> string \<Rightarrow> gql_policy \<Rightarrow> bool" where
  "linked cs k p \<longleftrightarrow> gl_contract p = [] \<or> gm_has cs (gl_contract p)"

definition snapshot_fresh :: "gql_store \<Rightarrow> bool" where
  "snapshot_fresh s \<longleftrightarrow> rt_policies (gq_runtime s) = gq_policies s \<and> rt_contracts (gq_runtime s) = gq_contracts s \<and>
     rt_fallback (gq_runtime s) = fold add_fallback (gm_values (gq_policies s)) []"

definition gql_ok :: "gql_env \<Rightarrow> gql_store \<Rightarrow> bool" where
  "gql_ok env s \<longleftrightarrow>
     bounded_map (int max_operations) (\<lambda>k v. go_id v = k) (gq_operations s) \<and>
     bounded_map (int max_persisted) (\<lambda>k v. gp_hash v = k) (gq_persisted s) \<and>
     bounded_map (int max_contracts) contract_ok (gq_contracts s) \<and>
     bounded_map (int max_gql_policies) (policy_ok env) (gq_policies s) \<and>
     gm_all (linked (gq_contracts s)) (gq_policies s) \<and>
     length (gq_violations s) \<le> max_gql_violations \<and> snapshot_fresh s"

text \<open>Sixteen bytes of a digest in hexadecimal, as \<^verbatim>\<open>hex.EncodeToString\<close> writes them.\<close>

definition hex_ids :: "gql_env \<Rightarrow> bool" where
  "hex_ids env \<longleftrightarrow> (\<forall>x. hex32 (ge_hash16 env x))"

lemma hex_visible: "hex_char c \<Longrightarrow> visible c"
  by (auto simp: hex_char_def visible_def less_eq_char_def)

lemma hex32_trim: "hex32 v \<Longrightarrow> trim_space v = v"
proof -
  assume h: "hex32 v"
  then have ne: "v \<noteq> []" and hx: "list_all hex_char v" by (auto simp: hex32_def hex_decodes_def)
  from ne hx have "hex_char (hd v)" "hex_char (last v)" by (auto simp: list_all_iff)
  with ne show ?thesis by (simp add: trim_space_visible hex_visible)
qed

lemma contract_id_trim: "hex_ids env \<Longrightarrow> trim_space (contract_id env endpoint name) = contract_id env endpoint name"
  by (simp add: hex_ids_def contract_id_def hex32_trim)

lemma rebuild_fresh [simp]: "snapshot_fresh (rebuild_runtime s)"
  by (simp add: snapshot_fresh_def rebuild_runtime_def)

lemma rebuild_simps [simp]:
  "gq_operations (rebuild_runtime s) = gq_operations s" "gq_persisted (rebuild_runtime s) = gq_persisted s"
  "gq_contracts (rebuild_runtime s) = gq_contracts s" "gq_policies (rebuild_runtime s) = gq_policies s"
  "gq_violations (rebuild_runtime s) = gq_violations s" "gq_processed (rebuild_runtime s) = gq_processed s"
  by (simp_all add: rebuild_runtime_def)

lemma prune_gql_ok: "gql_ok env s \<Longrightarrow> gql_ok env (prune_gql now s)"
  by (auto simp: gql_ok_def prune_gql_def snapshot_fresh_def)

lemma merge_operation_ok:
  "bounded_map (int max_operations) (\<lambda>k v. go_id v = k) m \<Longrightarrow>
   bounded_map (int max_operations) (\<lambda>k v. go_id v = k) (merge_operation now op m)"
  by (auto simp: merge_operation_def touch_operation_def has_room_def gm_has_def intro!: bounded_map_put
      dest: bounded_map_get split: option.splits)

lemma merge_persisted_ok:
  "bounded_map (int max_persisted) (\<lambda>k v. gp_hash v = k) m \<Longrightarrow>
   bounded_map (int max_persisted) (\<lambda>k v. gp_hash v = k) (merge_persisted now p m)"
  by (auto simp: merge_persisted_def Let_def has_room_def gm_has_def intro!: bounded_map_put
      dest: bounded_map_get split: option.splits)

lemma absorb_ok:
  assumes "gql_ok env s" shows "gql_ok env (absorb_graphql env clock ev s)"
proof -
  have "gql_ok env (prune_gql (observation_time clock ev) s)" by (rule prune_gql_ok [OF assms])
  then have "gql_ok env (merge_observation env (observation_time clock ev) ev s)"
    by (auto simp: merge_observation_def Let_def gql_ok_def merge_operation_ok merge_persisted_ok split: option.splits)
  with assms show ?thesis
    by (auto simp: absorb_graphql_def Let_def gql_ok_def snapshot_fresh_def)
qed

lemma gm_map_values:
  assumes "\<And>k v. g (k, v) = (k, h k v)"
  shows "gm_get (map g m) k = map_option (h k) (gm_get m k)"
  using assms by (induction m) auto

lemma revalidate_policy_ok: "policy_ok env k p \<Longrightarrow> policy_ok env k (revalidate now who cid p)"
  by (auto simp: policy_ok_def revalidate_def lists_sorted_def changed_reason_def max_policy_reason_def)

lemma revalidate_contract [simp]: "gl_contract (revalidate now who cid p) = gl_contract p"
  by (simp add: revalidate_def)

definition revalidated :: "gtime \<Rightarrow> string \<Rightarrow> string \<Rightarrow> (string, gql_policy) gomap \<Rightarrow> (string, gql_policy) gomap" where
  "revalidated now who cid ps = map (\<lambda>(k, p). (k, revalidate now who cid p)) ps"

lemma revalidated_ok:
  assumes "bounded_map (int max_gql_policies) (policy_ok env) ps"
  shows "bounded_map (int max_gql_policies) (policy_ok env) (revalidated now who cid ps)"
proof -
  have "map fst (revalidated now who cid ps) = map fst ps" by (simp add: revalidated_def comp_def case_prod_beta)
  with assms show ?thesis
    by (auto simp: bounded_map_def gm_ok_def gm_all_def revalidate_policy_ok) (auto simp: revalidated_def revalidate_policy_ok)
qed

lemma linked_put: "gm_all (linked cs) ps \<Longrightarrow> gm_all (linked (gm_put cid c cs)) ps"
  by (auto simp: gm_all_def linked_def gm_has_def gm_get_put)

lemma linked_revalidated: "gm_all (linked cs) ps \<Longrightarrow> gm_all (linked cs) (revalidated now who cid ps)"
  by (auto simp: gm_all_def linked_def revalidated_def)

lemma upsert_contract_cases:
  assumes "upsert_contract env now name endpoint sdl who s = (Inr row, s')"
  obtains (new) "gm_get (gq_contracts s) (gc_id row) = None" and "length (gq_contracts s) < max_contracts"
      and "s' = rebuild_runtime (s\<lparr>gq_contracts := gm_put (gc_id row) row (gq_contracts s)\<rparr>)"
      and "gc_id row = contract_id env (trim_space endpoint) (trim_space name)"
  | (old) old ps where "gm_get (gq_contracts s) (gc_id row) = Some old"
      and "ps = (if gc_source old \<noteq> gc_source row then revalidated now who (gc_id row) (gq_policies s) else gq_policies s)"
      and "s' = rebuild_runtime (s\<lparr>gq_policies := ps, gq_contracts := gm_put (gc_id row) row (gq_contracts s)\<rparr>)"
      and "gc_id row = contract_id env (trim_space endpoint) (trim_space name)"
  using assms
  by (auto simp: upsert_contract_def Let_def new_contract_def revalidated_def split: if_splits sum.splits option.splits)

lemma upsert_contract_refused:
  "upsert_contract env now name endpoint sdl who s = (Inl e, s') \<Longrightarrow> s' = s"
  by (auto simp: upsert_contract_def Let_def split: if_splits sum.splits option.splits)

lemma upsert_contract_ok:
  assumes "hex_ids env" and ok: "gql_ok env s"
  shows "gql_ok env (snd (upsert_contract env now name endpoint sdl who s))"
proof (cases "upsert_contract env now name endpoint sdl who s")
  case (Pair r s')
  show ?thesis
  proof (cases r)
    case (Inl e)
    with Pair ok show ?thesis by (auto dest: upsert_contract_refused)
  next
    case (Inr row)
    with Pair have "upsert_contract env now name endpoint sdl who s = (Inr row, s')" by simp
    then show ?thesis
    proof (cases rule: upsert_contract_cases)
      case new
      then have "contract_ok (gc_id row) row" using assms(1) by (simp add: contract_ok_def contract_id_trim)
      with ok new(1-3) Pair show ?thesis
        by (auto simp: gql_ok_def has_room_def gm_has_def intro!: bounded_map_put linked_put)
    next
      case (old c ps)
      then have "contract_ok (gc_id row) row" using assms(1) by (simp add: contract_ok_def contract_id_trim)
      moreover have "bounded_map (int max_gql_policies) (policy_ok env) ps" "gm_all (linked (gq_contracts s)) ps"
        using ok old(2) by (auto simp: gql_ok_def revalidated_ok linked_revalidated)
      ultimately show ?thesis
        using ok old(1,3) Pair by (auto simp: gql_ok_def has_room_def gm_has_def intro!: bounded_map_put linked_put)
    qed
  qed
qed

lemma delete_contract_ok:
  assumes "gql_ok env s" shows "gql_ok env (snd (delete_contract cid s))"
proof -
  have "gm_all (linked (gm_del cid (gq_contracts s))) (gq_policies s)"
    if "find (\<lambda>p. gl_contract p = cid) (gm_values (gq_policies s)) = None"
    using that assms by (force simp: gql_ok_def gm_all_def linked_def gm_has_def gm_get_del find_None_iff)
  with assms show ?thesis
    by (auto simp: delete_contract_def gql_ok_def split: option.splits)
qed

lemma normalize_selectors_ok:
  assumes "normalize_selectors xs = Inr ys"
  shows "sorted ys \<and> distinct ys \<and> length ys \<le> max_policy_fields \<and> list_all valid_field_path ys"
proof -
  have "length (remdups (map trim_space xs)) \<le> length xs" using length_remdups_leq [of "map trim_space xs"] by simp
  with assms show ?thesis
    by (auto simp: normalize_selectors_def sorted_sort_strings list_all_iff find_None_iff split: if_splits option.splits)
qed

lemma check_policy_Inr:
  assumes "check_policy seen req = Inr q"
  shows "valid_operation_id (gl_endpoint q)" and "gl_name q = [] \<or> valid_graphql_name (gl_name q)"
    and "lists_sorted q" and "length (gl_allowed q) \<le> max_policy_fields" and "length (gl_denied q) \<le> max_policy_fields"
    and "list_all valid_field_path (gl_allowed q @ gl_denied q)"
    and "0 \<le> gl_max_depth q \<and> gl_max_depth q \<le> int absolute_max_depth"
    and "0 \<le> gl_max_complexity q \<and> gl_max_complexity q \<le> int absolute_max_complexity"
    and "400 \<le> gl_status q \<and> gl_status q \<le> 499" and "length (gl_reason q) \<le> max_policy_reason"
    and "gl_contract q = gl_contract req"
  using assms
  by (auto simp: check_policy_def Let_def lists_sorted_def split: if_splits sum.splits dest!: normalize_selectors_ok)

lemma edited_policy_ok:
  assumes q: "check_policy seen req = Inr q" and pid: "pid = gql_policy_id env (gl_endpoint q) (gl_name q)"
    and old: "\<And>p. old = Some p \<Longrightarrow> policy_ok env pid p"
  shows "policy_ok env pid (edited_policy pid now who q old)"
proof (cases old)
  case None
  with check_policy_Inr [OF q] pid show ?thesis by (simp add: policy_ok_def edited_policy_def lists_sorted_def)
next
  case (Some p)
  with check_policy_Inr [OF q] pid old [OF Some] show ?thesis
    by (simp add: policy_ok_def edited_policy_def lists_sorted_def)
qed

lemma gm_all_put_iff: "gm_all P m \<Longrightarrow> P k v \<Longrightarrow> gm_all P (gm_put k v m)"
  by (rule gm_all_put)

lemma upsert_policy_ok:
  assumes ok: "gql_ok env s" shows "gql_ok env (snd (upsert_gql_policy env now seen req who s))"
proof (cases "check_policy seen req")
  case (Inl e)
  with ok show ?thesis by (simp add: upsert_gql_policy_def)
next
  case (Inr q)
  define pid where "pid = gql_policy_id env (gl_endpoint q) (gl_name q)"
  define old where "old = gm_get (gq_policies s) pid"
  define p where "p = edited_policy pid now who q old"
  have p: "policy_ok env pid p"
    unfolding p_def using ok
    by (intro edited_policy_ok [OF Inr pid_def]) (auto simp: old_def gql_ok_def dest: bounded_map_get)
  have link: "linked (gq_contracts s) pid p"
    if "gl_contract q = [] \<or> contract_serves (gm_get (gq_contracts s) (gl_contract q)) (gl_endpoint q)"
  proof (cases "gl_contract q = []")
    case False
    with that obtain c where c: "gm_get (gq_contracts s) (gl_contract q) = Some c"
      by (auto simp: contract_serves_def split: option.splits)
    with ok have "trim_space (gl_contract q) = gl_contract q"
      by (auto simp: gql_ok_def contract_ok_def dest: bounded_map_get)
    with c show ?thesis by (simp add: linked_def p_def edited_policy_def gm_has_def)
  qed (simp add: linked_def p_def edited_policy_def)
  show ?thesis
    using ok p link Inr
    by (auto simp: upsert_gql_policy_def Let_def gql_ok_def has_room_def gm_has_def pid_def [symmetric] old_def [symmetric]
        p_def [symmetric] intro!: bounded_map_put gm_all_put)
qed

lemma set_mode_ok:
  assumes "gql_ok env s" shows "gql_ok env (snd (set_gql_mode now pid mode who reason s))"
proof -
  have upd: "policy_ok env k (p\<lparr>gl_mode := m, gl_updated_at := t, gl_updated_by := w, gl_reason := r\<rparr>)"
    if "policy_ok env k p" and "length r \<le> max_policy_reason" for k p m t w r
    using that by (simp add: policy_ok_def lists_sorted_def)
  have link: "linked cs k (p\<lparr>gl_mode := m, gl_updated_at := t, gl_updated_by := w, gl_reason := r\<rparr>)" if "linked cs k p"
    for cs k p m t w r
    using that by (simp add: linked_def)
  show ?thesis
    using assms
    by (auto simp: set_gql_mode_def Let_def gql_ok_def split: option.splits
        intro!: bounded_map_put gm_all_put upd link has_room_get dest: bounded_map_get gm_all_get)
qed

lemma length_last_n [simp]: "length (last_n n xs) = min n (length xs)"
  by (simp add: last_n_def)

lemma delete_policy_ok: "gql_ok env s \<Longrightarrow> gql_ok env (snd (delete_gql_policy pid s))"
  by (auto simp: delete_gql_policy_def gql_ok_def split: option.splits)

lemma report_ok: "gql_ok env s \<Longrightarrow> gql_ok env (record_gql_violations env now vs s)"
  by (auto simp: record_gql_violations_def gql_ok_def snapshot_fresh_def)

lemma snapshots_ok:
  assumes "gql_ok env s"
  shows "gql_ok env (snd (operations_snapshot now s))" and "gql_ok env (snd (persisted_snapshot now s))"
    and "gql_ok env (snd (save_gql now s))"
  using prune_gql_ok [OF assms] by (simp_all add: operations_snapshot_def persisted_snapshot_def save_gql_def Let_def)

lemmas gql_keeps = absorb_ok upsert_contract_ok delete_contract_ok upsert_policy_ok set_mode_ok delete_policy_ok
  report_ok snapshots_ok

lemma gql_step_ok:
  assumes "hex_ids env" and "gql_ok env s" shows "gql_ok env (gql_step env e s)"
  by (cases e) (simp_all add: assms gql_keeps)

lemma new_gql_ok: "gql_ok env new_gql_store"
  by (simp add: gql_ok_def new_gql_store_def snapshot_fresh_def empty_runtime_def)

interpretation gql_store_machine: invariant_machine "gql_step env" "\<lambda>s. hex_ids env \<and> gql_ok env s" for env
  by unfold_locales (simp add: gql_step_ok)

lemma gql_run_ok: "hex_ids env \<Longrightarrow> gql_ok env s \<Longrightarrow> gql_ok env (run_machine (gql_step env) es s)"
  using gql_store_machine.inv_run [of env s es] by simp

text \<open>Whatever is sent to the store, its tables stay within their limits (4096 operations, 4096
  persisted queries, 128 schema contracts, 1024 policies, 4096 violations), and no policy is left
  naming a contract that is not there, so that its schema check cannot silently fall away.\<close>

theorem gql_tables_bounded:
  assumes "hex_ids env" and "s = run_machine (gql_step env) es new_gql_store"
  shows "length (gq_operations s) \<le> 4096 \<and> length (gq_persisted s) \<le> 4096 \<and> length (gq_contracts s) \<le> 128 \<and>
    length (gq_policies s) \<le> 1024 \<and> length (gq_violations s) \<le> 4096 \<and>
    (\<forall>pid p. gm_get (gq_policies s) pid = Some p \<and> gl_contract p \<noteq> [] \<longrightarrow>
      (\<exists>c. gm_get (gq_contracts s) (gl_contract p) = Some c \<and> runtime_contract (gq_runtime s) (gl_contract p) = Some c))"
proof -
  have "gql_ok env s" unfolding assms(2) by (rule gql_run_ok [OF assms(1) new_gql_ok])
  then show ?thesis
    by (auto simp: gql_ok_def bounded_map_def max_operations_def max_persisted_def max_contracts_def max_gql_policies_def
        max_gql_violations_def snapshot_fresh_def runtime_contract_def linked_def gm_has_def dest!: gm_all_get)
qed

section \<open>How a policy comes to be enforced\<close>

text \<open>What a policy demands, and the digest of the schema it demands it of.\<close>

definition settings :: "gql_policy \<Rightarrow> gql_policy" where
  "settings p = p\<lparr>gl_mode := Learn, gl_updated_at := 0, gl_updated_by := [], gl_reason := []\<rparr>"

definition contract_source :: "gql_store \<Rightarrow> gql_policy \<Rightarrow> string option" where
  "contract_source s p = (if gl_contract p = [] then None
     else map_option gc_source (gm_get (gq_contracts s) (gl_contract p)))"

definition enforced_as :: "gql_store \<Rightarrow> string \<Rightarrow> gql_policy \<Rightarrow> string option \<Rightarrow> gql_mode \<Rightarrow> bool" where
  "enforced_as s pid x src m \<longleftrightarrow>
     (\<exists>p. gm_get (gq_policies s) pid = Some p \<and> gl_mode p = m \<and> settings p = x \<and> contract_source s p = src)"

lemma settings_contract: "settings p = settings q \<Longrightarrow> gl_contract p = gl_contract q"
  by (drule arg_cong [of _ _ gl_contract]) (simp add: settings_def)

lemma enforced_as_same:
  assumes "gm_get (gq_policies s) pid = Some q" and "gq_policies s' = gq_policies s" and "gq_contracts s' = gq_contracts s"
  shows "enforced_as s' pid (settings q) (contract_source s q) (gl_mode q)"
  using assms by (auto simp: enforced_as_def contract_source_def)

lemma revalidated_enforced:
  assumes "gm_get (revalidated now who cid ps) pid = Some q" and "gl_mode q = Enforce"
  shows "gm_get ps pid = Some q" and "gl_contract q \<noteq> cid"
proof -
  have "gm_get (revalidated now who cid ps) pid = map_option (revalidate now who cid) (gm_get ps pid)"
    unfolding revalidated_def by (rule gm_map_values) simp
  with assms obtain p where "gm_get ps pid = Some p" "q = revalidate now who cid p" by auto
  with assms(2) show "gm_get ps pid = Some q" and "gl_contract q \<noteq> cid"
    by (auto simp: revalidate_def split: if_splits)
qed

lemma enforce_step_import:
  assumes ok: "gql_ok env s" and q: "gm_get (gq_policies s') pid = Some q" "gl_mode q = Enforce"
    and s': "s' = snd (upsert_contract env now name endpoint sdl who s)"
  shows "enforced_as s pid (settings q) (contract_source s' q) Enforce"
proof (cases "upsert_contract env now name endpoint sdl who s")
  case (Pair r s2)
  show ?thesis
  proof (cases r)
    case (Inl e)
    with Pair have "s2 = s" by (auto dest: upsert_contract_refused)
    with Pair s' q show ?thesis by (auto simp: enforced_as_def)
  next
    case (Inr row)
    with Pair have "upsert_contract env now name endpoint sdl who s = (Inr row, s2)" by simp
    then show ?thesis
    proof (cases rule: upsert_contract_cases)
      case new
      with Pair s' q have p: "gm_get (gq_policies s) pid = Some q" by simp
      with ok have "linked (gq_contracts s) pid q" by (auto simp: gql_ok_def dest: gm_all_get)
      with new(1) have "gl_contract q = [] \<or> gl_contract q \<noteq> gc_id row" by (auto simp: linked_def gm_has_def)
      with new(3) p q Pair s' show ?thesis by (auto simp: enforced_as_def contract_source_def gm_get_put)
    next
      case (old c ps)
      have ps: "gm_get ps pid = Some q" using old(3) q Pair s' by simp
      have p: "gm_get (gq_policies s) pid = Some q \<and> (gc_source c = gc_source row \<or> gl_contract q \<noteq> gc_id row)"
      proof (cases "gc_source c = gc_source row")
        case False
        with ps old(2) have "gm_get (revalidated now who (gc_id row) (gq_policies s)) pid = Some q" by simp
        from revalidated_enforced [OF this q(2)] show ?thesis by simp
      qed (use ps old(2) in simp)
      with old(1,3) q Pair s' show ?thesis
        by (auto simp: enforced_as_def contract_source_def gm_get_put)
    qed
  qed
qed

lemma enforce_step_drop:
  assumes "gm_get (gq_policies s') pid = Some q" "gl_mode q = Enforce" and "s' = snd (delete_contract cid s)"
  shows "enforced_as s pid (settings q) (contract_source s' q) Enforce"
proof -
  have p: "gm_get (gq_policies s) pid = Some q" using assms by (auto simp: delete_contract_def split: option.splits)
  have "contract_source s' q = contract_source s q"
  proof (cases "gl_contract q = cid")
    case False
    with assms(3) show ?thesis by (auto simp: delete_contract_def contract_source_def gm_get_del split: option.splits)
  next
    case True
    have "find (\<lambda>p. gl_contract p = cid) (gm_values (gq_policies s)) \<noteq> None"
      using True map_of_SomeD [OF p] by (simp add: find_None_iff) force
    then have "s' = s" using assms(3) by (auto simp: delete_contract_def split: option.splits)
    then show ?thesis by simp
  qed
  with p assms(2) show ?thesis by (auto simp: enforced_as_def)
qed

lemma enforce_step_edit:
  assumes "gm_get (gq_policies s') pid = Some q" "gl_mode q = Enforce"
    and "s' = snd (upsert_gql_policy env now seen req who s)"
  shows "enforced_as s pid (settings q) (contract_source s' q) Enforce"
proof (cases "upsert_gql_policy env now seen req who s")
  case (Pair r s2)
  show ?thesis
  proof (cases r)
    case (Inl e)
    with Pair have "s2 = s" by (auto simp: upsert_gql_policy_def Let_def split: sum.splits if_splits)
    with Pair assms show ?thesis by (auto simp: enforced_as_def)
  next
    case (Inr p)
    with Pair obtain k where "s2 = rebuild_runtime (s\<lparr>gq_policies := gm_put k p (gq_policies s)\<rparr>)" "gl_mode p = Learn"
      by (auto simp: upsert_gql_policy_def Let_def edited_policy_def split: sum.splits if_splits)
    with Pair assms show ?thesis by (auto simp: enforced_as_def contract_source_def gm_get_put split: if_splits)
  qed
qed

lemma set_gql_mode_cases:
  obtains (same) "snd (set_gql_mode now pid mode who reason s) = s"
  | (changed) p m where "parse_mode (to_upper (trim_space mode)) = Some m" and "gm_get (gq_policies s) pid = Some p"
      and "mode_transition (gl_mode p) m" and "m = Enforce \<Longrightarrow> trim_space reason \<noteq> []"
      and "snd (set_gql_mode now pid mode who reason s) = rebuild_runtime (s\<lparr>gq_policies := gm_put pid
        (p\<lparr>gl_mode := m, gl_updated_at := now, gl_updated_by := who, gl_reason := trim_space reason\<rparr>) (gq_policies s)\<rparr>)"
proof (cases "parse_mode (to_upper (trim_space mode))")
  case None
  then show ?thesis by (intro same) (simp add: set_gql_mode_def Let_def)
next
  case m: (Some m)
  show ?thesis
  proof (cases "gm_get (gq_policies s) pid")
    case None
    with m show ?thesis by (intro same) (simp add: set_gql_mode_def Let_def)
  next
    case (Some p)
    show ?thesis
    proof (cases "length (trim_space reason) \<le> max_policy_reason \<and> mode_transition (gl_mode p) m \<and>
        \<not> (m = Enforce \<and> trim_space reason = [])")
      case True
      with m Some show ?thesis by (intro changed [of m p]) (auto simp: set_gql_mode_def Let_def)
    next
      case False
      with m Some show ?thesis by (intro same) (auto simp: set_gql_mode_def Let_def)
    qed
  qed
qed

lemma enforce_step_mode:
  assumes "gm_get (gq_policies s') pid = Some q" "gl_mode q = Enforce"
    and s': "s' = snd (set_gql_mode now pid' mode who reason s)"
  shows "enforced_as s pid (settings q) (contract_source s' q) Enforce \<or>
    pid' = pid \<and> parse_mode (to_upper (trim_space mode)) = Some Enforce \<and> trim_space reason \<noteq> [] \<and>
    enforced_as s pid (settings q) (contract_source s' q) Detect"
proof (cases rule: set_gql_mode_cases [of now pid' mode who reason s])
  case same
  with assms show ?thesis by (auto simp: enforced_as_def)
next
  case (changed p m)
  have c: "contract_source s' x = contract_source s x" for x
    by (simp add: s' changed(5) contract_source_def)
  show ?thesis
  proof (cases "pid' = pid")
    case True
    with assms changed(5) have qp: "q = p\<lparr>gl_mode := m, gl_updated_at := now, gl_updated_by := who, gl_reason := trim_space reason\<rparr>"
      by (simp add: gm_get_put)
    then have "settings p = settings q" "contract_source s p = contract_source s' q" "m = Enforce"
      using assms(2) unfolding c by (simp_all add: settings_def contract_source_def)
    moreover from this changed(3) have "gl_mode p = Detect \<or> gl_mode p = Enforce"
      by (cases "gl_mode p") (auto simp: mode_transition_def)
    ultimately show ?thesis using changed(1,2,4) True by (auto simp: enforced_as_def)
  next
    case False
    with assms changed(5) have "gm_get (gq_policies s) pid = Some q" by (simp add: gm_get_put)
    with assms(2) c show ?thesis by (auto simp: enforced_as_def)
  qed
qed

lemma untouched_simps [simp]:
  "gq_policies (prune_gql now s) = gq_policies s" "gq_contracts (prune_gql now s) = gq_contracts s"
  "gq_policies (absorb_graphql env clock ev s) = gq_policies s" "gq_contracts (absorb_graphql env clock ev s) = gq_contracts s"
  "gq_policies (record_gql_violations env now vs s) = gq_policies s"
  "gq_contracts (record_gql_violations env now vs s) = gq_contracts s"
  by (simp_all add: prune_gql_def absorb_graphql_def merge_observation_def record_gql_violations_def Let_def split: option.splits)

lemma enforce_step:
  assumes "gql_ok env s" and q: "gm_get (gq_policies (gql_step env e s)) pid = Some q" "gl_mode q = Enforce"
  shows "enforced_as s pid (settings q) (contract_source (gql_step env e s) q) Enforce \<or>
    (\<exists>now mode who reason. e = Change_Mode now pid mode who reason \<and>
      parse_mode (to_upper (trim_space mode)) = Some Enforce \<and> trim_space reason \<noteq> [] \<and>
      enforced_as s pid (settings q) (contract_source (gql_step env e s) q) Detect)"
proof (cases e)
  case Import_Contract
  with enforce_step_import [OF assms(1) q] show ?thesis by simp
next
  case Drop_Contract
  with enforce_step_drop [OF q] show ?thesis by simp
next
  case Edit_Policy
  with enforce_step_edit [OF q] show ?thesis by simp
next
  case Change_Mode
  with enforce_step_mode [OF q] show ?thesis by auto
next
  case (Drop_Policy pid')
  with q show ?thesis
    by (auto simp: delete_gql_policy_def enforced_as_def contract_source_def gm_get_del split: option.splits if_splits)
qed (use q in \<open>auto simp: enforced_as_def contract_source_def operations_snapshot_def persisted_snapshot_def
    save_gql_def Let_def\<close>)


section \<open>Which requests are refused\<close>

text \<open>For every policy of an endpoint the snapshot has a fallback there that is at least as strict in mode.\<close>

definition backs :: "(string, gql_policy) gomap \<Rightarrow> gql_policy \<Rightarrow> bool" where
  "backs fb p \<longleftrightarrow> (\<exists>q. gm_get fb (gl_endpoint p) = Some q \<and> mode_rank (gl_mode p) \<le> mode_rank (gl_mode q))"

lemma better_rank: "better_fallback p cur \<Longrightarrow> mode_rank (gl_mode cur) \<le> mode_rank (gl_mode p)"
  and not_better_rank: "\<not> better_fallback p cur \<Longrightarrow> mode_rank (gl_mode p) \<le> mode_rank (gl_mode cur)"
  by (auto simp: better_fallback_def split: if_splits)

lemma add_fallback_backs: "backs (add_fallback p fb) p"
  by (auto simp: backs_def add_fallback_def gm_get_put not_better_rank split: option.splits)

lemma add_fallback_keeps: "backs fb p \<Longrightarrow> backs (add_fallback x fb) p"
  by (auto simp: backs_def add_fallback_def gm_get_put split: option.splits dest: better_rank intro: order_trans)

lemma fold_keeps_backs: "backs fb p \<Longrightarrow> backs (fold add_fallback ps fb) p"
  by (induction ps arbitrary: fb) (auto intro: add_fallback_keeps)

lemma fold_backs: "p \<in> set ps \<Longrightarrow> backs (fold add_fallback ps fb) p"
  by (induction ps arbitrary: fb) (auto intro: fold_keeps_backs add_fallback_backs)

lemma add_fallback_origin:
  "gm_get (add_fallback x fb) e = Some q \<Longrightarrow> (q = x \<and> gl_endpoint x = e) \<or> gm_get fb e = Some q"
  by (auto simp: add_fallback_def gm_get_put split: option.splits if_splits)

lemma fold_origin:
  "gm_get (fold add_fallback ps fb) e = Some q \<Longrightarrow> (q \<in> set ps \<and> gl_endpoint q = e) \<or> gm_get fb e = Some q"
  by (induction ps arbitrary: fb) (auto dest!: add_fallback_origin)

lemma enforced_fallback:
  assumes ok: "gql_ok env s" and p: "gm_get (gq_policies s) pid = Some p" "gl_mode p = Enforce"
  obtains q k where "gm_get (rt_fallback (gq_runtime s)) (gl_endpoint p) = Some q" and "gl_mode q = Enforce"
    and "policy_ok env k q"
proof -
  have fb: "rt_fallback (gq_runtime s) = fold add_fallback (gm_values (gq_policies s)) []"
    using ok by (simp add: gql_ok_def snapshot_fresh_def)
  have "p \<in> set (gm_values (gq_policies s))" using map_of_SomeD [OF p(1)] by force
  then have "backs (rt_fallback (gq_runtime s)) p" unfolding fb by (rule fold_backs)
  then obtain q where q: "gm_get (rt_fallback (gq_runtime s)) (gl_endpoint p) = Some q" "3 \<le> mode_rank (gl_mode q)"
    using p(2) by (auto simp: backs_def mode_rank_def)
  have "q \<in> set (gm_values (gq_policies s))" using q(1) fold_origin [of _ "[]"] unfolding fb by force
  then obtain k where "(k, q) \<in> set (gq_policies s)" by auto
  then have "policy_ok env k q" using ok by (auto simp: gql_ok_def bounded_map_def gm_all_def)
  moreover have "gl_mode q = Enforce" using q(2) by (cases "gl_mode q") (auto simp: mode_rank_def)
  ultimately show thesis using that q(1) by blast
qed

lemma conclude_refuses:
  assumes "policy_ok env k p" and "gl_mode p = Enforce"
  shows "vd_refused (conclude (Some p) vs obs) = (if vs = [] then None else Some (gl_status p))"
    and "400 \<le> gl_status p \<and> gl_status p \<le> 499"
  using assms by (auto simp: conclude_def action_for_def refusal_status_def policy_ok_def Let_def)

text \<open>A request of an enforced endpoint that cannot be analysed is refused.\<close>

lemma judge_error:
  assumes ok: "gql_ok env s" and p: "gm_get (gq_policies s) pid = Some p" "gl_mode p = Enforce" "gl_endpoint p = gr_endpoint r"
    and "ld_fallback ld = gq_runtime s" and "analyse_envelope env (ld_persisted ld) e derr = Inl x"
  obtains st where "vd_refused (judge env ld r e derr now) = Some st" and "400 \<le> st \<and> st \<le> 499"
proof -
  from enforced_fallback [OF ok p(1,2)] obtain q k where
    q: "gm_get (rt_fallback (gq_runtime s)) (gr_endpoint r) = Some q" "gl_mode q = Enforce" "policy_ok env k q"
    unfolding p(3) by metis
  show thesis using that conclude_refuses [OF q(3,2)] assms(5,6) q(1) by (simp add: judge_def Let_def)
qed

lemma runtime_policy_stored:
  assumes "gql_ok env s" and "runtime_policy env (gq_runtime s) endpoint name = Some p"
  obtains pid where "gm_get (gq_policies s) pid = Some p" and "policy_ok env pid p"
proof -
  from assms obtain pid where "gm_get (gq_policies s) pid = Some p"
    by (auto simp: runtime_policy_def gql_ok_def snapshot_fresh_def split: option.splits if_splits)
  with assms(1) that show thesis by (auto simp: gql_ok_def dest: bounded_map_get)
qed

text \<open>An analysed request of an enforced policy is refused exactly when it does not comply.\<close>

lemma judge_analysed:
  assumes ok: "gql_ok env s" and "ld_policy ld = gq_runtime s"
    and a: "analyse_envelope env (ld_persisted ld) e derr = Inr (a, known)"
    and p: "runtime_policy env (gq_runtime s) (gr_endpoint r) (ga_name a) = Some p" "gl_mode p = Enforce"
    and "\<not> complies p (runtime_contract (ld_contract ld) (gl_contract p)) a (ev_persisted e \<and> known)"
  obtains st where "vd_refused (judge env ld r e derr now) = Some st" and "400 \<le> st \<and> st \<le> 499"
proof -
  from runtime_policy_stored [OF ok p(1)] obtain pid where pid: "policy_ok env pid p" by blast
  have "lists_sorted p" using pid by (simp add: policy_ok_def)
  from evaluate_iff_complies [OF this] assms(6)
  have ne: "evaluate_policy p (runtime_contract (ld_contract ld) (gl_contract p)) a (ev_persisted e \<and> known)
      endpoint opid t \<noteq> []" for endpoint opid t by simp
  show thesis
    using that conclude_refuses [OF pid p(2)] a p ne assms(2) by (simp add: judge_def Let_def)
qed

lemma analyze_document_fields:
  assumes "parse_document src = Inr doc" and "choose_operation (gd_operations doc) name = Inr op"
    and "analyze_document env src name = Inr a" and "occurs_in (gd_fragments doc) (od_selections op) path"
  shows "ga_name a = od_name op" and "dotted (od_type op) path \<in> set (ga_fields a)"
proof -
  from assms(1-3) have "analyze_operation env doc op = Inr a" by (simp add: analyze_document_def)
  then obtain st where w: "walk (gd_fragments doc) (od_type op) 1 [] (od_selections op) start_walk = Inr st"
    and a: "ga_fields a = sort_strings (ws_fields st)" "ga_name a = od_name op" by (rule analyze_operation_walk)
  show "ga_name a = od_name op" by (rule a(2))
  show "dotted (od_type op) path \<in> set (ga_fields a)"
    using walk_fields [OF w] assms(4) by (auto simp: a(1) paths_of_def)
qed

text \<open>C3: A field an operator has denied is not served. If a request names an operation in whose
  selections a denied field occurs (at any depth, behind any alias, fragment or inline fragment),
  and the policy for that operation is enforced, then the request is refused with a status from
  400 to 499: also when the analysis gives up on the document, and whatever the order and size of
  the document, as long as it parses.\<close>

theorem denied_field_blocked:
  assumes "hex_ids env" and s: "s = run_machine (gql_step env) es new_gql_store"
    and loads: "ld_policy ld = gq_runtime s" "ld_fallback ld = gq_runtime s"
    and request: "decode_envelope r = Graphql e derr" "parse_document (ev_query e) = Inr doc"
      "choose_operation (gd_operations doc) (ev_operation e) = Inr op"
      "occurs_in (gd_fragments doc) (od_selections op) path" and "ev_query e \<noteq> []"
    and policy: "runtime_policy env (gq_runtime s) (gr_endpoint r) (od_name op) = Some p" "gl_mode p = Enforce"
      "gl_endpoint p = gr_endpoint r" "dotted (od_type op) path \<in> set (gl_denied p)"
  shows "\<exists>v st. graphql_verdict env ld now r = Some v \<and> vd_refused v = Some st \<and> 400 \<le> st \<and> st \<le> 499"
proof -
  have ok: "gql_ok env s" unfolding s by (rule gql_run_ok [OF assms(1) new_gql_ok])
  from runtime_policy_stored [OF ok policy(1)] obtain pid where pid: "gm_get (gq_policies s) pid = Some p" by blast
  have v: "graphql_verdict env ld now r = Some (judge env ld r e derr now)" using request(1) by (simp add: graphql_verdict_def)
  show ?thesis
  proof (cases "analyse_envelope env (ld_persisted ld) e derr")
    case (Inl x)
    from judge_error [OF ok pid policy(2,3) loads(2) Inl, of now] v show ?thesis by metis
  next
    case (Inr ak)
    then obtain a known where ak: "analyse_envelope env (ld_persisted ld) e derr = Inr (a, known)" by (cases ak) auto
    with \<open>ev_query e \<noteq> []\<close> have "analyze_document env (ev_query e) (ev_operation e) = Inr a"
      by (auto simp: analyse_envelope_def split: option.splits if_splits sum.splits)
    from analyze_document_fields [OF request(2,3) this request(4)]
    have a: "ga_name a = od_name op" "dotted (od_type op) path \<in> set (ga_fields a)" .
    then have "\<not> complies p (runtime_contract (ld_contract ld) (gl_contract p)) a (ev_persisted e \<and> known)"
      using policy(4) by (auto simp: complies_def)
    from judge_analysed [OF ok loads(1) ak policy(1) [folded a(1)] policy(2) this, of now] v show ?thesis by metis
  qed
qed

definition served :: "gql_verdict option \<Rightarrow> bool" where
  "served v \<longleftrightarrow> (case v of None \<Rightarrow> True | Some v \<Rightarrow> vd_refused v = None)"

text \<open>C11: Enforcement fails closed. Once some policy of an endpoint is enforced, a request to it is
  served only if it is none the endpoint takes for GraphQL (no envelope, and not a POST of JSON),
  or its envelope was read and its operation analysed without an error, and the operation complies
  with the policy chosen for it, if that one is enforced.\<close>

theorem enforce_fails_closed:
  assumes "hex_ids env" and s: "s = run_machine (gql_step env) es new_gql_store"
    and loads: "ld_configured ld = gq_runtime s" "ld_policy ld = gq_runtime s" "ld_fallback ld = gq_runtime s"
      "ld_contract ld = gq_runtime s"
    and p: "gm_get (gq_policies s) pid = Some p" "gl_mode p = Enforce" "gl_endpoint p = gr_endpoint r"
    and "served (graphql_verdict env ld now r)"
  shows "decode_envelope r = Not_Graphql \<and> \<not> (gr_method r = ''POST'' \<and> json_media (gr_media r)) \<or>
    (\<exists>e a known. decode_envelope r = Graphql e None \<and> analyse_envelope env (ld_persisted ld) e None = Inr (a, known) \<and>
      (\<forall>q. runtime_policy env (gq_runtime s) (gr_endpoint r) (ga_name a) = Some q \<and> gl_mode q = Enforce \<longrightarrow>
        complies q (runtime_contract (gq_runtime s) (gl_contract q)) a (ev_persisted e \<and> known)))"
proof -
  have ok: "gql_ok env s" unfolding s by (rule gql_run_ok [OF assms(1) new_gql_ok])
  note refused = judge_error [OF ok p loads(3)]
  have served: "vd_refused (judge env ld r e derr now) = None" if "graphql_verdict env ld now r = Some (judge env ld r e derr now)"
    for e derr using assms(10) that by (simp add: served_def)
  have no_error: "\<exists>a known. analyse_envelope env (ld_persisted ld) e derr = Inr (a, known)"
    if "graphql_verdict env ld now r = Some (judge env ld r e derr now)" for e derr
  proof (cases "analyse_envelope env (ld_persisted ld) e derr")
    case (Inl x)
    from refused [OF this, of now] served [OF that] show ?thesis by auto
  qed auto
  show ?thesis
  proof (cases "decode_envelope r")
    case Not_Graphql
    have "gm_get (rt_fallback (gq_runtime s)) (gr_endpoint r) \<noteq> None"
      using enforced_fallback [OF ok p(1,2)] p(3) by (metis option.distinct(1))
    moreover have "\<not> graphql_verdict env ld now r = Some (judge env ld r empty_envelope (Some Envelope_Invalid) now)"
      using no_error by (force simp: analyse_envelope_def)
    ultimately show ?thesis
      using Not_Graphql loads(1) by (auto simp: graphql_verdict_def split: if_splits)
  next
    case (Graphql e derr)
    then have v: "graphql_verdict env ld now r = Some (judge env ld r e derr now)" by (simp add: graphql_verdict_def)
    from no_error [OF v] obtain a known where ak: "analyse_envelope env (ld_persisted ld) e derr = Inr (a, known)" by blast
    then have "derr = None" by (auto simp: analyse_envelope_def split: option.splits)
    moreover have "complies q (runtime_contract (gq_runtime s) (gl_contract q)) a (ev_persisted e \<and> known)"
      if "runtime_policy env (gq_runtime s) (gr_endpoint r) (ga_name a) = Some q" "gl_mode q = Enforce" for q
      using judge_analysed [OF ok loads(2) ak that, of now] served [OF v] loads(4) by fastforce
    ultimately show ?thesis using Graphql ak by blast
  qed
qed

end
