(* ===== verification/Graphql_Witness.thy ===== *)
theory Graphql_Witness
  imports Graphql_Machine
begin

text \<open>
  The properties of the GraphQL store at a concrete store: an operator denies a field of an
  endpoint, takes the policy through DETECT to ENFORCE, and a query of that field arrives.
\<close>

text \<open>A hash with the right alphabet and length.\<close>

definition demo_hash :: "string \<Rightarrow> string" where
  "demo_hash x = replicate 31 (CHR ''0'') @ [char_of (48 + length x mod 10)]"

definition demo_gql_env :: gql_env where
  "demo_gql_env = sample_gql_env\<lparr>ge_hash16 := demo_hash\<rparr>"

lemma digit_hex: "k < 10 \<Longrightarrow> hex_char (char_of (48 + k :: nat))"
  by (simp add: hex_char_def less_eq_char_def)

lemma demo_hex_ids: "hex_ids demo_gql_env"
  by (simp add: hex_ids_def hex32_def hex_decodes_def demo_gql_env_def demo_hash_def digit_hex) (simp add: list_all_iff hex_char_def less_eq_char_def)

definition demo_endpoint :: string where "demo_endpoint = replicate 32 (CHR ''a'')"

text \<open>A policy that denies a field, from its first edit to ENFORCE.\<close>

definition demo_policy :: "string \<Rightarrow> gql_policy" where
  "demo_policy f = \<lparr>gl_id = [], gl_endpoint = demo_endpoint, gl_name = [], gl_contract = [], gl_mode = Learn,
     gl_max_depth = 0, gl_max_complexity = 0, gl_introspection = False, gl_mutation = False, gl_subscription = False,
     gl_persisted = False, gl_allowed = [], gl_denied = [f], gl_status = 403, gl_created_at = 0,
     gl_updated_at = 0, gl_created_by = [], gl_updated_by = [], gl_reason = []\<rparr>"

definition demo_id :: string where "demo_id = gql_policy_id demo_gql_env demo_endpoint []"

definition demo_mode :: "string \<Rightarrow> gql_mode \<Rightarrow> gtime \<Rightarrow> string \<Rightarrow> gql_policy" where
  "demo_mode f m t reason = (demo_policy f)\<lparr>gl_id := demo_id, gl_created_at := 1, gl_created_by := ''op'',
     gl_updated_by := ''op'', gl_mode := m, gl_updated_at := t, gl_reason := reason\<rparr>"

definition demo_events :: "string \<Rightarrow> gql_event list" where
  "demo_events f = [Edit_Policy 1 None (demo_policy f) ''op'', Change_Mode 2 demo_id ''DETECT'' ''op'' [],
     Change_Mode 3 demo_id ''ENFORCE'' ''op'' ''reviewed'']"

definition demo_store :: "gql_policy \<Rightarrow> gql_store" where
  "demo_store p = rebuild_runtime (new_gql_store\<lparr>gq_policies := [(demo_id, p)]\<rparr>)"

definition demo_enforced :: "string \<Rightarrow> gql_store" where
  "demo_enforced f = demo_store (demo_mode f Enforce 3 ''reviewed'')"

lemma demo_endpoint_ok: "valid_operation_id demo_endpoint" "trim_space demo_endpoint = demo_endpoint"
proof -
  have h: "hex32 demo_endpoint"
    by (simp add: demo_endpoint_def hex32_def hex_decodes_def list_all_iff) (simp add: hex_char_def less_eq_char_def)
  then show "valid_operation_id demo_endpoint" by (simp add: hex32_def valid_operation_id_def)
  from h show "trim_space demo_endpoint = demo_endpoint" by (rule hex32_trim)
qed

lemma demo_trims: "trim_space ''query.user.email'' = ''query.user.email''" "trim_space ''query.user.phone'' = ''query.user.phone''"
    "trim_space ''DETECT'' = ''DETECT''" "trim_space ''ENFORCE'' = ''ENFORCE''" "trim_space ''reviewed'' = ''reviewed''"
  by (rule trim_space_visible; simp add: visible_def less_eq_char_def)+

lemma demo_fields_ok: "valid_field_path ''query.user.email''" "valid_field_path ''query.user.phone''"
  by (simp_all add: valid_field_path_def valid_graphql_name_def less_eq_char_def Let_def absolute_max_depth_def)

lemma demo_checked: "trim_space f = f \<Longrightarrow> valid_field_path f \<Longrightarrow> check_policy None (demo_policy f) = Inr (demo_policy f)"
  by (simp add: check_policy_def demo_policy_def demo_endpoint_ok normalize_selectors_def max_policy_fields_def Let_def
      sort_strings_def sort_by_Cons absolute_max_depth_def absolute_max_complexity_def max_policy_reason_def)

lemma demo_edit:
  assumes "trim_space f = f" and "valid_field_path f"
  shows "gql_step demo_gql_env (Edit_Policy 1 None (demo_policy f) ''op'') new_gql_store = demo_store (demo_mode f Learn 1 [])"
  by (simp add: upsert_gql_policy_def demo_checked [OF assms] Let_def demo_store_def edited_policy_def new_gql_store_def
      demo_id_def max_gql_policies_def demo_mode_def) (simp add: demo_policy_def demo_id_def)

lemma rebuild_again:
  "rebuild_runtime ((rebuild_runtime s)\<lparr>gq_policies := x\<rparr>) = rebuild_runtime (s\<lparr>gq_policies := x\<rparr>)"
  by (simp add: rebuild_runtime_def)

lemma demo_set_mode:
  assumes "parse_mode (to_upper (trim_space text')) = Some m" and "trim_space reason = reason" and "length reason \<le> 512"
    and "mode_transition m' m" and "m = Enforce \<longrightarrow> reason \<noteq> []"
  shows "gql_step demo_gql_env (Change_Mode t demo_id text' ''op'' reason) (demo_store (demo_mode f m' t' reason')) =
    demo_store (demo_mode f m t reason)"
  using assms by (auto simp: set_gql_mode_def demo_store_def Let_def max_policy_reason_def rebuild_again demo_mode_def demo_policy_def)

lemma demo_parse_modes: "parse_mode (to_upper ''DETECT'') = Some Detect" "parse_mode (to_upper ''ENFORCE'') = Some Enforce"
  by (simp_all add: parse_mode_def to_upper_def upper_char_def mode_text_def less_eq_char_def)

lemma demo_run:
  assumes "trim_space f = f" and "valid_field_path f"
  shows "run_machine (gql_step demo_gql_env) (demo_events f) new_gql_store = demo_enforced f"
proof -
  have "gql_step demo_gql_env (Change_Mode 2 demo_id ''DETECT'' ''op'' []) (demo_store (demo_mode f Learn 1 [])) =
      demo_store (demo_mode f Detect 2 [])"
    by (rule demo_set_mode) (simp_all add: demo_trims demo_parse_modes mode_transition_def)
  moreover have "gql_step demo_gql_env (Change_Mode 3 demo_id ''ENFORCE'' ''op'' ''reviewed'') (demo_store (demo_mode f Detect 2 [])) =
      demo_enforced f"
    unfolding demo_enforced_def by (rule demo_set_mode) (simp_all add: demo_trims demo_parse_modes mode_transition_def)
  ultimately show ?thesis by (simp only: demo_events_def run_machine.simps demo_edit [OF assms])
qed

lemmas demo_runs = demo_run [OF demo_trims(1) demo_fields_ok(1)] demo_run [OF demo_trims(2) demo_fields_ok(2)]

lemma demo_lookup: "gm_get (gq_policies (demo_enforced f)) demo_id = Some (demo_mode f Enforce 3 ''reviewed'')"
  by (simp add: demo_store_def demo_enforced_def)

lemma demo_modes [simp]: "gl_mode (demo_mode f m t r) = m" "gl_endpoint (demo_mode f m t r) = demo_endpoint"
    "gl_denied (demo_mode f m t r) = [f]"
  by (simp_all add: demo_mode_def demo_policy_def)

theorem gql_tables_bounded_witness: "length (gq_policies (demo_enforced ''query.user.email'')) \<le> 1024"
  using gql_tables_bounded [OF demo_hex_ids demo_runs(1) [symmetric]] by simp


section \<open>Requests\<close>

definition demo_request :: gql_request where
  "demo_request = \<lparr>gr_site = ''s'', gr_endpoint = demo_endpoint, gr_method = ''POST'', gr_media = ''application/graphql'',
     gr_url_query = [], gr_url_operation = [], gr_url_variables = [], gr_url_variables_json = None,
     gr_url_extensions = No_Extensions, gr_body = print_source sample_source, gr_truncated = False, gr_body_json = None,
     gr_identity = no_observation\<rparr>"

definition demo_envelope :: gql_envelope where "demo_envelope = empty_envelope\<lparr>ev_query := print_source sample_source\<rparr>"

definition demo_loads :: "string \<Rightarrow> gql_loads" where
  "demo_loads f = (let rt = gq_runtime (demo_enforced f) in
     \<lparr>ld_configured = rt, ld_persisted = rt, ld_policy = rt, ld_fallback = rt, ld_contract = rt\<rparr>)"

lemma demo_loads_simps [simp]: "ld_configured (demo_loads f) = gq_runtime (demo_enforced f)"
    "ld_persisted (demo_loads f) = gq_runtime (demo_enforced f)" "ld_policy (demo_loads f) = gq_runtime (demo_enforced f)"
    "ld_fallback (demo_loads f) = gq_runtime (demo_enforced f)" "ld_contract (demo_loads f) = gq_runtime (demo_enforced f)"
  by (simp_all add: demo_loads_def Let_def)

lemma print_sample_nonempty: "print_source sample_source \<noteq> []"
  by (simp add: sample_source_def print_source_def print_tokens_def source_tokens_def operation_tokens_def)

lemma demo_envelope_simps [simp]: "ev_query demo_envelope = print_source sample_source" "ev_operation demo_envelope = []"
    "ev_persisted demo_envelope = False"
  by (simp_all add: demo_envelope_def empty_envelope_def)

lemma demo_request_simps [simp]: "gr_endpoint demo_request = demo_endpoint"
  by (simp add: demo_request_def)

lemma demo_decoded: "decode_envelope demo_request = Graphql demo_envelope None"
  by (simp add: decode_envelope_def decode_post_def demo_request_def demo_envelope_def print_sample_nonempty)

abbreviation sample_query :: gql_operation_def where "sample_query \<equiv> operation_of (hd (gs_operations sample_source))"

lemma sample_chosen: "choose_operation (gd_operations (document_of sample_source)) [] = Inr sample_query"
  unfolding sample_operation by (simp add: choose_operation_def)

lemma sample_query_simps: "od_name sample_query = ''Q''" "od_type sample_query = ''query''"
  by (simp_all add: operation_of_def sample_source_def)

lemma sample_parsed: "parse_document (print_source sample_source) = Inr (document_of sample_source)"
  by (rule source_read_back [OF sample_source_printable sample_source_short])

lemma sample_occurs: "occurs_in (gd_fragments (document_of sample_source)) (od_selections sample_query) [''user'', ''email'']"
  by (simp add: document_of_def operation_of_def sample_source_def occurs_simps)

lemma demo_runtime:
  assumes "name = ''Q''"
  shows "runtime_policy demo_gql_env (gq_runtime (demo_enforced f)) demo_endpoint name = Some (demo_mode f Enforce 3 ''reviewed'')"
  by (simp add: assms runtime_policy_def demo_enforced_def demo_store_def rebuild_runtime_def demo_id_def)

theorem denied_field_blocked_witness:
  "\<exists>v st. graphql_verdict demo_gql_env (demo_loads ''query.user.email'') 4 demo_request = Some v \<and>
    vd_refused v = Some st \<and> 400 \<le> st \<and> st \<le> 499"
  by (rule denied_field_blocked [OF demo_hex_ids demo_runs(1) [symmetric] _ _ demo_decoded _ _ sample_occurs,
        where p = "demo_mode ''query.user.email'' Enforce 3 ''reviewed''"])
    (simp_all add: sample_parsed sample_chosen print_sample_nonempty demo_runtime [OF refl] field_path_def
      sample_query_simps)

text \<open>The same query where another field is denied complies and is served.\<close>

lemma sample_demo_analyzed: "analyze_document demo_gql_env (print_source sample_source) [] = Inr sample_analysis"
proof -
  have fp: "fingerprint demo_gql_env = fingerprint sample_gql_env" by (simp add: fun_eq_iff fingerprint_def demo_gql_env_def)
  have "analyze_operation demo_gql_env doc op = analyze_operation sample_gql_env doc op" for doc op
    unfolding analyze_operation_def fp ..
  then show ?thesis by (simp add: analyze_document_def sample_parsed sample_chosen sample_analyzed)
qed

lemma demo_analysed: "analyse_envelope demo_gql_env rt demo_envelope None = Inr (sample_analysis, False)"
  using sample_source_short by (simp add: analyse_envelope_def print_sample_nonempty sample_demo_analyzed max_query_bytes_def)

lemma demo_complies: "complies (demo_mode ''query.user.phone'' Enforce 3 ''reviewed'') None sample_analysis False"
  by (simp add: complies_def demo_mode_def demo_policy_def sample_analysis_def)

lemma demo_served: "served (graphql_verdict demo_gql_env (demo_loads ''query.user.phone'') 4 demo_request)"
proof -
  have "lists_sorted (demo_mode ''query.user.phone'' Enforce 3 ''reviewed'')"
    by (simp add: lists_sorted_def demo_mode_def demo_policy_def)
  note eval = evaluate_iff_complies [OF this, THEN iffD2, OF demo_complies]
  have name: "ga_name sample_analysis = ''Q''" and contract: "gl_contract (demo_mode ''query.user.phone'' Enforce 3 ''reviewed'') = []"
    and abs: "ga_depth sample_analysis \<le> absolute_max_depth" "ga_complexity sample_analysis \<le> absolute_max_complexity"
    by (simp_all add: sample_analysis_def demo_mode_def demo_policy_def absolute_max_depth_def absolute_max_complexity_def)
  then have none: "absolute_violations sample_analysis m e opid t = []" for m e opid t
    by (simp add: absolute_violations_def)
  show ?thesis
    by (simp add: served_def graphql_verdict_def demo_decoded judge_def demo_analysed demo_runtime [OF name] contract
        runtime_contract_def none eval conclude_def action_for_def Let_def)
qed

theorem enforce_fails_closed_witness:
  "complies (demo_mode ''query.user.phone'' Enforce 3 ''reviewed'') None sample_analysis False"
proof -
  have name: "ga_name sample_analysis = ''Q''" by (simp add: sample_analysis_def)
  have contract: "gl_contract (demo_mode ''query.user.phone'' Enforce 3 ''reviewed'') = []" by (simp add: demo_mode_def demo_policy_def)
  from enforce_fails_closed [OF demo_hex_ids demo_runs(2) [symmetric] _ _ _ _ demo_lookup _ _ demo_served]
  obtain e a known where "decode_envelope demo_request = Graphql e None"
    and "analyse_envelope demo_gql_env (ld_persisted (demo_loads ''query.user.phone'')) e None = Inr (a, known)"
    and "\<forall>q. runtime_policy demo_gql_env (gq_runtime (demo_enforced ''query.user.phone'')) (gr_endpoint demo_request) (ga_name a) =
        Some q \<and> gl_mode q = Enforce \<longrightarrow>
      complies q (runtime_contract (gq_runtime (demo_enforced ''query.user.phone'')) (gl_contract q)) a (ev_persisted e \<and> known)"
    by (auto simp: demo_decoded)
  then show ?thesis by (simp add: demo_decoded demo_analysed demo_runtime [OF name] contract runtime_contract_def)
qed

end
