(* ===== verification/Graphql_Restart.thy ===== *)
theory Graphql_Restart
  imports Graphql_Witness
begin

text \<open>
  What the state file of the GraphQL store brings back: the policies and contracts of a store
  whose contracts pass the checks of the file, and how a contract that does not pass them takes
  its policies with it.
\<close>

section \<open>Tables through a file\<close>

lemma load_gql_table_append:
  assumes "gm_ok (m1 @ m2)" and "\<forall>(k, v) \<in> set m2. key v = k \<and> ok v" and "length (m1 @ m2) \<le> n"
  shows "load_gql_table n key ok (gm_values m2) m1 = m1 @ m2"
  using assms
proof (induction m2 arbitrary: m1)
  case (Cons kv m2)
  obtain k v where kv: "kv = (k, v)" by (cases kv)
  have new: "k \<notin> fst ` set m1" using Cons.prems(1) kv by (auto simp: gm_ok_def)
  have "load_gql_table n key ok (gm_values (kv # m2)) m1 = load_gql_table n key ok (gm_values m2) (gm_put k v m1)"
    using Cons.prems(2,3) kv by (simp add: load_gql_table_def)
  also have "\<dots> = load_gql_table n key ok (gm_values m2) (m1 @ [kv])" using gm_put_new [OF new] kv by simp
  also have "\<dots> = (m1 @ [kv]) @ m2" by (rule Cons.IH) (use Cons.prems in auto)
  finally show ?case by simp
qed (simp add: load_gql_table_def)

lemma load_gql_table_back:
  assumes "bounded_map (int n) P m" and "gm_all (\<lambda>k v. key v = k \<and> ok v) m"
  shows "load_gql_table n key ok (gm_values m) [] = m"
  using load_gql_table_append [of "[]" m key ok n] assms by (auto simp: bounded_map_def gm_all_def)

section \<open>Times\<close>

text \<open>The clock of the operators' requests shows a time.\<close>

fun clock_set :: "gql_event \<Rightarrow> bool" where
  "clock_set (Import_Contract now _ _ _ _) \<longleftrightarrow> now \<noteq> 0"
| "clock_set (Edit_Policy now _ _ _) \<longleftrightarrow> now \<noteq> 0"
| "clock_set (Change_Mode now _ _ _ _) \<longleftrightarrow> now \<noteq> 0"
| "clock_set _ \<longleftrightarrow> True"

definition dated :: "gql_store \<Rightarrow> bool" where
  "dated s \<longleftrightarrow> gm_all (\<lambda>_ p. gl_created_at p \<noteq> 0 \<and> gl_updated_at p \<noteq> 0) (gq_policies s)"

lemma dated_revalidated:
  "gm_all (\<lambda>_ p. gl_created_at p \<noteq> 0 \<and> gl_updated_at p \<noteq> 0) ps \<Longrightarrow> now \<noteq> 0 \<Longrightarrow>
   gm_all (\<lambda>_ p. gl_created_at p \<noteq> 0 \<and> gl_updated_at p \<noteq> 0) (revalidated now who cid ps)"
proof -
  assume "gm_all (\<lambda>_ p. gl_created_at p \<noteq> 0 \<and> gl_updated_at p \<noteq> 0) ps" and "now \<noteq> 0"
  then have "gl_created_at (revalidate now who cid p) \<noteq> 0 \<and> gl_updated_at (revalidate now who cid p) \<noteq> 0"
    if "(k, p) \<in> set ps" for k p
    using that by (auto simp: gm_all_def revalidate_def)
  then show ?thesis by (auto simp: gm_all_def revalidated_def)
qed

lemma dated_import: "dated s \<Longrightarrow> now \<noteq> 0 \<Longrightarrow> dated (snd (upsert_contract env now name endpoint sdl who s))"
proof (cases "upsert_contract env now name endpoint sdl who s")
  case (Pair r s')
  assume s: "dated s" "now \<noteq> 0"
  show ?thesis
  proof (cases r)
    case (Inl e)
    with Pair s show ?thesis by (auto dest: upsert_contract_refused)
  next
    case (Inr row)
    with Pair have "upsert_contract env now name endpoint sdl who s = (Inr row, s')" by simp
    then show ?thesis by (cases rule: upsert_contract_cases) (use Pair s in \<open>auto simp: dated_def dated_revalidated\<close>)
  qed
qed

lemma dated_edit: "dated s \<Longrightarrow> now \<noteq> 0 \<Longrightarrow> dated (snd (upsert_gql_policy env now seen req who s))"
  by (auto simp: dated_def upsert_gql_policy_def Let_def edited_policy_def intro!: gm_all_put dest: gm_all_get
      split: sum.splits option.splits)

lemma dated_mode: "dated s \<Longrightarrow> now \<noteq> 0 \<Longrightarrow> dated (snd (set_gql_mode now pid mode who reason s))"
  by (cases rule: set_gql_mode_cases [of now pid mode who reason s]) (auto simp: dated_def intro!: gm_all_put dest: gm_all_get)

lemma dated_step: "dated s \<Longrightarrow> clock_set e \<Longrightarrow> dated (gql_step env e s)"
proof (cases e)
  case (Drop_Contract cid)
  assume "dated s" with Drop_Contract show ?thesis by (auto simp: dated_def delete_contract_def split: option.splits)
next
  case (Drop_Policy pid)
  assume "dated s" with Drop_Policy show ?thesis by (auto simp: dated_def delete_gql_policy_def split: option.splits)
next
  case Import_Contract
  assume "dated s" "clock_set e" with Import_Contract show ?thesis by (simp add: dated_import)
next
  case Edit_Policy
  assume "dated s" "clock_set e" with Edit_Policy show ?thesis by (simp add: dated_edit)
next
  case Change_Mode
  assume "dated s" "clock_set e" with Change_Mode show ?thesis by (simp add: dated_mode)
qed (auto simp: dated_def operations_snapshot_def persisted_snapshot_def save_gql_def Let_def)

lemma dated_run: "list_all clock_set es \<Longrightarrow> dated s \<Longrightarrow> dated (run_machine (gql_step env) es s)"
  by (induction es arbitrary: s) (auto intro: dated_step)

section \<open>The restart\<close>

lemma stored_policy_valid:
  assumes "hex_ids env" and "policy_ok env k p" and "gl_created_at p \<noteq> 0 \<and> gl_updated_at p \<noteq> 0"
    and "gl_contract p = [] \<or> hex32 (gl_contract p)"
  shows "gl_id p = k \<and> valid_gql_policy env p"
proof -
  have "hex32 (gl_id p)" using assms(1,2) by (auto simp: policy_ok_def hex_ids_def gql_policy_id_def)
  with assms(2-4) show ?thesis by (auto simp: policy_ok_def valid_gql_policy_def time_is_zero_def)
qed

text \<open>Contracts and policies survive a restart. If every schema contract passes the checks the
  loader makes of it, then what a new store loads from the file of the old one are the same
  contracts and, unless a policy names a contract of another endpoint, the same policies in the
  same modes, and the same fallback of every endpoint.\<close>

theorem gql_restart:
  assumes "hex_ids env" and "list_all clock_set es" and s: "s = run_machine (gql_step env) es new_gql_store"
    and "gm_all (\<lambda>_ c. valid_gql_contract env c) (gq_contracts s)"
    and "gm_all (\<lambda>_ p. policy_linked (gq_contracts s) p) (gq_policies s)"
  shows "\<exists>s'. load_gql env now' (fst (save_gql now s)) new_gql_store = Some s' \<and> gq_contracts s' = gq_contracts s \<and>
    gq_policies s' = gq_policies s \<and> rt_policies (gq_runtime s') = rt_policies (gq_runtime s) \<and>
    rt_contracts (gq_runtime s') = rt_contracts (gq_runtime s) \<and> rt_fallback (gq_runtime s') = rt_fallback (gq_runtime s)"
proof -
  have ok: "gql_ok env s" unfolding s by (rule gql_run_ok [OF assms(1) new_gql_ok])
  have dated: "dated s" unfolding s by (rule dated_run [OF assms(2)]) (simp add: dated_def new_gql_store_def)
  have cs: "load_gql_table max_contracts gc_id (valid_gql_contract env) (gm_values (gq_contracts s)) [] = gq_contracts s"
  proof (rule load_gql_table_back)
    show "bounded_map (int max_contracts) contract_ok (gq_contracts s)" using ok by (simp add: gql_ok_def)
    then show "gm_all (\<lambda>k v. gc_id v = k \<and> valid_gql_contract env v) (gq_contracts s)"
      using assms(4) by (auto simp: gm_all_def bounded_map_def contract_ok_def)
  qed
  have key: "hex32 k" if "gm_get (gq_contracts s) k = Some c" for k c
  proof -
    have "gc_id c = k" using ok that by (auto simp: gql_ok_def contract_ok_def dest: bounded_map_get)
    moreover have "gc_id c = contract_id env (gc_endpoint c) (gc_name c)"
      using assms(4) that by (auto simp: valid_gql_contract_def dest: gm_all_get)
    ultimately have "k = contract_id env (gc_endpoint c) (gc_name c)" by simp
    then show ?thesis using assms(1) by (simp add: hex_ids_def contract_id_def)
  qed
  have ps: "load_gql_table max_gql_policies gl_id (\<lambda>v. valid_gql_policy env v \<and> policy_linked (gq_contracts s) v)
      (gm_values (gq_policies s)) [] = gq_policies s"
  proof (rule load_gql_table_back)
    show "bounded_map (int max_gql_policies) (policy_ok env) (gq_policies s)" using ok by (simp add: gql_ok_def)
    have "gl_id p = k \<and> valid_gql_policy env p" if "(k, p) \<in> set (gq_policies s)" for k p
    proof (rule stored_policy_valid [OF assms(1)])
      show "policy_ok env k p" using ok that by (auto simp: gql_ok_def bounded_map_def gm_all_def)
      show "gl_created_at p \<noteq> 0 \<and> gl_updated_at p \<noteq> 0" using dated that by (auto simp: dated_def gm_all_def)
      show "gl_contract p = [] \<or> hex32 (gl_contract p)"
        using ok that key by (fastforce simp: gql_ok_def gm_all_def linked_def gm_has_def)
    qed
    then show "gm_all (\<lambda>k v. gl_id v = k \<and> valid_gql_policy env v \<and> policy_linked (gq_contracts s) v) (gq_policies s)"
      using assms(5) by (auto simp: gm_all_def)
  qed
  show ?thesis
    using ok cs ps
    by (simp add: load_gql_def save_gql_def Let_def new_gql_store_def) (simp add: rebuild_runtime_def gql_ok_def snapshot_fresh_def)
qed

lemma demo_clock: "list_all clock_set (demo_events f)"
  by (simp add: demo_events_def)

theorem gql_restart_witness:
  "\<exists>s'. load_gql demo_gql_env 5 (fst (save_gql 4 (demo_enforced ''query.user.email''))) new_gql_store = Some s' \<and>
    gq_policies s' = [(demo_id, demo_mode ''query.user.email'' Enforce 3 ''reviewed'')]"
proof -
  have "gq_contracts (demo_enforced ''query.user.email'') = []"
    and p: "gq_policies (demo_enforced ''query.user.email'') = [(demo_id, demo_mode ''query.user.email'' Enforce 3 ''reviewed'')]"
    by (simp_all add: demo_enforced_def demo_store_def new_gql_store_def)
  then have "gm_all (\<lambda>_ c. valid_gql_contract demo_gql_env c) (gq_contracts (demo_enforced ''query.user.email''))"
    "gm_all (\<lambda>_ p. policy_linked (gq_contracts (demo_enforced ''query.user.email'')) p) (gq_policies (demo_enforced ''query.user.email''))"
    by (simp_all add: gm_all_def policy_linked_def demo_mode_def demo_policy_def)
  from gql_restart [OF demo_hex_ids demo_clock demo_runs(1) [symmetric] this, of 5 4] p show ?thesis by auto
qed

section \<open>What a restart loses\<close>

lemma load_gql_table_origin:
  "gm_get (load_gql_table n key ok vs m) k = Some v \<Longrightarrow> (v \<in> set vs \<and> ok v \<and> key v = k) \<or> gm_get m k = Some v"
proof (induction vs arbitrary: m)
  case (Cons w vs)
  let ?m = "if length m \<ge> n \<or> \<not> ok w then m else gm_put (key w) w m"
  have "gm_get (load_gql_table n key ok vs ?m) k = Some v" using Cons.prems by (simp add: load_gql_table_def)
  from Cons.IH [OF this] show ?case by (auto simp: gm_get_put split: if_splits)
qed (simp add: load_gql_table_def)

lemma load_gql_table_fresh:
  assumes "gm_get (load_gql_table n key ok vs []) k = Some v" shows "v \<in> set vs" and "ok v" and "key v = k"
  using load_gql_table_origin [OF assms] by simp_all

text \<open>The tables of a store are indexed by the identifiers of their entries.\<close>

lemma bounded_map_key:
  assumes "bounded_map n P m" and "v \<in> set (gm_values m)" and "\<And>k. P k v \<Longrightarrow> key v = k"
  shows "gm_get m (key v) = Some v"
proof -
  from assms(2) obtain k where k: "(k, v) \<in> set m" by auto
  with assms(1) have "P k v" "gm_get m k = Some v" by (auto simp: bounded_map_def gm_all_def gm_ok_def)
  with assms(3) show ?thesis by simp
qed

lemma stored_keys:
  assumes "gql_ok env s"
  shows stored_contract: "c \<in> set (gm_values (gq_contracts s)) \<Longrightarrow> gm_get (gq_contracts s) (gc_id c) = Some c"
    and stored_policy: "p \<in> set (gm_values (gq_policies s)) \<Longrightarrow> gm_get (gq_policies s) (gl_id p) = Some p"
proof -
  show "gm_get (gq_contracts s) (gc_id c) = Some c" if "c \<in> set (gm_values (gq_contracts s))"
    using assms by (intro bounded_map_key [OF _ that, where P = contract_ok]) (auto simp: gql_ok_def contract_ok_def)
  show "gm_get (gq_policies s) (gl_id p) = Some p" if "p \<in> set (gm_values (gq_policies s))"
    using assms by (intro bounded_map_key [OF _ that, where P = "policy_ok env"]) (auto simp: gql_ok_def policy_ok_def)
qed

lemma long_name_invalid:
  assumes "gm_get (gc_types c) t = Some fs" and "f \<in> set fs" and "128 < length f" shows "\<not> valid_gql_contract env c"
proof
  assume "valid_gql_contract env c"
  then have "list_all (\<lambda>(t, fs). valid_type_fields (gc_field_types c) t fs) (gc_types c)" by (simp add: valid_gql_contract_def)
  with map_of_SomeD [OF assms(1)] have "valid_type_fields (gc_field_types c) t fs" by (auto simp: list_all_iff)
  with assms(2) have "valid_graphql_name f" by (simp add: valid_type_fields_def list_all_iff Let_def)
  with assms(3) show False by (simp add: valid_graphql_name_def)
qed

text \<open>A schema with a field name of more than 128 bytes is taken by the import, as the parser does
  not limit names, but not by the loader: after a restart the contract is gone, and with it every
  policy that names it, also one that was enforced.\<close>

theorem long_name_drops_policy:
  assumes "hex_ids env" and s: "s = run_machine (gql_step env) es new_gql_store"
    and p: "gm_get (gq_policies s) pid = Some p" "gl_contract p \<noteq> []"
    and c: "gm_get (gq_contracts s) (gl_contract p) = Some c" "gm_get (gc_types c) t = Some fs" "f \<in> set fs" "128 < length f"
    and load: "load_gql env now' (fst (save_gql now s)) new_gql_store = Some s'"
  shows "gm_get (gq_policies s') pid = None \<and> gm_get (gq_contracts s') (gl_contract p) = None"
proof -
  have ok: "gql_ok env s" unfolding s by (rule gql_run_ok [OF assms(1) new_gql_ok])
  define cs where "cs = load_gql_table max_contracts gc_id (valid_gql_contract env) (gm_values (gq_contracts s)) []"
  have s': "gq_contracts s' = cs" "gq_policies s' = load_gql_table max_gql_policies gl_id
      (\<lambda>v. valid_gql_policy env v \<and> policy_linked cs v) (gm_values (gq_policies s)) []"
    using load by (auto simp: load_gql_def save_gql_def Let_def new_gql_store_def cs_def)
  have none: "gm_get cs (gl_contract p) = None"
  proof (rule ccontr)
    assume "gm_get cs (gl_contract p) \<noteq> None"
    then obtain c' where "gm_get cs (gl_contract p) = Some c'" by blast
    then have c': "c' \<in> set (gm_values (gq_contracts s))" "valid_gql_contract env c'" "gc_id c' = gl_contract p"
      unfolding cs_def by (rule load_gql_table_fresh)+
    have "c' = c" using stored_contract [OF ok c'(1)] c'(3) c(1) by simp
    with c'(2) long_name_invalid [OF c(2-4)] show False by simp
  qed
  have "gm_get (gq_policies s') pid = None"
  proof (rule ccontr)
    assume "gm_get (gq_policies s') pid \<noteq> None"
    then obtain q where "gm_get (gq_policies s') pid = Some q" by blast
    note q = load_gql_table_fresh [OF this [unfolded s'(2)]]
    have "q = p" using stored_policy [OF ok q(1)] q(3) p(1) by simp
    with q(2) none p(2) show False by (simp add: policy_linked_def contract_serves_def)
  qed
  with none show ?thesis by (simp add: s'(1))
qed

section \<open>A long name, enforced and lost\<close>

definition long_name :: string where "long_name = replicate 129 (CHR ''f'')"

definition long_tokens :: "gql_token list" where
  "long_tokens = [name_token ''type'', name_token ''Query'', punct_token (CHR ''{''), name_token long_name,
     punct_token (CHR '':''), name_token ''Int'', punct_token (CHR ''}'')]"

definition long_sdl :: string where "long_sdl = print_tokens long_tokens"

definition long_schema :: sdl_state where
  "long_schema = \<lparr>sd_query = ''Query'', sd_mutation = [], sd_subscription = [], sd_types = [(''Query'', [long_name])],
     sd_field_types = [(''Query'', [(long_name, ''Int'')])], sd_total = 1\<rparr>"

lemma long_name_facts: "long_name \<noteq> []" "gql_name long_name" "length long_name = 129"
  by (simp_all add: long_name_def gql_name_def gql_name_start_def gql_name_continue_def less_eq_char_def list_all_iff)

lemma long_printed: "list_all printed_token long_tokens"
  by (simp add: long_tokens_def long_name_facts(2))
    (simp add: gql_name_def gql_name_start_def gql_name_continue_def less_eq_char_def)

lemma base_Int: "base_type ''Int'' = ''Int''"
proof -
  have "trim_space ''Int'' = ''Int''" by (rule trim_space_visible; simp add: visible_def less_eq_char_def)
  then show ?thesis by (simp add: base_type_def trim_type_marks_def)
qed

lemma long_sdl_short: "long_sdl \<noteq> []" "length long_sdl \<le> max_schema_bytes" "length long_tokens \<le> max_schema_tokens"
  by (simp_all add: long_sdl_def print_tokens_def long_tokens_def long_name_facts max_schema_bytes_def max_schema_tokens_def)

lemma long_parsed: "parse_sdl long_sdl = Inr long_schema"
proof -
  have "lex_bounded long_sdl max_schema_bytes max_schema_tokens = Inr (long_tokens @ [eof_token])"
    using lex_printed [OF long_printed, of 0 max_schema_tokens 0] long_sdl_short by (simp add: lex_bounded_def long_sdl_def)
  moreover have "sdl_definitions new_sdl (long_tokens @ [eof_token]) =
      Inr (long_schema\<lparr>sd_mutation := ''Mutation'', sd_subscription := ''Subscription''\<rparr>)"
    by (simp add: long_tokens_def sdl_definitions.simps sdl_keyword_def sdl_definition_def type_definition_def
        fields_of_type.simps skip_sdl_call_def type_ref.simps skip_text_def skip_directives_none add_field_def Let_def
        new_sdl_def long_schema_def base_Int max_schema_fields_def max_schema_types_def sort_by_Cons long_name_facts)
  ultimately show ?thesis using long_sdl_short by (simp add: parse_sdl_def long_schema_def gm_has_def)
qed

definition long_contract :: gql_contract where
  "long_contract = new_contract demo_gql_env 1 ''c'' demo_endpoint long_sdl long_schema ''op''"

definition long_policy :: gql_policy where "long_policy = (demo_policy ''query.user.email'')\<lparr>gl_contract := gc_id long_contract\<rparr>"

definition long_mode :: "gql_mode \<Rightarrow> gtime \<Rightarrow> string \<Rightarrow> gql_policy" where
  "long_mode m t reason = (demo_mode ''query.user.email'' m t reason)\<lparr>gl_contract := gc_id long_contract\<rparr>"

definition long_store :: "(string, gql_policy) gomap \<Rightarrow> gql_store" where
  "long_store ps = rebuild_runtime (new_gql_store\<lparr>gq_contracts := [(gc_id long_contract, long_contract)], gq_policies := ps\<rparr>)"

definition long_events :: "gql_event list" where
  "long_events = [Import_Contract 1 ''c'' demo_endpoint long_sdl ''op'', Edit_Policy 1 (Some long_contract) long_policy ''op'',
     Change_Mode 2 demo_id ''DETECT'' ''op'' [], Change_Mode 3 demo_id ''ENFORCE'' ''op'' ''reviewed'']"

lemma trim_c: "trim_space ''c'' = ''c''"
  by (rule trim_space_visible; simp add: visible_def less_eq_char_def)

lemma long_import: "gql_step demo_gql_env (Import_Contract 1 ''c'' demo_endpoint long_sdl ''op'') new_gql_store = long_store []"
  using long_sdl_short
  by (simp add: upsert_contract_def trim_c demo_endpoint_ok long_parsed Let_def long_contract_def [symmetric] long_store_def)
    (simp add: new_gql_store_def max_contracts_def)

lemma long_contract_trim: "trim_space (gc_id long_contract) = gc_id long_contract" "gc_id long_contract \<noteq> []"
    "gc_endpoint long_contract = demo_endpoint"
  using demo_hex_ids by (auto simp: long_contract_def new_contract_def contract_id_trim)
    (auto simp: contract_id_def demo_gql_env_def demo_hash_def)

lemma long_checked: "check_policy (Some long_contract) long_policy = Inr long_policy"
  by (simp add: check_policy_def long_policy_def demo_policy_def demo_endpoint_ok normalize_selectors_def max_policy_fields_def
      Let_def sort_strings_def sort_by_Cons absolute_max_depth_def absolute_max_complexity_def max_policy_reason_def
      contract_serves_def long_contract_trim demo_trims demo_fields_ok)

lemma long_edit: "gql_step demo_gql_env (Edit_Policy 1 (Some long_contract) long_policy ''op'') (long_store []) =
    long_store [(demo_id, long_mode Learn 1 [])]"
proof -
  have e: "edited_policy demo_id 1 ''op'' long_policy None = long_mode Learn 1 []"
    by (simp add: edited_policy_def long_policy_def long_mode_def demo_mode_def demo_policy_def long_contract_trim)
  have q: "gl_endpoint long_policy = demo_endpoint" "gl_name long_policy = []" "gl_contract long_policy = gc_id long_contract"
    by (simp_all add: long_policy_def demo_policy_def)
  show ?thesis
    by (simp add: upsert_gql_policy_def long_checked Let_def long_store_def q contract_serves_def long_contract_trim
        demo_id_def [symmetric] e rebuild_again max_gql_policies_def)
qed

lemma long_set_mode:
  assumes "parse_mode (to_upper (trim_space text')) = Some m" and "trim_space reason = reason" and "length reason \<le> 512"
    and "mode_transition m' m" and "m = Enforce \<longrightarrow> reason \<noteq> []"
  shows "gql_step demo_gql_env (Change_Mode t demo_id text' ''op'' reason) (long_store [(demo_id, long_mode m' t' reason')]) =
    long_store [(demo_id, long_mode m t reason)]"
  using assms by (auto simp: set_gql_mode_def long_store_def Let_def max_policy_reason_def rebuild_again long_mode_def
      demo_mode_def demo_policy_def)

lemma long_run: "run_machine (gql_step demo_gql_env) long_events new_gql_store = long_store [(demo_id, long_mode Enforce 3 ''reviewed'')]"
proof -
  have "gql_step demo_gql_env (Change_Mode 2 demo_id ''DETECT'' ''op'' []) (long_store [(demo_id, long_mode Learn 1 [])]) =
      long_store [(demo_id, long_mode Detect 2 [])]"
    by (rule long_set_mode) (simp_all add: demo_trims demo_parse_modes mode_transition_def)
  moreover have "gql_step demo_gql_env (Change_Mode 3 demo_id ''ENFORCE'' ''op'' ''reviewed'')
      (long_store [(demo_id, long_mode Detect 2 [])]) = long_store [(demo_id, long_mode Enforce 3 ''reviewed'')]"
    by (rule long_set_mode) (simp_all add: demo_trims demo_parse_modes mode_transition_def)
  ultimately show ?thesis by (simp only: long_events_def run_machine.simps long_import long_edit)
qed

theorem long_name_drops_policy_witness:
  "\<exists>s s'. s = run_machine (gql_step demo_gql_env) long_events new_gql_store \<and>
    gm_get (gq_policies s) demo_id = Some (long_mode Enforce 3 ''reviewed'') \<and>
    load_gql demo_gql_env 5 (fst (save_gql 4 s)) new_gql_store = Some s' \<and> gm_get (gq_policies s') demo_id = None"
proof -
  let ?s = "long_store [(demo_id, long_mode Enforce 3 ''reviewed'')]"
  have p: "gm_get (gq_policies ?s) demo_id = Some (long_mode Enforce 3 ''reviewed'')" by (simp add: long_store_def)
  have ref: "gl_contract (long_mode Enforce 3 ''reviewed'') = gc_id long_contract" by (simp add: long_mode_def)
  have c: "gm_get (gq_contracts ?s) (gl_contract (long_mode Enforce 3 ''reviewed'')) = Some long_contract"
    by (simp add: long_store_def ref)
  have t: "gm_get (gc_types long_contract) ''Query'' = Some [long_name]"
    by (simp add: long_contract_def new_contract_def long_schema_def)
  obtain s' where l: "load_gql demo_gql_env 5 (fst (save_gql 4 ?s)) new_gql_store = Some s'"
    by (simp add: load_gql_def save_gql_def Let_def)
  have "gm_get (gq_policies s') demo_id = None"
    using long_name_drops_policy [OF demo_hex_ids long_run [symmetric] p _ c t _ _ l, of long_name]
    by (simp add: ref long_contract_trim long_name_facts)
  with p l show ?thesis by (auto simp: long_run)
qed

end
