(* ===== verification/Schema_Candidate.thy ===== *)
theory Schema_Candidate
  imports Go_Map Float64 Sequence_State
begin

text \<open>
  The schemas learned for the operations of an API (\<^verbatim>\<open>schema_api2.go\<close>): the counts per
  field, the candidate built from them after every request, and the operator's review of it, which
  is tied to a version of the candidate. What a request shows (its samples) is an argument.

  Counts are int64 and wrap; ratios are float64, rounded at every operation.
\<close>

record schema_env =
  se_hash16 :: "string \<Rightarrow> string"
  se_time_text :: "gtime \<Rightarrow> string"

section \<open>Counts\<close>

definition i64 :: "int \<Rightarrow> int" where
  "i64 n = sint (word_of_int n :: 64 word)"

type_synonym counts = "(string, int) gomap"

definition count_of :: "counts \<Rightarrow> string \<Rightarrow> int" where
  "count_of m k = (case gm_get m k of None \<Rightarrow> 0 | Some n \<Rightarrow> n)"

definition count_up :: "string \<Rightarrow> counts \<Rightarrow> counts" where
  "count_up k m = gm_put k (i64 (count_of m k + 1)) m"

definition sum_counts :: "counts \<Rightarrow> int" where
  "sum_counts m = foldl (\<lambda>t n. i64 (t + n)) 0 (gm_values m)"

definition sorted_keys :: "('v, 'w) gomap \<Rightarrow> 'v::linorder list" where
  "sorted_keys m = sort_by (\<lambda>a b. a < b) (map fst m)"

definition count_ratio :: "int \<Rightarrow> int \<Rightarrow> float64" where
  "count_ratio a b = f64 (f64 (of_int a) / f64 (of_int b))"

definition dominant_fraction :: "counts \<Rightarrow> float64" where
  "dominant_fraction m =
     (let tot = sum_counts m; best = foldl max 0 (gm_values m) in if tot = 0 then 0 else count_ratio best tot)"

definition dominant_type :: "counts \<Rightarrow> string" where
  "dominant_type m = fst (foldl (\<lambda>(best, n) (t, c). if c > n \<or> (c = n \<and> t < best) then (t, c) else (best, n)) ([], 0) m)"

section \<open>Aggregates\<close>

record schema_sample =
  sm_path :: string
  sm_location :: string
  sm_type :: string
  sm_format :: string
  sm_enum :: string
  sm_sensitive :: bool
  sm_hash :: string

record field_aggregate =
  fg_path :: string
  fg_location :: string
  fg_seen :: int
  fg_types :: counts
  fg_formats :: counts
  fg_enums :: counts
  fg_hashes :: "string list"
  fg_sensitive :: bool

record schema_aggregate =
  ag_operation :: string
  ag_requests :: int
  ag_fields :: "(string, field_aggregate) gomap"
  ag_updated_at :: gtime

definition candidate_min_samples :: int where "candidate_min_samples = 20"
definition max_enum_values :: nat where "max_enum_values = 16"
definition max_distinct_hashes :: nat where "max_distinct_hashes = 256"
definition max_schema_sample_fields :: nat where "max_schema_sample_fields = 256"

definition sample_key :: "string \<Rightarrow> string \<Rightarrow> string" where
  "sample_key loc path = loc @ ''|'' @ path"

definition new_aggregate_field :: "schema_sample \<Rightarrow> field_aggregate" where
  "new_aggregate_field s = \<lparr>fg_path = sm_path s, fg_location = sm_location s, fg_seen = 0, fg_types = [], fg_formats = [],
     fg_enums = [], fg_hashes = [], fg_sensitive = False\<rparr>"

text \<open>\<open>first\<close>: the request has not shown this field before.\<close>

definition count_sample :: "bool \<Rightarrow> schema_sample \<Rightarrow> field_aggregate \<Rightarrow> field_aggregate" where
  "count_sample first s f =
     (let sens = fg_sensitive f \<or> sm_sensitive s in
      f\<lparr>fg_sensitive := sens,
        fg_seen := (if first then i64 (fg_seen f + 1) else fg_seen f),
        fg_types := (if sm_type s \<noteq> [] then count_up (sm_type s) (fg_types f) else fg_types f),
        fg_formats := (if sm_format s \<noteq> [] then count_up (sm_format s) (fg_formats f) else fg_formats f),
        fg_enums := (if \<not> sens \<and> sm_enum s \<noteq> [] \<and> (gm_has (fg_enums f) (sm_enum s) \<or> length (fg_enums f) < max_enum_values)
          then count_up (sm_enum s) (fg_enums f) else fg_enums f),
        fg_hashes := (if \<not> sens \<and> sm_hash s \<noteq> [] \<and> length (fg_hashes f) < max_distinct_hashes
          then List.insert (sm_hash s) (fg_hashes f) else fg_hashes f)\<rparr>)"

definition add_sample :: "schema_sample \<Rightarrow> (string, field_aggregate) gomap \<times> string list \<Rightarrow>
    (string, field_aggregate) gomap \<times> string list" where
  "add_sample s acc =
     (let (m, seen) = acc; key = sample_key (sm_location s) (sm_path s) in
      if sm_path s = [] \<or> sm_location s = [] then acc
      else (case gm_get m key of
          None \<Rightarrow>
            if length m \<ge> max_schema_sample_fields then acc
            else (gm_put key (count_sample (key \<notin> set seen) s (new_aggregate_field s)) m, List.insert key seen)
        | Some f \<Rightarrow> (gm_put key (count_sample (key \<notin> set seen) s f) m, List.insert key seen)))"

definition add_request :: "gtime \<Rightarrow> schema_sample list \<Rightarrow> schema_aggregate \<Rightarrow> schema_aggregate" where
  "add_request now samples a = a\<lparr>ag_requests := i64 (ag_requests a + 1), ag_updated_at := now,
     ag_fields := fst (fold add_sample samples (ag_fields a, []))\<rparr>"

section \<open>Candidates\<close>

record type_evidence =
  te_type :: string
  te_count :: int
  te_confidence :: float64

record candidate_field =
  cf_path :: string
  cf_location :: string
  cf_type_counts :: counts
  cf_types :: "type_evidence list"
  cf_formats :: "string list"
  cf_samples :: int
  cf_presence :: float64
  cf_cardinality :: nat
  cf_required :: bool
  cf_enum :: "string list"
  cf_sensitive :: bool

record schema_review =
  rv_recommendation :: string
  rv_confidence :: int
  rv_reason :: string
  rv_reviewed_at :: gtime
  rv_source :: string
  rv_version :: int

record schema_candidate =
  sc_id :: string
  sc_operation :: string
  sc_status :: string
  sc_confidence :: float64
  sc_samples :: int
  sc_fields :: "candidate_field list"
  sc_review :: "schema_review option"
  sc_created_at :: gtime
  sc_updated_at :: gtime
  sc_version :: int

definition candidate_field_of :: "int \<Rightarrow> field_aggregate \<Rightarrow> candidate_field" where
  "candidate_field_of requests f =
     (let presence = (if requests > 0 then count_ratio (fg_seen f) requests else 0); tot = sum_counts (fg_types f) in
      \<lparr>cf_path = fg_path f, cf_location = fg_location f, cf_type_counts = fg_types f,
        cf_types = map (\<lambda>t. \<lparr>te_type = t, te_count = count_of (fg_types f) t,
          te_confidence = (if tot > 0 then count_ratio (count_of (fg_types f) t) tot else 0)\<rparr>) (sorted_keys (fg_types f)),
        cf_formats = sorted_keys (fg_formats f), cf_samples = tot, cf_presence = presence,
        cf_cardinality = length (fg_hashes f),
        cf_required = (requests \<ge> candidate_min_samples \<and> presence \<ge> f64 (995 / 1000)),
        cf_enum = (if \<not> fg_sensitive f \<and> fg_enums f \<noteq> [] \<and> length (fg_enums f) \<le> max_enum_values \<and>
          sum_counts (fg_enums f) \<ge> candidate_min_samples then sorted_keys (fg_enums f) else []),
        cf_sensitive = fg_sensitive f\<rparr>)"

definition field_weight :: "field_aggregate \<Rightarrow> float64" where
  "field_weight f =
     (let factor = count_ratio (fg_seen f) candidate_min_samples
      in f64 (dominant_fraction (fg_types f) * (if factor > 1 then 1 else factor)))"

definition sorted_fields :: "schema_aggregate \<Rightarrow> field_aggregate list" where
  "sorted_fields a = map (\<lambda>k. the (gm_get (ag_fields a) k)) (sorted_keys (ag_fields a))"

definition same_field :: "candidate_field \<Rightarrow> candidate_field \<Rightarrow> bool" where
  "same_field a b \<longleftrightarrow>
     cf_path a = cf_path b \<and> cf_location a = cf_location b \<and> cf_sensitive a = cf_sensitive b \<and> cf_required a = cf_required b \<and>
     sorted_keys (cf_type_counts a) = sorted_keys (cf_type_counts b) \<and>
     dominant_type (cf_type_counts a) = dominant_type (cf_type_counts b) \<and>
     cf_formats a = cf_formats b \<and> cf_enum a = cf_enum b"

definition same_candidate :: "schema_candidate \<Rightarrow> schema_candidate \<Rightarrow> bool" where
  "same_candidate a b \<longleftrightarrow> list_all2 same_field (sc_fields a) (sc_fields b)"

definition schema_candidate_id :: "schema_env \<Rightarrow> string \<Rightarrow> string" where
  "schema_candidate_id env op = se_hash16 env (''schema|'' @ op)"

definition at_least_one :: "int \<Rightarrow> int" where "at_least_one n = (if n < 1 then 1 else n)"

definition base_candidate :: "schema_env \<Rightarrow> gtime \<Rightarrow> schema_aggregate \<Rightarrow> schema_candidate option \<Rightarrow> schema_candidate" where
  "base_candidate env now a old =
     (let fs = sorted_fields a;
          created = (case old of None \<Rightarrow> 0 | Some c \<Rightarrow> sc_created_at c);
          tot = foldl (\<lambda>t f. f64 (t + field_weight f)) 0 fs
      in \<lparr>sc_id = schema_candidate_id env (ag_operation a), sc_operation = ag_operation a, sc_status = ''LEARNING'',
        sc_confidence = (if fs = [] then 0 else f64 (tot / of_nat (length fs))), sc_samples = ag_requests a,
        sc_fields = map (candidate_field_of (ag_requests a)) fs,
        sc_review = (case old of None \<Rightarrow> None | Some c \<Rightarrow> sc_review c),
        sc_created_at = (if time_is_zero created then now else created), sc_updated_at = now,
        sc_version = (case old of None \<Rightarrow> 1 | Some c \<Rightarrow> at_least_one (sc_version c))\<rparr>)"

definition build_candidate :: "schema_env \<Rightarrow> gtime \<Rightarrow> schema_aggregate \<Rightarrow> schema_candidate option \<Rightarrow> schema_candidate" where
  "build_candidate env now a old =
     (let c = base_candidate env now a old; eligible = ag_requests a \<ge> candidate_min_samples in
      case old of
        None \<Rightarrow> if eligible then c\<lparr>sc_status := ''CANDIDATE''\<rparr> else c
      | Some o' \<Rightarrow>
          if \<not> same_candidate o' c \<or> (sc_status o' = ''LEARNING'' \<and> eligible)
          then c\<lparr>sc_version := at_least_one (i64 (sc_version o' + 1)),
              sc_status := (if eligible then ''CANDIDATE'' else ''LEARNING'')\<rparr>
          else c\<lparr>sc_status := sc_status o'\<rparr>)"

section \<open>The store\<close>

record schema_store =
  sh_candidates :: "(string, schema_candidate) gomap"
  sh_aggregates :: "(string, schema_aggregate) gomap"

definition new_schema_store :: schema_store where
  "new_schema_store = \<lparr>sh_candidates = [], sh_aggregates = []\<rparr>"

text \<open>An operation stands here with its id and whether it is ignored.\<close>

definition note_schema :: "schema_env \<Rightarrow> gtime \<Rightarrow> string \<Rightarrow> bool \<Rightarrow> schema_sample list \<Rightarrow> schema_store \<Rightarrow> schema_store" where
  "note_schema env now op ignored samples s =
     (if op = [] \<or> ignored then s
      else
        let a = (case gm_get (sh_aggregates s) op of
                   None \<Rightarrow> \<lparr>ag_operation = op, ag_requests = 0, ag_fields = [], ag_updated_at = 0\<rparr>
                 | Some a \<Rightarrow> a);
            a = add_request now samples a;
            cid = schema_candidate_id env op
        in s\<lparr>sh_aggregates := gm_put op a (sh_aggregates s),
             sh_candidates := gm_put cid (build_candidate env now a (gm_get (sh_candidates s) cid)) (sh_candidates s)\<rparr>)"

definition set_review :: "gtime \<Rightarrow> string \<Rightarrow> string \<Rightarrow> schema_review \<Rightarrow> schema_store \<Rightarrow> schema_candidate option \<times> schema_store" where
  "set_review now cid status review s =
     (case gm_get (sh_candidates s) cid of
        None \<Rightarrow> (None, s)
      | Some c \<Rightarrow>
          let c = c\<lparr>sc_status := (if status \<noteq> [] then status else sc_status c),
                sc_review := Some (review\<lparr>rv_version := sc_version c\<rparr>), sc_updated_at := now\<rparr>
          in (Some c, s\<lparr>sh_candidates := gm_put cid c (sh_candidates s)\<rparr>))"

definition list_candidates :: "string \<Rightarrow> schema_store \<Rightarrow> schema_candidate list" where
  "list_candidates flt s =
     sort_by (\<lambda>a b. if sc_confidence a \<noteq> sc_confidence b then sc_confidence b < sc_confidence a else sc_id a < sc_id b)
       (filter (\<lambda>c. flt = [] \<or> contains_str (sc_operation c) flt \<or> contains_str (sc_id c) flt) (gm_values (sh_candidates s)))"

definition find_by_operation :: "string \<Rightarrow> schema_store \<Rightarrow> schema_candidate option" where
  "find_by_operation op s = find (\<lambda>c. sc_operation c = op) (gm_values (sh_candidates s))"

section \<open>The state file\<close>

record aggregate_file =
  af_operation :: string
  af_requests :: int
  af_fields :: "field_aggregate list"
  af_updated_at :: gtime

definition aggregate_snapshot :: "schema_aggregate \<Rightarrow> aggregate_file" where
  "aggregate_snapshot a = \<lparr>af_operation = ag_operation a, af_requests = ag_requests a,
     af_fields = sort_by (\<lambda>x y. if fg_location x \<noteq> fg_location y then fg_location x < fg_location y else fg_path x < fg_path y)
       (gm_values (ag_fields a)),
     af_updated_at = ag_updated_at a\<rparr>"

definition schema_snapshot :: "schema_store \<Rightarrow> schema_candidate list \<times> aggregate_file list" where
  "schema_snapshot s = (gm_values (sh_candidates s), map aggregate_snapshot (gm_values (sh_aggregates s)))"

definition restore_aggregate :: "aggregate_file \<Rightarrow> schema_aggregate" where
  "restore_aggregate f = \<lparr>ag_operation = af_operation f, ag_requests = af_requests f,
     ag_fields = fold (\<lambda>x. gm_put (sample_key (fg_location x) (fg_path x)) x) (af_fields f) [], ag_updated_at = af_updated_at f\<rparr>"

definition restore_schema :: "schema_candidate list \<times> aggregate_file list \<Rightarrow> schema_store \<Rightarrow> schema_store" where
  "restore_schema f s = s\<lparr>
     sh_candidates := fold (\<lambda>c m. if sc_id c = [] then m else gm_put (sc_id c) c m) (fst f) (sh_candidates s),
     sh_aggregates := fold (\<lambda>x m. if af_operation x = [] then m else gm_put (af_operation x) (restore_aggregate x) m)
       (snd f) (sh_aggregates s)\<rparr>"

end
