(* ===== verification/Positive_Schema.thy ===== *)
theory Positive_Schema
  imports Schema_Candidate Graphql_Store
begin

text \<open>
  The store of \<^verbatim>\<open>positive_schema_api4.go\<close>: versions of a schema profile promoted
  from candidates an operator approved, the deployment of one of them per operation with its mode
  and its stack of earlier states, exceptions, violations, and the snapshot for the request path.

  A mode of a state file that is none of the program's has no representation. The unknown-field
  policies are kept as the strings the code compares.
\<close>

section \<open>Types\<close>

record positive_field =
  pf_path :: string
  pf_location :: string
  pf_types :: "string list"
  pf_formats :: "string list"
  pf_enum :: "string list"
  pf_required :: bool
  pf_sensitive :: bool

record positive_profile =
  pv_id :: string
  pv_operation :: string
  pv_candidate :: string
  pv_candidate_version :: int
  pv_version :: nat
  pv_fields :: "positive_field list"
  pv_unknown :: string
  pv_enforce_formats :: bool
  pv_enforce_enums :: bool
  pv_enforce_content :: bool
  pv_content_types :: "string list"
  pv_created_at :: gtime
  pv_created_by :: string
  pv_note :: string

record positive_revision =
  rv_profile :: string
  rv_mode :: gql_mode
  rv_status :: int
  rv_changed_at :: gtime
  rv_changed_by :: string
  rv_why :: string

record positive_deployment =
  pd_operation :: string
  pd_profile :: string
  pd_mode :: gql_mode
  pd_status :: int
  pd_updated_at :: gtime
  pd_updated_by :: string
  pd_history :: "positive_revision list"

record positive_exception =
  px_id :: string
  px_operation :: string
  px_profile :: string
  px_type :: string
  px_field :: string
  px_reason :: string
  px_enabled :: bool
  px_expires_at :: "gtime option"
  px_created_at :: gtime
  px_created_by :: string

record positive_violation =
  pn_id :: string
  pn_time :: gtime
  pn_operation :: string
  pn_profile :: string
  pn_mode :: gql_mode
  pn_action :: string
  pn_type :: string
  pn_location :: string
  pn_path :: string
  pn_expected :: string
  pn_observed :: string
  pn_method :: string
  pn_request_path :: string
  pn_content_type :: string
  pn_exempted :: bool
  pn_exception :: string

record positive_runtime =
  pr_profile :: positive_profile
  pr_deployment :: positive_deployment
  pr_exceptions :: "positive_exception list"
  pr_index :: "(string, positive_field) gomap"

record positive_store =
  ps_profiles :: "(string, positive_profile) gomap"
  ps_versions :: "(string, string list) gomap"
  ps_deployments :: "(string, positive_deployment) gomap"
  ps_exceptions :: "(string, positive_exception) gomap"
  ps_violations :: "positive_violation list"
  ps_sequence :: u64
  ps_runtime :: "(string, positive_runtime) gomap"

definition max_positive_violations :: nat where "max_positive_violations = 2048"
definition max_positive_history :: nat where "max_positive_history = 32"
definition max_positive_exceptions :: nat where "max_positive_exceptions = 2048"

definition new_positive_store :: positive_store where
  "new_positive_store = \<lparr>ps_profiles = [], ps_versions = [], ps_deployments = [], ps_exceptions = [], ps_violations = [],
     ps_sequence = 0, ps_runtime = []\<rparr>"

definition profile_id :: "schema_env \<Rightarrow> string \<Rightarrow> nat \<Rightarrow> string" where
  "profile_id env op version = se_hash16 env (join_with ''|'' [''positive-schema'', op, decimal_of version])"

definition positive_exception_id :: "schema_env \<Rightarrow> string \<Rightarrow> string \<Rightarrow> string \<Rightarrow> string \<Rightarrow> gtime \<Rightarrow> string" where
  "positive_exception_id env op profile ty field now =
     se_hash16 env (join_with ''|'' [''exception'', op, profile, ty, field, se_time_text env now])"

definition normalize_unknown :: "string \<Rightarrow> string option" where
  "normalize_unknown raw =
     (let v = to_lower (trim_space raw) in
      if v = [] then Some ''allow'' else if v = ''allow'' \<or> v = ''deny'' then Some v else None)"

definition normalize_status :: "int \<Rightarrow> int option" where
  "normalize_status code = (if code = 0 then Some 400 else if code = 400 \<or> code = 403 \<or> code = 422 then Some code else None)"

section \<open>The snapshot\<close>

definition field_index :: "positive_field list \<Rightarrow> (string, positive_field) gomap" where
  "field_index fs = fold (\<lambda>f. gm_put (sample_key (pf_location f) (pf_path f)) f) fs []"

definition runtime_of :: "positive_store \<Rightarrow> string \<Rightarrow> positive_deployment \<Rightarrow> positive_runtime option" where
  "runtime_of s op d =
     (case gm_get (ps_profiles s) (pd_profile d) of
        None \<Rightarrow> None
      | Some p \<Rightarrow> Some \<lparr>pr_profile = p, pr_deployment = d,
          pr_exceptions = sort_by (\<lambda>a b. px_id a < px_id b)
            (filter (\<lambda>x. px_operation x = op \<and> px_enabled x) (gm_values (ps_exceptions s))),
          pr_index = field_index (pv_fields p)\<rparr>)"

definition rebuild_positive :: "positive_store \<Rightarrow> positive_store" where
  "rebuild_positive s = s\<lparr>ps_runtime := concat (map (\<lambda>(op, d).
     case runtime_of s op d of None \<Rightarrow> [] | Some r \<Rightarrow> [(op, r)]) (ps_deployments s))\<rparr>"

section \<open>Promotion\<close>

text \<open>\<^verbatim>\<open>uniqueStrings\<close> drops blanks and repeats of the last one kept.\<close>

definition unique_strings :: "string list \<Rightarrow> string list" where
  "unique_strings xs = rev (foldl (\<lambda>out v. let v = trim_space v in
     if v = [] \<or> (out \<noteq> [] \<and> v = hd out) then out else v # out) [] xs)"

definition positive_field_of :: "candidate_field \<Rightarrow> positive_field" where
  "positive_field_of f =
     (let types = sorted_keys (cf_type_counts f);
          types = (if types = [] then unique_strings (sort_strings (filter (\<lambda>t. trim_space t \<noteq> []) (map te_type (cf_types f))))
            else types)
      in \<lparr>pf_path = cf_path f, pf_location = cf_location f, pf_types = types,
           pf_formats = unique_strings (sort_strings (cf_formats f)), pf_enum = unique_strings (sort_strings (cf_enum f)),
           pf_required = cf_required f, pf_sensitive = cf_sensitive f\<rparr>)"

definition positive_fields :: "schema_candidate \<Rightarrow> positive_field list" where
  "positive_fields c = sort_by (\<lambda>a b. if pf_location a \<noteq> pf_location b then pf_location a < pf_location b
     else pf_path a < pf_path b) (map positive_field_of (sc_fields c))"

record promote_options =
  po_unknown :: string
  po_formats :: bool
  po_enums :: bool
  po_content :: bool
  po_created_by :: string
  po_note :: string
  po_activate :: bool
  po_status :: int

record api_operation_view =
  av_id :: string
  av_ignored :: bool
  av_content_types :: counts

datatype positive_error =
    Invalid_Candidate | Not_Approved | No_Operation_Match | No_Fields | No_Content_Types | Bad_Unknown_Fields
  | Bad_Positive_Status | Profile_Exists | Bad_Positive_Mode | No_Deployment | Bad_Positive_Transition gql_mode gql_mode
  | Needs_Detect | Profile_Not_Found | No_History | Rollback_Profile_Gone | Missing_Reason | Long_Exception_Reason
  | Bad_Field_Selector | Bad_Violation_Type | Already_Expired | Exceptions_Full | Exception_Missing

definition approved :: "schema_candidate \<Rightarrow> bool" where
  "approved c \<longleftrightarrow> sc_status c = ''REVIEWED'' \<and>
     (case sc_review c of None \<Rightarrow> False
      | Some r \<Rightarrow> rv_source r = ''operator'' \<and> rv_recommendation r = ''approved'' \<and> rv_version r = sc_version c)"

definition push_history :: "string \<Rightarrow> string \<Rightarrow> positive_deployment \<Rightarrow> positive_deployment" where
  "push_history who reason d =
     (if pd_profile d = [] then d
      else d\<lparr>pd_history := last_n max_positive_history (pd_history d @
        [\<lparr>rv_profile = pd_profile d, rv_mode = pd_mode d, rv_status = pd_status d, rv_changed_at = pd_updated_at d,
          rv_changed_by = trim_space who, rv_why = trim_space reason\<rparr>])\<rparr>)"

definition zero_deployment :: positive_deployment where
  "zero_deployment = \<lparr>pd_operation = [], pd_profile = [], pd_mode = Learn, pd_status = 0, pd_updated_at = 0,
     pd_updated_by = [], pd_history = []\<rparr>"

definition deployment_of :: "positive_store \<Rightarrow> string \<Rightarrow> positive_deployment" where
  "deployment_of s op = (case gm_get (ps_deployments s) op of None \<Rightarrow> zero_deployment | Some d \<Rightarrow> d)"

definition versions_of :: "positive_store \<Rightarrow> string \<Rightarrow> string list" where
  "versions_of s op = (case gm_get (ps_versions s) op of None \<Rightarrow> [] | Some vs \<Rightarrow> vs)"

definition check_promotion :: "schema_candidate \<Rightarrow> api_operation_view \<Rightarrow> promote_options \<Rightarrow> positive_error + (string \<times> int)" where
  "check_promotion c op opts =
     (if sc_id c = [] \<or> sc_operation c = [] then Inl Invalid_Candidate
      else if \<not> approved c then Inl Not_Approved
      else if av_id op = [] \<or> av_id op \<noteq> sc_operation c \<or> av_ignored op then Inl No_Operation_Match
      else if sc_fields c = [] then Inl No_Fields
      else if po_content opts \<and> av_content_types op = [] then Inl No_Content_Types
      else (case normalize_unknown (po_unknown opts) of
          None \<Rightarrow> Inl Bad_Unknown_Fields
        | Some unknown \<Rightarrow>
            (case normalize_status (po_status opts) of None \<Rightarrow> Inl Bad_Positive_Status | Some st \<Rightarrow> Inr (unknown, st))))"

definition new_profile :: "schema_env \<Rightarrow> gtime \<Rightarrow> schema_candidate \<Rightarrow> api_operation_view \<Rightarrow> promote_options \<Rightarrow> string \<Rightarrow>
    nat \<Rightarrow> positive_profile" where
  "new_profile env now c op opts unknown version = \<lparr>pv_id = profile_id env (sc_operation c) version,
     pv_operation = sc_operation c, pv_candidate = sc_id c, pv_candidate_version = sc_version c, pv_version = version,
     pv_fields = positive_fields c, pv_unknown = unknown, pv_enforce_formats = po_formats opts,
     pv_enforce_enums = po_enums opts, pv_enforce_content = po_content opts,
     pv_content_types = (if po_content opts then sorted_keys (av_content_types op) else []), pv_created_at = now,
     pv_created_by = trim_space (po_created_by opts), pv_note = trim_space (po_note opts)\<rparr>"

definition activated :: "gtime \<Rightarrow> string \<Rightarrow> string \<Rightarrow> string \<Rightarrow> int \<Rightarrow> positive_deployment \<Rightarrow> positive_deployment" where
  "activated now op profile who st d = d\<lparr>pd_operation := op, pd_profile := profile, pd_mode := Learn, pd_status := st,
     pd_updated_at := now, pd_updated_by := trim_space who\<rparr>"

definition promote :: "schema_env \<Rightarrow> gtime \<Rightarrow> schema_candidate \<Rightarrow> api_operation_view \<Rightarrow> promote_options \<Rightarrow> positive_store \<Rightarrow>
    (positive_error + positive_profile \<times> positive_deployment) \<times> positive_store" where
  "promote env now c op opts s =
     (case check_promotion c op opts of
        Inl e \<Rightarrow> (Inl e, s)
      | Inr (unknown, st) \<Rightarrow>
          let p = new_profile env now c op opts unknown (length (versions_of s (sc_operation c)) + 1) in
          if gm_has (ps_profiles s) (pv_id p) then (Inl Profile_Exists, s)
          else
            let s = s\<lparr>ps_profiles := gm_put (pv_id p) p (ps_profiles s),
                  ps_versions := gm_put (sc_operation c) (versions_of s (sc_operation c) @ [pv_id p]) (ps_versions s)\<rparr>;
                d = deployment_of s (sc_operation c);
                go = (pd_operation d = [] \<or> po_activate opts);
                d = (if \<not> go then d
                  else activated now (sc_operation c) (pv_id p) (po_created_by opts) st
                    (if pd_operation d \<noteq> [] then push_history (po_created_by opts) ''activate new profile version'' d else d));
                s = (if go then s\<lparr>ps_deployments := gm_put (sc_operation c) d (ps_deployments s)\<rparr> else s)
            in (Inr (p, d), rebuild_positive s))"

section \<open>Modes, activation, rollback\<close>

definition set_positive_mode :: "gtime \<Rightarrow> string \<Rightarrow> string \<Rightarrow> string \<Rightarrow> string \<Rightarrow> int \<Rightarrow> positive_store \<Rightarrow>
    (positive_error + positive_deployment) \<times> positive_store" where
  "set_positive_mode now op mode who reason code s =
     (case parse_mode (to_upper (trim_space mode)) of
        None \<Rightarrow> (Inl Bad_Positive_Mode, s)
      | Some m \<Rightarrow>
          (case normalize_status code of
             None \<Rightarrow> (Inl Bad_Positive_Status, s)
           | Some st \<Rightarrow>
               (case gm_get (ps_deployments s) op of
                  None \<Rightarrow> (Inl No_Deployment, s)
                | Some d \<Rightarrow>
                    if pd_profile d = [] then (Inl No_Deployment, s)
                    else if \<not> mode_transition (pd_mode d) m then (Inl (Bad_Positive_Transition (pd_mode d) m), s)
                    else if m = Enforce \<and> pd_mode d \<noteq> Detect then (Inl Needs_Detect, s)
                    else
                      let d = (if pd_mode d \<noteq> m \<or> pd_status d \<noteq> st then push_history who reason d else d);
                          d = d\<lparr>pd_mode := m, pd_status := st, pd_updated_at := now, pd_updated_by := trim_space who\<rparr>
                      in (Inr d, rebuild_positive (s\<lparr>ps_deployments := gm_put op d (ps_deployments s)\<rparr>)))))"

definition activate :: "gtime \<Rightarrow> string \<Rightarrow> string \<Rightarrow> string \<Rightarrow> string \<Rightarrow> positive_store \<Rightarrow>
    (positive_error + positive_deployment) \<times> positive_store" where
  "activate now op profile who reason s =
     (case gm_get (ps_profiles s) profile of
        None \<Rightarrow> (Inl Profile_Not_Found, s)
      | Some p \<Rightarrow>
          if pv_operation p \<noteq> op then (Inl Profile_Not_Found, s)
          else
            let d = deployment_of s op;
                d = (if pd_operation d \<noteq> [] then push_history who reason d else d);
                d = activated now op profile who (if pd_status d = 0 then 400 else pd_status d) d
            in (Inr d, rebuild_positive (s\<lparr>ps_deployments := gm_put op d (ps_deployments s)\<rparr>)))"

text \<open>With a reason the restored state is pushed and dropped again, which leaves the stack as it was
  unless it was longer than its limit.\<close>

definition restored :: "gtime \<Rightarrow> string \<Rightarrow> string \<Rightarrow> positive_revision \<Rightarrow> positive_deployment \<Rightarrow> positive_deployment" where
  "restored now who reason prev d =
     (let d = d\<lparr>pd_profile := rv_profile prev, pd_mode := rv_mode prev, pd_status := rv_status prev,
            pd_updated_at := now, pd_updated_by := trim_space who\<rparr> in
      if trim_space reason = [] then d
      else
        let d = push_history who (''rollback: '' @ trim_space reason) d
        in if pd_history d \<noteq> [] then d\<lparr>pd_history := butlast (pd_history d)\<rparr> else d)"

definition rollback :: "gtime \<Rightarrow> string \<Rightarrow> string \<Rightarrow> string \<Rightarrow> positive_store \<Rightarrow>
    (positive_error + positive_deployment) \<times> positive_store" where
  "rollback now op who reason s =
     (case gm_get (ps_deployments s) op of
        None \<Rightarrow> (Inl No_History, s)
      | Some d \<Rightarrow>
          if pd_history d = [] then (Inl No_History, s)
          else
            let prev = last (pd_history d) in
            if \<not> gm_has (ps_profiles s) (rv_profile prev) then (Inl Rollback_Profile_Gone, s)
            else
              let d = restored now who reason prev (d\<lparr>pd_history := butlast (pd_history d)\<rparr>)
              in (Inr d, rebuild_positive (s\<lparr>ps_deployments := gm_put op d (ps_deployments s)\<rparr>)))"

section \<open>Exceptions\<close>

definition violation_types :: "string list" where
  "violation_types = [''BODY_TOO_LARGE_FOR_SCHEMA_VALIDATION'', ''MALFORMED_BODY'', ''CONTENT_TYPE_MISMATCH'',
     ''UNKNOWN_FIELD'', ''TYPE_MISMATCH'', ''FORMAT_MISMATCH'', ''ENUM_MISMATCH'', ''REQUIRED_FIELD_MISSING'']"

definition trimmed_exception :: "positive_exception \<Rightarrow> positive_exception" where
  "trimmed_exception x = x\<lparr>px_operation := trim_space (px_operation x), px_profile := trim_space (px_profile x),
     px_type := to_upper (trim_space (px_type x)), px_field := trim_space (px_field x), px_reason := trim_space (px_reason x)\<rparr>"

definition check_exception :: "gtime \<Rightarrow> positive_exception \<Rightarrow> positive_error option" where
  "check_exception now x =
     (if px_operation x = [] \<or> px_reason x = [] then Some Missing_Reason
      else if length (px_reason x) > 512 then Some Long_Exception_Reason
      else if length (px_field x) > 512 \<or> list_ex (\<lambda>c. c \<in> {byte 13, byte 10, byte 0}) (px_field x) then Some Bad_Field_Selector
      else if px_type x \<noteq> [] \<and> px_type x \<notin> set violation_types then Some Bad_Violation_Type
      else (case px_expires_at x of
          None \<Rightarrow> None
        | Some t \<Rightarrow> if now < t then None else Some Already_Expired))"

text \<open>\<open>now\<close> and \<open>now2\<close> are the two readings of the clock.\<close>

definition add_exception :: "schema_env \<Rightarrow> gtime \<Rightarrow> gtime \<Rightarrow> positive_exception \<Rightarrow> positive_store \<Rightarrow>
    (positive_error + positive_exception) \<times> positive_store" where
  "add_exception env now now2 req s =
     (let x = trimmed_exception req in
      case check_exception now x of
        Some e \<Rightarrow> (Inl e, s)
      | None \<Rightarrow>
          if length (ps_exceptions s) \<ge> max_positive_exceptions then (Inl Exceptions_Full, s)
          else if \<not> gm_has (ps_deployments s) (px_operation x) then (Inl No_Deployment, s)
          else if px_profile x \<noteq> [] \<and> \<not> (\<exists>p \<in> set_option (gm_get (ps_profiles s) (px_profile x)). pv_operation p = px_operation x)
          then (Inl Profile_Not_Found, s)
          else
            let x = x\<lparr>px_id := positive_exception_id env (px_operation x) (px_profile x) (px_type x) (px_field x) now2,
                  px_enabled := True, px_created_at := now2\<rparr>
            in (Inr x, rebuild_positive (s\<lparr>ps_exceptions := gm_put (px_id x) x (ps_exceptions s)\<rparr>)))"

definition set_exception_enabled :: "string \<Rightarrow> bool \<Rightarrow> positive_store \<Rightarrow>
    (positive_error + positive_exception) \<times> positive_store" where
  "set_exception_enabled xid enabled s =
     (case gm_get (ps_exceptions s) xid of
        None \<Rightarrow> (Inl Exception_Missing, s)
      | Some x \<Rightarrow>
          let x = x\<lparr>px_enabled := enabled\<rparr>
          in (Inr x, rebuild_positive (s\<lparr>ps_exceptions := gm_put xid x (ps_exceptions s)\<rparr>)))"

section \<open>Violations and views\<close>

definition positive_violation_id :: "schema_env \<Rightarrow> u64 \<Rightarrow> positive_violation \<Rightarrow> string" where
  "positive_violation_id env n v = se_hash16 env (join_with ''|'' [''violation'', pn_operation v, decimal_of (unat n), pn_type v,
     pn_location v, pn_path v])"

definition record_one :: "schema_env \<Rightarrow> gtime \<Rightarrow> positive_violation \<Rightarrow> positive_store \<Rightarrow> positive_store" where
  "record_one env now v s =
     (let n = ps_sequence s + 1;
          v = (if time_is_zero (pn_time v) then v\<lparr>pn_time := now\<rparr> else v);
          v = (if pn_id v = [] then v\<lparr>pn_id := positive_violation_id env n v\<rparr> else v)
      in s\<lparr>ps_sequence := n, ps_violations := ps_violations s @ [v]\<rparr>)"

definition record_positive :: "schema_env \<Rightarrow> gtime \<Rightarrow> positive_violation list \<Rightarrow> positive_store \<Rightarrow> positive_store" where
  "record_positive env now vs s =
     (if vs = [] then s
      else let s = fold (record_one env now) vs s
        in s\<lparr>ps_violations := last_n max_positive_violations (ps_violations s)\<rparr>)"

definition list_violations :: "string \<Rightarrow> int \<Rightarrow> positive_store \<Rightarrow> positive_violation list" where
  "list_violations op limit s =
     (let n = (if limit \<le> 0 \<or> limit > 500 then 100 else nat limit) in
      take n (filter (\<lambda>v. op = [] \<or> pn_operation v = op) (rev (ps_violations s))))"

definition list_deployments :: "positive_store \<Rightarrow> positive_deployment list" where
  "list_deployments s = sort_by (\<lambda>a b. pd_operation a < pd_operation b) (gm_values (ps_deployments s))"

definition positive_detail :: "string \<Rightarrow> positive_store \<Rightarrow>
    (positive_deployment \<times> positive_profile list \<times> positive_exception list) option" where
  "positive_detail op s =
     (case gm_get (ps_deployments s) op of
        None \<Rightarrow> None
      | Some d \<Rightarrow> Some (d, List.map_filter (gm_get (ps_profiles s)) (versions_of s op),
          sort_by (\<lambda>a b. px_id a < px_id b) (filter (\<lambda>x. px_operation x = op) (gm_values (ps_exceptions s)))))"

section \<open>The state file\<close>

record positive_file =
  pw_version :: int
  pw_profiles :: "(string, positive_profile) gomap option"
  pw_versions :: "(string, string list) gomap option"
  pw_deployments :: "(string, positive_deployment) gomap option"
  pw_exceptions :: "(string, positive_exception) gomap option"
  pw_violations :: "positive_violation list"

definition save_positive :: "positive_store \<Rightarrow> positive_file" where
  "save_positive s = \<lparr>pw_version = 1, pw_profiles = Some (ps_profiles s), pw_versions = Some (ps_versions s),
     pw_deployments = Some (ps_deployments s), pw_exceptions = Some (ps_exceptions s), pw_violations = ps_violations s\<rparr>"

definition file_size :: "('k, 'v) gomap option \<Rightarrow> nat" where
  "file_size m = (case m of None \<Rightarrow> 0 | Some m \<Rightarrow> length m)"

definition file_or :: "'a option \<Rightarrow> 'a \<Rightarrow> 'a" where
  "file_or m old = (case m of None \<Rightarrow> old | Some x \<Rightarrow> x)"

definition load_positive :: "positive_file \<Rightarrow> positive_store \<Rightarrow> positive_store option" where
  "load_positive f s =
     (if pw_version f \<notin> {0, 1} then None
      else if file_size (pw_profiles f) = 0 \<and> file_size (pw_deployments f) = 0 \<and> file_size (pw_exceptions f) = 0 \<and>
        pw_violations f = [] then Some s
      else Some (rebuild_positive (s\<lparr>ps_profiles := file_or (pw_profiles f) (ps_profiles s),
        ps_versions := file_or (pw_versions f) (ps_versions s), ps_deployments := file_or (pw_deployments f) (ps_deployments s),
        ps_exceptions := file_or (pw_exceptions f) (ps_exceptions s),
        ps_violations := last_n max_positive_violations (pw_violations f)\<rparr>)))"

end
