(* ===== verification/Operation_Inventory.thy ===== *)
theory Operation_Inventory
  imports Client_Identity Positive_Schema Object_Locator
begin

text \<open>
  The inventory of API operations (\<^verbatim>\<open>api_operations.go\<close>): segments of a path that
  name an object are replaced by placeholders, and what is then the same site, method and path is one
  operation, with counts of what requests to it showed.

  A timestamp stands for its text. The digests are those of \<open>schema_env\<close> and
  \<open>object_env\<close>: sixteen bytes of SHA-256, and all of it in \<open>iv_hash\<close>.
\<close>

record inventory_env =
  iv_hash :: "string \<Rightarrow> string"
  iv_hash16 :: "string \<Rightarrow> string"

lemma count_up_keys: "fst ` set (count_up k m) = insert k (fst ` set m)"
  by (simp add: count_up_def dom_update)

lemma count_up_ok: "gm_ok m \<Longrightarrow> gm_ok (count_up k m)"
  by (simp add: count_up_def)

section \<open>Path segments\<close>

definition digit_char :: "char \<Rightarrow> bool" where
  "digit_char c \<longleftrightarrow> CHR ''0'' \<le> c \<and> c \<le> CHR ''9''"

definition alpha_char :: "char \<Rightarrow> bool" where
  "alpha_char c \<longleftrightarrow> (CHR ''a'' \<le> c \<and> c \<le> CHR ''z'') \<or> (CHR ''A'' \<le> c \<and> c \<le> CHR ''Z'')"

definition is_uuid :: "string \<Rightarrow> bool" where
  "is_uuid s \<longleftrightarrow> length s = 36 \<and>
     list_all (\<lambda>i. if i \<in> {8, 13, 18, 23} then s ! i = CHR ''-'' else hex_char (s ! i)) [0..<36]"

definition is_hex_id :: "string \<Rightarrow> bool" where
  "is_hex_id s \<longleftrightarrow> 16 \<le> length s \<and> list_all hex_char s"

definition is_number :: "string \<Rightarrow> bool" where
  "is_number s \<longleftrightarrow> s \<noteq> [] \<and> list_all digit_char s"

text \<open>Four digits, two and two, each gap with or without a hyphen.\<close>

definition is_date :: "string \<Rightarrow> bool" where
  "is_date s \<longleftrightarrow>
     (let skip = (\<lambda>t. if has_prefix t ''-'' then tl t else t); y = take 4 s; t = skip (drop 4 s); m = take 2 t; d = skip (drop 2 t)
      in length y = 4 \<and> length m = 2 \<and> length d = 2 \<and> list_all digit_char (y @ m @ d))"

text \<open>Matching without regard to case folds K and S to two runes outside of ASCII as well.\<close>

definition ulid_char :: "char \<Rightarrow> bool" where
  "ulid_char c \<longleftrightarrow> digit_char c \<or> (alpha_char c \<and> upper_char c \<notin> set ''ILOU'')"

fun ulid_length :: "string \<Rightarrow> nat option" where
  "ulid_length [] = Some 0"
| "ulid_length (c # s) =
     (if ulid_char c then map_option Suc (ulid_length s)
      else if take 2 (c # s) = [byte 197, byte 191] then map_option Suc (ulid_length (drop 1 s))
      else if take 3 (c # s) = [byte 226, byte 132, byte 170] then map_option Suc (ulid_length (drop 2 s))
      else None)"

definition is_ulid :: "string \<Rightarrow> bool" where
  "is_ulid s \<longleftrightarrow> ulid_length s = Some 26"

definition is_token :: "string \<Rightarrow> bool" where
  "is_token s \<longleftrightarrow> 20 \<le> length s \<and> length s \<le> 128 \<and>
     list_all (\<lambda>c. alpha_char c \<or> digit_char c \<or> c = CHR ''_'' \<or> c = CHR ''-'') s"

definition has_mixed_classes :: "string \<Rightarrow> bool" where
  "has_mixed_classes s \<longleftrightarrow> list_ex alpha_char s \<and> list_ex digit_char s"

definition is_slug :: "string \<Rightarrow> bool" where
  "is_slug s \<longleftrightarrow> 3 \<le> length s \<and> length s \<le> 64 \<and> alpha_char (hd s) \<and>
     list_all (\<lambda>c. alpha_char c \<or> digit_char c \<or> c = CHR ''_'' \<or> c = CHR ''-'') (tl s)"

text \<open>Placeholder, kind and format of a segment that names an object.\<close>

definition classify_segment :: "string \<Rightarrow> (string \<times> string \<times> string) option" where
  "classify_segment p =
     (if is_uuid p then Some (''{id}'', ''identifier'', ''uuid'')
      else if is_ulid p then Some (''{id}'', ''identifier'', ''ulid'')
      else if is_date p then Some (''{date}'', ''date'', ''date'')
      else if is_number p then Some (''{id}'', ''identifier'', ''integer'')
      else if is_hex_id p then Some (''{id}'', ''identifier'', ''hex'')
      else if is_token p \<and> has_mixed_classes p then Some (''{id}'', ''opaque_token'', ''opaque'')
      else None)"

definition normal_segment :: "string \<Rightarrow> string" where
  "normal_segment p = (case classify_segment p of None \<Rightarrow> p | Some (holder, _, _) \<Rightarrow> holder)"

definition normalize_operation_path :: "string \<Rightarrow> string" where
  "normalize_operation_path path =
     (if path = [] then ''/'' else join_with ''/'' (map normal_segment (split_on CHR ''/'' path)))"

record inventory_parameter =
  ip_segment :: nat
  ip_name :: string
  ip_kind :: string
  ip_format :: string

text \<open>\<open>i\<close> is the position of the first segments given, \<open>k\<close> the parameters before them.\<close>

fun parameters_from :: "nat \<Rightarrow> nat \<Rightarrow> string list \<Rightarrow> string list \<Rightarrow> inventory_parameter list" where
  "parameters_from i k (r # rs) (n # ns) =
     (if r = n then parameters_from (Suc i) k rs ns
      else
        (let (kind, format) = (case classify_segment r of None \<Rightarrow> (''dynamic'', []) | Some (_, kind, format) \<Rightarrow> (kind, format))
         in \<lparr>ip_segment = i, ip_name = ''param_'' @ decimal_of (Suc k), ip_kind = kind, ip_format = format\<rparr> #
            parameters_from (Suc i) (Suc k) rs ns))"
| "parameters_from i k _ _ = []"

definition path_parameters :: "string \<Rightarrow> string \<Rightarrow> inventory_parameter list" where
  "path_parameters raw normal =
     (let rs = split_on CHR ''/'' raw; ns = split_on CHR ''/'' normal
      in if length rs \<noteq> length ns then [] else parameters_from 0 0 rs ns)"

section \<open>Operations\<close>

record api_operation =
  op_id :: string
  op_site :: string
  op_host :: string
  op_method :: string
  op_path :: string
  op_fingerprint :: string
  op_classification :: string
  op_ignored :: bool
  op_confidence :: float64
  op_samples :: int
  op_status :: counts
  op_content_types :: counts
  op_auth :: counts
  op_examples :: "string list"
  op_parameters :: "inventory_parameter list"
  op_first_seen :: gtime
  op_last_seen :: gtime

definition zero_operation :: api_operation where
  "zero_operation = \<lparr>op_id = [], op_site = [], op_host = [], op_method = [], op_path = [], op_fingerprint = [],
     op_classification = [], op_ignored = False, op_confidence = 0, op_samples = 0, op_status = [], op_content_types = [],
     op_auth = [], op_examples = [], op_parameters = [], op_first_seen = 0, op_last_seen = 0\<rparr>"

definition max_inventory :: nat where "max_inventory = 10000"

type_synonym inventory = "(string, api_operation) gomap"

definition operation_fingerprint :: "inventory_env \<Rightarrow> string \<Rightarrow> string \<Rightarrow> string" where
  "operation_fingerprint env m path = iv_hash env (to_upper m @ '' '' @ path)"

definition operation_id :: "inventory_env \<Rightarrow> string \<Rightarrow> string \<Rightarrow> string \<Rightarrow> string" where
  "operation_id env site m path = iv_hash16 env (to_lower (trim_space site) @ ''|'' @ to_upper m @ ''|'' @ path)"

definition auth_families :: "string list" where
  "auth_families = [''apikey'', ''basic'', ''bearer'', ''mtls'', ''other'']"

text \<open>The families a scheme names, in order and once each.\<close>

definition auth_family :: "string \<Rightarrow> string option" where
  "auth_family part =
     (let part = trim_space part in
      if part \<in> {''bearer'', ''basic'', ''apikey'', ''mtls'', ''other''} then Some part
      else if part = ''none'' \<or> part = [] then None else Some ''other'')"

definition normalize_auth_scheme :: "string \<Rightarrow> string" where
  "normalize_auth_scheme s =
     (let seen = List.map_filter auth_family (split_on CHR ''+'' (to_lower (trim_space s)))
      in if seen = [] then ''none'' else join_with ''+'' (sort_by (\<lambda>a b. a < b) (remdups seen)))"

definition normalize_media_type :: "string \<Rightarrow> string" where
  "normalize_media_type ct =
     (let ct = trim_space (to_lower ct) in
      if CHR '';'' \<in> set ct then trim_space (takeWhile (\<lambda>c. c \<noteq> CHR '';'') ct) else ct)"

definition normalize_host :: "string \<Rightarrow> string" where
  "normalize_host h =
     (let h = to_lower (trim_space h); h = (case split_host_port h of None \<Rightarrow> h | Some (host, _) \<Rightarrow> host);
          h = trim_chars ''[]'' h
      in if has_suffix h ''.'' then butlast h else h)"

definition append_unique :: "nat \<Rightarrow> string \<Rightarrow> string list \<Rightarrow> string list" where
  "append_unique limit v xs =
     (let v = trim_space v in if v = [] \<or> limit = 0 \<or> v \<in> set xs \<or> length xs \<ge> limit then xs else xs @ [v])"

definition format_status :: "int \<Rightarrow> string" where
  "format_status code = (if code \<le> 0 then ''unknown'' else decimal_of (nat code))"

definition normalization_confidence :: "string \<Rightarrow> string \<Rightarrow> float64" where
  "normalization_confidence raw normal = (if raw = normal then 1 / 2 else f64 (95 / 100))"

record operation_visit =
  ov_site :: string
  ov_host :: string
  ov_method :: string
  ov_path :: string
  ov_content_type :: string
  ov_auth :: string
  ov_code :: int

definition new_operation :: "inventory_env \<Rightarrow> gtime \<Rightarrow> operation_visit \<Rightarrow> api_operation" where
  "new_operation env now v =
     (let m = to_upper (ov_method v); normal = normalize_operation_path (ov_path v) in
      \<lparr>op_id = operation_id env (ov_site v) m normal, op_site = ov_site v, op_host = normalize_host (ov_host v), op_method = m,
        op_path = normal, op_fingerprint = operation_fingerprint env m normal, op_classification = ''API'', op_ignored = False,
        op_confidence = normalization_confidence (ov_path v) normal, op_samples = 0, op_status = [], op_content_types = [],
        op_auth = [], op_examples = [], op_parameters = path_parameters (ov_path v) normal, op_first_seen = now, op_last_seen = 0\<rparr>)"

definition count_visit :: "gtime \<Rightarrow> operation_visit \<Rightarrow> api_operation \<Rightarrow> api_operation" where
  "count_visit now v op =
     (let ct = normalize_media_type (ov_content_type v) in
      op\<lparr>op_host := (if op_host op = [] then normalize_host (ov_host v) else op_host op),
        op_samples := i64 (op_samples op + 1),
        op_status := count_up (format_status (ov_code v)) (op_status op),
        op_content_types := (if ct \<noteq> [] then count_up ct (op_content_types op) else op_content_types op),
        op_auth := count_up (normalize_auth_scheme (ov_auth v)) (op_auth op),
        op_examples := append_unique 8 (ov_path v) (op_examples op),
        op_parameters := (if op_parameters op = [] then path_parameters (ov_path v) (op_path op) else op_parameters op),
        op_last_seen := now\<rparr>)"

definition visit_id :: "inventory_env \<Rightarrow> operation_visit \<Rightarrow> string" where
  "visit_id env v = operation_id env (ov_site v) (to_upper (ov_method v)) (normalize_operation_path (ov_path v))"

definition note_operation :: "inventory_env \<Rightarrow> gtime \<Rightarrow> operation_visit \<Rightarrow> inventory \<Rightarrow> api_operation \<times> inventory" where
  "note_operation env now v s =
     (case gm_get s (visit_id env v) of
        Some op \<Rightarrow> let op = count_visit now v op in (op, gm_put (visit_id env v) op s)
      | None \<Rightarrow>
          if length s \<ge> max_inventory then (zero_operation, s)
          else let op = count_visit now v (new_operation env now v) in (op, gm_put (visit_id env v) op s))"

definition inventory_snapshot :: "inventory \<Rightarrow> api_operation list" where
  "inventory_snapshot s =
     sort_by (\<lambda>a b. if op_samples a \<noteq> op_samples b then op_samples b < op_samples a else op_id a < op_id b) (gm_values s)"

definition ignore_operation :: "string \<Rightarrow> bool \<Rightarrow> inventory \<Rightarrow> api_operation option \<times> inventory" where
  "ignore_operation k ignored s =
     (case gm_get s k of
        None \<Rightarrow> (None, s)
      | Some op \<Rightarrow> let op = op\<lparr>op_ignored := ignored\<rparr> in (Some op, gm_put k op s))"

datatype inventory_error = Bad_Normalized_Path | Bad_Classification | Operation_Not_Found

definition normalize_class :: "string \<Rightarrow> string" where
  "normalize_class c = (let c = to_upper (trim_space c) in if c = [] then ''API'' else c)"

definition reclassify_operation :: "inventory_env \<Rightarrow> string \<Rightarrow> string \<Rightarrow> string \<Rightarrow> inventory \<Rightarrow>
    (inventory_error + api_operation) \<times> inventory" where
  "reclassify_operation env k path cls s =
     (let path = trim_space path; cls = normalize_class cls in
      if path = [] \<or> \<not> has_prefix path ''/'' \<or> length path > 2048 \<or>
        list_ex (\<lambda>c. c \<in> {byte 13, byte 10, byte 9} \<union> set '' ?#'') path then (Inl Bad_Normalized_Path, s)
      else if cls \<notin> {''API'', ''NON_API'', ''STATIC'', ''UNKNOWN''} then (Inl Bad_Classification, s)
      else (case gm_get s k of
          None \<Rightarrow> (Inl Operation_Not_Found, s)
        | Some op \<Rightarrow>
            let op = op\<lparr>op_path := path, op_fingerprint := operation_fingerprint env (op_method op) path,
                  op_classification := cls, op_confidence := 1\<rparr>
            in (Inr op, gm_put k op s)))"

text \<open>What is loaded: \<open>load\<close> of \<^verbatim>\<open>api_security_persist.go\<close>.\<close>

definition loaded_operation :: "inventory_env \<Rightarrow> api_operation \<Rightarrow> api_operation" where
  "loaded_operation env op =
     (let op = (if op_id op = [] then op\<lparr>op_id := operation_id env (op_site op) (op_method op) (op_path op)\<rparr> else op)
      in if op_fingerprint op = [] then op\<lparr>op_fingerprint := operation_fingerprint env (op_method op) (op_path op)\<rparr> else op)"

definition load_inventory :: "inventory_env \<Rightarrow> int \<Rightarrow> api_operation list \<Rightarrow> inventory \<Rightarrow> inventory option" where
  "load_inventory env version ops s =
     (if version \<notin> {0, 1} then None
      else Some (fold (\<lambda>op. gm_put (op_id (loaded_operation env op)) (loaded_operation env op)) ops s))"

text \<open>What other components see of an operation.\<close>

definition operation_view :: "api_operation \<Rightarrow> api_operation_view" where
  "operation_view op = \<lparr>av_id = op_id op, av_ignored = op_ignored op, av_content_types = op_content_types op\<rparr>"

definition observed_view :: "api_operation \<Rightarrow> observed_operation" where
  "observed_view op = \<lparr>ao_id = op_id op, ao_ignored = op_ignored op,
     ao_path_parameters = map (\<lambda>p. \<lparr>pp_name = ip_name p, pp_kind = ip_kind p\<rparr>) (op_parameters op)\<rparr>"

end
