(* ===== verification/Positive_Check.thy ===== *)
theory Positive_Check
  imports Positive_Schema
begin

text \<open>
  The request path of \<^verbatim>\<open>positive_schema_api4.go\<close>: a request is checked against the
  profile deployed for its operation, its violations are exempted by exceptions, recorded, and the
  request is served or refused.

  A request stands here with its normalized path and media type, whether its body was captured
  whole, whether what was captured is JSON, and the samples the schema collector finds in it. The
  readings of the clock for the times of its violations are one argument.
\<close>

record positive_request =
  pq_method :: string
  pq_path :: string
  pq_content_type :: string
  pq_truncated :: bool
  pq_body :: string
  pq_json :: bool
  pq_samples :: "schema_sample list"

definition type_allowed :: "string list \<Rightarrow> string \<Rightarrow> bool" where
  "type_allowed types ty \<longleftrightarrow> ty \<in> set types \<or> (ty = ''integer'' \<and> ''number'' \<in> set types)"

definition positive_violation_of :: "gtime \<Rightarrow> string \<Rightarrow> positive_runtime \<Rightarrow> positive_request \<Rightarrow> string \<Rightarrow> string \<Rightarrow> string \<Rightarrow>
    string \<Rightarrow> string \<Rightarrow> positive_violation" where
  "positive_violation_of now op r q ty loc path expd obs = \<lparr>pn_id = [], pn_time = now, pn_operation = op,
     pn_profile = pv_id (pr_profile r), pn_mode = pd_mode (pr_deployment r), pn_action = [], pn_type = ty,
     pn_location = loc, pn_path = path, pn_expected = expd, pn_observed = obs, pn_method = pq_method q,
     pn_request_path = pq_path q, pn_content_type = pq_content_type q, pn_exempted = False, pn_exception = []\<rparr>"

definition body_policy :: "positive_profile \<Rightarrow> bool" where
  "body_policy p \<longleftrightarrow> list_ex (\<lambda>f. pf_location f = ''body'') (pv_fields p)"

definition body_violations :: "gtime \<Rightarrow> string \<Rightarrow> positive_runtime \<Rightarrow> positive_request \<Rightarrow> positive_violation list" where
  "body_violations now op r q =
     (let p = pr_profile r; v = positive_violation_of now op r q in
      (if body_policy p \<and> pq_truncated q
       then [v ''BODY_TOO_LARGE_FOR_SCHEMA_VALIDATION'' ''body'' ''$'' ''complete body <= validation capture limit'' ''truncated'']
       else []) @
      (if pv_enforce_content p \<and> body_policy p \<and> pq_content_type q \<notin> set (pv_content_types p)
       then [v ''CONTENT_TYPE_MISMATCH'' ''header'' ''content-type'' (join_with '','' (pv_content_types p)) (pq_content_type q)]
       else []) @
      (if body_policy p \<and> \<not> pq_truncated q \<and>
         (pq_content_type q = ''application/json'' \<or> pq_content_type q = ''application/merge-patch+json'') \<and>
         pq_body q \<noteq> [] \<and> \<not> pq_json q
       then [v ''MALFORMED_BODY'' ''body'' ''$'' ''valid JSON'' ''invalid JSON''] else []))"

definition sample_violations :: "gtime \<Rightarrow> string \<Rightarrow> positive_runtime \<Rightarrow> positive_request \<Rightarrow> schema_sample \<Rightarrow> positive_violation list" where
  "sample_violations now op r q s =
     (let p = pr_profile r; v = (\<lambda>ty. positive_violation_of now op r q ty (sm_location s) (sm_path s)) in
      case gm_get (pr_index r) (sample_key (sm_location s) (sm_path s)) of
        None \<Rightarrow> if pv_unknown p = ''deny'' then [v ''UNKNOWN_FIELD'' ''declared field'' (sm_type s)] else []
      | Some f \<Rightarrow>
          if \<not> type_allowed (pf_types f) (sm_type s)
          then [v ''TYPE_MISMATCH'' (join_with '','' (pf_types f)) (sm_type s)]
          else
            (if pv_enforce_formats p \<and> pf_formats f \<noteq> [] \<and> sm_format s \<notin> set (pf_formats f)
             then [v ''FORMAT_MISMATCH'' (join_with '','' (pf_formats f)) (if sm_format s = [] then ''none'' else sm_format s)]
             else []) @
            (if pv_enforce_enums p \<and> pf_enum f \<noteq> [] \<and> (sm_enum s = [] \<or> sm_enum s \<notin> set (pf_enum f))
             then [v ''ENUM_MISMATCH'' (join_with '','' (pf_enum f)) (if sm_enum s = [] then ''outside reviewed enum'' else sm_enum s)]
             else []))"

definition missing_violations :: "gtime \<Rightarrow> string \<Rightarrow> positive_runtime \<Rightarrow> positive_request \<Rightarrow> positive_violation list" where
  "missing_violations now op r q =
     (let observed = map (\<lambda>s. sample_key (sm_location s) (sm_path s)) (pq_samples q) in
      map (\<lambda>(k, f). positive_violation_of now op r q ''REQUIRED_FIELD_MISSING'' (pf_location f) (pf_path f) ''required'' ''missing'')
        (filter (\<lambda>(k, f). pf_required f \<and> k \<notin> set observed) (pr_index r)))"

text \<open>Whether an exception of the snapshot applies to a violation.\<close>

definition exempts :: "gtime \<Rightarrow> positive_runtime \<Rightarrow> positive_violation \<Rightarrow> positive_exception \<Rightarrow> bool" where
  "exempts now r v x \<longleftrightarrow>
     px_enabled x \<and> (case px_expires_at x of None \<Rightarrow> True | Some t \<Rightarrow> now < t) \<and>
     (px_profile x = [] \<or> px_profile x = pv_id (pr_profile r)) \<and> (px_type x = [] \<or> px_type x = pn_type v) \<and>
     (px_field x = [] \<or> px_field x = sample_key (pn_location v) (pn_path v))"

definition exempt :: "gtime \<Rightarrow> positive_runtime \<Rightarrow> positive_violation \<Rightarrow> positive_violation" where
  "exempt now r v = (case find (exempts now r v) (pr_exceptions r) of
     None \<Rightarrow> v | Some x \<Rightarrow> v\<lparr>pn_exempted := True, pn_exception := px_id x\<rparr>)"

definition validate_request :: "gtime \<Rightarrow> gtime \<Rightarrow> string \<Rightarrow> positive_runtime \<Rightarrow> positive_request \<Rightarrow> positive_violation list" where
  "validate_request now now2 op r q =
     map (exempt now2 r) (body_violations now op r q @ concat (map (sample_violations now op r q) (pq_samples q)) @
       missing_violations now op r q)"

definition positive_action :: "gql_mode \<Rightarrow> positive_violation list \<Rightarrow> string" where
  "positive_action m vs = (if m = Detect then ''detect''
     else if m = Enforce \<and> length (filter (\<lambda>v. \<not> pn_exempted v) vs) > 0 then ''block'' else ''learn'')"

definition mark_action :: "string \<Rightarrow> positive_violation \<Rightarrow> positive_violation" where
  "mark_action act v = v\<lparr>pn_action := (if pn_exempted v \<and> act = ''block'' then ''exception'' else act)\<rparr>"

text \<open>The handler: the status of a refusal, if the request is not served, and the store.\<close>

definition wrap_positive :: "schema_env \<Rightarrow> gtime \<Rightarrow> gtime \<Rightarrow> gtime \<Rightarrow> string \<Rightarrow> positive_request \<Rightarrow>
    (string, positive_runtime) gomap \<Rightarrow> positive_store \<Rightarrow> int option \<times> positive_store" where
  "wrap_positive env now now2 now3 op q rt s =
     (case gm_get rt op of
        None \<Rightarrow> (None, s)
      | Some r \<Rightarrow>
          let vs = validate_request now now2 op r q in
          if vs = [] then (None, s)
          else
            let act = positive_action (pd_mode (pr_deployment r)) vs;
                s = record_positive env now3 (map (mark_action act) vs) s
            in (if act \<noteq> ''block'' then None
                else Some (if pd_status (pr_deployment r) = 0 then 400 else pd_status (pr_deployment r)), s))"

section \<open>What a profile asks\<close>

text \<open>The requests a profile lets pass, as rules.\<close>

definition field_fits :: "positive_profile \<Rightarrow> positive_field \<Rightarrow> schema_sample \<Rightarrow> bool" where
  "field_fits p f s \<longleftrightarrow> type_allowed (pf_types f) (sm_type s) \<and>
     (pv_enforce_formats p \<and> pf_formats f \<noteq> [] \<longrightarrow> sm_format s \<in> set (pf_formats f)) \<and>
     (pv_enforce_enums p \<and> pf_enum f \<noteq> [] \<longrightarrow> sm_enum s \<noteq> [] \<and> sm_enum s \<in> set (pf_enum f))"

definition body_fits :: "positive_profile \<Rightarrow> positive_request \<Rightarrow> bool" where
  "body_fits p q \<longleftrightarrow> (body_policy p \<longrightarrow>
     \<not> pq_truncated q \<and> (pv_enforce_content p \<longrightarrow> pq_content_type q \<in> set (pv_content_types p)) \<and>
     (pq_content_type q \<in> {''application/json'', ''application/merge-patch+json''} \<and> pq_body q \<noteq> [] \<longrightarrow> pq_json q))"

definition conforms :: "positive_profile \<Rightarrow> (string, positive_field) gomap \<Rightarrow> positive_request \<Rightarrow> bool" where
  "conforms p index q \<longleftrightarrow> body_fits p q \<and>
     (\<forall>s \<in> set (pq_samples q). case gm_get index (sample_key (sm_location s) (sm_path s)) of
        None \<Rightarrow> pv_unknown p \<noteq> ''deny'' | Some f \<Rightarrow> field_fits p f s) \<and>
     (\<forall>(k, f) \<in> set index. pf_required f \<longrightarrow> (\<exists>s \<in> set (pq_samples q). sample_key (sm_location s) (sm_path s) = k))"

lemma body_violations_Nil: "body_violations now op r q = [] \<longleftrightarrow> body_fits (pr_profile r) q"
  unfolding body_violations_def Let_def append_is_Nil_conv when_Nil body_fits_def by auto

lemma sample_violations_Nil: "sample_violations now op r q s = [] \<longleftrightarrow>
    (case gm_get (pr_index r) (sample_key (sm_location s) (sm_path s)) of
        None \<Rightarrow> pv_unknown (pr_profile r) \<noteq> ''deny'' | Some f \<Rightarrow> field_fits (pr_profile r) f s)"
  by (cases "gm_get (pr_index r) (sample_key (sm_location s) (sm_path s))")
    (auto simp: sample_violations_def Let_def field_fits_def)

lemma missing_violations_Nil: "missing_violations now op r q = [] \<longleftrightarrow>
    (\<forall>(k, f) \<in> set (pr_index r). pf_required f \<longrightarrow> (\<exists>s \<in> set (pq_samples q). sample_key (sm_location s) (sm_path s) = k))"
  by (auto simp: missing_violations_def Let_def filter_empty_conv)

lemma validate_iff_conforms: "validate_request now now2 op r q = [] \<longleftrightarrow> conforms (pr_profile r) (pr_index r) q"
  unfolding validate_request_def map_is_Nil_conv append_is_Nil_conv concat_map_Nil body_violations_Nil
    missing_violations_Nil sample_violations_Nil conforms_def ..

end
