(* ===== verification/Schema_Collect.thy ===== *)
theory Schema_Collect
  imports Operation_Inventory Go_Time Positive_Check
begin

text \<open>
  What a request shows of an API (\<^verbatim>\<open>collectSchemaSamplesFromObservation\<close> of
  \<^verbatim>\<open>schema_api2.go\<close>): for each path parameter, header, query value and body field its
  type, its format, an enumeration value where its name and shape allow one, and a digest.

  A request stands here with what the standard library makes of it: the parsed query, and the
  body as a JSON tree, form values or the parts of a multipart body. Whether
  \<^verbatim>\<open>strconv.ParseFloat\<close> takes a text is in \<open>collect_env\<close>.
\<close>

record collect_env =
  ce_float :: "string \<Rightarrow> bool"
  ce_hash8 :: "string \<Rightarrow> string"

datatype json =
    Json_Null
  | Json_Bool bool
  | Json_Number string
  | Json_String string
  | Json_Array "json list"
  | Json_Object "(string \<times> json) list"

type_synonym form_values = "(string, string list) gomap"

record form_part =
  fp_name :: string
  fp_file :: bool
  fp_value :: string

datatype parsed_body = No_Body | Json_Body json | Form_Body form_values | Multipart_Body "form_part list"

record shown_request =
  sr_path :: string
  sr_headers :: form_values
  sr_query :: "form_values option"
  sr_body :: parsed_body
  sr_truncated :: bool

section \<open>Scalars\<close>

definition parse_int64 :: "string \<Rightarrow> int option" where
  "parse_int64 s =
     (let neg = has_prefix s ''-''; ds = (if neg \<or> has_prefix s ''+'' then tl s else s);
          n = (if neg then - int (decimal_value ds) else int (decimal_value ds))
      in if is_number ds \<and> - (2 ^ 63) \<le> n \<and> n < 2 ^ 63 then Some n else None)"

definition after_at :: "string \<Rightarrow> string" where
  "after_at v = tl (dropWhile (\<lambda>c. c \<noteq> CHR ''@'') v)"

text \<open>Type and format of a text.\<close>

definition infer_scalar :: "collect_env \<Rightarrow> string \<Rightarrow> string \<times> string" where
  "infer_scalar env value =
     (let v = trim_space value in
      if v = [] then (''string'', [])
      else if is_uuid v then (''string'', ''uuid'')
      else if is_date v then (''string'', ''date'')
      else if (case parse_rfc3339 v of None \<Rightarrow> False | Some t \<Rightarrow> \<not> time_is_zero t) then (''string'', ''date-time'')
      else if parse_ip v \<noteq> None then (''string'', ''ip'')
      else if CHR ''@'' \<in> set v \<and> CHR ''.'' \<in> set (after_at v) then (''string'', ''email'')
      else if v = ''true'' \<or> v = ''false'' then (''boolean'', [])
      else if parse_int64 v \<noteq> None then (''integer'', [])
      else if ce_float env v then (''number'', [])
      else (''string'', []))"

definition enum_parts :: "string list" where
  "enum_parts = [''status'', ''state'', ''type'', ''kind'', ''role'', ''scope'', ''currency'', ''country'', ''region'', ''locale'',
     ''language'', ''mode'', ''tier'', ''level'', ''category'', ''action'', ''channel'', ''provider'', ''environment'',
     ''format'', ''code'']"

definition enum_like :: "string \<Rightarrow> bool" where
  "enum_like path \<longleftrightarrow> list_ex (\<lambda>p. p \<in> set enum_parts) (fields_by (\<lambda>c. c \<in> set ''._-[]'') [] (to_lower path))"

definition safe_enum_text :: "string \<Rightarrow> bool" where
  "safe_enum_text v \<longleftrightarrow> v \<noteq> [] \<and> length v \<le> 32 \<and> alpha_char (hd v) \<and>
     list_all (\<lambda>c. alpha_char c \<or> digit_char c \<or> c \<in> set ''_.-'') (tl v)"

definition safe_enum :: "collect_env \<Rightarrow> string \<Rightarrow> string \<Rightarrow> string" where
  "safe_enum env path value =
     (let v = trim_space value; format = snd (infer_scalar env v) in
      if v = [] \<or> length v > 64 \<or> sensitive_field path \<or> \<not> enum_like path then []
      else if \<not> safe_enum_text v then []
      else if format \<noteq> [] \<and> format \<noteq> ''date'' then []
      else if CHR ''@'' \<in> set v \<or> parse_ip v \<noteq> None then []
      else if is_uuid v \<or> is_ulid v \<or> is_hex_id v \<or> is_token v then []
      else v)"

section \<open>Samples\<close>

text \<open>A sample with the value it was made of, which lives as long as the request.\<close>

type_synonym shown_sample = "schema_sample \<times> string"

definition new_sample :: "collect_env \<Rightarrow> string \<Rightarrow> string \<Rightarrow> string \<Rightarrow> string \<Rightarrow> string \<Rightarrow> string \<Rightarrow> shown_sample" where
  "new_sample env path loc ty format enum raw =
     (let sens = sensitive_field path; hide = sens \<or> format \<in> {''email'', ''ip'', ''uuid'', ''date-time''};
          enum = (if hide then [] else enum); raw = (if hide then [] else raw);
          hash = (if raw \<noteq> [] \<and> \<not> sens \<and> (ty \<noteq> ''string'' \<or> enum \<noteq> []) then ce_hash8 env raw else [])
      in (\<lparr>sm_path = path, sm_location = loc, sm_type = ty, sm_format = format, sm_enum = enum, sm_sensitive = sens,
           sm_hash = hash\<rparr>, raw))"

definition append_sample :: "collect_env \<Rightarrow> string \<Rightarrow> string \<Rightarrow> string \<Rightarrow> string \<Rightarrow> string \<Rightarrow> string \<Rightarrow>
    shown_sample list \<Rightarrow> shown_sample list" where
  "append_sample env path loc ty format enum raw out =
     (if length out \<ge> max_schema_sample_fields \<or> path = [] then out else out @ [new_sample env path loc ty format enum raw])"

definition append_scalar :: "collect_env \<Rightarrow> string \<Rightarrow> string \<Rightarrow> string \<Rightarrow> string \<Rightarrow> shown_sample list \<Rightarrow> shown_sample list" where
  "append_scalar env path loc enum raw out =
     (let (ty, format) = infer_scalar env raw in append_sample env path loc ty format enum raw out)"

fun path_samples :: "collect_env \<Rightarrow> nat \<Rightarrow> string list \<Rightarrow> string list \<Rightarrow> shown_sample list \<Rightarrow> shown_sample list" where
  "path_samples env k (r # rs) (n # ns) out =
     (if r = n then path_samples env k rs ns out
      else path_samples env (Suc k) rs ns (append_scalar env (''param_'' @ decimal_of (Suc k)) ''path'' [] r out))"
| "path_samples env k _ _ out = out"

definition add_path_samples :: "collect_env \<Rightarrow> string \<Rightarrow> shown_sample list \<Rightarrow> shown_sample list" where
  "add_path_samples env path out =
     (let rs = split_on CHR ''/'' path; ns = split_on CHR ''/'' (normalize_operation_path path)
      in if length rs \<noteq> length ns then out else path_samples env 0 rs ns out)"

definition sorted_values :: "form_values \<Rightarrow> (string \<times> string) list" where
  "sorted_values m = concat (map (\<lambda>k. map (Pair k) (the (gm_get m k))) (sorted_keys m))"

definition add_values :: "collect_env \<Rightarrow> string \<Rightarrow> form_values \<Rightarrow> shown_sample list \<Rightarrow> shown_sample list" where
  "add_values env loc m out = fold (\<lambda>(name, v). append_scalar env name loc (safe_enum env name v) v) (sorted_values m) out"

definition selected_headers :: "form_values \<Rightarrow> form_values" where
  "selected_headers hs = fold (\<lambda>(k, vs) m. let lk = to_lower k in
     if sensitive_field lk then m
     else if (lk = ''content-type'' \<or> lk = ''accept'' \<or> has_prefix lk ''x-'') \<and> vs \<noteq> [] then gm_put lk vs m else m) hs []"

definition append_header :: "collect_env \<Rightarrow> string \<times> string \<Rightarrow> shown_sample list \<Rightarrow> shown_sample list" where
  "append_header env h out =
     (let (name, v) = h in
      if to_lower name = ''content-type'' \<or> to_lower name = ''accept''
      then append_sample env name ''header'' ''string'' [] (normalize_media_type v) [] out
      else (let (ty, format) = infer_scalar env v in append_sample env name ''header'' ty format [] [] out))"

definition add_headers :: "collect_env \<Rightarrow> form_values \<Rightarrow> shown_sample list \<Rightarrow> shown_sample list" where
  "add_headers env m out = fold (append_header env) (sorted_values m) out"

definition max_sample_depth :: nat where "max_sample_depth = 12"

definition fallback_path :: "string \<Rightarrow> string" where
  "fallback_path path = (let path = trim_space path in if path = [] then ''$'' else path)"

definition bool_text :: "bool \<Rightarrow> string" where
  "bool_text b = (if b then ''true'' else ''false'')"

definition sub_path :: "string \<Rightarrow> string \<Rightarrow> string" where
  "sub_path prefix k = (if prefix \<noteq> [] then prefix @ ''.'' @ k else k)"

lemma json_item_size: "v \<in> set (take n vs) \<Longrightarrow> size v < Suc (size_list size vs)"
  using size_list_estimation [of v vs "size v" size] by (auto dest: in_set_takeD simp: size_list_estimation' less_Suc_eq_le)

lemma json_field_size: "(k, v) \<in> set kvs \<Longrightarrow> size v < Suc (size_list (size_prod s size) kvs)"
  by (induction kvs) auto

function flatten_json :: "collect_env \<Rightarrow> nat \<Rightarrow> string \<Rightarrow> json \<Rightarrow> shown_sample list \<Rightarrow> shown_sample list" where
  "flatten_json env depth prefix v out =
     (if depth > max_sample_depth \<or> length out \<ge> max_schema_sample_fields then out
      else (case v of
          Json_Object kvs \<Rightarrow> fold (\<lambda>(k, x). flatten_json env (Suc depth) (sub_path prefix k) x)
            (sort_by (\<lambda>a b. fst a < fst b) kvs) out
        | Json_Array vs \<Rightarrow>
            let out = append_sample env (fallback_path prefix) ''body'' ''array'' [] [] [] out
            in fold (flatten_json env (Suc depth) (prefix @ ''[]'')) (take 8 vs) out
        | Json_Null \<Rightarrow> append_sample env (fallback_path prefix) ''body'' ''null'' [] [] [] out
        | Json_Bool b \<Rightarrow> append_sample env (fallback_path prefix) ''body'' ''boolean'' [] (bool_text b) (bool_text b) out
        | Json_Number n \<Rightarrow> append_sample env (fallback_path prefix) ''body''
            (if parse_int64 n \<noteq> None then ''integer'' else ''number'') [] [] n out
        | Json_String x \<Rightarrow>
            let (ty, format) = infer_scalar env x
            in append_sample env (fallback_path prefix) ''body'' ty format (safe_enum env prefix x) x out))"
  by pat_completeness auto

termination
  by (relation "measure (\<lambda>(env, depth, prefix, v, out). size v)")
    (auto intro: json_field_size json_item_size)

declare flatten_json.simps [simp del]

definition add_part :: "collect_env \<Rightarrow> form_part \<Rightarrow> shown_sample list \<Rightarrow> shown_sample list" where
  "add_part env p out =
     (if fp_name p = [] then out
      else if fp_file p then append_sample env (fp_name p) ''body'' ''file'' [] [] [] out
      else append_scalar env (fp_name p) ''body'' (safe_enum env (fp_name p) (fp_value p)) (fp_value p) out)"

definition add_body :: "collect_env \<Rightarrow> parsed_body \<Rightarrow> shown_sample list \<Rightarrow> shown_sample list" where
  "add_body env b out = (case b of
     No_Body \<Rightarrow> out
   | Json_Body v \<Rightarrow> flatten_json env 0 [] v out
   | Form_Body m \<Rightarrow> add_values env ''body'' m out
   | Multipart_Body ps \<Rightarrow> fold (add_part env) ps out)"

definition collect_samples :: "collect_env \<Rightarrow> shown_request \<Rightarrow> shown_sample list" where
  "collect_samples env r =
     (let out = add_headers env (sr_headers r) (add_path_samples env (sr_path r) []);
          out = (case sr_query r of None \<Rightarrow> out | Some m \<Rightarrow> add_values env ''query'' m out);
          out = (if sr_truncated r then out else add_body env (sr_body r) out)
      in take max_schema_sample_fields out)"

text \<open>What the object locators get of a sample.\<close>

definition locator_sample :: "shown_sample \<Rightarrow> field_sample" where
  "locator_sample s = \<lparr>fs_path = sm_path (fst s), fs_location = sm_location (fst s), fs_type = sm_type (fst s),
     fs_format = sm_format (fst s), fs_value = snd s\<rparr>"

end
