(* ===== verification/Positive_Machine.thy ===== *)
theory Positive_Machine
  imports Positive_Check
begin

text \<open>
  The positive schema store as a machine: what its operations keep, how a profile comes to be
  enforced, what a rollback brings back, and the limit of exceptions that only fills.
\<close>

section \<open>What every operation keeps\<close>

datatype positive_event =
    Promote gtime schema_candidate api_operation_view promote_options
  | Change_Positive_Mode gtime string string string string int
  | Activate gtime string string string string
  | Roll_Back gtime string string string
  | Except gtime gtime positive_exception
  | Toggle_Exception string bool
  | Judge_Request gtime gtime gtime string positive_request
  | Restart_Positive

definition positive_step :: "schema_env \<Rightarrow> positive_event \<Rightarrow> positive_store \<Rightarrow> positive_store" where
  "positive_step env e s = (case e of
     Promote now c op opts \<Rightarrow> snd (promote env now c op opts s)
   | Change_Positive_Mode now op mode who reason code \<Rightarrow> snd (set_positive_mode now op mode who reason code s)
   | Activate now op profile who reason \<Rightarrow> snd (activate now op profile who reason s)
   | Roll_Back now op who reason \<Rightarrow> snd (rollback now op who reason s)
   | Except now now2 x \<Rightarrow> snd (add_exception env now now2 x s)
   | Toggle_Exception xid enabled \<Rightarrow> snd (set_exception_enabled xid enabled s)
   | Judge_Request now now2 now3 op q \<Rightarrow> snd (wrap_positive env now now2 now3 op q (ps_runtime s) s)
   | Restart_Positive \<Rightarrow> the (load_positive (save_positive s) new_positive_store))"

text \<open>A profile stands under its id, and what is deployed for an operation is a profile of that operation.\<close>

definition profile_of :: "positive_store \<Rightarrow> string \<Rightarrow> string \<Rightarrow> bool" where
  "profile_of s op pid \<longleftrightarrow> (\<exists>p. gm_get (ps_profiles s) pid = Some p \<and> pv_operation p = op)"

definition deployment_ok :: "positive_store \<Rightarrow> string \<Rightarrow> positive_deployment \<Rightarrow> bool" where
  "deployment_ok s op d \<longleftrightarrow> pd_operation d = op \<and> op \<noteq> [] \<and> profile_of s op (pd_profile d) \<and> pd_status d \<in> {400, 403, 422} \<and>
     length (pd_history d) \<le> max_positive_history \<and>
     (\<forall>r \<in> set (pd_history d). profile_of s op (rv_profile r) \<and> rv_status r \<in> {400, 403, 422})"

definition fresh_runtime :: "positive_store \<Rightarrow> bool" where
  "fresh_runtime s \<longleftrightarrow> rebuild_positive s = s"

definition positive_ok :: "positive_store \<Rightarrow> bool" where
  "positive_ok s \<longleftrightarrow> gm_all (\<lambda>k p. pv_id p = k \<and> pv_operation p \<noteq> []) (ps_profiles s) \<and> gm_ok (ps_deployments s) \<and>
     gm_all (deployment_ok s) (ps_deployments s) \<and> gm_ok (ps_exceptions s) \<and>
     length (ps_exceptions s) \<le> max_positive_exceptions \<and>
     length (ps_violations s) \<le> max_positive_violations \<and> fresh_runtime s"

lemma rebuild_positive_simps [simp]:
  "ps_profiles (rebuild_positive s) = ps_profiles s" "ps_versions (rebuild_positive s) = ps_versions s"
  "ps_deployments (rebuild_positive s) = ps_deployments s" "ps_exceptions (rebuild_positive s) = ps_exceptions s"
  "ps_violations (rebuild_positive s) = ps_violations s" "ps_sequence (rebuild_positive s) = ps_sequence s"
  by (simp_all add: rebuild_positive_def)

lemma runtime_of_cong:
  assumes "ps_profiles s = ps_profiles s'" and "ps_exceptions s = ps_exceptions s'"
  shows "runtime_of s op d = runtime_of s' op d"
  unfolding runtime_of_def assms ..

lemma rebuild_positive_again [simp]: "rebuild_positive (rebuild_positive s) = rebuild_positive s"
proof -
  have "runtime_of (rebuild_positive s) = runtime_of s" by (intro ext runtime_of_cong) simp_all
  then show ?thesis
    unfolding rebuild_positive_def [of "rebuild_positive s"] by (simp add: rebuild_positive_def)
qed

lemma rebuild_positive_fresh [simp]: "fresh_runtime (rebuild_positive s)"
  by (simp add: fresh_runtime_def)

lemma rebuilt_get:
  assumes "gm_ok m"
  shows "gm_get (concat (map (\<lambda>(op, d). case g op d of None \<Rightarrow> [] | Some r \<Rightarrow> [(op, r)]) m)) op =
    (case gm_get m op of None \<Rightarrow> None | Some d \<Rightarrow> g op d)"
  using assms
proof (induction m)
  case (Cons x m)
  obtain k d where x: "x = (k, d)" by force
  from Cons.prems x have "gm_ok m" and "gm_get m k = None" by (auto simp: gm_ok_def map_of_eq_None_iff)
  with Cons.IH x show ?case by (auto split: option.splits)
qed simp

lemma runtime_get:
  assumes "fresh_runtime s" and "gm_ok (ps_deployments s)"
  shows "gm_get (ps_runtime s) op = (case gm_get (ps_deployments s) op of None \<Rightarrow> None | Some d \<Rightarrow> runtime_of s op d)"
proof -
  from assms(1) have "ps_runtime s = ps_runtime (rebuild_positive s)" by (simp add: fresh_runtime_def)
  with rebuilt_get [OF assms(2)] show ?thesis by (simp add: rebuild_positive_def)
qed

lemma deployment_ok_mono:
  assumes "deployment_ok s op d" and "\<And>pid. profile_of s op pid \<Longrightarrow> profile_of s' op pid"
  shows "deployment_ok s' op d"
  using assms by (auto simp: deployment_ok_def)

lemma profile_of_same [simp]:
  "profile_of (rebuild_positive s) = profile_of s"
  "profile_of (s\<lparr>ps_deployments := m\<rparr>) = profile_of s"
  "profile_of (s\<lparr>ps_exceptions := xs\<rparr>) = profile_of s"
  "profile_of (s\<lparr>ps_versions := vs\<rparr>) = profile_of s"
  by (simp_all add: profile_of_def fun_eq_iff)

lemma deployment_ok_same [simp]:
  "deployment_ok (rebuild_positive s) = deployment_ok s"
  "deployment_ok (s\<lparr>ps_deployments := m\<rparr>) = deployment_ok s"
  "deployment_ok (s\<lparr>ps_exceptions := xs\<rparr>) = deployment_ok s"
  "deployment_ok (s\<lparr>ps_versions := vs\<rparr>) = deployment_ok s"
  by (simp_all add: deployment_ok_def fun_eq_iff)

text \<open>The deployment of an operation changes in one of these ways.\<close>

lemma put_deployment_ok:
  assumes "positive_ok s" and "deployment_ok s op d"
  shows "positive_ok (rebuild_positive (s\<lparr>ps_deployments := gm_put op d (ps_deployments s)\<rparr>))"
  using assms by (auto simp: positive_ok_def)

lemma positive_ok_deployment: "positive_ok s \<Longrightarrow> gm_get (ps_deployments s) op = Some d \<Longrightarrow> deployment_ok s op d"
  by (auto simp: positive_ok_def dest: gm_all_get)

lemma set_last_n: "set (last_n n xs) \<subseteq> set xs"
  by (simp add: last_n_def set_drop_subset)

lemma length_last_n_le: "length (last_n n xs) \<le> n"
  by (simp add: last_n_def)

definition revision_of :: "string \<Rightarrow> string \<Rightarrow> positive_deployment \<Rightarrow> positive_revision" where
  "revision_of who reason d = \<lparr>rv_profile = pd_profile d, rv_mode = pd_mode d, rv_status = pd_status d,
     rv_changed_at = pd_updated_at d, rv_changed_by = trim_space who, rv_why = trim_space reason\<rparr>"

lemma push_history_fields [simp]:
  "pd_operation (push_history who reason d) = pd_operation d" "pd_profile (push_history who reason d) = pd_profile d"
  "pd_mode (push_history who reason d) = pd_mode d" "pd_status (push_history who reason d) = pd_status d"
  by (simp_all add: push_history_def)

lemma push_history_set: "set (pd_history (push_history who reason d)) \<subseteq> insert (revision_of who reason d) (set (pd_history d))"
  using set_last_n [of max_positive_history "pd_history d @ [revision_of who reason d]"]
  by (auto simp: push_history_def revision_of_def)

lemma push_history_ok: "deployment_ok s op d \<Longrightarrow> deployment_ok s op (push_history who reason d)"
  using push_history_set [of who reason d] length_last_n_le [of max_positive_history]
  by (fastforce simp: deployment_ok_def push_history_def revision_of_def)

lemma activated_ok:
  assumes "deployment_ok s op d" and "profile_of s op pid" and "st \<in> {400, 403, 422}"
  shows "deployment_ok s op (activated now op pid who st d)"
  using assms by (auto simp: deployment_ok_def activated_def)

lemma activated_zero_ok:
  assumes "op \<noteq> []" and "profile_of s op pid" and "st \<in> {400, 403, 422}"
  shows "deployment_ok s op (activated now op pid who st zero_deployment)"
  using assms by (auto simp: deployment_ok_def activated_def zero_deployment_def)

lemma normalize_status_range: "normalize_status code = Some st \<Longrightarrow> st \<in> {400, 403, 422}"
  by (auto simp: normalize_status_def split: if_splits)

lemma deployment_of_cases:
  assumes "positive_ok s"
  obtains (none) "gm_get (ps_deployments s) op = None" and "deployment_of s op = zero_deployment"
  | (some) d where "gm_get (ps_deployments s) op = Some d" and "deployment_of s op = d" and "deployment_ok s op d" and "pd_operation d = op" and "op \<noteq> []"
proof (cases "gm_get (ps_deployments s) op")
  case None
  then show ?thesis by (intro none) (simp_all add: deployment_of_def)
next
  case (Some d)
  with positive_ok_deployment [OF assms Some] show ?thesis by (intro some [of d]) (auto simp: deployment_of_def deployment_ok_def)
qed

lemma zero_deployment_simps [simp]: "pd_operation zero_deployment = []" "pd_history zero_deployment = []" "pd_status zero_deployment = 0"
  by (simp_all add: zero_deployment_def)

text \<open>The two ways a profile is deployed.\<close>

lemma deploy_ok:
  assumes "positive_ok s" and "profile_of s op pid" and "op \<noteq> []" and "st \<in> {400, 403, 422}"
  shows "deployment_ok s op (activated now op pid who st
    (if pd_operation (deployment_of s op) \<noteq> [] then push_history who reason (deployment_of s op) else deployment_of s op))"
  by (cases rule: deployment_of_cases [OF assms(1), of op])
    (simp_all add: assms activated_ok activated_zero_ok push_history_ok del: insert_iff)

lemma profile_added:
  assumes "\<not> gm_has (ps_profiles s) (pv_id p)" and "profile_of s op pid"
  shows "profile_of (s\<lparr>ps_profiles := gm_put (pv_id p) p (ps_profiles s)\<rparr>) op pid"
  using assms by (auto simp: profile_of_def gm_get_put gm_has_def)

lemma add_profile_ok:
  assumes "positive_ok s" and "\<not> gm_has (ps_profiles s) (pv_id p)" and "pv_operation p \<noteq> []"
  shows "positive_ok (rebuild_positive (s\<lparr>ps_profiles := gm_put (pv_id p) p (ps_profiles s), ps_versions := vs\<rparr>))"
proof -
  let ?s = "s\<lparr>ps_profiles := gm_put (pv_id p) p (ps_profiles s)\<rparr>"
  have "deployment_ok ?s k d" if "deployment_ok s k d" for k d
    using that profile_added [OF assms(2)] by (rule deployment_ok_mono)
  with assms have "positive_ok (rebuild_positive ?s)" by (auto simp: positive_ok_def gm_all_def dest!: set_gm_put_subset [THEN subsetD])
  moreover have "deployment_ok (?s\<lparr>ps_versions := vs\<rparr>) = deployment_ok ?s" by (rule deployment_ok_same)
  ultimately show ?thesis by (simp add: positive_ok_def)
qed

lemma check_promotion_some:
  assumes "check_promotion c op opts = Inr (unknown, st)"
  shows "approved c \<and> sc_operation c \<noteq> [] \<and> sc_fields c \<noteq> [] \<and> av_id op = sc_operation c \<and> st \<in> {400, 403, 422}"
  using assms by (auto simp: check_promotion_def dest: normalize_status_range split: if_splits option.splits)

text \<open>What a promotion that succeeds does to the store.\<close>

definition with_profile :: "positive_profile \<Rightarrow> positive_store \<Rightarrow> positive_store" where
  "with_profile p s = rebuild_positive (s\<lparr>ps_profiles := gm_put (pv_id p) p (ps_profiles s),
     ps_versions := gm_put (pv_operation p) (versions_of s (pv_operation p) @ [pv_id p]) (ps_versions s)\<rparr>)"

definition put_deployment :: "string \<Rightarrow> positive_deployment \<Rightarrow> positive_store \<Rightarrow> positive_store" where
  "put_deployment op d s = rebuild_positive (s\<lparr>ps_deployments := gm_put op d (ps_deployments s)\<rparr>)"

definition deployed :: "gtime \<Rightarrow> string \<Rightarrow> string \<Rightarrow> string \<Rightarrow> string \<Rightarrow> int \<Rightarrow> positive_store \<Rightarrow> positive_deployment" where
  "deployed now op pid who reason st s = activated now op pid who st
     (if pd_operation (deployment_of s op) \<noteq> [] then push_history who reason (deployment_of s op) else deployment_of s op)"

lemma rebuild_positive_after:
  "rebuild_positive (rebuild_positive s\<lparr>ps_deployments := m\<rparr>) = rebuild_positive (s\<lparr>ps_deployments := m\<rparr>)"
proof -
  have "runtime_of (rebuild_positive s\<lparr>ps_deployments := m\<rparr>) = runtime_of (s\<lparr>ps_deployments := m\<rparr>)"
    by (intro ext runtime_of_cong) simp_all
  then show ?thesis
    unfolding rebuild_positive_def [of "rebuild_positive s\<lparr>ps_deployments := m\<rparr>"]
      rebuild_positive_def [of "s\<lparr>ps_deployments := m\<rparr>"] by (simp add: rebuild_positive_def)
qed

lemma deployment_of_profile [simp]: "deployment_of (with_profile p s) = deployment_of s"
  by (simp add: fun_eq_iff deployment_of_def with_profile_def)

lemma promote_cases:
  assumes "promote env now c op opts s = (Inr (p, d), s')"
  obtains (kept) "\<not> gm_has (ps_profiles s) (pv_id p)" and "pv_fields p = positive_fields c" and "pv_operation p = sc_operation c"
      and "pv_candidate_version p = sc_version c" and "approved c" and "sc_operation c \<noteq> []" and "av_id op = sc_operation c"
      and "s' = with_profile p s"
  | (live) st who where "\<not> gm_has (ps_profiles s) (pv_id p)" and "pv_fields p = positive_fields c" and "pv_operation p = sc_operation c"
      and "pv_candidate_version p = sc_version c" and "approved c" and "sc_operation c \<noteq> []" and "av_id op = sc_operation c"
      and "st \<in> {400, 403, 422}"
      and "s' = put_deployment (sc_operation c)
        (deployed now (sc_operation c) (pv_id p) who ''activate new profile version'' st s) (with_profile p s)"
proof -
  from assms obtain unknown st where chk: "check_promotion c op opts = Inr (unknown, st)"
    by (auto simp: promote_def split: sum.splits)
  let ?op = "sc_operation c" let ?p = "new_profile env now c op opts unknown (Suc (length (versions_of s ?op)))"
  let ?go = "pd_operation (deployment_of s ?op) = [] \<or> po_activate opts"
  note facts = check_promotion_some [OF chk]
  have new: "\<not> gm_has (ps_profiles s) (pv_id ?p)"
    using assms by (cases "gm_has (ps_profiles s) (pv_id ?p)") (simp_all add: promote_def chk)
  with assms have p: "p = ?p" by (simp add: promote_def chk Let_def)
  have pf: "pv_operation (new_profile env now c op opts unknown v) = ?op" for v by (simp add: new_profile_def)
  have out: "pv_fields p = positive_fields c" "pv_operation p = ?op" "pv_candidate_version p = sc_version c"
    unfolding p by (simp_all add: new_profile_def)
  have dep: "deployment_of (s\<lparr>ps_profiles := x, ps_versions := y\<rparr>) ?op = deployment_of s ?op" for x y
    by (simp add: deployment_of_def)
  show ?thesis
  proof (cases ?go)
    case True
    with assms have "s' = put_deployment ?op (deployed now ?op (pv_id p) (po_created_by opts) ''activate new profile version'' st s)
        (with_profile p s)"
      unfolding p put_deployment_def with_profile_def rebuild_positive_after
      by (simp add: promote_def chk Let_def new dep deployed_def pf cong: if_cong)
    with facts out new p show ?thesis by (intro live [of st "po_created_by opts"]) auto
  next
    case False
    with assms have "s' = with_profile p s"
      unfolding p with_profile_def by (simp add: promote_def chk Let_def new dep pf cong: if_cong)
    with facts out new p show ?thesis by (intro kept) auto
  qed
qed

lemma promote_refused: "promote env now c op opts s = (Inl e, s') \<Longrightarrow> s' = s"
  by (auto simp: promote_def Let_def split: sum.splits if_splits)

definition remoded :: "gtime \<Rightarrow> gql_mode \<Rightarrow> string \<Rightarrow> string \<Rightarrow> int \<Rightarrow> positive_deployment \<Rightarrow> positive_deployment" where
  "remoded now m who reason st d =
     (if pd_mode d \<noteq> m \<or> pd_status d \<noteq> st then push_history who reason d else d)
       \<lparr>pd_mode := m, pd_status := st, pd_updated_at := now, pd_updated_by := trim_space who\<rparr>"

lemma set_mode_cases:
  assumes "set_positive_mode now op mode who reason code s = (Inr d', s')"
  obtains m st d where "parse_mode (to_upper (trim_space mode)) = Some m" and "st \<in> {400, 403, 422}"
    and "gm_get (ps_deployments s) op = Some d" and "mode_transition (pd_mode d) m" and "m = Enforce \<Longrightarrow> pd_mode d = Detect"
    and "d' = remoded now m who reason st d" and "s' = put_deployment op d' s"
proof -
  have remoded: "(if pd_mode d \<noteq> m \<or> pd_status d \<noteq> st then push_history who reason d else d)
      \<lparr>pd_mode := m, pd_status := st, pd_updated_at := now, pd_updated_by := trim_space who\<rparr> = remoded now m who reason st d"
    for m st d by (simp add: remoded_def)
  from assms obtain m st where m: "parse_mode (to_upper (trim_space mode)) = Some m" "normalize_status code = Some st"
    by (auto simp: set_positive_mode_def split: option.splits)
  from assms m obtain d where d: "gm_get (ps_deployments s) op = Some d"
    by (auto simp: set_positive_mode_def split: option.splits)
  from assms have "mode_transition (pd_mode d) m \<and> (m = Enforce \<longrightarrow> pd_mode d = Detect) \<and>
      d' = remoded now m who reason st d \<and> s' = put_deployment op d' s"
    unfolding set_positive_mode_def m d option.case Let_def remoded put_deployment_def by (auto split: if_splits)
  with m(1) normalize_status_range [OF m(2)] d show ?thesis by (intro that [of m st d]) auto
qed

lemma set_mode_refused: "set_positive_mode now op mode who reason code s = (Inl e, s') \<Longrightarrow> s' = s"
  by (auto simp: set_positive_mode_def Let_def split: option.splits if_splits)

lemma activate_cases:
  assumes "activate now op pid who reason s = (Inr d', s')"
  obtains "profile_of s op pid"
    and "d' = deployed now op pid who reason
      (if pd_status (deployment_of s op) = 0 then 400 else pd_status (deployment_of s op)) s"
    and "s' = put_deployment op d' s"
  using assms unfolding activate_def put_deployment_def
  by (cases "pd_operation (deployment_of s op) = []") (auto simp: Let_def deployed_def profile_of_def split: option.splits if_splits)

lemma activate_refused: "activate now op pid who reason s = (Inl e, s') \<Longrightarrow> s' = s"
  by (auto simp: activate_def Let_def split: option.splits if_splits)

lemma rollback_cases:
  assumes "rollback now op who reason s = (Inr d', s')"
  obtains d where "gm_get (ps_deployments s) op = Some d" and "pd_history d \<noteq> []"
    and "d' = restored now who reason (last (pd_history d)) (d\<lparr>pd_history := butlast (pd_history d)\<rparr>)"
    and "s' = put_deployment op d' s"
  using assms unfolding rollback_def put_deployment_def by (auto simp: Let_def split: option.splits if_splits)

lemma rollback_refused: "rollback now op who reason s = (Inl e, s') \<Longrightarrow> s' = s"
  by (auto simp: rollback_def Let_def split: option.splits if_splits)

lemma last_n_snoc: "length xs < n \<Longrightarrow> last_n n (xs @ [x]) = xs @ [x]"
  by (simp add: last_n_def)

lemma restored_short:
  assumes "length (pd_history d) < max_positive_history" and "rv_profile prev \<noteq> []"
  shows "restored now who reason prev d = d\<lparr>pd_profile := rv_profile prev, pd_mode := rv_mode prev,
    pd_status := rv_status prev, pd_updated_at := now, pd_updated_by := trim_space who\<rparr>"
  using assms by (simp add: restored_def Let_def push_history_def last_n_snoc)

lemma restored_fields [simp]:
  "pd_profile (restored now who reason prev d) = rv_profile prev" "pd_mode (restored now who reason prev d) = rv_mode prev"
  "pd_status (restored now who reason prev d) = rv_status prev" "pd_operation (restored now who reason prev d) = pd_operation d"
  by (simp_all add: restored_def Let_def)

lemma restored_history:
  assumes "length (pd_history d) < max_positive_history"
  shows "set (pd_history (restored now who reason prev d)) \<subseteq> set (pd_history d) \<and>
    length (pd_history (restored now who reason prev d)) \<le> length (pd_history d)"
  using assms by (auto simp: restored_def Let_def push_history_def last_n_snoc dest: in_set_butlastD)

lemma add_exception_cases:
  assumes "add_exception env now now2 req s = (Inr x, s')"
  obtains "length (ps_exceptions s) < max_positive_exceptions" and "gm_has (ps_deployments s) (px_operation x)"
    and "px_enabled x" and "s' = rebuild_positive (s\<lparr>ps_exceptions := gm_put (px_id x) x (ps_exceptions s)\<rparr>)"
  using assms unfolding add_exception_def by (auto simp: Let_def split: option.splits if_splits)

lemma add_exception_refused: "add_exception env now now2 req s = (Inl e, s') \<Longrightarrow> s' = s"
  by (auto simp: add_exception_def Let_def split: option.splits if_splits)

lemma toggle_cases:
  obtains (gone) "snd (set_exception_enabled xid b s) = s"
  | (set) x where "gm_get (ps_exceptions s) xid = Some x"
      and "snd (set_exception_enabled xid b s) =
        rebuild_positive (s\<lparr>ps_exceptions := gm_put xid (x\<lparr>px_enabled := b\<rparr>) (ps_exceptions s)\<rparr>)"
  by (cases "gm_get (ps_exceptions s) xid") (auto simp: set_exception_enabled_def Let_def)

text \<open>Recording touches the violations and the sequence number only.\<close>

definition same_policy :: "positive_store \<Rightarrow> positive_store \<Rightarrow> bool" where
  "same_policy s s' \<longleftrightarrow> s' = s\<lparr>ps_sequence := ps_sequence s', ps_violations := ps_violations s'\<rparr>"

lemma same_policy_refl: "same_policy s s"
  by (simp add: same_policy_def)

lemma same_policy_fields:
  assumes "same_policy s s'"
  shows "ps_profiles s' = ps_profiles s" "ps_deployments s' = ps_deployments s" "ps_exceptions s' = ps_exceptions s"
    "ps_runtime s' = ps_runtime s" "ps_versions s' = ps_versions s"
  using arg_cong [OF assms [unfolded same_policy_def], of ps_profiles] arg_cong [OF assms [unfolded same_policy_def], of ps_deployments]
    arg_cong [OF assms [unfolded same_policy_def], of ps_exceptions] arg_cong [OF assms [unfolded same_policy_def], of ps_runtime]
    arg_cong [OF assms [unfolded same_policy_def], of ps_versions] by simp_all

lemma same_policyI:
  assumes "ps_profiles s' = ps_profiles s" "ps_deployments s' = ps_deployments s" "ps_exceptions s' = ps_exceptions s"
    "ps_runtime s' = ps_runtime s" "ps_versions s' = ps_versions s"
  shows "same_policy s s'"
  using assms unfolding same_policy_def by (intro positive_store.equality) simp_all

lemma record_one_same: "same_policy s (record_one env now v s)"
  by (simp add: same_policyI record_one_def Let_def)

lemma same_policy_trans: "same_policy s s' \<Longrightarrow> same_policy s' s'' \<Longrightarrow> same_policy s s''"
  by (rule same_policyI) (simp_all add: same_policy_fields)

lemma record_all_same: "same_policy s (fold (record_one env now) vs s)"
  by (induction vs arbitrary: s) (auto intro: same_policy_refl same_policy_trans record_one_same)

lemma record_positive_same: "same_policy s (record_positive env now vs s)"
  using record_all_same [of s env now vs] by (auto simp: record_positive_def Let_def same_policy_refl intro!: same_policyI
      dest: same_policy_fields)

lemma judge_same: "same_policy s (snd (wrap_positive env now now2 now3 op q rt s))"
  by (simp add: wrap_positive_def Let_def same_policy_refl record_positive_same split: option.splits)

section \<open>The invariant\<close>

lemma put_deployment_simps [simp]:
  "ps_profiles (put_deployment op d s) = ps_profiles s" "ps_deployments (put_deployment op d s) = gm_put op d (ps_deployments s)"
  "ps_exceptions (put_deployment op d s) = ps_exceptions s" "ps_violations (put_deployment op d s) = ps_violations s"
  by (simp_all add: put_deployment_def)

lemma with_profile_simps [simp]:
  "ps_profiles (with_profile p s) = gm_put (pv_id p) p (ps_profiles s)" "ps_deployments (with_profile p s) = ps_deployments s"
  "ps_exceptions (with_profile p s) = ps_exceptions s" "ps_violations (with_profile p s) = ps_violations s"
  by (simp_all add: with_profile_def)

lemma put_ok: "positive_ok s \<Longrightarrow> deployment_ok s op d \<Longrightarrow> positive_ok (put_deployment op d s)"
  unfolding put_deployment_def by (rule put_deployment_ok)

lemma deployed_ok:
  assumes "positive_ok s" and "profile_of s' op pid" and "op \<noteq> []" and "st \<in> {400, 403, 422}"
    and "\<And>d. deployment_ok s op d \<Longrightarrow> deployment_ok s' op d"
  shows "deployment_ok s' op (deployed now op pid who reason st s)"
  by (cases rule: deployment_of_cases [OF assms(1), of op])
    (simp_all add: deployed_def activated_ok activated_zero_ok push_history_ok assms del: insert_iff)

lemma promote_ok:
  assumes "positive_ok s"
  shows "positive_ok (snd (promote env now c op opts s))"
proof (cases "promote env now c op opts s")
  case (Pair r s')
  show ?thesis
  proof (cases r)
    case (Inl e)
    with Pair assms promote_refused [of env now c op opts s e s'] show ?thesis by simp
  next
    case (Inr pd)
    obtain p d where pd: "pd = (p, d)" by force
    note eq = Pair [unfolded Inr pd]
    have w: "positive_ok (with_profile p s)" if "\<not> gm_has (ps_profiles s) (pv_id p)" and "pv_operation p \<noteq> []"
      unfolding with_profile_def using assms that by (rule add_profile_ok)
    have mono: "deployment_ok (with_profile p s) k d" if "\<not> gm_has (ps_profiles s) (pv_id p)" and "deployment_ok s k d" for k d
      using that(2) profile_added [OF that(1)] unfolding with_profile_def deployment_ok_same
      by (rule deployment_ok_mono) (simp add: profile_of_def)
    from eq show ?thesis
    proof (cases rule: promote_cases)
      case kept
      with w eq show ?thesis by simp
    next
      case (live st who)
      have "profile_of (with_profile p s) (sc_operation c) (pv_id p)" using live by (simp add: profile_of_def gm_get_put)
      with live mono have "deployment_ok (with_profile p s) (sc_operation c)
          (deployed now (sc_operation c) (pv_id p) who ''activate new profile version'' st s)"
        by (intro deployed_ok [OF assms]) auto
      with live w eq show ?thesis by (simp add: put_ok)
    qed
  qed
qed

lemma remoded_ok: "deployment_ok s op d \<Longrightarrow> st \<in> {400, 403, 422} \<Longrightarrow> deployment_ok s op (remoded now m who reason st d)"
  using push_history_ok [of s op d who reason] by (auto simp: remoded_def deployment_ok_def)

lemma set_positive_mode_ok:
  assumes "positive_ok s" shows "positive_ok (snd (set_positive_mode now op mode who reason code s))"
proof (cases "set_positive_mode now op mode who reason code s")
  case (Pair r s')
  then show ?thesis
  proof (cases r)
    case (Inl e)
    with Pair assms set_mode_refused [of now op mode who reason code s e s'] show ?thesis by simp
  next
    case (Inr d')
    from Pair [unfolded Inr] show ?thesis
      by (rule set_mode_cases) (simp add: Pair Inr put_ok remoded_ok assms
          positive_ok_deployment del: insert_iff)
  qed
qed

lemma activate_ok:
  assumes "positive_ok s" shows "positive_ok (snd (activate now op pid who reason s))"
proof (cases "activate now op pid who reason s")
  case (Pair r s')
  show ?thesis
  proof (cases r)
    case (Inl e)
    with Pair assms activate_refused [of now op pid who reason s e s'] show ?thesis by simp
  next
    case (Inr d')
    have st: "(if pd_status (deployment_of s op) = 0 then 400 else pd_status (deployment_of s op)) \<in> {400, 403, 422}"
      by (cases rule: deployment_of_cases [OF assms, of op]) (auto simp: deployment_ok_def)
    from Pair [unfolded Inr] show ?thesis
    proof (cases rule: activate_cases)
      case 1
      from 1(1) assms have "op \<noteq> []" by (auto simp: profile_of_def positive_ok_def dest: gm_all_get)
      with 1 st show ?thesis by (simp add: Pair Inr put_ok deployed_ok assms del: insert_iff)
    qed
  qed
qed

lemma restored_ok:
  assumes "deployment_ok s op d" and "pd_history d \<noteq> []"
  shows "deployment_ok s op (restored now who reason (last (pd_history d)) (d\<lparr>pd_history := butlast (pd_history d)\<rparr>))"
proof -
  let ?d = "d\<lparr>pd_history := butlast (pd_history d)\<rparr>"
  have "length (pd_history ?d) < max_positive_history" using assms
    by (cases "pd_history d") (simp_all add: deployment_ok_def)
  note h = restored_history [OF this, of now who reason "last (pd_history d)"]
  have last: "last (pd_history d) \<in> set (pd_history d)" using assms(2) by simp
  have sub: "set (pd_history (restored now who reason (last (pd_history d)) ?d)) \<subseteq> set (pd_history d)"
  proof
    fix x
    assume "x \<in> set (pd_history (restored now who reason (last (pd_history d)) ?d))"
    with h have "x \<in> set (butlast (pd_history d))" by (simp add: subset_iff)
    then show "x \<in> set (pd_history d)" by (rule in_set_butlastD)
  qed
  have len: "length (pd_history (restored now who reason (last (pd_history d)) ?d)) \<le> length (pd_history d)"
    using conjunct2 [OF h] by simp
  from assms(1) last sub len show ?thesis by (auto simp: deployment_ok_def)
qed

lemma rollback_ok:
  assumes "positive_ok s" shows "positive_ok (snd (rollback now op who reason s))"
proof (cases "rollback now op who reason s")
  case (Pair r s')
  show ?thesis
  proof (cases r)
    case (Inl e)
    with Pair assms rollback_refused [of now op who reason s e s'] show ?thesis by simp
  next
    case (Inr d')
    from Pair [unfolded Inr] show ?thesis
      by (rule rollback_cases) (simp add: Pair Inr put_ok restored_ok assms positive_ok_deployment)
  qed
qed

lemma put_exception_ok:
  assumes "positive_ok s" and "length (ps_exceptions s) < max_positive_exceptions \<or> gm_has (ps_exceptions s) k"
  shows "positive_ok (rebuild_positive (s\<lparr>ps_exceptions := gm_put k x (ps_exceptions s)\<rparr>))"
  using assms by (auto simp: positive_ok_def length_gm_put)

lemma add_exception_ok:
  assumes "positive_ok s" shows "positive_ok (snd (add_exception env now now2 x s))"
proof (cases "add_exception env now now2 x s")
  case (Pair r s')
  show ?thesis
  proof (cases r)
    case (Inl e)
    with Pair assms add_exception_refused [of env now now2 x s e s'] show ?thesis by simp
  next
    case (Inr y)
    from Pair [unfolded Inr] show ?thesis by (rule add_exception_cases) (simp add: Pair Inr put_exception_ok assms)
  qed
qed

lemma toggle_ok: "positive_ok s \<Longrightarrow> positive_ok (snd (set_exception_enabled xid b s))"
  by (rule toggle_cases [of xid b s]) (simp_all add: put_exception_ok gm_has_def)

lemma same_policy_ok:
  assumes "same_policy s s'" and "positive_ok s" and "length (ps_violations s') \<le> max_positive_violations"
  shows "positive_ok s'"
proof -
  note f = same_policy_fields [OF assms(1)]
  have "profile_of s' = profile_of s" by (simp add: profile_of_def fun_eq_iff f)
  then have d: "deployment_ok s' = deployment_ok s" by (simp add: deployment_ok_def fun_eq_iff)
  have "runtime_of s' = runtime_of s" by (intro ext runtime_of_cong) (simp_all add: f)
  then have "ps_runtime (rebuild_positive s') = ps_runtime (rebuild_positive s)" by (simp add: rebuild_positive_def f)
  with assms(2) f(4) have "ps_runtime (rebuild_positive s') = ps_runtime s'" by (simp add: positive_ok_def fresh_runtime_def)
  then have "fresh_runtime s'" unfolding fresh_runtime_def by (intro positive_store.equality) simp_all
  with assms(2,3) f d show ?thesis by (simp add: positive_ok_def)
qed

lemma record_positive_bound:
  "length (ps_violations s) \<le> max_positive_violations \<Longrightarrow> length (ps_violations (record_positive env now vs s)) \<le> max_positive_violations"
  by (simp add: record_positive_def Let_def length_last_n_le)

lemma judge_ok:
  assumes "positive_ok s" shows "positive_ok (snd (wrap_positive env now now2 now3 op q rt s))"
proof (rule same_policy_ok [OF judge_same assms])
  from assms have "length (ps_violations s) \<le> max_positive_violations" by (simp add: positive_ok_def)
  then show "length (ps_violations (snd (wrap_positive env now now2 now3 op q rt s))) \<le> max_positive_violations"
    by (simp add: wrap_positive_def Let_def record_positive_bound split: option.splits)
qed

lemma new_positive_ok: "positive_ok new_positive_store"
  by (simp add: positive_ok_def new_positive_store_def fresh_runtime_def rebuild_positive_def gm_ok_def)

lemma last_n_short: "length xs \<le> n \<Longrightarrow> last_n n xs = xs"
  by (simp add: last_n_def)

text \<open>A restart keeps profiles, deployments, exceptions and violations. The versions are lost only
  with all of these empty.\<close>

lemma restart_fields:
  assumes "positive_ok s" and "s' = positive_step env Restart_Positive s"
  shows "ps_profiles s' = ps_profiles s" "ps_deployments s' = ps_deployments s" "ps_exceptions s' = ps_exceptions s"
    "ps_violations s' = ps_violations s" "fresh_runtime s'"
proof -
  from assms(1) have v: "last_n max_positive_violations (ps_violations s) = ps_violations s"
    by (simp add: positive_ok_def last_n_short)
  from new_positive_ok have n: "fresh_runtime new_positive_store" by (simp add: positive_ok_def)
  show "ps_profiles s' = ps_profiles s" "ps_deployments s' = ps_deployments s" "ps_exceptions s' = ps_exceptions s"
    "ps_violations s' = ps_violations s" "fresh_runtime s'"
    unfolding assms(2) positive_step_def by (simp_all add: load_positive_def save_positive_def file_size_def file_or_def v n)
      (auto simp: new_positive_store_def)
qed

lemma restart_ok:
  assumes "positive_ok s" shows "positive_ok (positive_step env Restart_Positive s)"
proof -
  let ?s = "positive_step env Restart_Positive s"
  note f = restart_fields [OF assms refl, of env]
  have "profile_of ?s = profile_of s" by (simp add: profile_of_def fun_eq_iff f)
  then have d: "deployment_ok ?s = deployment_ok s" by (simp add: deployment_ok_def fun_eq_iff)
  with assms f show ?thesis by (simp add: positive_ok_def)
qed

lemma positive_step_ok: "positive_ok s \<Longrightarrow> positive_ok (positive_step env e s)"
proof (cases e)
  case Restart_Positive
  assume "positive_ok s"
  with Restart_Positive restart_ok show ?thesis by simp
qed (simp_all add: positive_step_def promote_ok set_positive_mode_ok activate_ok rollback_ok add_exception_ok toggle_ok judge_ok)

interpretation positive_machine: invariant_machine "positive_step env" positive_ok for env
  by unfold_locales (rule positive_step_ok)

end
