(* ===== verification/Positive_Trace.thy ===== *)
theory Positive_Trace
  imports Positive_Machine
begin

text \<open>
  What a history of operations on the positive schema store leads to: who put an enforced profile
  there and what was approved, what a rollback brings back, which requests are refused, and that
  exceptions are for ever.
\<close>

definition positive_run :: "schema_env \<Rightarrow> positive_event list \<Rightarrow> positive_store" where
  "positive_run env es = run_machine (positive_step env) es new_positive_store"

lemma positive_run_Nil [simp]: "positive_run env [] = new_positive_store"
  by (simp add: positive_run_def)

lemma positive_run_snoc [simp]: "positive_run env (es @ [e]) = positive_step env e (positive_run env es)"
  by (simp add: positive_run_def run_machine_append)

lemma positive_run_ok: "positive_ok (positive_run env es)"
  unfolding positive_run_def by (rule positive_machine.inv_run [OF new_positive_ok])

lemma positive_runtime:
  assumes "positive_ok s" and "gm_get (ps_runtime s) op = Some r"
  obtains d p where "gm_get (ps_deployments s) op = Some d" and "gm_get (ps_profiles s) (pd_profile d) = Some p"
    and "pr_deployment r = d" and "pr_profile r = p" and "pr_index r = field_index (pv_fields p)"
    and "set (pr_exceptions r) = {x \<in> set (gm_values (ps_exceptions s)). px_operation x = op \<and> px_enabled x}"
    and "pv_id p = pd_profile d" and "pv_operation p = op"
proof -
  have f: "fresh_runtime s" "gm_ok (ps_deployments s)" using assms(1) by (simp_all add: positive_ok_def)
  from assms(2) obtain d where d: "gm_get (ps_deployments s) op = Some d" and r: "runtime_of s op d = Some r"
    by (auto simp: runtime_get [OF f] split: option.splits)
  from r obtain p where p: "gm_get (ps_profiles s) (pd_profile d) = Some p" by (auto simp: runtime_of_def split: option.splits)
  from positive_ok_deployment [OF assms(1) d] p have "pv_operation p = op" by (auto simp: deployment_ok_def profile_of_def)
  moreover from assms(1) p have "pv_id p = pd_profile d" by (auto simp: positive_ok_def dest: gm_all_get)
  moreover from r p have "pr_deployment r = d" "pr_profile r = p" "pr_index r = field_index (pv_fields p)"
    "pr_exceptions r = sort_by (\<lambda>a b. px_id a < px_id b) (filter (\<lambda>x. px_operation x = op \<and> px_enabled x) (gm_values (ps_exceptions s)))"
    by (auto simp: runtime_of_def)
  ultimately show ?thesis by (intro that [OF d p]) (auto simp: image_iff)
qed

lemma positive_runtime_some:
  assumes "positive_ok s" and "gm_get (ps_deployments s) op = Some d"
  obtains r where "gm_get (ps_runtime s) op = Some r" and "pr_deployment r = d"
proof -
  have f: "fresh_runtime s" "gm_ok (ps_deployments s)" using assms(1) by (simp_all add: positive_ok_def)
  from positive_ok_deployment [OF assms] obtain p where "gm_get (ps_profiles s) (pd_profile d) = Some p"
    by (auto simp: deployment_ok_def profile_of_def)
  then have "\<exists>r. runtime_of s op d = Some r \<and> pr_deployment r = d" by (simp add: runtime_of_def)
  with assms(2) show ?thesis by (auto simp: runtime_get [OF f] intro: that)
qed

section \<open>How a profile comes to be enforced\<close>

text \<open>A profile is held in a mode when it is deployed in it, or a rollback can bring it back there.\<close>

definition held :: "positive_store \<Rightarrow> string \<Rightarrow> string \<Rightarrow> gql_mode \<Rightarrow> bool" where
  "held s op pid m \<longleftrightarrow> (\<exists>d. gm_get (ps_deployments s) op = Some d \<and>
     ((pd_profile d = pid \<and> pd_mode d = m) \<or> (\<exists>r \<in> set (pd_history d). rv_profile r = pid \<and> rv_mode r = m)))"

lemma held_same: "ps_deployments s' = ps_deployments s \<Longrightarrow> held s' op pid m = held s op pid m"
  by (simp add: held_def)

lemma held_put:
  "held (put_deployment k d s) op pid m \<longleftrightarrow>
   (if op = k then (pd_profile d = pid \<and> pd_mode d = m) \<or> (\<exists>r \<in> set (pd_history d). rv_profile r = pid \<and> rv_mode r = m)
    else held s op pid m)"
  by (auto simp: held_def gm_get_put)

lemma pushed_revision:
  assumes "r \<in> set (pd_history (push_history who reason d))" and "rv_profile r = pid" and "rv_mode r = m"
  shows "(pd_profile d = pid \<and> pd_mode d = m) \<or> (\<exists>r \<in> set (pd_history d). rv_profile r = pid \<and> rv_mode r = m)"
  using assms push_history_set [of who reason d] by (auto simp: revision_of_def)

lemma held_deployed:
  assumes "positive_ok s" and "held (put_deployment k (deployed now k pid' who reason st s) s') op pid Enforce"
    and "ps_deployments s' = ps_deployments s"
  shows "held s op pid Enforce"
proof (cases "op = k")
  case False
  with assms(2,3) held_same [of s' s] show ?thesis by (simp add: held_put)
next
  case True
  with assms(2) obtain r where r: "r \<in> set (pd_history (deployed now k pid' who reason st s))" "rv_profile r = pid" "rv_mode r = Enforce"
    by (auto simp: held_put deployed_def activated_def)
  from assms(1) show ?thesis
  proof (cases rule: deployment_of_cases [where op = k])
    case none
    with r show ?thesis by (simp add: deployed_def activated_def)
  next
    case (some d)
    with r have "r \<in> set (pd_history (push_history who reason d))" by (simp add: deployed_def activated_def)
    from pushed_revision [OF this r(2,3)] some True show ?thesis by (auto simp: held_def)
  qed
qed

lemma held_remoded:
  assumes "gm_get (ps_deployments s) k = Some d" and "held (put_deployment k (remoded now m who reason st d) s) op pid Enforce"
  shows "held s op pid Enforce \<or> (op = k \<and> m = Enforce \<and> pd_profile d = pid)"
proof (cases "op = k")
  case False
  with assms(2) show ?thesis by (simp add: held_put)
next
  case True
  from assms(2) True consider "m = Enforce" "pd_profile d = pid"
    | r where "r \<in> set (pd_history (remoded now m who reason st d))" "rv_profile r = pid" "rv_mode r = Enforce"
    by (auto simp: held_put remoded_def)
  then show ?thesis
  proof cases
    case 2
    from 2(1) have "r \<in> set (pd_history d) \<or> r \<in> set (pd_history (push_history who reason d))"
      by (auto simp: remoded_def split: if_splits)
    with pushed_revision [OF _ 2(2,3), of who reason d] 2(2,3) assms(1) True show ?thesis unfolding held_def by blast
  qed (simp add: True)
qed

lemma held_restored:
  assumes "positive_ok s" and "gm_get (ps_deployments s) k = Some d" and "pd_history d \<noteq> []"
    and "held (put_deployment k (restored now who reason (last (pd_history d)) (d\<lparr>pd_history := butlast (pd_history d)\<rparr>)) s) op pid m"
  shows "held s op pid m"
proof (cases "op = k")
  case False
  with assms(4) show ?thesis by (simp add: held_put)
next
  case True
  let ?d = "d\<lparr>pd_history := butlast (pd_history d)\<rparr>"
  from positive_ok_deployment [OF assms(1,2)] assms(3) have "length (pd_history ?d) < max_positive_history"
    by (cases "pd_history d") (simp_all add: deployment_ok_def)
  from restored_history [OF this, of now who reason "last (pd_history d)"]
  have "r \<in> set (pd_history d)" if "r \<in> set (pd_history (restored now who reason (last (pd_history d)) ?d))" for r
    using that by (auto dest: in_set_butlastD)
  with assms(4) True consider "rv_profile (last (pd_history d)) = pid" "rv_mode (last (pd_history d)) = m"
    | r where "r \<in> set (pd_history d)" "rv_profile r = pid" "rv_mode r = m" unfolding held_put by auto
  then show ?thesis using assms(2) True last_in_set [OF assms(3)] unfolding held_def by cases blast+
qed

lemma held_step:
  assumes "positive_ok s" and "held (positive_step env e s) op pid Enforce"
  shows "held s op pid Enforce \<or> (\<exists>now mode who reason code d. e = Change_Positive_Mode now op mode who reason code \<and>
    parse_mode (to_upper (trim_space mode)) = Some Enforce \<and> gm_get (ps_deployments s) op = Some d \<and>
    pd_profile d = pid \<and> pd_mode d = Detect)"
proof (cases e)
  case (Promote now c v opts)
  show ?thesis
  proof (cases "promote env now c v opts s")
    case (Pair res s')
    with assms(2) Promote have h: "held s' op pid Enforce" by (simp add: positive_step_def)
    show ?thesis
    proof (cases res)
      case (Inl e)
      with Pair h promote_refused [of env now c v opts s e s'] show ?thesis by simp
    next
      case (Inr pd)
      obtain p d where "pd = (p, d)" by force
      from Pair [unfolded Inr this] show ?thesis
      proof (cases rule: promote_cases)
        case kept
        with h held_same [of s' s] show ?thesis by simp
      next
        case (live st who)
        from h [unfolded live(9)] have "held s op pid Enforce" by (rule held_deployed [OF assms(1)]) simp
        then show ?thesis ..
      qed
    qed
  qed
next
  case (Change_Positive_Mode now k mode who reason code)
  show ?thesis
  proof (cases "set_positive_mode now k mode who reason code s")
    case (Pair res s')
    with assms(2) Change_Positive_Mode have h: "held s' op pid Enforce" by (simp add: positive_step_def)
    show ?thesis
    proof (cases res)
      case (Inl e)
      with Pair h set_mode_refused [of now k mode who reason code s e s'] show ?thesis by simp
    next
      case (Inr d')
      from Pair [unfolded Inr] show ?thesis
      proof (cases rule: set_mode_cases)
        case (1 m st d)
        from h [unfolded 1(7), unfolded 1(6)] have "held s op pid Enforce \<or> (op = k \<and> m = Enforce \<and> pd_profile d = pid)"
          by (rule held_remoded [OF 1(3)])
        with 1 Change_Positive_Mode show ?thesis by auto
      qed
    qed
  qed
next
  case (Activate now k pid' who reason)
  show ?thesis
  proof (cases "activate now k pid' who reason s")
    case (Pair res s')
    with assms(2) Activate have h: "held s' op pid Enforce" by (simp add: positive_step_def)
    show ?thesis
    proof (cases res)
      case (Inl e)
      with Pair h activate_refused [of now k pid' who reason s e s'] show ?thesis by simp
    next
      case (Inr d')
      from Pair [unfolded Inr] show ?thesis
      proof (cases rule: activate_cases)
        case 1
        from h [unfolded 1(3), unfolded 1(2)] have "held s op pid Enforce" by (rule held_deployed [OF assms(1)]) simp
        then show ?thesis ..
      qed
    qed
  qed
next
  case (Roll_Back now k who reason)
  show ?thesis
  proof (cases "rollback now k who reason s")
    case (Pair res s')
    with assms(2) Roll_Back have h: "held s' op pid Enforce" by (simp add: positive_step_def)
    show ?thesis
    proof (cases res)
      case (Inl e)
      with Pair h rollback_refused [of now k who reason s e s'] show ?thesis by simp
    next
      case (Inr d')
      from Pair [unfolded Inr] show ?thesis
      proof (cases rule: rollback_cases)
        case (1 d)
        from h [unfolded 1(4), unfolded 1(3)] have "held s op pid Enforce" by (rule held_restored [OF assms(1) 1(1,2)])
        then show ?thesis ..
      qed
    qed
  qed
next
  case Restart_Positive
  with assms(2) held_same [OF restart_fields(2) [OF assms(1) refl, of env]] show ?thesis by simp
next
  case (Judge_Request now now2 now3 k q)
  from assms(2) held_same [OF same_policy_fields(2) [OF judge_same]] show ?thesis by (simp add: Judge_Request positive_step_def)
qed (use assms(2) held_same in \<open>auto simp: positive_step_def add_exception_def set_exception_enabled_def Let_def
  held_def split: option.splits if_splits\<close>)

definition promotes :: "positive_event \<Rightarrow> positive_profile \<Rightarrow> bool" where
  "promotes e p \<longleftrightarrow> (\<exists>now c op opts. e = Promote now c op opts \<and> approved c \<and> sc_operation c = pv_operation p \<and>
     sc_version c = pv_candidate_version p \<and> pv_fields p = positive_fields c)"

lemma profile_step:
  assumes "positive_ok s" and "gm_get (ps_profiles (positive_step env e s)) pid = Some p"
  shows "gm_get (ps_profiles s) pid = Some p \<or> promotes e p"
proof (cases e)
  case (Promote now c v opts)
  show ?thesis
  proof (cases "promote env now c v opts s")
    case (Pair res s')
    with assms(2) Promote have h: "gm_get (ps_profiles s') pid = Some p" by (simp add: positive_step_def)
    show ?thesis
    proof (cases res)
      case (Inl e)
      with Pair h promote_refused [of env now c v opts s e s'] show ?thesis by simp
    next
      case (Inr pd)
      obtain p' d where "pd = (p', d)" by force
      from Pair [unfolded Inr this] h Promote show ?thesis
        by (cases rule: promote_cases) (auto simp: gm_get_put promotes_def split: if_splits)
    qed
  qed
next
  case (Change_Positive_Mode now k mode who reason code)
  with assms(2) show ?thesis
    by (auto simp: positive_step_def set_positive_mode_def Let_def split: option.splits if_splits)
next
  case Restart_Positive
  with assms(2) restart_fields(1) [OF assms(1) refl, of env] show ?thesis by simp
next
  case (Judge_Request now now2 now3 k q)
  from assms(2) same_policy_fields(1) [OF judge_same, of env now now2 now3 k q "ps_runtime s" s]
  show ?thesis by (simp add: Judge_Request positive_step_def)
qed (use assms(2) in \<open>auto simp: positive_step_def activate_def rollback_def add_exception_def set_exception_enabled_def Let_def
  split: option.splits if_splits\<close>)

lemma held_was_enforced:
  "held (positive_run env es) op pid Enforce \<Longrightarrow>
   \<exists>es1 now mode who reason code es2 d. es = es1 @ Change_Positive_Mode now op mode who reason code # es2 \<and>
     parse_mode (to_upper (trim_space mode)) = Some Enforce \<and>
     gm_get (ps_deployments (positive_run env es1)) op = Some d \<and> pd_profile d = pid \<and> pd_mode d = Detect"
proof (induction es rule: rev_induct)
  case Nil
  then show ?case by (simp add: held_def new_positive_store_def)
next
  case (snoc e es)
  from held_step [OF positive_run_ok snoc.prems [unfolded positive_run_snoc]] show ?case
  proof (elim disjE exE conjE)
    assume "held (positive_run env es) op pid Enforce"
    from snoc.IH [OF this] show ?case by (metis append_assoc append_Cons)
  qed blast
qed

lemma profile_was_promoted:
  "gm_get (ps_profiles (positive_run env es)) pid = Some p \<Longrightarrow> \<exists>e \<in> set es. promotes e p"
proof (induction es rule: rev_induct)
  case Nil
  then show ?case by (simp add: new_positive_store_def)
next
  case (snoc e es)
  from profile_step [OF positive_run_ok snoc.prems [unfolded positive_run_snoc]] snoc.IH show ?case by auto
qed


section \<open>Rollback\<close>

text \<open>What of a deployment decides on requests.\<close>

definition stance :: "positive_deployment \<Rightarrow> string \<times> gql_mode \<times> int" where
  "stance d = (pd_profile d, pd_mode d, pd_status d)"

lemma rollback_pops:
  assumes "positive_ok s" and "gm_get (ps_deployments s) op = Some d" and "pd_history d = h @ [r]"
    and "rv_profile r \<noteq> []"
  shows "\<exists>d2. rollback now op who reason s = (Inr d2, put_deployment op d2 s) \<and>
    stance d2 = (rv_profile r, rv_mode r, rv_status r) \<and> pd_history d2 = h"
proof -
  from positive_ok_deployment [OF assms(1,2)] assms(3) have "profile_of s op (rv_profile r)" and h: "length h < max_positive_history"
    by (auto simp: deployment_ok_def)
  then have p: "gm_has (ps_profiles s) (rv_profile r)" by (auto simp: profile_of_def gm_has_def)
  have "restored now who reason r (d\<lparr>pd_history := h\<rparr>) = d\<lparr>pd_history := h, pd_profile := rv_profile r, pd_mode := rv_mode r,
      pd_status := rv_status r, pd_updated_at := now, pd_updated_by := trim_space who\<rparr>"
    using h assms(4) by (simp add: restored_short)
  then show ?thesis using assms p by (simp add: rollback_def put_deployment_def stance_def Let_def)
qed

lemma last_n_snoc_any: "0 < n \<Longrightarrow> last_n n (xs @ [x]) = last_n (n - 1) xs @ [x]"
  by (auto simp: last_n_def)

text \<open>The answer to a request depends on the deployment through its stance only.\<close>

lemma positive_violation_stance:
  "pd_mode d = pd_mode (pr_deployment r) \<Longrightarrow>
   positive_violation_of now op (r\<lparr>pr_deployment := d\<rparr>) q = positive_violation_of now op r q"
  by (simp add: positive_violation_of_def fun_eq_iff)

lemma validate_stance:
  assumes "pd_mode d = pd_mode (pr_deployment r)"
  shows "validate_request now now2 op (r\<lparr>pr_deployment := d\<rparr>) q = validate_request now now2 op r q"
proof -
  note v = positive_violation_stance [OF assms]
  have x: "exempts now2 (r\<lparr>pr_deployment := d\<rparr>) = exempts now2 r" by (simp add: exempts_def fun_eq_iff)
  have "exempt now2 (r\<lparr>pr_deployment := d\<rparr>) = exempt now2 r" by (simp add: exempt_def x fun_eq_iff)
  moreover have "sample_violations now op (r\<lparr>pr_deployment := d\<rparr>) q = sample_violations now op r q"
    by (simp add: sample_violations_def v fun_eq_iff)
  moreover have "body_violations now op (r\<lparr>pr_deployment := d\<rparr>) q = body_violations now op r q"
    by (simp add: body_violations_def v)
  moreover have "missing_violations now op (r\<lparr>pr_deployment := d\<rparr>) q = missing_violations now op r q"
    by (simp add: missing_violations_def v)
  ultimately show ?thesis by (simp add: validate_request_def)
qed

lemma answer_stance:
  assumes "positive_ok s" and "gm_get (ps_deployments s) op = Some d" and "stance d2 = stance d"
    and "s2 = put_deployment op d2 s'" and "ps_profiles s' = ps_profiles s" and "ps_exceptions s' = ps_exceptions s"
    and "positive_ok s2"
  shows "fst (wrap_positive env t1 t2 t3 op q (ps_runtime s2) st) = fst (wrap_positive env t1 t2 t3 op q (ps_runtime s) st)"
proof -
  have f: "fresh_runtime s" "gm_ok (ps_deployments s)" "fresh_runtime s2" "gm_ok (ps_deployments s2)"
    using assms(1,7) by (simp_all add: positive_ok_def)
  from assms(2) have r: "gm_get (ps_runtime s) op = runtime_of s op d" by (simp add: runtime_get [OF f(1,2)])
  have "runtime_of s2 op d2 = runtime_of s op d2" by (rule runtime_of_cong) (simp_all add: assms(4-6))
  then have r2: "gm_get (ps_runtime s2) op = runtime_of s op d2"
    unfolding runtime_get [OF f(3,4)] by (simp add: assms(4) gm_get_put)
  have d2: "runtime_of s op d2 = map_option (\<lambda>r. r\<lparr>pr_deployment := d2\<rparr>) (runtime_of s op d)"
    using assms(3) by (simp add: runtime_of_def stance_def split: option.splits)
  show ?thesis
  proof (cases "runtime_of s op d")
    case None
    with r r2 d2 show ?thesis by (simp add: wrap_positive_def)
  next
    case (Some rt)
    then have dep: "pr_deployment rt = d" by (auto simp: runtime_of_def split: option.splits)
    with assms(3) have "pd_mode d2 = pd_mode (pr_deployment rt)" by (simp add: stance_def)
    note v = validate_stance [OF this]
    from assms(3) have st: "pd_mode d2 = pd_mode d" "pd_status d2 = pd_status d" by (simp_all add: stance_def)
    from r r2 d2 Some show ?thesis by (simp add: wrap_positive_def Let_def v dep st)
  qed
qed

lemma pushed_history:
  "pd_profile d \<noteq> [] \<Longrightarrow> pd_history (push_history who reason d) = last_n 31 (pd_history d) @ [revision_of who reason d]"
  by (simp add: push_history_def revision_of_def max_positive_history_def last_n_snoc_any)

text \<open>C35: A rollback undoes the last change of a deployment: after a change of mode or block status, or the
  activation of another version, it brings back the profile, the mode and the block status there were
  and the stack of earlier states (but the oldest, once there are 32), and every request of the operation
  is answered as before the change.\<close>

theorem rollback_undoes:
  assumes "s = positive_run env es" and "gm_get (ps_deployments s) op = Some d" and "pd_profile d \<noteq> []"
    and "set_positive_mode now op mode who reason code s = (Inr d1, s1) \<and> stance d1 \<noteq> stance d \<or>
      activate now op pid who reason s = (Inr d1, s1)"
  shows "\<exists>d2 s2. rollback now2 op who2 reason2 s1 = (Inr d2, s2) \<and> stance d2 = stance d \<and>
    pd_history d2 = last_n 31 (pd_history d) \<and>
    (\<forall>t1 t2 t3 q st. fst (wrap_positive env t1 t2 t3 op q (ps_runtime s2) st) =
      fst (wrap_positive env t1 t2 t3 op q (ps_runtime s) st))"
proof -
  have ok: "positive_ok s" unfolding assms(1) by (rule positive_run_ok)
  from assms(4) have s1: "s1 = put_deployment op d1 s \<and> pd_history d1 = pd_history (push_history who reason d)"
  proof
    assume a: "set_positive_mode now op mode who reason code s = (Inr d1, s1) \<and> stance d1 \<noteq> stance d"
    then show ?thesis
    proof (cases rule: set_mode_cases [OF conjunct1 [OF a]])
      case (1 m st d')
      with assms(2) a show ?thesis by (auto simp: remoded_def stance_def)
    qed
  next
    assume "activate now op pid who reason s = (Inr d1, s1)"
    then show ?thesis
    proof (cases rule: activate_cases)
      case 1
      have "pd_operation d \<noteq> []" using positive_ok_deployment [OF ok assms(2)] by (auto simp: deployment_ok_def)
      with 1 assms(2) show ?thesis by (simp add: deployed_def activated_def deployment_of_def)
    qed
  qed
  have ok1: "positive_ok s1" using assms(4) set_positive_mode_ok [OF ok] activate_ok [OF ok] by (metis snd_conv)
  have "pd_history d1 = last_n 31 (pd_history d) @ [revision_of who reason d]"
    using s1 pushed_history [OF assms(3)] by simp
  moreover have "gm_get (ps_deployments s1) op = Some d1" using s1 by (simp add: gm_get_put)
  moreover have "rv_profile (revision_of who reason d) \<noteq> []" using assms(3) by (simp add: revision_of_def)
  ultimately obtain d2 where d2: "rollback now2 op who2 reason2 s1 = (Inr d2, put_deployment op d2 s1)"
      "stance d2 = (rv_profile (revision_of who reason d), rv_mode (revision_of who reason d), rv_status (revision_of who reason d))"
      "pd_history d2 = last_n 31 (pd_history d)"
    using rollback_pops [OF ok1] by metis
  then have st: "stance d2 = stance d" by (simp add: revision_of_def stance_def)
  have "positive_ok (put_deployment op d2 s1)" using rollback_ok [OF ok1, of now2 op who2 reason2] d2(1) by simp
  with answer_stance [OF ok assms(2) st refl, of s1] s1 d2 st show ?thesis by auto
qed

section \<open>Which requests are refused\<close>

definition lapsed :: "gtime \<Rightarrow> string \<Rightarrow> positive_exception \<Rightarrow> bool" where
  "lapsed now pid x \<longleftrightarrow> \<not> px_enabled x \<or> (\<exists>t. px_expires_at x = Some t \<and> t \<le> now) \<or> (px_profile x \<noteq> [] \<and> px_profile x \<noteq> pid)"

lemma lapsed_exempts: "lapsed now (pv_id (pr_profile r)) x \<Longrightarrow> \<not> exempts now r v x"
  by (auto simp: lapsed_def exempts_def)

lemma exempt_lapsed:
  assumes "\<forall>x \<in> set (pr_exceptions r). lapsed now (pv_id (pr_profile r)) x"
  shows "exempt now r v = v"
proof -
  have "find (exempts now r v) (pr_exceptions r) = None"
    using assms by (auto simp: find_None_iff dest: lapsed_exempts)
  then show ?thesis by (simp add: exempt_def)
qed

lemma new_not_exempted: "\<not> pn_exempted (positive_violation_of now op r q ty loc path expd obs)"
  by (simp add: positive_violation_of_def)

lemma raw_not_exempted:
  assumes "v \<in> set (body_violations now op r q @ concat (map (sample_violations now op r q) (pq_samples q)) @ missing_violations now op r q)"
  shows "\<not> pn_exempted v"
proof -
  have "\<not> pn_exempted v" if "v \<in> set (body_violations now op r q)"
    using that by (auto simp: body_violations_def Let_def new_not_exempted split: if_splits)
  moreover have "\<not> pn_exempted v" if "v \<in> set (sample_violations now op r q x)" for x
    using that by (auto simp: sample_violations_def Let_def new_not_exempted split: if_splits option.splits)
  moreover have "\<not> pn_exempted v" if "v \<in> set (missing_violations now op r q)"
    using that by (auto simp: missing_violations_def Let_def new_not_exempted)
  ultimately show ?thesis using assms by auto
qed

lemma validate_lapsed:
  assumes "\<forall>x \<in> set (pr_exceptions r). lapsed now2 (pv_id (pr_profile r)) x" and "v \<in> set (validate_request now now2 op r q)"
  shows "\<not> pn_exempted v"
proof -
  from assms(2) obtain u where u: "u \<in> set (body_violations now op r q @
      concat (map (sample_violations now op r q) (pq_samples q)) @ missing_violations now op r q)" and "v = exempt now2 r u"
    unfolding validate_request_def set_map by (elim imageE)
  with raw_not_exempted [OF u] exempt_lapsed [OF assms(1)] show ?thesis by simp
qed

lemma enforced_answer:
  assumes ok: "positive_ok s" and "gm_get (ps_deployments s) op = Some d" and "pd_mode d = Enforce"
    and "gm_get (ps_profiles s) (pd_profile d) = Some p"
    and "\<forall>x \<in> set (gm_values (ps_exceptions s)). px_operation x = op \<longrightarrow> lapsed now2 (pd_profile d) x"
  shows "fst (wrap_positive env now now2 now3 op q (ps_runtime s) st) =
    (if conforms p (field_index (pv_fields p)) q then None else Some (pd_status d))"
proof -
  from positive_ok_deployment [OF ok assms(2)] have st: "pd_status d \<noteq> 0" by (auto simp: deployment_ok_def)
  obtain r where rt: "gm_get (ps_runtime s) op = Some r" by (rule positive_runtime_some [OF ok assms(2)])
  from ok rt show ?thesis
  proof (cases rule: positive_runtime)
    case (1 d' p')
    with assms(2,4) have eq: "d' = d" "p' = p" by auto
    let ?vs = "validate_request now now2 op r q"
    have "\<forall>x \<in> set (pr_exceptions r). lapsed now2 (pv_id (pr_profile r)) x" using assms(5) 1 eq by auto
    then have "filter (\<lambda>v. \<not> pn_exempted v) ?vs = ?vs" by (auto intro: filter_True dest: validate_lapsed)
    then have act: "?vs \<noteq> [] \<Longrightarrow> positive_action (pd_mode (pr_deployment r)) ?vs = ''block''"
      using 1 eq assms(3) by (simp add: positive_action_def)
    have "?vs = [] \<longleftrightarrow> conforms p (field_index (pv_fields p)) q" using 1 eq by (simp add: validate_iff_conforms)
    with rt act 1(3) eq st show ?thesis by (simp add: wrap_positive_def Let_def)
  qed
qed

text \<open>C7: A request to an operation under an enforced profile is served exactly when it conforms to the
  profile, and is otherwise refused with the status deployed, unless an exception stands against it: one
  that is disabled, past its time or of another version of the profile exempts nothing.\<close>

theorem profile_enforced:
  assumes "s = positive_run env es" and "gm_get (ps_deployments s) op = Some d" and "pd_mode d = Enforce"
    and "gm_get (ps_profiles s) (pd_profile d) = Some p"
    and "\<forall>x \<in> set (gm_values (ps_exceptions s)). px_operation x = op \<longrightarrow> lapsed now2 (pd_profile d) x"
  shows "fst (wrap_positive env now now2 now3 op q (ps_runtime s) s) =
    (if conforms p (field_index (pv_fields p)) q then None else Some (pd_status d))"
  by (rule enforced_answer [OF positive_run_ok [of env es, folded assms(1)] assms(2-)])

section \<open>Exceptions are for ever\<close>

lemma exceptions_step:
  assumes "positive_ok s"
  shows "length (ps_exceptions s) \<le> length (ps_exceptions (positive_step env e s))"
proof (cases e)
  case (Promote now c op opts)
  then show ?thesis by (simp add: positive_step_def promote_def Let_def split: sum.splits)
next
  case (Change_Positive_Mode now k mode who reason code)
  then show ?thesis by (auto simp: positive_step_def set_positive_mode_def Let_def split: option.splits)
next
  case (Judge_Request now now2 now3 k q)
  then show ?thesis by (simp add: positive_step_def same_policy_fields(3) [OF judge_same])
next
  case Restart_Positive
  with restart_fields(3) [OF assms refl, of env] show ?thesis by simp
qed (auto simp: positive_step_def activate_def rollback_def add_exception_def set_exception_enabled_def Let_def length_gm_put
  split: option.splits)

interpretation positive_exceptions: monotone_machine "positive_step env" positive_ok "\<lambda>s. length (ps_exceptions s)" for env
  by unfold_locales (rule exceptions_step)

text \<open>C40: Nothing takes an exception out of the store, neither disabling nor its expiry nor a restart: once
  2048 have been added in all, no exception can be added any more.\<close>

theorem exceptions_exhaust:
  assumes "positive_ok s" and "length (ps_exceptions s) \<ge> 2048"
  shows "fst (add_exception env now now2 x (run_machine (positive_step env) es' s)) \<noteq> Inr y"
proof -
  let ?s = "run_machine (positive_step env) es' s"
  from positive_exceptions.gauge_run [OF assms(1), of env es'] assms(2) have "\<not> length (ps_exceptions ?s) < max_positive_exceptions"
    by (simp add: max_positive_exceptions_def)
  then show ?thesis by (metis add_exception_cases prod.collapse)
qed

end
