(* ===== verification/Positive_Witness.thy ===== *)
theory Positive_Witness
  imports Positive_Trace
begin

text \<open>
  The properties of the positive schema store at a concrete history: a candidate is promoted, its
  profile put into DETECT and then into ENFORCE. The digest is instantiated with the text it is
  taken of.
\<close>

definition field_env :: schema_env where
  "field_env = \<lparr>se_hash16 = (\<lambda>x. x), se_time_text = (\<lambda>t. [])\<rparr>"

definition page_candidate :: schema_candidate where
  "page_candidate = \<lparr>sc_id = ''c'', sc_operation = ''op'', sc_status = ''REVIEWED'', sc_confidence = 1, sc_samples = 20,
     sc_fields = [\<lparr>cf_path = ''page'', cf_location = ''query'', cf_type_counts = [(''integer'', 20)], cf_types = [],
       cf_formats = [], cf_samples = 20, cf_presence = 1, cf_cardinality = 1, cf_required = True, cf_enum = [],
       cf_sensitive = False\<rparr>],
     sc_review = Some \<lparr>rv_recommendation = ''approved'', rv_confidence = 100, rv_reason = [], rv_reviewed_at = 5,
       rv_source = ''operator'', rv_version = 2\<rparr>,
     sc_created_at = 1, sc_updated_at = 5, sc_version = 2\<rparr>"

definition page_view :: api_operation_view where
  "page_view = \<lparr>av_id = ''op'', av_ignored = False, av_content_types = []\<rparr>"

definition page_options :: promote_options where
  "page_options = \<lparr>po_unknown = [], po_formats = False, po_enums = False, po_content = False, po_created_by = [], po_note = [],
     po_activate = False, po_status = 0\<rparr>"

definition page_profile :: positive_profile where
  "page_profile = \<lparr>pv_id = ''positive-schema|op|1'', pv_operation = ''op'', pv_candidate = ''c'', pv_candidate_version = 2,
     pv_version = 1, pv_fields = [\<lparr>pf_path = ''page'', pf_location = ''query'', pf_types = [''integer''], pf_formats = [],
       pf_enum = [], pf_required = True, pf_sensitive = False\<rparr>],
     pv_unknown = ''allow'', pv_enforce_formats = False, pv_enforce_enums = False, pv_enforce_content = False,
     pv_content_types = [], pv_created_at = 10, pv_created_by = [], pv_note = []\<rparr>"

definition page_deployment :: "gql_mode \<Rightarrow> int \<Rightarrow> gtime \<Rightarrow> positive_revision list \<Rightarrow> positive_deployment" where
  "page_deployment m st t h = \<lparr>pd_operation = ''op'', pd_profile = ''positive-schema|op|1'', pd_mode = m, pd_status = st,
     pd_updated_at = t, pd_updated_by = [], pd_history = h\<rparr>"

definition page_store :: "positive_deployment \<Rightarrow> positive_store" where
  "page_store d = rebuild_positive (new_positive_store\<lparr>ps_profiles := [(''positive-schema|op|1'', page_profile)],
     ps_versions := [(''op'', [''positive-schema|op|1''])], ps_deployments := [(''op'', d)]\<rparr>)"

definition page_revision :: "gql_mode \<Rightarrow> int \<Rightarrow> gtime \<Rightarrow> positive_revision" where
  "page_revision m st t = \<lparr>rv_profile = ''positive-schema|op|1'', rv_mode = m, rv_status = st, rv_changed_at = t,
     rv_changed_by = [], rv_why = []\<rparr>"

definition page_events :: "positive_event list" where
  "page_events = [Promote 10 page_candidate page_view page_options, Change_Positive_Mode 11 ''op'' ''DETECT'' [] [] 0,
     Change_Positive_Mode 12 ''op'' ''ENFORCE'' [] [] 403]"

lemma page_trims: "trim_space ''DETECT'' = ''DETECT''" "trim_space ''ENFORCE'' = ''ENFORCE''" "trim_space ''LEARN'' = ''LEARN''"
  by (rule trim_space_visible; simp add: visible_def less_eq_char_def)+

lemma page_modes: "parse_mode (to_upper (trim_space ''DETECT'')) = Some Detect"
    "parse_mode (to_upper (trim_space ''ENFORCE'')) = Some Enforce" "parse_mode (to_upper (trim_space ''LEARN'')) = Some Learn"
  unfolding page_trims by (simp_all add: parse_mode_def to_upper_def upper_char_def mode_text_def less_eq_char_def)

lemma page_fields: "positive_fields page_candidate = pv_fields page_profile"
  by (simp add: positive_fields_def page_candidate_def page_profile_def positive_field_of_def sorted_keys_def sort_by_def
      unique_strings_def sort_strings_def)

lemma page_approved: "approved page_candidate"
  by (simp add: approved_def page_candidate_def)

lemma page_id: "profile_id field_env ''op'' 1 = ''positive-schema|op|1''"
  by (simp add: profile_id_def field_env_def join_with_def decimal_of.simps [of "Suc 0"] char_of_eq_iff)

lemma page_new_profile: "new_profile field_env 10 page_candidate page_view page_options ''allow'' 1 = page_profile"
  using page_id page_fields
  by (simp add: new_profile_def page_profile_def) (simp add: page_candidate_def page_view_def page_options_def)

lemma page_promoted: "positive_step field_env (Promote 10 page_candidate page_view page_options) new_positive_store =
    page_store (page_deployment Learn 400 10 [])"
proof -
  have chk: "check_promotion page_candidate page_view page_options = Inr (''allow'', 400)"
    using page_approved
    by (simp add: check_promotion_def page_candidate_def page_view_def page_options_def normalize_unknown_def normalize_status_def
        to_lower_def)
  have new: "new_profile field_env 10 page_candidate page_view page_options ''allow'' (Suc 0) = page_profile"
    using page_new_profile by simp
  have op: "sc_operation page_candidate = ''op''" "pv_id page_profile = ''positive-schema|op|1''" "po_created_by page_options = []"
    by (simp_all add: page_candidate_def page_profile_def page_options_def)
  show ?thesis
    by (simp add: positive_step_def promote_def chk op new new_positive_store_def versions_of_def Let_def gm_has_def deployment_of_def
        zero_deployment_def activated_def page_store_def page_deployment_def)
qed

lemma page_moved:
  assumes "parse_mode (to_upper (trim_space mode)) = Some m" and "normalize_status code = Some st"
    and "mode_transition m0 m" and "m = Enforce \<longrightarrow> m0 = Detect" and "m0 \<noteq> m" and "length h < 32"
  shows "set_positive_mode t ''op'' mode [] [] code (page_store (page_deployment m0 st0 t0 h)) =
    (Inr (page_deployment m st t (h @ [page_revision m0 st0 t0])),
     page_store (page_deployment m st t (h @ [page_revision m0 st0 t0])))"
proof -
  have get: "gm_get (ps_deployments (page_store d)) ''op'' = Some d" for d by (simp add: page_store_def)
  have push: "push_history [] [] (page_deployment m0 st0 t0 h) = (page_deployment m0 st0 t0 h)\<lparr>pd_history := h @ [page_revision m0 st0 t0]\<rparr>"
    using assms(6) by (simp add: push_history_def page_deployment_def page_revision_def last_n_snoc max_positive_history_def)
  have put: "rebuild_positive (page_store d\<lparr>ps_deployments := gm_put ''op'' d' (ps_deployments (page_store d))\<rparr>) = page_store d'" for d d'
    unfolding page_store_def rebuild_positive_after by simp
  show ?thesis
    unfolding set_positive_mode_def assms(1,2) get option.case
    using assms(3-5) by (simp add: Let_def push) (simp add: page_deployment_def put)
qed

lemma page_run: "positive_run field_env page_events =
    page_store (page_deployment Enforce 403 12 [page_revision Learn 400 10, page_revision Detect 400 11])"
  unfolding page_events_def positive_run_def run_machine.simps page_promoted
  by (simp add: positive_step_def page_moved page_modes normalize_status_def mode_transition_def)

section \<open>The properties there\<close>

definition page_request :: "string \<Rightarrow> positive_request" where
  "page_request ty = \<lparr>pq_method = ''GET'', pq_path = ''/list'', pq_content_type = [], pq_truncated = False,
     pq_body = [], pq_json = False,
     pq_samples = [\<lparr>sm_path = ''page'', sm_location = ''query'', sm_type = ty, sm_format = [], sm_enum = [],
       sm_sensitive = False, sm_hash = []\<rparr>]\<rparr>"

lemma page_profile_id: "pv_id page_profile = ''positive-schema|op|1''"
  by (simp add: page_profile_def)

lemma page_get: "gm_get (ps_deployments (page_store d)) ''op'' = Some d"
    "gm_get (ps_profiles (page_store d)) ''positive-schema|op|1'' = Some page_profile"
    "ps_exceptions (page_store d) = []"
  by (simp_all add: page_store_def new_positive_store_def)

lemma page_index: "field_index (pv_fields page_profile) = [(''query|page'', \<lparr>pf_path = ''page'', pf_location = ''query'',
    pf_types = [''integer''], pf_formats = [], pf_enum = [], pf_required = True, pf_sensitive = False\<rparr>)]"
  by (simp add: field_index_def page_profile_def sample_key_def)

lemma page_conforms: "conforms page_profile (field_index (pv_fields page_profile)) (page_request ty) \<longleftrightarrow> ty = ''integer''"
  unfolding page_index
  by (simp add: conforms_def body_fits_def body_policy_def page_request_def page_profile_def sample_key_def field_fits_def type_allowed_def)

lemma profile_enforced_witness:
  "fst (wrap_positive field_env 20 21 22 ''op'' (page_request ''string'') (ps_runtime (positive_run field_env page_events))
    (positive_run field_env page_events)) = Some 403 \<and>
   fst (wrap_positive field_env 20 21 22 ''op'' (page_request ''integer'') (ps_runtime (positive_run field_env page_events))
    (positive_run field_env page_events)) = None"
proof -
  let ?d = "page_deployment Enforce 403 12 [page_revision Learn 400 10, page_revision Detect 400 11]"
  have d: "pd_mode ?d = Enforce" "pd_profile ?d = ''positive-schema|op|1''" "pd_status ?d = 403"
    by (simp_all add: page_deployment_def)
  have "fst (wrap_positive field_env 20 21 22 ''op'' (page_request ty) (ps_runtime (page_store ?d)) (page_store ?d)) =
      (if conforms page_profile (field_index (pv_fields page_profile)) (page_request ty) then None else Some (pd_status ?d))" for ty
    by (rule profile_enforced [OF page_run [symmetric]]) (simp_all add: d page_get)
  then show ?thesis unfolding page_run page_conforms d by simp
qed

lemma page_refused: "fst (wrap_positive field_env 20 21 22 ''op'' (page_request ''string'')
    (ps_runtime (positive_run field_env page_events)) st) \<noteq> None"
proof -
  let ?d = "page_deployment Enforce 403 12 [page_revision Learn 400 10, page_revision Detect 400 11]"
  have d: "pd_mode ?d = Enforce" "pd_profile ?d = ''positive-schema|op|1''" "pd_status ?d = 403"
    by (simp_all add: page_deployment_def)
  have "fst (wrap_positive field_env 20 21 22 ''op'' (page_request ''string'') (ps_runtime (page_store ?d)) st) =
      (if conforms page_profile (field_index (pv_fields page_profile)) (page_request ''string'') then None else Some (pd_status ?d))"
    by (rule enforced_answer [OF positive_run_ok [of field_env page_events, unfolded page_run]]) (simp_all add: d page_get)
  then show ?thesis unfolding page_run page_conforms d by simp
qed


text \<open>Back to LEARN, and the change is undone.\<close>

lemma rollback_undoes_witness:
  "\<exists>d1 s1 d2 s2. set_positive_mode 13 ''op'' ''LEARN'' [] [] 0 (positive_run field_env page_events) = (Inr d1, s1) \<and>
    pd_mode d1 = Learn \<and> rollback 14 ''op'' [] ''too early'' s1 = (Inr d2, s2) \<and> pd_mode d2 = Enforce \<and> pd_status d2 = 403 \<and>
    (\<forall>t1 t2 t3 q st. fst (wrap_positive field_env t1 t2 t3 ''op'' q (ps_runtime s2) st) =
      fst (wrap_positive field_env t1 t2 t3 ''op'' q (ps_runtime (positive_run field_env page_events)) st))"
proof -
  let ?h = "[page_revision Learn 400 10, page_revision Detect 400 11]"
  let ?d = "page_deployment Enforce 403 12 ?h" let ?d1 = "page_deployment Learn 400 13 (?h @ [page_revision Enforce 403 12])"
  have m: "set_positive_mode 13 ''op'' ''LEARN'' [] [] 0 (positive_run field_env page_events) = (Inr ?d1, page_store ?d1)"
    unfolding page_run by (rule page_moved) (simp_all add: page_modes normalize_status_def mode_transition_def)
  have g: "gm_get (ps_deployments (positive_run field_env page_events)) ''op'' = Some ?d" unfolding page_run by (rule page_get)
  have p: "pd_profile ?d \<noteq> []" and ne: "stance ?d1 \<noteq> stance ?d" by (simp_all add: page_deployment_def stance_def)
  from rollback_undoes [OF refl g p disjI1 [OF conjI [OF m ne]], of 14 "[]" "''too early''"]
  obtain d2 s2 where r: "rollback 14 ''op'' [] ''too early'' (page_store ?d1) = (Inr d2, s2)" "stance d2 = stance ?d"
    "\<forall>t1 t2 t3 q st. fst (wrap_positive field_env t1 t2 t3 ''op'' q (ps_runtime s2) st) =
      fst (wrap_positive field_env t1 t2 t3 ''op'' q (ps_runtime (positive_run field_env page_events)) st)" by blast
  have "pd_mode ?d1 = Learn" "pd_mode d2 = Enforce" "pd_status d2 = 403"
    using r(2) by (simp_all add: page_deployment_def stance_def)
  with m r(1,3) show ?thesis by blast
qed

definition full_store :: positive_store where
  "full_store = rebuild_positive (new_positive_store\<lparr>ps_exceptions := map (\<lambda>i. (replicate i (CHR ''x''),
     \<lparr>px_id = replicate i (CHR ''x''), px_operation = ''op'', px_profile = [], px_type = [], px_field = [], px_reason = ''r'',
       px_enabled = False, px_expires_at = Some 1, px_created_at = 0, px_created_by = []\<rparr>)) [0..<2048]\<rparr>)"

lemma full_store_ok: "positive_ok full_store" "length (ps_exceptions full_store) = 2048"
  by (simp_all add: positive_ok_def full_store_def new_positive_store_def gm_ok_def distinct_map inj_on_def comp_def
      max_positive_exceptions_def replicate_eq_replicate del: upt_conv_Cons)

lemma exceptions_exhaust_witness:
  "length (ps_exceptions full_store) = 2048 \<and> (\<forall>x y.
     fst (add_exception field_env 5 5 x
       (run_machine (positive_step field_env) [Toggle_Exception [] False, Restart_Positive] full_store)) \<noteq> Inr y)"
  using exceptions_exhaust [OF full_store_ok(1), of field_env 5 5 _ "[Toggle_Exception [] False, Restart_Positive]"]
  by (simp add: full_store_ok del: run_machine.simps)

end
