(* ===== verification/Schema_Trace.thy ===== *)
theory Schema_Trace
  imports Positive_Witness
begin

text \<open>
  The learned schemas under review: requests keep changing the candidate of an operation, an
  operator approves it at some version. What is promoted later is what was approved.
\<close>

datatype schema_event =
    Note_Request gtime string bool "schema_sample list"
  | Review_Candidate gtime string string schema_review
  | Restart_Schemas

definition schema_step :: "schema_env \<Rightarrow> schema_event \<Rightarrow> schema_store \<Rightarrow> schema_store" where
  "schema_step env e s = (case e of
     Note_Request now op ignored samples \<Rightarrow> note_schema env now op ignored samples s
   | Review_Candidate now cid status review \<Rightarrow> snd (set_review now cid status review s)
   | Restart_Schemas \<Rightarrow> restore_schema (schema_snapshot s) new_schema_store)"

definition schema_run :: "schema_env \<Rightarrow> schema_event list \<Rightarrow> schema_store" where
  "schema_run env es = run_machine (schema_step env) es new_schema_store"

text \<open>A candidate as the program builds it: under its id, its versions from 1, its types those it counts.\<close>

definition candidate_ok :: "string \<Rightarrow> schema_candidate \<Rightarrow> bool" where
  "candidate_ok k c \<longleftrightarrow> sc_id c = k \<and> 1 \<le> sc_version c \<and>
     (\<forall>f \<in> set (sc_fields c). map te_type (cf_types f) = sorted_keys (cf_type_counts f))"

definition schemas_ok :: "schema_store \<Rightarrow> bool" where
  "schemas_ok s \<longleftrightarrow> gm_ok (sh_candidates s) \<and> gm_all candidate_ok (sh_candidates s)"

lemma at_least_one_ge: "1 \<le> at_least_one n"
  by (simp add: at_least_one_def)

lemma base_candidate_simps:
  "sc_id (base_candidate env now a old) = schema_candidate_id env (ag_operation a)"
  "sc_fields (base_candidate env now a old) = map (candidate_field_of (ag_requests a)) (sorted_fields a)"
  "sc_review (base_candidate env now a old) = (case old of None \<Rightarrow> None | Some c \<Rightarrow> sc_review c)"
  "sc_status (base_candidate env now a old) = ''LEARNING''"
  "sc_version (base_candidate env now a old) = (case old of None \<Rightarrow> 1 | Some c \<Rightarrow> at_least_one (sc_version c))"
  by (simp_all add: base_candidate_def Let_def)

lemma build_candidate_id: "sc_id (build_candidate env now a old) = schema_candidate_id env (ag_operation a)"
  by (simp add: build_candidate_def Let_def base_candidate_simps split: option.splits)

lemma build_candidate_fields:
  "sc_fields (build_candidate env now a old) = map (candidate_field_of (ag_requests a)) (sorted_fields a)"
  by (simp add: build_candidate_def Let_def base_candidate_simps split: option.splits)

lemma candidate_field_types: "map te_type (cf_types (candidate_field_of n f)) = sorted_keys (cf_type_counts (candidate_field_of n f))"
  by (simp add: candidate_field_of_def Let_def comp_def)

lemma build_candidate_ok: "candidate_ok (schema_candidate_id env (ag_operation a)) (build_candidate env now a old)"
proof -
  have "1 \<le> sc_version (build_candidate env now a old)"
    by (simp add: build_candidate_def Let_def base_candidate_simps at_least_one_ge split: option.splits)
  then show ?thesis by (auto simp: candidate_ok_def build_candidate_id build_candidate_fields candidate_field_types)
qed

lemma add_request_operation [simp]: "ag_operation (add_request now samples a) = ag_operation a"
  by (simp add: add_request_def)

text \<open>An aggregate stands under its operation.\<close>

definition aggregates_ok :: "schema_store \<Rightarrow> bool" where
  "aggregates_ok s \<longleftrightarrow> gm_all (\<lambda>op a. ag_operation a = op) (sh_aggregates s)"

lemma note_cases:
  assumes "aggregates_ok s"
  obtains (ignored) "note_schema env now op ignored samples s = s"
  | (noted) a where "ag_operation a = op"
      and "note_schema env now op ignored samples s = s\<lparr>sh_aggregates := gm_put op a (sh_aggregates s),
        sh_candidates := gm_put (schema_candidate_id env op)
          (build_candidate env now a (gm_get (sh_candidates s) (schema_candidate_id env op))) (sh_candidates s)\<rparr>"
proof (cases "op = [] \<or> ignored")
  case True
  then show ?thesis by (intro ignored) (simp add: note_schema_def)
next
  case False
  let ?a = "case gm_get (sh_aggregates s) op of None \<Rightarrow> \<lparr>ag_operation = op, ag_requests = 0, ag_fields = [], ag_updated_at = 0\<rparr> | Some a \<Rightarrow> a"
  from assms have "ag_operation ?a = op" by (auto simp: aggregates_ok_def dest: gm_all_get split: option.splits)
  with False show ?thesis by (intro noted [of "add_request now samples ?a"]) (simp_all add: note_schema_def Let_def)
qed

lemma restored_candidates:
  "gm_get (fold (\<lambda>c m. if sc_id c = [] then m else gm_put (sc_id c) c m) cs m) k = Some c \<Longrightarrow>
   (c \<in> set cs \<and> sc_id c = k) \<or> gm_get m k = Some c"
proof (induction cs arbitrary: m)
  case (Cons a cs)
  from Cons.IH [OF Cons.prems [unfolded fold_Cons comp_apply]] show ?case
    by (auto simp: gm_get_put split: if_split_asm)
qed simp

lemma restored_candidates_ok:
  assumes "\<forall>c \<in> set cs. candidate_ok (sc_id c) c" and "gm_ok m \<and> gm_all candidate_ok m"
  shows "gm_ok (fold (\<lambda>c m. if sc_id c = [] then m else gm_put (sc_id c) c m) cs m) \<and>
    gm_all candidate_ok (fold (\<lambda>c m. if sc_id c = [] then m else gm_put (sc_id c) c m) cs m)"
  by (rule fold_invariant [where P = "\<lambda>m. gm_ok m \<and> gm_all candidate_ok m", OF assms(2)]) (use assms(1) in \<open>auto split: if_split\<close>)

lemma restored_aggregates_ok:
  assumes "gm_all (\<lambda>op a. ag_operation a = op) m"
  shows "gm_all (\<lambda>op a. ag_operation a = op)
     (fold (\<lambda>x m. if af_operation x = [] then m else gm_put (af_operation x) (restore_aggregate x) m) xs m)"
  by (rule fold_invariant [where P = "gm_all (\<lambda>op a. ag_operation a = op)", OF assms]) (auto simp: restore_aggregate_def)

lemma schema_step_ok:
  assumes "schemas_ok s \<and> aggregates_ok s"
  shows "schemas_ok (schema_step env e s) \<and> aggregates_ok (schema_step env e s)"
proof (cases e)
  case (Note_Request now op ignored samples)
  from assms have "aggregates_ok s" by simp
  then show ?thesis
  proof (cases rule: note_cases [where env = env and now = now and op = op and ignored = ignored and samples = samples])
    case ignored
    with assms Note_Request show ?thesis by (simp add: schema_step_def)
  next
    case (noted a)
    with assms Note_Request build_candidate_ok [of env a] show ?thesis
      by (auto simp: schema_step_def schemas_ok_def aggregates_ok_def)
  qed
next
  case (Review_Candidate now cid status review)
  show ?thesis
  proof (cases "gm_get (sh_candidates s) cid")
    case None
    with assms Review_Candidate show ?thesis by (simp add: schema_step_def set_review_def)
  next
    case (Some c)
    with assms have "candidate_ok cid c" by (auto simp: schemas_ok_def dest: gm_all_get)
    with assms Some Review_Candidate show ?thesis
      by (auto simp: schema_step_def set_review_def Let_def schemas_ok_def aggregates_ok_def candidate_ok_def)
  qed
next
  case Restart_Schemas
  have "\<forall>c \<in> set (gm_values (sh_candidates s)). candidate_ok (sc_id c) c"
    using assms by (auto simp: schemas_ok_def gm_all_def candidate_ok_def)
  with restored_candidates_ok [of "gm_values (sh_candidates s)" "[]"] restored_aggregates_ok [of "[]"] Restart_Schemas show ?thesis
    by (simp add: schema_step_def restore_schema_def schema_snapshot_def new_schema_store_def schemas_ok_def aggregates_ok_def)
qed

interpretation schema_machine: invariant_machine "schema_step env" "\<lambda>s. schemas_ok s \<and> aggregates_ok s" for env
  by unfold_locales (rule schema_step_ok)

lemma schema_run_ok: "schemas_ok (schema_run env es) \<and> aggregates_ok (schema_run env es)"
  unfolding schema_run_def
  by (rule schema_machine.inv_run) (simp add: schemas_ok_def aggregates_ok_def new_schema_store_def gm_ok_def)

lemma schema_run_Nil [simp]: "schema_run env [] = new_schema_store"
  by (simp add: schema_run_def)

lemma schema_run_snoc [simp]: "schema_run env (es @ [e]) = schema_step env e (schema_run env es)"
  by (simp add: schema_run_def run_machine_append)

section \<open>What was approved is what is promoted\<close>

lemma same_field_promoted:
  assumes "same_field a b" and "map te_type (cf_types a) = sorted_keys (cf_type_counts a)"
    and "map te_type (cf_types b) = sorted_keys (cf_type_counts b)"
  shows "positive_field_of a = positive_field_of b"
proof -
  from assms(1) have k: "sorted_keys (cf_type_counts a) = sorted_keys (cf_type_counts b)" by (simp add: same_field_def)
  from assms(1) show ?thesis unfolding positive_field_of_def assms(2,3) k by (simp add: same_field_def)
qed

lemma same_candidate_promoted:
  assumes "same_candidate a b" and "candidate_ok k a" and "candidate_ok k' b"
  shows "positive_fields a = positive_fields b"
proof -
  have "map positive_field_of (sc_fields a) = map positive_field_of (sc_fields b)"
    using assms(1) [unfolded same_candidate_def] assms(2,3) unfolding candidate_ok_def
    by (intro nth_equalityI) (auto simp: list_all2_conv_all_nth intro!: same_field_promoted)
  then show ?thesis by (simp add: positive_fields_def)
qed

text \<open>A request leaves a candidate approved only if it promotes to the same fields.\<close>

lemma build_approved:
  assumes "approved (build_candidate env now a old)" and "\<And>c. old = Some c \<Longrightarrow> candidate_ok k c"
  obtains c where "old = Some c" and "approved c" and "sc_version c = sc_version (build_candidate env now a old)"
    and "positive_fields c = positive_fields (build_candidate env now a old)"
proof (cases old)
  case None
  with assms(1) show ?thesis
    by (simp add: approved_def build_candidate_def Let_def base_candidate_simps split: if_splits)
next
  case (Some c)
  let ?b = "base_candidate env now a old" let ?n = "build_candidate env now a old"
  from assms(2) Some have ok: "candidate_ok k c" by simp
  then have v: "at_least_one (sc_version c) = sc_version c" by (simp add: candidate_ok_def at_least_one_def)
  have same: "same_candidate c ?b \<and> ?n = ?b\<lparr>sc_status := sc_status c\<rparr>"
  proof (rule ccontr)
    assume "\<not> ?thesis"
    then have "sc_status ?n \<in> {''CANDIDATE'', ''LEARNING''}"
      by (auto simp: build_candidate_def Let_def Some split: if_splits)
    with assms(1) show False by (auto simp: approved_def)
  qed
  then have n: "sc_version ?n = sc_version c" "sc_review ?n = sc_review c" "sc_status ?n = sc_status c"
    by (simp_all add: base_candidate_simps Some v)
  with assms(1) have "approved c" unfolding approved_def n by simp
  moreover have "same_candidate c ?n" using same by (simp add: same_candidate_def)
  ultimately show ?thesis
    using Some n same_candidate_promoted [OF _ ok build_candidate_ok] by (intro that [OF Some]) auto
qed

text \<open>A candidate that is approved after a step was approved before it for the same fields, or the step is the approval.\<close>

lemma approved_step:
  assumes "schemas_ok s" and "aggregates_ok s" and "gm_get (sh_candidates (schema_step env e s)) cid = Some c" and "approved c"
  shows "(\<exists>c0. gm_get (sh_candidates s) cid = Some c0 \<and> sc_version c0 = sc_version c \<and>
      positive_fields c0 = positive_fields c \<and> (approved c0 \<or> (\<exists>now status rv. e = Review_Candidate now cid status rv \<and>
        rv_source rv = ''operator'' \<and> rv_recommendation rv = ''approved'')))"
proof (cases e)
  case (Note_Request now op ignored samples)
  from assms(2) show ?thesis
  proof (cases rule: note_cases [where env = env and now = now and op = op and ignored = ignored and samples = samples])
    case ignored
    with assms(3,4) Note_Request show ?thesis by (auto simp: schema_step_def)
  next
    case (noted a)
    let ?k = "schema_candidate_id env op"
    show ?thesis
    proof (cases "cid = ?k")
      case False
      with assms(3,4) Note_Request noted show ?thesis by (auto simp: schema_step_def gm_get_put)
    next
      case True
      with assms(3) Note_Request noted have c: "c = build_candidate env now a (gm_get (sh_candidates s) ?k)"
        by (simp add: schema_step_def gm_get_put)
      have ok: "candidate_ok ?k x" if "gm_get (sh_candidates s) ?k = Some x" for x
        using assms(1) that by (auto simp: schemas_ok_def dest: gm_all_get)
      from assms(4) [unfolded c] obtain c0 where "gm_get (sh_candidates s) ?k = Some c0" "approved c0"
        "sc_version c0 = sc_version c" "positive_fields c0 = positive_fields c"
        unfolding c by (rule build_approved [OF _ ok])
      with True show ?thesis by blast
    qed
  qed
next
  case (Review_Candidate now k status review)
  show ?thesis
  proof (cases "k = cid \<and> gm_has (sh_candidates s) cid")
    case True
    then obtain c0 where c0: "gm_get (sh_candidates s) cid = Some c0" by (auto simp: gm_has_def)
    with True assms(3) Review_Candidate have c: "c = c0\<lparr>sc_status := (if status \<noteq> [] then status else sc_status c0),
        sc_review := Some (review\<lparr>rv_version := sc_version c0\<rparr>), sc_updated_at := now\<rparr>"
      by (simp add: schema_step_def set_review_def Let_def gm_get_put)
    with assms(4) have "rv_source review = ''operator''" "rv_recommendation review = ''approved''" by (simp_all add: approved_def)
    moreover from c have "sc_version c0 = sc_version c" "positive_fields c0 = positive_fields c" by (simp_all add: positive_fields_def)
    ultimately show ?thesis using c0 True Review_Candidate by blast
  next
    case False
    with assms(3) Review_Candidate have "gm_get (sh_candidates s) cid = Some c"
      by (auto simp: schema_step_def set_review_def Let_def gm_get_put gm_has_def split: option.splits if_splits)
    with assms(4) show ?thesis by blast
  qed
next
  case Restart_Schemas
  with assms(3) have "c \<in> set (gm_values (sh_candidates s)) \<and> sc_id c = cid"
    using restored_candidates [of "gm_values (sh_candidates s)" "[]" cid c]
    by (auto simp: schema_step_def restore_schema_def schema_snapshot_def new_schema_store_def)
  then obtain k where k: "(k, c) \<in> set (sh_candidates s)" and id: "sc_id c = cid" by force
  from assms(1) k have "candidate_ok k c" by (auto simp: schemas_ok_def gm_all_def)
  with id have "k = cid" by (simp add: candidate_ok_def)
  with k assms(1) have "gm_get (sh_candidates s) cid = Some c" by (simp add: schemas_ok_def gm_ok_def)
  with assms(4) show ?thesis by blast
qed

text \<open>C8: Between the approval of a candidate and its promotion, requests go on changing what is learned.
  Whenever a candidate counts as approved, an operator approved it, and a profile promoted from it now has
  exactly the fields it would have had at the moment of the approval.\<close>

theorem promoted_as_approved:
  assumes "gm_get (sh_candidates (schema_run env es)) cid = Some c" and "approved c"
  shows "\<exists>es1 now status rv es2 c0. es = es1 @ Review_Candidate now cid status rv # es2 \<and>
    rv_source rv = ''operator'' \<and> rv_recommendation rv = ''approved'' \<and>
    gm_get (sh_candidates (schema_run env es1)) cid = Some c0 \<and> sc_version c0 = sc_version c \<and>
    positive_fields c0 = positive_fields c"
  using assms
proof (induction es arbitrary: c rule: rev_induct)
  case Nil
  then show ?case by (simp add: new_schema_store_def)
next
  case (snoc e es)
  have ok: "schemas_ok (schema_run env es)" "aggregates_ok (schema_run env es)" using schema_run_ok by simp_all
  from approved_step [OF ok snoc.prems(1) [unfolded schema_run_snoc] snoc.prems(2)] obtain c0
    where c0: "gm_get (sh_candidates (schema_run env es)) cid = Some c0" "sc_version c0 = sc_version c"
      "positive_fields c0 = positive_fields c" and cases: "approved c0 \<or> (\<exists>now status rv. e = Review_Candidate now cid status rv \<and>
        rv_source rv = ''operator'' \<and> rv_recommendation rv = ''approved'')" by blast
  from cases show ?case
  proof
    assume "approved c0"
    from snoc.IH [OF c0(1) this] c0(2,3) show ?case by (metis append_assoc append_Cons)
  next
    assume "\<exists>now status rv. e = Review_Candidate now cid status rv \<and> rv_source rv = ''operator'' \<and> rv_recommendation rv = ''approved''"
    with c0 show ?case by blast
  qed
qed

text \<open>A candidate approved after one request, and still approved after another that shows the same.\<close>

definition page_review :: schema_review where
  "page_review = \<lparr>rv_recommendation = ''approved'', rv_confidence = 100, rv_reason = [], rv_reviewed_at = 2,
     rv_source = ''operator'', rv_version = 0\<rparr>"

definition page_history :: "schema_event list" where
  "page_history = [Note_Request 1 ''op'' False (pq_samples (page_request ''integer'')),
     Review_Candidate 2 ''schema|op'' ''REVIEWED'' page_review, Note_Request 3 ''op'' False (pq_samples (page_request ''integer''))]"

definition page_aggregate :: "int \<Rightarrow> gtime \<Rightarrow> schema_aggregate" where
  "page_aggregate n t = \<lparr>ag_operation = ''op'', ag_requests = n,
     ag_fields = [(''query|page'', \<lparr>fg_path = ''page'', fg_location = ''query'', fg_seen = n, fg_types = [(''integer'', n)],
       fg_formats = [], fg_enums = [], fg_hashes = [], fg_sensitive = False\<rparr>)], ag_updated_at = t\<rparr>"

lemma page_aggregates:
  "add_request 1 (pq_samples (page_request ''integer'')) \<lparr>ag_operation = ''op'', ag_requests = 0, ag_fields = [], ag_updated_at = 0\<rparr> =
    page_aggregate 1 1"
  "add_request 3 (pq_samples (page_request ''integer'')) (page_aggregate 1 1) = page_aggregate 2 3"
  by (simp_all add: add_request_def page_request_def page_aggregate_def add_sample_def Let_def sample_key_def count_sample_def
      new_aggregate_field_def count_up_def count_of_def i64_def max_schema_sample_fields_def)

lemma page_approval:
  "\<exists>c. gm_get (sh_candidates (schema_run field_env page_history)) ''schema|op'' = Some c \<and> approved c"
proof -
  have cid: "schema_candidate_id field_env ''op'' = ''schema|op''" by (simp add: schema_candidate_id_def field_env_def)
  let ?c1 = "build_candidate field_env 1 (page_aggregate 1 1) None"
  let ?c2 = "?c1\<lparr>sc_status := ''REVIEWED'', sc_review := Some (page_review\<lparr>rv_version := sc_version ?c1\<rparr>), sc_updated_at := 2\<rparr>"
  let ?c3 = "build_candidate field_env 3 (page_aggregate 2 3) (Some ?c2)"
  have fields: "sorted_fields (page_aggregate n t) = gm_values (ag_fields (page_aggregate n t))" for n t
    by (simp add: sorted_fields_def sorted_keys_def page_aggregate_def sort_by_def)
  have same: "same_candidate ?c2 (base_candidate field_env 3 (page_aggregate 2 3) (Some ?c2))"
    unfolding same_candidate_def
    by (simp add: build_candidate_fields base_candidate_simps fields)
      (simp add: page_aggregate_def same_field_def candidate_field_of_def Let_def sorted_keys_def sort_by_def dominant_type_def candidate_min_samples_def)
  then have c3: "?c3 = (base_candidate field_env 3 (page_aggregate 2 3) (Some ?c2))\<lparr>sc_status := ''REVIEWED''\<rparr>"
    by (simp add: build_candidate_def [of _ _ _ "Some _"] Let_def)
  have v: "sc_version ?c1 = 1"
    by (simp add: build_candidate_def Let_def base_candidate_simps)
  have "approved ?c3"
    unfolding c3 by (simp add: approved_def base_candidate_simps v at_least_one_def page_review_def)
  moreover have "gm_get (sh_candidates (schema_run field_env page_history)) ''schema|op'' = Some ?c3"
    by (simp add: schema_run_def page_history_def schema_step_def note_schema_def set_review_def Let_def new_schema_store_def
        page_aggregates cid)
  ultimately show ?thesis by blast
qed

lemma promoted_as_approved_witness:
  "\<exists>c. approved c \<and> (\<exists>es1 now status rv es2 c0. page_history = es1 @ Review_Candidate now ''schema|op'' status rv # es2 \<and>
    rv_source rv = ''operator'' \<and> rv_recommendation rv = ''approved'' \<and>
    gm_get (sh_candidates (schema_run field_env es1)) ''schema|op'' = Some c0 \<and> sc_version c0 = sc_version c \<and>
    positive_fields c0 = positive_fields c)"
proof -
  from page_approval obtain c where c: "gm_get (sh_candidates (schema_run field_env page_history)) ''schema|op'' = Some c" "approved c"
    by blast
  from promoted_as_approved [OF c] c(2) show ?thesis by blast
qed

end
