(* ===== verification/Schema_Privacy.thy ===== *)
theory Schema_Privacy
  imports Schema_Collect Schema_Trace
begin

text \<open>
  What the learned schemas keep of the requests they are learned from, and what of a request the
  collector does not see.
\<close>

section \<open>Samples\<close>

definition sample_locations :: "string list" where
  "sample_locations = [''path'', ''header'', ''query'', ''body'']"

text \<open>A text that may be kept: a media type a header named, a boolean, or a word for an enumeration.\<close>

definition keepable :: "string \<Rightarrow> string \<Rightarrow> bool" where
  "keepable loc e \<longleftrightarrow> loc = ''header'' \<or> e = ''true'' \<or> e = ''false'' \<or> safe_enum_text e"

definition sample_private :: "schema_sample \<Rightarrow> bool" where
  "sample_private s \<longleftrightarrow> sm_location s \<in> set sample_locations \<and> sm_sensitive s = sensitive_field (sm_path s) \<and>
     (sm_sensitive s \<longrightarrow> sm_enum s = [] \<and> sm_hash s = []) \<and> (sm_location s = ''header'' \<longrightarrow> sm_hash s = []) \<and>
     (sm_enum s = [] \<or> keepable (sm_location s) (sm_enum s))"

definition samples_private :: "shown_sample list \<Rightarrow> bool" where
  "samples_private out \<longleftrightarrow> (\<forall>s \<in> set out. sample_private (fst s)) \<and> length out \<le> max_schema_sample_fields"

lemma safe_enum_keepable: "safe_enum env path v = [] \<or> safe_enum_text (safe_enum env path v)"
  by (auto simp: safe_enum_def Let_def)

lemma new_sample_private:
  assumes "loc \<in> set sample_locations" and "enum = [] \<or> keepable loc enum" and "loc = ''header'' \<longrightarrow> raw = []"
  shows "sample_private (fst (new_sample env path loc ty format enum raw))"
  using assms by (simp add: sample_private_def new_sample_def Let_def)

lemma append_sample_private:
  assumes "samples_private out" and "loc \<in> set sample_locations" and "enum = [] \<or> keepable loc enum"
    and "loc = ''header'' \<longrightarrow> raw = []"
  shows "samples_private (append_sample env path loc ty format enum raw out)"
  using assms(1) new_sample_private [OF assms(2-4)] by (auto simp: samples_private_def append_sample_def)

lemma append_scalar_private:
  assumes "samples_private out" and "loc \<in> {''path'', ''query'', ''body''}" and "enum = [] \<or> safe_enum_text enum"
  shows "samples_private (append_scalar env path loc enum raw out)"
  unfolding append_scalar_def Let_def case_prod_beta
  by (rule append_sample_private) (use assms in \<open>auto simp: sample_locations_def keepable_def\<close>)

lemma path_samples_private: "samples_private out \<Longrightarrow> samples_private (path_samples env k rs ns out)"
  by (induction env k rs ns out rule: path_samples.induct) (auto intro: append_scalar_private)

lemma add_path_samples_private: "samples_private out \<Longrightarrow> samples_private (add_path_samples env path out)"
  by (simp add: add_path_samples_def Let_def path_samples_private)

lemma add_values_private:
  assumes "samples_private out" and "loc \<in> {''query'', ''body''}"
  shows "samples_private (add_values env loc m out)"
  unfolding add_values_def
  by (rule fold_invariant [where P = samples_private, OF assms(1)])
    (use assms(2) safe_enum_keepable in \<open>auto intro!: append_scalar_private\<close>)

lemma append_header_private: "samples_private out \<Longrightarrow> samples_private (append_header env h out)"
  by (auto simp: append_header_def Let_def sample_locations_def keepable_def intro!: append_sample_private split: prod.splits)

lemma add_headers_private: "samples_private out \<Longrightarrow> samples_private (add_headers env m out)"
  unfolding add_headers_def by (rule fold_invariant) (auto intro: append_header_private)

lemma body_private:
  "samples_private out \<Longrightarrow> enum = [] \<or> keepable ''body'' enum \<Longrightarrow> samples_private (append_sample env path ''body'' ty format enum raw out)"
  by (rule append_sample_private) (simp_all add: sample_locations_def)

lemma flatten_json_private: "samples_private out \<Longrightarrow> samples_private (flatten_json env depth prefix v out)"
proof (induction env depth prefix v out rule: flatten_json.induct)
  case (1 env depth prefix v out)
  show ?case
  proof (cases "depth > max_sample_depth \<or> length out \<ge> max_schema_sample_fields")
    case True
    with 1 show ?thesis by (simp add: flatten_json.simps)
  next
    case False
    show ?thesis
    proof (cases v)
      case (Json_Object kvs)
      have sub: "samples_private (flatten_json env (Suc depth) (sub_path prefix k) x s)"
        if "(k, x) \<in> set kvs" "samples_private s" for k x s
        by (rule "1.IH"(2) [OF False Json_Object, of "(k, x)"]) (simp_all add: that)
      have "samples_private (fold (\<lambda>(k, x). flatten_json env (Suc depth) (sub_path prefix k) x)
          (sort_by (\<lambda>a b. fst a < fst b) kvs) out)"
        by (rule fold_invariant [where P = samples_private, OF "1.prems"]) (use sub in auto)
      with False Json_Object show ?thesis by (simp add: flatten_json.simps)
    next
      case (Json_Array vs)
      let ?o = "append_sample env (fallback_path prefix) ''body'' ''array'' [] [] [] out"
      have "samples_private (fold (flatten_json env (Suc depth) (prefix @ ''[]'')) (take 8 vs) ?o)"
        by (rule fold_invariant [where P = samples_private, OF body_private [OF "1.prems"]])
          (use "1.IH"(1) False Json_Array in auto)
      with False Json_Array show ?thesis by (simp add: flatten_json.simps)
    next
      case (Json_String x)
      with False "1.prems" safe_enum_keepable [of env prefix x] show ?thesis
        by (auto simp: flatten_json.simps [of env depth prefix "Json_String x"] keepable_def intro!: body_private split: prod.splits)
    qed (use False "1.prems" in \<open>auto simp: flatten_json.simps [where v = Json_Null] flatten_json.simps [where v = "Json_Bool b" for b]
      flatten_json.simps [where v = "Json_Number n" for n] keepable_def bool_text_def intro!: body_private\<close>)
  qed
qed

lemma add_part_private: "samples_private out \<Longrightarrow> samples_private (add_part env p out)"
  using safe_enum_keepable by (auto simp: add_part_def intro!: append_scalar_private body_private)

lemma add_body_private: "samples_private out \<Longrightarrow> samples_private (add_body env b out)"
  by (cases b) (auto simp: add_body_def flatten_json_private add_values_private
      intro: fold_invariant [where P = samples_private] add_part_private)

lemma take_private: "samples_private out \<Longrightarrow> samples_private (take n out)"
  by (auto simp: samples_private_def dest: in_set_takeD)

lemma collect_private: "samples_private (collect_samples env r)"
proof -
  have "samples_private []" by (simp add: samples_private_def)
  then have h: "samples_private (add_headers env (sr_headers r) (add_path_samples env (sr_path r) []))"
    by (intro add_headers_private add_path_samples_private)
  let ?q = "case sr_query r of None \<Rightarrow> add_headers env (sr_headers r) (add_path_samples env (sr_path r) [])
    | Some m \<Rightarrow> add_values env ''query'' m (add_headers env (sr_headers r) (add_path_samples env (sr_path r) []))"
  have "samples_private ?q" using h by (simp add: add_values_private split: option.splits)
  then have "samples_private (if sr_truncated r then ?q else add_body env (sr_body r) ?q)" by (simp add: add_body_private)
  then show ?thesis unfolding collect_samples_def Let_def by (rule take_private)
qed

section \<open>What is kept\<close>

datatype shown_event =
    Show_Request gtime string bool shown_request
  | Review_Shown gtime string string schema_review
  | Restart_Shown

definition schema_event_of :: "collect_env \<Rightarrow> shown_event \<Rightarrow> schema_event" where
  "schema_event_of cenv e = (case e of
     Show_Request now op ignored r \<Rightarrow> Note_Request now op ignored (map fst (collect_samples cenv r))
   | Review_Shown now cid status review \<Rightarrow> Review_Candidate now cid status review
   | Restart_Shown \<Rightarrow> Restart_Schemas)"

definition field_private :: "string \<Rightarrow> field_aggregate \<Rightarrow> bool" where
  "field_private k f \<longleftrightarrow> k = sample_key (fg_location f) (fg_path f) \<and> fg_location f \<in> set sample_locations \<and>
     (sensitive_field (fg_path f) \<longrightarrow> fg_sensitive f \<and> fg_enums f = [] \<and> fg_hashes f = []) \<and>
     (fg_location f = ''header'' \<longrightarrow> fg_hashes f = []) \<and>
     (\<forall>e \<in> fst ` set (fg_enums f). keepable (fg_location f) e) \<and>
     length (fg_enums f) \<le> max_enum_values \<and> length (fg_hashes f) \<le> max_distinct_hashes"

definition aggregate_private :: "schema_aggregate \<Rightarrow> bool" where
  "aggregate_private a \<longleftrightarrow> gm_all field_private (ag_fields a) \<and> length (ag_fields a) \<le> max_schema_sample_fields"

definition store_private :: "schema_store \<Rightarrow> bool" where
  "store_private s \<longleftrightarrow> gm_all (\<lambda>op a. aggregate_private a) (sh_aggregates s)"

lemma sample_key_inj:
  assumes "loc \<in> set sample_locations" and "loc' \<in> set sample_locations" and "sample_key loc p = sample_key loc' p'"
  shows "loc = loc' \<and> p = p'"
  using assms by (auto simp: sample_locations_def sample_key_def)

lemma length_count_up: "length (count_up k m) \<le> Suc (length m)"
  by (simp add: count_up_def length_gm_put)

lemma length_count_up_has: "gm_has m k \<Longrightarrow> length (count_up k m) = length m"
  by (simp add: count_up_def length_gm_put)

lemma count_sample_private:
  assumes "field_private k f" and "sample_private s" and "sm_location s = fg_location f" and "sm_path s = fg_path f"
  shows "field_private k (count_sample first s f)"
proof -
  let ?f = "count_sample first s f"
  have same: "fg_location ?f = fg_location f" "fg_path ?f = fg_path f" "fg_sensitive ?f = (fg_sensitive f \<or> sm_sensitive s)"
    by (simp_all add: count_sample_def Let_def)
  have sens: "sm_sensitive s = sensitive_field (fg_path f)" using assms(2,4) by (simp add: sample_private_def)
  have enums: "fg_enums ?f = fg_enums f \<or> (\<not> sm_sensitive s \<and> sm_enum s \<noteq> [] \<and> fg_enums ?f = count_up (sm_enum s) (fg_enums f) \<and>
      length (fg_enums ?f) \<le> max_enum_values)" if "length (fg_enums f) \<le> max_enum_values"
    using that length_count_up [of "sm_enum s" "fg_enums f"]
    by (auto simp: count_sample_def Let_def length_count_up_has)
  have hashes: "fg_hashes ?f = fg_hashes f \<or> (\<not> sm_sensitive s \<and> sm_hash s \<noteq> [] \<and> length (fg_hashes ?f) \<le> max_distinct_hashes)"
    by (simp add: count_sample_def Let_def List.insert_def)
  have key: "sm_enum s \<noteq> [] \<Longrightarrow> keepable (fg_location f) (sm_enum s)" using assms(2,3) by (auto simp: sample_private_def)
  have header: "fg_location f = ''header'' \<Longrightarrow> sm_hash s = []" using assms(2,3) by (auto simp: sample_private_def)
  have len: "length (fg_enums f) \<le> max_enum_values" using assms(1) by (simp add: field_private_def)
  show ?thesis
    unfolding field_private_def same
  proof (intro conjI)
    show "\<forall>e \<in> fst ` set (fg_enums ?f). keepable (fg_location f) e"
      using enums [OF len]
    proof (elim disjE conjE)
      assume "sm_enum s \<noteq> []" and e: "fg_enums ?f = count_up (sm_enum s) (fg_enums f)"
      with assms(1) key show ?thesis unfolding e count_up_keys by (simp add: field_private_def)
    qed (use assms(1) in \<open>simp add: field_private_def\<close>)
    show "sensitive_field (fg_path f) \<longrightarrow> (fg_sensitive f \<or> sm_sensitive s) \<and> fg_enums ?f = [] \<and> fg_hashes ?f = []"
      using enums [OF len] hashes sens assms(1) by (auto simp: field_private_def)
    show "fg_location f = ''header'' \<longrightarrow> fg_hashes ?f = []" using hashes header assms(1) by (auto simp: field_private_def)
    show "length (fg_enums ?f) \<le> max_enum_values" using enums [OF len] len by auto
    show "length (fg_hashes ?f) \<le> max_distinct_hashes" using hashes assms(1) by (auto simp: field_private_def)
  qed (use assms(1) in \<open>simp_all add: field_private_def\<close>)
qed

lemma new_field_private:
  assumes "sample_private s"
  shows "field_private (sample_key (sm_location s) (sm_path s)) (count_sample first s (new_aggregate_field s))"
proof -
  let ?f = "(new_aggregate_field s)\<lparr>fg_sensitive := sm_sensitive s\<rparr>"
  have loc: "sm_location s = fg_location ?f" "sm_path s = fg_path ?f" by (simp_all add: new_aggregate_field_def)
  have "field_private (sample_key (sm_location s) (sm_path s)) ?f"
    using assms by (simp add: field_private_def sample_private_def new_aggregate_field_def)
  then have "field_private (sample_key (sm_location s) (sm_path s)) (count_sample first s ?f)"
    by (rule count_sample_private [OF _ assms loc])
  moreover have "count_sample first s ?f = count_sample first s (new_aggregate_field s)"
    by (cases "sm_sensitive s") (simp_all add: count_sample_def new_aggregate_field_def)
  ultimately show ?thesis by (simp only:)
qed

lemma add_sample_private:
  assumes "gm_all field_private m" and "length m \<le> max_schema_sample_fields" and "sample_private s"
  shows "gm_all field_private (fst (add_sample s (m, seen))) \<and> length (fst (add_sample s (m, seen))) \<le> max_schema_sample_fields"
proof (cases "gm_get m (sample_key (sm_location s) (sm_path s))")
  case None
  with assms new_field_private [OF assms(3)] show ?thesis
    by (auto simp: add_sample_def Let_def length_gm_put intro!: gm_all_put)
next
  case (Some f)
  let ?k = "sample_key (sm_location s) (sm_path s)"
  from gm_all_get [OF assms(1) Some] have f: "field_private ?k f" .
  then have "sm_location s = fg_location f \<and> sm_path s = fg_path f"
    using assms(3) by (intro sample_key_inj) (auto simp: field_private_def sample_private_def)
  with f count_sample_private [OF f assms(3)] assms Some show ?thesis
    by (auto simp: add_sample_def Let_def length_gm_put gm_has_def intro!: gm_all_put)
qed

lemma add_request_private:
  assumes "aggregate_private a" and "\<forall>s \<in> set samples. sample_private s"
  shows "aggregate_private (add_request now samples a)"
proof -
  let ?P = "\<lambda>acc :: (string, field_aggregate) gomap \<times> string list. gm_all field_private (fst acc) \<and> length (fst acc) \<le> max_schema_sample_fields"
  have "?P (fold add_sample samples (ag_fields a, []))"
  proof (rule fold_invariant [where P = ?P])
    show "?P (ag_fields a, [])" using assms(1) by (simp add: aggregate_private_def)
    fix s and acc :: "(string, field_aggregate) gomap \<times> string list"
    assume "s \<in> set samples" "?P acc"
    with assms(2) add_sample_private [of "fst acc" s "snd acc"] show "?P (add_sample s acc)" by simp
  qed
  then show ?thesis by (simp add: aggregate_private_def add_request_def)
qed

lemma length_fold_put: "length (fold (\<lambda>x. gm_put (k x) (g x)) xs m) \<le> length m + length xs"
proof (induction xs arbitrary: m)
  case (Cons x xs)
  from Cons.IH [of "gm_put (k x) (g x) m"] show ?case by (simp add: length_gm_put split: if_splits)
qed simp

lemma restored_private:
  assumes "aggregate_private a" shows "aggregate_private (restore_aggregate (aggregate_snapshot a))"
proof -
  let ?fs = "af_fields (aggregate_snapshot a)"
  have fs: "set ?fs = snd ` set (ag_fields a)" "length ?fs = length (ag_fields a)" by (simp_all add: aggregate_snapshot_def)
  have "gm_all field_private (fold (\<lambda>x. gm_put (sample_key (fg_location x) (fg_path x)) x) ?fs [])"
  proof (rule fold_invariant [where P = "gm_all field_private"])
    fix f m
    assume "f \<in> set ?fs" "gm_all field_private m"
    then obtain k where "(k, f) \<in> set (ag_fields a)" unfolding fs by force
    with assms have p: "field_private k f" by (auto simp: aggregate_private_def gm_all_def)
    then have "k = sample_key (fg_location f) (fg_path f)" by (simp add: field_private_def)
    with \<open>gm_all field_private m\<close> p show "gm_all field_private (gm_put (sample_key (fg_location f) (fg_path f)) f m)"
      by (simp add: gm_all_put)
  qed simp
  moreover have "length (fold (\<lambda>x. gm_put (sample_key (fg_location x) (fg_path x)) x) ?fs []) \<le> max_schema_sample_fields"
    using length_fold_put [of "\<lambda>x. sample_key (fg_location x) (fg_path x)" "\<lambda>x. x" ?fs "[]"] fs(2) assms
    by (simp add: aggregate_private_def)
  ultimately show ?thesis by (simp add: aggregate_private_def restore_aggregate_def)
qed

lemma new_aggregate_private: "aggregate_private \<lparr>ag_operation = op, ag_requests = 0, ag_fields = [], ag_updated_at = t\<rparr>"
  by (simp add: aggregate_private_def)

lemma shown_step_private:
  assumes "store_private s" shows "store_private (schema_step env (schema_event_of cenv e) s)"
proof (cases e)
  case (Show_Request now op ignored r)
  have smp: "\<forall>x \<in> set (map fst (collect_samples cenv r)). sample_private x"
    using collect_private [of cenv r] by (auto simp: samples_private_def)
  have "aggregate_private (case gm_get (sh_aggregates s) op of
      None \<Rightarrow> \<lparr>ag_operation = op, ag_requests = 0, ag_fields = [], ag_updated_at = 0\<rparr> | Some a \<Rightarrow> a)"
    using assms by (auto simp: store_private_def new_aggregate_private dest: gm_all_get split: option.splits)
  from add_request_private [OF this smp, of now] assms show ?thesis
    by (auto simp: Show_Request schema_event_of_def schema_step_def note_schema_def store_private_def Let_def intro!: gm_all_put)
next
  case (Review_Shown now cid status review)
  with assms show ?thesis
    by (simp add: schema_event_of_def schema_step_def set_review_def Let_def store_private_def split: option.splits)
next
  case Restart_Shown
  have "gm_all (\<lambda>op a. aggregate_private a)
      (fold (\<lambda>x m. if af_operation x = [] then m else gm_put (af_operation x) (restore_aggregate x) m)
        (map aggregate_snapshot (gm_values (sh_aggregates s))) [])"
  proof (rule fold_invariant [where P = "gm_all (\<lambda>op a. aggregate_private a)"])
    fix x and m :: "(string, schema_aggregate) gomap"
    assume x: "x \<in> set (map aggregate_snapshot (gm_values (sh_aggregates s)))" and m: "gm_all (\<lambda>op a. aggregate_private a) m"
    from x obtain op a where a: "(op, a) \<in> set (sh_aggregates s)" and xa: "x = aggregate_snapshot a" by auto
    from a assms have "aggregate_private a" by (auto simp: store_private_def gm_all_def)
    then have "aggregate_private (restore_aggregate x)" unfolding xa by (rule restored_private)
    with m show "gm_all (\<lambda>op a. aggregate_private a)
        (if af_operation x = [] then m else gm_put (af_operation x) (restore_aggregate x) m)" by (simp add: gm_all_put)
  qed simp
  with Restart_Shown show ?thesis
    by (simp add: schema_event_of_def schema_step_def restore_schema_def schema_snapshot_def new_schema_store_def store_private_def)
qed

interpretation shown_machine: invariant_machine "\<lambda>e. schema_step env (schema_event_of cenv e)" store_private for env cenv
  by unfold_locales (rule shown_step_private)


section \<open>What is not seen\<close>

fun nested :: "string list \<Rightarrow> json \<Rightarrow> json" where
  "nested [] v = v"
| "nested (k # ks) v = Json_Object [(k, nested ks v)]"

lemma flatten_nested: "max_sample_depth < depth + length ks \<Longrightarrow> flatten_json env depth prefix (nested ks v) out = out"
proof (induction ks arbitrary: depth prefix)
  case Nil
  then show ?case by (simp add: flatten_json.simps)
next
  case (Cons k ks)
  then show ?case by (simp add: flatten_json.simps [where v = "Json_Object kvs" for kvs] sort_by_def)
qed

text \<open>What is more than twelve objects deep in a JSON body is not seen: the request shows the same samples
  with any value there as with no body, so no rule of a profile, not even the one that denies unknown
  fields, applies to it.\<close>

theorem deep_fields_unseen:
  assumes "length ks > 12" and "sr_body r = Json_Body (nested ks v)"
  shows "collect_samples env r = collect_samples env (r\<lparr>sr_body := No_Body\<rparr>)"
proof -
  have "add_body env (sr_body r) out = add_body env No_Body out" for out
    using assms by (simp add: add_body_def flatten_nested max_sample_depth_def)
  then show ?thesis by (simp add: collect_samples_def Let_def cong: if_cong)
qed

lemma append_sample_full: "max_schema_sample_fields \<le> length out \<Longrightarrow> append_sample env path loc ty format enum raw out = out"
  by (simp add: append_sample_def)

lemma append_scalar_full: "max_schema_sample_fields \<le> length out \<Longrightarrow> append_scalar env path loc enum raw out = out"
  by (simp add: append_scalar_def append_sample_full case_prod_beta)

lemma add_values_full:
  assumes "max_schema_sample_fields \<le> length out" shows "add_values env loc m out = out"
  unfolding add_values_def by (rule fold_invariant [where P = "\<lambda>o'. o' = out"]) (auto simp: append_scalar_full assms)

lemma flatten_json_full: "max_schema_sample_fields \<le> length out \<Longrightarrow> flatten_json env depth prefix v out = out"
  by (simp add: flatten_json.simps)

lemma add_part_full: "max_schema_sample_fields \<le> length out \<Longrightarrow> add_part env p out = out"
  by (simp add: add_part_def append_sample_full append_scalar_full)

lemma add_body_full:
  assumes "max_schema_sample_fields \<le> length out" shows "add_body env b out = out"
proof -
  have "fold (add_part env) ps out = out" for ps
    by (rule fold_invariant [where P = "\<lambda>o'. o' = out"]) (auto simp: add_part_full assms)
  then show ?thesis by (cases b) (simp_all add: add_body_def add_values_full flatten_json_full assms)
qed

lemma append_header_length:
  "fst h \<noteq> [] \<Longrightarrow> length (append_header env h out) = (if length out < max_schema_sample_fields then Suc (length out) else length out)"
  by (auto simp: append_header_def append_sample_def Let_def split: prod.splits)

lemma add_headers_length:
  assumes "\<forall>h \<in> set hs. fst h \<noteq> []"
  shows "max_schema_sample_fields \<le> length out + length hs \<Longrightarrow> max_schema_sample_fields \<le> length (fold (append_header env) hs out)"
  using assms
proof (induction hs arbitrary: out)
  case (Cons h hs)
  have "max_schema_sample_fields \<le> length (append_header env h out) + length hs"
    using Cons.prems append_header_length [of h env out] by (simp split: if_splits)
  with Cons show ?case by simp
qed simp


lemma digit_visible: "digit_char c \<Longrightarrow> visible c"
  by (auto simp: digit_char_def visible_def less_eq_char_def)

lemma number_trim: "is_number v \<Longrightarrow> trim_space v = v"
  by (cases v) (auto simp: is_number_def list_all_iff intro!: trim_space_visible digit_visible)

lemma eight_digits_date:
  assumes "is_number v" and "length v = 8" shows "is_date v"
proof -
  have d: "c \<in> set v \<Longrightarrow> digit_char c" for c using assms(1) by (auto simp: is_number_def list_all_iff)
  have nd: "\<not> has_prefix t ''-''" if "set t \<subseteq> set v" for t
    using that d [of "CHR ''-''"] by (cases t) (auto simp: has_prefix_def digit_char_def less_eq_char_def)
  have "\<not> has_prefix (drop 4 v) ''-''" "\<not> has_prefix (drop 6 v) ''-''" by (auto intro!: nd dest: in_set_dropD)
  then show ?thesis using assms(2) d
    by (auto simp: is_date_def Let_def list_all_iff dest: in_set_takeD in_set_dropD)
qed

text \<open>A number of eight digits in a path, a query, a header or a form is taken for a date, so where a profile
  learned that a field holds integers or numbers, a request with such a number violates it.\<close>

theorem eight_digits_refused:
  assumes "is_number v" and "length v = 8" and "gm_get (pr_index r) (sample_key loc path) = Some f"
    and "set (pf_types f) \<subseteq> {''integer'', ''number''}"
  shows "infer_scalar env v = (''string'', ''date'') \<and>
    (\<forall>s \<in> set (append_scalar env path loc enum v []). sample_violations now op r q (fst s) \<noteq> [])"
proof -
  have "\<not> is_uuid v" using assms(2) by (simp add: is_uuid_def)
  moreover have "v \<noteq> []" using assms(2) by auto
  ultimately have t: "infer_scalar env v = (''string'', ''date'')"
    by (simp add: infer_scalar_def Let_def number_trim [OF assms(1)] eight_digits_date [OF assms(1,2)])
  have "\<not> type_allowed (pf_types f) ''string''" using assms(4) by (auto simp: type_allowed_def)
  with t assms(3) show ?thesis
    by (auto simp: append_scalar_def append_sample_def new_sample_def Let_def sample_violations_def)
qed

end
