(* ===== verification/Schema_Hidden.thy ===== *)
theory Schema_Hidden
  imports Schema_Privacy
begin

text \<open>
  The properties of the schema collector at concrete requests.
\<close>

definition any_collect_env :: collect_env where
  "any_collect_env = \<lparr>ce_float = (\<lambda>v. False), ce_hash8 = (\<lambda>x. x)\<rparr>"

definition query_request :: "form_values \<Rightarrow> form_values \<Rightarrow> shown_request" where
  "query_request hs q = \<lparr>sr_path = [], sr_headers = hs, sr_query = Some q, sr_body = No_Body, sr_truncated = False\<rparr>"

text \<open>A password in a query: the field is known afterwards, nothing of the value is kept.\<close>

lemma contains_itself: "contains_str s s"
  by (auto simp: contains_str_def has_prefix_def intro!: bexI [of _ 0])

lemma password_sensitive: "sensitive_field ''password''"
proof -
  have "filter (\<lambda>c. c \<notin> set ''_-. []'') (to_lower ''password'') = ''password''"
    by (simp add: to_lower_def lower_char_def less_eq_char_def)
  then show ?thesis by (simp add: sensitive_field_def sensitive_tokens_def contains_itself)
qed

lemma new_sample_place:
  "sm_path (fst (new_sample env path loc ty format enum raw)) = path"
  "sm_location (fst (new_sample env path loc ty format enum raw)) = loc"
  by (simp_all add: new_sample_def Let_def)

lemma password_samples:
  "\<exists>s. map fst (collect_samples any_collect_env (query_request [] [(''password'', [''hunter2''])])) = [s] \<and>
     sm_path s = ''password'' \<and> sm_location s = ''query''"
proof -
  have p: "split_on CHR ''/'' ''/'' = [[], []]" by simp
  show ?thesis
    by (simp add: collect_samples_def query_request_def add_path_samples_def normalize_operation_path_def p Let_def add_headers_def
        sorted_values_def sorted_keys_def sort_by_def add_values_def append_scalar_def append_sample_def new_sample_place add_body_def
        max_schema_sample_fields_def case_prod_beta)
qed

definition password_events :: "shown_event list" where
  "password_events = [Show_Request 1 ''op'' False (query_request [] [(''password'', [''hunter2''])])]"


text \<open>A body thirteen objects deep.\<close>

definition deep_request :: "json \<Rightarrow> shown_request" where
  "deep_request v = \<lparr>sr_path = ''/a'', sr_headers = [], sr_query = None, sr_body = Json_Body (nested (replicate 13 ''k'') v),
     sr_truncated = False\<rparr>"

lemma deep_fields_unseen_witness:
  "collect_samples any_collect_env (deep_request (Json_String ''x'')) = collect_samples any_collect_env (deep_request (Json_Bool True))"
proof -
  have "length (replicate 13 ''k'') > (12 :: nat)" by simp
  from deep_fields_unseen [OF this, of "deep_request v" v for v] show ?thesis by (simp add: deep_request_def)
qed

text \<open>One header with 256 values.\<close>

lemma flood_values: "sorted_values [(''x-a'', vs)] = map (Pair ''x-a'') vs"
  by (simp add: sorted_values_def sorted_keys_def sort_by_def)


text \<open>The profile of \<open>Positive_Witness\<close> and a page number of eight digits.\<close>

definition page_runtime :: positive_runtime where
  "page_runtime = \<lparr>pr_profile = page_profile, pr_deployment = page_deployment Enforce 403 12 [], pr_exceptions = [],
     pr_index = field_index (pv_fields page_profile)\<rparr>"

lemma eight_digits_refused_witness:
  "infer_scalar any_collect_env ''12345678'' = (''string'', ''date'') \<and>
   (\<forall>s \<in> set (append_scalar any_collect_env ''page'' ''query'' [] ''12345678'' []).
      sample_violations 5 ''op'' page_runtime (page_request []) (fst s) \<noteq> [])"
proof -
  have n: "is_number ''12345678''" by (simp add: is_number_def digit_char_def less_eq_char_def)
  have f: "gm_get (pr_index page_runtime) (sample_key ''query'' ''page'') = Some \<lparr>pf_path = ''page'', pf_location = ''query'',
    pf_types = [''integer''], pf_formats = [], pf_enum = [], pf_required = True, pf_sensitive = False\<rparr>"
    by (simp add: page_runtime_def page_index sample_key_def)
  show ?thesis by (rule eight_digits_refused [OF n _ f]) simp_all
qed

end
