(* ===== verification/Go_Fields.thy ===== *)
theory Go_Fields
  imports Go_Prelude
begin

text \<open>\<^verbatim>\<open>strings.Fields\<close>: the words of a text between its spaces.\<close>

fun first_word :: "string \<Rightarrow> string" where
  "first_word [] = []"
| "first_word (c # s) = (if lead_rune space_runes (c # s) = None then c # first_word s else [])"

lemma strip_left_start: "strip_left space_runes s = c # t \<Longrightarrow> lead_rune space_runes (c # t) = None"
  by (induction space_runes s rule: strip_left.induct) (simp add: strip_left.simps split: option.splits)

lemma length_strip_left: "length (strip_left rs s) \<le> length s"
proof (induction rs s rule: strip_left.induct)
  case (1 rs s)
  show ?case
  proof (cases "lead_rune rs s")
    case (Some r)
    from 1 [OF Some] Some show ?thesis by (simp add: strip_left.simps [of rs s])
  qed (simp add: strip_left.simps)
qed

function go_fields :: "string \<Rightarrow> string list" where
  "go_fields s =
     (let t = strip_left space_runes s in
      if t = [] then [] else first_word t # go_fields (drop (length (first_word t)) t))"
  by pat_completeness auto

termination
proof (relation "measure length")
  fix s t :: string
  assume t: "t = strip_left space_runes s" "t \<noteq> []"
  obtain c u where c: "t = c # u" using t(2) by (meson neq_Nil_conv)
  with t(1) have "lead_rune space_runes (c # u) = None" using strip_left_start [of s c u] by simp
  with c have "first_word t \<noteq> []" by simp
  with t(2) have "length (drop (length (first_word t)) t) < length t" by simp
  also have "\<dots> \<le> length s" unfolding t(1) by (rule length_strip_left)
  finally show "(drop (length (first_word t)) t, s) \<in> measure length" by simp
qed simp

declare go_fields.simps [simp del]

text \<open>Words of printing ASCII characters, with one blank between them.\<close>

lemma lead_visible: "visible c \<Longrightarrow> lead_rune space_runes (c # s) = None"
  using lead_rune_visible [of space_runes "c # s"] space_runes_invisible by simp

lemma blank_byte: "CHR '' '' = byte n \<longleftrightarrow> n mod 256 = 32"
  by (subst eq_commute) (simp add: char_of_eq_iff take_bit_eq_mod)

lemma lead_blank: "lead_rune space_runes (CHR '' '' # s) = Some '' ''"
proof -
  have "byte 32 = CHR '' ''" by (subst eq_commute) (simp add: blank_byte)
  then show ?thesis by (simp add: lead_rune_def space_runes_def has_prefix_def blank_byte)
qed

lemma first_word_visible: "\<forall>c \<in> set w. visible c \<Longrightarrow> first_word (w @ CHR '' '' # s) = w"
  by (induction w) (simp_all add: lead_visible lead_blank)

lemma first_word_all: "\<forall>c \<in> set w. visible c \<Longrightarrow> first_word w = w"
  by (induction w) (simp_all add: lead_visible)

lemma strip_left_word: "w \<noteq> [] \<Longrightarrow> visible (hd w) \<Longrightarrow> strip_left space_runes (w @ s) = w @ s"
  by (cases w) (simp_all add: strip_left.simps lead_visible)

lemma go_fields_blank: "go_fields (CHR '' '' # s) = go_fields s"
proof -
  have "strip_left space_runes (CHR '' '' # s) = strip_left space_runes s" by (simp add: strip_left.simps [of _ "CHR '' '' # s"] lead_blank)
  then show ?thesis by (simp add: go_fields.simps)
qed

lemma go_fields_word:
  assumes "w \<noteq> []" and "\<forall>c \<in> set w. visible c" shows "go_fields (w @ CHR '' '' # s) = w # go_fields s"
proof -
  have "strip_left space_runes (w @ CHR '' '' # s) = w @ CHR '' '' # s" using assms by (intro strip_left_word) auto
  with assms show ?thesis by (subst go_fields.simps) (simp add: Let_def first_word_visible go_fields_blank)
qed

lemma go_fields_last:
  assumes "w \<noteq> []" and "\<forall>c \<in> set w. visible c" shows "go_fields w = [w]"
proof -
  have "strip_left space_runes w = w" using strip_left_word [of w "[]"] assms by auto
  with assms show ?thesis by (subst go_fields.simps) (simp add: Let_def first_word_all go_fields.simps [of "[]"])
qed

end
