(* ===== verification/Inventory_Machine.thy ===== *)
theory Inventory_Machine
  imports Operation_Inventory
begin

text \<open>
  The inventory of operations as a machine: its limits, which of its counts have none, and that
  normalizing a path is done after one pass.
\<close>

section \<open>Normalized paths\<close>

lemma split_on_sep: "p \<in> set (split_on c s) \<Longrightarrow> c \<notin> set p"
  by (induction c s arbitrary: p rule: split_on.induct) (auto split: list.splits if_splits)

lemma split_on_plain: "c \<notin> set s \<Longrightarrow> split_on c s = [s]"
  by (induction s) auto

lemma split_on_join:
  assumes "ps \<noteq> []" and "\<forall>p \<in> set ps. c \<notin> set p"
  shows "split_on c (join_with [c] ps) = ps"
  using assms
proof (induction ps rule: list_nonempty_induct)
  case (single p)
  then show ?case by (simp add: join_with_def split_on_plain)
next
  case (cons p ps)
  then obtain q qs where ps: "ps = q # qs" by (cases ps) auto
  have "join_with [c] (p # ps) = p @ c # join_with [c] ps" by (simp add: join_with_def ps)
  with cons show ?case by (simp add: split_on_append split_on_plain)
qed

lemma split_on_blank: "split_on c s = [[]] \<Longrightarrow> s = []"
  by (cases s) (auto split: if_splits list.splits)

lemma brace_char: "\<not> digit_char CHR ''{''" "\<not> ulid_char CHR ''{''"
  by (simp_all add: ulid_char_def digit_char_def alpha_char_def less_eq_char_def)

lemma brace_byte: "CHR ''{'' \<noteq> byte 226" "CHR ''{'' \<noteq> byte 197"
  by (simp_all add: char_of_eq_iff take_bit_eq_mod eq_commute [of "CHR ''{''"])

lemma brace_plain:
  assumes "length s < 16" and "s = CHR ''{'' # c # t" shows "classify_segment s = None"
proof -
  have "\<not> is_number s" using assms(2) by (simp add: is_number_def brace_char)
  moreover have "\<not> is_date s"
  proof
    assume "is_date s"
    then have "list_all digit_char (take 4 s)" by (simp add: is_date_def Let_def)
    with assms(2) show False by (simp add: brace_char)
  qed
  moreover have "\<not> is_ulid s" using assms(2) by (simp add: is_ulid_def brace_char brace_byte)
  ultimately show ?thesis using assms(1) by (simp add: classify_segment_def is_uuid_def is_hex_id_def is_token_def)
qed

lemma holder_plain: "classify_segment ''{id}'' = None" "classify_segment ''{date}'' = None"
  by (simp_all add: brace_plain)

lemma normal_segment_again: "normal_segment (normal_segment p) = normal_segment p"
  using holder_plain
  by (auto simp: normal_segment_def split: option.splits) (auto simp: classify_segment_def split: if_splits)

lemma normal_segment_sep: "CHR ''/'' \<notin> set p \<Longrightarrow> CHR ''/'' \<notin> set (normal_segment p)"
  by (auto simp: normal_segment_def classify_segment_def split: option.splits if_splits)

text \<open>Normalizing the path of a request twice is normalizing it once, so an operation keeps its id when
  its own normalized path is seen again.\<close>

theorem normalize_path_idem:
  "normalize_operation_path (normalize_operation_path p) = normalize_operation_path p"
proof (cases "p = []")
  case True
  have "split_on CHR ''/'' ''/'' = [[], []]" by simp
  moreover have "normal_segment [] = []"
    by (simp add: normal_segment_def classify_segment_def is_uuid_def is_ulid_def is_date_def is_number_def is_hex_id_def
        is_token_def has_prefix_def Let_def)
  ultimately show ?thesis using True by (simp add: normalize_operation_path_def join_with_def)
next
  case False
  let ?ps = "map normal_segment (split_on CHR ''/'' p)"
  have s: "split_on CHR ''/'' (join_with ''/'' ?ps) = ?ps"
    using split_on_sep normal_segment_sep by (intro split_on_join) auto
  have "map normal_segment ?ps = ?ps" by (simp add: normal_segment_again)
  moreover have "join_with ''/'' ?ps \<noteq> []"
  proof
    assume "join_with ''/'' ?ps = []"
    with s have "?ps = [[]]" by simp
    then obtain x where x: "split_on CHR ''/'' p = [x]" "normal_segment x = []" by auto
    then have "x = []" by (auto simp: normal_segment_def classify_segment_def split: option.splits if_splits)
    with x False split_on_blank show False by blast
  qed
  ultimately show ?thesis using False s by (simp add: normalize_operation_path_def del: map_map)
qed

section \<open>The machine\<close>

datatype inventory_event =
    Visit_Operation gtime operation_visit
  | Ignore_Operation string bool
  | Reclassify_Operation string string string

definition inventory_step :: "inventory_env \<Rightarrow> inventory_event \<Rightarrow> inventory \<Rightarrow> inventory" where
  "inventory_step env e s = (case e of
     Visit_Operation now v \<Rightarrow> snd (note_operation env now v s)
   | Ignore_Operation k ignored \<Rightarrow> snd (ignore_operation k ignored s)
   | Reclassify_Operation k path cls \<Rightarrow> snd (reclassify_operation env k path cls s))"

text \<open>The keys an authentication scheme can be counted under.\<close>

definition auth_keys :: "string list" where
  "auth_keys = map (\<lambda>fs. if fs = [] then ''none'' else join_with ''+'' fs) (subseqs auth_families)"

lemma auth_family_known: "auth_family part = Some f \<Longrightarrow> f \<in> set auth_families"
  by (auto simp: auth_family_def auth_families_def Let_def split: if_splits)

lemma sorted_auth_families: "sorted auth_families \<and> distinct auth_families"
  by (simp add: auth_families_def less_eq_char_def)

lemma filter_in_subseqs: "filter P xs \<in> set (subseqs xs)"
  by (induction xs) (auto simp: Let_def)

lemma sorted_families:
  assumes "set seen \<subseteq> set auth_families"
  shows "sort_by (\<lambda>a b. a < b) (remdups seen) = filter (\<lambda>f. f \<in> set seen) auth_families"
proof (rule sorted_distinct_set_unique)
  show "sorted (sort_by (\<lambda>a b. a < b) (remdups seen))"
    using sort_by_key_sorted [of "\<lambda>x. x" "remdups seen"] by simp
  show "sorted (filter (\<lambda>f. f \<in> set seen) auth_families)"
    by (rule sorted_wrt_filter) (simp add: sorted_auth_families)
  show "set (sort_by (\<lambda>a b. a < b) (remdups seen)) = set (filter (\<lambda>f. f \<in> set seen) auth_families)"
    using assms by auto
qed (simp_all add: sorted_auth_families)

lemma normalize_auth_keys: "normalize_auth_scheme s \<in> set auth_keys"
proof -
  define seen where "seen = List.map_filter auth_family (split_on CHR ''+'' (to_lower (trim_space s)))"
  define fs where "fs = filter (\<lambda>f. f \<in> set seen) auth_families"
  have sub: "set seen \<subseteq> set auth_families" by (auto simp: seen_def List.map_filter_def dest: auth_family_known)
  have "set seen = set fs" using sub by (auto simp: fs_def)
  then have "seen = [] \<longleftrightarrow> fs = []" by auto
  then have "normalize_auth_scheme s = (if fs = [] then ''none'' else join_with ''+'' fs)"
    unfolding normalize_auth_scheme_def Let_def seen_def [symmetric] sorted_families [OF sub] fs_def by simp
  moreover have "fs \<in> set (subseqs auth_families)" unfolding fs_def by (rule filter_in_subseqs)
  ultimately show ?thesis unfolding auth_keys_def set_map by (rule image_eqI)
qed

lemma length_auth_keys: "length auth_keys = 32"
  by (simp add: auth_keys_def length_subseqs auth_families_def)

section \<open>Limits\<close>

definition operation_ok :: "string \<Rightarrow> api_operation \<Rightarrow> bool" where
  "operation_ok k op \<longleftrightarrow> op_id op = k \<and> gm_ok (op_auth op) \<and> fst ` set (op_auth op) \<subseteq> set auth_keys \<and> length (op_examples op) \<le> 8"

definition inventory_ok :: "inventory \<Rightarrow> bool" where
  "inventory_ok s \<longleftrightarrow> bounded_map (int max_inventory) operation_ok s"

lemma append_unique_length: "length xs \<le> n \<Longrightarrow> length (append_unique n v xs) \<le> n"
  by (simp add: append_unique_def Let_def)

lemma count_visit_ok:
  assumes "operation_ok k op" shows "operation_ok k (count_visit now v op)"
proof -
  have "gm_ok (count_up (normalize_auth_scheme (ov_auth v)) (op_auth op))" "length (append_unique 8 (ov_path v) (op_examples op)) \<le> 8"
    using assms by (simp_all add: operation_ok_def count_up_ok append_unique_length)
  with assms normalize_auth_keys [of "ov_auth v"] show ?thesis
    by (simp add: operation_ok_def count_visit_def Let_def count_up_keys)
qed

lemma new_operation_ok: "operation_ok (visit_id env v) (new_operation env now v)"
  by (simp add: operation_ok_def new_operation_def visit_id_def Let_def gm_ok_def)

lemma note_operation_ok: "inventory_ok s \<Longrightarrow> inventory_ok (snd (note_operation env now v s))"
  unfolding inventory_ok_def note_operation_def
  by (auto simp: Let_def has_room_def gm_has_def max_inventory_def count_visit_ok new_operation_ok
      intro!: bounded_map_put dest: bounded_map_get split: option.splits)

lemma ignore_operation_ok: "inventory_ok s \<Longrightarrow> inventory_ok (snd (ignore_operation k ignored s))"
  unfolding inventory_ok_def ignore_operation_def
  by (auto simp: Let_def operation_ok_def intro!: bounded_map_put dest: bounded_map_get has_room_get split: option.splits)

lemma reclassify_operation_ok: "inventory_ok s \<Longrightarrow> inventory_ok (snd (reclassify_operation env k path cls s))"
  unfolding inventory_ok_def reclassify_operation_def
  by (auto simp: Let_def operation_ok_def intro!: bounded_map_put dest: bounded_map_get has_room_get split: option.splits)

lemma inventory_step_ok: "inventory_ok s \<Longrightarrow> inventory_ok (inventory_step env e s)"
  by (simp add: inventory_step_def note_operation_ok ignore_operation_ok reclassify_operation_ok split: inventory_event.split)

lemma inventory_length_step: "length s \<le> length (inventory_step env e s)"
  by (auto simp: inventory_step_def note_operation_def ignore_operation_def reclassify_operation_def Let_def length_gm_put
      split: inventory_event.split option.split)

interpretation inventory_machine: monotone_machine "inventory_step env" inventory_ok length for env
  by unfold_locales (erule inventory_step_ok, rule inventory_length_step)

lemma inventory_run_ok: "inventory_ok (run_machine (inventory_step env) es [])"
  by (rule inventory_machine.inv_run) (simp add: inventory_ok_def)

text \<open>Whatever requests come in, the inventory holds at most 10000 operations, each under its id, with at
  most 32 authentication schemes (whatever the Authorization headers say) and 8 example paths.\<close>

theorem inventory_bounded:
  assumes "s = run_machine (inventory_step env) es []"
  shows "length s \<le> 10000 \<and> (\<forall>k op. gm_get s k = Some op \<longrightarrow>
    op_id op = k \<and> length (op_auth op) \<le> 32 \<and> length (op_examples op) \<le> 8)"
proof -
  have b: "bounded_map (int max_inventory) operation_ok s"
    using inventory_run_ok [of env es] by (simp add: assms inventory_ok_def)
  have "length (op_auth op) \<le> 32" if "operation_ok k op" for k op
  proof -
    from that have d: "distinct (map fst (op_auth op))" and sub: "set (map fst (op_auth op)) \<subseteq> set auth_keys"
      by (simp_all add: operation_ok_def gm_ok_def)
    have "length (op_auth op) = card (set (map fst (op_auth op)))" using distinct_card [OF d] by simp
    also have "\<dots> \<le> card (set auth_keys)" by (rule card_mono [OF _ sub]) simp
    also have "\<dots> \<le> 32" using card_length [of auth_keys] length_auth_keys by simp
    finally show ?thesis .
  qed
  with b show ?thesis
    by (auto simp: bounded_map_def max_inventory_def operation_ok_def dest!: gm_all_get)
qed

section \<open>What has no limit\<close>

lemma full_step:
  assumes "max_inventory \<le> length s" and "\<not> gm_has s k"
  shows "\<not> gm_has (inventory_step env e s) k \<and> max_inventory \<le> length (inventory_step env e s)"
  using assms inventory_length_step [of s env e]
  by (auto simp: inventory_step_def note_operation_def ignore_operation_def reclassify_operation_def Let_def gm_has_def gm_get_put
      split: inventory_event.split option.split)

text \<open>Operations are never evicted: once 10000 are known, whoever sent the requests that made them so, an
  operation that is not among them is never learned, and so never reviewed nor enforced.\<close>

theorem full_inventory_learns_nothing:
  assumes "10000 \<le> length s" and "\<not> gm_has s (visit_id env v)"
  shows "fst (note_operation env now v (run_machine (inventory_step env) es s)) = zero_operation"
proof -
  have "\<not> gm_has (run_machine (inventory_step env) es s) (visit_id env v) \<and>
      max_inventory \<le> length (run_machine (inventory_step env) es s)"
    using assms full_step [where k = "visit_id env v" and env = env]
    by (induction es arbitrary: s) (simp_all add: max_inventory_def)
  then show ?thesis by (simp add: note_operation_def gm_has_def)
qed

definition media_name :: "nat \<Rightarrow> string" where
  "media_name i = replicate (Suc i) (CHR ''a'')"

definition typed_visit :: "nat \<Rightarrow> operation_visit" where
  "typed_visit i = \<lparr>ov_site = ''s'', ov_host = [], ov_method = ''POST'', ov_path = ''/a'', ov_content_type = media_name i,
     ov_auth = [], ov_code = 200\<rparr>"

definition typed_visits :: "nat \<Rightarrow> inventory_event list" where
  "typed_visits n = map (\<lambda>i. Visit_Operation 1 (typed_visit i)) [0..<n]"

lemma typed_visit_media: "normalize_media_type (ov_content_type (typed_visit i)) = media_name i"
proof -
  have "to_lower (replicate (Suc i) (CHR ''a'')) = replicate (Suc i) (CHR ''a'')"
    by (simp add: to_lower_def lower_char_def less_eq_char_def)
  moreover have "trim_space (replicate (Suc i) (CHR ''a'')) = replicate (Suc i) (CHR ''a'')"
    by (rule trim_space_visible) (simp_all add: visible_def less_eq_char_def last_replicate del: replicate_Suc)
  ultimately show ?thesis by (simp add: normalize_media_type_def typed_visit_def media_name_def Let_def del: replicate_Suc)
qed

lemma typed_visit_counts:
  "n > 0 \<Longrightarrow> \<exists>op. gm_get (run_machine (inventory_step env) (typed_visits n) []) (visit_id env (typed_visit 0)) = Some op \<and>
     fst ` set (op_content_types op) = media_name ` {..<n} \<and> gm_ok (op_content_types op)"
proof (induction n)
  case (Suc n)
  let ?s = "run_machine (inventory_step env) (typed_visits n) []"
  have k: "visit_id env (typed_visit i) = visit_id env (typed_visit 0)" for i by (simp add: visit_id_def typed_visit_def)
  have step: "run_machine (inventory_step env) (typed_visits (Suc n)) [] = snd (note_operation env 1 (typed_visit n) ?s)"
    by (simp add: typed_visits_def run_machine_append inventory_step_def)
  show ?case
  proof (cases "n = 0")
    case True
    have new: "op_content_types (new_operation env 1 v) = []" for v by (simp add: new_operation_def Let_def)
    have "op_content_types (count_visit 1 (typed_visit 0) (new_operation env 1 (typed_visit 0))) = [(''a'', i64 1)]"
      using typed_visit_media [of 0] by (simp add: media_name_def count_visit_def Let_def new count_up_def count_of_def)
    with True show ?thesis unfolding step
      by (simp add: typed_visits_def note_operation_def max_inventory_def Let_def gm_ok_def lessThan_Suc media_name_def)
  next
    case False
    with Suc.IH obtain op where op: "gm_get ?s (visit_id env (typed_visit 0)) = Some op"
      "fst ` set (op_content_types op) = media_name ` {..<n}" "gm_ok (op_content_types op)" by auto
    have "op_content_types (count_visit 1 (typed_visit n) op) = count_up (media_name n) (op_content_types op)"
      by (simp add: count_visit_def Let_def typed_visit_media) (simp add: media_name_def)
    then have c: "fst ` set (op_content_types (count_visit 1 (typed_visit n) op)) =
        insert (media_name n) (media_name ` {..<n})"
      "gm_ok (op_content_types (count_visit 1 (typed_visit n) op))"
      by (simp_all only: count_up_keys count_up_ok op)
    have "media_name ` {..<Suc n} = insert (media_name n) (media_name ` {..<n})" by (simp add: lessThan_Suc)
    moreover have "gm_get (snd (note_operation env 1 (typed_visit n) ?s)) (visit_id env (typed_visit 0)) =
        Some (count_visit 1 (typed_visit n) op)"
      unfolding note_operation_def k [of n] op(1) by (simp add: Let_def gm_get_put)
    ultimately show ?thesis unfolding step using c by simp
  qed
qed simp

text \<open>The media types of an operation have no limit: there is a traffic of \<open>n\<close> requests after which one
  operation holds \<open>n\<close> of them, for every \<open>n\<close>.\<close>

theorem content_types_unbounded:
  "\<exists>es k op. length es = Suc n \<and> gm_get (run_machine (inventory_step env) es []) k = Some op \<and>
    length (op_content_types op) = Suc n"
proof -
  from typed_visit_counts [of "Suc n" env] obtain op where
    op: "gm_get (run_machine (inventory_step env) (typed_visits (Suc n)) []) (visit_id env (typed_visit 0)) = Some op"
      "fst ` set (op_content_types op) = media_name ` {..<Suc n}" "gm_ok (op_content_types op)" by auto
  have "inj_on media_name {..<Suc n}" by (rule inj_onI) (simp add: media_name_def replicate_eq_replicate)
  then have "card (media_name ` {..<Suc n}) = Suc n" by (simp only: card_image card_lessThan)
  moreover have "length (op_content_types op) = card (fst ` set (op_content_types op))"
    using op(3) distinct_card [of "map fst (op_content_types op)"] by (simp add: gm_ok_def)
  ultimately have "length (op_content_types op) = Suc n" unfolding op(2) by simp
  with op(1) show ?thesis by (intro exI [of _ "typed_visits (Suc n)"] exI conjI) (auto simp: typed_visits_def)
qed

text \<open>The same at concrete inventories.\<close>

definition any_inventory_env :: inventory_env where
  "any_inventory_env = \<lparr>iv_hash = (\<lambda>x. x), iv_hash16 = (\<lambda>x. x)\<rparr>"

definition full_inventory :: inventory where
  "full_inventory = map (\<lambda>i. (replicate i (CHR ''x''), zero_operation)) [0..<10000]"

lemma full_inventory_learns_nothing_witness:
  "\<not> gm_has full_inventory (visit_id any_inventory_env (typed_visit 0)) \<and>
   fst (note_operation any_inventory_env 5 (typed_visit 0)
     (run_machine (inventory_step any_inventory_env) [Ignore_Operation [] True] full_inventory)) = zero_operation"
proof -
  have "trim_space ''s'' = ''s''" by (rule trim_space_visible) (simp_all add: visible_def less_eq_char_def)
  then have ne: "\<forall>i. visit_id any_inventory_env (typed_visit 0) \<noteq> replicate i (CHR ''x'')"
    by (intro allI; case_tac i) (simp_all add: visit_id_def operation_id_def any_inventory_env_def typed_visit_def to_lower_def lower_char_def less_eq_char_def)
  then have no: "\<not> gm_has full_inventory (visit_id any_inventory_env (typed_visit 0))"
    unfolding full_inventory_def gm_has_iff using ne by (auto simp del: upt_conv_Cons)
  have "10000 \<le> length full_inventory" by (simp add: full_inventory_def del: upt_conv_Cons)
  from full_inventory_learns_nothing [OF this no] no show ?thesis by blast
qed

lemma inventory_bounded_witness:
  "length (run_machine (inventory_step any_inventory_env) (typed_visits 3) []) \<le> 10000"
  using inventory_bounded [OF refl, of any_inventory_env "typed_visits 3"] by simp

end
