(* ===== verification/Page_Signals.thy ===== *)
theory Page_Signals
  imports Client_Identity
begin

text \<open>
  The signals of pages and the rule profiles suggested from them (\<^verbatim>\<open>profiles.go\<close>).
  What the regular expressions find in an HTML body is an argument, as is \<open>form_action\<close>, the
  resolution of the address of a form against its page.
\<close>

section \<open>Fields\<close>

record found_field =
  fd_name :: string
  fd_type :: string
  fd_method :: string
  fd_action :: string
  fd_required :: bool
  fd_source :: string

type_synonym form_action = "string \<Rightarrow> string \<Rightarrow> string"

definition field_char :: "char \<Rightarrow> bool" where
  "field_char c \<longleftrightarrow> (CHR ''a'' \<le> c \<and> c \<le> CHR ''z'') \<or> (CHR ''A'' \<le> c \<and> c \<le> CHR ''Z'') \<or>
     (CHR ''0'' \<le> c \<and> c \<le> CHR ''9'') \<or> c \<in> set ''_.-''"

definition valid_field_name :: "string \<Rightarrow> bool" where
  "valid_field_name v \<longleftrightarrow> v \<noteq> [] \<and> length v \<le> 128 \<and> list_all field_char v"

definition merge_field_source :: "string \<Rightarrow> string \<Rightarrow> string" where
  "merge_field_source a b = (if a = [] then b else if b = [] \<or> a = b then a else ''both'')"

definition update_field :: "found_field \<Rightarrow> found_field \<Rightarrow> found_field" where
  "update_field f cur =
     (let html = (fd_source f = ''crawled'' \<or> fd_source f = ''both'') in
      cur\<lparr>fd_source := merge_field_source (fd_source cur) (fd_source f),
        fd_type := (if html \<and> fd_type f \<noteq> [] then fd_type f else fd_type cur),
        fd_required := (if html then fd_required f else fd_required cur)\<rparr>)"

definition field_key :: "form_action \<Rightarrow> string \<Rightarrow> found_field \<Rightarrow> string \<times> string \<times> string" where
  "field_key act page f = (to_upper (fd_method f), act page (fd_action f), fd_name f)"

definition merge_discovered_one :: "form_action \<Rightarrow> string \<Rightarrow> found_field \<Rightarrow> found_field list \<Rightarrow> found_field list" where
  "merge_discovered_one act page f out =
     (let f = f\<lparr>fd_method := to_upper (fd_method f), fd_action := act page (fd_action f)\<rparr> in
      if \<not> valid_field_name (fd_name f) \<or> fd_method f = [] then out
      else (case find (\<lambda>i. field_key act page (out ! i) = field_key act page f) (rev [0..<length out]) of
          Some i \<Rightarrow> out[i := update_field f (out ! i)]
        | None \<Rightarrow> out @ [f]))"

definition merge_discovered :: "form_action \<Rightarrow> found_field list \<Rightarrow> found_field list \<Rightarrow> string \<Rightarrow> found_field list" where
  "merge_discovered act existing incoming page = fold (merge_discovered_one act page) incoming existing"

definition merge_observed_one :: "form_action \<Rightarrow> string \<Rightarrow> found_field \<Rightarrow> found_field list \<Rightarrow> found_field list" where
  "merge_observed_one act page f out =
     (let f = f\<lparr>fd_method := to_upper (fd_method f),
            fd_action := (if fd_action f = [] \<or> fd_action f = page then page else act page (fd_action f))\<rparr> in
      if \<not> valid_field_name (fd_name f) \<or> fd_method f = [] then out
      else (case find (\<lambda>i. fd_name (out ! i) = fd_name f \<and> fd_method (out ! i) = fd_method f \<and> fd_action (out ! i) = fd_action f)
            [0..<length out] of
          Some i \<Rightarrow> out[i := update_field f (out ! i)]
        | None \<Rightarrow> out @ [f]))"

definition merge_observed :: "form_action \<Rightarrow> found_field list \<Rightarrow> found_field list \<Rightarrow> string \<Rightarrow> found_field list" where
  "merge_observed act existing incoming page = fold (merge_observed_one act page) incoming existing"

definition passive_field_limit :: nat where "passive_field_limit = 128"

text \<open>The fields a body names, from the names in it with their kind.\<close>

definition add_passive_field :: "string \<Rightarrow> string \<Rightarrow> string \<times> string \<Rightarrow> found_field list \<Rightarrow> found_field list" where
  "add_passive_field m action nk out =
     (let name = trim_space (fst nk) in
      if length out \<ge> passive_field_limit \<or> \<not> valid_field_name name \<or> name \<in> set (map fd_name out) then out
      else out @ [\<lparr>fd_name = name, fd_type = snd nk, fd_method = m, fd_action = action, fd_required = False, fd_source = ''passive''\<rparr>])"

definition passive_fields :: "string \<Rightarrow> string \<Rightarrow> (string \<times> string) list \<Rightarrow> found_field list" where
  "passive_fields m path names =
     (let m = to_upper m in
      if m \<notin> {''POST'', ''PUT'', ''PATCH''} then [] else fold (add_passive_field m path) names [])"

section \<open>Signals\<close>

record page_signal =
  ps_has_form :: bool
  ps_post_form :: bool
  ps_inputs :: nat
  ps_password :: bool
  ps_file :: bool
  ps_hidden :: bool
  ps_query_params :: nat
  ps_json :: bool
  ps_static :: bool
  ps_seen_post :: bool
  ps_crawled :: bool
  ps_fields :: "found_field list"

type_synonym site_signals = "(string, page_signal) gomap"
type_synonym signal_store = "(string, site_signals) gomap"

definition no_signal :: page_signal where
  "no_signal = \<lparr>ps_has_form = False, ps_post_form = False, ps_inputs = 0, ps_password = False, ps_file = False, ps_hidden = False,
     ps_query_params = 0, ps_json = False, ps_static = False, ps_seen_post = False, ps_crawled = False, ps_fields = []\<rparr>"

definition signals_of :: "string \<Rightarrow> signal_store \<Rightarrow> site_signals" where
  "signals_of site s = (case gm_get s site of None \<Rightarrow> [] | Some m \<Rightarrow> m)"

definition signal_of :: "string \<Rightarrow> site_signals \<Rightarrow> page_signal" where
  "signal_of path m = (case gm_get m path of None \<Rightarrow> no_signal | Some g \<Rightarrow> g)"

definition clear_signals :: "string \<Rightarrow> signal_store \<Rightarrow> signal_store" where
  "clear_signals site s = gm_del site s"

record request_shape =
  sp_method :: string
  sp_query :: string
  sp_content_type :: string
  sp_fields :: "found_field list"

definition is_password_field :: "found_field \<Rightarrow> bool" where
  "is_password_field f \<longleftrightarrow> fd_type f = ''password'' \<or> contains_str (to_lower (fd_name f)) ''password'' \<or>
     contains_str (to_lower (fd_name f)) ''passwd''"

definition shape_signal :: "form_action \<Rightarrow> string \<Rightarrow> request_shape \<Rightarrow> page_signal \<Rightarrow> page_signal" where
  "shape_signal act path r g =
     (let g = (if to_upper (sp_method r) \<in> {''POST'', ''PUT'', ''PATCH''} then g\<lparr>ps_seen_post := True\<rparr> else g);
          g = (if sp_fields r = [] then g
               else let fs = merge_observed act (ps_fields g) (sp_fields r) path in
                 g\<lparr>ps_has_form := True, ps_post_form := True, ps_fields := fs, ps_inputs := length fs,
                   ps_password := (ps_password g \<or> list_ex is_password_field fs),
                   ps_file := (ps_file g \<or> list_ex (\<lambda>f. fd_type f = ''file'') fs)\<rparr>);
          g = (if contains_str (to_lower (sp_content_type r)) ''application/json'' then g\<lparr>ps_json := True\<rparr> else g)
      in if sp_query r = [] then g
         else g\<lparr>ps_query_params := max (ps_query_params g) (length (filter (\<lambda>c. c = CHR ''='') (sp_query r)))\<rparr>)"

definition note_shape :: "form_action \<Rightarrow> string \<Rightarrow> string \<Rightarrow> request_shape \<Rightarrow> signal_store \<Rightarrow> signal_store" where
  "note_shape act site path r s =
     (let m = signals_of site s in gm_put site (gm_put path (shape_signal act path r (signal_of path m)) m) s)"

text \<open>\<^verbatim>\<open>strings.Count\<close>: the occurrences that do not overlap.\<close>

function count_str :: "string \<Rightarrow> string \<Rightarrow> nat" where
  "count_str sub s =
     (if sub = [] \<or> s = [] then 0
      else if has_prefix s sub then Suc (count_str sub (drop (length sub) s)) else count_str sub (tl s))"
  by pat_completeness auto

termination
  by (relation "measure (\<lambda>(sub, s). length s)") auto

declare count_str.simps [simp del]

text \<open>\<open>found\<close>: the fields of the forms in the body, before their addresses are resolved.\<close>

definition html_signal :: "form_action \<Rightarrow> string \<Rightarrow> string \<Rightarrow> found_field list \<Rightarrow> page_signal \<Rightarrow> page_signal" where
  "html_signal act path body fs g =
     (let low = to_lower body; form = contains_str low ''<form'' in
      g\<lparr>ps_has_form := (ps_has_form g \<or> form),
        ps_post_form := (ps_post_form g \<or> (form \<and> (contains_str low ''method=\"post\"'' \<or> contains_str low ''method=post'' \<or>
          contains_str low (''method='' @ [CHR 0x27] @ ''post'' @ [CHR 0x27])))),
        ps_inputs := count_str ''<input'' low,
        ps_password := (contains_str low ''type=\"password\"'' \<or> contains_str low ''type=password''),
        ps_file := (contains_str low ''type=\"file\"'' \<or> contains_str low ''type=file''),
        ps_hidden := contains_str low ''type=\"hidden\"'',
        ps_fields := merge_discovered act (ps_fields g) fs path\<rparr>)"

definition target_signal :: "form_action \<Rightarrow> found_field \<Rightarrow> page_signal \<Rightarrow> page_signal" where
  "target_signal act f g =
     (let fs = merge_discovered act (ps_fields g) [f] (fd_action f) in
      g\<lparr>ps_fields := fs, ps_has_form := True, ps_inputs := length fs,
        ps_post_form := (ps_post_form g \<or> to_upper (fd_method f) = ''POST''),
        ps_password := (ps_password g \<or> fd_type f = ''password''), ps_file := (ps_file g \<or> fd_type f = ''file'')\<rparr>)"

definition note_target :: "form_action \<Rightarrow> string \<Rightarrow> found_field \<Rightarrow> site_signals \<Rightarrow> site_signals" where
  "note_target act path f m =
     (if fd_action f = [] \<or> fd_action f = path then m
      else gm_put (fd_action f) (target_signal act f (signal_of (fd_action f) m)) m)"

definition note_content :: "form_action \<Rightarrow> string \<Rightarrow> string \<Rightarrow> string \<Rightarrow> string \<Rightarrow> found_field list \<Rightarrow> signal_store \<Rightarrow>
    found_field list \<times> signal_store" where
  "note_content act site path content_type body found s =
     (let m = signals_of site s; ct = to_lower content_type; json = contains_str ct ''json''; html = contains_str ct ''html'';
          g = (signal_of path m)\<lparr>ps_crawled := True, ps_json := json, ps_static := (\<not> html \<and> \<not> json \<and> ct \<noteq> [])\<rparr> in
      if \<not> html then ([], gm_put site (gm_put path g m) s)
      else
        let fs = map (\<lambda>f. f\<lparr>fd_action := act path (fd_action f)\<rparr>) found
        in (fs, gm_put site (fold (note_target act path) fs (gm_put path (html_signal act path body fs g) m)) s))"

definition discovered_fields :: "string \<Rightarrow> string \<Rightarrow> signal_store \<Rightarrow> found_field list" where
  "discovered_fields site path s = ps_fields (signal_of path (signals_of site s))"

section \<open>Suggestions\<close>

definition classify_page :: "page_signal \<Rightarrow> string \<times> int" where
  "classify_page g =
     (if ps_file g then (''upload-strict'', 90)
      else if ps_password g then (''form-sqli-xss'', 92)
      else if ps_post_form g \<or> (ps_has_form g \<and> ps_inputs g > 0) then (''form-sqli-xss'', 85)
      else if ps_seen_post g \<and> ps_json g then (''api-json'', 82)
      else if ps_seen_post g then (''form-sqli-xss'', 65)
      else if ps_json g then (''api-json'', 80)
      else if ps_query_params g \<ge> 1 then (''query-hardened'', 70)
      else if ps_static g then (''static-lenient'', 75)
      else if ps_crawled g then (''static-lenient'', 55)
      else ([], 20))"

record profile_suggestion =
  gs_path :: string
  gs_profile :: string
  gs_confidence :: int
  gs_crawled :: bool
  gs_bound :: string

definition suggestion_of :: "(string, string) gomap \<Rightarrow> string \<times> page_signal \<Rightarrow> profile_suggestion" where
  "suggestion_of bound pg = \<lparr>gs_path = fst pg, gs_profile = fst (classify_page (snd pg)),
     gs_confidence = snd (classify_page (snd pg)), gs_crawled = ps_crawled (snd pg),
     gs_bound = (case gm_get bound (fst pg) of None \<Rightarrow> [] | Some b \<Rightarrow> b)\<rparr>"

definition suggest_profiles :: "string \<Rightarrow> (string, string) gomap \<Rightarrow> signal_store \<Rightarrow> profile_suggestion list" where
  "suggest_profiles site bound s =
     sort_by (\<lambda>a b. if gs_confidence a \<noteq> gs_confidence b then gs_confidence b < gs_confidence a else gs_path a < gs_path b)
       (map (suggestion_of bound) (filter (\<lambda>pg. fst (classify_page (snd pg)) \<noteq> []) (signals_of site s)))"

end
