(* ===== verification/Host_Observer.thy ===== *)
theory Host_Observer
  imports Go_Map Schema_Candidate
begin

text \<open>
  The hosts that arrive on the listeners (\<^verbatim>\<open>discovery.go\<close>): a table of at most 500,
  the least recently seen going first. The text of the time is an argument, and texts of times are
  compared as texts.
\<close>

record seen_host =
  ho_host :: string
  ho_listener :: string
  ho_declared :: bool
  ho_hits :: int
  ho_first_seen :: string
  ho_last_seen :: string

record host_observer =
  hb_seen :: "(string, seen_host) gomap"
  hb_warned :: "(string \<times> string) list"

definition max_hosts :: nat where "max_hosts = 500"

definition new_host_observer :: host_observer where
  "new_host_observer = \<lparr>hb_seen = [], hb_warned = []\<rparr>"

definition host_name :: "string \<Rightarrow> string" where
  "host_name host = takeWhile (\<lambda>c. c \<noteq> CHR '':'') (to_lower (trim_space host))"

definition oldest_host :: "(string, seen_host) gomap \<Rightarrow> string" where
  "oldest_host m = fst (foldl (\<lambda>(k, t) (k', h). if k = [] \<or> ho_last_seen h < t then (k', ho_last_seen h) else (k, t)) ([], []) m)"

definition note_host :: "string \<Rightarrow> string \<Rightarrow> string \<Rightarrow> bool \<Rightarrow> host_observer \<Rightarrow> host_observer" where
  "note_host now listener host declared o' =
     (if trim_space host = [] then o'
      else
        let name = host_name host; key = listener @ ''|'' @ name in
        case gm_get (hb_seen o') key of
          Some h \<Rightarrow> o'\<lparr>hb_seen := gm_put key (h\<lparr>ho_hits := i64 (ho_hits h + 1), ho_last_seen := now, ho_declared := declared\<rparr>) (hb_seen o')\<rparr>
        | None \<Rightarrow>
            let m = (if length (hb_seen o') \<ge> max_hosts then gm_del (oldest_host (hb_seen o')) (hb_seen o') else hb_seen o')
            in o'\<lparr>hb_seen := gm_put key \<lparr>ho_host = name, ho_listener = listener, ho_declared = declared, ho_hits = 1,
                   ho_first_seen = now, ho_last_seen = now\<rparr> m,
                 hb_warned := (if declared then hb_warned o' else hb_warned o' @ [(listener, name)])\<rparr>)"

definition hosts_snapshot :: "host_observer \<Rightarrow> seen_host list" where
  "hosts_snapshot o' = sort_by (\<lambda>a b. if ho_declared a \<noteq> ho_declared b then \<not> ho_declared a else ho_hits b < ho_hits a)
     (gm_values (hb_seen o'))"

section \<open>The limit\<close>

definition hosts_ok :: "host_observer \<Rightarrow> bool" where
  "hosts_ok o' \<longleftrightarrow> gm_ok (hb_seen o') \<and> length (hb_seen o') \<le> max_hosts \<and> gm_all (\<lambda>k h. k \<noteq> []) (hb_seen o')"

lemma oldest_loop:
  assumes "\<forall>(k, v) \<in> set m. k \<noteq> []"
  shows "fst (foldl (\<lambda>(k, t) (k', h). if k = [] \<or> ho_last_seen h < t then (k', ho_last_seen h) else (k, t)) s m) \<in>
    (if m \<noteq> [] \<and> fst s = [] then fst ` set m else insert (fst s) (fst ` set m))"
  using assms
proof (induction m arbitrary: s)
  case (Cons e m)
  obtain k' h where e: "e = (k', h)" by fastforce
  obtain k t where s: "s = (k, t)" by fastforce
  have k': "k' \<noteq> []" using Cons.prems e by simp
  have all: "\<forall>(k, v) \<in> set m. k \<noteq> []" using Cons.prems by simp
  show ?case
  proof (cases "k = [] \<or> ho_last_seen h < t")
    case True
    with Cons.IH [OF all, of "(k', ho_last_seen h)"] k' e s show ?thesis by simp
  next
    case False
    with Cons.IH [OF all, of "(k, t)"] e s show ?thesis by auto
  qed
qed simp

lemma oldest_host_in:
  assumes "m \<noteq> []" and "gm_all (\<lambda>k h. k \<noteq> []) m" shows "gm_has m (oldest_host m)"
  using oldest_loop [of m "([], [])"] assms by (simp add: oldest_host_def gm_has_iff gm_all_def)

lemma host_room:
  assumes "hosts_ok o'" and "length (hb_seen o') \<ge> max_hosts"
  shows "length (gm_del (oldest_host (hb_seen o')) (hb_seen o')) < max_hosts"
proof -
  have "hb_seen o' \<noteq> []" using assms(2) by (auto simp: max_hosts_def)
  with assms(1) have "gm_has (hb_seen o') (oldest_host (hb_seen o'))" by (simp add: hosts_ok_def oldest_host_in)
  from length_gm_del [OF _ this] assms(1) show ?thesis by (simp add: hosts_ok_def)
qed

lemma host_key_put:
  assumes "gm_ok m" "length m < max_hosts \<or> gm_has m k \<and> length m \<le> max_hosts" "gm_all (\<lambda>k h. k \<noteq> []) m" "k \<noteq> []"
    and "hb_seen o' = gm_put k h m"
  shows "hosts_ok o'"
  using assms by (auto simp: hosts_ok_def length_gm_put)

lemma note_host_ok:
  assumes "hosts_ok o'" shows "hosts_ok (note_host now listener host declared o')"
proof -
  let ?m = "hb_seen o'"
  define key where "key = listener @ ''|'' @ host_name host"
  have key: "key \<noteq> []" by (simp add: key_def)
  have name: "listener @ CHR ''|'' # host_name host = key" by (simp add: key_def)
  have m: "gm_ok ?m" "length ?m \<le> max_hosts" "gm_all (\<lambda>k h. k \<noteq> []) ?m" using assms by (auto simp: hosts_ok_def)
  have del: "gm_ok (gm_del (oldest_host ?m) ?m)" "gm_all (\<lambda>k h. k \<noteq> []) (gm_del (oldest_host ?m) ?m)"
    using m by auto
  show ?thesis
  proof (cases "trim_space host = []")
    case True
    with assms show ?thesis by (simp add: note_host_def)
  next
    case host: False
    show ?thesis
    proof (cases "gm_get ?m key")
      case (Some h)
      then have "gm_has ?m key" by (simp add: gm_has_def)
      with m key Some host show ?thesis
        by (auto simp: note_host_def Let_def name intro: host_key_put [of ?m key])
    next
      case None
      show ?thesis
      proof (cases "length ?m \<ge> max_hosts")
        case True
        with host_room [OF assms True] del key None host show ?thesis
          by (auto simp: note_host_def Let_def name intro: host_key_put [of "gm_del (oldest_host ?m) ?m" key])
      next
        case False
        with m key None host show ?thesis
          by (auto simp: note_host_def Let_def name intro: host_key_put [of ?m key])
      qed
    qed
  qed
qed

interpretation hosts: bounded_store "\<lambda>(now, listener, host, declared). note_host now listener host declared" hosts_ok
    "\<lambda>o'. length (hb_seen o')" max_hosts
  by unfold_locales (auto simp: note_host_ok, simp add: hosts_ok_def)

end
