(* ===== verification/Observation.thy ===== *)
theory Observation
  imports Go_Fields Match_Log Site_Map Learner Object_Security Schema_Privacy Inventory_Machine Page_Signals Host_Observer
begin

text \<open>
  The observation plane (\<^verbatim>\<open>observations.go\<close>): requests offer what they saw to the
  queue of \<open>Telemetry_Queue\<close>, and one consumer brings it to the host table, the site maps,
  the learner, the page signals, the operation inventory, the API schemas and the object locators.

  \<open>plane_env\<close> holds the environments of these stores and what the standard library
  makes of a query and of a body. \<open>vp_lines\<close> holds the reports of drops. The operator's
  changes to the inventory and to the candidates come between the steps of the consumer.
\<close>

record plane_env =
  vx_time_text :: "gtime \<Rightarrow> string"
  vx_inventory :: inventory_env
  vx_collect :: collect_env
  vx_schema :: schema_env
  vx_object :: object_env
  vx_action :: form_action
  vx_query :: "string \<Rightarrow> form_values option"
  vx_body :: "string \<Rightarrow> string \<Rightarrow> parsed_body"

section \<open>What a request shows\<close>

record observed_meta =
  om_host :: string
  om_auth :: string
  om_headers :: form_values
  om_body :: string
  om_truncated :: bool

text \<open>A request: its host, whether a client certificate came, its headers by canonical name, and
  the captured prefix of its body.\<close>

record seen_request =
  sn_host :: string
  sn_client_cert :: bool
  sn_headers :: form_values
  sn_body :: string

definition request_header :: "form_values \<Rightarrow> string \<Rightarrow> string" where
  "request_header m k = (case gm_get m k of Some (v # vs) \<Rightarrow> v | _ \<Rightarrow> [])"

definition infer_auth_scheme :: "seen_request \<Rightarrow> string" where
  "infer_auth_scheme r =
     (let auth = trim_space (request_header (sn_headers r) ''Authorization'') in
      normalize_auth_scheme (join_with ''+''
        ((if sn_client_cert r then [''mtls''] else []) @
         (if request_header (sn_headers r) ''X-Api-Key'' \<noteq> [] \<or> request_header (sn_headers r) ''Api-Key'' \<noteq> [] then [''apikey''] else []) @
         (if auth = [] then [] else [normalize_auth_scheme (first_word auth)]))))"

definition max_observed_body :: nat where "max_observed_body = 32 * 1024"

definition build_meta :: "seen_request \<Rightarrow> observed_meta" where
  "build_meta r = \<lparr>om_host = sn_host r, om_auth = infer_auth_scheme r, om_headers = selected_headers (sn_headers r),
     om_body = take max_observed_body (sn_body r), om_truncated = (length (sn_body r) > max_observed_body)\<rparr>"

record observed_request =
  rq_site :: string
  rq_method :: string
  rq_path :: string
  rq_query :: string
  rq_content_type :: string
  rq_code :: int
  rq_fields :: "found_field list"
  rq_meta :: observed_meta

datatype observation_event =
    Host_Seen string string bool
  | Request_Seen observed_request
  | Match_Seen string string int string string

definition shown_of :: "plane_env \<Rightarrow> observed_request \<Rightarrow> shown_request" where
  "shown_of env r =
     (let m = rq_meta r in
      \<lparr>sr_path = rq_path r, sr_headers = om_headers m, sr_query = vx_query env (rq_query r),
        sr_body = (if om_body m = [] then No_Body else vx_body env (rq_content_type r) (om_body m)),
        sr_truncated = om_truncated m\<rparr>)"

definition visit_of :: "observed_request \<Rightarrow> operation_visit" where
  "visit_of r = \<lparr>ov_site = rq_site r, ov_host = om_host (rq_meta r), ov_method = rq_method r, ov_path = rq_path r,
     ov_content_type = rq_content_type r, ov_auth = om_auth (rq_meta r), ov_code = rq_code r\<rparr>"

definition shape_of :: "observed_request \<Rightarrow> request_shape" where
  "shape_of r = \<lparr>sp_method = rq_method r, sp_query = rq_query r, sp_content_type = rq_content_type r, sp_fields = rq_fields r\<rparr>"

section \<open>The consumer\<close>

record plane_store =
  vp_hosts :: host_observer
  vp_maps :: site_maps
  vp_learn :: learn_store
  vp_signals :: signal_store
  vp_inventory :: inventory
  vp_schemas :: schema_store
  vp_locators :: locator_store
  vp_processed :: u64
  vp_reported :: u64
  vp_lines :: "(u64 \<times> u64) list"

definition new_plane_store :: plane_store where
  "new_plane_store = \<lparr>vp_hosts = new_host_observer, vp_maps = new_site_maps 5000, vp_learn = [], vp_signals = [],
     vp_inventory = [], vp_schemas = new_schema_store, vp_locators = new_locator_store, vp_processed = 0,
     vp_reported = 0, vp_lines = []\<rparr>"

definition learn_operation :: "plane_env \<Rightarrow> gtime \<Rightarrow> observed_request \<Rightarrow> plane_store \<Rightarrow> plane_store" where
  "learn_operation env now r s =
     (let (op, ops) = note_operation (vx_inventory env) now (visit_of r) (vp_inventory s);
          s = s\<lparr>vp_inventory := ops\<rparr>
      in if op_id op = [] then s
         else
           let samples = collect_samples (vx_collect env) (shown_of env r) in
           s\<lparr>vp_schemas := note_schema (vx_schema env) now (op_id op) (op_ignored op) (map fst samples) (vp_schemas s),
             vp_locators := note_locator_observation (vx_object env) now (observed_view op) (map locator_sample samples)
               (vp_locators s)\<rparr>)"

definition process_event :: "plane_env \<Rightarrow> observation_event \<Rightarrow> gtime \<Rightarrow> plane_store \<Rightarrow> plane_store" where
  "process_event env e now s =
     (let s = (case e of
           Host_Seen listener host declared \<Rightarrow>
             s\<lparr>vp_hosts := note_host (vx_time_text env now) listener host declared (vp_hosts s)\<rparr>
         | Request_Seen r \<Rightarrow> learn_operation env now r
             (s\<lparr>vp_maps := maps_record (rq_site r)
                  \<lparr>vi_method = rq_method r, vi_code = rq_code r, vi_now = now, vi_source = Observed\<rparr> (rq_path r) (vp_maps s),
                vp_learn := note_request (rq_site r) (rq_path r) (rq_code r) now (vp_learn s),
                vp_signals := note_shape (vx_action env) (rq_site r) (rq_path r) (shape_of r) (vp_signals s)\<rparr>)
         | Match_Seen site path rule client severity \<Rightarrow>
             s\<lparr>vp_learn := note_match site path rule client severity (vp_learn s)\<rparr>)
      in s\<lparr>vp_processed := vp_processed s + 1\<rparr>)"

definition report_plane_drops :: "u64 \<Rightarrow> plane_store \<Rightarrow> plane_store" where
  "report_plane_drops dropped s =
     (if dropped = vp_reported s then s
      else s\<lparr>vp_lines := vp_lines s @ [(dropped - vp_reported s, dropped)], vp_reported := dropped\<rparr>)"

section \<open>The plane\<close>

definition observation_capacity :: int where "observation_capacity = 8192"
definition body_backlog :: nat where "body_backlog = 512"

type_synonym plane_queue = "(observation_event, plane_store) tq"

record observation_plane =
  vq_queue :: plane_queue
  vq_body_dropped :: u64

definition new_observation_plane :: observation_plane where
  "new_observation_plane = \<lparr>vq_queue = new_tq observation_capacity new_plane_store, vq_body_dropped = 0\<rparr>"

text \<open>\<open>noteRequest\<close> drops the body before it offers the event.\<close>

definition shed_body :: "observed_request \<Rightarrow> observed_request" where
  "shed_body r = r\<lparr>rq_meta := rq_meta r\<lparr>om_body := [], om_truncated := True\<rparr>\<rparr>"

definition offer_request :: "observed_request \<Rightarrow> observation_plane \<Rightarrow> observation_plane" where
  "offer_request r p =
     (if om_body (rq_meta r) \<noteq> [] \<and> length (tq_queue (vq_queue p)) \<ge> body_backlog
      then p\<lparr>vq_queue := tq_offer (Request_Seen (shed_body r)) (vq_queue p), vq_body_dropped := vq_body_dropped p + 1\<rparr>
      else p\<lparr>vq_queue := tq_offer (Request_Seen r) (vq_queue p)\<rparr>)"

datatype plane_event =
    Plane_Start
  | Note_Host string string bool
  | Note_Seen observed_request
  | Note_Match string string int string string
  | Plane_Send nat
  | Plane_Take gtime
  | Plane_Tick
  | Plane_Stop
  | Plane_See_Stop
  | Plane_Return
  | Operator_Inventory inventory_event
  | Operator_Review gtime string string schema_review

definition tq_event_of :: "plane_event \<Rightarrow> observation_event tq_event option" where
  "tq_event_of e = (case e of
     Plane_Start \<Rightarrow> Some Start
   | Note_Host listener host declared \<Rightarrow> Some (Offer (Host_Seen listener host declared))
   | Note_Match site path rule client severity \<Rightarrow> Some (Offer (Match_Seen site path rule client severity))
   | Plane_Send i \<Rightarrow> Some (Send_now i)
   | Plane_Take now \<Rightarrow> Some (Take now)
   | Plane_Tick \<Rightarrow> Some Tick
   | Plane_Stop \<Rightarrow> Some Stop
   | Plane_See_Stop \<Rightarrow> Some See_stop
   | Plane_Return \<Rightarrow> Some Return
   | _ \<Rightarrow> None)"

text \<open>What the operator's requests do to the stores; a visit of an operation comes through the queue only.\<close>

definition operator_step :: "plane_env \<Rightarrow> plane_event \<Rightarrow> plane_store \<Rightarrow> plane_store" where
  "operator_step env e s = (case e of
     Operator_Inventory (Ignore_Operation k ignored) \<Rightarrow>
       s\<lparr>vp_inventory := inventory_step (vx_inventory env) (Ignore_Operation k ignored) (vp_inventory s)\<rparr>
   | Operator_Inventory (Reclassify_Operation k path cls) \<Rightarrow>
       s\<lparr>vp_inventory := inventory_step (vx_inventory env) (Reclassify_Operation k path cls) (vp_inventory s)\<rparr>
   | Operator_Review now cid status review \<Rightarrow>
       s\<lparr>vp_schemas := snd (set_review now cid status review (vp_schemas s))\<rparr>
   | _ \<Rightarrow> s)"

definition plane_step :: "plane_env \<Rightarrow> plane_event \<Rightarrow> observation_plane \<Rightarrow> observation_plane" where
  "plane_step env e p =
     (case tq_event_of e of
        Some q \<Rightarrow> p\<lparr>vq_queue := tq_step (process_event env) report_plane_drops q (vq_queue p)\<rparr>
      | None \<Rightarrow> (case e of
          Note_Seen r \<Rightarrow> offer_request r p
        | _ \<Rightarrow> p\<lparr>vq_queue := (vq_queue p)\<lparr>tq_store := operator_step env e (tq_store (vq_queue p))\<rparr>\<rparr>))"

record plane_snapshot =
  vs_depth :: nat
  vs_capacity :: nat
  vs_dropped :: u64
  vs_body_dropped :: u64
  vs_processed :: u64
  vs_accepting :: bool

definition plane_snapshot_of :: "observation_plane \<Rightarrow> plane_snapshot" where
  "plane_snapshot_of p = \<lparr>vs_depth = length (tq_queue (vq_queue p)), vs_capacity = tq_cap (vq_queue p),
     vs_dropped = tq_queue_dropped (vq_queue p), vs_body_dropped = vq_body_dropped p,
     vs_processed = vp_processed (tq_store (vq_queue p)), vs_accepting = tq_accepting (vq_queue p)\<rparr>"

end
