(* ===== verification/Observation_Machine.thy ===== *)
theory Observation_Machine
  imports Observation
begin

text \<open>
  What holds of the observation plane in every run: every event is counted once, every store keeps
  within its limit, what is learned of an API belongs to an operation of the inventory, and an
  operation the operator ignores is no longer learned from.
\<close>

section \<open>The stores\<close>

definition schemas_known :: "schema_env \<Rightarrow> inventory \<Rightarrow> schema_store \<Rightarrow> bool" where
  "schemas_known env ops sh \<longleftrightarrow> gm_ok (sh_aggregates sh) \<and> gm_ok (sh_candidates sh) \<and>
     fst ` set (sh_aggregates sh) \<subseteq> fst ` set ops \<and>
     fst ` set (sh_candidates sh) \<subseteq> schema_candidate_id env ` fst ` set ops"

definition stores_ok :: "plane_env \<Rightarrow> plane_store \<Rightarrow> bool" where
  "stores_ok env s \<longleftrightarrow> hosts_ok (vp_hosts s) \<and> maps_ok 5000 (vp_maps s) \<and> learn_ok (\<lambda>_ _ _. UNIV) (vp_learn s) \<and>
     inventory_ok (vp_inventory s) \<and> store_private (vp_schemas s) \<and>
     schemas_known (vx_schema env) (vp_inventory s) (vp_schemas s) \<and> locators_ok (vp_locators s)"

lemma gm_keys_put: "fst ` set (gm_put k v m) = insert k (fst ` set m)"
  using dom_update [of k v m] by (simp add: set_eq_iff flip: dom_map_of_conv_image_fst)

lemma length_keys:
  assumes "gm_ok m" and "fst ` set m \<subseteq> f ` fst ` set ops" shows "length m \<le> length ops"
proof -
  have "length m = card (fst ` set m)" using distinct_card [of "map fst m"] assms(1) by (simp add: gm_ok_def)
  also have "\<dots> \<le> card (f ` fst ` set ops)" using assms(2) by (intro card_mono) auto
  also have "\<dots> \<le> card (fst ` set ops)" by (intro card_image_le) simp
  also have "\<dots> \<le> length ops" using card_length [of "map fst ops"] by simp
  finally show ?thesis .
qed

lemma note_operation_keys:
  assumes "inventory_ok s" and "note_operation env now v s = (op, s')"
  shows "fst ` set s \<subseteq> fst ` set s'" and "op_id op \<noteq> [] \<Longrightarrow> op_id op \<in> fst ` set s'"
proof -
  have ok: "operation_ok k w" if "gm_get s k = Some w" for k w
    using assms(1) that by (auto simp: inventory_ok_def dest: bounded_map_get)
  have new: "op_id (count_visit now v (new_operation env now v)) = visit_id env v"
    using count_visit_ok [OF new_operation_ok [of env v now]] by (simp add: operation_ok_def)
  have old: "op_id (count_visit now v w) = visit_id env v" if "gm_get s (visit_id env v) = Some w" for w
    using count_visit_ok [OF ok [OF that]] by (simp add: operation_ok_def)
  have "s' = s \<and> op = zero_operation \<or> s' = gm_put (visit_id env v) op s \<and> op_id op = visit_id env v"
    using assms(2) new old by (auto simp: note_operation_def Let_def split: option.splits if_splits)
  then show "fst ` set s \<subseteq> fst ` set s'" "op_id op \<noteq> [] \<Longrightarrow> op_id op \<in> fst ` set s'"
    by (auto simp only: gm_keys_put) (simp add: zero_operation_def)
qed

lemma note_schema_private:
  assumes "store_private s" shows "store_private (note_schema env now op ignored (map fst (collect_samples cenv r)) s)"
  using shown_step_private [OF assms, of env cenv "Show_Request now op ignored r"]
  by (simp add: schema_event_of_def schema_step_def)

lemma set_review_private: "store_private s \<Longrightarrow> store_private (snd (set_review now cid status review s))"
  by (simp add: set_review_def store_private_def Let_def split: option.split)

lemma note_schema_known:
  assumes "schemas_known env ops sh" and "op \<in> fst ` set ops"
  shows "schemas_known env ops (note_schema env now op ignored samples sh)"
proof (cases "op = [] \<or> ignored")
  case False
  define a where "a = add_request now samples (case gm_get (sh_aggregates sh) op of
      None \<Rightarrow> \<lparr>ag_operation = op, ag_requests = 0, ag_fields = [], ag_updated_at = 0\<rparr> | Some a \<Rightarrow> a)"
  from False have n: "note_schema env now op ignored samples sh =
      sh\<lparr>sh_aggregates := gm_put op a (sh_aggregates sh),
        sh_candidates := gm_put (schema_candidate_id env op)
          (build_candidate env now a (gm_get (sh_candidates sh) (schema_candidate_id env op))) (sh_candidates sh)\<rparr>"
    by (simp add: note_schema_def Let_def a_def)
  from assms have "schema_candidate_id env op \<in> schema_candidate_id env ` fst ` set ops" by blast
  with assms show ?thesis unfolding n by (simp add: schemas_known_def gm_keys_put del: image_image)
qed (use assms in \<open>simp add: note_schema_def\<close>)

lemma schemas_known_mono:
  assumes "schemas_known env ops sh" and "fst ` set ops \<subseteq> fst ` set ops'" shows "schemas_known env ops' sh"
  using assms(1) order_trans [OF _ assms(2)] order_trans [OF _ image_mono [OF assms(2), of "schema_candidate_id env"]]
  unfolding schemas_known_def by (elim conjE) (intro conjI, assumption+)

lemma set_review_known:
  assumes "schemas_known env ops sh" shows "schemas_known env ops (snd (set_review now cid status review sh))"
proof (cases "gm_get (sh_candidates sh) cid")
  case (Some c)
  then have "cid \<in> fst ` set (sh_candidates sh)" using map_of_SomeD [OF Some] by force
  with assms Some show ?thesis by (auto simp: schemas_known_def set_review_def Let_def gm_keys_put)
qed (use assms in \<open>simp add: set_review_def\<close>)

lemma learn_operation_ok:
  assumes "stores_ok env s" shows "stores_ok env (learn_operation env now r s)"
proof -
  obtain op ops where n: "note_operation (vx_inventory env) now (visit_of r) (vp_inventory s) = (op, ops)" by fastforce
  have i: "inventory_ok (vp_inventory s)" using assms by (simp add: stores_ok_def)
  have ops: "inventory_ok ops" using note_operation_ok [OF i, of "vx_inventory env" now "visit_of r"] by (simp add: n)
  have known: "schemas_known (vx_schema env) ops (vp_schemas s)"
    using assms note_operation_keys(1) [OF i n] by (auto simp: stores_ok_def intro: schemas_known_mono)
  show ?thesis
  proof (cases "op_id op = []")
    case True
    with assms ops known show ?thesis by (simp add: learn_operation_def n stores_ok_def)
  next
    case False
    with assms ops known note_operation_keys(2) [OF i n] show ?thesis
      by (simp add: learn_operation_def n stores_ok_def Let_def note_schema_private note_schema_known note_locators_ok)
  qed
qed

lemma maps_record_ok: "maps_ok n m \<Longrightarrow> maps_ok n (maps_record site v path m)"
  using maps_ok_step [of n m "Map_record site v path"] by simp

lemma learner_request_ok: "learn_ok (\<lambda>_ _ _. UNIV) l \<Longrightarrow> learn_ok (\<lambda>_ _ _. UNIV) (note_request site path code now l)"
  unfolding note_request_def by (rule learn_update_ok) (simp_all add: path_ok_def count_request_def)

lemma learner_match_ok: "learn_ok (\<lambda>_ _ _. UNIV) l \<Longrightarrow> learn_ok (\<lambda>_ _ _. UNIV) (note_match site path rule client sev l)"
  unfolding note_match_def by (rule learn_update_ok) (simp_all add: count_match_ok)

lemma process_event_ok:
  assumes "stores_ok env s" shows "stores_ok env (process_event env e now s)"
proof (cases e)
  case (Host_Seen listener host declared)
  with assms show ?thesis by (simp add: process_event_def Let_def stores_ok_def note_host_ok)
next
  case (Request_Seen r)
  let ?s = "s\<lparr>vp_maps := maps_record (rq_site r)
      \<lparr>vi_method = rq_method r, vi_code = rq_code r, vi_now = now, vi_source = Observed\<rparr> (rq_path r) (vp_maps s),
    vp_learn := note_request (rq_site r) (rq_path r) (rq_code r) now (vp_learn s),
    vp_signals := note_shape (vx_action env) (rq_site r) (rq_path r) (shape_of r) (vp_signals s)\<rparr>"
  have "stores_ok env ?s" using assms by (simp add: stores_ok_def maps_record_ok learner_request_ok)
  from learn_operation_ok [OF this, of now r] Request_Seen show ?thesis
    by (simp add: process_event_def Let_def stores_ok_def)
next
  case (Match_Seen site path rule client severity)
  with assms show ?thesis by (simp add: process_event_def Let_def stores_ok_def learner_match_ok)
qed

lemma learn_operation_processed [simp]: "vp_processed (learn_operation env now r s) = vp_processed s"
  by (simp add: learn_operation_def Let_def split: prod.split)

lemma process_event_counted: "vp_processed (process_event env e now s) = vp_processed s + 1"
  by (simp add: process_event_def Let_def split: observation_event.split)

lemma report_plane_drops_same:
  "vp_processed (report_plane_drops d s) = vp_processed s" "stores_ok env s \<Longrightarrow> stores_ok env (report_plane_drops d s)"
  by (simp_all add: report_plane_drops_def stores_ok_def)

interpretation observed: telemetry_consumer "process_event env" report_plane_drops vp_processed "stores_ok env" for env
  by unfold_locales
    (rule process_event_counted, rule report_plane_drops_same, erule process_event_ok, erule report_plane_drops_same)

lemma inventory_step_keys: "fst ` set s \<subseteq> fst ` set (inventory_step env (Ignore_Operation k i) s)"
  "fst ` set s \<subseteq> fst ` set (inventory_step env (Reclassify_Operation k path cls) s)"
  by (auto simp: inventory_step_def ignore_operation_def reclassify_operation_def Let_def gm_keys_put split: option.splits)

lemma operator_step_ok:
  assumes "stores_ok env s" shows "stores_ok env (operator_step env e s) \<and> vp_processed (operator_step env e s) = vp_processed s"
proof -
  have known: "schemas_known (vx_schema env) (vp_inventory s) (vp_schemas s)" using assms by (simp add: stores_ok_def)
  note ops = schemas_known_mono [OF known inventory_step_keys(1)] schemas_known_mono [OF known inventory_step_keys(2)]
  from assms show ?thesis
    by (simp add: operator_step_def stores_ok_def inventory_step_ok ops set_review_private set_review_known
        split: plane_event.split inventory_event.split)
qed

definition plane_inv :: "plane_env \<Rightarrow> observation_plane \<Rightarrow> bool" where
  "plane_inv env p \<longleftrightarrow> observed.queue_inv env (vq_queue p)"

lemma plane_inv_queue: "observed.queue_inv env q \<Longrightarrow>
  observed.queue_inv env (tq_step (process_event env) report_plane_drops e q)"
  by (rule observed.queue_inv_step)

lemma plane_inv_step:
  assumes "plane_inv env p" shows "plane_inv env (plane_step env e p)"
proof (cases "tq_event_of e")
  case (Some q)
  with assms show ?thesis by (simp add: plane_step_def plane_inv_def plane_inv_queue)
next
  case None
  have offer: "observed.queue_inv env (tq_offer ev (vq_queue p))" for ev
    using plane_inv_queue [of env "vq_queue p" "Offer ev"] assms by (simp add: plane_inv_def)
  show ?thesis
  proof (cases "\<exists>r. e = Note_Seen r")
    case True
    then show ?thesis by (auto simp: plane_step_def tq_event_of_def offer_request_def plane_inv_def offer)
  next
    case False
    have "observed.queue_inv env ((vq_queue p)\<lparr>tq_store := operator_step env e (tq_store (vq_queue p))\<rparr>)"
      using assms operator_step_ok [of env "tq_store (vq_queue p)" e] by (simp add: plane_inv_def observed.queue_inv_def)
    with None False show ?thesis by (cases e) (simp_all add: plane_step_def plane_inv_def)
  qed
qed

interpretation plane_machine: invariant_machine "plane_step env" "plane_inv env" for env
  by unfold_locales (rule plane_inv_step)

lemma new_stores_ok: "stores_ok env new_plane_store"
  by (simp add: stores_ok_def new_plane_store_def hosts_ok_def new_host_observer_def maps_ok_def new_site_maps_def
      learn_ok_def inventory_ok_def store_private_def new_schema_store_def schemas_known_def)

lemma plane_run_inv: "plane_inv env (run_machine (plane_step env) es new_observation_plane)"
proof (rule plane_machine.inv_run)
  have "vp_processed new_plane_store = 0" by (simp add: new_plane_store_def)
  from observed.queue_inv_new [OF new_stores_ok this]
  show "plane_inv env new_observation_plane" by (simp add: plane_inv_def new_observation_plane_def)
qed

section \<open>Counting and limits\<close>

lemma plane_step_cap: "tq_cap (vq_queue (plane_step env e p)) = tq_cap (vq_queue p)"
proof (cases "tq_event_of e")
  case (Some q)
  then show ?thesis by (cases q) (simp_all add: plane_step_def tq_defs split: list.split)
next
  case None
  then show ?thesis by (cases e) (simp_all add: plane_step_def offer_request_def tq_offer_def)
qed

lemma plane_run_cap: "tq_cap (vq_queue (run_machine (plane_step env) es p)) = tq_cap (vq_queue p)"
  by (induction es arbitrary: p) (simp_all add: plane_step_cap)

lemma plane_run_stores:
  assumes "p = run_machine (plane_step env) es new_observation_plane"
  shows "stores_ok env (tq_store (vq_queue p))"
  using plane_run_inv [of env es] by (simp add: assms plane_inv_def observed.queue_inv_def)

text \<open>Every event is counted once: at any point of any interleaving of the requests, the consumer, the ticker
  and the operator, the events queued, dropped and processed add up to those offered (as uint64
  counters do), and no more than 8192 are queued.\<close>

theorem observation_conservation:
  "let q = vq_queue (run_machine (plane_step env) es new_observation_plane) in
   of_nat (length (tq_queue q)) + tq_queue_dropped q + vp_processed (tq_store q) = tq_sends q \<and> length (tq_queue q) \<le> 8192"
  using plane_run_inv [of env es] plane_run_cap [of env es new_observation_plane]
  by (simp add: Let_def plane_inv_def observed.queue_inv_def new_observation_plane_def new_tq_def observation_capacity_def)


section \<open>Bodies kept\<close>

definition has_body :: "observation_event \<Rightarrow> bool" where
  "has_body e = (case e of Request_Seen r \<Rightarrow> om_body (rq_meta r) \<noteq> [] | _ \<Rightarrow> False)"

definition bodies :: "observation_event list \<Rightarrow> nat" where
  "bodies es = length (filter has_body es)"

lemma bodies_simps [simp]: "bodies [] = 0" "bodies (xs @ ys) = bodies xs + bodies ys"
  "bodies (e # es) = (if has_body e then 1 else 0) + bodies es"
  by (simp_all add: bodies_def)

lemma bodies_le: "bodies es \<le> length es"
  by (simp add: bodies_def)

lemma bodies_drop_nth: "i < length es \<Longrightarrow> bodies (drop_nth i es) + bodies [es ! i] = bodies es"
  using arg_cong [OF id_take_nth_drop [of i es], of bodies] by (simp add: drop_nth_def)

text \<open>A run in which at most \<open>n\<close> requests are between the load of \<open>accepting\<close> and the send.\<close>

fun at_most_offering :: "nat \<Rightarrow> plane_env \<Rightarrow> plane_event list \<Rightarrow> observation_plane \<Rightarrow> bool" where
  "at_most_offering n env [] p = (length (tq_admitted (vq_queue p)) \<le> n)"
| "at_most_offering n env (e # es) p =
     (length (tq_admitted (vq_queue p)) \<le> n \<and> at_most_offering n env es (plane_step env e p))"

definition bodies_ok :: "nat \<Rightarrow> observation_plane \<Rightarrow> bool" where
  "bodies_ok n p \<longleftrightarrow> bodies (tq_queue (vq_queue p)) + bodies (tq_admitted (vq_queue p)) \<le> 511 + n"

lemma at_most_offering_now: "at_most_offering n env es p \<Longrightarrow> length (tq_admitted (vq_queue p)) \<le> n"
  by (cases es) simp_all

lemma bodies_step:
  assumes "bodies_ok n p" and "length (tq_admitted (vq_queue (plane_step env e p))) \<le> n"
  shows "bodies_ok n (plane_step env e p)"
proof (cases e)
  case (Note_Seen r)
  have le: "bodies (tq_queue (vq_queue p)) \<le> length (tq_queue (vq_queue p))" by (rule bodies_le)
  show ?thesis
  proof (cases "tq_accepting (vq_queue p) \<and> om_body (rq_meta r) \<noteq> [] \<and> length (tq_queue (vq_queue p)) < body_backlog")
    case True
    with Note_Seen have q: "vq_queue (plane_step env e p) = (vq_queue p)\<lparr>tq_admitted := tq_admitted (vq_queue p) @ [Request_Seen r]\<rparr>"
      by (simp add: plane_step_def tq_event_of_def offer_request_def tq_offer_def)
    have "bodies (tq_admitted (vq_queue p) @ [Request_Seen r]) \<le> n"
      using assms(2) bodies_le [of "tq_admitted (vq_queue p) @ [Request_Seen r]"] unfolding q by simp
    with True le show ?thesis unfolding bodies_ok_def q by (simp add: body_backlog_def)
  next
    case False
    with assms(1) Note_Seen show ?thesis
      by (auto simp: bodies_ok_def plane_step_def tq_event_of_def offer_request_def tq_offer_def shed_body_def has_body_def)
  qed
next
  case (Plane_Send i)
  with assms(1) bodies_drop_nth [of i "tq_admitted (vq_queue p)"] show ?thesis
    by (auto simp: bodies_ok_def plane_step_def tq_event_of_def tq_send_nth_def tq_send_def split: if_splits)
qed (use assms(1) in \<open>auto simp: bodies_ok_def plane_step_def tq_event_of_def tq_defs has_body_def split: list.split\<close>)

lemma bodies_run: "bodies_ok n p \<Longrightarrow> at_most_offering n env es p \<Longrightarrow> bodies_ok n (run_machine (plane_step env) es p)"
proof (induction es arbitrary: p)
  case (Cons e es)
  then have "at_most_offering n env es (plane_step env e p)" by simp
  with Cons.IH [OF bodies_step [OF Cons.prems(1) at_most_offering_now [OF this]] this] show ?case by simp
qed simp


section \<open>Shutdown\<close>

definition plane_drain :: "nat \<Rightarrow> gtime \<Rightarrow> plane_event list" where
  "plane_drain n now = Plane_See_Stop # replicate n (Plane_Take now) @ [Plane_Return]"

lemma drain_takes:
  "tq_consumer (vq_queue p) = Draining \<Longrightarrow> tq_queue (vq_queue p) = es \<Longrightarrow>
   (let q = vq_queue (run_machine (plane_step env) (replicate (length es) (Plane_Take now) @ [Plane_Return]) p) in
      tq_consumer q = Returned \<and> tq_queue q = [] \<and>
      tq_store q = report_plane_drops (tq_queue_dropped (vq_queue p)) (fold (\<lambda>e. process_event env e now) es (tq_store (vq_queue p))))"
proof (induction es arbitrary: p)
  case Nil
  then show ?case by (simp add: plane_step_def tq_event_of_def tq_return_def)
next
  case (Cons e es)
  define p' where "p' = plane_step env (Plane_Take now) p"
  have p': "vq_queue p' = (vq_queue p)\<lparr>tq_queue := es, tq_store := process_event env e now (tq_store (vq_queue p))\<rparr>"
    using Cons.prems by (simp add: p'_def plane_step_def tq_event_of_def tq_take_def)
  have "tq_consumer (vq_queue p') = Draining" "tq_queue (vq_queue p') = es" using Cons.prems by (simp_all add: p')
  from Cons.IH [OF this] show ?case unfolding p' by (simp add: p'_def [symmetric] Let_def)
qed


end
