(* ===== verification/Observation_Trace.thy ===== *)
theory Observation_Trace
  imports Observation_Machine
begin

text \<open>
  Operations the operator ignores, over runs of the observation plane; and the properties of the
  plane at concrete runs.
\<close>

text \<open>The operator's events that end the ignoring of an operation.\<close>

definition unignores :: "string \<Rightarrow> plane_event \<Rightarrow> bool" where
  "unignores k e \<longleftrightarrow> e = Operator_Inventory (Ignore_Operation k False)"

definition ignored_with :: "string \<Rightarrow> schema_aggregate option \<Rightarrow> plane_store \<Rightarrow> bool" where
  "ignored_with k a s \<longleftrightarrow> inventory_ok (vp_inventory s) \<and> gm_get (sh_aggregates (vp_schemas s)) k = a \<and>
     (\<exists>op. gm_get (vp_inventory s) k = Some op \<and> op_ignored op)"

lemma count_visit_ignored [simp]: "op_ignored (count_visit now v op) = op_ignored op"
  by (simp add: count_visit_def Let_def)

lemma note_operation_ignored:
  assumes "inventory_ok s" and "gm_get s k = Some w" and "op_ignored w" and "note_operation env now v s = (op, s')"
  shows "\<exists>w. gm_get s' k = Some w \<and> op_ignored w" and "op_id op = k \<Longrightarrow> op_ignored op \<or> op_id op = []"
proof -
  have id: "op_id x = j" if "gm_get s j = Some x" for j x
    using assms(1) that by (auto simp: inventory_ok_def operation_ok_def dest: bounded_map_get)
  have new: "op_id (count_visit now v (new_operation env now v)) = visit_id env v"
    using count_visit_ok [OF new_operation_ok [of env v now]] by (simp add: operation_ok_def)
  have old: "op_id (count_visit now v x) = op_id x" for x by (simp add: count_visit_def Let_def)
  have k: "visit_id env v \<noteq> k" if "gm_get s (visit_id env v) = None" using assms(2) that by auto
  from assms(2-4) k show "\<exists>w. gm_get s' k = Some w \<and> op_ignored w"
    by (auto simp: note_operation_def Let_def gm_get_put split: option.splits if_splits)
  from assms(2-4) k new old id show "op_id op = k \<Longrightarrow> op_ignored op \<or> op_id op = []"
    by (auto simp: note_operation_def Let_def zero_operation_def split: option.splits if_splits)
qed

lemma note_schema_other:
  assumes "op = k \<Longrightarrow> ignored" shows "gm_get (sh_aggregates (note_schema env now op ignored samples sh)) k = gm_get (sh_aggregates sh) k"
  using assms by (simp add: note_schema_def Let_def gm_get_put)

lemma learn_operation_ignored:
  assumes "ignored_with k a s" shows "ignored_with k a (learn_operation env now r s)"
proof -
  obtain op ops where n: "note_operation (vx_inventory env) now (visit_of r) (vp_inventory s) = (op, ops)" by fastforce
  obtain w where w: "gm_get (vp_inventory s) k = Some w" "op_ignored w" and ok: "inventory_ok (vp_inventory s)"
    using assms by (auto simp: ignored_with_def)
  note g = note_operation_ignored [OF ok w n]
  have "inventory_ok ops" using note_operation_ok [OF ok, of "vx_inventory env" now "visit_of r"] by (simp add: n)
  moreover have "gm_get (sh_aggregates (note_schema (vx_schema env) now (op_id op) (op_ignored op) samples (vp_schemas s))) k =
      gm_get (sh_aggregates (vp_schemas s)) k" if "op_id op \<noteq> []" for samples
    using g(2) that by (intro note_schema_other) simp
  ultimately show ?thesis using assms g(1)
    by (auto simp: ignored_with_def learn_operation_def n Let_def)
qed

lemma process_event_ignored:
  assumes "ignored_with k a s" shows "ignored_with k a (process_event env e now s)"
proof (cases e)
  case (Request_Seen r)
  let ?s = "s\<lparr>vp_maps := maps_record (rq_site r)
      \<lparr>vi_method = rq_method r, vi_code = rq_code r, vi_now = now, vi_source = Observed\<rparr> (rq_path r) (vp_maps s),
    vp_learn := note_request (rq_site r) (rq_path r) (rq_code r) now (vp_learn s),
    vp_signals := note_shape (vx_action env) (rq_site r) (rq_path r) (shape_of r) (vp_signals s)\<rparr>"
  have "ignored_with k a ?s" using assms by (simp add: ignored_with_def)
  from learn_operation_ignored [OF this, of env now r] Request_Seen show ?thesis
    by (simp add: process_event_def ignored_with_def)
qed (use assms in \<open>simp_all add: process_event_def ignored_with_def\<close>)

lemma operator_step_ignored:
  assumes "ignored_with k a s" and "\<not> unignores k e" shows "ignored_with k a (operator_step env e s)"
proof (cases e)
  case (Operator_Inventory i)
  have ok: "inventory_ok (inventory_step (vx_inventory env) i (vp_inventory s))" for i
    using assms(1) by (simp add: ignored_with_def inventory_step_ok)
  have "\<exists>op. gm_get (inventory_step (vx_inventory env) i (vp_inventory s)) k = Some op \<and> op_ignored op"
    if "\<forall>now v. i \<noteq> Visit_Operation now v"
    using assms that Operator_Inventory
    by (auto simp: ignored_with_def unignores_def inventory_step_def ignore_operation_def reclassify_operation_def Let_def
        gm_get_put split: inventory_event.split option.split)
  with assms(1) ok Operator_Inventory show ?thesis
    by (auto simp: ignored_with_def operator_step_def split: inventory_event.split)
qed (use assms in \<open>simp_all add: ignored_with_def operator_step_def set_review_def Let_def split: option.split\<close>)

lemma plane_step_ignored:
  assumes "ignored_with k a (tq_store (vq_queue p))" and "\<not> unignores k e"
  shows "ignored_with k a (tq_store (vq_queue (plane_step env e p)))"
proof (cases "tq_event_of e")
  case (Some q)
  have "ignored_with k a (report_plane_drops d s)" if "ignored_with k a s" for d s
    using that by (simp add: ignored_with_def report_plane_drops_def)
  with assms(1) Some show ?thesis
    by (cases q) (auto simp: plane_step_def tq_defs process_event_ignored split: list.split)
next
  case None
  with operator_step_ignored [OF assms, of env] assms(1) show ?thesis
    by (cases e) (auto simp: plane_step_def tq_event_of_def offer_request_def tq_offer_def operator_step_def)
qed


section \<open>At concrete runs\<close>

definition any_plane_env :: plane_env where
  "any_plane_env = \<lparr>vx_time_text = (\<lambda>_. ''t''), vx_inventory = any_inventory_env,
     vx_collect = \<lparr>ce_float = (\<lambda>_. False), ce_hash8 = (\<lambda>x. x)\<rparr>,
     vx_schema = \<lparr>se_hash16 = (\<lambda>x. x), se_time_text = (\<lambda>_. ''t'')\<rparr>,
     vx_object = \<lparr>oe_hash16 = (\<lambda>x. x), oe_hash20 = (\<lambda>x. x), oe_value_digest = (\<lambda>x. x), oe_identity_digest = (\<lambda>x. x)\<rparr>,
     vx_action = (\<lambda>_ a. a), vx_query = (\<lambda>_. None), vx_body = (\<lambda>_ _. No_Body)\<rparr>"

definition posted_request :: "string \<Rightarrow> observed_request" where
  "posted_request body = \<lparr>rq_site = ''s'', rq_method = ''POST'', rq_path = ''/a'', rq_query = [], rq_content_type = [], rq_code = 200,
     rq_fields = [], rq_meta = \<lparr>om_host = [], om_auth = [], om_headers = [], om_body = body, om_truncated = False\<rparr>\<rparr>"

lemma one_host_run:
  "tq_store (vq_queue (run_machine (plane_step env) [Plane_Start, Note_Host l h d, Plane_Send 0, Plane_Take 5] new_observation_plane)) =
     process_event env (Host_Seen l h d) 5 new_plane_store"
  by (simp add: plane_step_def tq_event_of_def new_observation_plane_def new_tq_def tq_defs drop_nth_def observation_capacity_def)




lemma learn_operation_inventory:
  "vp_inventory (learn_operation env now r s) = snd (note_operation (vx_inventory env) now (visit_of r) (vp_inventory s))"
  by (simp add: learn_operation_def Let_def split: prod.split)

lemma learned_then_ignored:
  "\<exists>op. gm_get (vp_inventory (tq_store (vq_queue (run_machine (plane_step any_plane_env)
     [Plane_Start, Note_Seen (posted_request []), Plane_Send 0, Plane_Take 5,
      Operator_Inventory (Ignore_Operation (visit_id (vx_inventory any_plane_env) (visit_of (posted_request []))) True)]
     new_observation_plane)))) (visit_id (vx_inventory any_plane_env) (visit_of (posted_request []))) = Some op \<and> op_ignored op"
proof -
  define s where "s = tq_store (vq_queue (run_machine (plane_step any_plane_env)
     [Plane_Start, Note_Seen (posted_request []), Plane_Send 0, Plane_Take 5] new_observation_plane))"
  have "s = process_event any_plane_env (Request_Seen (posted_request [])) 5 new_plane_store"
    by (simp add: s_def plane_step_def tq_event_of_def new_observation_plane_def new_tq_def tq_defs drop_nth_def
        observation_capacity_def offer_request_def posted_request_def)
  then have "gm_has (vp_inventory s) (visit_id (vx_inventory any_plane_env) (visit_of (posted_request [])))"
    by (simp add: process_event_def learn_operation_inventory new_plane_store_def note_operation_def max_inventory_def Let_def gm_has_def)
  then have "\<exists>op. gm_get (vp_inventory (operator_step any_plane_env (Operator_Inventory
      (Ignore_Operation (visit_id (vx_inventory any_plane_env) (visit_of (posted_request []))) True)) s))
      (visit_id (vx_inventory any_plane_env) (visit_of (posted_request []))) = Some op \<and> op_ignored op"
    by (auto simp: operator_step_def inventory_step_def ignore_operation_def gm_has_def Let_def gm_get_put)
  then show ?thesis unfolding s_def by (simp add: plane_step_def tq_event_of_def)
qed


end
