(* ===== verification/Signal_Machine.thy ===== *)
theory Signal_Machine
  imports Page_Signals
begin

text \<open>
  The page signals over traffic and crawls (\<^verbatim>\<open>profiles.go\<close>): what live writes teach about a
  page outlasts every crawl, except the password and file flags, which a crawl overwrites.
\<close>

datatype signal_event =
    Shape_Seen string string request_shape
  | Page_Fetched string string string string "found_field list"
  | Signals_Cleared string

definition signal_step :: "form_action \<Rightarrow> signal_event \<Rightarrow> signal_store \<Rightarrow> signal_store" where
  "signal_step act e s = (case e of
     Shape_Seen site path r \<Rightarrow> note_shape act site path r s
   | Page_Fetched site path ct body found \<Rightarrow> snd (note_content act site path ct body found s)
   | Signals_Cleared site \<Rightarrow> clear_signals site s)"

text \<open>The summary of a page for a review: \<open>summary\<close>.\<close>

definition signal_summary :: "string \<Rightarrow> string \<Rightarrow> signal_store \<Rightarrow> string" where
  "signal_summary site path s =
     (case gm_get (signals_of site s) path of
        None \<Rightarrow> ''No page details observed yet''
      | Some g \<Rightarrow>
          (let parts = map snd (filter fst
             [(ps_crawled g, ''page scan completed''), (ps_has_form g, ''contains a form''), (ps_post_form g, ''POST form''),
              (ps_inputs g > 0, ''input fields''), (ps_password g, ''password field''), (ps_file g, ''file upload''),
              (ps_json g, ''JSON content-type''), (ps_static g, ''static asset''), (ps_query_params g > 0, ''URL query fields''),
              (ps_seen_post g, ''form or API submission observed'')])
           in if parts = [] then ''No additional page details'' else join_with '', '' parts))"

section \<open>What lasts\<close>

definition write_seen :: "string \<Rightarrow> string \<Rightarrow> signal_store \<Rightarrow> bool" where
  "write_seen site path s \<longleftrightarrow> ps_seen_post (signal_of path (signals_of site s))"

lemma signals_of_put: "signals_of site (gm_put site' m s) = (if site' = site then m else signals_of site s)"
  by (simp add: signals_of_def gm_get_put)

lemma signal_of_put: "signal_of path (gm_put path' g m) = (if path' = path then g else signal_of path m)"
  by (simp add: signal_of_def gm_get_put)

lemma shape_seen: "ps_seen_post g \<Longrightarrow> ps_seen_post (shape_signal act path r g)"
  by (simp add: shape_signal_def Let_def)

lemma target_seen: "ps_seen_post (target_signal act f g) = ps_seen_post g"
  by (simp add: target_signal_def Let_def)

lemma targets_seen:
  "ps_seen_post (signal_of q (fold (note_target act path) fs m)) = ps_seen_post (signal_of q m)"
  by (induction fs arbitrary: m) (auto simp: note_target_def signal_of_put target_seen)

lemma html_seen: "ps_seen_post (html_signal act path body fs g) = ps_seen_post g"
  by (simp add: html_signal_def Let_def)

lemma content_seen: "write_seen site path (snd (note_content act site' path' ct body found s)) = write_seen site path s"
  by (simp add: write_seen_def note_content_def Let_def signals_of_put signal_of_put targets_seen html_seen)

lemma write_seen_step:
  assumes "write_seen site path s" and "e \<noteq> Signals_Cleared site" shows "write_seen site path (signal_step act e s)"
proof (cases e)
  case (Shape_Seen site' path' r)
  with assms(1) show ?thesis
    by (auto simp: signal_step_def write_seen_def note_shape_def Let_def signals_of_put signal_of_put shape_seen)
next
  case (Page_Fetched site' path' ct body found)
  with assms(1) show ?thesis by (simp add: signal_step_def content_seen)
next
  case (Signals_Cleared site')
  with assms show ?thesis by (simp add: signal_step_def write_seen_def clear_signals_def signals_of_def gm_get_del)
qed

lemma write_seen_run:
  "write_seen site path s \<Longrightarrow> Signals_Cleared site \<notin> set es \<Longrightarrow> write_seen site path (run_machine (signal_step act) es s)"
proof (induction es arbitrary: s)
  case (Cons e es)
  then have "e \<noteq> Signals_Cleared site" by auto
  with Cons write_seen_step show ?case by simp
qed simp

text \<open>C20: Live writes outrank what a crawl concludes: once a POST, PUT or PATCH was seen on a path, then after
  whatever further traffic and crawls, as long as the signals of the site are not cleared, the path is
  never suggested the profile for static pages nor the one for query pages, and never none.\<close>

theorem write_path_never_static:
  assumes "to_upper (sp_method r) \<in> {''POST'', ''PUT'', ''PATCH''}" and "Signals_Cleared site \<notin> set es"
    and "s' = run_machine (signal_step act) es (signal_step act (Shape_Seen site path r) s)"
  shows "fst (classify_page (signal_of path (signals_of site s'))) \<in> {''upload-strict'', ''form-sqli-xss'', ''api-json''}"
proof -
  have "write_seen site path (signal_step act (Shape_Seen site path r) s)"
    using assms(1) by (auto simp: write_seen_def signal_step_def note_shape_def Let_def signals_of_put signal_of_put shape_signal_def)
  from write_seen_run [OF this assms(2)] show ?thesis by (simp add: assms(3) write_seen_def classify_page_def)
qed

section \<open>What a crawl overwrites\<close>

text \<open>What live traffic taught about uploads does not outlast a crawl: after an HTML answer for the path whose
  text has no file input, the strict upload profile is not suggested, whatever uploads were seen before.\<close>

theorem crawl_forgets_uploads:
  assumes "contains_str (to_lower ct) ''html''"
    and "\<not> contains_str (to_lower body) ''type=\"file\"''" and "\<not> contains_str (to_lower body) ''type=file''"
  shows "fst (classify_page (signal_of path (signals_of site (snd (note_content act site path ct body found s))))) \<noteq> ''upload-strict''"
proof -
  have keep: "ps_file (signal_of path (fold (note_target act path) fs m)) = ps_file (signal_of path m)" for fs m
    by (induction fs arbitrary: m) (auto simp: note_target_def signal_of_put)
  have "\<not> ps_file (signal_of path (signals_of site (snd (note_content act site path ct body found s))))"
    using assms by (simp add: note_content_def Let_def signals_of_put signal_of_put keep html_signal_def)
  then show ?thesis by (simp add: classify_page_def)
qed

section \<open>At concrete traffic\<close>

definition post_shape :: request_shape where
  "post_shape = \<lparr>sp_method = ''POST'', sp_query = [], sp_content_type = [], sp_fields = []\<rparr>"

lemma write_path_never_static_witness:
  "fst (classify_page (signal_of ''/a'' (signals_of ''s'' (run_machine (signal_step (\<lambda>_ a. a))
     [Page_Fetched ''s'' ''/a'' ''image/png'' [] []] (signal_step (\<lambda>_ a. a) (Shape_Seen ''s'' ''/a'' post_shape) [])))))
   \<in> {''upload-strict'', ''form-sqli-xss'', ''api-json''}"
proof -
  have "to_upper (sp_method post_shape) \<in> {''POST'', ''PUT'', ''PATCH''}"
    by (simp add: post_shape_def to_upper_def upper_char_def less_eq_char_def)
  moreover have "Signals_Cleared ''s'' \<notin> set [Page_Fetched ''s'' ''/a'' ''image/png'' [] []]" by simp
  ultimately show ?thesis by (rule write_path_never_static [OF _ _ refl])
qed

lemma crawl_forgets_uploads_witness:
  "fst (classify_page (signal_of ''/u'' (signals_of ''s'' (snd (note_content (\<lambda>_ a. a) ''s'' ''/u'' ''html'' [] []
     [(''s'', [(''/u'', no_signal\<lparr>ps_file := True\<rparr>)])]))))) \<noteq> ''upload-strict'' \<and>
   fst (classify_page (no_signal\<lparr>ps_file := True\<rparr>)) = ''upload-strict''"
proof -
  have "to_lower ''html'' = ''html''" by (simp add: to_lower_def lower_char_def less_eq_char_def)
  then have h: "contains_str (to_lower ''html'') ''html''" by (simp add: contains_str_def has_prefix_def)
  have "\<not> contains_str (to_lower []) x" if "x \<noteq> []" for x using that by (simp add: contains_str_def has_prefix_def to_lower_def)
  with crawl_forgets_uploads [OF h, of "[]"] show ?thesis by (simp add: classify_page_def)
qed

end
