(* ===== verification/Json_Scan.thy ===== *)
theory Json_Scan
  imports Page_Signals "HOL-Library.Sublist"
begin

text \<open>
  The scanner with which passive discovery reads the names of the fields of a captured body
  (\<^verbatim>\<open>profiles.go\<close>): a position in the body is the text from it on, and the result
  \<open>None\<close> is the false of the code. A captured body may end anywhere: the names found in a prefix
  are the first names of the whole body.
\<close>

section \<open>The scanner\<close>

definition json_space :: "char \<Rightarrow> bool" where
  "json_space c \<longleftrightarrow> c \<in> {CHR '' '', CHR 0x09, CHR 0x0D, CHR 0x0A}"

definition skip_space :: "string \<Rightarrow> string" where
  "skip_space s = dropWhile json_space s"

text \<open>From behind the opening quote: what is read, with the closer quote, and the rest.\<close>

fun text_end :: "string \<Rightarrow> (string \<times> string) option" where
  "text_end [] = None"
| "text_end (c # s) =
     (if c = CHR 0x5C
      then (case s of [] \<Rightarrow> None | d # t \<Rightarrow> map_option (\<lambda>(a, r). (c # d # a, r)) (text_end t))
      else if c = CHR 0x22 then Some ([c], s)
      else map_option (\<lambda>(a, r). (c # a, r)) (text_end s))"

definition scan_json_string :: "string \<Rightarrow> (string \<times> string) option" where
  "scan_json_string s = (case s of
     c # t \<Rightarrow> if c = CHR 0x22 then map_option (\<lambda>(a, r). (c # a, r)) (text_end t) else None
   | [] \<Rightarrow> None)"

lemma text_end_split: "text_end s = Some (a, r) \<Longrightarrow> s = a @ r \<and> a \<noteq> []"
  by (induction s arbitrary: a r rule: text_end.induct) (auto split: if_splits list.splits)

function skip_nested :: "char list \<Rightarrow> string \<Rightarrow> string option" where
  "skip_nested stack s = (case s of
     [] \<Rightarrow> None
   | c # t \<Rightarrow>
       if c = CHR 0x22 then (case text_end t of None \<Rightarrow> None | Some (_, r) \<Rightarrow> skip_nested stack r)
       else if c = CHR ''{'' then skip_nested (CHR ''}'' # stack) t
       else if c = CHR ''['' then skip_nested (CHR '']'' # stack) t
       else if c = CHR ''}'' \<or> c = CHR '']''
       then (case stack of
           [] \<Rightarrow> None
         | d # ds \<Rightarrow> if d \<noteq> c then None else if ds = [] then Some t else skip_nested ds t)
       else skip_nested stack t)"
  by pat_completeness auto

termination
  by (relation "measure (\<lambda>(stack, s). length s)") (auto dest: text_end_split)

declare skip_nested.simps [simp del]

definition value_stop :: "char \<Rightarrow> bool" where
  "value_stop c \<longleftrightarrow> c \<in> {CHR '','', CHR ''}'', CHR '']''} \<or> json_space c"

definition skip_json_value :: "string \<Rightarrow> string option" where
  "skip_json_value s =
     (case skip_space s of
        [] \<Rightarrow> None
      | c # t \<Rightarrow>
          if c = CHR 0x22 then map_option snd (scan_json_string (c # t))
          else if c = CHR ''{'' then skip_nested [CHR ''}''] t
          else if c = CHR ''['' then skip_nested [CHR '']''] t
          else if value_stop c then None else Some (dropWhile (\<lambda>c. \<not> value_stop c) t))"

text \<open>The loop, with what is left of the limit. \<open>unquote\<close> is \<^verbatim>\<open>json.Unmarshal\<close> of a
  quote_text text into a string.\<close>

fun names_loop :: "(string \<Rightarrow> string option) \<Rightarrow> nat \<Rightarrow> string \<Rightarrow> string list" where
  "names_loop unquote 0 s = []"
| "names_loop unquote (Suc n) s =
     (case scan_json_string (skip_space s) of
        None \<Rightarrow> []
      | Some (key, r) \<Rightarrow>
          (case unquote key of
             None \<Rightarrow> []
           | Some name \<Rightarrow>
               (case skip_space r of
                  c # v \<Rightarrow>
                    if c \<noteq> CHR '':'' then []
                    else name # (case skip_json_value v of
                        None \<Rightarrow> []
                      | Some w \<Rightarrow> (case skip_space w of
                          d # u \<Rightarrow> if d = CHR '','' then names_loop unquote n u else []
                        | [] \<Rightarrow> []))
                | [] \<Rightarrow> [])))"

definition top_level_names :: "(string \<Rightarrow> string option) \<Rightarrow> string \<Rightarrow> nat \<Rightarrow> string list" where
  "top_level_names unquote body limit =
     (case skip_space body of
        c # s \<Rightarrow> if c = CHR ''{'' then names_loop unquote limit s else []
      | [] \<Rightarrow> [])"

section \<open>The fields of a captured body\<close>

text \<open>What the standard library makes of a media type (with its boundary), of an escaped name, of a
  quote_text text and of a multipart body (names, and whether a file name is given).\<close>

record passive_env =
  px_media :: "string \<Rightarrow> (string \<times> string) option"
  px_unescape :: "string \<Rightarrow> string option"
  px_unquote :: "string \<Rightarrow> string option"
  px_parts :: "string \<Rightarrow> string \<Rightarrow> (string \<times> bool) list"

definition form_names :: "passive_env \<Rightarrow> string \<Rightarrow> string list" where
  "form_names env body =
     List.map_filter (\<lambda>pair. px_unescape env (takeWhile (\<lambda>c. c \<noteq> CHR ''='') pair)) (split_on CHR ''&'' body)"

definition body_names :: "passive_env \<Rightarrow> string \<Rightarrow> string \<Rightarrow> (string \<times> string) list" where
  "body_names env ct body =
     (case px_media env ct of
        None \<Rightarrow> []
      | Some (media, boundary) \<Rightarrow>
          (let media = to_lower media in
           if media = ''application/x-www-form-urlencoded'' then map (\<lambda>n. (n, [])) (form_names env body)
           else if media = ''application/json'' \<or> media = ''application/merge-patch+json''
           then map (\<lambda>n. (n, [])) (top_level_names (px_unquote env) body passive_field_limit)
           else if media = ''multipart/form-data'' \<and> boundary \<noteq> []
           then map (\<lambda>(n, file). (n, if file then ''file'' else [])) (px_parts env boundary body)
           else []))"

definition passive_body :: "passive_env \<Rightarrow> string \<Rightarrow> string \<Rightarrow> string \<Rightarrow> string \<Rightarrow> found_field list" where
  "passive_body env m path ct body = passive_fields m path (body_names env ct body)"

text \<open>Which bodies are captured: a prefix of at most 64 KiB, with whether the body was longer.\<close>

definition capture_limit :: nat where "capture_limit = 64 * 1024"

definition passive_supported :: "string \<Rightarrow> string \<Rightarrow> bool" where
  "passive_supported m ct \<longleftrightarrow> to_upper m \<in> {''POST'', ''PUT'', ''PATCH''} \<and>
     list_ex (contains_str (to_lower ct)) [''application/x-www-form-urlencoded'', ''application/json'',
       ''application/merge-patch+json'', ''application/graphql'', ''application/graphql+json'', ''multipart/form-data'']"

definition capture_body :: "bool \<Rightarrow> bool \<Rightarrow> bool \<Rightarrow> string \<Rightarrow> string \<Rightarrow> string \<Rightarrow> (string \<times> bool) option" where
  "capture_body for_ai for_passive for_schema m ct body =
     (if for_ai \<or> ((for_passive \<or> for_schema) \<and> passive_supported m ct)
      then Some (take capture_limit body, capture_limit < length body) else None)"

definition captured_fields :: "passive_env \<Rightarrow> bool \<Rightarrow> string \<Rightarrow> string \<Rightarrow> string \<Rightarrow> (string \<times> bool) option \<Rightarrow> found_field list" where
  "captured_fields env enabled m path ct capture =
     (case capture of
        Some (pre, _) \<Rightarrow> if enabled \<and> passive_supported m ct \<and> pre \<noteq> [] then passive_body env m path ct pre else []
      | None \<Rightarrow> [])"

section \<open>A prefix of a body\<close>

lemma drop_while_append: "dropWhile P t \<noteq> [] \<Longrightarrow> dropWhile P (t @ z) = dropWhile P t @ z"
  by (induction t) (auto split: if_splits)

lemma skip_space_append:
  "skip_space t \<noteq> [] \<Longrightarrow> skip_space (t @ z) = skip_space t @ z"
  by (simp add: skip_space_def drop_while_append)

lemma text_end_append: "text_end t = Some (a, r) \<Longrightarrow> text_end (t @ z) = Some (a, r @ z)"
proof (induction t arbitrary: a r rule: text_end.induct)
  case (2 c t)
  then show ?case by (cases t) (auto split: if_splits)
qed simp

lemma scan_string_append: "scan_json_string t = Some (a, r) \<Longrightarrow> scan_json_string (t @ z) = Some (a, r @ z)"
  by (auto simp: scan_json_string_def text_end_append split: list.splits if_splits)

lemma skip_nested_append: "skip_nested stack t = Some r \<Longrightarrow> skip_nested stack (t @ z) = Some (r @ z)"
proof (induction stack t arbitrary: r rule: skip_nested.induct)
  case (1 stack t)
  show ?case
  proof (cases t)
    case Nil
    with "1.prems" show ?thesis by (simp add: skip_nested.simps)
  next
    case (Cons c u)
    note l = skip_nested.simps [of stack "c # u"] and r = skip_nested.simps [of stack "c # u @ z"]
    consider (quote) "c = CHR 0x22" | (closer) "c = CHR ''}'' \<or> c = CHR '']''" | (brace) "c = CHR ''{''" | (bracket) "c = CHR ''[''" | (other) "c \<noteq> CHR 0x22" "c \<noteq> CHR ''{''" "c \<noteq> CHR ''[''" "c \<noteq> CHR ''}''" "c \<noteq> CHR '']''" by blast
    then show ?thesis
    proof cases
      case quote
      with "1.prems" Cons l obtain a v where v: "text_end u = Some (a, v)" "skip_nested stack v = Some r"
        by (auto split: option.splits)
      from "1.IH"(1) [OF Cons quote v(1) refl v(2)] text_end_append [OF v(1)] quote Cons r show ?thesis by simp
    next
      case closer
      then have c: "c \<noteq> CHR 0x22" "c \<noteq> CHR ''{''" "c \<noteq> CHR ''[''" by auto
      show ?thesis
      proof (cases stack)
        case d: (Cons d ds)
        show ?thesis
        proof (cases "d = c \<and> ds \<noteq> []")
          case True
          with "1.prems" Cons l c closer d have v: "skip_nested ds u = Some r" by simp
          from "1.IH"(4) [OF Cons c closer d _ _ v] True Cons c closer d r show ?thesis by simp
        next
          case False
          with "1.prems" Cons l r c closer d show ?thesis by (auto split: if_splits)
        qed
      qed (use "1.prems" Cons l c closer in simp)
    next
      case brace
      then have c: "c \<noteq> CHR 0x22" by simp
      with "1.prems" Cons l brace have v: "skip_nested (CHR ''}'' # stack) u = Some r" by simp
      from "1.IH"(2) [OF Cons c brace v] Cons r brace show ?thesis by simp
    next
      case bracket
      then have c: "c \<noteq> CHR 0x22" "c \<noteq> CHR ''{''" by simp_all
      with "1.prems" Cons l bracket have v: "skip_nested (CHR '']'' # stack) u = Some r" by simp
      from "1.IH"(3) [OF Cons c bracket v] Cons r bracket show ?thesis by simp
    next
      case other
      then have c: "\<not> (c = CHR ''}'' \<or> c = CHR '']'')" by simp
      from "1.prems" Cons l other have v: "skip_nested stack u = Some r" by simp
      from "1.IH"(5) [OF Cons other(1-3) c v] Cons r other show ?thesis by simp
    qed
  qed
qed

lemma skip_value_append:
  assumes "skip_json_value t = Some w" and "w \<noteq> []" shows "skip_json_value (t @ z) = Some (w @ z)"
proof -
  obtain c u where t: "skip_space t = c # u" using assms(1) by (auto simp: skip_json_value_def split: list.splits)
  then have tz: "skip_space (t @ z) = c # u @ z" using skip_space_append [of t z] by simp
  with assms t drop_while_append [of "\<lambda>c. \<not> value_stop c" u z] skip_nested_append scan_string_append [of "c # u" _ w z] show ?thesis
    by (auto simp: skip_json_value_def split: if_splits)
qed

lemma names_loop_append: "prefix (names_loop unquote n t) (names_loop unquote n (t @ z))"
proof (induction n arbitrary: t)
  case (Suc n)
  show ?case
  proof (cases "scan_json_string (skip_space t)")
    case (Some kr)
    obtain key r where kr: "kr = (key, r)" by fastforce
    then have "skip_space t \<noteq> []" using Some by (auto simp: scan_json_string_def)
    then have key: "scan_json_string (skip_space (t @ z)) = Some (key, r @ z)"
      using Some kr by (simp add: skip_space_append scan_string_append)
    show ?thesis
    proof (cases "skip_space r")
      case (Cons c v)
      then have r: "skip_space (r @ z) = c # v @ z" using skip_space_append [of r z] by simp
      show ?thesis
      proof (cases "skip_json_value v")
        case w: (Some w)
        show ?thesis
        proof (cases "skip_space w")
          case d: (Cons d u)
          then have "w \<noteq> []" by (auto simp: skip_space_def)
          from skip_value_append [OF w this] have "skip_json_value (v @ z) = Some (w @ z)" .
          moreover have "skip_space (w @ z) = d # u @ z" using d skip_space_append [of w z] by simp
          ultimately show ?thesis using Suc.IH [of u] Some kr key Cons r w d by (simp split: option.split)
        qed (use Some kr key Cons r w in \<open>simp split: option.split\<close>)
      qed (use Some kr key Cons r in \<open>simp split: option.split\<close>)
    qed (use Some kr in \<open>simp split: option.split\<close>)
  qed simp
qed simp

text \<open>C28: A body may be captured in part only: the field names found in a prefix of a body are the first of
  those found in the whole body.\<close>

theorem captured_names_first:
  "prefix (top_level_names unquote (take n body) limit) (top_level_names unquote body limit)"
proof (cases "skip_space (take n body)")
  case (Cons c s)
  then have "skip_space body = c # s @ drop n body" using skip_space_append [of "take n body" "drop n body"] by simp
  with Cons show ?thesis by (simp add: top_level_names_def names_loop_append)
qed (simp add: top_level_names_def)

section \<open>The names of a written object\<close>

text \<open>Texts of JSON values: the atoms are numbers and literals, a string is the text between its quotes.\<close>

datatype json_text =
    Atom_Text string
  | String_Text string
  | Array_Text "json_text list"
  | Object_Text "(string \<times> json_text) list"

definition quote_text :: "string \<Rightarrow> string" where
  "quote_text s = CHR 0x22 # s @ [CHR 0x22]"

definition plain_char :: "char \<Rightarrow> bool" where
  "plain_char c \<longleftrightarrow> \<not> value_stop c \<and> c \<notin> {CHR 0x22, CHR ''{'', CHR ''[''}"

definition raw_ok :: "string \<Rightarrow> bool" where
  "raw_ok s \<longleftrightarrow> text_end (s @ [CHR 0x22]) = Some (s @ [CHR 0x22], [])"

fun write_json :: "json_text \<Rightarrow> string" where
  "write_json (Atom_Text a) = a"
| "write_json (String_Text s) = quote_text s"
| "write_json (Array_Text vs) = CHR ''['' # join_with '','' (map write_json vs) @ '']''"
| "write_json (Object_Text kvs) = CHR ''{'' # join_with '','' (map (\<lambda>(k, v). quote_text k @ CHR '':'' # write_json v) kvs) @ ''}''"

fun text_ok :: "json_text \<Rightarrow> bool" where
  "text_ok (Atom_Text a) = (a \<noteq> [] \<and> list_all plain_char a)"
| "text_ok (String_Text s) = raw_ok s"
| "text_ok (Array_Text vs) = list_all text_ok vs"
| "text_ok (Object_Text kvs) = list_all (\<lambda>(k, v). raw_ok k \<and> text_ok v) kvs"

lemma quoted_end: "raw_ok s \<Longrightarrow> text_end (s @ CHR 0x22 # z) = Some (s @ [CHR 0x22], z)"
  using text_end_append [of "s @ [CHR 0x22]" "s @ [CHR 0x22]" "[]" z] by (simp add: raw_ok_def)

lemma scan_quoted: "raw_ok s \<Longrightarrow> scan_json_string (quote_text s @ z) = Some (quote_text s, z)"
  by (simp add: scan_json_string_def quote_text_def quoted_end)

lemma skip_one:
  "skip_nested stack (CHR '':'' # z) = skip_nested stack z" "skip_nested stack (CHR '','' # z) = skip_nested stack z"
  "skip_nested stack (CHR ''['' # z) = skip_nested (CHR '']'' # stack) z"
  "skip_nested stack (CHR ''{'' # z) = skip_nested (CHR ''}'' # stack) z"
  by (simp_all add: skip_nested.simps [of stack "_ # _"])

lemma skip_close:
  "skip_nested (CHR '']'' # stack) (CHR '']'' # z) = (if stack = [] then Some z else skip_nested stack z)"
  "skip_nested (CHR ''}'' # stack) (CHR ''}'' # z) = (if stack = [] then Some z else skip_nested stack z)"
  by (simp_all add: skip_nested.simps [of "_ # _" "_ # _"])

lemma skip_quoted: "raw_ok s \<Longrightarrow> skip_nested stack (quote_text s @ z) = skip_nested stack z"
  by (simp add: skip_nested.simps [of stack "CHR 0x22 # s @ CHR 0x22 # z"] quote_text_def quoted_end)

lemma skip_plain: "list_all plain_char a \<Longrightarrow> skip_nested stack (a @ z) = skip_nested stack z"
proof (induction a)
  case (Cons c a)
  then show ?case by (simp add: skip_nested.simps [of stack "c # a @ z"] plain_char_def value_stop_def)
qed simp

lemma skip_joined:
  assumes "\<And>w z. w \<in> set ws \<Longrightarrow> skip_nested stack (w @ z) = skip_nested stack z"
  shows "skip_nested stack (join_with '','' ws @ z) = skip_nested stack z"
proof -
  have "skip_nested stack (concat (map ((@) '','') us) @ z) = skip_nested stack z" if "set us \<subseteq> set ws" for us
    using that by (induction us) (simp_all add: assms skip_one)
  with assms show ?thesis by (cases ws) (simp_all add: join_with_def subset_insertI)
qed

lemma skip_written: "text_ok v \<Longrightarrow> stack \<noteq> [] \<Longrightarrow> skip_nested stack (write_json v @ z) = skip_nested stack z"
proof (induction v arbitrary: stack z)
  case (Array_Text vs)
  have "skip_nested (CHR '']'' # stack) (join_with '','' (map write_json vs) @ CHR '']'' # z) =
      skip_nested (CHR '']'' # stack) (CHR '']'' # z)"
    using Array_Text by (intro skip_joined) (auto simp: list_all_iff)
  with Array_Text.prems show ?case by (simp add: skip_one skip_close)
next
  case (Object_Text kvs)
  have "skip_nested (CHR ''}'' # stack) (join_with '','' (map (\<lambda>(k, v). quote_text k @ CHR '':'' # write_json v) kvs) @ CHR ''}'' # z) =
      skip_nested (CHR ''}'' # stack) (CHR ''}'' # z)"
  proof (rule skip_joined)
    fix w z assume "w \<in> set (map (\<lambda>(k, v). quote_text k @ CHR '':'' # write_json v) kvs)"
    then obtain k v where kv: "(k, v) \<in> set kvs" and w: "w = quote_text k @ CHR '':'' # write_json v" by auto
    from kv Object_Text.prems have "raw_ok k" "text_ok v" by (auto simp: list_all_iff)
    with Object_Text.IH [OF kv, of v "CHR ''}'' # stack" z] w
    show "skip_nested (CHR ''}'' # stack) (w @ z) = skip_nested (CHR ''}'' # stack) z"
      by (simp add: skip_quoted skip_one)
  qed
  with Object_Text.prems show ?case by (simp add: skip_one skip_close)
qed (simp_all add: skip_quoted skip_plain)

lemma skip_value_written:
  assumes "text_ok v" and "value_stop d" shows "skip_json_value (write_json v @ d # z) = Some (d # z)"
proof (cases v)
  case (Atom_Text a)
  then obtain c b where a: "a = c # b" "plain_char c" "list_all plain_char b" using assms(1) by (cases a) auto
  have "dropWhile (\<lambda>c. \<not> value_stop c) (b @ d # z) = d # z"
    using a(3) assms(2) by (induction b) (simp_all add: plain_char_def)
  with Atom_Text a show ?thesis by (simp add: skip_json_value_def skip_space_def plain_char_def value_stop_def)
next
  case (String_Text s)
  with assms scan_quoted [of s "d # z"] show ?thesis
    by (simp add: skip_json_value_def skip_space_def json_space_def quote_text_def)
next
  case (Array_Text vs)
  have "skip_nested [CHR '']''] (join_with '','' (map write_json vs) @ CHR '']'' # d # z) =
      skip_nested [CHR '']''] (CHR '']'' # d # z)"
    using Array_Text assms(1) by (intro skip_joined) (auto simp: list_all_iff skip_written)
  with Array_Text show ?thesis by (simp add: skip_json_value_def skip_space_def json_space_def skip_close)
next
  case (Object_Text kvs)
  have "skip_nested [CHR ''}''] (join_with '','' (map (\<lambda>(k, v). quote_text k @ CHR '':'' # write_json v) kvs) @ CHR ''}'' # d # z) =
      skip_nested [CHR ''}''] (CHR ''}'' # d # z)"
    using Object_Text assms(1) by (intro skip_joined) (auto simp: list_all_iff skip_written skip_quoted skip_one)
  with Object_Text show ?thesis by (simp add: skip_json_value_def skip_space_def json_space_def skip_close)
qed

lemma names_loop_written:
  assumes "\<And>k v. (k, v) \<in> set kvs \<Longrightarrow> raw_ok k \<and> text_ok v \<and> unquote (quote_text k) = Some (f k)"
  shows "names_loop unquote n (join_with '','' (map (\<lambda>(k, v). quote_text k @ CHR '':'' # write_json v) kvs) @ CHR ''}'' # z) =
    map (f \<circ> fst) (take n kvs)"
  using assms
proof (induction kvs arbitrary: n)
  case Nil
  have "scan_json_string (skip_space (CHR ''}'' # z)) = None"
    by (simp add: scan_json_string_def skip_space_def json_space_def)
  then show ?case by (cases n) (simp_all add: join_with_def)
next
  case (Cons kv kvs)
  obtain k v where kv: "kv = (k, v)" by fastforce
  have ok: "raw_ok k" "text_ok v" "unquote (quote_text k) = Some (f k)" using Cons.prems [of k v] kv by simp_all
  define rest where "rest = (if kvs = [] then CHR ''}'' # z
    else CHR '','' # join_with '','' (map (\<lambda>(k, v). quote_text k @ CHR '':'' # write_json v) kvs) @ CHR ''}'' # z)"
  have written: "join_with '','' (map (\<lambda>(k, v). quote_text k @ CHR '':'' # write_json v) (kv # kvs)) @ CHR ''}'' # z =
      quote_text k @ CHR '':'' # write_json v @ rest"
    by (cases kvs) (simp_all add: rest_def kv join_with_def)
  have start: "skip_space (quote_text k @ y) = quote_text k @ y" "skip_space (CHR '':'' # y) = CHR '':'' # y" "skip_space rest = rest" for y
    by (simp_all add: skip_space_def quote_text_def json_space_def rest_def)
  obtain d u where d: "rest = d # u" "value_stop d" by (cases "kvs = []") (simp_all add: rest_def value_stop_def)
  have skipped: "skip_json_value (write_json v @ rest) = Some rest" unfolding d(1) by (rule skip_value_written [OF ok(2) d(2)])
  show ?case
  proof (cases n)
    case (Suc m)
    have "names_loop unquote m (join_with '','' (map (\<lambda>(k, v). quote_text k @ CHR '':'' # write_json v) kvs) @ CHR ''}'' # z) =
        map (f \<circ> fst) (take m kvs)"
      by (rule Cons.IH) (rule Cons.prems, simp)
    then show ?thesis unfolding written Suc
      by (simp add: start scan_quoted ok skipped kv) (simp add: rest_def)
  qed simp
qed



end
