(* ===== verification/Identity_Config.thy ===== *)
theory Identity_Config
  imports Operation_Inventory
begin

text \<open>
  The API identity configuration (\<^verbatim>\<open>identity_api5.go\<close>): the trusted JWT issuers and
  the identity policies of operations, their normalization, and the operations of the store. What
  \<^verbatim>\<open>url.Parse\<close> makes of an address is an argument.
\<close>

record jwt_issuer =
  ji_id :: string
  ji_name :: string
  ji_issuer :: string
  ji_url :: string
  ji_audiences :: "string list"
  ji_algs :: "string list"
  ji_skew :: int
  ji_ttl :: int
  ji_subject :: string
  ji_tenant :: string
  ji_client :: string
  ji_roles :: string
  ji_scopes :: string
  ji_enabled :: bool
  ji_created_at :: gtime
  ji_updated_at :: gtime
  ji_created_by :: string
  ji_updated_by :: string

record identity_policy =
  iy_operation :: string
  iy_issuer :: string
  iy_mode :: string
  iy_require :: bool
  iy_roles :: "string list"
  iy_scopes :: "string list"
  iy_role_match :: string
  iy_scope_match :: string
  iy_tenant :: string
  iy_clients :: "string list"
  iy_unauthorized :: int
  iy_forbidden :: int
  iy_created_at :: gtime
  iy_updated_at :: gtime
  iy_created_by :: string
  iy_updated_by :: string
  iy_reason :: string

datatype identity_error =
    Missing_Issuer_Fields | Issuer_Too_Long | Bad_Jwks_Url | No_Audience | Unsupported_Alg string | Bad_Clock_Skew
  | Bad_Cache_Ttl | Bad_Claim_Path | Issuer_In_Use | Set_Too_Long string | Set_Empty_Value string | Set_Value_Too_Long string
  | Missing_Policy_Fields | Bad_Identity_Mode | New_Policy_Enforced | Bad_Match_Mode | Fixed_Statuses
  | No_Discovered_Operation | No_Enabled_Issuer | Identity_Policy_Not_Found | Only_To_Detect | Only_To_Enforce

definition identity_detect :: string where "identity_detect = ''DETECT''"
definition identity_enforce :: string where "identity_enforce = ''ENFORCE''"

section \<open>Normalization\<close>

definition normalize_identity_mode :: "string \<Rightarrow> identity_error + string" where
  "normalize_identity_mode v =
     (let v = to_upper (trim_space v) in
      if v = identity_detect \<or> v = identity_enforce then Inr v
      else if v = [] then Inr identity_detect else Inl Bad_Identity_Mode)"

definition normalize_match :: "string \<Rightarrow> identity_error + string" where
  "normalize_match v =
     (let v = to_lower (trim_space v) in
      if v = [] then Inr ''all'' else if v \<noteq> ''all'' \<and> v \<noteq> ''any'' then Inl Bad_Match_Mode else Inr v)"

definition jwt_algs :: "string list" where
  "jwt_algs = [''RS256'', ''RS384'', ''RS512'', ''PS256'', ''PS384'', ''PS512'', ''ES256'', ''ES384'', ''ES512'', ''EDDSA'']"

definition normalize_alg :: "string \<Rightarrow> string option" where
  "normalize_alg v = (let v = to_upper (trim_space v) in if v \<in> set jwt_algs then Some v else None)"

definition policy_set :: "string \<Rightarrow> nat \<Rightarrow> nat \<Rightarrow> string list \<Rightarrow> identity_error + string list" where
  "policy_set field max_items max_len xs =
     (if length xs > max_items then Inl (Set_Too_Long field)
      else
        let ts = map trim_space xs in
        (case find (\<lambda>t. t = [] \<or> length t > max_len) ts of
           Some t \<Rightarrow> Inl (if t = [] then Set_Empty_Value field else Set_Value_Too_Long field)
         | None \<Rightarrow> Inr (sort_by (\<lambda>a b. a < b) (remdups ts))))"

text \<open>The first of each value only, at most \<open>max_items\<close> of them.\<close>

definition string_set :: "nat \<Rightarrow> nat \<Rightarrow> string list \<Rightarrow> string list" where
  "string_set max_items max_len xs =
     sort_by (\<lambda>a b. a < b) (take max_items (rev (remdups (rev (filter (\<lambda>t. t \<noteq> [] \<and> length t \<le> max_len) (map trim_space xs))))))"

type_synonym url_parts = "(string \<times> string \<times> bool \<times> string) option"

definition jwks_url_ok :: "url_parts \<Rightarrow> bool" where
  "jwks_url_ok u = (case u of
     Some (scheme, host, user, fragment) \<Rightarrow> scheme = ''https'' \<and> host \<noteq> [] \<and> \<not> user \<and> fragment = []
   | None \<Rightarrow> False)"

definition claim_default :: "string \<Rightarrow> string \<Rightarrow> string" where
  "claim_default d v = (if v = [] then d else v)"

definition with_claims :: "jwt_issuer \<Rightarrow> jwt_issuer" where
  "with_claims i = i\<lparr>ji_subject := claim_default ''sub'' (ji_subject i), ji_client := claim_default ''client_id'' (ji_client i),
     ji_roles := claim_default ''roles'' (ji_roles i), ji_scopes := claim_default ''scope'' (ji_scopes i)\<rparr>"

definition claim_path_ok :: "string \<Rightarrow> bool" where
  "claim_path_ok p \<longleftrightarrow> length p \<le> 256 \<and> CHR ''['' \<notin> set p \<and> CHR '']'' \<notin> set p"

definition min_cache_ttl :: int where "min_cache_ttl = 300"
definition max_cache_ttl :: int where "max_cache_ttl = 86400"

definition trimmed_issuer :: "jwt_issuer \<Rightarrow> jwt_issuer" where
  "trimmed_issuer i = i\<lparr>ji_id := trim_space (ji_id i), ji_name := trim_space (ji_name i),
     ji_issuer := trim_space (ji_issuer i), ji_url := trim_space (ji_url i)\<rparr>"

definition normalize_issuer :: "(string \<Rightarrow> url_parts) \<Rightarrow> gtime \<Rightarrow> string \<Rightarrow> jwt_issuer option \<Rightarrow> jwt_issuer \<Rightarrow>
    identity_error + jwt_issuer" where
  "normalize_issuer parse_url now actor existing i =
     (let i = trimmed_issuer i in
      if ji_id i = [] \<or> ji_issuer i = [] \<or> ji_url i = [] then Inl Missing_Issuer_Fields
      else if length (ji_id i) > 128 \<or> length (ji_issuer i) > 2048 \<or> length (ji_url i) > 4096 then Inl Issuer_Too_Long
      else if \<not> jwks_url_ok (parse_url (ji_url i)) then Inl Bad_Jwks_Url
      else if ji_audiences i = [] then Inl No_Audience
      else (case policy_set ''audiences'' 64 512 (ji_audiences i) of
          Inl e \<Rightarrow> Inl e
        | Inr auds \<Rightarrow>
            let raws = (if ji_algs i = [] then [''RS256''] else ji_algs i) in
            (case find (\<lambda>r. normalize_alg r = None) raws of
               Some r \<Rightarrow> Inl (Unsupported_Alg r)
             | None \<Rightarrow>
                 let ttl = (if ji_ttl i = 0 then min_cache_ttl else ji_ttl i);
                     j = with_claims (i\<lparr>ji_audiences := auds, ji_ttl := ttl,
                       ji_algs := sort_by (\<lambda>a b. a < b) (remdups (List.map_filter normalize_alg raws))\<rparr>)
                 in if ji_skew i < 0 \<or> ji_skew i > 300 then Inl Bad_Clock_Skew
                    else if ttl < min_cache_ttl \<or> ttl > max_cache_ttl then Inl Bad_Cache_Ttl
                    else if \<not> list_all claim_path_ok [ji_subject j, ji_tenant j, ji_client j, ji_roles j, ji_scopes j]
                    then Inl Bad_Claim_Path
                    else Inr (j\<lparr>ji_created_at := (case existing of Some o' \<Rightarrow> ji_created_at o' | None \<Rightarrow> now),
                      ji_created_by := (case existing of Some o' \<Rightarrow> ji_created_by o' | None \<Rightarrow> actor),
                      ji_updated_at := now, ji_updated_by := actor\<rparr>))))"

definition normalize_identity_policy :: "gtime \<Rightarrow> string \<Rightarrow> identity_policy option \<Rightarrow> identity_policy \<Rightarrow>
    identity_error + identity_policy" where
  "normalize_identity_policy now actor existing p =
     (let opid = trim_space (iy_operation p); iss = trim_space (iy_issuer p) in
      if opid = [] \<or> iss = [] then Inl Missing_Policy_Fields
      else (case normalize_identity_mode (iy_mode p) of Inl e \<Rightarrow> Inl e | Inr m \<Rightarrow>
        if existing = None \<and> m = identity_enforce then Inl New_Policy_Enforced
        else (case policy_set ''required_roles'' 64 256 (iy_roles p) of Inl e \<Rightarrow> Inl e | Inr roles \<Rightarrow>
        (case policy_set ''required_scopes'' 128 256 (iy_scopes p) of Inl e \<Rightarrow> Inl e | Inr scopes \<Rightarrow>
        (case policy_set ''allowed_client_ids'' 64 512 (iy_clients p) of Inl e \<Rightarrow> Inl e | Inr clients \<Rightarrow>
        (case normalize_match (iy_role_match p) of Inl e \<Rightarrow> Inl e | Inr rm \<Rightarrow>
        (case normalize_match (iy_scope_match p) of Inl e \<Rightarrow> Inl e | Inr sm \<Rightarrow>
          let u = (if iy_unauthorized p = 0 then 401 else iy_unauthorized p);
              f = (if iy_forbidden p = 0 then 403 else iy_forbidden p)
          in if u \<noteq> 401 \<or> f \<noteq> 403 then Inl Fixed_Statuses
             else Inr (p\<lparr>iy_operation := opid, iy_issuer := iss,
               iy_mode := (case existing of None \<Rightarrow> identity_detect | Some o' \<Rightarrow> iy_mode o'), iy_require := True,
               iy_roles := roles, iy_scopes := scopes, iy_clients := clients, iy_role_match := rm, iy_scope_match := sm,
               iy_unauthorized := u, iy_forbidden := f,
               iy_created_at := (case existing of Some o' \<Rightarrow> iy_created_at o' | None \<Rightarrow> now),
               iy_created_by := (case existing of Some o' \<Rightarrow> iy_created_by o' | None \<Rightarrow> actor),
               iy_updated_at := now, iy_updated_by := actor\<rparr>))))))))"

text \<open>Lists are compared joined by a zero byte.\<close>

definition join_zero :: "string list \<Rightarrow> string" where
  "join_zero xs = join_with [CHR 0x00] xs"

definition same_identity_policy :: "identity_policy \<Rightarrow> identity_policy \<Rightarrow> bool" where
  "same_identity_policy a b \<longleftrightarrow> iy_operation a = iy_operation b \<and> iy_issuer a = iy_issuer b \<and> iy_require a = iy_require b \<and>
     iy_role_match a = iy_role_match b \<and> iy_scope_match a = iy_scope_match b \<and> iy_tenant a = iy_tenant b \<and>
     join_zero (iy_roles a) = join_zero (iy_roles b) \<and> join_zero (iy_scopes a) = join_zero (iy_scopes b) \<and>
     join_zero (iy_clients a) = join_zero (iy_clients b)"

definition same_issuer :: "jwt_issuer \<Rightarrow> jwt_issuer \<Rightarrow> bool" where
  "same_issuer a b \<longleftrightarrow> ji_id a = ji_id b \<and> ji_issuer a = ji_issuer b \<and> ji_url a = ji_url b \<and> ji_skew a = ji_skew b \<and>
     ji_ttl a = ji_ttl b \<and> ji_subject a = ji_subject b \<and> ji_tenant a = ji_tenant b \<and> ji_client a = ji_client b \<and>
     ji_roles a = ji_roles b \<and> ji_scopes a = ji_scopes b \<and>
     join_zero (ji_audiences a) = join_zero (ji_audiences b) \<and> join_zero (ji_algs a) = join_zero (ji_algs b)"

end
