(* ===== verification/Identity_Token.thy ===== *)
theory Identity_Token
  imports Identity_Config Schema_Collect
begin

text \<open>
  Verification of a bearer token against an issuer (\<^verbatim>\<open>identity_api5.go\<close>): the key set
  with its refresh, the parsing of the token, the choice of the key, the signature and the claims.

  The cryptographic primitives, base64 and the parsing of JSON are in \<open>token_env\<close>: an
  object is its members without duplicates, and a key set document the list of its keys, those that
  do not parse being \<open>None\<close>. Two key sets with the same keys and times are one.
\<close>

datatype ec_curve = P256 | P384 | P521
datatype hash_name = Sha256 | Sha384 | Sha512

datatype public_key =
    Rsa_Key string nat
  | Ec_Key ec_curve string string
  | Ed_Key string

record raw_jwk =
  rk_kty :: string
  rk_kid :: string
  rk_use :: string
  rk_alg :: string
  rk_ops :: "string list"
  rk_n :: string
  rk_e :: string
  rk_crv :: string
  rk_x :: string
  rk_y :: string

type_synonym json_object = "(string \<times> json) list"

record token_env =
  jx_base64 :: "string \<Rightarrow> string option"
  jx_object :: "string \<Rightarrow> json_object option"
  jx_float :: "string \<Rightarrow> rat option"
  jx_jwks :: "string \<Rightarrow> raw_jwk option list option"
  jx_on_curve :: "ec_curve \<Rightarrow> string \<Rightarrow> string \<Rightarrow> bool"
  jx_pkcs :: "string \<Rightarrow> nat \<Rightarrow> hash_name \<Rightarrow> string \<Rightarrow> string \<Rightarrow> bool"
  jx_pss :: "string \<Rightarrow> nat \<Rightarrow> hash_name \<Rightarrow> string \<Rightarrow> string \<Rightarrow> bool"
  jx_ecdsa :: "ec_curve \<Rightarrow> string \<Rightarrow> string \<Rightarrow> hash_name \<Rightarrow> string \<Rightarrow> string \<Rightarrow> string \<Rightarrow> bool"
  jx_ed25519 :: "string \<Rightarrow> string \<Rightarrow> string \<Rightarrow> bool"
  jx_subject_hash :: "string \<Rightarrow> string"

record jwk =
  jk_kid :: string
  jk_alg :: string
  jk_key :: public_key

record key_set =
  ks_keys :: "jwk list"
  ks_fetched :: gtime
  ks_expires :: gtime

record issuer_runtime =
  ir_config :: jwt_issuer
  ir_keys :: "key_set option"
  ir_last_miss :: gtime

section \<open>Key sets\<close>

definition max_jwks_bytes :: nat where "max_jwks_bytes = 2 ^ 20"

definition exponent_of :: "string \<Rightarrow> nat" where
  "exponent_of bs = foldl (\<lambda>e b. 256 * e + of_char b) 0 bs"

definition curve_of :: "string \<Rightarrow> ec_curve option" where
  "curve_of crv =
     (if crv = ''P-256'' then Some P256 else if crv = ''P-384'' then Some P384 else if crv = ''P-521'' then Some P521 else None)"

definition public_key_of :: "token_env \<Rightarrow> raw_jwk \<Rightarrow> public_key option" where
  "public_key_of env j =
     (let kty = to_upper (rk_kty j) in
      if kty = ''RSA'' then
        (case (jx_base64 env (rk_n j), jx_base64 env (rk_e j)) of
           (Some nb, Some eb) \<Rightarrow>
             if length nb < 256 \<or> eb = [] \<or> length eb > 4 \<or> exponent_of eb < 3 \<or> even (exponent_of eb) then None
             else Some (Rsa_Key nb (exponent_of eb))
         | _ \<Rightarrow> None)
      else if kty = ''EC'' then
        (case (curve_of (rk_crv j), jx_base64 env (rk_x j), jx_base64 env (rk_y j)) of
           (Some c, Some xb, Some yb) \<Rightarrow> if jx_on_curve env c xb yb then Some (Ec_Key c xb yb) else None
         | _ \<Rightarrow> None)
      else if kty = ''OKP'' \<and> rk_crv j = ''Ed25519'' then
        (case jx_base64 env (rk_x j) of
           Some xb \<Rightarrow> if length xb = 32 then Some (Ed_Key xb) else None
         | None \<Rightarrow> None)
      else None)"

definition usable_jwk :: "token_env \<Rightarrow> raw_jwk option \<Rightarrow> jwk option" where
  "usable_jwk env raw = (case raw of
     None \<Rightarrow> None
   | Some j \<Rightarrow>
       if (rk_use j \<noteq> [] \<and> rk_use j \<noteq> ''sig'') \<or> (rk_ops j \<noteq> [] \<and> ''verify'' \<notin> set (rk_ops j)) then None
       else map_option (\<lambda>k. \<lparr>jk_kid = trim_space (rk_kid j), jk_alg = to_upper (trim_space (rk_alg j)), jk_key = k\<rparr>)
         (public_key_of env j))"

definition parse_jwks :: "token_env \<Rightarrow> string \<Rightarrow> jwk list option" where
  "parse_jwks env bytes =
     (if bytes = [] \<or> length bytes > max_jwks_bytes then None
      else (case jx_jwks env bytes of
          None \<Rightarrow> None
        | Some raws \<Rightarrow>
            if raws = [] \<or> length raws > 256 then None
            else (let ks = List.map_filter (usable_jwk env) raws in if ks = [] then None else Some ks)))"

definition fetched_set :: "gtime \<Rightarrow> jwt_issuer \<Rightarrow> jwk list \<Rightarrow> key_set" where
  "fetched_set now cfg ks = \<lparr>ks_keys = ks, ks_fetched = now, ks_expires = now + ji_ttl cfg * 1000000000\<rparr>"

definition fresh_keys :: "gtime \<Rightarrow> issuer_runtime \<Rightarrow> bool" where
  "fresh_keys now rt \<longleftrightarrow> (case ir_keys rt of Some k \<Rightarrow> now < ks_expires k | None \<Rightarrow> False)"

text \<open>\<open>fetch\<close> is what an address answers; the result tells also whether it was asked.\<close>

type_synonym fetcher = "string \<Rightarrow> string option"

definition refresh_keys :: "token_env \<Rightarrow> bool \<Rightarrow> gtime \<Rightarrow> gtime \<Rightarrow> fetcher \<Rightarrow> issuer_runtime \<Rightarrow>
    key_set option \<times> issuer_runtime \<times> bool" where
  "refresh_keys env force now now2 fetch rt =
     (if \<not> force \<and> fresh_keys now rt then (ir_keys rt, rt, False)
      else (case fetch (ji_url (ir_config rt)) of
          None \<Rightarrow> (None, rt, True)
        | Some bytes \<Rightarrow> (case parse_jwks env bytes of
            None \<Rightarrow> (None, rt, True)
          | Some ks \<Rightarrow> (let k = fetched_set now2 (ir_config rt) ks in (Some k, rt\<lparr>ir_keys := Some k\<rparr>, True)))))"

definition key_miss_min :: int where "key_miss_min = 30 * 1000000000"

definition refresh_for_miss :: "token_env \<Rightarrow> gtime \<Rightarrow> fetcher \<Rightarrow> key_set option \<Rightarrow> issuer_runtime \<Rightarrow>
    key_set option \<times> issuer_runtime \<times> bool" where
  "refresh_for_miss env now fetch observed rt =
     (if ir_keys rt \<noteq> None \<and> observed \<noteq> None \<and> ir_keys rt \<noteq> observed then (ir_keys rt, rt, False)
      else if ir_last_miss rt \<noteq> 0 \<and> time_sub now (ir_last_miss rt) < key_miss_min then (ir_keys rt, rt, False)
      else (case fetch (ji_url (ir_config rt)) of
          None \<Rightarrow> (None, rt, True)
        | Some bytes \<Rightarrow> (case parse_jwks env bytes of
            None \<Rightarrow> (None, rt, True)
          | Some ks \<Rightarrow> (let k = fetched_set now (ir_config rt) ks in
              (Some k, rt\<lparr>ir_keys := Some k, ir_last_miss := now\<rparr>, True)))))"

text \<open>What another request does to a runtime.\<close>

datatype key_refresh = Plain_Refresh bool gtime gtime fetcher | Miss_Refresh gtime fetcher "key_set option"

definition apply_refresh :: "token_env \<Rightarrow> key_refresh \<Rightarrow> issuer_runtime \<Rightarrow> issuer_runtime" where
  "apply_refresh env e rt = (case e of
     Plain_Refresh force now now2 fetch \<Rightarrow> fst (snd (refresh_keys env force now now2 fetch rt))
   | Miss_Refresh now fetch observed \<Rightarrow> fst (snd (refresh_for_miss env now fetch observed rt)))"

section \<open>Tokens\<close>

record parsed_jwt =
  pj_claims :: json_object
  pj_data :: string
  pj_signature :: string
  pj_alg :: string
  pj_kid :: string

definition max_token_bytes :: nat where "max_token_bytes = 32 * 1024"

definition text_member :: "json_object \<Rightarrow> string \<Rightarrow> string" where
  "text_member m k = (case map_of m k of Some (Json_String s) \<Rightarrow> s | _ \<Rightarrow> [])"

definition decode_segment :: "token_env \<Rightarrow> string \<Rightarrow> json_object option" where
  "decode_segment env seg = (case jx_base64 env seg of
     None \<Rightarrow> None
   | Some b \<Rightarrow> if length b > max_token_bytes then None else jx_object env b)"

definition header_ok :: "json_object \<Rightarrow> bool" where
  "header_ok h \<longleftrightarrow>
     (case map_of h ''crit'' of None \<Rightarrow> True | Some (Json_Array xs) \<Rightarrow> xs = [] | Some _ \<Rightarrow> False) \<and>
     (case map_of h ''b64'' of None \<Rightarrow> True | Some (Json_Bool b) \<Rightarrow> b | Some _ \<Rightarrow> False)"

definition parse_jwt :: "token_env \<Rightarrow> string \<Rightarrow> parsed_jwt option" where
  "parse_jwt env token =
     (if token = [] \<or> length token > max_token_bytes then None
      else (case split_on CHR ''.'' token of
          [h, c, s] \<Rightarrow>
            if h = [] \<or> c = [] \<or> s = [] then None
            else (case (decode_segment env h, decode_segment env c, jx_base64 env s) of
                (Some hdr, Some claims, Some sig) \<Rightarrow>
                  let alg = to_upper (trim_space (text_member hdr ''alg'')) in
                  if sig = [] \<or> length sig > 2048 \<or> alg = [] \<or> alg = ''NONE'' \<or> \<not> header_ok hdr then None
                  else Some \<lparr>pj_claims = claims, pj_data = h @ ''.'' @ c, pj_signature = sig, pj_alg = alg,
                    pj_kid = trim_space (text_member hdr ''kid'')\<rparr>
              | _ \<Rightarrow> None)
        | _ \<Rightarrow> None))"

definition compatible_key :: "string \<Rightarrow> public_key \<Rightarrow> bool" where
  "compatible_key alg k =
     (if has_prefix alg ''RS'' \<or> has_prefix alg ''PS'' then (case k of Rsa_Key _ _ \<Rightarrow> True | _ \<Rightarrow> False)
      else if has_prefix alg ''ES'' then
        (case k of
           Ec_Key c _ _ \<Rightarrow> (alg, c) \<in> {(''ES256'', P256), (''ES384'', P384), (''ES512'', P521)}
         | _ \<Rightarrow> False)
      else alg = ''EDDSA'' \<and> (case k of Ed_Key _ \<Rightarrow> True | _ \<Rightarrow> False))"

definition key_matches :: "string \<Rightarrow> string \<Rightarrow> jwk \<Rightarrow> bool" where
  "key_matches kid alg k \<longleftrightarrow>
     (kid = [] \<or> jk_kid k = kid) \<and> (jk_alg k = [] \<or> jk_alg k = alg) \<and> compatible_key alg (jk_key k)"

definition select_key :: "key_set option \<Rightarrow> string \<Rightarrow> string \<Rightarrow> jwk option" where
  "select_key ks kid alg = (case ks of
     None \<Rightarrow> None
   | Some k \<Rightarrow> (case filter (key_matches kid alg) (ks_keys k) of [j] \<Rightarrow> Some j | _ \<Rightarrow> None))"

definition alg_hash :: "string \<Rightarrow> hash_name option" where
  "alg_hash alg =
     (if alg \<in> {''RS256'', ''PS256'', ''ES256''} then Some Sha256
      else if alg \<in> {''RS384'', ''PS384'', ''ES384''} then Some Sha384
      else if alg \<in> {''RS512'', ''PS512'', ''ES512''} then Some Sha512 else None)"

definition curve_bytes :: "ec_curve \<Rightarrow> nat" where
  "curve_bytes c = (case c of P256 \<Rightarrow> 32 | P384 \<Rightarrow> 48 | P521 \<Rightarrow> 66)"

definition signature_ok :: "token_env \<Rightarrow> parsed_jwt \<Rightarrow> public_key \<Rightarrow> bool" where
  "signature_ok env j k =
     (if pj_alg j = ''EDDSA'' then (case k of Ed_Key p \<Rightarrow> jx_ed25519 env p (pj_data j) (pj_signature j) | _ \<Rightarrow> False)
      else (case alg_hash (pj_alg j) of
          None \<Rightarrow> False
        | Some h \<Rightarrow> (case k of
            Rsa_Key n e \<Rightarrow> if has_prefix (pj_alg j) ''PS'' then jx_pss env n e h (pj_data j) (pj_signature j)
              else jx_pkcs env n e h (pj_data j) (pj_signature j)
          | Ec_Key c x y \<Rightarrow> length (pj_signature j) = 2 * curve_bytes c \<and>
              jx_ecdsa env c x y h (pj_data j) (take (curve_bytes c) (pj_signature j)) (drop (curve_bytes c) (pj_signature j))
          | Ed_Key _ \<Rightarrow> False)))"

end
