(* ===== verification/Identity_Claims.thy ===== *)
theory Identity_Claims
  imports Identity_Token Go_Fields
begin

text \<open>
  The claims of a token, the verified identity, and the requirements of a policy
  (\<^verbatim>\<open>identity_api5.go\<close>).
\<close>

record verified_api_identity =
  vy_issuer :: string
  vy_subject :: string
  vy_tenant :: string
  vy_client :: string
  vy_roles :: "string list"
  vy_scopes :: "string list"
  vy_audience :: "string list"
  vy_expires_at :: gtime
  vy_key_id :: string
  vy_alg :: string

section \<open>Claims\<close>

text \<open>A numeric date, in nanoseconds: absent, or a time, or not usable.\<close>

datatype numeric_date = No_Date | Bad_Date | Date gtime

definition numeric_date_of :: "token_env \<Rightarrow> json_object \<Rightarrow> string \<Rightarrow> numeric_date" where
  "numeric_date_of env claims name = (case map_of claims name of
     None \<Rightarrow> No_Date
   | Some (Json_Number t) \<Rightarrow> (case jx_float env t of
       None \<Rightarrow> Bad_Date
     | Some f \<Rightarrow> if f < 0 \<or> f > 2 ^ 40 then Bad_Date
         else Date (\<lfloor>f\<rfloor> * 1000000000 + \<lfloor>f64 ((f - of_int \<lfloor>f\<rfloor>) * 1000000000)\<rfloor>))
   | Some _ \<Rightarrow> Bad_Date)"

definition text_values :: "json list \<Rightarrow> string list" where
  "text_values xs = List.map_filter (\<lambda>x. case x of Json_String s \<Rightarrow> Some s | _ \<Rightarrow> None) xs"

definition audience_values :: "json_object \<Rightarrow> string list" where
  "audience_values claims = (case map_of claims ''aud'' of
     Some (Json_String s) \<Rightarrow> string_set 32 512 [s]
   | Some (Json_Array xs) \<Rightarrow> string_set 32 512 (text_values xs)
   | _ \<Rightarrow> [])"

fun claim_along :: "string list \<Rightarrow> json \<Rightarrow> json option" where
  "claim_along [] v = Some v"
| "claim_along (p # ps) (Json_Object m) = (case map_of m p of None \<Rightarrow> None | Some v \<Rightarrow> claim_along ps v)"
| "claim_along (p # ps) _ = None"

definition claim_at :: "json_object \<Rightarrow> string \<Rightarrow> json option" where
  "claim_at claims path =
     (let path = trim_space path in
      if path = [] then None else claim_along (split_on CHR ''.'' path) (Json_Object claims))"

definition claim_string :: "json_object \<Rightarrow> string \<Rightarrow> string" where
  "claim_string claims path = (case claim_at claims path of Some (Json_String s) \<Rightarrow> trim_space s | _ \<Rightarrow> [])"

definition claim_strings :: "json_object \<Rightarrow> string \<Rightarrow> bool \<Rightarrow> string list" where
  "claim_strings claims path split_spaces =
     string_set 256 512 (case claim_at claims path of
       Some (Json_String s) \<Rightarrow> if split_spaces then go_fields s else if trim_space s \<noteq> [] then [s] else []
     | Some (Json_Array xs) \<Rightarrow> text_values xs
     | _ \<Rightarrow> [])"

definition intersect :: "string list \<Rightarrow> string list \<Rightarrow> bool" where
  "intersect xs ys \<longleftrightarrow> list_ex (\<lambda>y. y \<in> set xs) ys"

definition contain_all :: "string list \<Rightarrow> string list \<Rightarrow> bool" where
  "contain_all have_values required \<longleftrightarrow> list_all (\<lambda>y. y \<in> set have_values) required"

definition seconds :: "int \<Rightarrow> int" where "seconds n = n * 1000000000"

definition identity_of :: "jwt_issuer \<Rightarrow> parsed_jwt \<Rightarrow> gtime \<Rightarrow> verified_api_identity" where
  "identity_of cfg j exp_time = \<lparr>vy_issuer = text_member (pj_claims j) ''iss'', vy_subject = claim_string (pj_claims j) (ji_subject cfg),
     vy_tenant = claim_string (pj_claims j) (ji_tenant cfg), vy_client = claim_string (pj_claims j) (ji_client cfg),
     vy_roles = claim_strings (pj_claims j) (ji_roles cfg) False, vy_scopes = claim_strings (pj_claims j) (ji_scopes cfg) True,
     vy_audience = audience_values (pj_claims j), vy_expires_at = exp_time, vy_key_id = pj_kid j, vy_alg = pj_alg j\<rparr>"

definition check_claims :: "token_env \<Rightarrow> gtime \<Rightarrow> jwt_issuer \<Rightarrow> parsed_jwt \<Rightarrow> string + verified_api_identity" where
  "check_claims env now cfg j =
     (let claims = pj_claims j; aud = audience_values claims; skew = seconds (ji_skew cfg) in
      if trim_space (text_member claims ''iss'') \<noteq> ji_issuer cfg then Inl ''JWT_ISSUER_INVALID''
      else if aud = [] \<or> \<not> intersect aud (ji_audiences cfg) then Inl ''JWT_AUDIENCE_INVALID''
      else (case numeric_date_of env claims ''exp'' of
          Date e \<Rightarrow>
            if \<not> now < e + skew then Inl ''JWT_EXPIRED''
            else (case numeric_date_of env claims ''nbf'' of
                Bad_Date \<Rightarrow> Inl ''JWT_NBF_INVALID''
              | Date n \<Rightarrow> if now + skew < n then Inl ''JWT_NOT_YET_VALID'' else Inr (identity_of cfg j e)
              | No_Date \<Rightarrow> Inr (identity_of cfg j e))
        | _ \<Rightarrow> Inl ''JWT_EXP_INVALID''))"

section \<open>Verification\<close>

text \<open>The clock readings and the fetches of one verification, and what other requests do to the
  runtime before it takes the second lock.\<close>

record verify_run =
  vr_cache :: gtime
  vr_fetch :: gtime
  vr_miss :: gtime
  vr_claims :: gtime
  vr_fetcher :: fetcher
  vr_others :: "key_refresh list"
  vr_miss_fetcher :: fetcher

definition check_signed :: "token_env \<Rightarrow> gtime \<Rightarrow> jwt_issuer \<Rightarrow> parsed_jwt \<Rightarrow> jwk \<Rightarrow> string + verified_api_identity" where
  "check_signed env now cfg j k =
     (if signature_ok env j (jk_key k) then check_claims env now cfg j else Inl ''JWT_SIGNATURE_INVALID'')"

text \<open>The last component counts the fetches.\<close>

definition verify_token :: "token_env \<Rightarrow> verify_run \<Rightarrow> string \<Rightarrow> issuer_runtime \<Rightarrow>
    (string + verified_api_identity) \<times> issuer_runtime \<times> nat" where
  "verify_token env v token rt =
     (case parse_jwt env token of
        None \<Rightarrow> (Inl ''JWT_MALFORMED'', rt, 0)
      | Some j \<Rightarrow>
          if pj_alg j \<notin> set (ji_algs (ir_config rt)) then (Inl ''JWT_ALG_FORBIDDEN'', rt, 0)
          else (case refresh_keys env False (vr_cache v) (vr_fetch v) (vr_fetcher v) rt of
              (None, rt, f) \<Rightarrow> (Inl ''JWKS_UNAVAILABLE'', rt, of_bool f)
            | (Some ks, rt, f) \<Rightarrow> (case select_key (Some ks) (pj_kid j) (pj_alg j) of
                Some k \<Rightarrow> (check_signed env (vr_claims v) (ir_config rt) j k, rt, of_bool f)
              | None \<Rightarrow> (case refresh_for_miss env (vr_miss v) (vr_miss_fetcher v) (Some ks)
                    (fold (apply_refresh env) (vr_others v) rt) of
                  (None, rt, g) \<Rightarrow> (Inl ''JWKS_UNAVAILABLE'', rt, of_bool f + of_bool g)
                | (Some ks, rt, g) \<Rightarrow> (case select_key (Some ks) (pj_kid j) (pj_alg j) of
                    None \<Rightarrow> (Inl ''JWT_KEY_NOT_FOUND'', rt, of_bool f + of_bool g)
                  | Some k \<Rightarrow> (check_signed env (vr_claims v) (ir_config rt) j k, rt, of_bool f + of_bool g))))))"

section \<open>Requirements\<close>

text \<open>The type of the violation, if any.\<close>

definition matched_set :: "string \<Rightarrow> string list \<Rightarrow> string list \<Rightarrow> bool" where
  "matched_set mode have_values required \<longleftrightarrow> required = [] \<or>
     (if mode = ''any'' then intersect have_values required else contain_all have_values required)"

definition evaluate_requirements :: "identity_policy \<Rightarrow> verified_api_identity \<Rightarrow> string option" where
  "evaluate_requirements p i =
     (if \<not> matched_set (iy_role_match p) (vy_roles i) (iy_roles p) then Some ''ROLE_MISSING''
      else if \<not> matched_set (iy_scope_match p) (vy_scopes i) (iy_scopes p) then Some ''SCOPE_MISSING''
      else if iy_tenant p \<noteq> [] \<and> vy_tenant i \<noteq> iy_tenant p then Some ''TENANT_MISMATCH''
      else if iy_clients p \<noteq> [] \<and> vy_client i \<notin> set (iy_clients p) then Some ''CLIENT_ID_FORBIDDEN''
      else None)"

text \<open>The token of a request: \<open>None\<close> where the Authorization header is not one bearer credential.\<close>

definition bearer_token :: "string list \<Rightarrow> string option" where
  "bearer_token values = (case values of
     [] \<Rightarrow> Some []
   | [v] \<Rightarrow> (case go_fields v of [scheme, t] \<Rightarrow> if to_lower scheme = ''bearer'' then Some t else None | _ \<Rightarrow> None)
   | _ \<Rightarrow> None)"

definition subject_hash :: "token_env \<Rightarrow> verified_api_identity \<Rightarrow> string" where
  "subject_hash env i = (if vy_subject i = [] then [] else jx_subject_hash env (vy_issuer i @ CHR 0x00 # vy_subject i))"

end
