(* ===== verification/Identity_Store.thy ===== *)
theory Identity_Store
  imports Identity_Claims
begin

text \<open>
  The identity store (\<^verbatim>\<open>identity_api5.go\<close>): issuers, policies, violations, the runtimes
  of the issuers with their key sets, and the snapshot requests read; and the decision on a request.

  The snapshot points to runtimes; both are rebuilt together, so the runtime of a policy of the
  snapshot is the one under its issuer in \<open>id_runtimes\<close>.
\<close>

record identity_violation =
  jv_id :: string
  jv_time :: gtime
  jv_operation :: string
  jv_mode :: string
  jv_action :: string
  jv_type :: string
  jv_issuer :: string
  jv_subject :: string
  jv_expected :: string
  jv_observed :: string

record identity_store =
  id_issuers :: "(string, jwt_issuer) gomap"
  id_policies :: "(string, identity_policy) gomap"
  id_violations :: "identity_violation list"
  id_seq :: u64
  id_runtimes :: "(string, issuer_runtime) gomap"
  id_snapshot :: "(string, identity_policy) gomap"

definition max_identity_violations :: nat where "max_identity_violations = 2048"

definition new_identity_store :: identity_store where
  "new_identity_store = \<lparr>id_issuers = [], id_policies = [], id_violations = [], id_seq = 0, id_runtimes = [], id_snapshot = []\<rparr>"

section \<open>Operations\<close>

definition runtime_for :: "(string, issuer_runtime) gomap \<Rightarrow> string \<Rightarrow> jwt_issuer \<Rightarrow> issuer_runtime" where
  "runtime_for rts k cfg = (case gm_get rts k of
     Some rt \<Rightarrow> if same_issuer (ir_config rt) cfg then rt else \<lparr>ir_config = cfg, ir_keys = None, ir_last_miss = 0\<rparr>
   | None \<Rightarrow> \<lparr>ir_config = cfg, ir_keys = None, ir_last_miss = 0\<rparr>)"

definition rebuild_identity :: "identity_store \<Rightarrow> identity_store" where
  "rebuild_identity s = s\<lparr>
     id_runtimes := map (\<lambda>(k, cfg). (k, runtime_for (id_runtimes s) k cfg)) (filter (\<lambda>(k, cfg). ji_enabled cfg) (id_issuers s)),
     id_snapshot := id_policies s\<rparr>"

definition demote_policies :: "gtime \<Rightarrow> string \<Rightarrow> string \<Rightarrow> (string, identity_policy) gomap \<Rightarrow> (string, identity_policy) gomap" where
  "demote_policies now actor iss m = map (\<lambda>(k, p). (k,
     if iy_issuer p = iss \<and> iy_mode p = identity_enforce
     then p\<lparr>iy_mode := identity_detect, iy_updated_at := now, iy_updated_by := actor,
            iy_reason := ''issuer trust semantics changed; returned to DETECT''\<rparr>
     else p)) m"

definition upsert_issuer :: "(string \<Rightarrow> url_parts) \<Rightarrow> gtime \<Rightarrow> string \<Rightarrow> jwt_issuer \<Rightarrow> identity_store \<Rightarrow>
    (identity_error + jwt_issuer) \<times> identity_store" where
  "upsert_issuer parse_url now actor i s =
     (case normalize_issuer parse_url now actor (gm_get (id_issuers s) (trim_space (ji_id i))) i of
        Inl e \<Rightarrow> (Inl e, s)
      | Inr n \<Rightarrow>
          if \<not> ji_enabled n \<and> list_ex (\<lambda>p. iy_issuer p = ji_id n) (gm_values (id_policies s)) then (Inl Issuer_In_Use, s)
          else
            let t = s\<lparr>id_issuers := gm_put (ji_id n) n (id_issuers s)\<rparr> in
            (Inr n, rebuild_identity (case gm_get (id_issuers s) (ji_id n) of
               Some old \<Rightarrow> if same_issuer old n then t
                 else t\<lparr>id_runtimes := gm_del (ji_id n) (id_runtimes s),
                        id_policies := demote_policies now actor (ji_id n) (id_policies s)\<rparr>
             | None \<Rightarrow> t)))"

definition list_issuers :: "identity_store \<Rightarrow> jwt_issuer list" where
  "list_issuers s = sort_by (\<lambda>a b. ji_id a < ji_id b) (gm_values (id_issuers s))"

definition upsert_identity_policy :: "gtime \<Rightarrow> string \<Rightarrow> (string \<Rightarrow> bool) \<Rightarrow> identity_policy \<Rightarrow> identity_store \<Rightarrow>
    (identity_error + identity_policy) \<times> identity_store" where
  "upsert_identity_policy now actor op_exists p s =
     (if \<not> op_exists (trim_space (iy_operation p)) then (Inl No_Discovered_Operation, s)
      else if \<not> (case gm_get (id_issuers s) (trim_space (iy_issuer p)) of Some i \<Rightarrow> ji_enabled i | None \<Rightarrow> False)
      then (Inl No_Enabled_Issuer, s)
      else
        let existing = gm_get (id_policies s) (trim_space (iy_operation p));
            p = (case existing of
                   Some old \<Rightarrow> if trim_space (iy_mode p) = [] then p\<lparr>iy_mode := iy_mode old\<rparr> else p
                 | None \<Rightarrow> p)
        in case normalize_identity_policy now actor existing p of
             Inl e \<Rightarrow> (Inl e, s)
           | Inr n \<Rightarrow>
               let n = (case existing of
                     Some old \<Rightarrow> if same_identity_policy old n then n
                       else n\<lparr>iy_mode := identity_detect, iy_reason := ''policy semantics changed; returned to DETECT''\<rparr>
                   | None \<Rightarrow> n)
               in (Inr n, rebuild_identity (s\<lparr>id_policies := gm_put (iy_operation n) n (id_policies s)\<rparr>)))"

definition set_identity_mode :: "gtime \<Rightarrow> string \<Rightarrow> string \<Rightarrow> string \<Rightarrow> string \<Rightarrow> identity_store \<Rightarrow>
    (identity_error + identity_policy) \<times> identity_store" where
  "set_identity_mode now opid mode actor reason s =
     (case normalize_identity_mode mode of
        Inl e \<Rightarrow> (Inl e, s)
      | Inr m \<Rightarrow> (case gm_get (id_policies s) (trim_space opid) of
          None \<Rightarrow> (Inl Identity_Policy_Not_Found, s)
        | Some p \<Rightarrow>
            if iy_mode p = m then (Inr p, s)
            else if iy_mode p = identity_enforce \<and> m \<noteq> identity_detect then (Inl Only_To_Detect, s)
            else if iy_mode p = identity_detect \<and> m \<noteq> identity_enforce then (Inl Only_To_Enforce, s)
            else
              let p = p\<lparr>iy_mode := m, iy_updated_at := now, iy_updated_by := actor, iy_reason := trim_space reason\<rparr>
              in (Inr p, rebuild_identity (s\<lparr>id_policies := gm_put (iy_operation p) p (id_policies s)\<rparr>))))"

definition delete_identity_policy :: "string \<Rightarrow> identity_store \<Rightarrow> bool \<times> identity_store" where
  "delete_identity_policy opid s =
     (if gm_has (id_policies s) opid then (True, rebuild_identity (s\<lparr>id_policies := gm_del opid (id_policies s)\<rparr>)) else (False, s))"

definition list_identity_policies :: "identity_store \<Rightarrow> identity_policy list" where
  "list_identity_policies s = sort_by (\<lambda>a b. iy_operation a < iy_operation b) (gm_values (id_policies s))"

definition refresh_issuer :: "token_env \<Rightarrow> gtime \<Rightarrow> gtime \<Rightarrow> fetcher \<Rightarrow> string \<Rightarrow> identity_store \<Rightarrow> bool \<times> identity_store" where
  "refresh_issuer env now now2 fetch k s =
     (case (gm_get (id_issuers s) k, gm_get (id_runtimes s) k) of
        (Some cfg, Some rt) \<Rightarrow>
          if \<not> ji_enabled cfg then (False, s)
          else (let (ks, rt', _) = refresh_keys env True now now2 fetch rt
                in (ks \<noteq> None, s\<lparr>id_runtimes := gm_put k rt' (id_runtimes s)\<rparr>))
      | _ \<Rightarrow> (False, s))"

definition nano_text :: "gtime \<Rightarrow> string" where
  "nano_text t = (if t < 0 then CHR ''-'' # decimal_of (nat (- t)) else decimal_of (nat t))"

definition record_identity_violation :: "gtime \<Rightarrow> identity_violation \<Rightarrow> identity_store \<Rightarrow> identity_store" where
  "record_identity_violation now v s =
     (let n = id_seq s + 1;
          v = v\<lparr>jv_time := now, jv_id := ''idv-'' @ nano_text now @ ''-'' @ decimal_of (unat n)\<rparr>;
          vs = id_violations s @ [v]
      in s\<lparr>id_seq := n, id_violations := drop (length vs - max_identity_violations) vs\<rparr>)"

definition list_identity_violations :: "string \<Rightarrow> int \<Rightarrow> identity_store \<Rightarrow> identity_violation list" where
  "list_identity_violations opid limit s =
     take (if limit \<le> 0 \<or> limit > 500 then 100 else nat limit)
       (filter (\<lambda>v. opid = [] \<or> jv_operation v = opid) (rev (id_violations s)))"

text \<open>The state file: its version, the maps (absent where the file has none), the violations.\<close>

type_synonym identity_file = "int \<times> (string, jwt_issuer) gomap option \<times> (string, identity_policy) gomap option \<times> identity_violation list"

definition save_identity :: "identity_store \<Rightarrow> identity_file" where
  "save_identity s = (1, Some (id_issuers s), Some (id_policies s), id_violations s)"

definition load_identity :: "identity_file \<Rightarrow> identity_store \<Rightarrow> identity_store option" where
  "load_identity f s = (case f of (version, issuers, policies, vs) \<Rightarrow>
     if version \<notin> {0, 1} then None
     else Some (rebuild_identity (s\<lparr>
       id_issuers := (case issuers of Some m \<Rightarrow> m | None \<Rightarrow> id_issuers s),
       id_policies := (case policies of Some m \<Rightarrow> m | None \<Rightarrow> id_policies s),
       id_violations := drop (length vs - max_identity_violations) vs\<rparr>)))"

section \<open>A request\<close>

record identity_request =
  iq_method :: string
  iq_path :: string
  iq_auth :: "string list"

text \<open>A request is passed on, with the identity that was verified if any, or refused with a status.\<close>

datatype identity_outcome = Passed "verified_api_identity option" | Refused int

definition reject_status :: "int \<Rightarrow> int" where
  "reject_status status = (if status \<in> {401, 403, 503} then status else 403)"

definition identity_action :: "string \<Rightarrow> string" where
  "identity_action mode = (if mode = identity_enforce then ''block'' else ''detect'')"

definition violation_for :: "string \<Rightarrow> identity_policy \<Rightarrow> string \<Rightarrow> string \<Rightarrow> string \<Rightarrow> string \<Rightarrow> identity_violation" where
  "violation_for opid p ty subject expected observed =
     \<lparr>jv_id = [], jv_time = 0, jv_operation = opid, jv_mode = iy_mode p, jv_action = identity_action (iy_mode p), jv_type = ty,
      jv_issuer = iy_issuer p, jv_subject = subject, jv_expected = expected, jv_observed = observed\<rparr>"

text \<open>What a violation does: it is recorded, and refuses the request in ENFORCE.\<close>

definition fail_identity :: "gtime \<Rightarrow> identity_violation \<Rightarrow> identity_policy \<Rightarrow> int \<Rightarrow> verified_api_identity option \<Rightarrow> identity_store \<Rightarrow>
    identity_outcome \<times> identity_store" where
  "fail_identity now v p status who s =
     (if iy_mode p = identity_enforce then Refused (reject_status status) else Passed who, record_identity_violation now v s)"

definition requirement_texts :: "string \<Rightarrow> string \<times> string" where
  "requirement_texts ty =
     (if ty = ''ROLE_MISSING'' then (''required role policy'', ''verified identity lacks required role'')
      else if ty = ''SCOPE_MISSING'' then (''required scope policy'', ''verified identity lacks required scope'')
      else if ty = ''TENANT_MISMATCH'' then (''required tenant'', ''verified tenant does not match'')
      else (''allowed client_id'', ''verified client_id is not allowed''))"

definition decide_verified :: "token_env \<Rightarrow> gtime \<Rightarrow> string \<Rightarrow> identity_policy \<Rightarrow> string + verified_api_identity \<Rightarrow> identity_store \<Rightarrow>
    identity_outcome \<times> identity_store" where
  "decide_verified env now opid p res s = (case res of
     Inl code \<Rightarrow>
       fail_identity now (violation_for opid p code [] ''valid trusted JWT'' ''JWT verification failed'') p
         (if code = ''JWKS_UNAVAILABLE'' then 503 else iy_unauthorized p) None s
   | Inr who \<Rightarrow> (case evaluate_requirements p who of
       None \<Rightarrow> (Passed (Some who), s)
     | Some ty \<Rightarrow>
         fail_identity now (violation_for opid p ty (subject_hash env who) (fst (requirement_texts ty)) (snd (requirement_texts ty)))
           p (iy_forbidden p) (Some who) s))"

definition wrap_api_identity :: "inventory_env \<Rightarrow> token_env \<Rightarrow> string \<Rightarrow> verify_run \<Rightarrow> gtime \<Rightarrow>
    identity_request \<Rightarrow> identity_store \<Rightarrow> identity_outcome \<times> identity_store" where
  "wrap_api_identity ienv env site v now r s =
     (let opid = operation_id ienv site (iq_method r) (normalize_operation_path (iq_path r)) in
      case gm_get (id_snapshot s) opid of
        None \<Rightarrow> (Passed None, s)
      | Some p \<Rightarrow> (case bearer_token (iq_auth r) of
          None \<Rightarrow> fail_identity now (violation_for opid p ''JWT_MALFORMED_AUTHORIZATION'' []
            ''cryptographically verified Bearer JWT'' ''authorization header is not a single Bearer credential'')
            p (iy_unauthorized p) None s
        | Some token \<Rightarrow>
            if token = [] then fail_identity now (violation_for opid p ''JWT_MISSING'' []
              ''cryptographically verified Bearer JWT'' ''bearer token missing'') p (iy_unauthorized p) None s
            else (case gm_get (id_runtimes s) (iy_issuer p) of
                None \<Rightarrow> fail_identity now (violation_for opid p ''JWT_ISSUER_UNAVAILABLE'' []
                  ''enabled trusted issuer runtime'' ''issuer configuration unavailable'') p 503 None s
              | Some rt \<Rightarrow>
                  (let (res, rt', _) = verify_token env v token rt
                   in decide_verified env now opid p res (s\<lparr>id_runtimes := gm_put (iy_issuer p) rt' (id_runtimes s)\<rparr>)))))"

end
