(* ===== verification/Identity_Machine.thy ===== *)
theory Identity_Machine
  imports Identity_Store
begin

text \<open>
  What the identity store guarantees over any history: a request an enforced policy lets pass carries
  a token signed by a key its issuer's address served, and the identity in it meets the policy.
\<close>

record identity_world =
  iw_url :: "string \<Rightarrow> url_parts"
  iw_inventory :: inventory_env
  iw_token :: token_env
  iw_site :: string

datatype identity_event =
    Put_Issuer gtime string jwt_issuer
  | Put_Policy gtime string "string \<Rightarrow> bool" identity_policy
  | Set_Identity_Mode gtime string string string string
  | Drop_Policy string
  | Refresh_Keys gtime gtime fetcher string
  | Identity_Check verify_run gtime identity_request

definition identity_step :: "identity_world \<Rightarrow> identity_event \<Rightarrow> identity_store \<Rightarrow> identity_store" where
  "identity_step w e s = (case e of
     Put_Issuer now actor i \<Rightarrow> snd (upsert_issuer (iw_url w) now actor i s)
   | Put_Policy now actor exs p \<Rightarrow> snd (upsert_identity_policy now actor exs p s)
   | Set_Identity_Mode now opid mode actor reason \<Rightarrow> snd (set_identity_mode now opid mode actor reason s)
   | Drop_Policy opid \<Rightarrow> snd (delete_identity_policy opid s)
   | Refresh_Keys now now2 fetch k \<Rightarrow> snd (refresh_issuer (iw_token w) now now2 fetch k s)
   | Identity_Check v now r \<Rightarrow> snd (wrap_api_identity (iw_inventory w) (iw_token w) (iw_site w) v now r s))"

section \<open>Keys come from their address\<close>

definition refresh_fetches :: "key_refresh \<Rightarrow> fetcher" where
  "refresh_fetches e = (case e of Plain_Refresh _ _ _ f \<Rightarrow> f | Miss_Refresh _ f _ \<Rightarrow> f)"

definition event_fetches :: "identity_event \<Rightarrow> fetcher list" where
  "event_fetches e = (case e of
     Refresh_Keys _ _ f _ \<Rightarrow> [f]
   | Identity_Check v _ _ \<Rightarrow> vr_fetcher v # vr_miss_fetcher v # map refresh_fetches (vr_others v)
   | _ \<Rightarrow> [])"

text \<open>The documents an address served in a run.\<close>

definition served_by :: "identity_event list \<Rightarrow> string \<Rightarrow> string set" where
  "served_by es url = {doc. \<exists>e \<in> set es. \<exists>f \<in> set (event_fetches e). f url = Some doc}"

definition keys_from :: "token_env \<Rightarrow> (string \<Rightarrow> string set) \<Rightarrow> issuer_runtime \<Rightarrow> bool" where
  "keys_from env docs rt \<longleftrightarrow> (case ir_keys rt of
     None \<Rightarrow> True
   | Some ks \<Rightarrow> \<exists>doc \<in> docs (ji_url (ir_config rt)). parse_jwks env doc = Some (ks_keys ks))"

lemma keys_from_mono: "keys_from env docs rt \<Longrightarrow> (\<And>url. docs url \<subseteq> docs' url) \<Longrightarrow> keys_from env docs' rt"
  by (auto simp: keys_from_def split: option.splits)

lemma refresh_keys_from:
  assumes "keys_from env docs rt" and "\<And>url doc. fetch url = Some doc \<Longrightarrow> doc \<in> docs url"
    and "refresh_keys env force now now2 fetch rt = (ks, rt', b)"
  shows "keys_from env docs rt'" and "ir_config rt' = ir_config rt" and "ks = None \<or> ks = ir_keys rt'"
proof -
  have "\<exists>doc \<in> docs (ji_url (ir_config rt)). parse_jwks env doc = Some k"
    if "fetch (ji_url (ir_config rt)) = Some doc" and "parse_jwks env doc = Some k" for doc k
    using assms(2) that by blast
  with assms(1,3) show "keys_from env docs rt'" "ir_config rt' = ir_config rt" "ks = None \<or> ks = ir_keys rt'"
    by (auto simp: refresh_keys_def keys_from_def fetched_set_def Let_def split: if_splits option.splits)
qed

lemma refresh_for_miss_from:
  assumes "keys_from env docs rt" and "\<And>url doc. fetch url = Some doc \<Longrightarrow> doc \<in> docs url"
    and "refresh_for_miss env now fetch observed rt = (ks, rt', b)"
  shows "keys_from env docs rt'" and "ir_config rt' = ir_config rt" and "ks = None \<or> ks = ir_keys rt'"
proof -
  have "\<exists>doc \<in> docs (ji_url (ir_config rt)). parse_jwks env doc = Some k"
    if "fetch (ji_url (ir_config rt)) = Some doc" and "parse_jwks env doc = Some k" for doc k
    using assms(2) that by blast
  with assms(1,3) show "keys_from env docs rt'" "ir_config rt' = ir_config rt" "ks = None \<or> ks = ir_keys rt'"
    by (auto simp: refresh_for_miss_def keys_from_def fetched_set_def Let_def split: if_splits option.splits)
qed

lemma apply_refresh_from:
  assumes "keys_from env docs rt" and "\<And>url doc. refresh_fetches e url = Some doc \<Longrightarrow> doc \<in> docs url"
  shows "keys_from env docs (apply_refresh env e rt) \<and> ir_config (apply_refresh env e rt) = ir_config rt"
proof (cases e)
  case (Plain_Refresh force now now2 fetch)
  obtain ks rt' b where r: "refresh_keys env force now now2 fetch rt = (ks, rt', b)" using prod_cases3 by blast
  from refresh_keys_from [OF assms(1) _ r] assms(2) Plain_Refresh r show ?thesis
    by (simp add: apply_refresh_def refresh_fetches_def)
next
  case (Miss_Refresh now fetch observed)
  obtain ks rt' b where r: "refresh_for_miss env now fetch observed rt = (ks, rt', b)" using prod_cases3 by blast
  from refresh_for_miss_from [OF assms(1) _ r] assms(2) Miss_Refresh r show ?thesis
    by (simp add: apply_refresh_def refresh_fetches_def)
qed

lemma others_from:
  assumes "keys_from env docs rt" and "\<And>e url doc. e \<in> set es \<Longrightarrow> refresh_fetches e url = Some doc \<Longrightarrow> doc \<in> docs url"
  shows "keys_from env docs (fold (apply_refresh env) es rt) \<and> ir_config (fold (apply_refresh env) es rt) = ir_config rt"
  using assms
proof (induction es arbitrary: rt)
  case (Cons e es)
  have "keys_from env docs (apply_refresh env e rt)" "ir_config (apply_refresh env e rt) = ir_config rt"
    using apply_refresh_from [OF Cons.prems(1), of e] Cons.prems(2) [of e] by auto
  moreover have "keys_from env docs (fold (apply_refresh env) es (apply_refresh env e rt)) \<and>
      ir_config (fold (apply_refresh env) es (apply_refresh env e rt)) = ir_config (apply_refresh env e rt)"
    using Cons.prems(2) by (intro Cons.IH calculation(1)) auto
  ultimately show ?case by simp
qed simp

section \<open>What a verified token is\<close>

definition trusted_token :: "token_env \<Rightarrow> jwt_issuer \<Rightarrow> gtime \<Rightarrow> string set \<Rightarrow> string \<Rightarrow> verified_api_identity \<Rightarrow> bool" where
  "trusted_token env cfg now docs token i \<longleftrightarrow> (\<exists>j k ks doc e.
     parse_jwt env token = Some j \<and> pj_alg j \<in> set (ji_algs cfg) \<and>
     doc \<in> docs \<and> parse_jwks env doc = Some ks \<and> k \<in> set ks \<and> key_matches (pj_kid j) (pj_alg j) k \<and>
     signature_ok env j (jk_key k) \<and>
     trim_space (text_member (pj_claims j) ''iss'') = ji_issuer cfg \<and>
     set (audience_values (pj_claims j)) \<inter> set (ji_audiences cfg) \<noteq> {} \<and>
     numeric_date_of env (pj_claims j) ''exp'' = Date e \<and> now < e + seconds (ji_skew cfg) \<and>
     numeric_date_of env (pj_claims j) ''nbf'' \<noteq> Bad_Date \<and>
     (\<forall>n. numeric_date_of env (pj_claims j) ''nbf'' = Date n \<longrightarrow> n \<le> now + seconds (ji_skew cfg)) \<and>
     i = identity_of cfg j e)"

lemma intersect_iff: "intersect xs ys \<longleftrightarrow> set xs \<inter> set ys \<noteq> {}"
  by (auto simp: intersect_def list_ex_iff)

lemma check_claims_ok:
  assumes "check_claims env now cfg j = Inr i"
  obtains e where "trim_space (text_member (pj_claims j) ''iss'') = ji_issuer cfg"
    and "set (audience_values (pj_claims j)) \<inter> set (ji_audiences cfg) \<noteq> {}"
    and "numeric_date_of env (pj_claims j) ''exp'' = Date e" and "now < e + seconds (ji_skew cfg)"
    and "numeric_date_of env (pj_claims j) ''nbf'' \<noteq> Bad_Date"
    and "\<forall>n. numeric_date_of env (pj_claims j) ''nbf'' = Date n \<longrightarrow> n \<le> now + seconds (ji_skew cfg)"
    and "i = identity_of cfg j e"
  using assms by (auto simp: check_claims_def Let_def intersect_iff split: if_splits numeric_date.splits)

lemma select_key_in:
  assumes "select_key (Some ks) kid alg = Some k" shows "k \<in> set (ks_keys ks)" and "key_matches kid alg k"
proof -
  from assms have "filter (key_matches kid alg) (ks_keys ks) = [k]"
    by (auto simp: select_key_def split: list.splits)
  then have "k \<in> set (filter (key_matches kid alg) (ks_keys ks))" by simp
  then show "k \<in> set (ks_keys ks)" "key_matches kid alg k" by simp_all
qed

lemma check_signed_trusted:
  assumes "check_signed env now (ir_config rt) j k = Inr i" and "parse_jwt env token = Some j"
    and "pj_alg j \<in> set (ji_algs (ir_config rt))" and "select_key (Some ks) (pj_kid j) (pj_alg j) = Some k"
    and "ir_keys rt = Some ks" and "keys_from env docs rt"
  shows "trusted_token env (ir_config rt) now (docs (ji_url (ir_config rt))) token i"
proof -
  from assms(1) have sig: "signature_ok env j (jk_key k)" and c: "check_claims env now (ir_config rt) j = Inr i"
    by (simp_all add: check_signed_def split: if_splits)
  from assms(5,6) obtain doc where doc: "doc \<in> docs (ji_url (ir_config rt))" "parse_jwks env doc = Some (ks_keys ks)"
    by (auto simp: keys_from_def)
  from c show ?thesis
  proof (rule check_claims_ok)
    fix e
    assume e: "trim_space (text_member (pj_claims j) ''iss'') = ji_issuer (ir_config rt)"
      "set (audience_values (pj_claims j)) \<inter> set (ji_audiences (ir_config rt)) \<noteq> {}"
      "numeric_date_of env (pj_claims j) ''exp'' = Date e" "now < e + seconds (ji_skew (ir_config rt))"
      "numeric_date_of env (pj_claims j) ''nbf'' \<noteq> Bad_Date"
      "\<forall>n. numeric_date_of env (pj_claims j) ''nbf'' = Date n \<longrightarrow> n \<le> now + seconds (ji_skew (ir_config rt))"
      "i = identity_of (ir_config rt) j e"
    show ?thesis
      unfolding trusted_token_def
      by (intro exI conjI, rule assms(2), rule assms(3), rule doc(1), rule doc(2), rule select_key_in(1) [OF assms(4)],
          rule select_key_in(2) [OF assms(4)], rule sig, rule e(1), rule e(2), rule e(3), rule e(4), rule e(5), rule e(6), rule e(7))
  qed
qed

lemma verify_token_from:
  assumes "keys_from env docs rt"
    and "\<And>f url doc. f \<in> set (vr_fetcher v # vr_miss_fetcher v # map refresh_fetches (vr_others v)) \<Longrightarrow> f url = Some doc \<Longrightarrow> doc \<in> docs url"
    and "verify_token env v token rt = (res, rt', n)"
  shows "keys_from env docs rt'" and "ir_config rt' = ir_config rt"
    and "res = Inr i \<Longrightarrow> trusted_token env (ir_config rt) (vr_claims v) (docs (ji_url (ir_config rt))) token i"
proof -
  have "keys_from env docs rt' \<and> ir_config rt' = ir_config rt \<and>
    (res = Inr i \<longrightarrow> trusted_token env (ir_config rt) (vr_claims v) (docs (ji_url (ir_config rt))) token i)"
  proof (cases "parse_jwt env token")
    case None
    with assms(1,3) show ?thesis by (auto simp: verify_token_def)
  next
    case (Some j)
    show ?thesis
    proof (cases "pj_alg j \<in> set (ji_algs (ir_config rt))")
      case False
      with assms(1,3) Some show ?thesis by (auto simp: verify_token_def)
    next
      case True
      obtain ks1 rt1 f where r1: "refresh_keys env False (vr_cache v) (vr_fetch v) (vr_fetcher v) rt = (ks1, rt1, f)"
        using prod_cases3 by blast
      have a: "keys_from env docs rt1" "ir_config rt1 = ir_config rt" "ks1 = None \<or> ks1 = ir_keys rt1"
        using refresh_keys_from [OF assms(1) _ r1] assms(2) by auto
      show ?thesis
      proof (cases ks1)
        case None
        with assms(3) Some True r1 a(1,2) show ?thesis by (auto simp: verify_token_def)
      next
        case ks: (Some ks)
        with a have k1: "ir_keys rt1 = Some ks" by simp
        show ?thesis
        proof (cases "select_key (Some ks) (pj_kid j) (pj_alg j)")
          case key: (Some k)
          with assms(3) Some True r1 ks have "res = check_signed env (vr_claims v) (ir_config rt1) j k" "rt' = rt1"
            by (auto simp: verify_token_def)
          with a check_signed_trusted [of env "vr_claims v" rt1 j k i token ks docs] Some True key k1 show ?thesis by auto
        next
          case key: None
          define rt2 where "rt2 = fold (apply_refresh env) (vr_others v) rt1"
          have b: "keys_from env docs rt2" "ir_config rt2 = ir_config rt"
            using others_from [OF a(1), of "vr_others v"] assms(2) a(2) by (auto simp: rt2_def)
          obtain ks3 rt3 g where r3: "refresh_for_miss env (vr_miss v) (vr_miss_fetcher v) (Some ks) rt2 = (ks3, rt3, g)"
            using prod_cases3 by blast
          have c: "keys_from env docs rt3" "ir_config rt3 = ir_config rt" "ks3 = None \<or> ks3 = ir_keys rt3"
            using refresh_for_miss_from [OF b(1) _ r3] assms(2) b(2) by auto
          show ?thesis
          proof (cases ks3)
            case None
            with assms(3) Some True r1 ks key r3 c(1,2) show ?thesis by (auto simp: verify_token_def rt2_def)
          next
            case ks3: (Some ks')
            with c have k3: "ir_keys rt3 = Some ks'" by simp
            show ?thesis
            proof (cases "select_key (Some ks') (pj_kid j) (pj_alg j)")
              case None
              with assms(3) Some True r1 ks key r3 ks3 c(1,2) show ?thesis by (auto simp: verify_token_def rt2_def)
            next
              case key3: (Some k)
              with assms(3) Some True r1 ks key r3 ks3
              have "res = check_signed env (vr_claims v) (ir_config rt3) j k" "rt' = rt3"
                by (auto simp: verify_token_def rt2_def)
              with c check_signed_trusted [of env "vr_claims v" rt3 j k i token ks' docs] Some True key3 k3 show ?thesis by auto
            qed
          qed
        qed
      qed
    qed
  qed
  then show "keys_from env docs rt'" "ir_config rt' = ir_config rt"
    "res = Inr i \<Longrightarrow> trusted_token env (ir_config rt) (vr_claims v) (docs (ji_url (ir_config rt))) token i" by blast+
qed

end
