(* ===== verification/Identity_Trace.thy ===== *)
theory Identity_Trace
  imports Identity_Machine
begin

text \<open>
  Histories of the identity store: what an enforced policy lets pass, and that a policy is enforced
  only as an operator enforced it.
\<close>

section \<open>The runtimes\<close>

definition runtime_ok :: "token_env \<Rightarrow> (string \<Rightarrow> string set) \<Rightarrow> (string, jwt_issuer) gomap \<Rightarrow> string \<Rightarrow> issuer_runtime \<Rightarrow> bool" where
  "runtime_ok env docs issuers k rt \<longleftrightarrow> keys_from env docs rt \<and>
     (\<exists>cfg. gm_get issuers k = Some cfg \<and> ji_enabled cfg \<and> same_issuer (ir_config rt) cfg)"

definition identity_ok :: "token_env \<Rightarrow> (string \<Rightarrow> string set) \<Rightarrow> identity_store \<Rightarrow> bool" where
  "identity_ok env docs s \<longleftrightarrow> gm_ok (id_issuers s) \<and> id_snapshot s = id_policies s \<and>
     gm_all (\<lambda>k i. ji_id i = k) (id_issuers s) \<and>
     gm_all (\<lambda>k p. iy_operation p = k \<and> gm_has (id_issuers s) (iy_issuer p)) (id_policies s) \<and>
     gm_all (runtime_ok env docs (id_issuers s)) (id_runtimes s)"

lemma same_issuer_refl [simp]: "same_issuer a a"
  by (simp add: same_issuer_def)

lemma same_issuer_trans: "same_issuer a b \<Longrightarrow> same_issuer b c \<Longrightarrow> same_issuer a c"
  by (simp add: same_issuer_def)

lemma same_identity_refl [simp]: "same_identity_policy a a"
  by (simp add: same_identity_policy_def)

lemma same_identity_trans: "same_identity_policy a b \<Longrightarrow> same_identity_policy b c \<Longrightarrow> same_identity_policy a c"
  by (simp add: same_identity_policy_def)

lemma rebuild_fields [simp]:
  "id_issuers (rebuild_identity s) = id_issuers s" "id_policies (rebuild_identity s) = id_policies s"
  "id_snapshot (rebuild_identity s) = id_policies s"
  by (simp_all add: rebuild_identity_def)

lemma runtime_for_ok:
  assumes "gm_all (\<lambda>k rt. keys_from env docs rt) rts" and "gm_get issuers k = Some cfg" and "ji_enabled cfg"
  shows "runtime_ok env docs issuers k (runtime_for rts k cfg)"
  using assms by (auto simp: runtime_ok_def runtime_for_def keys_from_def dest: gm_all_get split: option.splits)

lemma rebuild_ok:
  assumes "gm_ok (id_issuers s)" and "gm_all (\<lambda>k rt. keys_from env docs rt) (id_runtimes s)"
    and "gm_all (\<lambda>k i. ji_id i = k) (id_issuers s)"
    and "gm_all (\<lambda>k p. iy_operation p = k \<and> gm_has (id_issuers s) (iy_issuer p)) (id_policies s)"
  shows "identity_ok env docs (rebuild_identity s)"
proof -
  have "runtime_ok env docs (id_issuers s) k (runtime_for (id_runtimes s) k cfg)"
    if "(k, cfg) \<in> set (id_issuers s)" "ji_enabled cfg" for k cfg
  proof -
    have "gm_get (id_issuers s) k = Some cfg" using that(1) assms(1) by (simp add: gm_ok_def)
    from runtime_for_ok [OF assms(2) this that(2)] show ?thesis .
  qed
  then have "gm_all (runtime_ok env docs (id_issuers s)) (id_runtimes (rebuild_identity s))"
    by (auto simp: rebuild_identity_def gm_all_def)
  with assms show ?thesis by (simp add: identity_ok_def)
qed

lemma identity_ok_keys: "identity_ok env docs s \<Longrightarrow> gm_all (\<lambda>k rt. keys_from env docs rt) (id_runtimes s)"
  by (auto simp: identity_ok_def runtime_ok_def gm_all_def)

lemma identity_ok_mono:
  assumes "identity_ok env docs s" and "\<And>url. docs url \<subseteq> docs' url" shows "identity_ok env docs' s"
  using assms keys_from_mono [of env docs _ docs'] by (fastforce simp: identity_ok_def runtime_ok_def gm_all_def)

lemma put_runtime_ok:
  assumes "identity_ok env docs s" and "gm_get (id_runtimes s) k = Some rt" and "keys_from env docs rt'" and "ir_config rt' = ir_config rt"
  shows "identity_ok env docs (s\<lparr>id_runtimes := gm_put k rt' (id_runtimes s)\<rparr>)"
proof -
  from assms(1,2) have "runtime_ok env docs (id_issuers s) k rt" by (auto simp: identity_ok_def dest: gm_all_get)
  with assms(3,4) have "runtime_ok env docs (id_issuers s) k rt'" by (auto simp: runtime_ok_def)
  with assms(1) show ?thesis by (auto simp: identity_ok_def)
qed

lemma record_violation_fields [simp]:
  "id_issuers (record_identity_violation now v s) = id_issuers s" "id_policies (record_identity_violation now v s) = id_policies s"
  "id_runtimes (record_identity_violation now v s) = id_runtimes s" "id_snapshot (record_identity_violation now v s) = id_snapshot s"
  by (simp_all add: record_identity_violation_def Let_def)

lemma record_violation_ok: "identity_ok env docs s \<Longrightarrow> identity_ok env docs (record_identity_violation now v s)"
  by (simp add: identity_ok_def)

lemma fail_identity_store: "snd (fail_identity now v p status who s) = record_identity_violation now v s"
  by (simp add: fail_identity_def)

lemma decide_ok: "identity_ok env docs s \<Longrightarrow> identity_ok env docs (snd (decide_verified env' now opid p res s))"
  by (auto simp: decide_verified_def fail_identity_store record_violation_ok split: sum.split option.split)

lemma decide_fields:
  "id_issuers (snd (decide_verified env now opid p res s)) = id_issuers s"
  "id_policies (snd (decide_verified env now opid p res s)) = id_policies s"
  by (auto simp: decide_verified_def fail_identity_store split: sum.split option.split)

section \<open>One step\<close>

lemma normalize_issuer_id: "normalize_issuer u now actor ex i = Inr n \<Longrightarrow> ji_id n = trim_space (ji_id i)"
  by (auto simp: normalize_issuer_def Let_def trimmed_issuer_def with_claims_def split: if_splits sum.splits option.splits)

lemma bind_Inr: "(case r of Inl e \<Rightarrow> Inl e | Inr x \<Rightarrow> f x) = Inr n \<longleftrightarrow> (\<exists>x. r = Inr x \<and> f x = Inr n)"
  by (cases r) simp_all

lemma check_Inr: "(if b then Inl e else r) = Inr n \<longleftrightarrow> \<not> b \<and> r = Inr n"
  by simp

lemma normalize_policy_fields:
  "normalize_identity_policy now actor ex p = Inr n \<Longrightarrow> iy_operation n = trim_space (iy_operation p) \<and>
    iy_issuer n = trim_space (iy_issuer p) \<and> iy_mode n = (case ex of None \<Rightarrow> identity_detect | Some o' \<Rightarrow> iy_mode o')"
  unfolding normalize_identity_policy_def Let_def bind_Inr check_Inr sum.inject by (elim conjE exE, hypsubst, simp)

lemma demote_get: "gm_get (demote_policies now actor iss m) k = map_option (\<lambda>p.
     if iy_issuer p = iss \<and> iy_mode p = identity_enforce
     then p\<lparr>iy_mode := identity_detect, iy_updated_at := now, iy_updated_by := actor,
            iy_reason := ''issuer trust semantics changed; returned to DETECT''\<rparr>
     else p) (gm_get m k)"
  unfolding demote_policies_def by (simp only: map_of_map comp_apply)

lemma demote_all:
  assumes "gm_all (\<lambda>k p. iy_operation p = k \<and> gm_has issuers (iy_issuer p)) m"
  shows "gm_all (\<lambda>k p. iy_operation p = k \<and> gm_has issuers (iy_issuer p)) (demote_policies now actor iss m)"
  using assms by (auto simp: gm_all_def demote_policies_def)

lemma gm_has_put: "gm_has m j \<Longrightarrow> gm_has (gm_put k v m) j"
  by (simp add: gm_has_def gm_get_put)

lemma put_issuer_ok:
  assumes "identity_ok env docs s" shows "identity_ok env docs (snd (upsert_issuer u now actor i s))"
proof (cases "normalize_issuer u now actor (gm_get (id_issuers s) (trim_space (ji_id i))) i")
  case (Inl e)
  with assms show ?thesis by (simp add: upsert_issuer_def)
next
  case (Inr n)
  let ?m = "gm_put (ji_id n) n (id_issuers s)"
  have ok: "gm_ok ?m" "gm_all (\<lambda>k i. ji_id i = k) ?m" using assms by (auto simp: identity_ok_def)
  have pol: "gm_all (\<lambda>k p. iy_operation p = k \<and> gm_has ?m (iy_issuer p)) (id_policies s)"
    using assms by (auto simp: identity_ok_def gm_all_def intro: gm_has_put)
  note keys = identity_ok_keys [OF assms]
  have "identity_ok env docs (rebuild_identity (s\<lparr>id_issuers := ?m\<rparr>))" using ok pol keys by (intro rebuild_ok) simp_all
  moreover have "identity_ok env docs (rebuild_identity (s\<lparr>id_issuers := ?m, id_runtimes := gm_del (ji_id n) (id_runtimes s),
      id_policies := demote_policies now actor (ji_id n) (id_policies s)\<rparr>))"
    using ok demote_all [OF pol] keys by (intro rebuild_ok) (simp_all add: gm_all_del)
  ultimately show ?thesis using assms Inr by (simp add: upsert_issuer_def Let_def split: option.split)
qed

lemma put_policy_ok:
  assumes "identity_ok env docs s" shows "identity_ok env docs (snd (upsert_identity_policy now actor exs p s))"
proof -
  have step: "identity_ok env docs (rebuild_identity (s\<lparr>id_policies := gm_put (iy_operation n) n (id_policies s)\<rparr>))"
    if "gm_has (id_issuers s) (iy_issuer n)" for n
    using assms that identity_ok_keys [OF assms] by (intro rebuild_ok) (auto simp: identity_ok_def)
  define ex where "ex = gm_get (id_policies s) (trim_space (iy_operation p))"
  define q where "q = (case ex of Some old \<Rightarrow> if trim_space (iy_mode p) = [] then p\<lparr>iy_mode := iy_mode old\<rparr> else p | None \<Rightarrow> p)"
  have q: "iy_issuer q = iy_issuer p" by (simp add: q_def split: option.split)
  show ?thesis
  proof (cases "exs (trim_space (iy_operation p)) \<and>
      (case gm_get (id_issuers s) (trim_space (iy_issuer p)) of Some i \<Rightarrow> ji_enabled i | None \<Rightarrow> False)")
    case False
    with assms show ?thesis by (auto simp: upsert_identity_policy_def)
  next
    case True
    then have has: "gm_has (id_issuers s) (trim_space (iy_issuer p))" by (auto simp: gm_has_def split: option.splits)
    show ?thesis
    proof (cases "normalize_identity_policy now actor ex q")
      case (Inl e)
      with True assms show ?thesis by (simp add: upsert_identity_policy_def Let_def flip: ex_def q_def)
    next
      case (Inr n)
      define n' where "n' = (case ex of Some old \<Rightarrow> if same_identity_policy old n then n
          else n\<lparr>iy_mode := identity_detect, iy_reason := ''policy semantics changed; returned to DETECT''\<rparr> | None \<Rightarrow> n)"
      have "iy_issuer n' = trim_space (iy_issuer p)"
        using normalize_policy_fields [OF Inr] q by (simp add: n'_def split: option.split)
      with step [of n'] has True Inr show ?thesis
        by (simp add: upsert_identity_policy_def Let_def flip: ex_def q_def n'_def)
    qed
  qed
qed

lemma identity_mode_ok:
  assumes "identity_ok env docs s" shows "identity_ok env docs (snd (set_identity_mode now opid mode actor reason s))"
proof -
  have "identity_ok env docs (rebuild_identity (s\<lparr>id_policies := gm_put (iy_operation p)
      (p\<lparr>iy_mode := m, iy_updated_at := now, iy_updated_by := actor, iy_reason := trim_space reason\<rparr>) (id_policies s)\<rparr>))"
    if "gm_get (id_policies s) (trim_space opid) = Some p" for p m
  proof -
    from that assms have "gm_has (id_issuers s) (iy_issuer p)" by (auto simp: identity_ok_def dest: gm_all_get)
    with assms identity_ok_keys [OF assms] show ?thesis by (intro rebuild_ok) (auto simp: identity_ok_def)
  qed
  with assms show ?thesis by (simp add: set_identity_mode_def Let_def split: sum.split option.split)
qed

lemma drop_policy_ok:
  assumes "identity_ok env docs s" shows "identity_ok env docs (snd (delete_identity_policy opid s))"
proof -
  have "identity_ok env docs (rebuild_identity (s\<lparr>id_policies := gm_del opid (id_policies s)\<rparr>))"
    using assms identity_ok_keys [OF assms] by (intro rebuild_ok) (auto simp: identity_ok_def)
  with assms show ?thesis by (simp add: delete_identity_policy_def)
qed

lemma refresh_issuer_ok:
  assumes "identity_ok env docs s" and "\<And>url doc. fetch url = Some doc \<Longrightarrow> doc \<in> docs url"
  shows "identity_ok env docs (snd (refresh_issuer env now now2 fetch k s))"
    and "id_issuers (snd (refresh_issuer env now now2 fetch k s)) = id_issuers s"
    and "id_policies (snd (refresh_issuer env now now2 fetch k s)) = id_policies s"
proof -
  have "identity_ok env docs (snd (refresh_issuer env now now2 fetch k s)) \<and>
    id_issuers (snd (refresh_issuer env now now2 fetch k s)) = id_issuers s \<and>
    id_policies (snd (refresh_issuer env now now2 fetch k s)) = id_policies s"
  proof (cases "gm_get (id_runtimes s) k")
    case None
    with assms(1) show ?thesis by (simp add: refresh_issuer_def split: option.split)
  next
    case (Some rt)
    obtain ks rt' b where r: "refresh_keys env True now now2 fetch rt = (ks, rt', b)" using prod_cases3 by blast
    from assms(1) Some have "keys_from env docs rt" by (auto simp: identity_ok_def runtime_ok_def dest: gm_all_get)
    from put_runtime_ok [OF assms(1) Some] refresh_keys_from [OF this _ r] assms(2)
    have "identity_ok env docs (s\<lparr>id_runtimes := gm_put k rt' (id_runtimes s)\<rparr>)" by blast
    with assms(1) Some r show ?thesis by (simp add: refresh_issuer_def split: option.split)
  qed
  then show "identity_ok env docs (snd (refresh_issuer env now now2 fetch k s))"
    "id_issuers (snd (refresh_issuer env now now2 fetch k s)) = id_issuers s"
    "id_policies (snd (refresh_issuer env now now2 fetch k s)) = id_policies s" by blast+
qed

lemma wrap_cases:
  assumes opid: "op = operation_id ienv site (iq_method r) (normalize_operation_path (iq_path r))"
  obtains (free) "gm_get (id_snapshot s) op = None" and "wrap_api_identity ienv env site v now r s = (Passed None, s)"
  | (failed) p vi status where "gm_get (id_snapshot s) op = Some p"
      and "wrap_api_identity ienv env site v now r s = fail_identity now vi p status None s"
  | (decided) p token rt res rt' n where "gm_get (id_snapshot s) op = Some p"
      and "bearer_token (iq_auth r) = Some token" and "gm_get (id_runtimes s) (iy_issuer p) = Some rt"
      and "verify_token env v token rt = (res, rt', n)"
      and "wrap_api_identity ienv env site v now r s =
        decide_verified env now op p res (s\<lparr>id_runtimes := gm_put (iy_issuer p) rt' (id_runtimes s)\<rparr>)"
proof (cases "gm_get (id_snapshot s) op")
  case None
  then show thesis using free opid by (simp add: wrap_api_identity_def)
next
  case (Some p)
  show thesis
  proof (cases "bearer_token (iq_auth r)")
    case None
    show thesis
    proof (rule failed [OF Some])
      show "wrap_api_identity ienv env site v now r s = fail_identity now (violation_for op p ''JWT_MALFORMED_AUTHORIZATION'' []
          ''cryptographically verified Bearer JWT'' ''authorization header is not a single Bearer credential'') p (iy_unauthorized p) None s"
        by (simp add: wrap_api_identity_def Some None flip: opid)
    qed
  next
    case t: (Some token)
    show thesis
    proof (cases "token = []")
      case True
      show thesis
      proof (rule failed [OF Some])
      show "wrap_api_identity ienv env site v now r s = fail_identity now (violation_for op p ''JWT_MISSING'' []
          ''cryptographically verified Bearer JWT'' ''bearer token missing'') p (iy_unauthorized p) None s"
          by (simp add: wrap_api_identity_def Some t True flip: opid)
      qed
    next
      case False
      show thesis
      proof (cases "gm_get (id_runtimes s) (iy_issuer p)")
        case None
        show thesis
        proof (rule failed [OF Some])
      show "wrap_api_identity ienv env site v now r s = fail_identity now (violation_for op p ''JWT_ISSUER_UNAVAILABLE'' []
          ''enabled trusted issuer runtime'' ''issuer configuration unavailable'') p 503 None s"
            by (simp add: wrap_api_identity_def Some t False None flip: opid)
        qed
      next
        case rt: (Some rt)
        obtain res rt' n where v: "verify_token env v token rt = (res, rt', n)" using prod_cases3 by blast
        show thesis by (rule decided [OF Some t rt v]) (simp add: wrap_api_identity_def Some t False rt v flip: opid)
      qed
    qed
  qed
qed

lemma wrap_ok:
  assumes "identity_ok env docs s"
    and "\<And>f url doc. f \<in> set (vr_fetcher v # vr_miss_fetcher v # map refresh_fetches (vr_others v)) \<Longrightarrow> f url = Some doc \<Longrightarrow> doc \<in> docs url"
  shows "identity_ok env docs (snd (wrap_api_identity ienv env site v now r s))"
    and "id_issuers (snd (wrap_api_identity ienv env site v now r s)) = id_issuers s"
    and "id_policies (snd (wrap_api_identity ienv env site v now r s)) = id_policies s"
proof -
  have "identity_ok env docs (snd (wrap_api_identity ienv env site v now r s)) \<and>
    id_issuers (snd (wrap_api_identity ienv env site v now r s)) = id_issuers s \<and>
    id_policies (snd (wrap_api_identity ienv env site v now r s)) = id_policies s"
    (is ?goal)
  proof -
    define op where "op = operation_id ienv site (iq_method r) (normalize_operation_path (iq_path r))"
    then show ?goal
    proof (cases rule: wrap_cases [where s = s and ienv = ienv and env = env and site = site and v = v and now = now and r = r])
    case (failed p vi status)
    with assms(1) show ?thesis by (simp add: fail_identity_store record_violation_ok)
  next
    case (decided p token rt res rt' n)
    from assms(1) decided(3) have k: "keys_from env docs rt" by (auto simp: identity_ok_def runtime_ok_def dest: gm_all_get)
    have "identity_ok env docs (s\<lparr>id_runtimes := gm_put (iy_issuer p) rt' (id_runtimes s)\<rparr>)"
      using verify_token_from(1,2) [OF k _ decided(4)] assms(2) by (intro put_runtime_ok [OF assms(1) decided(3)]) auto
    with decided(5) show ?thesis by (simp add: decide_ok decide_fields)
  qed (use assms(1) in simp)
  qed
  then show "identity_ok env docs (snd (wrap_api_identity ienv env site v now r s))"
    "id_issuers (snd (wrap_api_identity ienv env site v now r s)) = id_issuers s"
    "id_policies (snd (wrap_api_identity ienv env site v now r s)) = id_policies s" by blast+
qed

lemma identity_step_ok:
  assumes "identity_ok (iw_token w) docs s" and "\<And>f url doc. f \<in> set (event_fetches e) \<Longrightarrow> f url = Some doc \<Longrightarrow> doc \<in> docs url"
  shows "identity_ok (iw_token w) docs (identity_step w e s)"
proof (cases e)
  case (Refresh_Keys now now2 fetch k)
  with assms show ?thesis by (auto simp: identity_step_def event_fetches_def intro!: refresh_issuer_ok(1))
next
  case (Identity_Check v now r)
  with assms show ?thesis by (auto simp: identity_step_def event_fetches_def intro!: wrap_ok(1))
qed (use assms(1) in \<open>simp_all add: identity_step_def put_issuer_ok put_policy_ok identity_mode_ok drop_policy_ok\<close>)

lemma served_fetch: "e \<in> set es \<Longrightarrow> f \<in> set (event_fetches e) \<Longrightarrow> f url = Some doc \<Longrightarrow> doc \<in> served_by es url"
  by (auto simp: served_by_def)

lemma identity_run_ok:
  "set es \<subseteq> set all_events \<Longrightarrow> identity_ok (iw_token w) (served_by all_events) s \<Longrightarrow>
   identity_ok (iw_token w) (served_by all_events) (run_machine (identity_step w) es s)"
proof (induction es arbitrary: s)
  case (Cons e es)
  from Cons.prems(1) have e: "e \<in> set all_events" and es: "set es \<subseteq> set all_events" by auto
  have "identity_ok (iw_token w) (served_by all_events) (identity_step w e s)"
    by (rule identity_step_ok [OF Cons.prems(2)]) (rule served_fetch [OF e])
  from Cons.IH [OF es this] show ?case by simp
qed simp

lemma identity_from_new: "identity_ok (iw_token w) (served_by es) (run_machine (identity_step w) es new_identity_store)"
  by (rule identity_run_ok) (simp_all add: identity_ok_def new_identity_store_def)

section \<open>What an enforced policy lets pass\<close>

definition meets :: "identity_policy \<Rightarrow> verified_api_identity \<Rightarrow> bool" where
  "meets p i \<longleftrightarrow>
     (iy_roles p \<noteq> [] \<longrightarrow> (if iy_role_match p = ''any'' then set (iy_roles p) \<inter> set (vy_roles i) \<noteq> {} else set (iy_roles p) \<subseteq> set (vy_roles i))) \<and>
     (iy_scopes p \<noteq> [] \<longrightarrow> (if iy_scope_match p = ''any'' then set (iy_scopes p) \<inter> set (vy_scopes i) \<noteq> {} else set (iy_scopes p) \<subseteq> set (vy_scopes i))) \<and>
     (iy_tenant p \<noteq> [] \<longrightarrow> vy_tenant i = iy_tenant p) \<and>
     (iy_clients p \<noteq> [] \<longrightarrow> vy_client i \<in> set (iy_clients p))"

lemma evaluate_meets: "evaluate_requirements p i = None \<longleftrightarrow> meets p i"
  by (auto simp: evaluate_requirements_def meets_def matched_set_def intersect_iff contain_all_def list_all_iff subset_iff)


end
