(* ===== verification/Identity_Properties.thy ===== *)
theory Identity_Properties
  imports Identity_Trace
begin

text \<open>
  Further guarantees of API identity: who enforces a policy, when a token is accepted, and how often
  an unknown key makes the proxy ask for the keys.
\<close>

section \<open>The machine\<close>

lemma record_violation_bounded: "length (id_violations (record_identity_violation now v s)) \<le> max_identity_violations"
  by (simp add: record_identity_violation_def Let_def)

lemma rebuild_violations [simp]: "id_violations (rebuild_identity s) = id_violations s"
  by (simp add: rebuild_identity_def)

lemma fail_bounded: "length (id_violations (snd (fail_identity now v p status who s))) \<le> max_identity_violations"
  by (simp add: fail_identity_store record_violation_bounded)

lemma decide_bounded:
  "length (id_violations s) \<le> max_identity_violations \<Longrightarrow>
   length (id_violations (snd (decide_verified env now op p res s))) \<le> max_identity_violations"
  by (auto simp: decide_verified_def fail_bounded split: sum.split option.split)

lemma wrap_bounded:
  assumes "length (id_violations s) \<le> max_identity_violations"
  shows "length (id_violations (snd (wrap_api_identity ienv env site v now r s))) \<le> max_identity_violations"
proof -
  define op where "op = operation_id ienv site (iq_method r) (normalize_operation_path (iq_path r))"
  then show ?thesis
    by (cases rule: wrap_cases [where s = s and ienv = ienv and env = env and site = site and v = v and now = now and r = r])
      (simp_all add: assms fail_bounded decide_bounded)
qed

lemma identity_step_bounded:
  assumes "length (id_violations s) \<le> max_identity_violations"
  shows "length (id_violations (identity_step w e s)) \<le> max_identity_violations"
proof (cases e)
  case (Put_Issuer now actor i)
  with assms show ?thesis by (simp add: identity_step_def upsert_issuer_def Let_def split: sum.split option.split)
next
  case (Put_Policy now actor exs p)
  with assms show ?thesis by (simp add: identity_step_def upsert_identity_policy_def Let_def split: sum.split)
next
  case (Set_Identity_Mode now opid mode actor reason)
  with assms show ?thesis by (simp add: identity_step_def set_identity_mode_def Let_def split: sum.split option.split)
next
  case (Drop_Policy opid)
  with assms show ?thesis by (simp add: identity_step_def delete_identity_policy_def)
next
  case (Refresh_Keys now now2 fetch k)
  with assms show ?thesis by (simp add: identity_step_def refresh_issuer_def Let_def split: option.split prod.split)
next
  case (Identity_Check v now r)
  with assms show ?thesis by (simp add: identity_step_def wrap_bounded)
qed

text \<open>Whatever is fetched, the invariant holds of every run and the violations are bounded.\<close>

interpretation identity_machine: invariant_machine "identity_step w"
    "\<lambda>s. identity_ok (iw_token w) (\<lambda>_. UNIV) s \<and> length (id_violations s) \<le> max_identity_violations" for w
  by unfold_locales (simp add: identity_step_ok identity_step_bounded)

text \<open>The snapshot requests read is the table of policies, and each policy names an issuer of the store.\<close>

lemma identity_store_ok:
  assumes "s = run_machine (identity_step w) es new_identity_store"
  shows "id_snapshot s = id_policies s" and "length (id_violations s) \<le> 2048"
    and "gm_get (id_policies s) op = Some p \<Longrightarrow> gm_has (id_issuers s) (iy_issuer p)"
proof -
  have "identity_ok (iw_token w) (\<lambda>_. UNIV) s \<and> length (id_violations s) \<le> max_identity_violations"
    unfolding assms by (rule identity_machine.inv_run) (simp add: identity_ok_def new_identity_store_def)
  then show "id_snapshot s = id_policies s" "length (id_violations s) \<le> 2048"
    "gm_get (id_policies s) op = Some p \<Longrightarrow> gm_has (id_issuers s) (iy_issuer p)"
    by (auto simp: identity_ok_def max_identity_violations_def dest: gm_all_get)
qed

section \<open>Enforcement is chosen\<close>

definition issuer_kept :: "identity_store \<Rightarrow> identity_store \<Rightarrow> string \<Rightarrow> bool" where
  "issuer_kept t s k \<longleftrightarrow> (\<exists>old new. gm_get (id_issuers t) k = Some old \<and> gm_get (id_issuers s) k = Some new \<and> same_issuer old new)"

lemma issuer_kept_trans: "issuer_kept a b k \<Longrightarrow> issuer_kept b c k \<Longrightarrow> issuer_kept a c k"
  by (auto simp: issuer_kept_def intro: same_issuer_trans)

lemma issuer_kept_refl: "gm_has (id_issuers s) k \<Longrightarrow> id_issuers t = id_issuers s \<Longrightarrow> issuer_kept t s k"
  by (auto simp: issuer_kept_def gm_has_def)

definition identity_enforced :: "identity_store \<Rightarrow> string \<Rightarrow> identity_policy \<Rightarrow> bool" where
  "identity_enforced s op p \<longleftrightarrow> gm_get (id_policies s) op = Some p \<and> iy_mode p = identity_enforce"

lemma enforced_issuer: "identity_ok env docs s \<Longrightarrow> gm_get (id_policies s) op = Some p \<Longrightarrow> gm_has (id_issuers s) (iy_issuer p)"
  by (auto simp: identity_ok_def dest: gm_all_get)

lemma demote_enforced:
  assumes "gm_get (demote_policies now actor iss m) k = Some p" and "iy_mode p = identity_enforce"
  shows "gm_get m k = Some p \<and> iy_issuer p \<noteq> iss"
proof -
  from assms(1) obtain q where q: "gm_get m k = Some q"
    and p: "p = (if iy_issuer q = iss \<and> iy_mode q = identity_enforce
      then q\<lparr>iy_mode := identity_detect, iy_updated_at := now, iy_updated_by := actor,
             iy_reason := ''issuer trust semantics changed; returned to DETECT''\<rparr> else q)"
    by (auto simp: demote_get)
  show ?thesis
  proof (cases "iy_issuer q = iss \<and> iy_mode q = identity_enforce")
    case True
    with p assms(2) show ?thesis by (simp add: identity_detect_def identity_enforce_def)
  next
    case False
    with p q assms(2) show ?thesis by auto
  qed
qed

lemma put_issuer_enforced:
  assumes "identity_ok env docs t" and "identity_enforced (snd (upsert_issuer u now actor i t)) op p"
  shows "identity_enforced t op p \<and> issuer_kept t (snd (upsert_issuer u now actor i t)) (iy_issuer p)"
proof (cases "normalize_issuer u now actor (gm_get (id_issuers t) (trim_space (ji_id i))) i")
  case (Inl e)
  with assms show ?thesis by (auto simp: upsert_issuer_def identity_enforced_def intro: issuer_kept_refl enforced_issuer)
next
  case (Inr n)
  show ?thesis
  proof (cases "\<not> ji_enabled n \<and> list_ex (\<lambda>p. iy_issuer p = ji_id n) (gm_values (id_policies t))")
    case True
    with assms Inr show ?thesis by (auto simp: upsert_issuer_def identity_enforced_def intro: issuer_kept_refl enforced_issuer)
  next
    case False
    define s where "s = snd (upsert_issuer u now actor i t)"
    have iss: "id_issuers s = gm_put (ji_id n) n (id_issuers t)"
      using Inr False by (auto simp: s_def upsert_issuer_def Let_def split: option.split)
    have pol: "id_policies s = (case gm_get (id_issuers t) (ji_id n) of
        Some old \<Rightarrow> if same_issuer old n then id_policies t else demote_policies now actor (ji_id n) (id_policies t)
      | None \<Rightarrow> id_policies t)"
      using Inr False by (auto simp: s_def upsert_issuer_def Let_def split: option.split)
    have en: "identity_enforced s op p" using assms(2) by (simp add: s_def)
    have t: "identity_enforced t op p"
      using en pol by (auto simp: identity_enforced_def split: option.splits if_splits dest: demote_enforced)
    from enforced_issuer [OF assms(1)] t obtain old where old: "gm_get (id_issuers t) (iy_issuer p) = Some old"
      by (auto simp: identity_enforced_def gm_has_def)
    have "same_issuer old n" if "iy_issuer p = ji_id n"
      using that old en pol by (auto simp: identity_enforced_def split: if_splits dest: demote_enforced)
    with old iss have "issuer_kept t s (iy_issuer p)" by (auto simp: issuer_kept_def gm_get_put)
    with t show ?thesis by (simp add: s_def)
  qed
qed

lemma put_policy_enforced:
  assumes "identity_ok env docs t" and "identity_enforced (snd (upsert_identity_policy now actor exs q t)) op p"
  shows "\<exists>p'. identity_enforced t op p' \<and> same_identity_policy p' p"
proof -
  define ex where "ex = gm_get (id_policies t) (trim_space (iy_operation q))"
  define q1 where "q1 = (case ex of Some old \<Rightarrow> if trim_space (iy_mode q) = [] then q\<lparr>iy_mode := iy_mode old\<rparr> else q | None \<Rightarrow> q)"
  have q1: "iy_operation q1 = iy_operation q" by (simp add: q1_def split: option.split)
  show ?thesis
  proof (cases "snd (upsert_identity_policy now actor exs q t) = t")
    case True
    with assms(2) show ?thesis by (intro exI [of _ p]) simp
  next
    case False
    then obtain n where n: "normalize_identity_policy now actor ex q1 = Inr n"
      by (cases "normalize_identity_policy now actor ex q1")
        (auto simp: upsert_identity_policy_def Let_def simp flip: ex_def q1_def split: if_splits)
    define n1 where "n1 = (case ex of Some old \<Rightarrow> if same_identity_policy old n then n
        else n\<lparr>iy_mode := identity_detect, iy_reason := ''policy semantics changed; returned to DETECT''\<rparr> | None \<Rightarrow> n)"
    have pol: "id_policies (snd (upsert_identity_policy now actor exs q t)) = gm_put (iy_operation n1) n1 (id_policies t)"
      using False n by (auto simp: upsert_identity_policy_def Let_def simp flip: ex_def q1_def n1_def split: if_splits)
    note f = normalize_policy_fields [OF n]
    have op: "iy_operation n1 = trim_space (iy_operation q)" using f q1 by (simp add: n1_def split: option.split)
    show ?thesis
    proof (cases "op = trim_space (iy_operation q)")
      case True
      with assms(2) pol op have p: "p = n1" and m: "iy_mode n1 = identity_enforce" by (auto simp: identity_enforced_def gm_get_put)
      from m obtain old where old: "ex = Some old" "same_identity_policy old n" "n1 = n"
        using f by (auto simp: n1_def identity_detect_def identity_enforce_def split: option.splits if_splits)
      with f m have "iy_mode old = identity_enforce" by simp
      with old p True show ?thesis by (auto simp: identity_enforced_def ex_def)
    next
      case False
      with assms(2) pol op show ?thesis by (intro exI [of _ p]) (auto simp: identity_enforced_def gm_get_put)
    qed
  qed
qed

lemma put_policy_issuers: "id_issuers (snd (upsert_identity_policy now actor exs q t)) = id_issuers t"
  by (auto simp: upsert_identity_policy_def Let_def split: sum.split)

text \<open>What \<open>set_identity_mode\<close> enforces is the policy that was there.\<close>

lemma set_mode_enforced:
  assumes "identity_ok env docs t" and "identity_enforced (snd (set_identity_mode now opid mode actor reason t)) op p"
    and "\<not> identity_enforced t op p"
  shows "trim_space opid = op \<and> normalize_identity_mode mode = Inr identity_enforce \<and>
    (\<exists>q. gm_get (id_policies t) op = Some q \<and> iy_mode q \<noteq> identity_enforce \<and> same_identity_policy q p)"
proof (cases "normalize_identity_mode mode")
  case (Inl e)
  with assms(2,3) show ?thesis by (simp add: set_identity_mode_def)
next
  case (Inr m)
  show ?thesis
  proof (cases "gm_get (id_policies t) (trim_space opid)")
    case None
    with assms(2,3) Inr show ?thesis by (simp add: set_identity_mode_def)
  next
    case (Some q)
    define q1 where "q1 = q\<lparr>iy_mode := m, iy_updated_at := now, iy_updated_by := actor, iy_reason := trim_space reason\<rparr>"
    have same: "same_identity_policy q q1" "iy_issuer q1 = iy_issuer q" "iy_mode q1 = m" by (simp_all add: q1_def same_identity_policy_def)
    have op: "iy_operation q1 = trim_space opid" using assms(1) Some by (auto simp: q1_def identity_ok_def dest: gm_all_get)
    let ?s = "snd (set_identity_mode now opid mode actor reason t)"
    have ne: "?s \<noteq> t" using assms(2,3) by auto
    have q: "iy_mode q \<noteq> m" using ne by (rule contrapos_nn) (simp add: set_identity_mode_def Inr Some)
    have "?s = rebuild_identity (t\<lparr>id_policies := gm_put (iy_operation q1) q1 (id_policies t)\<rparr>)"
      using ne Inr Some by (auto simp: set_identity_mode_def simp flip: q1_def split: if_splits)
    then have pol: "id_policies ?s = gm_put (trim_space opid) q1 (id_policies t)" by (simp add: op)
    have at: "op = trim_space opid"
    proof (rule ccontr)
      assume "op \<noteq> trim_space opid"
      with assms(2,3) pol show False by (simp add: identity_enforced_def gm_get_put)
    qed
    with assms(2) pol same have "p = q1" "m = identity_enforce" by (simp_all add: identity_enforced_def gm_get_put)
    with at q same Inr Some show ?thesis by simp
  qed
qed

lemma set_mode_issuers: "id_issuers (snd (set_identity_mode now opid mode actor reason t)) = id_issuers t"
  by (simp add: set_identity_mode_def Let_def split: sum.split option.split)

text \<open>One event: what is enforced after it was enforced before it, for the same issuer, or is enforced by it.\<close>

lemma step_enforced:
  assumes ok: "identity_ok (iw_token w) docs t" and ok': "identity_ok (iw_token w) docs (identity_step w e t)"
    and en: "identity_enforced (identity_step w e t) op p"
  shows "(\<exists>q. identity_enforced t op q \<and> same_identity_policy q p \<and> issuer_kept t (identity_step w e t) (iy_issuer p)) \<or>
    (\<exists>now opid mode actor reason q. e = Set_Identity_Mode now opid mode actor reason \<and> trim_space opid = op \<and>
       normalize_identity_mode mode = Inr identity_enforce \<and>
       gm_get (id_policies t) op = Some q \<and> iy_mode q \<noteq> identity_enforce \<and> same_identity_policy q p \<and>
       issuer_kept t (identity_step w e t) (iy_issuer p))"
proof -
  have has: "gm_has (id_issuers (identity_step w e t)) (iy_issuer p)"
    using enforced_issuer [OF ok'] en by (auto simp: identity_enforced_def)
  have unchanged: "?thesis" if "id_issuers (identity_step w e t) = id_issuers t" "identity_enforced t op q" "same_identity_policy q p" for q
    using that has by (intro disjI1 exI [of _ q]) (auto intro: issuer_kept_refl)
  show ?thesis
  proof (cases e)
    case (Put_Issuer now actor i)
    from put_issuer_enforced [OF ok] en
    have "identity_enforced t op p \<and> issuer_kept t (identity_step w e t) (iy_issuer p)" unfolding Put_Issuer identity_step_def by simp
    then show ?thesis using same_identity_refl by blast
  next
    case (Put_Policy now actor exs q)
    from put_policy_enforced [OF ok] en obtain p' where "identity_enforced t op p'" "same_identity_policy p' p"
      unfolding Put_Policy identity_step_def identity_event.simps by metis
    with unchanged Put_Policy show ?thesis by (simp add: identity_step_def put_policy_issuers)
  next
    case (Set_Identity_Mode now opid mode actor reason)
    show ?thesis
    proof (cases "identity_enforced t op p")
      case True
      with unchanged Set_Identity_Mode show ?thesis by (simp add: identity_step_def set_mode_issuers)
    next
      case False
      with set_mode_enforced [OF ok] en Set_Identity_Mode
      have "trim_space opid = op \<and> normalize_identity_mode mode = Inr identity_enforce \<and>
        (\<exists>q. gm_get (id_policies t) op = Some q \<and> iy_mode q \<noteq> identity_enforce \<and> same_identity_policy q p)"
        by (auto simp: identity_step_def)
      moreover have "issuer_kept t (identity_step w e t) (iy_issuer p)"
        using has Set_Identity_Mode by (auto simp: identity_step_def set_mode_issuers intro: issuer_kept_refl)
      ultimately show ?thesis using Set_Identity_Mode by blast
    qed
  next
    case (Drop_Policy opid)
    with en have "identity_enforced t op p"
      by (auto simp: identity_step_def delete_identity_policy_def identity_enforced_def gm_get_del split: if_splits)
    with unchanged Drop_Policy show ?thesis by (simp add: identity_step_def delete_identity_policy_def)
  next
    case (Refresh_Keys now now2 fetch k)
    then have "id_issuers (identity_step w e t) = id_issuers t" "id_policies (identity_step w e t) = id_policies t"
      by (simp_all add: identity_step_def refresh_issuer_def Let_def split: option.split prod.split)
    with unchanged [of p] en show ?thesis by (simp add: identity_enforced_def)
  next
    case (Identity_Check v now r)
    then have "id_issuers (identity_step w e t) = id_issuers t" "id_policies (identity_step w e t) = id_policies t"
      using wrap_ok(2,3) [OF identity_ok_mono [OF ok, where docs' = "\<lambda>_. UNIV"]] by (auto simp: identity_step_def)
    with unchanged [of p] en show ?thesis by (simp add: identity_enforced_def)
  qed
qed

text \<open>The events since the switch.\<close>

lemma enforced_since:
  "identity_enforced (run_machine (identity_step w) es new_identity_store) op p \<Longrightarrow>
   \<exists>before now opid mode actor reason after q.
     es = before @ Set_Identity_Mode now opid mode actor reason # after \<and> trim_space opid = op \<and>
     normalize_identity_mode mode = Inr identity_enforce \<and>
     gm_get (id_policies (run_machine (identity_step w) before new_identity_store)) op = Some q \<and> iy_mode q \<noteq> identity_enforce \<and>
     same_identity_policy q p \<and>
     issuer_kept (run_machine (identity_step w) before new_identity_store) (run_machine (identity_step w) es new_identity_store) (iy_issuer p)"
proof (induction es arbitrary: p rule: rev_induct)
  case Nil
  then show ?case by (simp add: identity_enforced_def new_identity_store_def)
next
  case (snoc e es)
  let ?t = "run_machine (identity_step w) es new_identity_store"
  have run: "run_machine (identity_step w) (es @ [e]) new_identity_store = identity_step w e ?t" by (simp add: run_machine_append)
  have ok: "identity_ok (iw_token w) (served_by (es @ [e])) ?t"
    by (rule identity_ok_mono [OF identity_from_new]) (auto simp: served_by_def)
  have ok': "identity_ok (iw_token w) (served_by (es @ [e])) (identity_step w e ?t)"
    using identity_from_new [of w "es @ [e]"] unfolding run .
  show ?case
    using step_enforced [OF ok ok' snoc.prems [unfolded run]]
  proof (elim disjE exE conjE)
    fix q
    assume q: "identity_enforced ?t op q" "same_identity_policy q p" "issuer_kept ?t (identity_step w e ?t) (iy_issuer p)"
    have iss: "iy_issuer q = iy_issuer p" using q(2) by (simp add: same_identity_policy_def)
    from snoc.IH [OF q(1)] obtain before now opid mode actor reason after q0 where
      b: "es = before @ Set_Identity_Mode now opid mode actor reason # after" "trim_space opid = op"
         "normalize_identity_mode mode = Inr identity_enforce"
         "gm_get (id_policies (run_machine (identity_step w) before new_identity_store)) op = Some q0"
         "iy_mode q0 \<noteq> identity_enforce" "same_identity_policy q0 q"
         "issuer_kept (run_machine (identity_step w) before new_identity_store) ?t (iy_issuer q)" by blast
    have "es @ [e] = before @ Set_Identity_Mode now opid mode actor reason # (after @ [e])" using b(1) by simp
    moreover have "same_identity_policy q0 p" by (rule same_identity_trans [OF b(6) q(2)])
    moreover have "issuer_kept (run_machine (identity_step w) before new_identity_store) (identity_step w e ?t) (iy_issuer p)"
      using issuer_kept_trans b(7) q(3) unfolding iss by blast
    ultimately show ?thesis unfolding run using b(2,3,4,5) by blast
  next
    fix now opid mode actor reason q
    assume "e = Set_Identity_Mode now opid mode actor reason" "trim_space opid = op"
      "normalize_identity_mode mode = Inr identity_enforce" "gm_get (id_policies ?t) op = Some q" "iy_mode q \<noteq> identity_enforce"
      "same_identity_policy q p" "issuer_kept ?t (identity_step w e ?t) (iy_issuer p)"
    then show ?thesis unfolding run by blast
  qed
qed


section \<open>When a token is accepted\<close>

definition claims_hold :: "token_env \<Rightarrow> gtime \<Rightarrow> jwt_issuer \<Rightarrow> parsed_jwt \<Rightarrow> gtime \<Rightarrow> bool" where
  "claims_hold env now cfg j e \<longleftrightarrow>
     trim_space (text_member (pj_claims j) ''iss'') = ji_issuer cfg \<and>
     set (audience_values (pj_claims j)) \<inter> set (ji_audiences cfg) \<noteq> {} \<and>
     numeric_date_of env (pj_claims j) ''exp'' = Date e \<and> now < e + seconds (ji_skew cfg) \<and>
     numeric_date_of env (pj_claims j) ''nbf'' \<noteq> Bad_Date \<and>
     (\<forall>n. numeric_date_of env (pj_claims j) ''nbf'' = Date n \<longrightarrow> n \<le> now + seconds (ji_skew cfg))"

lemma check_claims_iff: "check_claims env now cfg j = Inr i \<longleftrightarrow> (\<exists>e. claims_hold env now cfg j e \<and> i = identity_of cfg j e)"
proof (cases "numeric_date_of env (pj_claims j) ''exp''")
  case (Date e)
  show ?thesis
    by (cases "numeric_date_of env (pj_claims j) ''nbf''")
      (auto simp: check_claims_def claims_hold_def Let_def intersect_iff Date not_le)
qed (auto simp: check_claims_def claims_hold_def Let_def)

definition expiry_of :: "token_env \<Rightarrow> parsed_jwt \<Rightarrow> gtime" where
  "expiry_of env j = (case numeric_date_of env (pj_claims j) ''exp'' of Date e \<Rightarrow> e | _ \<Rightarrow> 0)"

lemma claims_expiry: "claims_hold env now cfg j e \<Longrightarrow> expiry_of env j = e"
  by (simp add: claims_hold_def expiry_of_def)

lemma check_claims_code: "check_claims env now cfg j = Inl c \<Longrightarrow> c \<noteq> ''JWKS_UNAVAILABLE''"
  by (auto simp: check_claims_def Let_def split: if_splits numeric_date.splits)

lemma verify_fresh:
  assumes "parse_jwt env token = Some j" and "pj_alg j \<in> set (ji_algs (ir_config rt))"
    and "ir_keys rt = Some ks" and "vr_cache v < ks_expires ks" and "filter (key_matches (pj_kid j) (pj_alg j)) (ks_keys ks) = [k]"
  shows "verify_token env v token rt = (check_signed env (vr_claims v) (ir_config rt) j k, rt, 0)"
  using assms by (simp add: verify_token_def refresh_keys_def fresh_keys_def select_key_def)


section \<open>Unknown keys\<close>

text \<open>The fetches of a sequence of verifications.\<close>

fun fetches_of :: "token_env \<Rightarrow> (verify_run \<times> string) list \<Rightarrow> issuer_runtime \<Rightarrow> nat" where
  "fetches_of env [] rt = 0"
| "fetches_of env ((v, token) # xs) rt = (case verify_token env v token rt of (_, rt', n) \<Rightarrow> n + fetches_of env xs rt')"

definition unknown_key :: "token_env \<Rightarrow> jwt_issuer \<Rightarrow> jwk list \<Rightarrow> string \<Rightarrow> bool" where
  "unknown_key env cfg keys token \<longleftrightarrow> (case parse_jwt env token of
     None \<Rightarrow> False
   | Some j \<Rightarrow> pj_alg j \<in> set (ji_algs cfg) \<and> filter (key_matches (pj_kid j) (pj_alg j)) keys = [])"

lemma unknown_keyE:
  assumes "unknown_key env cfg (ks_keys ks) token"
  obtains j where "parse_jwt env token = Some j" and "select_key (Some ks) (pj_kid j) (pj_alg j) = None"
  using assms by (auto simp: unknown_key_def select_key_def split: option.splits)

lemma verify_unknown:
  assumes "unknown_key env (ir_config rt) (ks_keys ks) token" and "ir_keys rt = Some ks" and "vr_cache v < ks_expires ks" and "vr_others v = []"
  shows "verify_token env v token rt = (case refresh_for_miss env (vr_miss v) (vr_miss_fetcher v) (Some ks) rt of
      (None, rt', g) \<Rightarrow> (Inl ''JWKS_UNAVAILABLE'', rt', of_bool g)
    | (Some ks', rt', g) \<Rightarrow> (case parse_jwt env token of Some j \<Rightarrow> (case select_key (Some ks') (pj_kid j) (pj_alg j) of
        None \<Rightarrow> (Inl ''JWT_KEY_NOT_FOUND'', rt', of_bool g)
      | Some k \<Rightarrow> (check_signed env (vr_claims v) (ir_config rt') j k, rt', of_bool g))))"
proof -
  from assms(1) obtain j where j: "parse_jwt env token = Some j" "pj_alg j \<in> set (ji_algs (ir_config rt))"
    "filter (key_matches (pj_kid j) (pj_alg j)) (ks_keys ks) = []" by (auto simp: unknown_key_def split: option.splits)
  then show ?thesis using assms(2-4)
    by (simp add: verify_token_def refresh_keys_def fresh_keys_def select_key_def split: option.split prod.split)
qed

lemma miss_failed:
  assumes "ir_keys rt = Some ks" and "ir_last_miss rt = 0 \<or> key_miss_min \<le> time_sub now (ir_last_miss rt)"
    and "case fetch (ji_url (ir_config rt)) of None \<Rightarrow> True | Some doc \<Rightarrow> parse_jwks env doc = None"
  shows "refresh_for_miss env now fetch (Some ks) rt = (None, rt, True)"
  using assms by (auto simp: refresh_for_miss_def split: option.splits)

lemma miss_limited:
  assumes "ir_keys rt = Some ks" and "ir_last_miss rt \<noteq> 0" and "time_sub now (ir_last_miss rt) < key_miss_min"
  shows "refresh_for_miss env now fetch (Some ks) rt = (Some ks, rt, False)"
  using assms by (simp add: refresh_for_miss_def)

lemma failed_fetches:
  assumes "ir_keys rt = Some ks" and "ir_last_miss rt = 0"
    and "\<And>v token. (v, token) \<in> set xs \<Longrightarrow> unknown_key env (ir_config rt) (ks_keys ks) token \<and> vr_cache v < ks_expires ks \<and>
      vr_others v = [] \<and> (case vr_miss_fetcher v (ji_url (ir_config rt)) of None \<Rightarrow> True | Some doc \<Rightarrow> parse_jwks env doc = None)"
  shows "fetches_of env xs rt = length xs"
  using assms(3)
proof (induction xs)
  case (Cons x xs)
  obtain v token where x: "x = (v, token)" by fastforce
  with Cons.prems [of v token] have u: "unknown_key env (ir_config rt) (ks_keys ks) token" "vr_cache v < ks_expires ks" "vr_others v = []"
    and f: "case vr_miss_fetcher v (ji_url (ir_config rt)) of None \<Rightarrow> True | Some doc \<Rightarrow> parse_jwks env doc = None" by simp_all
  have "verify_token env v token rt = (Inl ''JWKS_UNAVAILABLE'', rt, 1)"
    using verify_unknown [OF u(1) assms(1) u(2,3)] miss_failed [where fetch = "vr_miss_fetcher v" and now = "vr_miss v", OF assms(1) disjI1, OF assms(2) f] by simp
  moreover have "fetches_of env xs rt = length xs" by (rule Cons.IH) (rule Cons.prems, simp)
  ultimately show ?case using x by simp
qed simp

lemma limited_fetches:
  assumes "ir_keys rt = Some ks" and "ir_last_miss rt \<noteq> 0"
    and "\<And>v token. (v, token) \<in> set xs \<Longrightarrow> unknown_key env (ir_config rt) (ks_keys ks) token \<and> vr_cache v < ks_expires ks \<and>
      vr_others v = [] \<and> time_sub (vr_miss v) (ir_last_miss rt) < key_miss_min"
  shows "fetches_of env xs rt = 0"
  using assms(3)
proof (induction xs)
  case (Cons x xs)
  obtain v token where x: "x = (v, token)" by fastforce
  with Cons.prems [of v token] have u: "unknown_key env (ir_config rt) (ks_keys ks) token" "vr_cache v < ks_expires ks" "vr_others v = []"
    and f: "time_sub (vr_miss v) (ir_last_miss rt) < key_miss_min" by simp_all
  from u(1) obtain j where "parse_jwt env token = Some j" "select_key (Some ks) (pj_kid j) (pj_alg j) = None"
    by (rule unknown_keyE)
  then have "verify_token env v token rt = (Inl ''JWT_KEY_NOT_FOUND'', rt, 0)"
    using verify_unknown [OF u(1) assms(1) u(2,3)] miss_limited [OF assms(1,2) f] by simp
  moreover have "fetches_of env xs rt = 0" by (rule Cons.IH) (rule Cons.prems, simp)
  ultimately show ?case using x by simp
qed simp

text \<open>C21: While a runtime holds unexpired keys and has not yet asked for an unknown one, tokens with unknown keys that come within
  30 seconds make it fetch the keys once, if the answer is usable, however many they are; but if the
  answer fails, each of them makes it fetch again, since only a successful fetch is rate limited.\<close>

theorem unknown_key_fetches:
  assumes "ir_keys rt = Some ks" and "ir_last_miss rt = 0" and "0 < t" and "30 \<le> ji_ttl (ir_config rt)"
    and "\<And>v token. (v, token) \<in> set xs \<Longrightarrow>
      unknown_key env (ir_config rt) (ks_keys ks) token \<and> vr_others v = [] \<and> vr_miss_fetcher v (ji_url (ir_config rt)) = answer \<and>
      t \<le> vr_miss v \<and> vr_miss v < t + key_miss_min \<and> vr_cache v < t + key_miss_min \<and> vr_cache v < ks_expires ks \<and>
      (\<forall>doc new. answer = Some doc \<longrightarrow> parse_jwks env doc = Some new \<longrightarrow> unknown_key env (ir_config rt) new token)"
  shows "fetches_of env xs rt =
    (case answer of None \<Rightarrow> length xs
     | Some doc \<Rightarrow> (case parse_jwks env doc of None \<Rightarrow> length xs | Some _ \<Rightarrow> min 1 (length xs)))"
proof (cases "\<exists>doc new. answer = Some doc \<and> parse_jwks env doc = Some new")
  case False
  then have f: "case answer of None \<Rightarrow> True | Some doc \<Rightarrow> parse_jwks env doc = None" by (auto split: option.split)
  have "fetches_of env xs rt = length xs"
    by (rule failed_fetches [OF assms(1,2)]) (use assms(5) f in metis)
  with f show ?thesis by (auto split: option.splits)
next
  case True
  then obtain doc new where a: "answer = Some doc" "parse_jwks env doc = Some new" by blast
  show ?thesis
  proof (cases xs)
    case Nil
    with a show ?thesis by simp
  next
    case (Cons x ys)
    obtain v token where x: "x = (v, token)" by fastforce
    with Cons assms(5) [of v token] a have u: "unknown_key env (ir_config rt) (ks_keys ks) token" "vr_others v = []" "vr_cache v < ks_expires ks"
      and f: "vr_miss_fetcher v (ji_url (ir_config rt)) = Some doc" and at: "t \<le> vr_miss v" "vr_miss v < t + key_miss_min"
      and n: "unknown_key env (ir_config rt) new token" by simp_all
    define ks' where "ks' = fetched_set (vr_miss v) (ir_config rt) new"
    define rt' where "rt' = rt\<lparr>ir_keys := Some ks', ir_last_miss := vr_miss v\<rparr>"
    have ks': "ks_keys ks' = new" "vr_miss v + 30 * 1000000000 \<le> ks_expires ks'"
      using assms(4) by (simp_all add: ks'_def fetched_set_def)
    have "refresh_for_miss env (vr_miss v) (vr_miss_fetcher v) (Some ks) rt = (Some ks', rt', True)"
      using assms(1,2) f a by (simp add: refresh_for_miss_def ks'_def rt'_def Let_def)
    moreover obtain j where "parse_jwt env token = Some j" "select_key (Some ks') (pj_kid j) (pj_alg j) = None"
      using n unfolding ks'(1) [symmetric] by (rule unknown_keyE)
    ultimately have v: "verify_token env v token rt = (Inl ''JWT_KEY_NOT_FOUND'', rt', 1)"
      using verify_unknown [OF u(1) assms(1) u(3,2)] by simp
    have "fetches_of env ys rt' = 0"
    proof (rule limited_fetches)
      show "ir_keys rt' = Some ks'" "ir_last_miss rt' \<noteq> 0" using at(1) assms(3) by (simp_all add: rt'_def)
      fix v' token'
      assume "(v', token') \<in> set ys"
      with Cons have "(v', token') \<in> set xs" by simp
      note w = assms(5) [OF this]
      have "time_sub (vr_miss v') (vr_miss v) < key_miss_min"
        using w at by (auto simp: time_sub_def key_miss_min_def max_duration_def min_duration_def)
      with w a ks' at show "unknown_key env (ir_config rt') (ks_keys ks') token' \<and> vr_cache v' < ks_expires ks' \<and> vr_others v' = [] \<and>
          time_sub (vr_miss v') (ir_last_miss rt') < key_miss_min"
        by (auto simp: rt'_def key_miss_min_def)
    qed
    with Cons x v a show ?thesis by simp
  qed
qed

end
