(* ===== verification/Identity_Witness.thy ===== *)
theory Identity_Witness
  imports Identity_Properties
begin

text \<open>
  A run of the identity store to an enforced policy, and the properties at it.
\<close>

definition demo_token_env :: token_env where
  "demo_token_env = \<lparr>jx_base64 = Some,
     jx_object = (\<lambda>b. if b = ''h'' then Some [(''alg'', Json_String ''EDDSA''), (''kid'', Json_String ''k1'')]
       else if b = ''u'' then Some [(''alg'', Json_String ''EDDSA''), (''kid'', Json_String ''k2'')]
       else Some [(''iss'', Json_String ''idp''), (''aud'', Json_String ''api''), (''exp'', Json_Number ''9''),
         (''roles'', Json_Array [Json_String ''admin''])]),
     jx_float = (\<lambda>_. Some 9),
     jx_jwks = (\<lambda>_. Some [Some \<lparr>rk_kty = ''OKP'', rk_kid = ''k1'', rk_use = ''sig'', rk_alg = [], rk_ops = [], rk_n = [], rk_e = [],
       rk_crv = ''Ed25519'', rk_x = replicate 32 CHR ''x'', rk_y = []\<rparr>]),
     jx_on_curve = (\<lambda>_ _ _. False), jx_pkcs = (\<lambda>_ _ _ _ _. False), jx_pss = (\<lambda>_ _ _ _ _. False),
     jx_ecdsa = (\<lambda>_ _ _ _ _ _ _. False), jx_ed25519 = (\<lambda>_ _ _. True), jx_subject_hash = (\<lambda>x. x)\<rparr>"

definition demo_identity_world :: identity_world where
  "demo_identity_world = \<lparr>iw_url = (\<lambda>_. Some (''https'', ''idp'', False, [])), iw_inventory = \<lparr>iv_hash = (\<lambda>x. x), iv_hash16 = (\<lambda>x. x)\<rparr>,
     iw_token = demo_token_env, iw_site = ''s''\<rparr>"

definition demo_issuer :: jwt_issuer where
  "demo_issuer = \<lparr>ji_id = ''i'', ji_name = [], ji_issuer = ''idp'', ji_url = ''https://idp/k'', ji_audiences = [''api''],
     ji_algs = [''EDDSA''], ji_skew = 0, ji_ttl = 300, ji_subject = ''sub'', ji_tenant = [], ji_client = ''client_id'', ji_roles = ''roles'',
     ji_scopes = ''scope'', ji_enabled = True, ji_created_at = 1, ji_updated_at = 1, ji_created_by = ''a'', ji_updated_by = ''a''\<rparr>"

definition demo_op :: string where "demo_op = ''s|GET|/''"

definition demo_identity_policy :: "string \<Rightarrow> string \<Rightarrow> identity_policy" where
  "demo_identity_policy mode reason = \<lparr>iy_operation = demo_op, iy_issuer = ''i'', iy_mode = mode, iy_require = True,
     iy_roles = [''admin''], iy_scopes = [], iy_role_match = ''all'', iy_scope_match = ''all'', iy_tenant = [], iy_clients = [],
     iy_unauthorized = 401, iy_forbidden = 403, iy_created_at = 1, iy_updated_at = 1, iy_created_by = ''a'', iy_updated_by = ''a'',
     iy_reason = reason\<rparr>"

definition demo_identity_events :: "identity_event list" where
  "demo_identity_events = [Put_Issuer 1 ''a'' demo_issuer, Put_Policy 1 ''a'' (\<lambda>_. True) (demo_identity_policy [] []),
     Set_Identity_Mode 1 demo_op ''ENFORCE'' ''a'' ''reviewed'']"

definition demo_runtime :: issuer_runtime where
  "demo_runtime = \<lparr>ir_config = demo_issuer, ir_keys = None, ir_last_miss = 0\<rparr>"

definition demo_identity_store :: "string \<Rightarrow> string \<Rightarrow> identity_store" where
  "demo_identity_store mode reason = \<lparr>id_issuers = [(''i'', demo_issuer)], id_policies = [(demo_op, demo_identity_policy mode reason)],
     id_violations = [], id_seq = 0, id_runtimes = [(''i'', demo_runtime)], id_snapshot = [(demo_op, demo_identity_policy mode reason)]\<rparr>"

lemmas demo_identity_defs = demo_identity_world_def demo_issuer_def demo_identity_policy_def demo_op_def demo_runtime_def

lemma token_trims: "trim_space ''i'' = ''i''" "trim_space ''idp'' = ''idp''" "trim_space ''https://idp/k'' = ''https://idp/k''" "trim_space ''api'' = ''api''"
    "trim_space ''EDDSA'' = ''EDDSA''" "trim_space ''admin'' = ''admin''" "trim_space ''s|GET|/'' = ''s|GET|/''" "trim_space ''ENFORCE'' = ''ENFORCE''"
    "trim_space ''reviewed'' = ''reviewed''" "trim_space ''k1'' = ''k1''" "trim_space ''k2'' = ''k2''" "trim_space ''roles'' = ''roles''"
    "trim_space ''all'' = ''all''" "trim_space ''s'' = ''s''" "trim_space ''sub'' = ''sub''" "trim_space ''scope'' = ''scope''" "trim_space ''client_id'' = ''client_id''"
  by (rule trim_space_visible; simp add: visible_def less_eq_char_def)+

lemmas demo_upper = to_upper_def upper_char_def to_lower_def lower_char_def less_eq_char_def

lemma demo_normal_issuer: "normalize_issuer (iw_url demo_identity_world) 1 ''a'' None demo_issuer = Inr demo_issuer"
  by (simp add: normalize_issuer_def trimmed_issuer_def demo_identity_defs token_trims jwks_url_ok_def policy_set_def normalize_alg_def
      jwt_algs_def demo_upper with_claims_def claim_default_def claim_path_ok_def sort_by_def map_filter_def min_cache_ttl_def max_cache_ttl_def)

lemma demo_normal_policy: "normalize_identity_policy 1 ''a'' None (demo_identity_policy [] []) = Inr (demo_identity_policy ''DETECT'' [])"
  by (simp add: normalize_identity_policy_def demo_identity_defs token_trims normalize_identity_mode_def identity_detect_def identity_enforce_def
      policy_set_def normalize_match_def sort_by_def demo_upper Let_def)

lemma demo_mode: "normalize_identity_mode ''ENFORCE'' = Inr ''ENFORCE''"
  by (simp add: normalize_identity_mode_def token_trims demo_upper identity_enforce_def)


lemma demo_runtime_fresh: "runtime_for [] ''i'' demo_issuer = demo_runtime"
  by (simp add: runtime_for_def demo_runtime_def)

lemma demo_same: "same_issuer demo_issuer demo_issuer" "ji_id demo_issuer = ''i''" "ji_enabled demo_issuer"
    "iy_operation (demo_identity_policy m x) = demo_op" "iy_issuer (demo_identity_policy m x) = ''i''" "iy_mode (demo_identity_policy m x) = m"
    "trim_space demo_op = demo_op" "trim_space ''i'' = ''i''" "ir_config demo_runtime = demo_issuer"
  by (simp_all add: demo_identity_defs token_trims)

lemma demo_step1: "identity_step demo_identity_world (Put_Issuer 1 ''a'' demo_issuer) new_identity_store =
    \<lparr>id_issuers = [(''i'', demo_issuer)], id_policies = [], id_violations = [], id_seq = 0, id_runtimes = [(''i'', demo_runtime)], id_snapshot = []\<rparr>"
  by (simp add: identity_step_def upsert_issuer_def new_identity_store_def demo_same demo_normal_issuer rebuild_identity_def demo_runtime_fresh)

lemma demo_step2: "identity_step demo_identity_world (Put_Policy 1 ''a'' (\<lambda>_. True) (demo_identity_policy [] []))
    \<lparr>id_issuers = [(''i'', demo_issuer)], id_policies = [], id_violations = [], id_seq = 0, id_runtimes = [(''i'', demo_runtime)], id_snapshot = []\<rparr> =
    demo_identity_store ''DETECT'' []"
  by (simp add: identity_step_def upsert_identity_policy_def demo_same demo_normal_policy rebuild_identity_def runtime_for_def demo_identity_store_def Let_def)

lemma demo_step3: "identity_step demo_identity_world (Set_Identity_Mode 1 demo_op ''ENFORCE'' ''a'' ''reviewed'') (demo_identity_store ''DETECT'' []) =
    demo_identity_store ''ENFORCE'' ''reviewed''"
proof -
  have "(demo_identity_policy ''DETECT'' [])\<lparr>iy_mode := ''ENFORCE'', iy_updated_at := 1, iy_updated_by := ''a'', iy_reason := ''reviewed''\<rparr> =
      demo_identity_policy ''ENFORCE'' ''reviewed''" by (simp add: demo_identity_policy_def)
  then show ?thesis
    by (simp add: identity_step_def set_identity_mode_def demo_mode demo_same token_trims rebuild_identity_def runtime_for_def demo_identity_store_def
        identity_detect_def identity_enforce_def Let_def)
qed

lemma demo_identity_run: "run_machine (identity_step demo_identity_world) demo_identity_events new_identity_store = demo_identity_store ''ENFORCE'' ''reviewed''"
  by (simp only: demo_identity_events_def run_machine.simps demo_step1 demo_step2 demo_step3)


section \<open>A token\<close>

definition demo_claims :: json_object where
  "demo_claims = [(''iss'', Json_String ''idp''), (''aud'', Json_String ''api''), (''exp'', Json_Number ''9''),
     (''roles'', Json_Array [Json_String ''admin''])]"

definition demo_jwt :: "string \<Rightarrow> string \<Rightarrow> parsed_jwt" where
  "demo_jwt seg kid = \<lparr>pj_claims = demo_claims, pj_data = seg @ ''.c'', pj_signature = ''s'', pj_alg = ''EDDSA'', pj_kid = kid\<rparr>"

definition demo_key :: jwk where
  "demo_key = \<lparr>jk_kid = ''k1'', jk_alg = [], jk_key = Ed_Key (replicate 32 CHR ''x'')\<rparr>"

definition demo_keys :: key_set where
  "demo_keys = \<lparr>ks_keys = [demo_key], ks_fetched = 2, ks_expires = 300000000002\<rparr>"

definition demo_who :: verified_api_identity where
  "demo_who = \<lparr>vy_issuer = ''idp'', vy_subject = [], vy_tenant = [], vy_client = [], vy_roles = [''admin''], vy_scopes = [],
     vy_audience = [''api''], vy_expires_at = 9000000000, vy_key_id = ''k1'', vy_alg = ''EDDSA''\<rparr>"

definition demo_verify :: verify_run where
  "demo_verify = \<lparr>vr_cache = 2, vr_fetch = 2, vr_miss = 2, vr_claims = 2, vr_fetcher = (\<lambda>_. Some ''d''), vr_others = [], vr_miss_fetcher = (\<lambda>_. None)\<rparr>"

definition token_request :: identity_request where
  "token_request = \<lparr>iq_method = ''GET'', iq_path = [], iq_auth = [''bearer h.c.s'']\<rparr>"

lemma demo_parse: "parse_jwt demo_token_env ''h.c.s'' = Some (demo_jwt ''h'' ''k1'')" "parse_jwt demo_token_env ''u.c.s'' = Some (demo_jwt ''u'' ''k2'')"
  by (simp_all add: parse_jwt_def max_token_bytes_def decode_segment_def demo_token_env_def text_member_def token_trims demo_upper header_ok_def
      demo_jwt_def demo_claims_def)

lemma demo_jwks: "parse_jwks demo_token_env ''d'' = Some [demo_key]"
  by (simp add: parse_jwks_def max_jwks_bytes_def demo_token_env_def map_filter_def usable_jwk_def public_key_of_def token_trims demo_upper demo_key_def)

lemma demo_matches: "key_matches ''k1'' ''EDDSA'' demo_key" "\<not> key_matches ''k2'' ''EDDSA'' demo_key"
  by (simp_all add: key_matches_def compatible_key_def demo_key_def has_prefix_def)

lemma demo_signed: "signature_ok demo_token_env (demo_jwt seg kid) (jk_key demo_key)"
  by (simp add: signature_ok_def demo_jwt_def demo_key_def demo_token_env_def)

lemma demo_date: "numeric_date_of demo_token_env demo_claims ''exp'' = Date 9000000000" "numeric_date_of demo_token_env demo_claims ''nbf'' = No_Date"
  by (simp_all add: numeric_date_of_def demo_claims_def demo_token_env_def)

lemma demo_sets: "string_set 32 512 [''api''] = [''api'']" "string_set 256 512 [''admin''] = [''admin'']" "string_set 256 512 [] = []"
  by (simp_all add: string_set_def token_trims sort_by_def)

lemma demo_audience: "audience_values demo_claims = [''api'']"
  by (simp add: audience_values_def demo_claims_def demo_sets)

lemma demo_identity: "identity_of demo_issuer (demo_jwt seg ''k1'') 9000000000 = demo_who"
  by (simp add: identity_of_def demo_issuer_def demo_jwt_def demo_audience [unfolded demo_claims_def] demo_who_def claim_string_def claim_strings_def claim_at_def
      token_trims text_values_def map_filter_def demo_claims_def text_member_def demo_sets Let_def)

lemma demo_claims_hold: "claims_hold demo_token_env 2 demo_issuer (demo_jwt seg kid) 9000000000"
  by (simp add: claims_hold_def demo_jwt_def demo_date demo_audience seconds_def) (simp add: demo_claims_def text_member_def demo_issuer_def token_trims)

lemma demo_bearer: "bearer_token [''bearer h.c.s''] = Some ''h.c.s''"
proof -
  have "go_fields (''bearer'' @ CHR '' '' # ''h.c.s'') = ''bearer'' # go_fields ''h.c.s''"
    by (rule go_fields_word) (simp_all add: visible_def less_eq_char_def)
  moreover have "go_fields ''h.c.s'' = [''h.c.s'']" by (rule go_fields_last) (simp_all add: visible_def less_eq_char_def)
  ultimately show ?thesis by (simp add: bearer_token_def demo_upper)
qed

lemma demo_operation: "operation_id (iw_inventory demo_identity_world) (iw_site demo_identity_world) ''GET'' (normalize_operation_path []) = demo_op"
  by (simp add: operation_id_def normalize_operation_path_def demo_identity_world_def token_trims demo_upper demo_op_def)

lemma demo_meets: "meets (demo_identity_policy m x) demo_who"
  by (simp add: meets_def demo_identity_policy_def demo_who_def)


section \<open>The properties\<close>

abbreviation enforced_store :: identity_store where "enforced_store \<equiv> demo_identity_store ''ENFORCE'' ''reviewed''"
abbreviation demo_wrap :: "identity_store \<Rightarrow> identity_outcome \<times> identity_store" where
  "demo_wrap s \<equiv> wrap_api_identity (iw_inventory demo_identity_world) (iw_token demo_identity_world) (iw_site demo_identity_world)
     demo_verify 2 token_request s"

lemma demo_store_gets: "gm_get (id_policies (demo_identity_store m x)) demo_op = Some (demo_identity_policy m x)"
    "gm_get (id_snapshot (demo_identity_store m x)) demo_op = Some (demo_identity_policy m x)"
    "gm_get (id_runtimes (demo_identity_store m x)) ''i'' = Some demo_runtime"
  by (simp_all add: demo_identity_store_def)

lemma demo_request_op: "operation_id (iw_inventory demo_identity_world) (iw_site demo_identity_world) (iq_method token_request)
    (normalize_operation_path (iq_path token_request)) = demo_op"
  by (simp add: token_request_def demo_operation)

lemma demo_jwt_sels: "pj_alg (demo_jwt seg kid) = ''EDDSA''" "pj_kid (demo_jwt seg kid) = kid" "ji_algs demo_issuer = [''EDDSA'']"
  by (simp_all add: demo_jwt_def demo_issuer_def)

lemma demo_filter: "filter (key_matches ''k1'' ''EDDSA'') [demo_key] = [demo_key]"
  by (simp add: demo_matches)

lemma demo_check: "check_signed demo_token_env 2 demo_issuer (demo_jwt seg ''k1'') demo_key = Inr demo_who"
  using demo_claims_hold [of seg "''k1''"] demo_signed demo_identity
  by (simp add: check_signed_def) (auto simp: check_claims_iff)

lemma demo_verified: "fst (verify_token demo_token_env demo_verify ''h.c.s'' demo_runtime) = Inr demo_who"
  using demo_check [of "''h''"]
  by (simp add: verify_token_def demo_parse refresh_keys_def fresh_keys_def demo_runtime_def demo_verify_def demo_jwks fetched_set_def
      select_key_def demo_jwt_sels demo_matches Let_def)

lemma demo_passed: "fst (demo_wrap enforced_store) = Passed (Some demo_who)"
proof -
  obtain rt n where v: "verify_token demo_token_env demo_verify ''h.c.s'' demo_runtime = (Inr demo_who, rt, n)"
    using demo_verified by (cases "verify_token demo_token_env demo_verify ''h.c.s'' demo_runtime") simp
  have "iw_token demo_identity_world = demo_token_env" by (simp add: demo_identity_world_def)
  moreover have "iq_auth token_request = [''bearer h.c.s'']" by (simp add: token_request_def)
  moreover have "evaluate_requirements (demo_identity_policy ''ENFORCE'' ''reviewed'') demo_who = None" by (simp add: evaluate_meets demo_meets)
  ultimately show ?thesis using v
    by (simp add: wrap_api_identity_def demo_request_op demo_store_gets demo_bearer demo_same decide_verified_def)
qed



text \<open>The same policy once its issuer's keys were fetched.\<close>

definition demo_fresh :: issuer_runtime where "demo_fresh = demo_runtime\<lparr>ir_keys := Some demo_keys\<rparr>"


theorem unknown_key_fetches_witness:
  "fetches_of demo_token_env [(demo_verify, ''u.c.s''), (demo_verify, ''u.c.s'')] demo_fresh = 2"
proof -
  have "unknown_key demo_token_env demo_issuer [demo_key] ''u.c.s''"
    by (simp add: unknown_key_def demo_parse) (simp add: demo_jwt_def demo_issuer_def demo_matches)
  then show ?thesis
    using unknown_key_fetches [of demo_fresh demo_keys 1 "[(demo_verify, ''u.c.s''), (demo_verify, ''u.c.s'')]" demo_token_env None]
    by (simp add: demo_fresh_def demo_runtime_def demo_keys_def demo_verify_def key_miss_min_def) (simp add: demo_issuer_def)
qed

end
